(* ===== verification/Prelude.thy ===== *)
theory Prelude
  imports Complex_Main
begin

text \<open>
  Shared vocabulary of the development.

  \<^item> JavaScript numbers (\<open>js_number\<close>) with the two predicates the sources use on
    them, and the string helpers \<open>trim\<close> and \<open>btrim\<close>.
  \<^item> Results: a call that may throw is a value of \<open>'e + 'a\<close>, \<open>Inl\<close> for the thrown
    error; \<open>and_then\<close> sequences, \<open>ensure\<close> is a guard that throws.
  \<^item> Effects: a database transaction is \<open>('s, 'e, 'a) txn\<close>, which yields no state
    when it throws (the roll-back), and a sequence of separate transactions is
    \<open>('s, 'e, 'a) proc\<close>, which keeps the state reached when it throws;
    \<open>run_txn\<close> turns the first into the second.
  \<^item> Tables: a table is the list of its rows in insertion order, with
    \<open>update_where\<close>, \<open>List.find\<close> and \<open>latest_by\<close> for
    UPDATE \dots{} WHERE, findOneBy and findOne with a descending order.
  \<^item> Calendar: the UTC year and month of an instant.
  The generic lemmas on these operations are collected at the end of each section;
  \<open>table_simps\<close> and \<open>result_simps\<close> are the collections the component
  proofs use.
\<close>

named_theorems table_simps \<open>membership, keys and lookups of updated tables\<close>
named_theorems result_simps \<open>inversion of sequenced results\<close>
named_theorems proc_simps \<open>unfolding of the process combinators\<close>

type_synonym uuid = string
type_synonym timestamp = int
type_synonym 'r table = "'r list"

section \<open>Numbers and strings\<close>

datatype js_number = NaN | PosInf | NegInf | Num rat

definition max_safe_integer :: int where
  "max_safe_integer = 9007199254740991"

definition max_int4 :: int where
  "max_int4 = 2147483647"

definition fits_int4 :: "int \<Rightarrow> bool" where
  "fits_int4 i \<longleftrightarrow> - max_int4 - 1 \<le> i \<and> i \<le> max_int4"

text \<open>\<open>Number.isSafeInteger\<close>, returning the integer itself.\<close>

definition safe_integer :: "js_number \<Rightarrow> int option" where
  "safe_integer v =
     (case v of
        Num q \<Rightarrow>
          (if snd (quotient_of q) = 1 \<and> \<bar>fst (quotient_of q)\<bar> \<le> max_safe_integer
           then Some (fst (quotient_of q)) else None)
      | _ \<Rightarrow> None)"

definition js_int :: "int \<Rightarrow> js_number" where
  "js_int i = Num (of_int i)"

lemma quotient_of_of_int [simp]: "quotient_of (of_int i) = (i, 1)"
  by (simp add: Rat.of_int_def [symmetric] quotient_of_int)

lemma safe_integer_js_int [simp]:
  "safe_integer (js_int i) = (if \<bar>i\<bar> \<le> max_safe_integer then Some i else None)"
  by (simp add: safe_integer_def js_int_def)

lemma safe_integer_SomeD:
  assumes "safe_integer v = Some i"
  shows "v = js_int i"
proof (cases v)
  case (Num q)
  with assms have "quotient_of q = (i, 1)"
    by (auto simp: safe_integer_def prod_eq_iff split: if_splits)
  then have "q = of_int i" using quotient_of_div [of q i 1] by simp
  with Num show ?thesis by (simp add: js_int_def)
qed (use assms in \<open>simp_all add: safe_integer_def\<close>)

text \<open>White space as \<open>String.prototype.trim\<close> removes it, on Latin-1 text.\<close>

definition js_space :: "char \<Rightarrow> bool" where
  "js_space c \<longleftrightarrow> of_char c \<in> {9, 10, 11, 12, 13, 32, 160 :: nat}"

definition trim :: "string \<Rightarrow> string" where
  "trim s = rev (dropWhile js_space (rev (dropWhile js_space s)))"

definition btrim :: "string \<Rightarrow> string" where
  "btrim s = rev (dropWhile (\<lambda>c. c = CHR '' '') (rev (dropWhile (\<lambda>c. c = CHR '' '') s)))"

definition upper_letter :: "char \<Rightarrow> bool" where
  "upper_letter c \<longleftrightarrow> 65 \<le> (of_char c :: nat) \<and> (of_char c :: nat) \<le> 90"

definition digit :: "char \<Rightarrow> bool" where
  "digit c \<longleftrightarrow> 48 \<le> (of_char c :: nat) \<and> (of_char c :: nat) \<le> 57"

text \<open>\<open>String.prototype.split\<close> on one character: never the empty list.\<close>

fun split_on :: "char \<Rightarrow> string \<Rightarrow> string list" where
  "split_on c [] = [[]]"
| "split_on c (x # xs) =
     (if x = c then [] # split_on c xs
      else (case split_on c xs of [] \<Rightarrow> [[x]] | y # ys \<Rightarrow> (x # y) # ys))"

lemma dropWhile_none: "\<forall>x \<in> set xs. \<not> P x \<Longrightarrow> dropWhile P xs = xs"
  by (cases xs) auto

lemma trim_no_space: "\<forall>c \<in> set s. \<not> js_space c \<Longrightarrow> trim s = s"
  by (simp add: trim_def dropWhile_none)

lemma upper_letter_not_space: "upper_letter c \<Longrightarrow> \<not> js_space c"
  by (auto simp: upper_letter_def js_space_def)

lemma trim_upper: "list_all upper_letter s \<Longrightarrow> trim s = s"
  by (auto intro!: trim_no_space simp: list_all_iff upper_letter_not_space)

section \<open>Results\<close>

definition and_then :: "'e + 'a \<Rightarrow> ('a \<Rightarrow> 'e + 'b) \<Rightarrow> 'e + 'b" where
  "and_then m f = (case m of Inl e \<Rightarrow> Inl e | Inr a \<Rightarrow> f a)"

definition ensure :: "bool \<Rightarrow> 'e \<Rightarrow> 'e + unit" where
  "ensure b e = (if b then Inr () else Inl e)"

definition or_throw :: "'a option \<Rightarrow> 'e \<Rightarrow> 'e + 'a" where
  "or_throw x e = (case x of None \<Rightarrow> Inl e | Some a \<Rightarrow> Inr a)"

lemma and_then_simps [simp]:
  "and_then (Inl e) f = Inl e"
  "and_then (Inr a) f = f a"
  by (simp_all add: and_then_def)

lemma and_then_Inr_iff [result_simps]:
  "and_then m f = Inr b \<longleftrightarrow> (\<exists>a. m = Inr a \<and> f a = Inr b)"
  by (cases m) auto

lemma and_then_Inl_iff [result_simps]:
  "and_then m f = Inl e \<longleftrightarrow> m = Inl e \<or> (\<exists>a. m = Inr a \<and> f a = Inl e)"
  by (cases m) auto

lemma ensure_iff [result_simps, simp]:
  "ensure b e = Inr u \<longleftrightarrow> b"
  "ensure b e = Inl e' \<longleftrightarrow> \<not> b \<and> e' = e"
  by (auto simp: ensure_def)

lemma ensure_True [simp]: "ensure True e = Inr ()"
  by (simp add: ensure_def)

lemma ensure_False [simp]: "ensure False e = Inl e"
  by (simp add: ensure_def)

lemma or_throw_simps [simp]:
  "or_throw None e = Inl e"
  "or_throw (Some a) e = Inr a"
  by (simp_all add: or_throw_def)

lemma or_throw_iff [result_simps, simp]:
  "or_throw x e = Inr a \<longleftrightarrow> x = Some a"
  "or_throw x e = Inl e' \<longleftrightarrow> x = None \<and> e' = e"
  by (auto simp: or_throw_def split: option.splits)

section \<open>Transactions and processes\<close>

type_synonym ('s, 'e, 'a) txn = "'s \<Rightarrow> 'e + 'a \<times> 's"
type_synonym ('s, 'e, 'a) proc = "'s \<Rightarrow> ('e + 'a) \<times> 's"

text \<open>
  \<open>runInTenantContext\<close> and \<open>runWithRlsBypass\<close>: the work runs in one database
  transaction, which commits when the callback returns and rolls back when it throws.
\<close>

definition run_txn :: "('s, 'e, 'a) txn \<Rightarrow> ('s, 'e, 'a) proc" where
  "run_txn t s = (case t s of Inl e \<Rightarrow> (Inl e, s) | Inr (a, s') \<Rightarrow> (Inr a, s'))"

definition return :: "'a \<Rightarrow> ('s, 'e, 'a) proc" where
  "return a s = (Inr a, s)"

definition throw :: "'e \<Rightarrow> ('s, 'e, 'a) proc" where
  "throw e s = (Inl e, s)"

definition bind :: "('s, 'e, 'a) proc \<Rightarrow> ('a \<Rightarrow> ('s, 'e, 'b) proc) \<Rightarrow> ('s, 'e, 'b) proc" where
  "bind m f s = (case m s of (Inl e, s') \<Rightarrow> (Inl e, s') | (Inr a, s') \<Rightarrow> f a s')"

definition catch :: "('s, 'e, 'a) proc \<Rightarrow> ('e \<Rightarrow> ('s, 'f, 'a) proc) \<Rightarrow> ('s, 'f, 'a) proc" where
  "catch m h s = (case m s of (Inl e, s') \<Rightarrow> h e s' | (Inr a, s') \<Rightarrow> (Inr a, s'))"

lemma return_apply [simp]: "return a s = (Inr a, s)"
  by (simp add: return_def)

lemma throw_apply [simp]: "throw e s = (Inl e, s)"
  by (simp add: throw_def)

lemma bind_Inr_iff [result_simps]:
  "bind m f s = (Inr b, t) \<longleftrightarrow> (\<exists>a s'. m s = (Inr a, s') \<and> f a s' = (Inr b, t))"
  by (auto simp: bind_def split: prod.splits sum.splits)

lemma bind_Inl_iff [result_simps]:
  "bind m f s = (Inl e, t) \<longleftrightarrow>
     m s = (Inl e, t) \<or> (\<exists>a s'. m s = (Inr a, s') \<and> f a s' = (Inl e, t))"
  by (auto simp: bind_def split: prod.splits sum.splits)

lemma run_txn_Inr_iff [result_simps]: "run_txn t s = (Inr a, s') \<longleftrightarrow> t s = Inr (a, s')"
  by (auto simp: run_txn_def split: sum.splits)

lemma run_txn_Inl_iff [result_simps]: "run_txn t s = (Inl e, s') \<longleftrightarrow> t s = Inl e \<and> s' = s"
  by (auto simp: run_txn_def split: sum.splits)

section \<open>Tables\<close>

definition update_where :: "('r \<Rightarrow> bool) \<Rightarrow> ('r \<Rightarrow> 'r) \<Rightarrow> 'r table \<Rightarrow> 'r table" where
  "update_where P f t = map (\<lambda>r. if P r then f r else r) t"

definition affected :: "('r \<Rightarrow> bool) \<Rightarrow> 'r table \<Rightarrow> nat" where
  "affected P t = length (filter P t)"

text \<open>
  \<open>findOne\<close> with \<open>order: { k: 'DESC' }\<close>: a matching row whose key is greatest; among
  equal keys, where the database promises nothing, the row inserted first.
\<close>

fun latest_by :: "('r \<Rightarrow> int) \<Rightarrow> ('r \<Rightarrow> bool) \<Rightarrow> 'r table \<Rightarrow> 'r option" where
  "latest_by k P [] = None"
| "latest_by k P (r # rs) =
     (case latest_by k P rs of
        None \<Rightarrow> (if P r then Some r else None)
      | Some s \<Rightarrow> (if P r \<and> k s \<le> k r then Some r else Some s))"

lemma latest_by_None_iff: "latest_by k P t = None \<longleftrightarrow> (\<forall>r \<in> set t. \<not> P r)"
  by (induction t) (auto split: option.splits)

lemma latest_by_SomeD:
  "latest_by k P t = Some r \<Longrightarrow> r \<in> set t \<and> P r \<and> (\<forall>s \<in> set t. P s \<longrightarrow> k s \<le> k r)"
proof (induction t arbitrary: r)
  case (Cons a t)
  show ?case
  proof (cases "latest_by k P t")
    case None
    with Cons.prems show ?thesis by (auto simp: latest_by_None_iff split: if_splits)
  next
    case (Some s)
    with Cons.prems Cons.IH [OF Some] show ?thesis by (fastforce split: if_splits)
  qed
qed simp

lemma set_update_where: "set (update_where P f t) = (\<lambda>r. if P r then f r else r) ` set t"
  by (simp add: update_where_def)

lemma in_update_whereE:
  assumes "r \<in> set (update_where P f t)"
  obtains s where "s \<in> set t" "r = (if P s then f s else s)"
  using assms by (auto simp: update_where_def)

lemma update_where_Nil [simp]: "update_where P f [] = []"
  by (simp add: update_where_def)

lemma update_where_Cons [simp]:
  "update_where P f (r # rs) = (if P r then f r else r) # update_where P f rs"
  by (simp add: update_where_def)

lemma update_where_cong_id: "(\<And>r. r \<in> set t \<Longrightarrow> \<not> P r) \<Longrightarrow> update_where P f t = t"
  by (auto simp: update_where_def intro: map_idI)

lemma map_update_where [table_simps]:
  "(\<And>r. g (f r) = g r) \<Longrightarrow> map g (update_where P f t) = map g t"
  by (simp add: update_where_def)

lemma length_update_where [simp]: "length (update_where P f t) = length t"
  by (simp add: update_where_def)

lemma find_SomeD: "List.find P t = Some r \<Longrightarrow> r \<in> set t \<and> P r"
  by (auto simp: find_Some_iff)

lemma find_NoneD: "List.find P t = None \<Longrightarrow> r \<in> set t \<Longrightarrow> \<not> P r"
  by (auto simp: find_None_iff)

lemma find_append:
  "List.find P (xs @ ys) = (case List.find P xs of None \<Rightarrow> List.find P ys | Some r \<Rightarrow> Some r)"
  by (induction xs) auto

lemma find_update_where:
  "(\<And>r. P (f r) = P r) \<Longrightarrow>
   List.find P (update_where Q f t) =
     map_option (\<lambda>r. if Q r then f r else r) (List.find P t)"
  by (induction t) auto

lemma find_unique:
  assumes "distinct (map k t)" "r \<in> set t" "P r"
    and "\<And>s. s \<in> set t \<Longrightarrow> P s \<Longrightarrow> k s = k r"
  shows "List.find P t = Some r"
proof -
  obtain s where s: "List.find P t = Some s"
    using assms(2,3) by (cases "List.find P t") (auto dest: find_NoneD)
  then have "s \<in> set t" "P s" by (auto dest: find_SomeD)
  moreover from this have "k s = k r" using assms(4) by blast
  ultimately have "s = r" using assms(1,2) by (auto simp: distinct_map inj_on_def)
  with s show ?thesis by simp
qed

lemma update_where_const:
  assumes "distinct (map k t)" "r \<in> set t"
  shows "update_where (\<lambda>x. k x = k r) (\<lambda>_. f r) t = update_where (\<lambda>x. k x = k r) f t"
  using assms by (auto simp: update_where_def distinct_map inj_on_def)

lemma update_where_ident: "(\<And>r. r \<in> set t \<Longrightarrow> P r \<Longrightarrow> f r = r) \<Longrightarrow> update_where P f t = t"
  by (auto simp: update_where_def intro: map_idI)

text \<open>Sums over a table, and what replacing one row does to them.\<close>

definition table_sum :: "('r \<Rightarrow> int) \<Rightarrow> 'r table \<Rightarrow> int" where
  "table_sum g t = sum_list (map g t)"

lemma table_sum_simps [simp]:
  "table_sum g [] = 0"
  "table_sum g (r # t) = g r + table_sum g t"
  "table_sum g (t @ u) = table_sum g t + table_sum g u"
  by (simp_all add: table_sum_def)

lemma table_sum_cong: "(\<And>r. r \<in> set t \<Longrightarrow> g r = h r) \<Longrightarrow> table_sum g t = table_sum h t"
  unfolding table_sum_def by (metis map_eq_conv)

lemma table_sum_nonneg: "(\<And>r. r \<in> set t \<Longrightarrow> 0 \<le> g r) \<Longrightarrow> 0 \<le> table_sum g t"
  unfolding table_sum_def by (rule sum_list_nonneg) auto

lemma table_sum_member_le:
  "r \<in> set t \<Longrightarrow> (\<And>s. s \<in> set t \<Longrightarrow> 0 \<le> g s) \<Longrightarrow> g r \<le> table_sum g t"
proof (induction t)
  case (Cons a t)
  have "0 \<le> table_sum g t" by (rule table_sum_nonneg) (use Cons.prems in auto)
  with Cons show ?case by (cases "r = a") fastforce+
qed simp

lemma table_sum_update_one:
  assumes "distinct (map k t)" and "r \<in> set t"
  shows "table_sum g (update_where (\<lambda>x. k x = k r) f t) = table_sum g t - g r + g (f r)"
  using assms
proof (induction t)
  case (Cons a t)
  show ?case
  proof (cases "a = r")
    case True
    with Cons.prems have "\<And>s. s \<in> set t \<Longrightarrow> k s \<noteq> k r" by (auto simp: image_iff)
    with True show ?thesis by (simp add: update_where_cong_id)
  next
    case False
    with Cons.prems have "r \<in> set t" "k a \<noteq> k r" by (auto simp: image_iff)
    with Cons show ?thesis by simp
  qed
qed simp

lemma affected_one:
  assumes "distinct (map k t)" "r \<in> set t" "P r" "\<And>s. s \<in> set t \<Longrightarrow> P s \<Longrightarrow> k s = k r"
  shows "affected P t = 1"
proof -
  have "s = r" if "s \<in> set t" "P s" for s
    using inj_onD [of k "set t" s r] assms(1,2) assms(4) [OF that] that(1) by (simp add: distinct_map)
  then have "set (filter P t) = {r}" using assms(2,3) unfolding set_filter by blast
  moreover have "distinct (filter P t)" using assms(1) by (simp add: distinct_map)
  ultimately have "length (filter P t) = card {r}" by (metis distinct_card)
  then show ?thesis by (simp add: affected_def)
qed

text \<open>Every row of a table has a successor in a later table.\<close>

definition grows :: "('r \<Rightarrow> 'r \<Rightarrow> bool) \<Rightarrow> 'r table \<Rightarrow> 'r table \<Rightarrow> bool" where
  "grows R t u \<longleftrightarrow> (\<forall>r \<in> set t. \<exists>s \<in> set u. R r s)"

lemma growsD: "grows R t u \<Longrightarrow> r \<in> set t \<Longrightarrow> \<exists>s \<in> set u. R r s"
  by (auto simp: grows_def)

lemma grows_refl: "(\<And>r. R r r) \<Longrightarrow> grows R t t"
  by (auto simp: grows_def)

lemma grows_trans: "transp R \<Longrightarrow> grows R t u \<Longrightarrow> grows R u v \<Longrightarrow> grows R t v"
  unfolding grows_def by (meson transpD)

lemma grows_append: "(\<And>r. R r r) \<Longrightarrow> grows R t (t @ u)"
  by (auto simp: grows_def)

lemma grows_update_where:
  "(\<And>r. R r r) \<Longrightarrow> (\<And>r. r \<in> set t \<Longrightarrow> P r \<Longrightarrow> R r (f r)) \<Longrightarrow> grows R t (update_where P f t)"
  unfolding grows_def set_update_where
  by (intro ballI) (rule_tac x = "if P r then f r else r" in bexI, auto)

section \<open>Calendar\<close>

text \<open>
  \<open>getUTCFullYear\<close> and \<open>getUTCMonth\<close>, and PostgreSQL's \<open>date_trunc('month', \<dots>)\<close>:
  the civil year and month (from 1) of an instant in milliseconds since the epoch, in
  the proleptic Gregorian calendar, with eras of 146097 days starting on 1 March.
\<close>

definition utc_year_month :: "timestamp \<Rightarrow> int \<times> int" where
  "utc_year_month t =
     (let z = t div 86400000 + 719468;
          era = z div 146097;
          doe = z mod 146097;
          yoe = (doe - doe div 1460 + doe div 36524 - doe div 146096) div 365;
          doy = doe - (365 * yoe + yoe div 4 - yoe div 100);
          mp = (5 * doy + 2) div 153;
          m = (if mp < 10 then mp + 3 else mp - 9)
      in (yoe + era * 400 + (if m \<le> 2 then 1 else 0), m))"

lemma utc_year_month_epoch: "utc_year_month 0 = (1970, 1)"
  by code_simp

lemma utc_year_month_leap: "utc_year_month 1709164800000 = (2024, 2)"
  by code_simp

end
