(* ===== verification/Budget_Ledger.thy ===== *)
theory Budget_Ledger
  imports Prelude
begin

text \<open>
  The authority for agent budgets, \<open>src/src/agent-runtime/agent-budget-ledger.service.ts\<close>
  with its three tables (\<open>agent_budget_ledgers\<close>, \<open>agent_budget_reservations\<close>,
  \<open>tenant_agent_budget_usage\<close>) and the tenant columns that configure the monthly
  allowance. Each public method is one database transaction and is modelled by one
  function into \<open>budget_error + 'a \<times> budget_db\<close>. The database clock (\<open>now()\<close>), the
  process clock (\<open>Date.now()\<close>) and the generated row id are arguments; an id that is
  already taken meets the primary key.

  The first SELECT of \<open>reserve\<close> may run before a concurrent transaction that inserts
  the same key becomes visible; the argument \<open>stale\<close> says that it did, and the
  insert then meets the unique index and the recovery branch.

  The theorems are in \<open>Budget_Invariant\<close>.
\<close>

section \<open>Rows\<close>

datatype AgentBudgetReservationStatus = Reserved | Committed | Released | Unknown

record 'n AgentBudgetUnits =
  stepUnits :: 'n
  tokenUnits :: 'n
  providerCallUnits :: 'n
  costMinorUnits :: 'n

record AgentBudgetLedger =
  led_id :: uuid
  led_tenantId :: uuid
  led_caseId :: uuid
  led_workflowRunId :: string
  stepLimit :: int
  stepUsed :: int
  stepReserved :: int
  tokenLimit :: int
  tokenUsed :: int
  tokenReserved :: int
  providerCallLimit :: int
  providerCallUsed :: int
  providerCallReserved :: int
  costLimitMinorUnits :: int
  costUsedMinorUnits :: int
  costReservedMinorUnits :: int
  led_currency :: string
  led_startedAt :: timestamp
  led_deadlineAt :: timestamp
  led_version :: int
  led_closedAt :: "timestamp option"

type_synonym window = "int \<times> int" \<comment> \<open>year and month of a \<open>windowStart\<close> date\<close>

record AgentBudgetReservation =
  res_id :: uuid
  res_tenantId :: uuid
  res_ledgerId :: uuid
  res_idempotencyKey :: string
  res_units :: "int AgentBudgetUnits"
  aggregateWindowStart :: "window option"
  actualCostMinorUnits :: "int option"
  res_status :: AgentBudgetReservationStatus
  res_resolvedAt :: "timestamp option"
  res_resolvedBy :: "string option"
  res_resolutionNote :: "string option"

record TenantAgentBudgetUsage =
  use_tenantId :: uuid
  use_windowStart :: window
  use_providerCallUsed :: int
  use_providerCallReserved :: int
  use_costUsedMinorUnits :: int
  use_costReservedMinorUnits :: int
  use_currency :: string

record TenantBudgetConfig =
  ten_id :: uuid
  agentMonthlyProviderCallLimit :: "int option"
  agentMonthlyCostLimitMinorUnits :: "int option"
  agentBudgetCurrency :: "string option"

record budget_db =
  ledgers :: "AgentBudgetLedger table"
  reservations :: "AgentBudgetReservation table"
  usages :: "TenantAgentBudgetUsage table"
  tenants :: "TenantBudgetConfig table"

record clock =
  db_now :: timestamp
  js_now :: timestamp

section \<open>Errors and results\<close>

datatype AgentBudgetFailureCode =
    BUDGET_EXHAUSTED | DEADLINE_EXCEEDED | LEDGER_VERSION_CONFLICT | LEDGER_CLOSED
  | RESERVATION_CONFLICT

datatype budget_error =
    AgentBudgetError AgentBudgetFailureCode string
  | EntityNotFoundError
  | IntegerOutOfRange \<comment> \<open>an int4 expression of a query overflows\<close>
  | CheckViolation \<comment> \<open>a column constraint refuses the row\<close>
  | UniqueViolation \<comment> \<open>SQLSTATE 23505\<close>

record AgentBudgetLedgerInput =
  in_tenantId :: uuid
  in_caseId :: uuid
  in_workflowRunId :: string
  in_stepLimit :: js_number
  in_tokenLimit :: js_number
  in_providerCallLimit :: js_number
  in_costLimitMinorUnits :: js_number
  in_currency :: string
  in_startedAt :: timestamp
  in_deadlineAt :: timestamp

record AgentBudgetSnapshot =
  ledgerId :: uuid
  snap_version :: int
  remainingSteps :: int
  remainingTokens :: int
  remainingProviderCalls :: int
  remainingCostMinorUnits :: int
  remainingDurationMs :: int
  snap_currency :: string
  snap_startedAt :: timestamp
  snap_deadlineAt :: timestamp
  closed :: bool

record AgentBudgetReservationReceipt =
  reservationId :: uuid
  idempotencyKey :: string
  status :: AgentBudgetReservationStatus
  units :: "int AgentBudgetUnits"
  rec_actualCostMinorUnits :: "int option"
  replayed :: bool
  ledger :: AgentBudgetSnapshot

record AgentBudgetAggregateUsageSnapshot =
  agg_windowStart :: window
  agg_enabled :: bool
  agg_currency :: "string option"
  agg_providerCallLimit :: "int option"
  agg_providerCallUsed :: int
  agg_providerCallReserved :: int
  agg_remainingProviderCalls :: "int option"
  agg_costLimitMinorUnits :: "int option"
  agg_costUsedMinorUnits :: int
  agg_costReservedMinorUnits :: int
  agg_remainingCostMinorUnits :: "int option"

record reserve_input =
  rsv_tenantId :: uuid
  rsv_ledgerId :: uuid
  rsv_idempotencyKey :: string
  rsv_expectedVersion :: int
  rsv_units :: "js_number AgentBudgetUnits"

record commit_input =
  cmt_tenantId :: uuid
  cmt_reservationId :: uuid
  cmt_actualCostMinorUnits :: "js_number option"
  cmt_requireUnknown :: bool
  cmt_resolvedBy :: "string option"
  cmt_resolutionNote :: "string option"

record manual_resolution =
  man_resolvedBy :: string
  man_resolutionNote :: string

section \<open>Validation\<close>

definition assertNonnegativeInt :: "js_number \<Rightarrow> string \<Rightarrow> budget_error + int" where
  "assertNonnegativeInt v name =
     (case safe_integer v of
        Some i \<Rightarrow>
          (if 0 \<le> i \<and> i \<le> max_int4 then Inr i
           else Inl (AgentBudgetError RESERVATION_CONFLICT
                  (name @ '' must be a nonnegative 32-bit safe integer'')))
      | None \<Rightarrow> Inl (AgentBudgetError RESERVATION_CONFLICT
                  (name @ '' must be a nonnegative 32-bit safe integer'')))"

definition validateUnits :: "js_number AgentBudgetUnits \<Rightarrow> budget_error + int AgentBudgetUnits" where
  "validateUnits u =
     and_then (assertNonnegativeInt (stepUnits u) ''stepUnits'') (\<lambda>s.
     and_then (assertNonnegativeInt (tokenUnits u) ''tokenUnits'') (\<lambda>t.
     and_then (assertNonnegativeInt (providerCallUnits u) ''providerCallUnits'') (\<lambda>p.
     and_then (assertNonnegativeInt (costMinorUnits u) ''costMinorUnits'') (\<lambda>c.
       if s = 0 \<and> t = 0 \<and> p = 0 \<and> c = 0
       then Inl (AgentBudgetError RESERVATION_CONFLICT
              ''A budget reservation must claim at least one unit'')
       else Inr \<lparr>stepUnits = s, tokenUnits = t, providerCallUnits = p, costMinorUnits = c\<rparr>))))"

definition validateManualResolution :: "string option \<Rightarrow> string option \<Rightarrow> budget_error + unit" where
  "validateManualResolution resolvedBy note =
     and_then
       (ensure
          (case resolvedBy of None \<Rightarrow> False | Some s \<Rightarrow> trim s \<noteq> [] \<and> length s \<le> 200)
          (AgentBudgetError RESERVATION_CONFLICT
             ''Manual reconciliation requires a bounded reviewer identity''))
       (\<lambda>_. ensure
          (case note of None \<Rightarrow> False
           | Some s \<Rightarrow> trim s \<noteq> [] \<and> 10 \<le> length s \<and> length s \<le> 2000)
          (AgentBudgetError RESERVATION_CONFLICT
             ''Manual reconciliation requires a 10-2000 character evidence note''))"

definition valid_currency :: "string \<Rightarrow> bool" where
  "valid_currency s \<longleftrightarrow> length s = 3 \<and> list_all upper_letter s"

text \<open>The validated limits come back as the integers that are stored.\<close>

definition validateLedgerInput :: "AgentBudgetLedgerInput \<Rightarrow> budget_error + int AgentBudgetUnits" where
  "validateLedgerInput i =
     and_then (assertNonnegativeInt (in_stepLimit i) ''step limit'') (\<lambda>s.
     and_then (assertNonnegativeInt (in_tokenLimit i) ''token limit'') (\<lambda>t.
     and_then (assertNonnegativeInt (in_providerCallLimit i) ''provider-call limit'') (\<lambda>p.
     and_then (assertNonnegativeInt (in_costLimitMinorUnits i) ''cost limit'') (\<lambda>c.
     and_then (ensure (valid_currency (in_currency i))
       (AgentBudgetError RESERVATION_CONFLICT
          ''Budget currency must be a three-letter uppercase code'')) (\<lambda>_.
     and_then (ensure (in_startedAt i < in_deadlineAt i)
       (AgentBudgetError DEADLINE_EXCEEDED
          ''Agent deadline must be after its trusted start time'')) (\<lambda>_.
       Inr \<lparr>stepUnits = s, tokenUnits = t, providerCallUnits = p, costMinorUnits = c\<rparr>))))))"

definition assertSameLedgerConfiguration ::
  "AgentBudgetLedger \<Rightarrow> AgentBudgetLedgerInput \<Rightarrow> int AgentBudgetUnits \<Rightarrow> budget_error + unit" where
  "assertSameLedgerConfiguration l i lims =
     ensure
       (led_caseId l = in_caseId i
        \<and> stepLimit l = stepUnits lims
        \<and> tokenLimit l = tokenUnits lims
        \<and> providerCallLimit l = providerCallUnits lims
        \<and> costLimitMinorUnits l = costMinorUnits lims
        \<and> trim (led_currency l) = in_currency i)
       (AgentBudgetError RESERVATION_CONFLICT
          ''A workflow retry cannot reset or alter its existing budget ledger'')"

definition assertSameUnits ::
  "AgentBudgetReservation \<Rightarrow> int AgentBudgetUnits \<Rightarrow> budget_error + unit" where
  "assertSameUnits r u =
     ensure (res_units r = u)
       (AgentBudgetError RESERVATION_CONFLICT
          ''A reservation idempotency key cannot be reused for different units'')"

definition isUniqueViolation :: "budget_error \<Rightarrow> bool" where
  "isUniqueViolation e \<longleftrightarrow> e = UniqueViolation"

section \<open>Snapshots and receipts\<close>

definition snapshot :: "clock \<Rightarrow> AgentBudgetLedger \<Rightarrow> AgentBudgetSnapshot" where
  "snapshot ck l =
     \<lparr>ledgerId = led_id l,
      snap_version = led_version l,
      remainingSteps = max 0 (stepLimit l - stepUsed l - stepReserved l),
      remainingTokens = max 0 (tokenLimit l - tokenUsed l - tokenReserved l),
      remainingProviderCalls =
        max 0 (providerCallLimit l - providerCallUsed l - providerCallReserved l),
      remainingCostMinorUnits =
        max 0 (costLimitMinorUnits l - costUsedMinorUnits l - costReservedMinorUnits l),
      remainingDurationMs = max 0 (led_deadlineAt l - js_now ck),
      snap_currency = trim (led_currency l),
      snap_startedAt = led_startedAt l,
      snap_deadlineAt = led_deadlineAt l,
      closed = (led_closedAt l \<noteq> None)\<rparr>"

definition receipt ::
  "clock \<Rightarrow> AgentBudgetReservation \<Rightarrow> AgentBudgetLedger \<Rightarrow> bool \<Rightarrow> AgentBudgetReservationReceipt" where
  "receipt ck r l again =
     \<lparr>reservationId = res_id r,
      idempotencyKey = res_idempotencyKey r,
      status = res_status r,
      units = res_units r,
      rec_actualCostMinorUnits = actualCostMinorUnits r,
      replayed = again,
      ledger = snapshot ck l\<rparr>"

definition find_ledger :: "uuid \<Rightarrow> uuid \<Rightarrow> budget_db \<Rightarrow> AgentBudgetLedger option" where
  "find_ledger tenant lid db = List.find (\<lambda>l. led_id l = lid \<and> led_tenantId l = tenant) (ledgers db)"

definition receiptFor ::
  "clock \<Rightarrow> AgentBudgetReservation \<Rightarrow> bool \<Rightarrow> budget_db \<Rightarrow> budget_error + AgentBudgetReservationReceipt" where
  "receiptFor ck r again db =
     and_then (or_throw (find_ledger (res_tenantId r) (res_ledgerId r) db) EntityNotFoundError)
       (\<lambda>l. Inr (receipt ck r l again))"

section \<open>Reads\<close>

definition listUnknown ::
  "uuid \<Rightarrow> js_number \<Rightarrow> budget_db \<Rightarrow> budget_error + AgentBudgetReservation list" where
  "listUnknown tenant limit db =
     (case safe_integer limit of
        Some n \<Rightarrow>
          (if 1 \<le> n \<and> n \<le> 100
           then Inr (take (nat n)
             (filter (\<lambda>r. res_tenantId r = tenant \<and> res_status r = Unknown) (reservations db)))
           else Inl (AgentBudgetError RESERVATION_CONFLICT
                  ''Unknown-reservation page size must be between 1 and 100''))
      | None \<Rightarrow> Inl (AgentBudgetError RESERVATION_CONFLICT
                  ''Unknown-reservation page size must be between 1 and 100''))"

definition find_usage :: "uuid \<Rightarrow> window \<Rightarrow> budget_db \<Rightarrow> TenantAgentBudgetUsage option" where
  "find_usage tenant w db =
     List.find (\<lambda>u. use_tenantId u = tenant \<and> use_windowStart u = w) (usages db)"

definition find_tenant :: "uuid \<Rightarrow> budget_db \<Rightarrow> TenantBudgetConfig option" where
  "find_tenant tenant db = List.find (\<lambda>t. ten_id t = tenant) (tenants db)"

definition observeAggregateUsage ::
  "uuid \<Rightarrow> timestamp \<Rightarrow> budget_db \<Rightarrow> budget_error + AgentBudgetAggregateUsageSnapshot" where
  "observeAggregateUsage tenant instant db =
     (let w = utc_year_month instant in
      and_then (or_throw (find_tenant tenant db) EntityNotFoundError) (\<lambda>t.
      let usage = find_usage tenant w db;
          enabled = (agentMonthlyProviderCallLimit t \<noteq> None
                     \<and> agentMonthlyCostLimitMinorUnits t \<noteq> None
                     \<and> agentBudgetCurrency t \<noteq> None);
          callUsed = (case usage of None \<Rightarrow> 0 | Some u \<Rightarrow> use_providerCallUsed u);
          callReserved = (case usage of None \<Rightarrow> 0 | Some u \<Rightarrow> use_providerCallReserved u);
          costUsed = (case usage of None \<Rightarrow> 0 | Some u \<Rightarrow> use_costUsedMinorUnits u);
          costReserved = (case usage of None \<Rightarrow> 0 | Some u \<Rightarrow> use_costReservedMinorUnits u)
      in Inr
        \<lparr>agg_windowStart = w,
         agg_enabled = enabled,
         agg_currency =
           (case agentBudgetCurrency t of
              Some c \<Rightarrow> Some (trim c)
            | None \<Rightarrow> map_option (\<lambda>u. trim (use_currency u)) usage),
         agg_providerCallLimit = agentMonthlyProviderCallLimit t,
         agg_providerCallUsed = callUsed,
         agg_providerCallReserved = callReserved,
         agg_remainingProviderCalls =
           (if enabled
            then map_option (\<lambda>lims. max 0 (lims - callUsed - callReserved))
                   (agentMonthlyProviderCallLimit t)
            else None),
         agg_costLimitMinorUnits = agentMonthlyCostLimitMinorUnits t,
         agg_costUsedMinorUnits = costUsed,
         agg_costReservedMinorUnits = costReserved,
         agg_remainingCostMinorUnits =
           (if enabled
            then map_option (\<lambda>lims. max 0 (lims - costUsed - costReserved))
                   (agentMonthlyCostLimitMinorUnits t)
            else None)\<rparr>))"

definition observe :: "clock \<Rightarrow> uuid \<Rightarrow> uuid \<Rightarrow> budget_db \<Rightarrow> budget_error + AgentBudgetSnapshot" where
  "observe ck tenant lid db =
     and_then (or_throw (find_ledger tenant lid db) EntityNotFoundError)
       (\<lambda>l. Inr (snapshot ck l))"

section \<open>Creating a ledger\<close>

definition new_ledger :: "uuid \<Rightarrow> AgentBudgetLedgerInput \<Rightarrow> int AgentBudgetUnits \<Rightarrow> AgentBudgetLedger" where
  "new_ledger newId i lims =
     \<lparr>led_id = newId, led_tenantId = in_tenantId i, led_caseId = in_caseId i,
      led_workflowRunId = in_workflowRunId i,
      stepLimit = stepUnits lims, stepUsed = 0, stepReserved = 0,
      tokenLimit = tokenUnits lims, tokenUsed = 0, tokenReserved = 0,
      providerCallLimit = providerCallUnits lims, providerCallUsed = 0, providerCallReserved = 0,
      costLimitMinorUnits = costMinorUnits lims, costUsedMinorUnits = 0,
      costReservedMinorUnits = 0,
      led_currency = in_currency i, led_startedAt = in_startedAt i,
      led_deadlineAt = in_deadlineAt i, led_version = 1, led_closedAt = None\<rparr>"

text \<open>
  The insert and the re-read are one transaction; the comparison with the stored
  configuration comes after its commit, so a refusal leaves the row that was there.
\<close>

definition insert_or_load_ledger ::
  "uuid \<Rightarrow> AgentBudgetLedgerInput \<Rightarrow> int AgentBudgetUnits
     \<Rightarrow> budget_db \<Rightarrow> budget_error + AgentBudgetLedger \<times> budget_db" where
  "insert_or_load_ledger newId i lims db =
     (case List.find (\<lambda>l. led_tenantId l = in_tenantId i \<and> led_workflowRunId l = in_workflowRunId i)
             (ledgers db) of
        Some l \<Rightarrow> Inr (l, db)
      | None \<Rightarrow>
          if \<exists>l \<in> set (ledgers db). led_id l = newId then Inl UniqueViolation
          else Inr (new_ledger newId i lims,
                    db\<lparr>ledgers := ledgers db @ [new_ledger newId i lims]\<rparr>))"

definition createOrLoad ::
  "clock \<Rightarrow> uuid \<Rightarrow> AgentBudgetLedgerInput \<Rightarrow> (budget_db, budget_error, AgentBudgetSnapshot) proc" where
  "createOrLoad ck newId i db =
     (case validateLedgerInput i of
        Inl e \<Rightarrow> (Inl e, db)
      | Inr lims \<Rightarrow>
          (case insert_or_load_ledger newId i lims db of
             Inl e \<Rightarrow> (Inl e, db)
           | Inr (l, db') \<Rightarrow>
               (and_then (assertSameLedgerConfiguration l i lims) (\<lambda>_. Inr (snapshot ck l)), db')))"

section \<open>Row updates\<close>

definition ledger_row_ok :: "AgentBudgetLedger \<Rightarrow> bool" where
  "ledger_row_ok l \<longleftrightarrow>
     list_all (\<lambda>n. 0 \<le> n \<and> n \<le> max_int4)
       [stepUsed l, stepReserved l, tokenUsed l, tokenReserved l,
        providerCallUsed l, providerCallReserved l, costUsedMinorUnits l,
        costReservedMinorUnits l]
     \<and> 0 < led_version l \<and> led_version l \<le> max_int4"

definition usage_row_ok :: "TenantAgentBudgetUsage \<Rightarrow> bool" where
  "usage_row_ok u \<longleftrightarrow>
     list_all (\<lambda>n. 0 \<le> n \<and> n \<le> max_int4)
       [use_providerCallUsed u, use_providerCallReserved u, use_costUsedMinorUnits u,
        use_costReservedMinorUnits u]"

definition put_ledger :: "AgentBudgetLedger \<Rightarrow> budget_db \<Rightarrow> budget_error + budget_db" where
  "put_ledger l db =
     (if ledger_row_ok l
      then Inr (db\<lparr>ledgers := update_where (\<lambda>x. led_id x = led_id l) (\<lambda>_. l) (ledgers db)\<rparr>)
      else Inl CheckViolation)"

definition usage_key :: "TenantAgentBudgetUsage \<Rightarrow> uuid \<times> window" where
  "usage_key u = (use_tenantId u, use_windowStart u)"

definition put_usage :: "TenantAgentBudgetUsage \<Rightarrow> budget_db \<Rightarrow> budget_error + budget_db" where
  "put_usage u db =
     (if usage_row_ok u
      then Inr (db\<lparr>usages := update_where (\<lambda>x. usage_key x = usage_key u) (\<lambda>_. u) (usages db)\<rparr>)
      else Inl CheckViolation)"

definition save_reservation :: "AgentBudgetReservation \<Rightarrow> budget_db \<Rightarrow> budget_db" where
  "save_reservation r db =
     db\<lparr>reservations := update_where (\<lambda>x. res_id x = res_id r) (\<lambda>_. r) (reservations db)\<rparr>"

definition insert_reservation :: "AgentBudgetReservation \<Rightarrow> budget_db \<Rightarrow> budget_error + budget_db" where
  "insert_reservation r db =
     (if \<exists>x \<in> set (reservations db).
           res_id x = res_id r
           \<or> res_ledgerId x = res_ledgerId r \<and> res_idempotencyKey x = res_idempotencyKey r
      then Inl UniqueViolation
      else Inr (db\<lparr>reservations := reservations db @ [r]\<rparr>))"

text \<open>An int4 sum that overflows aborts the query.\<close>

definition int4_le :: "int list \<Rightarrow> int \<Rightarrow> budget_error + bool" where
  "int4_le ns limit =
     (if list_all (\<lambda>k. fits_int4 (sum_list (take k ns))) [0..<length ns + 1]
      then Inr (sum_list ns \<le> limit) else Inl IntegerOutOfRange)"

text \<open>SQL conjunction, evaluated from the left.\<close>

definition sql_and :: "budget_error + bool \<Rightarrow> budget_error + bool \<Rightarrow> budget_error + bool" where
  "sql_and a b = and_then a (\<lambda>x. if x then b else Inr False)"

section \<open>The tenant's monthly allowance\<close>

definition ensure_usage_row :: "clock \<Rightarrow> uuid \<Rightarrow> string \<Rightarrow> budget_db \<Rightarrow> budget_db" where
  "ensure_usage_row ck tenant currency db =
     (case find_tenant tenant db of
        Some t \<Rightarrow>
          (case agentBudgetCurrency t of
             Some c \<Rightarrow>
               (if agentMonthlyProviderCallLimit t \<noteq> None
                   \<and> agentMonthlyCostLimitMinorUnits t \<noteq> None
                   \<and> btrim c = currency
                   \<and> find_usage tenant (utc_year_month (db_now ck)) db = None
                then db\<lparr>usages := usages db @
                       [\<lparr>use_tenantId = tenant, use_windowStart = utc_year_month (db_now ck),
                         use_providerCallUsed = 0, use_providerCallReserved = 0,
                         use_costUsedMinorUnits = 0, use_costReservedMinorUnits = 0,
                         use_currency = c\<rparr>]\<rparr>
                else db)
           | None \<Rightarrow> db)
      | None \<Rightarrow> db)"

definition usage_where ::
  "string \<Rightarrow> int AgentBudgetUnits \<Rightarrow> TenantBudgetConfig \<Rightarrow> TenantAgentBudgetUsage \<Rightarrow> budget_error + bool" where
  "usage_where currency n t u =
     (case (agentBudgetCurrency t, agentMonthlyProviderCallLimit t, agentMonthlyCostLimitMinorUnits t) of
        (Some c, Some callLimit, Some costLimit) \<Rightarrow>
          sql_and (Inr (btrim (use_currency u) = currency \<and> btrim c = currency))
          (sql_and (int4_le [use_providerCallUsed u, use_providerCallReserved u, providerCallUnits n] callLimit)
            (int4_le [use_costUsedMinorUnits u, use_costReservedMinorUnits u, costMinorUnits n] costLimit))
      | _ \<Rightarrow> Inr False)"

definition reserveTenantAggregate ::
  "clock \<Rightarrow> uuid \<Rightarrow> string \<Rightarrow> int AgentBudgetUnits \<Rightarrow> budget_db \<Rightarrow> budget_error + window option \<times> budget_db" where
  "reserveTenantAggregate ck tenant currency n db =
     (if providerCallUnits n = 0 \<and> costMinorUnits n = 0 then Inr (None, db)
      else
        (let w = utc_year_month (db_now ck);
             db1 = ensure_usage_row ck tenant currency db
         in case (find_usage tenant w db1, find_tenant tenant db1) of
              (Some u, Some t) \<Rightarrow>
                and_then (usage_where currency n t u) (\<lambda>hit.
                  if hit
                  then and_then (put_usage
                         (u\<lparr>use_providerCallReserved := use_providerCallReserved u + providerCallUnits n,
                            use_costReservedMinorUnits := use_costReservedMinorUnits u + costMinorUnits n\<rparr>) db1)
                         (\<lambda>db2. Inr (Some w, db2))
                  else Inl (AgentBudgetError BUDGET_EXHAUSTED
                         ''Tenant aggregate Agent budget is unavailable or exhausted''))
            | _ \<Rightarrow> Inl (AgentBudgetError BUDGET_EXHAUSTED
                     ''Tenant aggregate Agent budget is unavailable or exhausted'')))"

definition commit_usage_where ::
  "AgentBudgetReservation \<Rightarrow> int \<Rightarrow> TenantBudgetConfig option \<Rightarrow> TenantAgentBudgetUsage \<Rightarrow> budget_error + bool" where
  "commit_usage_where r actual tenant u =
     (if providerCallUnits (res_units r) \<le> use_providerCallReserved u
         \<and> costMinorUnits (res_units r) \<le> use_costReservedMinorUnits u
      then
        (if actual \<le> costMinorUnits (res_units r) then Inr True
         else (case tenant of
                 None \<Rightarrow> Inr False
               | Some t \<Rightarrow>
                   (case (agentBudgetCurrency t, agentMonthlyCostLimitMinorUnits t) of
                      (Some c, Some costLimit) \<Rightarrow>
                        sql_and (Inr (btrim c = btrim (use_currency u)))
                          (int4_le [use_costUsedMinorUnits u, use_costReservedMinorUnits u,
                                    - costMinorUnits (res_units r), actual] costLimit)
                    | _ \<Rightarrow> Inr False)))
      else Inr False)"

definition commitTenantAggregate ::
  "AgentBudgetReservation \<Rightarrow> int \<Rightarrow> budget_db \<Rightarrow> budget_error + budget_db" where
  "commitTenantAggregate r actual db =
     (case aggregateWindowStart r of
        None \<Rightarrow> Inr db
      | Some w \<Rightarrow>
          (case find_usage (res_tenantId r) w db of
             None \<Rightarrow> Inl (AgentBudgetError BUDGET_EXHAUSTED
                      ''Actual provider cost exceeds the tenant aggregate Agent budget'')
           | Some u \<Rightarrow>
               and_then (commit_usage_where r actual (find_tenant (use_tenantId u) db) u) (\<lambda>hit.
                 if hit
                 then put_usage
                   (u\<lparr>use_providerCallReserved := use_providerCallReserved u - providerCallUnits (res_units r),
                      use_providerCallUsed := use_providerCallUsed u + providerCallUnits (res_units r),
                      use_costReservedMinorUnits := use_costReservedMinorUnits u - costMinorUnits (res_units r),
                      use_costUsedMinorUnits := use_costUsedMinorUnits u + actual\<rparr>) db
                 else Inl (AgentBudgetError BUDGET_EXHAUSTED
                   ''Actual provider cost exceeds the tenant aggregate Agent budget''))))"

definition releaseTenantAggregate :: "AgentBudgetReservation \<Rightarrow> budget_db \<Rightarrow> budget_error + budget_db" where
  "releaseTenantAggregate r db =
     (case aggregateWindowStart r of
        None \<Rightarrow> Inr db
      | Some w \<Rightarrow>
          (case find_usage (res_tenantId r) w db of
             Some u \<Rightarrow>
               (if providerCallUnits (res_units r) \<le> use_providerCallReserved u
                   \<and> costMinorUnits (res_units r) \<le> use_costReservedMinorUnits u
                then put_usage
                  (u\<lparr>use_providerCallReserved := use_providerCallReserved u - providerCallUnits (res_units r),
                     use_costReservedMinorUnits := use_costReservedMinorUnits u - costMinorUnits (res_units r)\<rparr>) db
                else Inl (AgentBudgetError RESERVATION_CONFLICT
                       ''Tenant aggregate reservation no longer exists''))
           | None \<Rightarrow> Inl (AgentBudgetError RESERVATION_CONFLICT
                    ''Tenant aggregate reservation no longer exists'')))"

section \<open>Reserving\<close>

definition reserve_where ::
  "clock \<Rightarrow> reserve_input \<Rightarrow> int AgentBudgetUnits \<Rightarrow> AgentBudgetLedger \<Rightarrow> budget_error + bool" where
  "reserve_where ck i n l =
     sql_and (Inr (led_version l = rsv_expectedVersion i \<and> led_closedAt l = None
                   \<and> db_now ck < led_deadlineAt l))
     (sql_and (int4_le [stepUsed l, stepReserved l, stepUnits n] (stepLimit l))
     (sql_and (int4_le [tokenUsed l, tokenReserved l, tokenUnits n] (tokenLimit l))
     (sql_and (int4_le [providerCallUsed l, providerCallReserved l, providerCallUnits n] (providerCallLimit l))
       (int4_le [costUsedMinorUnits l, costReservedMinorUnits l, costMinorUnits n] (costLimitMinorUnits l)))))"

definition claim_ledger :: "int AgentBudgetUnits \<Rightarrow> AgentBudgetLedger \<Rightarrow> AgentBudgetLedger" where
  "claim_ledger n l =
     l\<lparr>stepReserved := stepReserved l + stepUnits n,
       tokenReserved := tokenReserved l + tokenUnits n,
       providerCallReserved := providerCallReserved l + providerCallUnits n,
       costReservedMinorUnits := costReservedMinorUnits l + costMinorUnits n,
       led_version := led_version l + 1\<rparr>"

definition throwReservationFailure :: "clock \<Rightarrow> reserve_input \<Rightarrow> budget_db \<Rightarrow> budget_error" where
  "throwReservationFailure ck i db =
     (case find_ledger (rsv_tenantId i) (rsv_ledgerId i) db of
        None \<Rightarrow> EntityNotFoundError
      | Some l \<Rightarrow>
          if led_closedAt l \<noteq> None
          then AgentBudgetError LEDGER_CLOSED ''Agent budget ledger is closed''
          else if led_deadlineAt l \<le> js_now ck
          then AgentBudgetError DEADLINE_EXCEEDED ''Agent run deadline has been exceeded''
          else if led_version l \<noteq> rsv_expectedVersion i
          then AgentBudgetError LEDGER_VERSION_CONFLICT ''Agent budget ledger version is stale''
          else AgentBudgetError BUDGET_EXHAUSTED ''Agent budget capacity is exhausted'')"

definition find_claim :: "reserve_input \<Rightarrow> budget_db \<Rightarrow> AgentBudgetReservation option" where
  "find_claim i db =
     List.find (\<lambda>r. res_ledgerId r = rsv_ledgerId i \<and> res_tenantId r = rsv_tenantId i
                    \<and> res_idempotencyKey r = rsv_idempotencyKey i) (reservations db)"

definition new_reservation ::
  "uuid \<Rightarrow> reserve_input \<Rightarrow> int AgentBudgetUnits \<Rightarrow> window option \<Rightarrow> AgentBudgetReservation" where
  "new_reservation newId i n w =
     \<lparr>res_id = newId, res_tenantId = rsv_tenantId i, res_ledgerId = rsv_ledgerId i,
      res_idempotencyKey = rsv_idempotencyKey i, res_units = n, aggregateWindowStart = w,
      actualCostMinorUnits = None, res_status = Reserved, res_resolvedAt = None,
      res_resolvedBy = None, res_resolutionNote = None\<rparr>"

definition claim_txn ::
  "clock \<Rightarrow> uuid \<Rightarrow> reserve_input \<Rightarrow> int AgentBudgetUnits
     \<Rightarrow> budget_db \<Rightarrow> budget_error + AgentBudgetReservationReceipt \<times> budget_db" where
  "claim_txn ck newId i n db =
     (case find_ledger (rsv_tenantId i) (rsv_ledgerId i) db of
        None \<Rightarrow> Inl (throwReservationFailure ck i db)
      | Some l \<Rightarrow>
          and_then (reserve_where ck i n l) (\<lambda>hit.
            if \<not> hit then Inl (throwReservationFailure ck i db)
            else
              and_then (put_ledger (claim_ledger n l) db) (\<lambda>db1.
              and_then (reserveTenantAggregate ck (rsv_tenantId i) (trim (led_currency l)) n db1) (\<lambda>(w, db2).
              and_then (insert_reservation (new_reservation newId i n w) db2) (\<lambda>db3.
                Inr (receipt ck (new_reservation newId i n w) (claim_ledger n l) False, db3))))))"

definition replay_claim ::
  "clock \<Rightarrow> int AgentBudgetUnits \<Rightarrow> AgentBudgetReservation
     \<Rightarrow> budget_db \<Rightarrow> budget_error + AgentBudgetReservationReceipt \<times> budget_db" where
  "replay_claim ck n r db =
     and_then (assertSameUnits r n) (\<lambda>_.
     and_then (receiptFor ck r True db) (\<lambda>rc. Inr (rc, db)))"

definition reserve ::
  "bool \<Rightarrow> clock \<Rightarrow> uuid \<Rightarrow> reserve_input
     \<Rightarrow> budget_db \<Rightarrow> budget_error + AgentBudgetReservationReceipt \<times> budget_db" where
  "reserve stale ck newId i db =
     and_then (validateUnits (rsv_units i)) (\<lambda>n.
     and_then (ensure (rsv_idempotencyKey i \<noteq> [] \<and> length (rsv_idempotencyKey i) \<le> 200)
       (AgentBudgetError RESERVATION_CONFLICT
          ''Budget reservation requires a bounded idempotency key'')) (\<lambda>_.
       case (case (if stale then None else find_claim i db) of
               Some r \<Rightarrow> replay_claim ck n r db
             | None \<Rightarrow> claim_txn ck newId i n db) of
         Inr res \<Rightarrow> Inr res
       | Inl e \<Rightarrow>
           if isUniqueViolation e
           then and_then (or_throw (find_claim i db) EntityNotFoundError)
                  (\<lambda>r. replay_claim ck n r db)
           else Inl e))"

section \<open>Resolving\<close>

definition resolveReservation ::
  "uuid \<Rightarrow> uuid
     \<Rightarrow> (AgentBudgetReservation \<Rightarrow> AgentBudgetLedger \<Rightarrow> budget_db
          \<Rightarrow> budget_error + AgentBudgetReservationReceipt \<times> budget_db)
     \<Rightarrow> budget_db \<Rightarrow> budget_error + AgentBudgetReservationReceipt \<times> budget_db" where
  "resolveReservation tenant rid action db =
     and_then (or_throw (List.find (\<lambda>r. res_id r = rid \<and> res_tenantId r = tenant) (reservations db))
       (AgentBudgetError RESERVATION_CONFLICT ''Budget reservation does not exist'')) (\<lambda>r.
     and_then (or_throw (find_ledger tenant (res_ledgerId r) db)
       (AgentBudgetError RESERVATION_CONFLICT ''The reservation ledger no longer exists'')) (\<lambda>l.
       action r l db))"

definition commit_ledger :: "int AgentBudgetUnits \<Rightarrow> int \<Rightarrow> AgentBudgetLedger \<Rightarrow> AgentBudgetLedger" where
  "commit_ledger n actual l =
     l\<lparr>stepReserved := stepReserved l - stepUnits n,
       stepUsed := stepUsed l + stepUnits n,
       tokenReserved := tokenReserved l - tokenUnits n,
       tokenUsed := tokenUsed l + tokenUnits n,
       providerCallReserved := providerCallReserved l - providerCallUnits n,
       providerCallUsed := providerCallUsed l + providerCallUnits n,
       costReservedMinorUnits := costReservedMinorUnits l - costMinorUnits n,
       costUsedMinorUnits := costUsedMinorUnits l + actual,
       led_version := led_version l + 1\<rparr>"

definition release_ledger :: "int AgentBudgetUnits \<Rightarrow> AgentBudgetLedger \<Rightarrow> AgentBudgetLedger" where
  "release_ledger n l =
     l\<lparr>stepReserved := stepReserved l - stepUnits n,
       tokenReserved := tokenReserved l - tokenUnits n,
       providerCallReserved := providerCallReserved l - providerCallUnits n,
       costReservedMinorUnits := costReservedMinorUnits l - costMinorUnits n,
       led_version := led_version l + 1\<rparr>"

definition only_unknown_error :: budget_error where
  "only_unknown_error =
     AgentBudgetError RESERVATION_CONFLICT ''Only an UNKNOWN reservation can be reconciled manually''"

definition commit_action ::
  "clock \<Rightarrow> commit_input \<Rightarrow> int option \<Rightarrow> AgentBudgetReservation \<Rightarrow> AgentBudgetLedger
     \<Rightarrow> budget_db \<Rightarrow> budget_error + AgentBudgetReservationReceipt \<times> budget_db" where
  "commit_action ck i cost r l db =
     (if res_status r = Committed
      then if cmt_requireUnknown i then Inl only_unknown_error
           else Inr (receipt ck r l False, db)
      else if cmt_requireUnknown i \<and> res_status r \<noteq> Unknown then Inl only_unknown_error
      else if res_status r = Released
      then Inl (AgentBudgetError RESERVATION_CONFLICT
             ''A released budget reservation cannot be committed'')
      else
        (let n = res_units r;
             actual = (case cost of Some c \<Rightarrow> c | None \<Rightarrow> costMinorUnits n);
             l' = commit_ledger n actual l;
             r' = r\<lparr>res_status := Committed, actualCostMinorUnits := Some actual,
                    res_resolvedAt := Some (js_now ck), res_resolvedBy := cmt_resolvedBy i,
                    res_resolutionNote := cmt_resolutionNote i\<rparr>
         in and_then (int4_le [costUsedMinorUnits l, costReservedMinorUnits l, - costMinorUnits n, actual]
                        (costLimitMinorUnits l)) (\<lambda>hit.
            if \<not> hit
            then Inl (AgentBudgetError BUDGET_EXHAUSTED
                   ''Actual provider cost exceeds the authoritative budget'')
            else
              and_then (put_ledger l' db) (\<lambda>db1.
              and_then (commitTenantAggregate r actual db1) (\<lambda>db2.
                Inr (receipt ck r' l' False, save_reservation r' db2))))))"

definition commit ::
  "clock \<Rightarrow> commit_input \<Rightarrow> budget_db \<Rightarrow> budget_error + AgentBudgetReservationReceipt \<times> budget_db" where
  "commit ck i db =
     and_then (case cmt_actualCostMinorUnits i of
                 None \<Rightarrow> Inr None
               | Some v \<Rightarrow> and_then (assertNonnegativeInt v ''actual cost'') (\<lambda>c. Inr (Some c))) (\<lambda>cost.
     and_then (if cmt_requireUnknown i
               then validateManualResolution (cmt_resolvedBy i) (cmt_resolutionNote i) else Inr ()) (\<lambda>_.
       resolveReservation (cmt_tenantId i) (cmt_reservationId i) (commit_action ck i cost) db))"

definition release_action ::
  "clock \<Rightarrow> manual_resolution option \<Rightarrow> AgentBudgetReservation \<Rightarrow> AgentBudgetLedger
     \<Rightarrow> budget_db \<Rightarrow> budget_error + AgentBudgetReservationReceipt \<times> budget_db" where
  "release_action ck resolution r l db =
     (if res_status r = Released
      then if resolution \<noteq> None then Inl only_unknown_error
           else Inr (receipt ck r l False, db)
      else if resolution \<noteq> None \<and> res_status r \<noteq> Unknown then Inl only_unknown_error
      else if res_status r = Committed
      then Inl (AgentBudgetError RESERVATION_CONFLICT
             ''A committed budget reservation cannot be released'')
      else
        (let l' = release_ledger (res_units r) l;
             r' = r\<lparr>res_status := Released, res_resolvedAt := Some (js_now ck),
                    res_resolvedBy := map_option man_resolvedBy resolution,
                    res_resolutionNote := map_option man_resolutionNote resolution\<rparr>
         in and_then (put_ledger l' db) (\<lambda>db1.
            and_then (releaseTenantAggregate r db1) (\<lambda>db2.
              Inr (receipt ck r' l' False, save_reservation r' db2)))))"

definition release ::
  "clock \<Rightarrow> uuid \<Rightarrow> uuid \<Rightarrow> manual_resolution option
     \<Rightarrow> budget_db \<Rightarrow> budget_error + AgentBudgetReservationReceipt \<times> budget_db" where
  "release ck tenant rid resolution db =
     and_then (case resolution of
                 None \<Rightarrow> Inr ()
               | Some m \<Rightarrow> validateManualResolution (Some (man_resolvedBy m)) (Some (man_resolutionNote m))) (\<lambda>_.
       resolveReservation tenant rid (release_action ck resolution) db)"

definition unknown_action ::
  "clock \<Rightarrow> AgentBudgetReservation \<Rightarrow> AgentBudgetLedger
     \<Rightarrow> budget_db \<Rightarrow> budget_error + AgentBudgetReservationReceipt \<times> budget_db" where
  "unknown_action ck r l db =
     (if res_status r = Reserved
      then let r' = r\<lparr>res_status := Unknown\<rparr> in Inr (receipt ck r' l False, save_reservation r' db)
      else if res_status r \<noteq> Unknown
      then Inl (AgentBudgetError RESERVATION_CONFLICT
             ''Only an unresolved reservation can become outcome-unknown'')
      else Inr (receipt ck r l False, db))"

definition markUnknown ::
  "clock \<Rightarrow> uuid \<Rightarrow> uuid \<Rightarrow> budget_db \<Rightarrow> budget_error + AgentBudgetReservationReceipt \<times> budget_db" where
  "markUnknown ck tenant rid db = resolveReservation tenant rid (unknown_action ck) db"

end
