(* ===== verification/Account_Book.thy ===== *)
theory Account_Book
  imports Prelude
begin

text \<open>
  Two interfaces the components share.

  \<^item> \<open>account_book\<close>: a table of accounts whose counters summarise a table of entries.
    Each entry belongs to at most one account and contributes a held and a spent amount
    in every dimension. The locale's lemmas say when an insertion or a replacement of an
    entry, together with a change of one account's counters, keeps every counter equal
    to the sum of its entries. The agent budget interprets it twice: workflow ledgers and
    monthly usage rows over the same reservations.
  \<^item> \<open>invariant_system\<close> and \<open>progress_system\<close>: a set of operations that keep an
    invariant, or that only move the state up a preorder; the lemmas lift both to
    arbitrary sequences of operations, including the ones that throw.
\<close>

section \<open>Account books\<close>

definition entry_sum :: "('e \<Rightarrow> 'k option) \<Rightarrow> ('e \<Rightarrow> int) \<Rightarrow> 'k \<Rightarrow> 'e table \<Rightarrow> int" where
  "entry_sum acct f k es = table_sum (\<lambda>e. if acct e = Some k then f e else 0) es"

definition balanced ::
  "('a \<Rightarrow> 'k) \<Rightarrow> ('d \<Rightarrow> 'a \<Rightarrow> int) \<Rightarrow> ('d \<Rightarrow> 'a \<Rightarrow> int) \<Rightarrow> ('e \<Rightarrow> 'k option)
     \<Rightarrow> ('d \<Rightarrow> 'e \<Rightarrow> int) \<Rightarrow> ('d \<Rightarrow> 'e \<Rightarrow> int) \<Rightarrow> 'a table \<Rightarrow> 'e table \<Rightarrow> bool" where
  "balanced akey reserved used acct held spent as es \<longleftrightarrow>
     (\<forall>a \<in> set as. \<forall>d.
        reserved d a = entry_sum acct (held d) (akey a) es
        \<and> used d a = entry_sum acct (spent d) (akey a) es)"

lemma entry_sum_append:
  "entry_sum acct f k (es @ [e]) = entry_sum acct f k es + (if acct e = Some k then f e else 0)"
  by (simp add: entry_sum_def)

lemma entry_sum_replace:
  assumes "distinct (map ekey es)" and "e \<in> set es"
  shows "entry_sum acct f k (update_where (\<lambda>x. ekey x = ekey e) (\<lambda>_. e') es) =
     entry_sum acct f k es - (if acct e = Some k then f e else 0)
       + (if acct e' = Some k then f e' else 0)"
  unfolding entry_sum_def by (simp add: table_sum_update_one [OF assms])

lemma entry_sum_absent:
  "(\<And>e. e \<in> set es \<Longrightarrow> acct e \<noteq> Some k) \<Longrightarrow> entry_sum acct f k es = 0"
  unfolding entry_sum_def table_sum_def
  by (induction es) auto

locale account_book =
  fixes akey :: "'a \<Rightarrow> 'k"
    and reserved :: "'d \<Rightarrow> 'a \<Rightarrow> int"
    and used :: "'d \<Rightarrow> 'a \<Rightarrow> int"
    and ekey :: "'e \<Rightarrow> 'i"
    and acct :: "'e \<Rightarrow> 'k option"
    and held :: "'d \<Rightarrow> 'e \<Rightarrow> int"
    and spent :: "'d \<Rightarrow> 'e \<Rightarrow> int"
    and entry_ok :: "'e \<Rightarrow> bool"
  assumes held_nonneg: "entry_ok e \<Longrightarrow> 0 \<le> held d e"
    and spent_nonneg: "entry_ok e \<Longrightarrow> 0 \<le> spent d e"
begin

abbreviation book where
  "book as es \<equiv> balanced akey reserved used acct held spent as es"

lemma bookD:
  assumes "book as es" "a \<in> set as"
  shows "reserved d a = entry_sum acct (held d) (akey a) es"
    and "used d a = entry_sum acct (spent d) (akey a) es"
  using assms by (auto simp: balanced_def)

lemma held_le_reserved:
  assumes "book as es" "a \<in> set as" "e \<in> set es" "acct e = Some (akey a)"
    and "\<And>x. x \<in> set es \<Longrightarrow> entry_ok x"
  shows "held d e \<le> reserved d a"
  using table_sum_member_le [of e es "\<lambda>e. if acct e = Some (akey a) then held d e else 0"]
    assms held_nonneg
  by (auto simp: bookD entry_sum_def)

lemma counters_nonneg:
  assumes "book as es" "a \<in> set as" "\<And>x. x \<in> set es \<Longrightarrow> entry_ok x"
  shows "0 \<le> reserved d a" "0 \<le> used d a"
  using assms(3) held_nonneg spent_nonneg
  by (auto simp: bookD [OF assms(1,2)] entry_sum_def intro!: table_sum_nonneg)

lemma book_append:
  assumes bk: "book as es"
    and upd: "\<And>x. x \<in> set as \<Longrightarrow> acct e = Some (akey x) \<Longrightarrow> P x"
    and only: "\<And>x. x \<in> set as \<Longrightarrow> P x \<Longrightarrow>
        acct e = Some (akey x) \<and> akey (f x) = akey x \<and>
        (\<forall>d. reserved d (f x) = reserved d x + held d e \<and> used d (f x) = used d x + spent d e)"
  shows "book (update_where P f as) (es @ [e])"
  unfolding balanced_def
proof (intro ballI allI conjI)
  fix a d
  assume "a \<in> set (update_where P f as)"
  then obtain x where x: "x \<in> set as" "a = (if P x then f x else x)"
    by (rule in_update_whereE)
  have cond: "acct e = Some (akey x) \<longleftrightarrow> P x"
    using upd [OF x(1)] only [OF x(1)] by blast
  show "reserved d a = entry_sum acct (held d) (akey a) (es @ [e])"
    and "used d a = entry_sum acct (spent d) (akey a) (es @ [e])"
    using x(2) cond only [OF x(1)] bookD [OF bk x(1), of d]
    by (cases "P x"; simp add: entry_sum_append)+
qed

lemma book_replace:
  assumes bk: "book as es" and dist: "distinct (map ekey es)" and e: "e \<in> set es"
    and same: "acct e' = acct e"
    and upd: "\<And>x. x \<in> set as \<Longrightarrow> acct e = Some (akey x) \<Longrightarrow> P x"
    and only: "\<And>x. x \<in> set as \<Longrightarrow> P x \<Longrightarrow>
        acct e = Some (akey x) \<and> akey (f x) = akey x \<and>
        (\<forall>d. reserved d (f x) = reserved d x - held d e + held d e'
             \<and> used d (f x) = used d x - spent d e + spent d e')"
  shows "book (update_where P f as) (update_where (\<lambda>x. ekey x = ekey e) (\<lambda>_. e') es)"
  unfolding balanced_def
proof (intro ballI allI conjI)
  fix a d
  assume "a \<in> set (update_where P f as)"
  then obtain x where x: "x \<in> set as" "a = (if P x then f x else x)"
    by (rule in_update_whereE)
  have cond: "acct e = Some (akey x) \<longleftrightarrow> P x"
    using upd [OF x(1)] only [OF x(1)] by blast
  show "reserved d a =
          entry_sum acct (held d) (akey a) (update_where (\<lambda>x. ekey x = ekey e) (\<lambda>_. e') es)"
    and "used d a =
          entry_sum acct (spent d) (akey a) (update_where (\<lambda>x. ekey x = ekey e) (\<lambda>_. e') es)"
    using x(2) cond only [OF x(1)] bookD [OF bk x(1), of d] same
    by (cases "P x"; simp add: entry_sum_replace [OF dist e])+
qed

lemma book_open:
  assumes bk: "book as es" and fresh: "\<And>e. e \<in> set es \<Longrightarrow> acct e \<noteq> Some (akey a)"
    and zero: "\<And>d. reserved d a = 0" "\<And>d. used d a = 0"
  shows "book (as @ [a]) es"
  using bk zero by (auto simp: balanced_def entry_sum_absent [OF fresh])

end

section \<open>Systems of operations\<close>

text \<open>A sequence of operations, each of which may throw; the state a throwing one leaves is kept.\<close>

fun run_ops :: "('op \<Rightarrow> 's \<Rightarrow> 'r \<times> 's) \<Rightarrow> 'op list \<Rightarrow> 's \<Rightarrow> 's" where
  "run_ops exec [] s = s"
| "run_ops exec (x # xs) s = run_ops exec xs (snd (exec x s))"

locale invariant_system =
  fixes exec :: "'op \<Rightarrow> 's \<Rightarrow> 'r \<times> 's"
    and inv :: "'s \<Rightarrow> bool"
  assumes exec_inv: "inv s \<Longrightarrow> inv (snd (exec x s))"
begin

lemma run_inv: "inv s \<Longrightarrow> inv (run_ops exec xs s)"
  by (induction xs arbitrary: s) (auto intro: exec_inv)

end

locale progress_system = invariant_system +
  fixes le :: "'s \<Rightarrow> 's \<Rightarrow> bool"
  assumes le_refl: "le s s"
    and le_trans: "le s t \<Longrightarrow> le t u \<Longrightarrow> le s u"
    and exec_le: "inv s \<Longrightarrow> le s (snd (exec x s))"
begin

lemma run_le: "inv s \<Longrightarrow> le s (run_ops exec xs s)"
proof (induction xs arbitrary: s)
  case Nil
  show ?case by (simp add: le_refl)
next
  case (Cons x xs)
  from Cons.prems have "le s (snd (exec x s))" by (rule exec_le)
  moreover have "le (snd (exec x s)) (run_ops exec xs (snd (exec x s)))"
    by (rule Cons.IH) (rule exec_inv [OF Cons.prems])
  ultimately show ?case by (auto intro: le_trans)
qed

end

end
