(* ===== verification/Budget_Invariant.thy ===== *)
theory Budget_Invariant
  imports Budget_Ledger Account_Book
begin

text \<open>
  What the budget authority promises. \<open>budget_inv\<close> says that keys are unique, that
  every counter of a workflow ledger and of a monthly usage row is the sum of the
  reservations it stands for (held while \<open>Reserved\<close> or \<open>Unknown\<close>, spent once
  \<open>Committed\<close>), and that no ledger has used and reserved more than its limit. Both
  tables interpret \<open>account_book\<close>. The sections after it prove that each operation
  preserves the invariant, then idempotency, refusals and progress.
\<close>

section \<open>Dimensions\<close>

datatype dim = Steps | Tokens | Calls | Cost

fun limit_of :: "dim \<Rightarrow> AgentBudgetLedger \<Rightarrow> int" where
  "limit_of Steps l = stepLimit l"
| "limit_of Tokens l = tokenLimit l"
| "limit_of Calls l = providerCallLimit l"
| "limit_of Cost l = costLimitMinorUnits l"

fun used_of :: "dim \<Rightarrow> AgentBudgetLedger \<Rightarrow> int" where
  "used_of Steps l = stepUsed l"
| "used_of Tokens l = tokenUsed l"
| "used_of Calls l = providerCallUsed l"
| "used_of Cost l = costUsedMinorUnits l"

fun reserved_of :: "dim \<Rightarrow> AgentBudgetLedger \<Rightarrow> int" where
  "reserved_of Steps l = stepReserved l"
| "reserved_of Tokens l = tokenReserved l"
| "reserved_of Calls l = providerCallReserved l"
| "reserved_of Cost l = costReservedMinorUnits l"

fun units_of :: "dim \<Rightarrow> int AgentBudgetUnits \<Rightarrow> int" where
  "units_of Steps n = stepUnits n"
| "units_of Tokens n = tokenUnits n"
| "units_of Calls n = providerCallUnits n"
| "units_of Cost n = costMinorUnits n"

definition is_open :: "AgentBudgetReservation \<Rightarrow> bool" where
  "is_open r \<longleftrightarrow> res_status r = Reserved \<or> res_status r = Unknown"

definition charge :: "dim \<Rightarrow> AgentBudgetReservation \<Rightarrow> int" where
  "charge d r =
     (if d = Cost then (case actualCostMinorUnits r of Some c \<Rightarrow> c | None \<Rightarrow> 0)
      else units_of d (res_units r))"

definition held :: "dim \<Rightarrow> AgentBudgetReservation \<Rightarrow> int" where
  "held d r = (if is_open r then units_of d (res_units r) else 0)"

definition spent :: "dim \<Rightarrow> AgentBudgetReservation \<Rightarrow> int" where
  "spent d r = (if res_status r = Committed then charge d r else 0)"

definition reservation_ok :: "AgentBudgetReservation \<Rightarrow> bool" where
  "reservation_ok r \<longleftrightarrow> (\<forall>d. 0 \<le> units_of d (res_units r) \<and> 0 \<le> charge d r)"

definition ledger_acct :: "AgentBudgetReservation \<Rightarrow> uuid option" where
  "ledger_acct r = Some (res_ledgerId r)"

lemma charge_cong:
  "res_units r' = res_units r \<Longrightarrow> actualCostMinorUnits r' = actualCostMinorUnits r \<Longrightarrow>
   charge d r' = charge d r"
  by (simp add: charge_def)

lemma reservation_ok_cong:
  assumes "reservation_ok r" "res_units r' = res_units r"
    "actualCostMinorUnits r' = actualCostMinorUnits r"
  shows "reservation_ok r'"
  using assms(1) unfolding reservation_ok_def charge_cong [OF assms(2,3)] assms(2) .

text \<open>The two dimensions of the monthly allowance.\<close>

datatype mdim = MCalls | MCost

fun mdim_of :: "mdim \<Rightarrow> dim" where
  "mdim_of MCalls = Calls"
| "mdim_of MCost = Cost"

fun use_used_of :: "mdim \<Rightarrow> TenantAgentBudgetUsage \<Rightarrow> int" where
  "use_used_of MCalls u = use_providerCallUsed u"
| "use_used_of MCost u = use_costUsedMinorUnits u"

fun use_reserved_of :: "mdim \<Rightarrow> TenantAgentBudgetUsage \<Rightarrow> int" where
  "use_reserved_of MCalls u = use_providerCallReserved u"
| "use_reserved_of MCost u = use_costReservedMinorUnits u"

definition usage_acct :: "AgentBudgetReservation \<Rightarrow> (uuid \<times> window) option" where
  "usage_acct r = map_option (\<lambda>w. (res_tenantId r, w)) (aggregateWindowStart r)"

fun month_limit :: "mdim \<Rightarrow> TenantBudgetConfig \<Rightarrow> int option" where
  "month_limit MCalls t = agentMonthlyProviderCallLimit t"
| "month_limit MCost t = agentMonthlyCostLimitMinorUnits t"

interpretation lb: account_book led_id reserved_of used_of res_id ledger_acct held spent reservation_ok
  by unfold_locales (auto simp: reservation_ok_def held_def spent_def)

interpretation ub: account_book usage_key use_reserved_of use_used_of res_id usage_acct
    "\<lambda>m. held (mdim_of m)" "\<lambda>m. spent (mdim_of m)" reservation_ok
  by unfold_locales (auto simp: reservation_ok_def held_def spent_def)

section \<open>The invariant\<close>

definition ledger_sane :: "AgentBudgetLedger \<Rightarrow> bool" where
  "ledger_sane l \<longleftrightarrow>
     (\<forall>d. used_of d l + reserved_of d l \<le> limit_of d l \<and> limit_of d l \<le> max_int4)
     \<and> 0 < led_version l \<and> led_version l \<le> max_int4"

definition usage_sane :: "TenantAgentBudgetUsage \<Rightarrow> bool" where
  "usage_sane u \<longleftrightarrow> (\<forall>m. use_used_of m u + use_reserved_of m u \<le> max_int4)"

definition budget_keys :: "budget_db \<Rightarrow> bool" where
  "budget_keys db \<longleftrightarrow>
     distinct (map led_id (ledgers db)) \<and> distinct (map res_id (reservations db))
     \<and> distinct (map usage_key (usages db))
     \<and> distinct (map (\<lambda>r. (res_ledgerId r, res_idempotencyKey r)) (reservations db))"

definition budget_refs :: "budget_db \<Rightarrow> bool" where
  "budget_refs db \<longleftrightarrow>
     (\<forall>r \<in> set (reservations db).
        (res_ledgerId r, res_tenantId r) \<in> (\<lambda>l. (led_id l, led_tenantId l)) ` set (ledgers db)
        \<and> (\<forall>k. usage_acct r = Some k \<longrightarrow> k \<in> usage_key ` set (usages db)))"

definition budget_inv :: "budget_db \<Rightarrow> bool" where
  "budget_inv db \<longleftrightarrow>
     budget_keys db \<and> budget_refs db
     \<and> list_all reservation_ok (reservations db)
     \<and> list_all ledger_sane (ledgers db) \<and> list_all usage_sane (usages db)
     \<and> lb.book (ledgers db) (reservations db)
     \<and> ub.book (usages db) (reservations db)"

lemma budget_invD:
  assumes "budget_inv db"
  shows "distinct (map led_id (ledgers db))" "distinct (map res_id (reservations db))"
    "distinct (map usage_key (usages db))" "budget_refs db"
    "\<And>r. r \<in> set (reservations db) \<Longrightarrow> reservation_ok r"
    "\<And>l. l \<in> set (ledgers db) \<Longrightarrow> ledger_sane l"
    "\<And>u. u \<in> set (usages db) \<Longrightarrow> usage_sane u"
    "lb.book (ledgers db) (reservations db)" "ub.book (usages db) (reservations db)"
  using assms by (auto simp: budget_inv_def budget_keys_def list_all_iff)

lemma budget_refsD:
  "budget_refs db \<Longrightarrow> r \<in> set (reservations db) \<Longrightarrow> usage_acct r = Some k \<Longrightarrow>
   k \<in> usage_key ` set (usages db)"
  unfolding budget_refs_def by blast

text \<open>An operation on one ledger row: the counters change by \<open>dr\<close> and \<open>du\<close>.\<close>

lemma claim_ledger_simps [simp]:
  "led_id (claim_ledger n l) = led_id l"
  "led_tenantId (claim_ledger n l) = led_tenantId l"
  "led_version (claim_ledger n l) = led_version l + 1"
  "reserved_of d (claim_ledger n l) = reserved_of d l + units_of d n"
  "used_of d (claim_ledger n l) = used_of d l"
  "limit_of d (claim_ledger n l) = limit_of d l"
  by (cases d; simp add: claim_ledger_def)+

lemma release_ledger_simps [simp]:
  "led_id (release_ledger n l) = led_id l"
  "led_tenantId (release_ledger n l) = led_tenantId l"
  "led_version (release_ledger n l) = led_version l + 1"
  "reserved_of d (release_ledger n l) = reserved_of d l - units_of d n"
  "used_of d (release_ledger n l) = used_of d l"
  "limit_of d (release_ledger n l) = limit_of d l"
  by (cases d; simp add: release_ledger_def)+

lemma commit_ledger_simps [simp]:
  "led_id (commit_ledger n c l) = led_id l"
  "led_tenantId (commit_ledger n c l) = led_tenantId l"
  "led_version (commit_ledger n c l) = led_version l + 1"
  "reserved_of d (commit_ledger n c l) = reserved_of d l - units_of d n"
  "used_of d (commit_ledger n c l) = used_of d l + (if d = Cost then c else units_of d n)"
  "limit_of d (commit_ledger n c l) = limit_of d l"
  by (cases d; simp add: commit_ledger_def)+

lemma ledger_row_okD: "ledger_row_ok l \<Longrightarrow> 0 < led_version l \<and> led_version l \<le> max_int4"
  by (simp add: ledger_row_ok_def)

lemma ledger_row_okI:
  assumes "\<And>d. 0 \<le> used_of d l \<and> 0 \<le> reserved_of d l \<and> used_of d l + reserved_of d l \<le> max_int4"
    and "0 < led_version l" "led_version l \<le> max_int4"
  shows "ledger_row_ok l"
  using assms(1) [of Steps] assms(1) [of Tokens] assms(1) [of Calls] assms(1) [of Cost] assms(2,3)
  by (simp add: ledger_row_ok_def)

lemma usage_row_okI:
  assumes "\<And>m. 0 \<le> use_used_of m u \<and> 0 \<le> use_reserved_of m u
      \<and> use_used_of m u + use_reserved_of m u \<le> max_int4"
  shows "usage_row_ok u"
  using assms [of MCalls] assms [of MCost] by (simp add: usage_row_ok_def)

lemma int4_le_TrueD: "int4_le ns k = Inr True \<Longrightarrow> sum_list ns \<le> k \<and> sum_list ns \<le> max_int4"
  unfolding int4_le_def
  by (auto simp: list_all_iff fits_int4_def split: if_splits
      dest: bspec [where x = "length ns"])

lemma sql_and_TrueD: "sql_and a b = Inr True \<longleftrightarrow> a = Inr True \<and> b = Inr True"
  by (auto simp: sql_and_def and_then_Inr_iff split: if_splits)

section \<open>The two shapes of change\<close>

definition usage_claim :: "int AgentBudgetUnits \<Rightarrow> TenantAgentBudgetUsage \<Rightarrow> TenantAgentBudgetUsage" where
  "usage_claim n u =
     u\<lparr>use_providerCallReserved := use_providerCallReserved u + providerCallUnits n,
       use_costReservedMinorUnits := use_costReservedMinorUnits u + costMinorUnits n\<rparr>"

lemma usage_claim_simps [simp]:
  "usage_key (usage_claim n u) = usage_key u"
  "use_tenantId (usage_claim n u) = use_tenantId u"
  "use_reserved_of m (usage_claim n u) = use_reserved_of m u + units_of (mdim_of m) n"
  "use_used_of m (usage_claim n u) = use_used_of m u"
  by (cases m; simp add: usage_claim_def usage_key_def)+

lemma image_update_where: "(\<And>r. g (f r) = g r) \<Longrightarrow> g ` set (update_where P f t) = g ` set t"
  unfolding update_where_def set_map image_image by (rule image_cong) auto

lemma claim_state_inv:
  assumes inv: "budget_inv D" and l: "l \<in> set (ledgers D)"
    and r: "res_ledgerId r = led_id l" "res_tenantId r = led_tenantId l" "is_open r"
      "res_units r = n" "reservation_ok r"
    and fresh: "\<forall>x \<in> set (reservations D). res_id x \<noteq> res_id r \<and>
        (res_ledgerId x, res_idempotencyKey x) \<noteq> (res_ledgerId r, res_idempotencyKey r)"
    and cap: "\<And>d. used_of d l + reserved_of d l + units_of d n \<le> limit_of d l"
    and ver: "led_version l + 1 \<le> max_int4"
    and use: "\<And>k. usage_acct r = Some k \<Longrightarrow> k \<in> usage_key ` set (usages D)"
    and ucap: "\<And>u m. u \<in> set (usages D) \<Longrightarrow> usage_acct r = Some (usage_key u) \<Longrightarrow>
        use_used_of m u + use_reserved_of m u + units_of (mdim_of m) n \<le> max_int4"
  shows "budget_inv (D\<lparr>
      ledgers := update_where (\<lambda>x. led_id x = led_id l) (claim_ledger n) (ledgers D),
      usages := update_where (\<lambda>u. usage_acct r = Some (usage_key u)) (usage_claim n) (usages D),
      reservations := reservations D @ [r]\<rparr>)" (is "budget_inv ?D")
proof -
  note I = budget_invD [OF inv]
  have same: "\<And>x. x \<in> set (ledgers D) \<Longrightarrow> led_id x = led_id l \<Longrightarrow> x = l"
    using I(1) l by (auto simp: distinct_map inj_on_def)
  have sp: "\<And>d. spent d r = 0" using r(3) by (auto simp: spent_def is_open_def)
  have hd: "\<And>d. held d r = units_of d n" using r(3,4) by (simp add: held_def)
  have keys: "budget_keys ?D"
    using inv fresh by (auto simp: budget_inv_def budget_keys_def map_update_where)
  have ids: "(\<lambda>l. (led_id l, led_tenantId l)) ` set (ledgers ?D)
      = (\<lambda>l. (led_id l, led_tenantId l)) ` set (ledgers D)"
    by (simp add: image_update_where)
  have refs: "budget_refs ?D"
    using I(4) l r(1,2) use
    unfolding budget_refs_def ids by (auto simp: image_update_where image_iff)
  have led: "lb.book (ledgers ?D) (reservations ?D)"
    using I(8) by (simp, intro lb.book_append)
      (auto simp: ledger_acct_def r(1) hd sp)
  have use: "ub.book (usages ?D) (reservations ?D)"
    using I(9) by (simp, intro ub.book_append) (auto simp: hd sp)
  have "ledger_sane (claim_ledger n l)"
    using I(6) [OF l] cap ver by (auto simp: ledger_sane_def add.assoc)
  then have lsane: "list_all ledger_sane (ledgers ?D)"
    using I(6) by (auto simp: list_all_iff elim!: in_update_whereE dest: same split: if_splits)
  have usane: "list_all usage_sane (usages ?D)"
    using I(7) ucap
    by (auto simp: list_all_iff usage_sane_def add.assoc elim!: in_update_whereE)
  show ?thesis
    using keys refs led use lsane usane inv r(5) by (auto simp: budget_inv_def)
qed

lemma resolve_state_inv:
  assumes inv: "budget_inv D" and l: "l \<in> set (ledgers D)" and r: "r \<in> set (reservations D)"
    and rl: "res_ledgerId r = led_id l"
    and r': "res_id r' = res_id r" "res_ledgerId r' = res_ledgerId r"
      "res_tenantId r' = res_tenantId r" "res_idempotencyKey r' = res_idempotencyKey r"
      "usage_acct r' = usage_acct r" "reservation_ok r'"
    and lf: "\<And>x. led_id (lf x) = led_id x" "\<And>x. led_tenantId (lf x) = led_tenantId x"
      "\<And>d x. reserved_of d (lf x) = reserved_of d x - held d r + held d r'"
      "\<And>d x. used_of d (lf x) = used_of d x - spent d r + spent d r'"
      "ledger_sane (lf l)"
    and uf: "\<And>x. usage_key (uf x) = usage_key x"
      "\<And>m x. use_reserved_of m (uf x) =
         use_reserved_of m x - held (mdim_of m) r + held (mdim_of m) r'"
      "\<And>m x. use_used_of m (uf x) = use_used_of m x - spent (mdim_of m) r + spent (mdim_of m) r'"
      "\<And>u. u \<in> set (usages D) \<Longrightarrow> usage_acct r = Some (usage_key u) \<Longrightarrow> usage_sane (uf u)"
  shows "budget_inv (D\<lparr>
      ledgers := update_where (\<lambda>x. led_id x = led_id l) lf (ledgers D),
      usages := update_where (\<lambda>u. usage_acct r = Some (usage_key u)) uf (usages D),
      reservations := update_where (\<lambda>x. res_id x = res_id r) (\<lambda>_. r') (reservations D)\<rparr>)"
    (is "budget_inv ?D")
proof -
  note I = budget_invD [OF inv]
  have same: "\<And>x. x \<in> set (ledgers D) \<Longrightarrow> led_id x = led_id l \<Longrightarrow> x = l"
    using I(1) l by (auto simp: distinct_map inj_on_def)
  have rsame: "\<And>x. x \<in> set (reservations D) \<Longrightarrow> res_id x = res_id r \<Longrightarrow> x = r"
    using I(2) r by (auto simp: distinct_map inj_on_def)
  have eqmap: "map g (update_where (\<lambda>x. res_id x = res_id r) (\<lambda>_. r') (reservations D))
      = map g (reservations D)" if "g r' = g r" for g :: "AgentBudgetReservation \<Rightarrow> 'k"
    using that rsame by (auto simp: update_where_def)
  have keys: "budget_keys ?D"
    using inv r'(1,2,4) lf(1) uf(1) by (simp add: budget_inv_def budget_keys_def map_update_where eqmap)
  have ids: "(\<lambda>l. (led_id l, led_tenantId l)) ` set (ledgers ?D)
      = (\<lambda>l. (led_id l, led_tenantId l)) ` set (ledgers D)"
    using lf(1,2) by (simp add: image_update_where)
  have uids: "usage_key ` set (usages ?D) = usage_key ` set (usages D)"
    using uf(1) by (simp add: image_update_where)
  have refs: "budget_refs ?D"
    using I(4) r r'(2,3,5)
    unfolding budget_refs_def ids uids by (auto elim!: in_update_whereE split: if_splits)
  have led: "lb.book (ledgers ?D) (reservations ?D)"
    using I(8) I(2) r r'(2) rl lf(1,3,4)
    by (simp, intro lb.book_replace) (auto simp: ledger_acct_def)
  have use: "ub.book (usages ?D) (reservations ?D)"
    using I(9) I(2) r r'(5) uf(1,2,3) by (simp, intro ub.book_replace) auto
  have lsane: "list_all ledger_sane (ledgers ?D)"
    using I(6) lf(5)
    by (auto simp: list_all_iff elim!: in_update_whereE dest: same split: if_splits)
  have usane: "list_all usage_sane (usages ?D)"
    using I(7) uf(4) by (auto simp: list_all_iff elim!: in_update_whereE)
  have rok: "list_all reservation_ok (reservations ?D)"
    using I(5) r'(6) by (auto simp: list_all_iff elim!: in_update_whereE)
  show ?thesis
    using keys refs led use lsane usane rok by (simp add: budget_inv_def)
qed

section \<open>Every operation preserves the invariant\<close>

lemma put_ledger_Inr_iff:
  "put_ledger l db = Inr db' \<longleftrightarrow>
     ledger_row_ok l
     \<and> db' = db\<lparr>ledgers := update_where (\<lambda>x. led_id x = led_id l) (\<lambda>_. l) (ledgers db)\<rparr>"
  by (auto simp: put_ledger_def)

lemma put_usage_Inr_iff:
  "put_usage u db = Inr db' \<longleftrightarrow>
     usage_row_ok u
     \<and> db' = db\<lparr>usages := update_where (\<lambda>x. usage_key x = usage_key u) (\<lambda>_. u) (usages db)\<rparr>"
  by (auto simp: put_usage_def)

lemma find_usage_SomeD:
  "find_usage t w db = Some u \<Longrightarrow> u \<in> set (usages db) \<and> usage_key u = (t, w)"
  by (auto simp: find_usage_def usage_key_def dest: find_SomeD)

lemma find_ledger_SomeD:
  "find_ledger t i db = Some l \<Longrightarrow> l \<in> set (ledgers db) \<and> led_id l = i \<and> led_tenantId l = t"
  by (auto simp: find_ledger_def dest: find_SomeD)

lemma ensure_usage_row_frame [simp]:
  "ledgers (ensure_usage_row ck t c db) = ledgers db"
  "reservations (ensure_usage_row ck t c db) = reservations db"
  "tenants (ensure_usage_row ck t c db) = tenants db"
  "ensure_usage_row ck t c (db\<lparr>ledgers := L\<rparr>) = (ensure_usage_row ck t c db)\<lparr>ledgers := L\<rparr>"
  by (auto simp: ensure_usage_row_def find_tenant_def find_usage_def split: option.splits)

lemma ensure_usage_row_cases:
  obtains (same) "ensure_usage_row ck t c db = db"
  | (fresh) u where "ensure_usage_row ck t c db = db\<lparr>usages := usages db @ [u]\<rparr>"
      "usage_key u \<notin> usage_key ` set (usages db)"
      "\<And>m. use_used_of m u = 0" "\<And>m. use_reserved_of m u = 0"
proof (cases "ensure_usage_row ck t c db = db")
  case False
  define w where "w = utc_year_month (db_now ck)"
  from False obtain cur where none: "find_usage t w db = None"
    and e: "ensure_usage_row ck t c db = db\<lparr>usages := usages db @
        [\<lparr>use_tenantId = t, use_windowStart = w,
          use_providerCallUsed = 0, use_providerCallReserved = 0,
          use_costUsedMinorUnits = 0, use_costReservedMinorUnits = 0, use_currency = cur\<rparr>]\<rparr>"
    unfolding ensure_usage_row_def w_def [symmetric]
    by (auto split: option.splits if_splits)
  have new: "(t, w) \<notin> usage_key ` set (usages db)"
    using none by (auto simp: find_usage_def find_None_iff usage_key_def)
  show ?thesis
  proof (rule fresh)
    show "ensure_usage_row ck t c db = db\<lparr>usages := usages db @
        [\<lparr>use_tenantId = t, use_windowStart = w,
          use_providerCallUsed = 0, use_providerCallReserved = 0,
          use_costUsedMinorUnits = 0, use_costReservedMinorUnits = 0, use_currency = cur\<rparr>]\<rparr>"
      by (rule e)
    fix m
    show "use_used_of m \<lparr>use_tenantId = t, use_windowStart = w,
          use_providerCallUsed = 0, use_providerCallReserved = 0,
          use_costUsedMinorUnits = 0, use_costReservedMinorUnits = 0, use_currency = cur\<rparr> = 0"
      and "use_reserved_of m \<lparr>use_tenantId = t, use_windowStart = w,
          use_providerCallUsed = 0, use_providerCallReserved = 0,
          use_costUsedMinorUnits = 0, use_costReservedMinorUnits = 0, use_currency = cur\<rparr> = 0"
      by (cases m; simp)+
  qed (use new in \<open>simp add: usage_key_def\<close>)
qed

lemma ensure_usage_row_inv:
  assumes inv: "budget_inv db"
  shows "budget_inv (ensure_usage_row ck t c db)"
proof (cases rule: ensure_usage_row_cases [of ck t c db])
  case same
  with inv show ?thesis by simp
next
  case (fresh u)
  note I = budget_invD [OF inv]
  have "ub.book (usages db @ [u]) (reservations db)"
  proof (rule ub.book_open [OF I(9)])
    fix e
    assume "e \<in> set (reservations db)"
    then show "usage_acct e \<noteq> Some (usage_key u)"
      using I(4) fresh(2) unfolding budget_refs_def by blast
  qed (use fresh(3,4) in auto)
  moreover have "budget_keys (db\<lparr>usages := usages db @ [u]\<rparr>)"
    using inv fresh(2) by (simp add: budget_inv_def budget_keys_def)
  moreover have "budget_refs (db\<lparr>usages := usages db @ [u]\<rparr>)"
    using I(4) by (fastforce simp: budget_refs_def)
  moreover have "usage_sane u"
    using fresh(3,4) by (simp add: usage_sane_def max_int4_def)
  ultimately show ?thesis
    using inv fresh(1) by (simp add: budget_inv_def)
qed

lemma usage_where_TrueD:
  assumes "usage_where c n t u = Inr True"
  shows "use_used_of m u + use_reserved_of m u + units_of (mdim_of m) n \<le> max_int4
    \<and> (\<exists>k. month_limit m t = Some k
         \<and> use_used_of m u + use_reserved_of m u + units_of (mdim_of m) n \<le> k)"
  using assms
  by (cases m) (auto simp: usage_where_def sql_and_TrueD add.assoc split: option.splits
      dest!: int4_le_TrueD)

lemma reserveTenantAggregate_cases:
  assumes "reserveTenantAggregate ck t c n db = Inr (w, db')"
  obtains (free) "w = None" "providerCallUnits n = 0" "costMinorUnits n = 0" "db' = db"
  | (charged) u cfg where "w = Some (utc_year_month (db_now ck))"
      "u \<in> set (usages (ensure_usage_row ck t c db))"
      "usage_key u = (t, utc_year_month (db_now ck))"
      "find_tenant t db = Some cfg"
      "usage_where c n cfg u = Inr True"
      "db' = (ensure_usage_row ck t c db)\<lparr>usages :=
         update_where (\<lambda>x. usage_key x = usage_key u) (\<lambda>_. usage_claim n u)
           (usages (ensure_usage_row ck t c db))\<rparr>"
proof (cases "providerCallUnits n = 0 \<and> costMinorUnits n = 0")
  case True
  then show ?thesis using assms free by (simp add: reserveTenantAggregate_def)
next
  case False
  have ft: "find_tenant t (ensure_usage_row ck t c db) = find_tenant t db"
    by (simp add: find_tenant_def)
  have fold_claim:
    "u\<lparr>use_providerCallReserved := use_providerCallReserved u + providerCallUnits n,
       use_costReservedMinorUnits := use_costReservedMinorUnits u + costMinorUnits n\<rparr> = usage_claim n u"
    for u by (simp add: usage_claim_def)
  show ?thesis
    using assms False charged
    by (auto simp: reserveTenantAggregate_def Let_def result_simps put_usage_Inr_iff ft fold_claim
        split: option.splits if_splits dest!: find_usage_SomeD)
qed

lemma reserve_where_TrueD:
  assumes "reserve_where ck i n l = Inr True"
  shows "used_of d l + reserved_of d l + units_of d n \<le> limit_of d l"
    and "led_version l = rsv_expectedVersion i" "led_closedAt l = None" "db_now ck < led_deadlineAt l"
  using assms
  by (cases d; auto simp: reserve_where_def sql_and_TrueD add.assoc dest!: int4_le_TrueD)+

lemma claim_txn_cases:
  assumes "claim_txn ck newId i n db = Inr (rc, db')"
  obtains l w db2 where "l \<in> set (ledgers db)" "led_id l = rsv_ledgerId i"
    "led_tenantId l = rsv_tenantId i" "reserve_where ck i n l = Inr True"
    "ledger_row_ok (claim_ledger n l)"
    "reserveTenantAggregate ck (rsv_tenantId i) (trim (led_currency l)) n
       (db\<lparr>ledgers := update_where (\<lambda>x. led_id x = led_id l) (\<lambda>_. claim_ledger n l) (ledgers db)\<rparr>)
       = Inr (w, db2)"
    "\<forall>x \<in> set (reservations db2). res_id x \<noteq> newId \<and>
       (res_ledgerId x, res_idempotencyKey x) \<noteq> (rsv_ledgerId i, rsv_idempotencyKey i)"
    "db' = db2\<lparr>reservations := reservations db2 @ [new_reservation newId i n w]\<rparr>"
    "rc = receipt ck (new_reservation newId i n w) (claim_ledger n l) False"
  using assms
  by (auto simp: claim_txn_def result_simps put_ledger_Inr_iff insert_reservation_def
      new_reservation_def split: option.splits if_splits dest!: find_ledger_SomeD)

lemma claim_txn_inv:
  assumes inv: "budget_inv db" and n: "\<And>d. 0 \<le> units_of d n"
    and ok: "claim_txn ck newId i n db = Inr (rc, db')"
  shows "budget_inv db'"
  using ok
proof (rule claim_txn_cases)
  fix l w db2
  assume l: "l \<in> set (ledgers db)" "led_id l = rsv_ledgerId i" "led_tenantId l = rsv_tenantId i"
    and hit: "reserve_where ck i n l = Inr True"
    and row: "ledger_row_ok (claim_ledger n l)"
    and agg: "reserveTenantAggregate ck (rsv_tenantId i) (trim (led_currency l)) n
       (db\<lparr>ledgers := update_where (\<lambda>x. led_id x = led_id l) (\<lambda>_. claim_ledger n l) (ledgers db)\<rparr>)
       = Inr (w, db2)"
    and fresh: "\<forall>x \<in> set (reservations db2). res_id x \<noteq> newId \<and>
       (res_ledgerId x, res_idempotencyKey x) \<noteq> (rsv_ledgerId i, rsv_idempotencyKey i)"
    and db': "db' = db2\<lparr>reservations := reservations db2 @ [new_reservation newId i n w]\<rparr>"
  let ?r = "new_reservation newId i n w"
  have upd: "update_where (\<lambda>x. led_id x = led_id l) (\<lambda>_. claim_ledger n l) (ledgers db)
      = update_where (\<lambda>x. led_id x = led_id l) (claim_ledger n) (ledgers db)"
    using budget_invD(1) [OF inv] l(1) by (rule update_where_const)
  have r: "res_ledgerId ?r = led_id l" "res_tenantId ?r = led_tenantId l" "is_open ?r"
      "res_units ?r = n" "reservation_ok ?r"
    using l(2,3) n by (auto simp: new_reservation_def is_open_def reservation_ok_def charge_def)
  have ver: "led_version l + 1 \<le> max_int4" using ledger_row_okD [OF row] by simp
  from agg show "budget_inv db'"
  proof (cases rule: reserveTenantAggregate_cases)
    case free
    have "usage_acct ?r = None" using free(1) by (simp add: usage_acct_def new_reservation_def)
    then show ?thesis
      using claim_state_inv [OF inv l(1) r, of] fresh reserve_where_TrueD(1) [OF hit] ver free db'
      by (simp add: upd update_where_cong_id new_reservation_def)
  next
    case (charged u cfg)
    let ?D = "ensure_usage_row ck (rsv_tenantId i) (trim (led_currency l)) db"
    have invD: "budget_inv ?D" by (rule ensure_usage_row_inv [OF inv])
    have u: "u \<in> set (usages ?D)" using charged(2) by simp
    have acct: "usage_acct ?r = Some (usage_key u)"
      using charged(1,3) l(3) by (simp add: usage_acct_def new_reservation_def)
    have same: "x = u" if "x \<in> set (usages ?D)" "usage_key x = usage_key u" for x
      using budget_invD(3) [OF invD] u that by (auto simp: distinct_map inj_on_def)
    have updu: "update_where (\<lambda>x. usage_key x = usage_key u) (\<lambda>_. usage_claim n u) (usages ?D)
        = update_where (\<lambda>x. usage_acct ?r = Some (usage_key x)) (usage_claim n) (usages ?D)"
      using update_where_const [OF budget_invD(3) [OF invD] u, of "usage_claim n"]
      by (simp add: acct eq_commute [of "usage_key u"])
    have "budget_inv (?D\<lparr>
        ledgers := update_where (\<lambda>x. led_id x = led_id l) (claim_ledger n) (ledgers ?D),
        usages := update_where (\<lambda>x. usage_acct ?r = Some (usage_key x)) (usage_claim n) (usages ?D),
        reservations := reservations ?D @ [?r]\<rparr>)"
    proof (rule claim_state_inv [OF invD _ r])
      show "l \<in> set (ledgers ?D)" using l(1) by simp
      show "\<forall>x \<in> set (reservations ?D). res_id x \<noteq> res_id ?r \<and>
          (res_ledgerId x, res_idempotencyKey x) \<noteq> (res_ledgerId ?r, res_idempotencyKey ?r)"
        using fresh charged(6) by (simp add: new_reservation_def)
      show "k \<in> usage_key ` set (usages ?D)" if "usage_acct ?r = Some k" for k
        using that acct u by auto
      show "use_used_of m x + use_reserved_of m x + units_of (mdim_of m) n \<le> max_int4"
        if "x \<in> set (usages ?D)" "usage_acct ?r = Some (usage_key x)" for x m
        using that acct same [of x] usage_where_TrueD [OF charged(5), of m] by simp
    qed (use reserve_where_TrueD(1) [OF hit] ver in auto)
    then show ?thesis using db' charged(6) by (simp add: upd updu)
  qed
qed

lemma assertNonnegativeInt_Inr: "assertNonnegativeInt v s = Inr k \<Longrightarrow> 0 \<le> k \<and> k \<le> max_int4"
  by (auto simp: assertNonnegativeInt_def split: option.splits if_splits)

lemma validateUnits_nonneg: "validateUnits u = Inr n \<Longrightarrow> 0 \<le> units_of d n \<and> units_of d n \<le> max_int4"
  by (cases d) (auto simp: validateUnits_def result_simps split: if_splits
      dest!: assertNonnegativeInt_Inr)

lemma replay_claim_state: "replay_claim ck n r db = Inr (rc, db') \<Longrightarrow> db' = db"
  by (auto simp: replay_claim_def result_simps)

lemma reserve_cases:
  assumes "reserve stale ck newId i db = Inr (rc, db')"
  obtains (replay) n r where "find_claim i db = Some r" "replay_claim ck n r db = Inr (rc, db')"
      "validateUnits (rsv_units i) = Inr n"
  | (claim) n where "validateUnits (rsv_units i) = Inr n" "claim_txn ck newId i n db = Inr (rc, db')"
proof -
  from assms obtain n where n: "validateUnits (rsv_units i) = Inr n"
    by (auto simp: reserve_def and_then_Inr_iff)
  define first where "first =
    (case (if stale then None else find_claim i db) of
       Some r \<Rightarrow> replay_claim ck n r db
     | None \<Rightarrow> claim_txn ck newId i n db)"
  have body: "(case first of
      Inr res \<Rightarrow> Inr res
    | Inl e \<Rightarrow> if isUniqueViolation e
        then and_then (or_throw (find_claim i db) EntityNotFoundError) (\<lambda>r. replay_claim ck n r db)
        else Inl e) = Inr (rc, db')"
    using assms n by (simp add: reserve_def and_then_Inr_iff first_def [symmetric])
  show ?thesis
  proof (cases first)
    case (Inl e)
    with body n replay show ?thesis by (auto simp: and_then_Inr_iff split: if_splits)
  next
    case (Inr res)
    with body have "first = Inr (rc, db')" by simp
    then show ?thesis
      using n replay claim by (auto simp: first_def split: option.splits if_splits)
  qed
qed

lemma reserve_inv:
  assumes "budget_inv db" "reserve stale ck newId i db = Inr (rc, db')"
  shows "budget_inv db'"
  using assms(2)
proof (cases rule: reserve_cases)
  case replay
  with assms(1) show ?thesis by (auto dest: replay_claim_state)
next
  case (claim n)
  then show ?thesis using claim_txn_inv [OF assms(1)] validateUnits_nonneg by blast
qed

definition usage_settle :: "int AgentBudgetUnits \<Rightarrow> int \<Rightarrow> int \<Rightarrow> TenantAgentBudgetUsage \<Rightarrow> TenantAgentBudgetUsage" where
  "usage_settle n calls actual u =
     u\<lparr>use_providerCallReserved := use_providerCallReserved u - providerCallUnits n,
       use_providerCallUsed := use_providerCallUsed u + calls,
       use_costReservedMinorUnits := use_costReservedMinorUnits u - costMinorUnits n,
       use_costUsedMinorUnits := use_costUsedMinorUnits u + actual\<rparr>"

lemma usage_settle_simps [simp]:
  "usage_key (usage_settle n p c u) = usage_key u"
  "use_reserved_of m (usage_settle n p c u) = use_reserved_of m u - units_of (mdim_of m) n"
  "use_used_of m (usage_settle n p c u) = use_used_of m u + (case m of MCalls \<Rightarrow> p | MCost \<Rightarrow> c)"
  by (cases m; simp add: usage_settle_def usage_key_def)+

text \<open>Committing and releasing settle the month's row in one of two ways.\<close>

definition settled ::
  "AgentBudgetReservation \<Rightarrow> int \<Rightarrow> int \<Rightarrow> budget_db \<Rightarrow> budget_db \<Rightarrow> bool" where
  "settled r p c db db' \<longleftrightarrow>
     (case aggregateWindowStart r of
        None \<Rightarrow> db' = db
      | Some w \<Rightarrow>
          \<exists>u \<in> set (usages db). usage_key u = (res_tenantId r, w)
            \<and> usage_row_ok (usage_settle (res_units r) p c u)
            \<and> (reservation_ok r \<longrightarrow> usage_sane u \<longrightarrow> usage_sane (usage_settle (res_units r) p c u))
            \<and> db' = db\<lparr>usages := update_where (\<lambda>x. usage_key x = usage_key u)
                       (\<lambda>_. usage_settle (res_units r) p c u) (usages db)\<rparr>)"

lemma commitTenantAggregate_settled:
  assumes "commitTenantAggregate r c db = Inr db'"
  shows "settled r (providerCallUnits (res_units r)) c db db'"
proof -
  have fold_settle:
    "u\<lparr>use_providerCallReserved := use_providerCallReserved u - providerCallUnits (res_units r),
       use_providerCallUsed := use_providerCallUsed u + providerCallUnits (res_units r),
       use_costReservedMinorUnits := use_costReservedMinorUnits u - costMinorUnits (res_units r),
       use_costUsedMinorUnits := use_costUsedMinorUnits u + c\<rparr>
     = usage_settle (res_units r) (providerCallUnits (res_units r)) c u" for u
    by (simp add: usage_settle_def)
  have sane: "usage_sane (usage_settle (res_units r) (providerCallUnits (res_units r)) c u)"
    if "commit_usage_where r c t u = Inr True" "usage_sane u" for t u
    unfolding usage_sane_def
  proof
    fix m
    show "use_used_of m (usage_settle (res_units r) (providerCallUnits (res_units r)) c u)
      + use_reserved_of m (usage_settle (res_units r) (providerCallUnits (res_units r)) c u) \<le> max_int4"
      using that spec [OF that(2) [unfolded usage_sane_def], of m]
      by (cases m) (auto simp: commit_usage_where_def sql_and_TrueD split: if_splits option.splits
          dest!: int4_le_TrueD)
  qed
  show ?thesis
    using assms sane
    by (auto simp: commitTenantAggregate_def settled_def result_simps put_usage_Inr_iff fold_settle
        split: option.splits if_splits dest!: find_usage_SomeD)
qed

lemma releaseTenantAggregate_settled:
  assumes "releaseTenantAggregate r db = Inr db'"
  shows "settled r 0 0 db db'"
proof -
  have fold_settle:
    "u\<lparr>use_providerCallReserved := use_providerCallReserved u - providerCallUnits (res_units r),
       use_costReservedMinorUnits := use_costReservedMinorUnits u - costMinorUnits (res_units r)\<rparr>
     = usage_settle (res_units r) 0 0 u" for u
    by (simp add: usage_settle_def)
  have sane: "usage_sane (usage_settle (res_units r) 0 0 u)"
    if "reservation_ok r" "usage_sane u" for u
    unfolding usage_sane_def
  proof
    fix m
    show "use_used_of m (usage_settle (res_units r) 0 0 u)
      + use_reserved_of m (usage_settle (res_units r) 0 0 u) \<le> max_int4"
      using spec [OF that(2) [unfolded usage_sane_def], of m]
        spec [OF that(1) [unfolded reservation_ok_def], of "mdim_of m"]
      by (cases m) auto
  qed
  show ?thesis
    using assms sane
    by (auto simp: releaseTenantAggregate_def settled_def result_simps put_usage_Inr_iff fold_settle
        split: option.splits if_splits dest!: find_usage_SomeD)
qed

text \<open>Replacing an open reservation \<open>r\<close> by its resolution \<open>r'\<close> and settling both books.\<close>

lemma settle_inv:
  assumes inv: "budget_inv db" and l: "l \<in> set (ledgers db)" and r: "r \<in> set (reservations db)"
    and rl: "res_ledgerId r = led_id l" and opn: "is_open r"
    and r': "res_id r' = res_id r" "res_ledgerId r' = res_ledgerId r"
      "res_tenantId r' = res_tenantId r" "res_idempotencyKey r' = res_idempotencyKey r"
      "aggregateWindowStart r' = aggregateWindowStart r" "reservation_ok r'" "\<not> is_open r'"
    and lf: "\<And>x. led_id (lf x) = led_id x" "\<And>x. led_tenantId (lf x) = led_tenantId x"
      "\<And>d x. reserved_of d (lf x) = reserved_of d x - units_of d (res_units r)"
      "\<And>d x. used_of d (lf x) = used_of d x + spent d r'"
      "ledger_sane (lf l)"
    and pc: "p = spent Calls r'" "c = spent Cost r'"
    and set: "settled r p c
        (db\<lparr>ledgers := update_where (\<lambda>x. led_id x = led_id l) (\<lambda>_. lf l) (ledgers db)\<rparr>) db2"
  shows "budget_inv (save_reservation r' db2)"
proof -
  let ?uf = "usage_settle (res_units r) p c"
  have upd: "update_where (\<lambda>x. led_id x = led_id l) (\<lambda>_. lf l) (ledgers db)
      = update_where (\<lambda>x. led_id x = led_id l) lf (ledgers db)"
    using budget_invD(1) [OF inv] l by (rule update_where_const)
  have acct': "usage_acct r' = usage_acct r" using r'(3,5) by (simp add: usage_acct_def)
  have amounts: "\<And>d. held d r = units_of d (res_units r)" "\<And>d. held d r' = 0" "\<And>d. spent d r = 0"
    using opn r'(7) by (auto simp: held_def spent_def is_open_def)
  have eq: "save_reservation r' db2 = db\<lparr>
      ledgers := update_where (\<lambda>x. led_id x = led_id l) lf (ledgers db),
      usages := update_where (\<lambda>u. usage_acct r = Some (usage_key u)) ?uf (usages db),
      reservations := update_where (\<lambda>x. res_id x = res_id r) (\<lambda>_. r') (reservations db)\<rparr>
    \<and> (\<forall>u \<in> set (usages db). usage_acct r = Some (usage_key u) \<longrightarrow> usage_sane (?uf u))"
  proof (cases "aggregateWindowStart r")
    case None
    then show ?thesis
      using set r'(1)
      by (simp add: settled_def save_reservation_def upd usage_acct_def update_where_cong_id)
  next
    case (Some w)
    with set obtain u where u: "u \<in> set (usages db)" "usage_key u = (res_tenantId r, w)"
        "usage_sane (?uf u)"
      and db2: "db2 = db\<lparr>ledgers := update_where (\<lambda>x. led_id x = led_id l) lf (ledgers db),
         usages := update_where (\<lambda>x. usage_key x = usage_key u) (\<lambda>_. ?uf u) (usages db)\<rparr>"
      using budget_invD(5) [OF inv r] budget_invD(7) [OF inv] by (auto simp: settled_def upd)
    have acct: "usage_acct r = Some (usage_key u)" using Some u(2) by (simp add: usage_acct_def)
    have same: "x = u" if "x \<in> set (usages db)" "usage_key x = usage_key u" for x
      using budget_invD(3) [OF inv] u(1) that by (auto simp: distinct_map inj_on_def)
    have "update_where (\<lambda>x. usage_key x = usage_key u) (\<lambda>_. ?uf u) (usages db)
        = update_where (\<lambda>x. usage_acct r = Some (usage_key x)) ?uf (usages db)"
      using update_where_const [OF budget_invD(3) [OF inv] u(1), of ?uf]
      by (simp add: acct eq_commute [of "usage_key u"])
    then show ?thesis
      using db2 r'(1) u(3) same by (auto simp: save_reservation_def acct)
  qed
  have m: "(case m of MCalls \<Rightarrow> p | MCost \<Rightarrow> c) = spent (mdim_of m) r'" for m
    using pc by (cases m) auto
  show ?thesis
    unfolding eq [THEN conjunct1]
    by (rule resolve_state_inv [OF inv l r rl])
      (use r' acct' amounts lf eq m in auto)
qed

lemma resolveReservation_cases:
  assumes "resolveReservation t rid act db = Inr (rc, db')"
  obtains r l where "r \<in> set (reservations db)" "res_id r = rid" "res_tenantId r = t"
    "l \<in> set (ledgers db)" "led_id l = res_ledgerId r" "led_tenantId l = t"
    "act r l db = Inr (rc, db')"
  using assms
  by (auto simp: resolveReservation_def result_simps dest!: find_SomeD find_ledger_SomeD)

lemma commit_action_inv:
  assumes inv: "budget_inv db" and r: "r \<in> set (reservations db)"
    and l: "l \<in> set (ledgers db)" "led_id l = res_ledgerId r"
    and cost: "\<And>c. cost = Some c \<Longrightarrow> 0 \<le> c"
    and ok: "commit_action ck i cost r l db = Inr (rc, db')"
  shows "budget_inv db'"
proof (cases "is_open r")
  case False
  then have "res_status r = Committed \<or> res_status r = Released"
    by (cases "res_status r") (auto simp: is_open_def)
  then show ?thesis using ok inv by (auto simp: commit_action_def split: if_splits)
next
  case True
  define c where "c = (case cost of Some c \<Rightarrow> c | None \<Rightarrow> costMinorUnits (res_units r))"
  define r' where "r' = r\<lparr>res_status := Committed, actualCostMinorUnits := Some c,
      res_resolvedAt := Some (js_now ck), res_resolvedBy := cmt_resolvedBy i,
      res_resolutionNote := cmt_resolutionNote i\<rparr>"
  have rok: "reservation_ok r" by (rule budget_invD(5) [OF inv r])
  have c0: "0 \<le> c"
    using cost spec [OF rok [unfolded reservation_ok_def], of Cost]
    by (auto simp: c_def split: option.splits)
  from ok True obtain db2 where
    hit: "int4_le [costUsedMinorUnits l, costReservedMinorUnits l, - costMinorUnits (res_units r), c]
        (costLimitMinorUnits l) = Inr True"
    and row: "ledger_row_ok (commit_ledger (res_units r) c l)"
    and agg: "commitTenantAggregate r c (db\<lparr>ledgers := update_where (\<lambda>x. led_id x = led_id l)
        (\<lambda>_. commit_ledger (res_units r) c l) (ledgers db)\<rparr>) = Inr db2"
    and db': "db' = save_reservation r' db2"
    unfolding commit_action_def Let_def c_def [symmetric] r'_def [symmetric]
    by (auto simp: is_open_def result_simps put_ledger_Inr_iff split: if_splits)
  have r'_ok: "reservation_ok r'"
    using rok c0 by (auto simp: reservation_ok_def r'_def charge_def)
  have sane: "ledger_sane (commit_ledger (res_units r) c l)"
    unfolding ledger_sane_def
  proof (intro conjI allI)
    fix d
    show "used_of d (commit_ledger (res_units r) c l) + reserved_of d (commit_ledger (res_units r) c l)
        \<le> limit_of d (commit_ledger (res_units r) c l)"
      using int4_le_TrueD [OF hit] budget_invD(6) [OF inv l(1)]
      by (cases d) (auto simp: ledger_sane_def dest: spec [where x = d])
  qed (use budget_invD(6) [OF inv l(1)] ledger_row_okD [OF row] in \<open>auto simp: ledger_sane_def\<close>)
  show ?thesis
    unfolding db'
    by (rule settle_inv [OF inv l(1) r, where lf = "commit_ledger (res_units r) c",
          OF _ True _ _ _ _ _ r'_ok _ _ _ _ _ sane _ _ commitTenantAggregate_settled [OF agg]])
      (use l(2) in \<open>auto simp: r'_def is_open_def spent_def charge_def\<close>)
qed

lemma release_action_inv:
  assumes inv: "budget_inv db" and r: "r \<in> set (reservations db)"
    and l: "l \<in> set (ledgers db)" "led_id l = res_ledgerId r"
    and ok: "release_action ck m r l db = Inr (rc, db')"
  shows "budget_inv db'"
proof (cases "is_open r")
  case False
  then have "res_status r = Committed \<or> res_status r = Released"
    by (cases "res_status r") (auto simp: is_open_def)
  then show ?thesis using ok inv by (auto simp: release_action_def split: if_splits)
next
  case True
  define r' where "r' = r\<lparr>res_status := Released, res_resolvedAt := Some (js_now ck),
      res_resolvedBy := map_option man_resolvedBy m,
      res_resolutionNote := map_option man_resolutionNote m\<rparr>"
  have rok: "reservation_ok r" by (rule budget_invD(5) [OF inv r])
  from ok True obtain db2 where
    row: "ledger_row_ok (release_ledger (res_units r) l)"
    and agg: "releaseTenantAggregate r (db\<lparr>ledgers := update_where (\<lambda>x. led_id x = led_id l)
        (\<lambda>_. release_ledger (res_units r) l) (ledgers db)\<rparr>) = Inr db2"
    and db': "db' = save_reservation r' db2"
    unfolding release_action_def Let_def r'_def [symmetric]
    by (auto simp: is_open_def result_simps put_ledger_Inr_iff split: if_splits)
  have r'_ok: "reservation_ok r'"
    by (rule reservation_ok_cong [OF rok]) (simp_all add: r'_def)
  have sane: "ledger_sane (release_ledger (res_units r) l)"
    using rok budget_invD(6) [OF inv l(1)] ledger_row_okD [OF row]
    by (fastforce simp: ledger_sane_def reservation_ok_def intro: order_trans [rotated])
  show ?thesis
    unfolding db'
    by (rule settle_inv [OF inv l(1) r, where lf = "release_ledger (res_units r)",
          OF _ True _ _ _ _ _ r'_ok _ _ _ _ _ sane _ _ releaseTenantAggregate_settled [OF agg]])
      (use l(2) in \<open>auto simp: r'_def is_open_def spent_def\<close>)
qed

lemma unknown_action_inv:
  assumes inv: "budget_inv db" and r: "r \<in> set (reservations db)"
    and l: "l \<in> set (ledgers db)" "led_id l = res_ledgerId r"
    and ok: "unknown_action ck r l db = Inr (rc, db')"
  shows "budget_inv db'"
proof (cases "res_status r = Reserved")
  case False
  then show ?thesis using ok inv by (auto simp: unknown_action_def split: if_splits)
next
  case True
  let ?r = "r\<lparr>res_status := Unknown\<rparr>"
  have amounts: "\<And>d. held d ?r = held d r" "\<And>d. spent d ?r = spent d r"
    using True by (auto simp: held_def spent_def is_open_def)
  have rok: "reservation_ok ?r"
    by (rule reservation_ok_cong [OF budget_invD(5) [OF inv r]]) simp_all
  have "budget_inv (db\<lparr>
      ledgers := update_where (\<lambda>x. led_id x = led_id l) id (ledgers db),
      usages := update_where (\<lambda>u. usage_acct r = Some (usage_key u)) id (usages db),
      reservations := update_where (\<lambda>x. res_id x = res_id r) (\<lambda>_. ?r) (reservations db)\<rparr>)"
    by (rule resolve_state_inv [OF inv l(1) r])
      (use l amounts rok budget_invD(6) [OF inv l(1)] budget_invD(7) [OF inv]
        in \<open>auto simp: usage_acct_def\<close>)
  then show ?thesis
    using ok True by (simp add: unknown_action_def save_reservation_def update_where_ident Let_def)
qed

lemma commit_inv:
  assumes "budget_inv db" "commit ck i db = Inr (rc, db')"
  shows "budget_inv db'"
  using assms
  by (auto simp: commit_def and_then_Inr_iff split: option.splits
      elim!: resolveReservation_cases dest!: assertNonnegativeInt_Inr intro: commit_action_inv)

lemma release_inv:
  assumes "budget_inv db" "release ck t rid m db = Inr (rc, db')"
  shows "budget_inv db'"
  using assms
  by (auto simp: release_def and_then_Inr_iff elim!: resolveReservation_cases
      intro: release_action_inv)

lemma markUnknown_inv:
  assumes "budget_inv db" "markUnknown ck t rid db = Inr (rc, db')"
  shows "budget_inv db'"
  using assms by (auto simp: markUnknown_def elim!: resolveReservation_cases intro: unknown_action_inv)

lemma validateLedgerInput_bounds:
  "validateLedgerInput i = Inr n \<Longrightarrow> 0 \<le> units_of d n \<and> units_of d n \<le> max_int4"
  by (cases d) (auto simp: validateLedgerInput_def result_simps dest!: assertNonnegativeInt_Inr)

lemma new_ledger_simps [simp]:
  "led_id (new_ledger k i n) = k"
  "limit_of d (new_ledger k i n) = units_of d n"
  "used_of d (new_ledger k i n) = 0"
  "reserved_of d (new_ledger k i n) = 0"
  "led_version (new_ledger k i n) = 1"
  by (cases d; simp add: new_ledger_def)+

lemma new_ledger_inv:
  assumes inv: "budget_inv db" and n: "\<And>d. 0 \<le> units_of d n \<and> units_of d n \<le> max_int4"
    and fresh: "\<And>l. l \<in> set (ledgers db) \<Longrightarrow> led_id l \<noteq> k"
  shows "budget_inv (db\<lparr>ledgers := ledgers db @ [new_ledger k i n]\<rparr>)"
proof -
  note I = budget_invD [OF inv]
  have "lb.book (ledgers db @ [new_ledger k i n]) (reservations db)"
  proof (rule lb.book_open [OF I(8)])
    fix e
    assume "e \<in> set (reservations db)"
    then have "res_ledgerId e \<in> led_id ` set (ledgers db)"
      using I(4) by (auto simp: budget_refs_def)
    then show "ledger_acct e \<noteq> Some (led_id (new_ledger k i n))"
      using fresh by (force simp: ledger_acct_def)
  qed simp_all
  moreover have "budget_keys (db\<lparr>ledgers := ledgers db @ [new_ledger k i n]\<rparr>)"
    using inv fresh by (auto simp: budget_inv_def budget_keys_def)
  moreover have "budget_refs (db\<lparr>ledgers := ledgers db @ [new_ledger k i n]\<rparr>)"
    using I(4) by (auto simp: budget_refs_def)
  moreover have "ledger_sane (new_ledger k i n)"
    using n by (simp add: ledger_sane_def max_int4_def)
  ultimately show ?thesis using inv by (simp add: budget_inv_def)
qed

lemma createOrLoad_inv:
  assumes "budget_inv db"
  shows "budget_inv (snd (createOrLoad ck k i db))"
proof -
  have "budget_inv db'" if "validateLedgerInput i = Inr n" "insert_or_load_ledger k i n db = Inr (l, db')"
    for n l db'
    using that assms new_ledger_inv [OF assms validateLedgerInput_bounds [OF that(1)], of k i]
    by (auto simp: insert_or_load_ledger_def split: option.splits if_splits)
  then show ?thesis
    using assms by (auto simp: createOrLoad_def split: sum.splits)
qed

section \<open>The authority as a system\<close>

datatype budget_op =
    CreateOrLoad clock uuid AgentBudgetLedgerInput
  | Reserve bool clock uuid reserve_input
  | Commit clock commit_input
  | Release clock uuid uuid "manual_resolution option"
  | MarkUnknown clock uuid uuid

definition outcome :: "(budget_error + 'a) \<times> budget_db \<Rightarrow> (budget_error + unit) \<times> budget_db" where
  "outcome p = (map_sum id (\<lambda>_. ()) (fst p), snd p)"

fun budget_exec :: "budget_op \<Rightarrow> budget_db \<Rightarrow> (budget_error + unit) \<times> budget_db" where
  "budget_exec (CreateOrLoad ck k i) db = outcome (createOrLoad ck k i db)"
| "budget_exec (Reserve stale ck k i) db = outcome (run_txn (reserve stale ck k i) db)"
| "budget_exec (Commit ck i) db = outcome (run_txn (commit ck i) db)"
| "budget_exec (Release ck t k m) db = outcome (run_txn (release ck t k m) db)"
| "budget_exec (MarkUnknown ck t k) db = outcome (run_txn (markUnknown ck t k) db)"

definition empty_budget :: "TenantBudgetConfig list \<Rightarrow> budget_db" where
  "empty_budget ts = \<lparr>ledgers = [], reservations = [], usages = [], tenants = ts\<rparr>"

lemma snd_outcome [simp]: "snd (outcome p) = snd p"
  by (simp add: outcome_def)

lemma run_txn_inv:
  "P db \<Longrightarrow> (\<And>rc db'. t db = Inr (rc, db') \<Longrightarrow> P db') \<Longrightarrow> P (snd (run_txn t db))"
  by (auto simp: run_txn_def split: sum.splits)

lemma budget_exec_inv: "budget_inv db \<Longrightarrow> budget_inv (snd (budget_exec x db))"
  by (cases x) (auto intro: createOrLoad_inv reserve_inv commit_inv release_inv markUnknown_inv
      intro!: run_txn_inv [where P = budget_inv])

lemma empty_budget_inv: "budget_inv (empty_budget ts)"
  by (simp add: empty_budget_def budget_inv_def budget_keys_def budget_refs_def balanced_def)

text \<open>A reservation's later life: resolved rows are final, the claim itself never changes.\<close>

definition later :: "AgentBudgetReservation \<Rightarrow> AgentBudgetReservation \<Rightarrow> bool" where
  "later r r' \<longleftrightarrow>
     res_id r' = res_id r \<and> res_tenantId r' = res_tenantId r \<and> res_ledgerId r' = res_ledgerId r
     \<and> res_idempotencyKey r' = res_idempotencyKey r \<and> res_units r' = res_units r
     \<and> (\<not> is_open r \<longrightarrow> r' = r) \<and> (res_status r = Unknown \<longrightarrow> res_status r' \<noteq> Reserved)"

definition budget_le :: "budget_db \<Rightarrow> budget_db \<Rightarrow> bool" where
  "budget_le s t \<longleftrightarrow> (\<forall>r \<in> set (reservations s). \<exists>r' \<in> set (reservations t). later r r')"

lemma later_refl: "later r r"
  by (auto simp: later_def)

lemma later_trans: "later r s \<Longrightarrow> later s t \<Longrightarrow> later r t"
  by (cases "res_status s") (auto simp: later_def is_open_def)

lemma budget_le_sub: "set (reservations s) \<subseteq> set (reservations t) \<Longrightarrow> budget_le s t"
  unfolding budget_le_def using later_refl by blast

lemma budget_le_save:
  assumes "reservations db2 = reservations db" "distinct (map res_id (reservations db))"
    "r \<in> set (reservations db)" "later r r'"
  shows "budget_le db (save_reservation r' db2)"
  unfolding budget_le_def
proof
  fix x
  assume x: "x \<in> set (reservations db)"
  show "\<exists>x' \<in> set (reservations (save_reservation r' db2)). later x x'"
  proof (cases "res_id x = res_id r'")
    case True
    then have "x = r" using assms x by (auto simp: later_def distinct_map inj_on_def)
    then show ?thesis
      using assms x True by (auto simp: save_reservation_def set_update_where intro!: bexI [of _ r'])
  next
    case False
    then show ?thesis
      using assms(1) x later_refl
      by (auto simp: save_reservation_def set_update_where intro!: bexI [of _ x])
  qed
qed

lemma settled_frame:
  "settled r p c db db' \<Longrightarrow> reservations db' = reservations db \<and> tenants db' = tenants db"
  by (auto simp: settled_def split: option.splits)

lemma not_open_iff: "\<not> is_open r \<longleftrightarrow> res_status r = Committed \<or> res_status r = Released"
  by (cases "res_status r") (auto simp: is_open_def)

lemma commit_action_shape:
  assumes "commit_action ck i cost r l db = Inr (rc, db')"
  shows "\<not> is_open r \<and> db' = db \<or>
    is_open r \<and> (\<exists>r' db2. later r r' \<and> reservations db2 = reservations db
      \<and> tenants db2 = tenants db \<and> db' = save_reservation r' db2)"
proof (cases "is_open r")
  case False
  with assms show ?thesis by (auto simp: commit_action_def not_open_iff split: if_splits)
next
  case True
  from assms True obtain c db1 db2 where agg: "commitTenantAggregate r c db1 = Inr db2"
    and fr: "reservations db1 = reservations db" "tenants db1 = tenants db"
    and db': "db' = save_reservation (r\<lparr>res_status := Committed, actualCostMinorUnits := Some c,
        res_resolvedAt := Some (js_now ck), res_resolvedBy := cmt_resolvedBy i,
        res_resolutionNote := cmt_resolutionNote i\<rparr>) db2"
    unfolding commit_action_def Let_def
    by (auto simp: is_open_def result_simps put_ledger_Inr_iff split: if_splits)
  have "later r (r\<lparr>res_status := Committed, actualCostMinorUnits := Some c,
        res_resolvedAt := Some (js_now ck), res_resolvedBy := cmt_resolvedBy i,
        res_resolutionNote := cmt_resolutionNote i\<rparr>)"
    using True by (simp add: later_def)
  moreover have "reservations db2 = reservations db" "tenants db2 = tenants db"
    using settled_frame [OF commitTenantAggregate_settled [OF agg]] fr by simp_all
  ultimately show ?thesis using True unfolding db' by blast
qed

lemma release_action_shape:
  assumes "release_action ck m r l db = Inr (rc, db')"
  shows "\<not> is_open r \<and> db' = db \<or>
    is_open r \<and> (\<exists>r' db2. later r r' \<and> reservations db2 = reservations db
      \<and> tenants db2 = tenants db \<and> db' = save_reservation r' db2)"
proof (cases "is_open r")
  case False
  with assms show ?thesis by (auto simp: release_action_def not_open_iff split: if_splits)
next
  case True
  from assms True obtain db1 db2 where agg: "releaseTenantAggregate r db1 = Inr db2"
    and fr: "reservations db1 = reservations db" "tenants db1 = tenants db"
    and db': "db' = save_reservation (r\<lparr>res_status := Released, res_resolvedAt := Some (js_now ck),
        res_resolvedBy := map_option man_resolvedBy m,
        res_resolutionNote := map_option man_resolutionNote m\<rparr>) db2"
    unfolding release_action_def Let_def
    by (auto simp: is_open_def result_simps put_ledger_Inr_iff split: if_splits)
  have "later r (r\<lparr>res_status := Released, res_resolvedAt := Some (js_now ck),
        res_resolvedBy := map_option man_resolvedBy m,
        res_resolutionNote := map_option man_resolutionNote m\<rparr>)"
    using True by (simp add: later_def)
  moreover have "reservations db2 = reservations db" "tenants db2 = tenants db"
    using settled_frame [OF releaseTenantAggregate_settled [OF agg]] fr by simp_all
  ultimately show ?thesis using True unfolding db' by blast
qed

lemma unknown_action_shape:
  assumes "unknown_action ck r l db = Inr (rc, db')"
  shows "db' = db \<or> later r (r\<lparr>res_status := Unknown\<rparr>) \<and> db' = save_reservation (r\<lparr>res_status := Unknown\<rparr>) db"
  using assms
  by (auto simp: unknown_action_def later_def is_open_def Let_def split: if_splits)

lemma resolve_le:
  assumes inv: "budget_inv db" and r: "r \<in> set (reservations db)"
    and "db' = db \<or> (\<exists>r' db2. later r r' \<and> reservations db2 = reservations db
      \<and> tenants db2 = tenants db \<and> db' = save_reservation r' db2)"
  shows "budget_le db db' \<and> tenants db' = tenants db"
  using assms(3) budget_le_save [OF _ budget_invD(2) [OF inv] r]
  by (auto simp: budget_le_sub save_reservation_def)

lemma resolveReservation_le:
  assumes "budget_inv db" "resolveReservation t k act db = Inr (rc, db')"
    and "\<And>r l. act r l db = Inr (rc, db') \<Longrightarrow>
      db' = db \<or> (\<exists>r' db2. later r r' \<and> reservations db2 = reservations db
        \<and> tenants db2 = tenants db \<and> db' = save_reservation r' db2)"
  shows "budget_le db db' \<and> tenants db' = tenants db"
  using assms(2) by (rule resolveReservation_cases) (rule resolve_le [OF assms(1) _ assms(3)])

lemma reserveTenantAggregate_frame:
  assumes "reserveTenantAggregate ck t c n db = Inr (w, db')"
  shows "reservations db' = reservations db \<and> tenants db' = tenants db"
  using assms by (cases rule: reserveTenantAggregate_cases) auto

lemma reserve_le:
  assumes "reserve stale ck k i db = Inr (rc, db')"
  shows "budget_le db db' \<and> tenants db' = tenants db"
  using assms
proof (cases rule: reserve_cases)
  case (claim n)
  from claim(2) show ?thesis
    by (rule claim_txn_cases) (auto intro!: budget_le_sub dest!: reserveTenantAggregate_frame)
qed (auto simp: budget_le_sub dest: replay_claim_state)

lemma createOrLoad_le:
  "budget_le db (snd (createOrLoad ck k i db)) \<and> tenants (snd (createOrLoad ck k i db)) = tenants db"
  by (auto simp: createOrLoad_def insert_or_load_ledger_def intro!: budget_le_sub
      split: sum.splits option.splits if_splits)

lemma commit_le:
  assumes "budget_inv db" "commit ck i db = Inr (rc, db')"
  shows "budget_le db db' \<and> tenants db' = tenants db"
proof -
  from assms(2) obtain cost where
    "resolveReservation (cmt_tenantId i) (cmt_reservationId i) (commit_action ck i cost) db = Inr (rc, db')"
    by (auto simp: commit_def and_then_Inr_iff)
  then show ?thesis
    by (rule resolveReservation_le [OF assms(1)]) (blast dest: commit_action_shape)
qed

lemma release_le:
  assumes "budget_inv db" "release ck t k m db = Inr (rc, db')"
  shows "budget_le db db' \<and> tenants db' = tenants db"
proof -
  from assms(2) have "resolveReservation t k (release_action ck m) db = Inr (rc, db')"
    by (auto simp: release_def and_then_Inr_iff)
  then show ?thesis
    by (rule resolveReservation_le [OF assms(1)]) (blast dest: release_action_shape)
qed

lemma markUnknown_le:
  assumes "budget_inv db" "markUnknown ck t k db = Inr (rc, db')"
  shows "budget_le db db' \<and> tenants db' = tenants db"
  using assms(2) unfolding markUnknown_def
  by (rule resolveReservation_le [OF assms(1)]) (blast dest: unknown_action_shape)

lemma budget_exec_le:
  assumes "budget_inv db"
  shows "budget_le db (snd (budget_exec x db)) \<and> tenants (snd (budget_exec x db)) = tenants db"
proof (cases x)
  case (CreateOrLoad ck k i)
  then show ?thesis by (simp add: createOrLoad_le)
next
  case (Reserve stale ck k i)
  then show ?thesis
    by (auto simp: budget_le_sub intro!: run_txn_inv [where P = "\<lambda>t. budget_le db t \<and> tenants t = tenants db"]
        dest: reserve_le)
next
  case (Commit ck i)
  then show ?thesis
    by (auto simp: budget_le_sub intro!: run_txn_inv [where P = "\<lambda>t. budget_le db t \<and> tenants t = tenants db"]
        dest: commit_le [OF assms])
next
  case (Release ck t k m)
  then show ?thesis
    by (auto simp: budget_le_sub intro!: run_txn_inv [where P = "\<lambda>t. budget_le db t \<and> tenants t = tenants db"]
        dest: release_le [OF assms])
next
  case (MarkUnknown ck t k)
  then show ?thesis
    by (auto simp: budget_le_sub intro!: run_txn_inv [where P = "\<lambda>t. budget_le db t \<and> tenants t = tenants db"]
        dest: markUnknown_le [OF assms])
qed

interpretation bs: progress_system budget_exec budget_inv budget_le
proof unfold_locales
  show "budget_inv (snd (budget_exec x s))" if "budget_inv s" for s x
    using that by (rule budget_exec_inv)
  show "budget_le s s" for s by (simp add: budget_le_sub)
  show "budget_le s u" if "budget_le s t" "budget_le t u" for s t u
    using that later_trans unfolding budget_le_def by blast
  show "budget_le s (snd (budget_exec x s))" if "budget_inv s" for s x
    using budget_exec_le [OF that] by blast
qed

end
