(* ===== verification/Budget_Properties.thy ===== *)
theory Budget_Properties
  imports Budget_Invariant
begin

text \<open>
  The properties of the budget authority, over arbitrary sequences of its operations:
  no overspending, the monthly allowance, idempotent claims, final resolutions, and
  that an open claim can always be settled.
\<close>

section \<open>The monthly allowance\<close>

text \<open>
  The check constraint \<open>CK_tenants_agent_aggregate_budget\<close>: an allowance is absent or
  complete, and its limits are not negative.
\<close>

definition tenant_config_ok :: "TenantBudgetConfig \<Rightarrow> bool" where
  "tenant_config_ok t \<longleftrightarrow>
     (case (agentMonthlyProviderCallLimit t, agentMonthlyCostLimitMinorUnits t, agentBudgetCurrency t) of
        (None, None, None) \<Rightarrow> True
      | (Some calls, Some cost, Some c) \<Rightarrow> 0 \<le> calls \<and> 0 \<le> cost \<and> valid_currency c
      | _ \<Rightarrow> False)"

abbreviation config_ok :: "TenantBudgetConfig list \<Rightarrow> bool" where
  "config_ok ts \<equiv> list_all tenant_config_ok ts"

lemma config_ok_limit:
  assumes "config_ok ts" "t \<in> set ts" "month_limit m t = Some k"
  shows "0 \<le> k"
proof -
  have "tenant_config_ok t" using assms(1,2) by (simp add: list_all_iff)
  then show ?thesis
    using assms(3) by (cases m) (auto simp: tenant_config_ok_def split: option.splits)
qed

definition within_allowance :: "budget_db \<Rightarrow> bool" where
  "within_allowance db \<longleftrightarrow>
     (\<forall>u \<in> set (usages db). \<forall>t m k.
        find_tenant (use_tenantId u) db = Some t \<longrightarrow> month_limit m t = Some k \<longrightarrow>
        use_used_of m u + use_reserved_of m u \<le> k)"

lemma find_tenant_cong: "tenants db' = tenants db \<Longrightarrow> find_tenant t db' = find_tenant t db"
  by (simp add: find_tenant_def)

lemma within_allowance_replace:
  assumes "within_allowance db" "tenants db' = tenants db"
    and "\<And>x. x \<in> set (usages db') \<Longrightarrow> x \<in> set (usages db) \<or> x = u'"
    and "\<And>t m k. find_tenant (use_tenantId u') db = Some t \<Longrightarrow> month_limit m t = Some k \<Longrightarrow>
      use_used_of m u' + use_reserved_of m u' \<le> k"
  shows "within_allowance db'"
  using assms unfolding within_allowance_def find_tenant_cong [OF assms(2)] by blast

lemma find_tenant_SomeD: "find_tenant t db = Some c \<Longrightarrow> c \<in> set (tenants db)"
  by (auto simp: find_tenant_def dest: find_SomeD)

lemma ensure_usage_row_allowance:
  assumes "within_allowance db" "config_ok (tenants db)"
  shows "within_allowance (ensure_usage_row ck t c db)"
proof (cases rule: ensure_usage_row_cases [of ck t c db])
  case (fresh u)
  show ?thesis
  proof (rule within_allowance_replace [OF assms(1)])
    show "use_used_of m u + use_reserved_of m u \<le> k"
      if "find_tenant (use_tenantId u) db = Some cfg" "month_limit m cfg = Some k" for cfg m k
      using that assms(2) fresh(3,4) by (auto dest: find_tenant_SomeD config_ok_limit)
  qed (use fresh(1) in auto)
qed (use assms in simp)

lemma use_tenantId_key: "use_tenantId u = fst (usage_key u)"
  by (simp add: usage_key_def)

lemma reserve_allowance:
  assumes "within_allowance db" "config_ok (tenants db)" "reserve stale ck k i db = Inr (rc, db')"
  shows "within_allowance db'"
  using assms(3)
proof (cases rule: reserve_cases)
  case (claim n)
  from claim(2) show ?thesis
  proof (rule claim_txn_cases)
    fix l :: AgentBudgetLedger and w db2
    let ?t = "rsv_tenantId i" and ?c = "trim (led_currency l)"
    let ?db = "db\<lparr>ledgers := update_where (\<lambda>x. led_id x = led_id l) (\<lambda>_. claim_ledger n l) (ledgers db)\<rparr>"
    assume agg: "reserveTenantAggregate ck ?t ?c n ?db = Inr (w, db2)"
      and db': "db' = db2\<lparr>reservations := reservations db2 @ [new_reservation k i n w]\<rparr>"
    from agg have "within_allowance db2"
    proof (cases rule: reserveTenantAggregate_cases)
      case free
      with assms(1) show ?thesis by (simp add: within_allowance_def find_tenant_def)
    next
      case (charged u cfg)
      let ?D = "ensure_usage_row ck ?t ?c ?db"
      have D: "within_allowance ?D"
        by (rule ensure_usage_row_allowance)
          (use assms(1,2) in \<open>simp_all add: within_allowance_def find_tenant_def\<close>)
      show ?thesis
      proof (rule within_allowance_replace [OF D])
        show "x \<in> set (usages ?D) \<or> x = usage_claim n u" if "x \<in> set (usages db2)" for x
          using that unfolding charged(6) by (auto elim!: in_update_whereE)
        show "use_used_of m (usage_claim n u) + use_reserved_of m (usage_claim n u) \<le> lim'"
          if "find_tenant (use_tenantId (usage_claim n u)) ?D = Some t" "month_limit m t = Some lim'"
          for t m lim'
        proof -
          have "t = cfg"
            using that(1) charged(3,4) by (simp add: use_tenantId_key find_tenant_def)
          then show ?thesis
            using usage_where_TrueD [OF charged(5), of m] that(2) by (auto simp: add.assoc)
        qed
      qed (simp add: charged(6))
    qed
    then show ?thesis
      unfolding db' by (simp add: within_allowance_def find_tenant_def)
  qed
qed (use assms in \<open>auto dest: replay_claim_state\<close>)

lemma settled_allowance:
  assumes al: "within_allowance db" and set: "settled r p c db db'"
    and bound: "\<And>u t m k. u \<in> set (usages db) \<Longrightarrow> usage_row_ok (usage_settle (res_units r) p c u) \<Longrightarrow>
      find_tenant (use_tenantId u) db = Some t \<Longrightarrow> month_limit m t = Some k \<Longrightarrow>
      usage_key u = (res_tenantId r, w) \<Longrightarrow> aggregateWindowStart r = Some w \<Longrightarrow>
      use_used_of m (usage_settle (res_units r) p c u)
        + use_reserved_of m (usage_settle (res_units r) p c u) \<le> k"
    and w: "aggregateWindowStart r = Some w"
  shows "within_allowance db'"
proof -
  from set w obtain u where u: "u \<in> set (usages db)" "usage_key u = (res_tenantId r, w)"
      "usage_row_ok (usage_settle (res_units r) p c u)"
    and db': "db' = db\<lparr>usages := update_where (\<lambda>x. usage_key x = usage_key u)
         (\<lambda>_. usage_settle (res_units r) p c u) (usages db)\<rparr>"
    by (auto simp: settled_def)
  show ?thesis
  proof (rule within_allowance_replace [OF al])
    show "x \<in> set (usages db) \<or> x = usage_settle (res_units r) p c u" if "x \<in> set (usages db')" for x
      using that unfolding db' by (auto elim!: in_update_whereE)
    show "use_used_of m (usage_settle (res_units r) p c u)
        + use_reserved_of m (usage_settle (res_units r) p c u) \<le> k"
      if "find_tenant (use_tenantId (usage_settle (res_units r) p c u)) db = Some t"
        "month_limit m t = Some k" for t m k
      using bound [OF u(1) u(3) _ that(2) u(2) w] that(1) by (simp add: use_tenantId_key)
  qed (simp add: db')
qed

lemma commitTenantAggregate_allowance:
  assumes al: "within_allowance db" and inv: "distinct (map usage_key (usages db))"
    and ok: "commitTenantAggregate r c db = Inr db'"
  shows "within_allowance db'"
proof (cases "aggregateWindowStart r")
  case None
  with ok al show ?thesis by (simp add: commitTenantAggregate_def)
next
  case (Some w)
  from ok Some obtain v where v: "v \<in> set (usages db)" "usage_key v = (res_tenantId r, w)"
    and hit: "commit_usage_where r c (find_tenant (use_tenantId v) db) v = Inr True"
    by (auto simp: commitTenantAggregate_def result_simps split: option.splits if_splits
        dest!: find_usage_SomeD)
  have "use_used_of m (usage_settle (res_units r) (providerCallUnits (res_units r)) c u)
      + use_reserved_of m (usage_settle (res_units r) (providerCallUnits (res_units r)) c u) \<le> k"
    if "u \<in> set (usages db)" "find_tenant (use_tenantId u) db = Some t" "month_limit m t = Some k"
      "usage_key u = (res_tenantId r, w)" for u t m k
  proof -
    have "u = v" using inv v that(1,4) by (auto simp: distinct_map inj_on_def)
    moreover have "use_used_of m u + use_reserved_of m u \<le> k"
      using al that(1,2,3) by (auto simp: within_allowance_def)
    ultimately show ?thesis
      using hit that(2,3)
      by (cases m) (auto simp: commit_usage_where_def sql_and_TrueD split: if_splits option.splits
          dest!: int4_le_TrueD)
  qed
  then show ?thesis
    using settled_allowance [OF al commitTenantAggregate_settled [OF ok] _ Some] by blast
qed

lemma releaseTenantAggregate_allowance:
  assumes al: "within_allowance db" and r: "reservation_ok r"
    and ok: "releaseTenantAggregate r db = Inr db'"
  shows "within_allowance db'"
proof (cases "aggregateWindowStart r")
  case None
  with ok al show ?thesis by (simp add: releaseTenantAggregate_def)
next
  case (Some w)
  have "use_used_of m (usage_settle (res_units r) 0 0 u)
      + use_reserved_of m (usage_settle (res_units r) 0 0 u) \<le> k"
    if "u \<in> set (usages db)" "find_tenant (use_tenantId u) db = Some t" "month_limit m t = Some k"
    for u t m k
  proof -
    have "use_used_of m u + use_reserved_of m u \<le> k"
      using al that by (auto simp: within_allowance_def)
    then show ?thesis
      using r [unfolded reservation_ok_def, THEN spec, of "mdim_of m"] by (cases m) auto
  qed
  then show ?thesis
    using settled_allowance [OF al releaseTenantAggregate_settled [OF ok] _ Some] by blast
qed

lemma within_allowance_cong:
  "usages db' = usages db \<Longrightarrow> tenants db' = tenants db \<Longrightarrow> within_allowance db' = within_allowance db"
  by (simp add: within_allowance_def find_tenant_def)

lemma commit_allowance:
  assumes inv: "budget_inv db" and al: "within_allowance db" and ok: "commit ck i db = Inr (rc, db')"
  shows "within_allowance db'"
proof -
  from ok obtain cost r l where r: "r \<in> set (reservations db)"
    and act: "commit_action ck i cost r l db = Inr (rc, db')"
    by (auto simp: commit_def and_then_Inr_iff elim!: resolveReservation_cases)
  show ?thesis
  proof (cases "db' = db")
    case False
    from act False obtain c db1 db2 r' where
      "commitTenantAggregate r c db1 = Inr db2" "usages db1 = usages db" "tenants db1 = tenants db"
      "db' = save_reservation r' db2"
      unfolding commit_action_def Let_def
      by (auto simp: result_simps put_ledger_Inr_iff split: if_splits)
    then show ?thesis
      using commitTenantAggregate_allowance [of db1 r c db2] al budget_invD(3) [OF inv]
        within_allowance_cong [of db1 db] within_allowance_cong [of db' db2]
      by (simp add: save_reservation_def)
  qed (use al in simp)
qed

lemma release_allowance:
  assumes inv: "budget_inv db" and al: "within_allowance db" and ok: "release ck t k m db = Inr (rc, db')"
  shows "within_allowance db'"
proof -
  from ok obtain r l where r: "r \<in> set (reservations db)"
    and act: "release_action ck m r l db = Inr (rc, db')"
    by (auto simp: release_def and_then_Inr_iff elim!: resolveReservation_cases)
  show ?thesis
  proof (cases "db' = db")
    case False
    from act False obtain db1 db2 r' where
      "releaseTenantAggregate r db1 = Inr db2" "usages db1 = usages db" "tenants db1 = tenants db"
      "db' = save_reservation r' db2"
      unfolding release_action_def Let_def
      by (auto simp: result_simps put_ledger_Inr_iff split: if_splits)
    then show ?thesis
      using releaseTenantAggregate_allowance [of db1 r db2] al budget_invD(5) [OF inv r]
        within_allowance_cong [of db1 db] within_allowance_cong [of db' db2]
      by (simp add: save_reservation_def)
  qed (use al in simp)
qed

lemma markUnknown_allowance:
  assumes al: "within_allowance db" and ok: "markUnknown ck t k db = Inr (rc, db')"
  shows "within_allowance db'"
proof -
  from ok obtain r l where act: "unknown_action ck r l db = Inr (rc, db')"
    by (auto simp: markUnknown_def elim!: resolveReservation_cases)
  then have "usages db' = usages db" "tenants db' = tenants db"
    by (auto simp: unknown_action_def Let_def save_reservation_def split: if_splits)
  then show ?thesis using al within_allowance_cong [of db' db] by blast
qed

lemma createOrLoad_allowance: "within_allowance db \<Longrightarrow> within_allowance (snd (createOrLoad ck k i db))"
  by (auto simp: createOrLoad_def insert_or_load_ledger_def within_allowance_def find_tenant_def
      split: sum.splits option.splits if_splits)

definition allowance_inv :: "budget_db \<Rightarrow> bool" where
  "allowance_inv db \<longleftrightarrow> budget_inv db \<and> config_ok (tenants db) \<and> within_allowance db"

interpretation al: invariant_system budget_exec allowance_inv
proof
  fix db x
  assume "allowance_inv db"
  then have I: "budget_inv db" "config_ok (tenants db)" "within_allowance db"
    by (auto simp: allowance_inv_def)
  note txn = run_txn_inv [where P = within_allowance, OF I(3)]
  have "within_allowance (snd (budget_exec x db))"
  proof (cases x)
    case (CreateOrLoad ck k i)
    then show ?thesis by (simp add: createOrLoad_allowance [OF I(3)])
  next
    case (Reserve stale ck k i)
    then show ?thesis by (simp, intro txn) (rule reserve_allowance [OF I(3,2)])
  next
    case (Commit ck i)
    then show ?thesis by (simp, intro txn) (rule commit_allowance [OF I(1,3)])
  next
    case (Release ck t k m)
    then show ?thesis by (simp, intro txn) (rule release_allowance [OF I(1,3)])
  next
    case (MarkUnknown ck t k)
    then show ?thesis by (simp, intro txn) (rule markUnknown_allowance [OF I(3)])
  qed
  then show "allowance_inv (snd (budget_exec x db))"
    using I budget_exec_le [OF I(1), of x] budget_exec_inv [OF I(1), of x]
    by (simp add: allowance_inv_def)
qed

section \<open>Settling an open claim\<close>

lemma int4_le_settle:
  assumes "0 \<le> a" "0 \<le> b" "0 \<le> n" "n \<le> b" "a + b \<le> k" "k \<le> max_int4"
  shows "int4_le [a, b, - n, n] k = Inr True"
  using assms by (simp add: int4_le_def fits_int4_def max_int4_def upt_rec numeral_nat)

lemma inv_ledger_of:
  assumes inv: "budget_inv db" and r: "r \<in> set (reservations db)"
  obtains l where "l \<in> set (ledgers db)" "led_id l = res_ledgerId r" "led_tenantId l = res_tenantId r"
    "find_ledger (res_tenantId r) (res_ledgerId r) db = Some l"
proof -
  from budget_invD(4) [OF inv] r obtain l where l: "l \<in> set (ledgers db)"
      "led_id l = res_ledgerId r" "led_tenantId l = res_tenantId r"
    by (force simp: budget_refs_def)
  moreover have "find_ledger (res_tenantId r) (res_ledgerId r) db = Some l"
    unfolding find_ledger_def
    by (rule find_unique [OF budget_invD(1) [OF inv] l(1)]) (use l in auto)
  ultimately show ?thesis using that by blast
qed

lemma inv_usage_of:
  assumes inv: "budget_inv db" and r: "r \<in> set (reservations db)" and w: "aggregateWindowStart r = Some w"
  obtains u where "u \<in> set (usages db)" "usage_key u = (res_tenantId r, w)"
    "find_usage (res_tenantId r) w db = Some u"
proof -
  have "(res_tenantId r, w) \<in> usage_key ` set (usages db)"
    using budget_refsD [OF budget_invD(4) [OF inv] r] w by (simp add: usage_acct_def)
  then obtain u where u: "u \<in> set (usages db)" "usage_key u = (res_tenantId r, w)" by auto
  moreover have "find_usage (res_tenantId r) w db = Some u"
    unfolding find_usage_def
    by (rule find_unique [OF budget_invD(3) [OF inv] u(1)]) (use u(2) in \<open>auto simp: usage_key_def\<close>)
  ultimately show ?thesis using that by blast
qed

lemma open_units_le_reserved:
  assumes inv: "budget_inv db" and r: "r \<in> set (reservations db)" "is_open r"
  shows "l \<in> set (ledgers db) \<Longrightarrow> led_id l = res_ledgerId r \<Longrightarrow>
      units_of d (res_units r) \<le> reserved_of d l"
    and "u \<in> set (usages db) \<Longrightarrow> usage_acct r = Some (usage_key u) \<Longrightarrow>
      units_of (mdim_of m) (res_units r) \<le> use_reserved_of m u"
  using lb.held_le_reserved [OF budget_invD(8) [OF inv] _ r(1), where d = d]
    ub.held_le_reserved [OF budget_invD(9) [OF inv] _ r(1), where d = m]
    budget_invD(5) [OF inv] r(2)
  by (auto simp: ledger_acct_def held_def)

lemma settle_ledger_row_ok:
  assumes inv: "budget_inv db" and r: "r \<in> set (reservations db)" "is_open r"
    and l: "l \<in> set (ledgers db)" "led_id l = res_ledgerId r" and ver: "led_version l < max_int4"
  shows "ledger_row_ok (commit_ledger (res_units r) (costMinorUnits (res_units r)) l)"
    and "ledger_row_ok (release_ledger (res_units r) l)"
proof -
  have n: "0 \<le> units_of d (res_units r)" "units_of d (res_units r) \<le> reserved_of d l"
      "0 \<le> used_of d l" "used_of d l + reserved_of d l \<le> max_int4" for d
    using budget_invD(5) [OF inv r(1)] open_units_le_reserved(1) [OF inv r l, of d]
      lb.counters_nonneg(2) [OF budget_invD(8) [OF inv] l(1), of d] budget_invD(5) [OF inv]
      budget_invD(6) [OF inv l(1)]
    by (fastforce simp: reservation_ok_def ledger_sane_def intro: order_trans)+
  have v: "0 < led_version l" using budget_invD(6) [OF inv l(1)] by (simp add: ledger_sane_def)
  have "0 \<le> used_of d (commit_ledger (res_units r) (costMinorUnits (res_units r)) l)
      \<and> 0 \<le> reserved_of d (commit_ledger (res_units r) (costMinorUnits (res_units r)) l)
      \<and> used_of d (commit_ledger (res_units r) (costMinorUnits (res_units r)) l)
        + reserved_of d (commit_ledger (res_units r) (costMinorUnits (res_units r)) l) \<le> max_int4" for d
    using n [of d] by (cases d) simp_all
  then show "ledger_row_ok (commit_ledger (res_units r) (costMinorUnits (res_units r)) l)"
    by (rule ledger_row_okI) (use ver v in simp_all)
  have "0 \<le> used_of d (release_ledger (res_units r) l) \<and> 0 \<le> reserved_of d (release_ledger (res_units r) l)
      \<and> used_of d (release_ledger (res_units r) l) + reserved_of d (release_ledger (res_units r) l) \<le> max_int4"
    for d using n [of d] by simp
  then show "ledger_row_ok (release_ledger (res_units r) l)"
    by (rule ledger_row_okI) (use ver v in simp_all)
qed

lemma settle_usage_row_ok:
  assumes inv: "budget_inv db" and r: "r \<in> set (reservations db)" "is_open r"
    and u: "u \<in> set (usages db)" "usage_acct r = Some (usage_key u)"
  shows "usage_row_ok (usage_settle (res_units r) (providerCallUnits (res_units r)) (costMinorUnits (res_units r)) u)"
    and "usage_row_ok (usage_settle (res_units r) 0 0 u)"
    and "providerCallUnits (res_units r) \<le> use_providerCallReserved u"
    and "costMinorUnits (res_units r) \<le> use_costReservedMinorUnits u"
proof -
  have n: "0 \<le> units_of (mdim_of m) (res_units r)" "units_of (mdim_of m) (res_units r) \<le> use_reserved_of m u"
      "0 \<le> use_used_of m u" "use_used_of m u + use_reserved_of m u \<le> max_int4" for m
    using budget_invD(5) [OF inv r(1)] open_units_le_reserved(2) [OF inv r u, of m]
      ub.counters_nonneg(2) [OF budget_invD(9) [OF inv] u(1), of m] budget_invD(5) [OF inv]
      budget_invD(7) [OF inv u(1)]
    by (auto simp: reservation_ok_def usage_sane_def)
  show "usage_row_ok (usage_settle (res_units r) (providerCallUnits (res_units r)) (costMinorUnits (res_units r)) u)"
    using n [of MCalls] n [of MCost] by (simp add: usage_row_ok_def usage_settle_def)
  show "usage_row_ok (usage_settle (res_units r) 0 0 u)"
    using n [of MCalls] n [of MCost] by (simp add: usage_row_ok_def usage_settle_def)
  show "providerCallUnits (res_units r) \<le> use_providerCallReserved u"
    and "costMinorUnits (res_units r) \<le> use_costReservedMinorUnits u"
    using n [of MCalls] n [of MCost] by simp_all
qed

lemma aggregate_settles:
  assumes inv: "budget_inv db" and r: "r \<in> set (reservations db)" "is_open r"
    and db1: "usages db1 = usages db" "tenants db1 = tenants db"
  shows "\<exists>db2. commitTenantAggregate r (costMinorUnits (res_units r)) db1 = Inr db2"
    and "\<exists>db2. releaseTenantAggregate r db1 = Inr db2"
proof -
  have "(\<exists>db2. commitTenantAggregate r (costMinorUnits (res_units r)) db1 = Inr db2)
      \<and> (\<exists>db2. releaseTenantAggregate r db1 = Inr db2)"
  proof (cases "aggregateWindowStart r")
    case None
    then show ?thesis by (simp add: commitTenantAggregate_def releaseTenantAggregate_def)
  next
    case (Some w)
    then obtain u where u: "u \<in> set (usages db)" "usage_key u = (res_tenantId r, w)"
      "find_usage (res_tenantId r) w db = Some u"
      using inv_usage_of [OF inv r(1)] by blast
    have acct: "usage_acct r = Some (usage_key u)" using Some u(2) by (simp add: usage_acct_def)
    have f: "find_usage (res_tenantId r) w db1 = Some u"
      using u(3) db1 by (simp add: find_usage_def)
    note ok = settle_usage_row_ok [OF inv r u(1) acct]
    show ?thesis
      using ok Some f
      by (simp add: commitTenantAggregate_def releaseTenantAggregate_def commit_usage_where_def
          put_usage_def usage_settle_def)
  qed
  then show "\<exists>db2. commitTenantAggregate r (costMinorUnits (res_units r)) db1 = Inr db2"
    and "\<exists>db2. releaseTenantAggregate r db1 = Inr db2" by blast+
qed

section \<open>A concrete run\<close>

definition example_clock :: clock where
  "example_clock = \<lparr>db_now = 1709164800000, js_now = 1709164800000\<rparr>"

definition example_input :: AgentBudgetLedgerInput where
  "example_input =
     \<lparr>in_tenantId = ''t'', in_caseId = ''c'', in_workflowRunId = ''run'',
      in_stepLimit = js_int 10, in_tokenLimit = js_int 100, in_providerCallLimit = js_int 5,
      in_costLimitMinorUnits = js_int 50, in_currency = ''USD'',
      in_startedAt = 1709164800000, in_deadlineAt = 1709164875000\<rparr>"

definition example_units :: "js_number AgentBudgetUnits" where
  "example_units =
     \<lparr>stepUnits = js_int 1, tokenUnits = js_int 20, providerCallUnits = js_int 1,
      costMinorUnits = js_int 7\<rparr>"

definition example_claim :: "int \<Rightarrow> reserve_input" where
  "example_claim v =
     \<lparr>rsv_tenantId = ''t'', rsv_ledgerId = ''L'', rsv_idempotencyKey = ''step-1'',
      rsv_expectedVersion = v, rsv_units = example_units\<rparr>"

definition example_tenant :: TenantBudgetConfig where
  "example_tenant =
     \<lparr>ten_id = ''t'', agentMonthlyProviderCallLimit = Some 8,
      agentMonthlyCostLimitMinorUnits = Some 60, agentBudgetCurrency = Some ''USD''\<rparr>"

definition example_commit :: commit_input where
  "example_commit =
     \<lparr>cmt_tenantId = ''t'', cmt_reservationId = ''R'', cmt_actualCostMinorUnits = None,
      cmt_requireUnknown = False, cmt_resolvedBy = None, cmt_resolutionNote = None\<rparr>"

definition example_ops :: "budget_op list" where
  "example_ops =
     [CreateOrLoad example_clock ''L'' example_input,
      Reserve False example_clock ''R'' (example_claim 1)]"

definition example_units_int :: "int AgentBudgetUnits" where
  "example_units_int =
     \<lparr>stepUnits = 1, tokenUnits = 20, providerCallUnits = 1, costMinorUnits = 7\<rparr>"

definition example_ledger :: AgentBudgetLedger where
  "example_ledger =
     \<lparr>led_id = ''L'', led_tenantId = ''t'', led_caseId = ''c'', led_workflowRunId = ''run'',
      stepLimit = 10, stepUsed = 0, stepReserved = 1,
      tokenLimit = 100, tokenUsed = 0, tokenReserved = 20,
      providerCallLimit = 5, providerCallUsed = 0, providerCallReserved = 1,
      costLimitMinorUnits = 50, costUsedMinorUnits = 0, costReservedMinorUnits = 7,
      led_currency = ''USD'', led_startedAt = 1709164800000, led_deadlineAt = 1709164875000,
      led_version = 2, led_closedAt = None\<rparr>"

definition example_reservation :: AgentBudgetReservation where
  "example_reservation =
     \<lparr>res_id = ''R'', res_tenantId = ''t'', res_ledgerId = ''L'', res_idempotencyKey = ''step-1'',
      res_units = example_units_int, aggregateWindowStart = Some (2024, 2),
      actualCostMinorUnits = None, res_status = Reserved, res_resolvedAt = None,
      res_resolvedBy = None, res_resolutionNote = None\<rparr>"

definition example_usage :: TenantAgentBudgetUsage where
  "example_usage =
     \<lparr>use_tenantId = ''t'', use_windowStart = (2024, 2), use_providerCallUsed = 0,
      use_providerCallReserved = 1, use_costUsedMinorUnits = 0, use_costReservedMinorUnits = 7,
      use_currency = ''USD''\<rparr>"

definition example_db :: budget_db where
  "example_db =
     \<lparr>ledgers = [example_ledger], reservations = [example_reservation],
      usages = [example_usage], tenants = [example_tenant]\<rparr>"

lemma example_run: "run_ops budget_exec example_ops (empty_budget [example_tenant]) = example_db"
  by code_simp

lemma example_inv: "budget_inv example_db"
  using bs.run_inv [OF empty_budget_inv, of example_ops "[example_tenant]"] by (simp add: example_run)

lemma example_ledger_in: "example_ledger \<in> set (ledgers example_db)"
  by (simp add: example_db_def)

lemma example_reservation_in: "example_reservation \<in> set (reservations example_db)"
  by (simp add: example_db_def)

section \<open>Properties\<close>

text \<open>
  C1. After any sequence of ledger creations, reservations, commits, releases and
  outcome-unknown marks (successful or refused, with or without a concurrent duplicate),
  starting from empty tables, every ledger has used plus reserved at most its limit in each
  of the four dimensions, no counter is negative, the reserved counter is the sum over the
  ledger's open reservations and the used counter the sum over its committed ones.
\<close>

theorem budget_never_overspent:
  assumes "l \<in> set (ledgers (run_ops budget_exec ops (empty_budget ts)))"
  shows "0 \<le> used_of d l \<and> 0 \<le> reserved_of d l \<and> used_of d l + reserved_of d l \<le> limit_of d l
    \<and> reserved_of d l = entry_sum ledger_acct (held d) (led_id l)
        (reservations (run_ops budget_exec ops (empty_budget ts)))
    \<and> used_of d l = entry_sum ledger_acct (spent d) (led_id l)
        (reservations (run_ops budget_exec ops (empty_budget ts)))"
proof -
  let ?db = "run_ops budget_exec ops (empty_budget ts)"
  have inv: "budget_inv ?db" by (rule bs.run_inv [OF empty_budget_inv])
  note bk = budget_invD(8) [OF inv]
  have "used_of d l + reserved_of d l \<le> limit_of d l"
    using budget_invD(6) [OF inv assms] by (simp add: ledger_sane_def)
  then show ?thesis
    using lb.bookD [OF bk assms, of d] lb.counters_nonneg [OF bk assms budget_invD(5) [OF inv], of d]
    by simp
qed

theorem budget_never_overspent_witness:
  "used_of Cost example_ledger + reserved_of Cost example_ledger \<le> limit_of Cost example_ledger
   \<and> reserved_of Cost example_ledger = 7"
  using budget_never_overspent [of example_ledger example_ops "[example_tenant]" Cost]
  by (simp add: example_run example_ledger_in example_ledger_def)

text \<open>
  C2. For tenants whose allowance satisfies the table's check constraint, no sequence of
  operations from empty tables takes a calendar month's used plus reserved provider calls
  or cost over the tenant's configured monthly limit.
\<close>

theorem monthly_allowance_respected:
  assumes "list_all tenant_config_ok ts"
    and "u \<in> set (usages (run_ops budget_exec ops (empty_budget ts)))"
    and "find_tenant (use_tenantId u) (run_ops budget_exec ops (empty_budget ts)) = Some t"
    and "month_limit m t = Some k"
  shows "use_used_of m u + use_reserved_of m u \<le> k"
proof -
  have "allowance_inv (empty_budget ts)"
    using assms(1) empty_budget_inv [of ts]
    by (simp add: allowance_inv_def within_allowance_def empty_budget_def)
  then have "allowance_inv (run_ops budget_exec ops (empty_budget ts))" by (rule al.run_inv)
  then show ?thesis using assms(2-4) by (auto simp: allowance_inv_def within_allowance_def)
qed

theorem monthly_allowance_respected_witness:
  "use_used_of MCost example_usage + use_reserved_of MCost example_usage \<le> 60"
proof -
  have "list_all tenant_config_ok [example_tenant]" by code_simp
  moreover have "example_usage \<in> set (usages example_db)" by (simp add: example_db_def)
  moreover have "find_tenant (use_tenantId example_usage) example_db = Some example_tenant"
    by code_simp
  moreover have "month_limit MCost example_tenant = Some 60" by (simp add: example_tenant_def)
  ultimately show ?thesis
    using monthly_allowance_respected [of "[example_tenant]" example_usage example_ops example_tenant MCost 60]
    by (simp add: example_run)
qed

lemma claim_meets_unique_index:
  assumes "find_claim i db = Some r" "claim_txn ck k i n db = Inr x"
  shows False
proof -
  have r: "r \<in> set (reservations db)" "res_ledgerId r = rsv_ledgerId i"
      "res_idempotencyKey r = rsv_idempotencyKey i"
    using assms(1) by (auto simp: find_claim_def dest!: find_SomeD)
  obtain rc db' where x: "x = (rc, db')" by fastforce
  from assms(2) [unfolded x] show False
    by (rule claim_txn_cases) (use r in \<open>auto dest!: reserveTenantAggregate_frame\<close>)
qed

lemma replay_claim_receipt:
  assumes "replay_claim ck n r db = Inr (rc, db')"
  shows "db' = db \<and> replayed rc \<and> reservationId rc = res_id r \<and> units rc = res_units r \<and> n = res_units r"
  using assms
  by (auto simp: replay_claim_def result_simps assertSameUnits_def receiptFor_def receipt_def)

lemma find_claim_present:
  assumes "budget_inv db" "r \<in> set (reservations db)"
    and "res_tenantId r = rsv_tenantId i" "res_ledgerId r = rsv_ledgerId i" "res_idempotencyKey r = rsv_idempotencyKey i"
  shows "find_claim i db = Some r"
proof -
  have "distinct (map (\<lambda>r. (res_ledgerId r, res_idempotencyKey r)) (reservations db))"
    using assms(1) by (simp add: budget_inv_def budget_keys_def)
  then show ?thesis unfolding find_claim_def by (rule find_unique [OF _ assms(2)]) (use assms(3-5) in auto)
qed

text \<open>A claim that was answered is in the table under its key.\<close>

lemma reserve_claimed:
  assumes "reserve stale ck k i db = Inr (rc, db')"
  shows "\<exists>r \<in> set (reservations db'). res_id r = reservationId rc \<and> res_units r = units rc
    \<and> res_tenantId r = rsv_tenantId i \<and> res_ledgerId r = rsv_ledgerId i \<and> res_idempotencyKey r = rsv_idempotencyKey i"
  using assms
proof (cases rule: reserve_cases)
  case (replay n r)
  then have "r \<in> set (reservations db')"
    using replay_claim_state [OF replay(2)] by (auto simp: find_claim_def dest!: find_SomeD)
  then show ?thesis using replay replay_claim_receipt [OF replay(2)]
    by (intro bexI [of _ r]) (auto simp: find_claim_def dest!: find_SomeD)
next
  case (claim n)
  from claim(2) show ?thesis by (rule claim_txn_cases) (auto simp: receipt_def new_reservation_def)
qed

lemma replay_claim_answers:
  assumes "budget_inv db" "r \<in> set (reservations db)"
  shows "\<exists>rc. replay_claim ck (res_units r) r db = Inr (rc, db)"
proof -
  obtain l where l: "l \<in> set (ledgers db)" "led_id l = res_ledgerId r" "led_tenantId l = res_tenantId r"
    using budget_invD(4) [OF assms(1)] assms(2) by (force simp: budget_refs_def)
  have "find_ledger (res_tenantId r) (res_ledgerId r) db = Some l"
    unfolding find_ledger_def by (rule find_unique [OF budget_invD(1) [OF assms(1)] l(1)]) (use l in auto)
  then show ?thesis by (simp add: replay_claim_def assertSameUnits_def receiptFor_def)
qed

lemma replay_claim_refuses:
  "n \<noteq> res_units r \<Longrightarrow> replay_claim ck n r db = Inl (AgentBudgetError RESERVATION_CONFLICT
     ''A reservation idempotency key cannot be reused for different units'')"
  by (simp add: replay_claim_def assertSameUnits_def)

lemma reserve_first_lookup:
  assumes "find_claim i db = Some r" "validateUnits (rsv_units i) = Inr n"
    and "rsv_idempotencyKey i \<noteq> []" "length (rsv_idempotencyKey i) \<le> 200"
  shows "reserve False ck k i db = replay_claim ck n r db"
  using assms by (auto simp: reserve_def isUniqueViolation_def replay_claim_def assertSameUnits_def receiptFor_def
      or_throw_def split: sum.split option.split)

lemma reserve_never_claims_again:
  assumes "find_claim i db = Some r" "reserve stale ck k i db = Inr (rc, db')"
  shows "db' = db \<and> replayed rc \<and> reservationId rc = res_id r \<and> units rc = res_units r
    \<and> validateUnits (rsv_units i) = Inr (res_units r)"
  using assms(2)
proof (cases rule: reserve_cases)
  case (replay n r')
  then show ?thesis using assms(1) replay_claim_receipt [OF replay(2)] by simp
next
  case (claim n)
  then show ?thesis using claim_meets_unique_index [OF assms(1)] by blast
qed

text \<open>
  C3. Once a claim has been answered, it is repeated safely: after any further operations, a
  request with the same tenant, ledger and key whose units are valid
  \<^item> is answered by a replay of that very reservation if its units are the same, even when the
    ledger has been closed, is past its deadline or is used up by then, whatever version it
    expects;
  \<^item> is refused as a conflicting reuse of the key if its units differ;
  \<^item> and if the first lookup missed the claim (\<open>stale\<close>), it still never claims capacity a second
    time: the tables are unchanged, and it is answered, if at all, by that replay.
\<close>

theorem reserve_is_idempotent:
  fixes ops db0
  defines "later_db \<equiv> run_ops budget_exec ops db0"
  assumes "budget_inv db" "reserve stale0 ck0 k0 i0 db = Inr (rc0, db0)"
    and "rsv_tenantId i = rsv_tenantId i0" "rsv_ledgerId i = rsv_ledgerId i0"
      "rsv_idempotencyKey i = rsv_idempotencyKey i0" "validateUnits (rsv_units i) = Inr n"
  shows "(n = units rc0 \<longrightarrow> (\<exists>rc. reserve False ck k i later_db = Inr (rc, later_db)
      \<and> replayed rc \<and> reservationId rc = reservationId rc0 \<and> units rc = units rc0))
    \<and> (n \<noteq> units rc0 \<longrightarrow> reserve False ck k i later_db = Inl (AgentBudgetError RESERVATION_CONFLICT
        ''A reservation idempotency key cannot be reused for different units''))
    \<and> snd (run_txn (reserve True ck k i) later_db) = later_db
    \<and> (\<forall>rc db'. reserve True ck k i later_db = Inr (rc, db') \<longrightarrow>
        n = units rc0 \<and> replayed rc \<and> reservationId rc = reservationId rc0 \<and> units rc = units rc0)"
proof -
  have key: "rsv_idempotencyKey i \<noteq> []" "length (rsv_idempotencyKey i) \<le> 200"
    using assms(3) unfolding assms(6) by (auto simp: reserve_def result_simps)
  obtain r0 where r0: "r0 \<in> set (reservations db0)" "res_id r0 = reservationId rc0" "res_units r0 = units rc0"
      "res_tenantId r0 = rsv_tenantId i" "res_ledgerId r0 = rsv_ledgerId i" "res_idempotencyKey r0 = rsv_idempotencyKey i"
    using reserve_claimed [OF assms(3)] assms(4-6) by auto
  have inv0: "budget_inv db0" using bs.exec_inv [OF assms(2), of "Reserve stale0 ck0 k0 i0"] assms(3) by (simp add: run_txn_def)
  have inv: "budget_inv later_db" unfolding later_db_def by (rule bs.run_inv [OF inv0])
  obtain r where r: "r \<in> set (reservations later_db)" "later r0 r"
    using bs.run_le [OF inv0, of ops] r0(1) unfolding later_db_def budget_le_def by blast
  then have same: "res_id r = reservationId rc0" "res_units r = units rc0" using r0 by (simp_all add: later_def)
  have f: "find_claim i later_db = Some r"
    by (rule find_claim_present [OF inv r(1)]) (use r(2) r0 in \<open>simp_all add: later_def\<close>)
  note first = reserve_first_lookup [OF f assms(7) key, of ck k]
  have again: "reserve stale ck k i later_db = Inr (rc, db') \<Longrightarrow> db' = later_db \<and> replayed rc
      \<and> reservationId rc = reservationId rc0 \<and> units rc = units rc0 \<and> n = units rc0" for stale rc db'
    using reserve_never_claims_again [OF f] assms(7) same by fastforce
  have "\<exists>rc. reserve False ck k i later_db = Inr (rc, later_db)" if "n = units rc0"
    using replay_claim_answers [OF inv r(1), of ck] that same(2) unfolding first by simp
  moreover have "snd (run_txn (reserve True ck k i) later_db) = later_db"
    using again by (auto simp: run_txn_def split: sum.splits)
  ultimately show ?thesis using again replay_claim_refuses [of n r ck later_db] same(2) first by (metis (no_types))
qed

text \<open>The claim is committed, and the request is then repeated with the version it first expected.\<close>

theorem reserve_is_idempotent_witness:
  "\<exists>rc. reserve False example_clock ''R2'' (example_claim 1) (run_ops budget_exec [Commit example_clock example_commit] example_db)
       = Inr (rc, run_ops budget_exec [Commit example_clock example_commit] example_db)
     \<and> replayed rc \<and> reservationId rc = ''R''"
proof -
  let ?db = "run_ops budget_exec [CreateOrLoad example_clock ''L'' example_input] (empty_budget [example_tenant])"
  have inv: "budget_inv ?db" by (rule bs.run_inv [OF empty_budget_inv])
  define out where "out = reserve False example_clock ''R'' (example_claim 1) ?db"
  have "case out of Inl _ \<Rightarrow> False | Inr (rc, db) \<Rightarrow> reservationId rc = ''R'' \<and> units rc = example_units_int \<and> db = example_db"
    unfolding out_def by code_simp
  then obtain rc0 where rc0: "reserve False example_clock ''R'' (example_claim 1) ?db = Inr (rc0, example_db)"
      "reservationId rc0 = ''R''" "units rc0 = example_units_int"
    by (auto simp: out_def split: sum.splits prod.splits)
  have "validateUnits (rsv_units (example_claim 1)) = Inr example_units_int" by code_simp
  from reserve_is_idempotent [OF inv rc0(1) refl refl refl this, of example_clock "''R2''" "[Commit example_clock example_commit]"]
  show ?thesis using rc0(2,3) by auto
qed

text \<open>
  C4. A resolved (committed or released) reservation is final: no later sequence of
  operations changes its row in any field, so its cost is never charged or freed twice.
\<close>

theorem resolved_reservation_is_final:
  assumes "budget_inv db" "r \<in> set (reservations db)" "res_status r = Committed \<or> res_status r = Released"
  shows "r \<in> set (reservations (run_ops budget_exec ops db))"
  using bs.run_le [OF assms(1), of ops] assms(2,3)
  by (auto simp: budget_le_def later_def not_open_iff [symmetric])

lemma resolve_open:
  assumes inv: "budget_inv db" and r: "r \<in> set (reservations db)"
    and l: "find_ledger (res_tenantId r) (res_ledgerId r) db = Some l"
  shows "resolveReservation (res_tenantId r) (res_id r) act db = act r l db"
proof -
  have "List.find (\<lambda>x. res_id x = res_id r \<and> res_tenantId x = res_tenantId r) (reservations db) = Some r"
    by (rule find_unique [OF budget_invD(2) [OF inv] r]) auto
  with l show ?thesis by (simp add: resolveReservation_def)
qed

lemma commit_open:
  assumes inv: "budget_inv db" and r: "r \<in> set (reservations db)" "is_open r"
    and i: "cmt_tenantId i = res_tenantId r" "cmt_reservationId i = res_id r"
      "cmt_actualCostMinorUnits i = None" "\<not> cmt_requireUnknown i"
    and ver: "\<And>l. l \<in> set (ledgers db) \<Longrightarrow> led_version l < max_int4"
  shows "\<exists>rc db'. commit ck i db = Inr (rc, db') \<and> status rc = Committed"
proof -
  obtain l where l: "l \<in> set (ledgers db)" "led_id l = res_ledgerId r"
      "find_ledger (res_tenantId r) (res_ledgerId r) db = Some l"
    using inv_ledger_of [OF inv r(1)] by blast
  let ?n = "res_units r"
  let ?l = "commit_ledger ?n (costMinorUnits ?n) l"
  have c: "0 \<le> costMinorUnits ?n" "costMinorUnits ?n \<le> costReservedMinorUnits l"
      "0 \<le> costUsedMinorUnits l" "0 \<le> costReservedMinorUnits l"
      "costUsedMinorUnits l + costReservedMinorUnits l \<le> costLimitMinorUnits l"
      "costLimitMinorUnits l \<le> max_int4"
    using budget_invD(5) [OF inv r(1)] open_units_le_reserved(1) [OF inv r l(1,2), of Cost]
      lb.counters_nonneg [OF budget_invD(8) [OF inv] l(1) budget_invD(5) [OF inv], of Cost]
      budget_invD(6) [OF inv l(1)]
    by (auto simp: reservation_ok_def ledger_sane_def dest: spec [where x = Cost])
  have row: "ledger_row_ok ?l" by (rule settle_ledger_row_ok(1) [OF inv r l(1,2) ver [OF l(1)]])
  obtain db2 where agg: "commitTenantAggregate r (costMinorUnits ?n)
      (db\<lparr>ledgers := update_where (\<lambda>x. led_id x = led_id l) (\<lambda>_. ?l) (ledgers db)\<rparr>) = Inr db2"
    using aggregate_settles(1) [OF inv r] by force
  have "res_status r = Reserved \<or> res_status r = Unknown" using r(2) by (simp add: is_open_def)
  then show ?thesis
    using i row agg int4_le_settle [of "costUsedMinorUnits l" "costReservedMinorUnits l" "costMinorUnits ?n"] c
    by (auto simp: commit_def resolve_open [OF inv r(1) l(3)] commit_action_def put_ledger_def
        receipt_def Let_def)
qed

lemma release_open:
  assumes inv: "budget_inv db" and r: "r \<in> set (reservations db)" "is_open r"
    and ver: "\<And>l. l \<in> set (ledgers db) \<Longrightarrow> led_version l < max_int4"
  shows "\<exists>rc db'. release ck (res_tenantId r) (res_id r) None db = Inr (rc, db') \<and> status rc = Released"
proof -
  obtain l where l: "l \<in> set (ledgers db)" "led_id l = res_ledgerId r"
      "find_ledger (res_tenantId r) (res_ledgerId r) db = Some l"
    using inv_ledger_of [OF inv r(1)] by blast
  let ?l = "release_ledger (res_units r) l"
  have row: "ledger_row_ok ?l" by (rule settle_ledger_row_ok(2) [OF inv r l(1,2) ver [OF l(1)]])
  obtain db2 where agg: "releaseTenantAggregate r
      (db\<lparr>ledgers := update_where (\<lambda>x. led_id x = led_id l) (\<lambda>_. ?l) (ledgers db)\<rparr>) = Inr db2"
    using aggregate_settles(2) [OF inv r] by force
  have "res_status r = Reserved \<or> res_status r = Unknown" using r(2) by (simp add: is_open_def)
  then show ?thesis
    using row agg
    by (auto simp: release_def resolve_open [OF inv r(1) l(3)] release_action_def put_ledger_def
        receipt_def Let_def)
qed

text \<open>
  C5. An open claim can always be settled: in every state that satisfies the invariant,
  committing an open (reserved or outcome-unknown) reservation at its reserved cost
  succeeds and so does releasing it, as long as the ledgers' version counters have not
  reached the end of the int4 range.
\<close>

theorem open_reservation_settles:
  assumes "budget_inv db" "r \<in> set (reservations db)" "is_open r"
    and "cmt_tenantId i = res_tenantId r" "cmt_reservationId i = res_id r"
      "cmt_actualCostMinorUnits i = None" "\<not> cmt_requireUnknown i"
    and "\<forall>l \<in> set (ledgers db). led_version l < max_int4"
  shows "(\<exists>rc db'. commit ck i db = Inr (rc, db') \<and> status rc = Committed)
    \<and> (\<exists>rc db'. release ck (res_tenantId r) (res_id r) None db = Inr (rc, db') \<and> status rc = Released)"
  using commit_open [of db r i ck] release_open [of db r ck] assms by blast

theorem open_reservation_settles_witness:
  "(\<exists>rc db'. commit example_clock example_commit example_db = Inr (rc, db') \<and> status rc = Committed)
   \<and> (\<exists>rc db'. release example_clock ''t'' ''R'' None example_db = Inr (rc, db') \<and> status rc = Released)"
proof -
  have o: "is_open example_reservation" by code_simp
  have v: "\<forall>l \<in> set (ledgers example_db). led_version l < max_int4" by code_simp
  show ?thesis
    using open_reservation_settles [OF example_inv example_reservation_in o _ _ _ _ v,
        of example_commit example_clock]
    by (simp add: example_commit_def example_reservation_def)
qed

theorem resolved_reservation_is_final_witness:
  "(\<exists>r \<in> set (reservations (run_ops budget_exec [Commit example_clock example_commit] example_db)).
      res_status r = Committed
      \<and> r \<in> set (reservations (run_ops budget_exec [Release example_clock ''t'' ''R'' None]
            (run_ops budget_exec [Commit example_clock example_commit] example_db))))"
proof -
  let ?db = "run_ops budget_exec [Commit example_clock example_commit] example_db"
  let ?r = "example_reservation\<lparr>res_status := Committed, actualCostMinorUnits := Some 7,
      res_resolvedAt := Some 1709164800000\<rparr>"
  have inv: "budget_inv ?db" by (rule bs.run_inv [OF example_inv])
  have r: "?r \<in> set (reservations ?db)" by code_simp
  have "res_status ?r = Committed \<or> res_status ?r = Released" by simp
  from resolved_reservation_is_final [OF inv r this, of "[Release example_clock ''t'' ''R'' None]"] r
  show ?thesis by (intro bexI [of _ ?r]) simp_all
qed

text \<open>
  A claim that is granted (not replayed) passed every guard: the ledger exists for the
  tenant, its version is the expected one, it is open and before its deadline by the
  database clock, and every dimension has room for the claimed units; the returned
  snapshot carries the next version.
\<close>

theorem reserve_grants_within_guards:
  assumes "reserve stale ck k i db = Inr (rc, db')" "\<not> replayed rc"
  shows "\<exists>l n. find_ledger (rsv_tenantId i) (rsv_ledgerId i) db = Some l
    \<and> validateUnits (rsv_units i) = Inr n
    \<and> led_version l = rsv_expectedVersion i \<and> led_closedAt l = None \<and> db_now ck < led_deadlineAt l
    \<and> (\<forall>d. used_of d l + reserved_of d l + units_of d n \<le> limit_of d l)
    \<and> snap_version (ledger rc) = rsv_expectedVersion i + 1 \<and> status rc = Reserved"
  using assms(1)
proof (cases rule: reserve_cases)
  case (replay n r)
  then show ?thesis using assms(2) by (auto dest: replay_claim_receipt)
next
  case (claim n)
  from claim(2) obtain l w where l: "find_ledger (rsv_tenantId i) (rsv_ledgerId i) db = Some l"
      "reserve_where ck i n l = Inr True"
      "rc = receipt ck (new_reservation k i n w) (claim_ledger n l) False"
    by (auto simp: claim_txn_def result_simps split: option.splits if_splits)
  then show ?thesis
    using claim(1) reserve_where_TrueD [OF l(2)]
    by (auto simp: receipt_def snapshot_def new_reservation_def)
qed

theorem reserve_grants_within_guards_witness:
  "\<exists>rc db'. reserve False example_clock ''R2'' (example_claim 2\<lparr>rsv_idempotencyKey := ''step-2''\<rparr>) example_db
     = Inr (rc, db') \<and> snap_version (ledger rc) = 3"
proof -
  let ?i = "example_claim 2\<lparr>rsv_idempotencyKey := ''step-2''\<rparr>"
  have "case reserve False example_clock ''R2'' ?i example_db of Inl _ \<Rightarrow> False | Inr (rc, _) \<Rightarrow> \<not> replayed rc"
    by code_simp
  then obtain rc db' where r: "reserve False example_clock ''R2'' ?i example_db = Inr (rc, db')" "\<not> replayed rc"
    by (auto split: sum.splits)
  from reserve_grants_within_guards [OF this] r(1) show ?thesis
    by (auto simp: example_claim_def)
qed

text \<open>
  A request for units is accepted exactly when each of the four numbers is an integer
  between 0 and 2147483647 and at least one is positive; NaN, infinities, fractions,
  negative and oversized values are refused, and the accepted integers are stored unchanged.
\<close>

theorem validateUnits_accepts_exactly:
  "validateUnits u = Inr n \<longleftrightarrow>
     stepUnits u = js_int (stepUnits n) \<and> tokenUnits u = js_int (tokenUnits n)
     \<and> providerCallUnits u = js_int (providerCallUnits n) \<and> costMinorUnits u = js_int (costMinorUnits n)
     \<and> (\<forall>d. 0 \<le> units_of d n \<and> units_of d n \<le> 2147483647) \<and> (\<exists>d. units_of d n \<noteq> 0)"
proof -
  have acc: "assertNonnegativeInt v s = Inr k \<longleftrightarrow> v = js_int k \<and> 0 \<le> k \<and> k \<le> 2147483647" for v s k
    by (auto simp: assertNonnegativeInt_def max_int4_def max_safe_integer_def
        split: option.splits if_splits dest: safe_integer_SomeD)
  have all_d: "(\<forall>d. P d) \<longleftrightarrow> P Steps \<and> P Tokens \<and> P Calls \<and> P Cost" for P
    by (metis dim.exhaust)
  have ex_d: "(\<exists>d. P d) \<longleftrightarrow> P Steps \<or> P Tokens \<or> P Calls \<or> P Cost" for P
    by (metis dim.exhaust)
  obtain s t p c where n: "n = \<lparr>stepUnits = s, tokenUnits = t, providerCallUnits = p, costMinorUnits = c\<rparr>"
    by (cases n) auto
  show ?thesis
    unfolding n all_d ex_d
    by (auto simp: validateUnits_def and_then_Inr_iff acc split: if_splits)
qed

end
