(* ===== verification/Json.thy ===== *)
theory Json
  imports Prelude "HOL-Library.List_Lexorder" "HOL-Library.Char_ord"
begin

text \<open>
  JSON values and their serialisations. An object is the list of its members in
  enumeration order. Text is modelled as the list of its lexical tokens: how a number or a
  string is spelled is left out, the structure, the separators and the order of members
  are not.

  \<^item> \<open>stringify\<close> and \<open>parse\<close> are \<open>JSON.stringify\<close> and \<open>JSON.parse\<close>
    (NaN and the infinities become \<open>null\<close>).
  \<^item> \<open>canonicalJson\<close> is the function of
    \<open>src/src/provider-platform/provider-operation-intent.service.ts\<close>, \<open>canonicalize\<close> and
    \<open>digest_input\<close> those of \<open>src/src/policy/policy-digest.ts\<close>; the hash they feed is a
    parameter of the functions that use them.

  The canonical form of \<open>policy-digest.ts\<close> is an object again, built by
  \<open>Object.fromEntries\<close>, and an object enumerates the names that are array indices first and
  in numeric order, whatever the order they were inserted in; \<open>canonicalJson\<close> builds text
  and keeps the order of its sort. The reader keeps the members in the order of the text,
  which for a printed object is the order the object had.

  Shown: parsing inverts printing, each canonical form identifies two values exactly when
  these differ only in the order of members, and the two are the same text where no member
  name is an array index.
\<close>

section \<open>Values and tokens\<close>

datatype json =
    JNull | JBool bool | JNum js_number | JStr string
  | JArr "json list" | JObj "(string \<times> json) list"

datatype tok =
    TLBrace | TRBrace | TLBrack | TRBrack | TComma | TColon
  | TStr string | TNum rat | TTrue | TFalse | TNull

text \<open>Numbers are finite and member names distinct, at every depth.\<close>

fun json_ok :: "json \<Rightarrow> bool" where
  "json_ok (JNum n) = (case n of Num _ \<Rightarrow> True | _ \<Rightarrow> False)"
| "json_ok (JArr vs) = list_all json_ok vs"
| "json_ok (JObj ms) = (distinct (map fst ms) \<and> list_all (\<lambda>m. json_ok (snd m)) ms)"
| "json_ok v = True"

fun json_finite :: "json \<Rightarrow> bool" where
  "json_finite (JNum n) = (case n of Num _ \<Rightarrow> True | _ \<Rightarrow> False)"
| "json_finite (JArr vs) = list_all json_finite vs"
| "json_finite (JObj ms) = list_all (\<lambda>m. json_finite (snd m)) ms"
| "json_finite v = True"

definition member_of :: "json \<Rightarrow> string \<Rightarrow> json option" where
  "member_of v k = (case v of JObj ms \<Rightarrow> map_of ms k | _ \<Rightarrow> None)"

section \<open>Printing and parsing\<close>

fun separated :: "tok list list \<Rightarrow> tok list" where
  "separated [] = []"
| "separated [x] = x"
| "separated (x # xs) = x @ TComma # separated xs"

fun stringify :: "json \<Rightarrow> tok list" where
  "stringify JNull = [TNull]"
| "stringify (JBool b) = [if b then TTrue else TFalse]"
| "stringify (JNum n) = (case n of Num q \<Rightarrow> [TNum q] | _ \<Rightarrow> [TNull])"
| "stringify (JStr s) = [TStr s]"
| "stringify (JArr vs) = TLBrack # separated (map stringify vs) @ [TRBrack]"
| "stringify (JObj ms) =
     TLBrace # separated (map (\<lambda>m. TStr (fst m) # TColon # stringify (snd m)) ms) @ [TRBrace]"

fun parse_value :: "nat \<Rightarrow> tok list \<Rightarrow> (json \<times> tok list) option"
  and parse_elements :: "nat \<Rightarrow> tok list \<Rightarrow> (json list \<times> tok list) option"
  and parse_members :: "nat \<Rightarrow> tok list \<Rightarrow> ((string \<times> json) list \<times> tok list) option"
where
  "parse_value 0 ts = None"
| "parse_value (Suc n) ts =
     (case ts of
        TNull # r \<Rightarrow> Some (JNull, r)
      | TTrue # r \<Rightarrow> Some (JBool True, r)
      | TFalse # r \<Rightarrow> Some (JBool False, r)
      | TNum q # r \<Rightarrow> Some (JNum (Num q), r)
      | TStr s # r \<Rightarrow> Some (JStr s, r)
      | TLBrack # r \<Rightarrow>
          (case r of
             TRBrack # r' \<Rightarrow> Some (JArr [], r')
           | _ \<Rightarrow> map_option (\<lambda>(vs, r'). (JArr vs, r')) (parse_elements n r))
      | TLBrace # r \<Rightarrow>
          (case r of
             TRBrace # r' \<Rightarrow> Some (JObj [], r')
           | _ \<Rightarrow> map_option (\<lambda>(ms, r'). (JObj ms, r')) (parse_members n r))
      | _ \<Rightarrow> None)"
| "parse_elements 0 ts = None"
| "parse_elements (Suc n) ts =
     (case parse_value n ts of
        Some (v, TComma # r) \<Rightarrow> map_option (\<lambda>(vs, r'). (v # vs, r')) (parse_elements n r)
      | Some (v, TRBrack # r) \<Rightarrow> Some ([v], r)
      | _ \<Rightarrow> None)"
| "parse_members 0 ts = None"
| "parse_members (Suc n) ts =
     (case ts of
        TStr k # TColon # r0 \<Rightarrow>
          (case parse_value n r0 of
             Some (v, TComma # r) \<Rightarrow> map_option (\<lambda>(ms, r'). ((k, v) # ms, r')) (parse_members n r)
           | Some (v, TRBrace # r) \<Rightarrow> Some ([(k, v)], r)
           | _ \<Rightarrow> None)
      | _ \<Rightarrow> None)"

text \<open>As many steps as there are tokens are enough.\<close>

definition parse :: "tok list \<Rightarrow> json option" where
  "parse ts = (case parse_value (length ts) ts of Some (v, []) \<Rightarrow> Some v | _ \<Rightarrow> None)"

section \<open>Canonical forms\<close>

fun canonicalJson :: "json \<Rightarrow> tok list" where
  "canonicalJson (JArr vs) = TLBrack # separated (map canonicalJson vs) @ [TRBrack]"
| "canonicalJson (JObj ms) =
     TLBrace # separated (map (\<lambda>m. TStr (fst m) # TColon # snd m)
       (sort_key fst (map (\<lambda>m. (fst m, canonicalJson (snd m))) ms))) @ [TRBrace]"
| "canonicalJson v = stringify v"

text \<open>An array index: the decimal spelling of a number below \<open>2\<^sup>3\<^sup>2 - 1\<close>.\<close>

definition index_name :: "string \<Rightarrow> int option" where
  "index_name k =
     (let n = foldl (\<lambda>n c. 10 * n + (of_char c - 48)) 0 k
      in if k \<noteq> [] \<and> list_all digit k \<and> (length k = 1 \<or> hd k \<noteq> CHR ''0'') \<and> n < 4294967295
         then Some n else None)"

text \<open>The members of a new object with these entries, in enumeration order.\<close>

definition fromEntries :: "(string \<times> 'a) list \<Rightarrow> (string \<times> 'a) list" where
  "fromEntries ms =
     sort_key (\<lambda>m. the (index_name (fst m))) (filter (\<lambda>m. index_name (fst m) \<noteq> None) ms)
     @ filter (\<lambda>m. index_name (fst m) = None) ms"

fun canonicalize :: "json \<Rightarrow> json" where
  "canonicalize (JArr vs) = JArr (map canonicalize vs)"
| "canonicalize (JObj ms) =
     JObj (fromEntries (sort_key fst (map (\<lambda>m. (fst m, canonicalize (snd m))) ms)))"
| "canonicalize v = v"

definition digest_input :: "json \<Rightarrow> tok list" where
  "digest_input v = stringify (canonicalize v)"

definition computeDigest :: "(tok list \<Rightarrow> string) \<Rightarrow> json \<Rightarrow> string" where
  "computeDigest sha256 v = sha256 (digest_input v)"

text \<open>Two values that differ at most in the order of members.\<close>

function same_json :: "json \<Rightarrow> json \<Rightarrow> bool" where
  "same_json (JArr vs) (JArr ws) =
     (length vs = length ws \<and> list_all (\<lambda>(v, w). same_json v w) (zip vs ws))"
| "same_json (JObj ms) (JObj ns) =
     (length ms = length ns
      \<and> list_all (\<lambda>m. case map_of ns (fst m) of None \<Rightarrow> False | Some w \<Rightarrow> same_json (snd m) w) ms)"
| "same_json (JArr vs) JNull = False"
| "same_json (JArr vs) (JBool b) = False"
| "same_json (JArr vs) (JNum n) = False"
| "same_json (JArr vs) (JStr s) = False"
| "same_json (JArr vs) (JObj ns) = False"
| "same_json (JObj ms) JNull = False"
| "same_json (JObj ms) (JBool b) = False"
| "same_json (JObj ms) (JNum n) = False"
| "same_json (JObj ms) (JStr s) = False"
| "same_json (JObj ms) (JArr ws) = False"
| "same_json JNull w = (w = JNull)"
| "same_json (JBool b) w = (w = JBool b)"
| "same_json (JNum n) w = (w = JNum n)"
| "same_json (JStr s) w = (w = JStr s)"
  by pat_completeness auto

lemma size_element: "v \<in> set vs \<Longrightarrow> size v < Suc (size_list size vs)"
  by (induction vs) auto

lemma size_member:
  "(k, v) \<in> set ms \<Longrightarrow> size v < Suc (size_list (size_prod (\<lambda>x. 0) size) ms)"
  by (induction ms) auto

termination same_json
  by (relation "measure (\<lambda>(v, w). size v)")
    (auto dest!: set_zip_leftD intro: size_element size_member)

section \<open>Parsing inverts printing\<close>

lemma stringify_head: "\<exists>t ts. stringify v = t # ts \<and> t \<noteq> TRBrack \<and> t \<noteq> TRBrace"
  by (cases v) (auto split: js_number.splits)

lemma separated_Cons:
  "separated (x # xs) = (if xs = [] then x else x @ TComma # separated xs)"
  by (cases xs) auto

lemma parse_elements_separated:
  assumes "vs \<noteq> []"
    and "\<And>v n r. v \<in> set vs \<Longrightarrow> length (stringify v) \<le> n \<Longrightarrow> parse_value n (stringify v @ r) = Some (v, r)"
    and "length (separated (map stringify vs)) < n"
  shows "parse_elements n (separated (map stringify vs) @ TRBrack # r) = Some (vs, r)"
  using assms
proof (induction vs arbitrary: n)
  case (Cons v vs)
  obtain m where n: "n = Suc m" using Cons.prems(3) by (cases n) auto
  have v: "length (stringify v) \<le> m" using Cons.prems(3) n by (auto simp: separated_Cons split: if_splits)
  note pv = Cons.prems(2) [OF _ v]
  show ?case
  proof (cases "vs = []")
    case True
    then show ?thesis using pv by (simp add: n)
  next
    case False
    have "parse_elements m (separated (map stringify vs) @ TRBrack # r) = Some (vs, r)"
      by (rule Cons.IH) (use False Cons.prems n in \<open>auto simp: separated_Cons\<close>)
    then show ?thesis using pv False by (simp add: n separated_Cons)
  qed
qed simp

lemma parse_members_separated:
  assumes "ms \<noteq> []"
    and "\<And>m n r. m \<in> set ms \<Longrightarrow> length (stringify (snd m)) \<le> n
          \<Longrightarrow> parse_value n (stringify (snd m) @ r) = Some (snd m, r)"
    and "length (separated (map (\<lambda>m. TStr (fst m) # TColon # stringify (snd m)) ms)) < n"
  shows "parse_members n (separated (map (\<lambda>m. TStr (fst m) # TColon # stringify (snd m)) ms) @ TRBrace # r)
    = Some (ms, r)"
  using assms
proof (induction ms arbitrary: n)
  case (Cons m ms)
  obtain k where n: "n = Suc k" using Cons.prems(3) by (cases n) auto
  have v: "length (stringify (snd m)) \<le> k"
    using Cons.prems(3) n by (auto simp: separated_Cons split: if_splits)
  note pv = Cons.prems(2) [OF _ v]
  show ?case
  proof (cases "ms = []")
    case True
    then show ?thesis using pv by (simp add: n)
  next
    case False
    have "parse_members k
        (separated (map (\<lambda>m. TStr (fst m) # TColon # stringify (snd m)) ms) @ TRBrace # r) = Some (ms, r)"
      by (rule Cons.IH) (use False Cons.prems n in \<open>auto simp: separated_Cons\<close>)
    then show ?thesis using pv False by (simp add: n separated_Cons)
  qed
qed simp

lemma parse_value_stringify:
  "json_finite v \<Longrightarrow> length (stringify v) \<le> n \<Longrightarrow> parse_value n (stringify v @ r) = Some (v, r)"
proof (induction v arbitrary: n r)
  case (JArr vs)
  obtain k where n: "n = Suc k" using JArr.prems(2) by (cases n) auto
  show ?case
  proof (cases "vs = []")
    case False
    have "parse_elements k (separated (map stringify vs) @ TRBrack # r) = Some (vs, r)"
      by (rule parse_elements_separated) (use False JArr n in \<open>auto simp: list_all_iff\<close>)
    moreover obtain t ts where "separated (map stringify vs) = t # ts" "t \<noteq> TRBrack"
      using False stringify_head [of "hd vs"] by (cases vs; cases "tl vs = []") (auto simp: separated_Cons)
    ultimately show ?thesis by (cases t) (simp_all add: n)
  qed (simp add: n)
next
  case (JObj ms)
  obtain k where n: "n = Suc k" using JObj.prems(2) by (cases n) auto
  show ?case
  proof (cases "ms = []")
    case False
    let ?f = "\<lambda>m. TStr (fst m) # TColon # stringify (snd m)"
    have "parse_members k (separated (map ?f ms) @ TRBrace # r) = Some (ms, r)"
      by (rule parse_members_separated)
        (use False JObj n in \<open>auto simp: list_all_iff snds.simps\<close>)
    moreover obtain s ts where "separated (map ?f ms) = TStr s # ts"
      using False by (cases ms; cases "tl ms = []") (auto simp: separated_Cons)
    ultimately show ?thesis by (simp add: n)
  qed (simp add: n)
qed (auto simp: Suc_le_eq gr0_conv_Suc split: js_number.splits)

lemma parse_stringify: "json_finite v \<Longrightarrow> parse (stringify v) = Some v"
  using parse_value_stringify [of v _ "[]"] by (simp add: parse_def)

section \<open>Canonical forms identify exactly the reorderings\<close>

lemma insort_key_map: "insort_key f (g x) (map g xs) = map g (insort_key (\<lambda>y. f (g y)) x xs)"
  by (induction xs) auto

lemma sort_key_map: "sort_key f (map g xs) = map g (sort_key (\<lambda>x. f (g x)) xs)"
  by (induction xs) (auto simp: insort_key_map)

text \<open>The value whose plain text \<open>canonicalJson\<close> is: members sorted by name at every depth.\<close>

fun by_name :: "json \<Rightarrow> json" where
  "by_name (JArr vs) = JArr (map by_name vs)"
| "by_name (JObj ms) = JObj (sort_key fst (map (\<lambda>m. (fst m, by_name (snd m))) ms))"
| "by_name v = v"

lemma canonicalJson_eq: "canonicalJson v = stringify (by_name v)"
proof (induction v)
  case (JObj ms)
  then have "map (\<lambda>m. (fst m, canonicalJson (snd m))) ms
      = map (\<lambda>m. (fst m, stringify (snd m))) (map (\<lambda>m. (fst m, by_name (snd m))) ms)"
    by (auto simp: snds.simps)
  then show ?case
    by (auto simp: sort_key_map comp_def intro!: arg_cong [where f = separated])
qed (auto simp: comp_def intro!: arg_cong [where f = separated])

lemma set_fromEntries [simp]: "set (fromEntries ms) = set ms"
  by (auto simp: fromEntries_def)

lemma fromEntries_plain: "list_all (\<lambda>m. index_name (fst m) = None) ms \<Longrightarrow> fromEntries ms = ms"
  by (auto simp: fromEntries_def list_all_iff filter_empty_conv)

lemma by_name_finite: "json_ok v \<Longrightarrow> json_finite (by_name v)"
  by (induction v) (auto simp: list_all_iff snds.simps)

lemma canonicalize_finite: "json_ok v \<Longrightarrow> json_finite (canonicalize v)"
  by (induction v) (auto simp: list_all_iff snds.simps)

lemma sorted_members_eq:
  assumes "distinct (map fst ms)" "distinct (map fst ns)"
  shows "sort_key fst ms = sort_key fst ns \<longleftrightarrow> set ms = set ns"
proof
  assume "sort_key fst ms = sort_key fst ns"
  then have "set (sort_key fst ms) = set (sort_key fst ns)" by simp
  then show "set ms = set ns" by simp
next
  assume eq: "set ms = set ns"
  then have "inj_on fst (set (sort_key fst ms) \<union> set (sort_key fst ns))"
    using assms by (simp add: distinct_map)
  moreover have "distinct (map fst (sort_key fst ms))" "distinct (map fst (sort_key fst ns))"
    using assms by (simp_all add: distinct_map)
  ultimately show "sort_key fst ms = sort_key fst ns"
    using eq by (intro map_sorted_distinct_set_unique [of fst]) simp_all
qed

lemma members_same:
  assumes ms: "distinct (map fst ms)" and ns: "distinct (map fst ns)"
    and rel: "\<And>m w. m \<in> set ms \<Longrightarrow> (fst m, w) \<in> set ns \<Longrightarrow> f (snd m) = f w \<longleftrightarrow> R (snd m) w"
  shows "sort_key fst (map (\<lambda>m. (fst m, f (snd m))) ms) = sort_key fst (map (\<lambda>m. (fst m, f (snd m))) ns)
    \<longleftrightarrow> length ms = length ns
        \<and> list_all (\<lambda>m. case map_of ns (fst m) of None \<Rightarrow> False | Some w \<Rightarrow> R (snd m) w) ms"
    (is "?l = ?r \<longleftrightarrow> ?len \<and> ?all")
proof -
  let ?F = "\<lambda>m. (fst m, f (snd m))"
  have "?l = ?r \<longleftrightarrow> ?F ` set ms = ?F ` set ns"
    using ms ns by (subst sorted_members_eq) (simp_all add: comp_def)
  also have "\<dots> \<longleftrightarrow> ?len \<and> ?all"
  proof
    assume eq: "?F ` set ms = ?F ` set ns"
    then have "fst ` set ms = fst ` set ns" by (metis (no_types, lifting) fst_conv image_cong image_image)
    then have len: ?len using ms ns by (metis distinct_card length_map list.set_map)
    moreover have ?all
      unfolding list_all_iff
    proof
      fix m assume m: "m \<in> set ms"
      then obtain w where w: "(fst m, w) \<in> set ns" "f (snd m) = f w" using eq by fastforce
      then show "case map_of ns (fst m) of None \<Rightarrow> False | Some w \<Rightarrow> R (snd m) w"
        using rel [OF m w(1)] ns by simp
    qed
    ultimately show "?len \<and> ?all" ..
  next
    assume asm: "?len \<and> ?all"
    have sub: "?F ` set ms \<subseteq> ?F ` set ns"
    proof safe
      fix k v assume m: "(k, v) \<in> set ms"
      with asm obtain w where w: "map_of ns k = Some w" "R v w"
        by (fastforce simp: list_all_iff split: option.splits)
      then have "(k, w) \<in> set ns" by (simp add: map_of_SomeD)
      with rel [OF m] w(2) show "(fst (k, v), f (snd (k, v))) \<in> ?F ` set ns"
        by (auto intro!: image_eqI [of _ _ "(k, w)"])
    qed
    have card: "card (?F ` set xs) = length xs" if "distinct (map fst xs)" for xs
    proof -
      have "distinct (map ?F xs)" using that by (auto simp: distinct_map inj_on_def)
      then show ?thesis by (metis distinct_card length_map list.set_map)
    qed
    show "?F ` set ms = ?F ` set ns"
      by (rule card_subset_eq) (use sub card [OF ms] card [OF ns] asm in auto)
  qed
  finally show ?thesis .
qed

text \<open>Rebuilding an object from sorted entries loses nothing either.\<close>

lemma fromEntries_eq:
  assumes "distinct (map fst ms)" "distinct (map fst ns)"
  shows "fromEntries (sort_key fst ms) = fromEntries (sort_key fst ns) \<longleftrightarrow> sort_key fst ms = sort_key fst ns"
proof
  assume "fromEntries (sort_key fst ms) = fromEntries (sort_key fst ns)"
  then have "set (fromEntries (sort_key fst ms)) = set (fromEntries (sort_key fst ns))" by simp
  then show "sort_key fst ms = sort_key fst ns" by (simp add: sorted_members_eq [OF assms])
qed simp

text \<open>
  Either canonical form is a recursion over the value that arranges the sorted members of an
  object in some way that depends on them only.
\<close>

lemma elements_eq_iff:
  assumes "\<And>v w. v \<in> set vs \<Longrightarrow> w \<in> set ws \<Longrightarrow> f v = f w \<longleftrightarrow> same_json v w"
  shows "map f vs = map f ws \<longleftrightarrow> same_json (JArr vs) (JArr ws)"
proof -
  have "map f vs = map f ws \<longleftrightarrow> length vs = length ws \<and> (\<forall>i < length vs. f (vs ! i) = f (ws ! i))"
    by (auto simp: list_eq_iff_nth_eq)
  also have "\<dots> \<longleftrightarrow> same_json (JArr vs) (JArr ws)" using assms by (auto simp: list_all_length)
  finally show ?thesis .
qed

lemma members_eq_iff:
  assumes "json_ok (JObj ms)" "json_ok (JObj ns)"
    and "\<And>m w. m \<in> set ms \<Longrightarrow> json_ok w \<Longrightarrow> f (snd m) = f w \<longleftrightarrow> same_json (snd m) w"
  shows "sort_key fst (map (\<lambda>m. (fst m, f (snd m))) ms) = sort_key fst (map (\<lambda>m. (fst m, f (snd m))) ns)
    \<longleftrightarrow> same_json (JObj ms) (JObj ns)"
  unfolding same_json.simps
  by (rule members_same) (use assms in \<open>auto simp: list_all_iff\<close>)

lemma by_name_eq_iff: "json_ok v \<Longrightarrow> json_ok w \<Longrightarrow> by_name v = by_name w \<longleftrightarrow> same_json v w"
proof (induction v arbitrary: w)
  case (JArr vs)
  then show ?case using elements_eq_iff [of vs _ by_name] by (cases w) (auto simp: list_all_iff simp del: same_json.simps(1))
next
  case (JObj ms)
  then show ?case using members_eq_iff [of ms _ by_name]
    by (cases w) (auto simp: list_all_iff snds.simps simp del: same_json.simps(2))
qed (case_tac w; auto)+

lemma canonicalize_eq_iff:
  "json_ok v \<Longrightarrow> json_ok w \<Longrightarrow> canonicalize v = canonicalize w \<longleftrightarrow> same_json v w"
proof (induction v arbitrary: w)
  case (JArr vs)
  then show ?case using elements_eq_iff [of vs _ canonicalize] by (cases w) (auto simp: list_all_iff simp del: same_json.simps(1))
next
  case (JObj ms)
  show ?case
  proof (cases w)
    case ns: (JObj ns)
    let ?C = "\<lambda>ms. map (\<lambda>m. (fst m, canonicalize (snd m))) ms"
    have "canonicalize (JObj ms) = canonicalize w \<longleftrightarrow> sort_key fst (?C ms) = sort_key fst (?C ns)"
      using JObj.prems ns by (simp add: fromEntries_eq comp_def)
    also have "\<dots> \<longleftrightarrow> same_json (JObj ms) w"
      unfolding ns by (rule members_eq_iff) (use JObj ns in \<open>auto simp: list_all_iff snds.simps\<close>)
    finally show ?thesis .
  qed auto
qed (case_tac w; auto)+

text \<open>No member name is an array index, at any depth.\<close>

fun plain_names :: "json \<Rightarrow> bool" where
  "plain_names (JArr vs) = list_all plain_names vs"
| "plain_names (JObj ms) = list_all (\<lambda>m. index_name (fst m) = None \<and> plain_names (snd m)) ms"
| "plain_names v = True"

lemma canonicalize_plain: "plain_names v \<Longrightarrow> canonicalize v = by_name v"
proof (induction v)
  case (JObj ms)
  then have "map (\<lambda>m. (fst m, canonicalize (snd m))) ms = map (\<lambda>m. (fst m, by_name (snd m))) ms"
    by (auto simp: list_all_iff snds.simps)
  moreover have "list_all (\<lambda>m. index_name (fst m) = None) (sort_key fst (map (\<lambda>m. (fst m, by_name (snd m))) ms))"
    using JObj.prems by (auto simp: list_all_iff)
  ultimately show ?case by (simp only: canonicalize.simps by_name.simps fromEntries_plain)
qed (auto simp: list_all_iff)

lemma stringify_eq_iff: "json_finite v \<Longrightarrow> json_finite w \<Longrightarrow> stringify v = stringify w \<longleftrightarrow> v = w"
  using parse_stringify by (metis option.inject)

text \<open>
  C18. The text hashed into a request fingerprint, and the text hashed into a policy or
  manifest digest, each identify well-formed payloads exactly: two payloads give the same
  text when and only when they differ at most in the order of object members. The two texts
  of one payload are the same where no member name is an array index; such names come first
  in the digest text only.
\<close>

theorem canonical_text_identifies_reorderings:
  assumes "json_ok v" "json_ok w"
  shows "(canonicalJson v = canonicalJson w \<longleftrightarrow> same_json v w)
    \<and> (digest_input v = digest_input w \<longleftrightarrow> same_json v w)
    \<and> (plain_names v \<longrightarrow> canonicalJson v = digest_input v)"
  using assms
  by (simp add: canonicalJson_eq digest_input_def stringify_eq_iff by_name_finite canonicalize_finite
      by_name_eq_iff canonicalize_eq_iff canonicalize_plain)

theorem canonical_text_identifies_reorderings_witness:
  "canonicalJson (JObj [(''b'', JNull), (''a'', JNum (Num 2))])
     = canonicalJson (JObj [(''a'', JNum (Num 2)), (''b'', JNull)])
   \<and> digest_input (JObj [(''9'', JNull), (''10'', JNum (Num 2))])
     = digest_input (JObj [(''10'', JNum (Num 2)), (''9'', JNull)])
   \<and> canonicalJson (JObj [(''a'', JNull)]) = digest_input (JObj [(''a'', JNull)])"
proof -
  let ?v = "JObj [(''b'', JNull), (''a'', JNum (Num 2))]" and ?w = "JObj [(''a'', JNum (Num 2)), (''b'', JNull)]"
  let ?x = "JObj [(''9'', JNull), (''10'', JNum (Num 2))]" and ?y = "JObj [(''10'', JNum (Num 2)), (''9'', JNull)]"
  have "canonicalJson ?v = canonicalJson ?w \<longleftrightarrow> same_json ?v ?w"
    by (rule conjunct1 [OF canonical_text_identifies_reorderings]) simp_all
  moreover have "digest_input ?x = digest_input ?y \<longleftrightarrow> same_json ?x ?y"
    by (rule conjunct1 [OF conjunct2 [OF canonical_text_identifies_reorderings]]) simp_all
  moreover have "canonicalJson (JObj [(''a'', JNull)]) = digest_input (JObj [(''a'', JNull)])"
    by (rule mp [OF conjunct2 [OF conjunct2 [OF canonical_text_identifies_reorderings]], of _ JNull])
      (simp_all add: index_name_def digit_def)
  ultimately show ?thesis by simp
qed

text \<open>Where they differ: the sort puts the name \<open>10\<close> before \<open>9\<close>, a rebuilt object after it.\<close>

lemma canonical_texts_differ:
  "canonicalJson (JObj [(''10'', JNull), (''9'', JBool True)]) \<noteq> digest_input (JObj [(''10'', JNull), (''9'', JBool True)])"
  by code_simp

end
