(* ===== verification/Text_Format.thy ===== *)
theory Text_Format
  imports Prelude
begin

text \<open>
  Text the sources build and read: decimal and hexadecimal numerals, quotation, and
  \<open>Array.prototype.join\<close>, with the facts that reading a numeral gives back its number
  and that splitting undoes joining.
\<close>

section \<open>Joining and splitting\<close>

definition quoted :: "string \<Rightarrow> string" where
  "quoted s = CHR 0x22 # s @ [CHR 0x22]"

fun join :: "string \<Rightarrow> string list \<Rightarrow> string" where
  "join sep [] = []"
| "join sep [x] = x"
| "join sep (x # xs) = x @ sep @ join sep xs"

lemma join_Cons: "xs \<noteq> [] \<Longrightarrow> join sep (x # xs) = x @ sep @ join sep xs"
  by (cases xs) simp_all

lemma join_append: "xs \<noteq> [] \<Longrightarrow> ys \<noteq> [] \<Longrightarrow> join sep (xs @ ys) = join sep xs @ sep @ join sep ys"
proof (induction xs)
  case (Cons x xs)
  then show ?case by (cases "xs = []") (simp_all add: join_Cons)
qed simp

lemma split_on_not_Nil [simp]: "split_on c s \<noteq> []"
  by (induction s) (auto split: list.split)

lemma split_on_free: "c \<notin> set s \<Longrightarrow> split_on c s = [s]"
  by (induction s) auto

lemma split_on_append: "c \<notin> set s \<Longrightarrow> split_on c (s @ c # t) = s # split_on c t"
  by (induction s) auto

lemma split_on_join:
  "xs \<noteq> [] \<Longrightarrow> \<forall>x \<in> set xs. c \<notin> set x \<Longrightarrow> split_on c (join [c] xs) = xs"
  by (induction "[c]" xs rule: join.induct) (simp_all add: split_on_free split_on_append)

lemma join_split_on: "join [c] (split_on c s) = s"
proof (induction s)
  case (Cons x s)
  obtain y ys where s: "split_on c s = y # ys" by (cases "split_on c s") auto
  show ?case
  proof (cases "x = c")
    case True
    then show ?thesis using Cons by (simp add: join_Cons)
  next
    case False
    then show ?thesis using Cons s by (cases ys) simp_all
  qed
qed simp

lemma set_split_on: "x \<in> set (split_on c s) \<Longrightarrow> set x \<subseteq> set s"
proof (induction s arbitrary: x)
  case (Cons a s)
  obtain y ys where s: "split_on c s = y # ys" by (cases "split_on c s") auto
  show ?case
  proof (cases "x \<in> set (split_on c s)")
    case True
    then show ?thesis using Cons.IH by auto
  next
    case False
    then have "x = [] \<or> x = a # y" using Cons.prems s by (auto split: if_splits)
    then show ?thesis using Cons.IH [of y] s by auto
  qed
qed simp

section \<open>Numerals\<close>

definition lower_letter :: "char \<Rightarrow> bool" where
  "lower_letter c \<longleftrightarrow> 97 \<le> (of_char c :: nat) \<and> (of_char c :: nat) \<le> 122"

definition hex_digit :: "char \<Rightarrow> bool" where
  "hex_digit c \<longleftrightarrow> c \<in> set ''0123456789abcdefABCDEF''"

definition hex_value :: "char \<Rightarrow> nat" where
  "hex_value c =
     (if digit c then of_char c - 48 else if lower_letter c then of_char c - 87 else of_char c - 55)"

fun nat_text :: "nat \<Rightarrow> string" where
  "nat_text n = (if n < 10 then [char_of (48 + n)] else nat_text (n div 10) @ [char_of (48 + n mod 10)])"

declare nat_text.simps [simp del]

definition nibble :: "nat \<Rightarrow> char" where
  "nibble n = ''0123456789abcdef'' ! n"

fun hex_text :: "nat \<Rightarrow> string" where
  "hex_text n = (if n < 16 then [nibble n] else hex_text (n div 16) @ [nibble (n mod 16)])"

declare hex_text.simps [simp del]

definition decimal :: "string \<Rightarrow> nat" where
  "decimal s = foldl (\<lambda>n c. 10 * n + (of_char c - 48)) 0 s"

definition hexadecimal :: "string \<Rightarrow> nat" where
  "hexadecimal s = foldl (\<lambda>n c. 16 * n + hex_value c) 0 s"

definition padStart :: "nat \<Rightarrow> char \<Rightarrow> string \<Rightarrow> string" where
  "padStart w c s = replicate (w - length s) c @ s"

lemma decimal_snoc [simp]: "decimal (s @ [c]) = 10 * decimal s + (of_char c - 48)"
  by (simp add: decimal_def)

lemma hexadecimal_snoc [simp]: "hexadecimal (s @ [c]) = 16 * hexadecimal s + hex_value c"
  by (simp add: hexadecimal_def)

lemma decimal_nat_text [simp]: "decimal (nat_text n) = n"
proof (induction n rule: nat_text.induct)
  case (1 n)
  then show ?case by (cases "n < 10") (simp_all add: nat_text.simps [of n] decimal_def)
qed

lemma digits_nat_text: "list_all digit (nat_text n)"
proof (induction n rule: nat_text.induct)
  case (1 n)
  then show ?case by (cases "n < 10") (simp_all add: nat_text.simps [of n] digit_def)
qed

lemma nat_text_not_Nil [simp]: "nat_text n \<noteq> []"
  by (simp add: nat_text.simps)

lemma nibble_value: "n < 16 \<Longrightarrow> hex_digit (nibble n) \<and> hex_value (nibble n) = n"
proof -
  have "\<forall>n \<in> set [0..<16]. hex_digit (nibble n) \<and> hex_value (nibble n) = n" by code_simp
  then show "n < 16 \<Longrightarrow> hex_digit (nibble n) \<and> hex_value (nibble n) = n" by simp
qed

lemma hexadecimal_hex_text [simp]: "hexadecimal (hex_text n) = n"
proof (induction n rule: hex_text.induct)
  case (1 n)
  then show ?case by (cases "n < 16") (simp_all add: hex_text.simps [of n] hexadecimal_def nibble_value)
qed

lemma hex_digits_hex_text: "list_all hex_digit (hex_text n)"
proof (induction n rule: hex_text.induct)
  case (1 n)
  then show ?case by (cases "n < 16") (simp_all add: hex_text.simps [of n] nibble_value)
qed

lemma hexadecimal_append: "hexadecimal (s @ t) = hexadecimal s * 16 ^ length t + hexadecimal t"
  by (induction t rule: rev_induct) (simp_all add: hexadecimal_def algebra_simps)

lemma hex_digit_value: "hex_digit c \<Longrightarrow> hex_value c < 16"
proof -
  have "\<forall>c \<in> set ''0123456789abcdefABCDEF''. hex_value c < 16" by code_simp
  then show "hex_digit c \<Longrightarrow> hex_value c < 16" unfolding hex_digit_def by blast
qed

lemma hexadecimal_less: "list_all hex_digit s \<Longrightarrow> hexadecimal s < 16 ^ length s"
proof (induction s rule: rev_induct)
  case (snoc c s)
  then have "hexadecimal s < 16 ^ length s" "hex_value c < 16" by (auto intro: hex_digit_value)
  then show ?case by simp
qed (simp add: hexadecimal_def)

end
