(* ===== verification/Sensitive_Cipher.thy ===== *)
theory Sensitive_Cipher
  imports Json Text_Format "HOL-Library.Countable"
begin

text \<open>
  Authenticated encryption of borrower-derived JSON columns,
  \<open>src/src/provider-platform/sensitive-json-cipher.ts\<close>, and the column transformer of
  \<open>src/src/database/encrypted-json.transformer.ts\<close>.

  AES-256-GCM itself (node:crypto) is the parameter \<open>aead\<close>: a pair of functions on a
  key, a nonce, the additional authenticated data and the plaintext tokens, with the
  base64url spelling of its outputs included. What the code relies on is stated as
  \<open>aead_correct\<close> and \<open>aead_bound\<close>.
\<close>

section \<open>The key ring\<close>

datatype cipher_error =
    InvalidKeyRingEntry
  | CurrentKeyUnavailable
  | LegacyPlaintextForbidden
  | DecryptionFailed

record key_ring =
  currentKeyId :: string
  ring_keys :: "(string \<times> nat list) list"
  rejectLegacyPlaintext :: bool

text \<open>
  \<open>slice(0, i)\<close> and \<open>slice(i + 1)\<close> around the first separator; when there is none
  \<open>indexOf\<close> is \<open>-1\<close>, so the first drops the last character and the second keeps all.
\<close>

definition split_entry :: "string \<Rightarrow> string \<times> string" where
  "split_entry entry =
     (if CHR '':'' \<in> set entry
      then (takeWhile (\<lambda>c. c \<noteq> CHR '':'') entry, tl (dropWhile (\<lambda>c. c \<noteq> CHR '':'') entry))
      else (butlast entry, entry))"

definition key_id_char :: "char \<Rightarrow> bool" where
  "key_id_char c \<longleftrightarrow> upper_letter c \<or> lower_letter c \<or> digit c \<or> c \<in> set ''._-''"

definition valid_key_id :: "string \<Rightarrow> bool" where
  "valid_key_id s \<longleftrightarrow> 1 \<le> length s \<and> length s \<le> 64 \<and> list_all key_id_char s"

definition valid_key_hex :: "string \<Rightarrow> bool" where
  "valid_key_hex s \<longleftrightarrow> length s = 64 \<and> list_all hex_digit s"

definition parse_entry :: "string \<Rightarrow> cipher_error + string \<times> nat list" where
  "parse_entry entry =
     (let (kid, hex) = split_entry entry
      in if valid_key_id kid \<and> valid_key_hex hex then Inr (kid, map hex_value hex)
         else Inl InvalidKeyRingEntry)"

fun parse_entries :: "string list \<Rightarrow> cipher_error + (string \<times> nat list) list" where
  "parse_entries [] = Inr []"
| "parse_entries (e # es) =
     and_then (parse_entry e) (\<lambda>k. and_then (parse_entries es) (\<lambda>ks. Inr (k # ks)))"

text \<open>The constructor; \<open>devEntry\<close> is the built-in entry \<open>local-v1:DEV_KEY\<close>.\<close>

definition new_cipher :: "string \<Rightarrow> string option \<Rightarrow> string \<Rightarrow> cipher_error + key_ring" where
  "new_cipher devEntry keyRing nodeEnv =
     (let entries = split_on (CHR '','') (case keyRing of None \<Rightarrow> devEntry | Some s \<Rightarrow> s)
      in and_then (parse_entries entries) (\<lambda>ks.
           Inr \<lparr>currentKeyId = fst (split_entry (hd entries)),
                ring_keys = ks,
                rejectLegacyPlaintext = (nodeEnv = ''production'' \<or> nodeEnv = ''staging'')\<rparr>))"

text \<open>A repeated key id keeps its last key, as in the constructor of a Map.\<close>

definition key_for :: "key_ring \<Rightarrow> string \<Rightarrow> nat list option" where
  "key_for ring kid = map_of (rev (ring_keys ring)) kid"

section \<open>Envelopes\<close>

record aead =
  seal :: "nat list \<Rightarrow> string \<Rightarrow> string \<Rightarrow> tok list \<Rightarrow> string \<times> string"
    \<comment> \<open>key, nonce, additional data, plaintext; returns tag and ciphertext\<close>
  unseal :: "nat list \<Rightarrow> string \<Rightarrow> string \<Rightarrow> string \<Rightarrow> string \<Rightarrow> tok list option"
    \<comment> \<open>key, nonce, additional data, tag, ciphertext\<close>

definition encrypt :: "aead \<Rightarrow> key_ring \<Rightarrow> string \<Rightarrow> json \<Rightarrow> string \<Rightarrow> cipher_error + json" where
  "encrypt A ring iv v aad =
     and_then (or_throw (key_for ring (currentKeyId ring)) CurrentKeyUnavailable) (\<lambda>k.
       let (tag, ct) = seal A k iv aad (stringify v)
       in Inr (JObj [(''v'', JNum (Num 1)), (''alg'', JStr ''A256GCM''),
                     (''kid'', JStr (currentKeyId ring)), (''iv'', JStr iv),
                     (''tag'', JStr tag), (''ciphertext'', JStr ct)]))"

definition is_string_member :: "json \<Rightarrow> string \<Rightarrow> bool" where
  "is_string_member v k = (case member_of v k of Some (JStr _) \<Rightarrow> True | _ \<Rightarrow> False)"

definition isEnvelope :: "json \<Rightarrow> bool" where
  "isEnvelope v \<longleftrightarrow>
     member_of v ''v'' = Some (JNum (Num 1)) \<and> member_of v ''alg'' = Some (JStr ''A256GCM'')
     \<and> is_string_member v ''kid'' \<and> is_string_member v ''iv''
     \<and> is_string_member v ''tag'' \<and> is_string_member v ''ciphertext''"

definition string_member :: "json \<Rightarrow> string \<Rightarrow> string" where
  "string_member v k = (case member_of v k of Some (JStr s) \<Rightarrow> s | _ \<Rightarrow> [])"

definition decrypt :: "aead \<Rightarrow> key_ring \<Rightarrow> json \<Rightarrow> string \<Rightarrow> cipher_error + json" where
  "decrypt A ring v aad =
     (if \<not> isEnvelope v
      then (if rejectLegacyPlaintext ring then Inl LegacyPlaintextForbidden else Inr v)
      else
        and_then (or_throw (key_for ring (string_member v ''kid'')) DecryptionFailed) (\<lambda>k.
        and_then (or_throw (unseal A k (string_member v ''iv'') aad
                              (string_member v ''tag'') (string_member v ''ciphertext'')) DecryptionFailed) (\<lambda>ts.
          or_throw (parse ts) DecryptionFailed)))"

text \<open>\<open>encryptedJsonTransformer\<close>: null columns stay null.\<close>

definition column_to :: "aead \<Rightarrow> key_ring \<Rightarrow> string \<Rightarrow> string \<Rightarrow> json option \<Rightarrow> cipher_error + json option" where
  "column_to A ring iv aad v =
     (case v of None \<Rightarrow> Inr None | Some x \<Rightarrow> and_then (encrypt A ring iv x aad) (\<lambda>e. Inr (Some e)))"

definition column_from :: "aead \<Rightarrow> key_ring \<Rightarrow> string \<Rightarrow> json option \<Rightarrow> cipher_error + json option" where
  "column_from A ring aad v =
     (case v of None \<Rightarrow> Inr None | Some x \<Rightarrow> and_then (decrypt A ring x aad) (\<lambda>e. Inr (Some e)))"

text \<open>
  What is relied on: opening what was sealed gives the plaintext back, and authentication
  fails under any other additional data.
\<close>

definition aead_correct :: "aead \<Rightarrow> bool" where
  "aead_correct A \<longleftrightarrow>
     (\<forall>k iv aad p. unseal A k iv aad (fst (seal A k iv aad p)) (snd (seal A k iv aad p)) = Some p)"

definition aead_bound :: "aead \<Rightarrow> bool" where
  "aead_bound A \<longleftrightarrow>
     (\<forall>k iv aad p aad'. aad' \<noteq> aad \<longrightarrow>
        unseal A k iv aad' (fst (seal A k iv aad p)) (snd (seal A k iv aad p)) = None)"

section \<open>Round trip and binding\<close>

lemma isEnvelope_encrypt: "encrypt A ring iv v aad = Inr e \<Longrightarrow> isEnvelope e"
  by (auto simp: encrypt_def result_simps isEnvelope_def is_string_member_def member_of_def
      case_prod_beta Let_def)

lemma parse_entries_ids:
  "parse_entries es = Inr ks \<Longrightarrow> map fst ks = map (\<lambda>e. fst (split_entry e)) es"
  by (induction es arbitrary: ks)
    (auto simp: result_simps parse_entry_def Let_def split: prod.splits if_splits)

lemma new_cipher_current_key:
  assumes "new_cipher devEntry keyRing nodeEnv = Inr ring"
  shows "\<exists>k. key_for ring (currentKeyId ring) = Some k"
proof -
  let ?es = "split_on (CHR '','') (case keyRing of None \<Rightarrow> devEntry | Some s \<Rightarrow> s)"
  from assms obtain ks where ks: "parse_entries ?es = Inr ks" "ring_keys ring = ks"
      "currentKeyId ring = fst (split_entry (hd ?es))"
    by (auto simp: new_cipher_def Let_def result_simps)
  have "currentKeyId ring \<in> set (map fst ks)"
    using parse_entries_ids [OF ks(1)] ks(3) split_on_not_Nil [of "CHR '',''"] by simp
  then have "currentKeyId ring \<in> fst ` set (rev (ring_keys ring))" using ks(2) by simp
  then show ?thesis
    unfolding key_for_def by (cases "map_of (rev (ring_keys ring)) (currentKeyId ring)")
      (auto simp: map_of_eq_None_iff)
qed

text \<open>
  C28. A protected column reads back exactly where it was written: with any key ring that
  still maps the writing key id to the same key (so also after a rotation put a new key
  first), decrypting an envelope under the binding it was encrypted for returns the
  original value, and under any other binding it is rejected. With the ring the process
  was started with, encryption itself never fails.
\<close>

theorem envelope_opens_only_in_place:
  assumes "aead_correct A" "aead_bound A" "json_finite v"
    and "new_cipher devEntry keyRing nodeEnv = Inr ring"
    and "key_for ring' (currentKeyId ring) = key_for ring (currentKeyId ring)"
  shows "\<exists>e. encrypt A ring iv v aad = Inr e
    \<and> decrypt A ring' e aad' = (if aad' = aad then Inr v else Inl DecryptionFailed)"
proof -
  obtain k where k: "key_for ring (currentKeyId ring) = Some k"
    using new_cipher_current_key [OF assms(4)] by blast
  obtain t c where tc: "seal A k iv aad (stringify v) = (t, c)" by fastforce
  have "unseal A k iv aad t c = Some (stringify v)" "aad' \<noteq> aad \<Longrightarrow> unseal A k iv aad' t c = None"
    using assms(1,2) tc unfolding aead_correct_def aead_bound_def by (metis fst_conv snd_conv)+
  then show ?thesis
    using k tc assms(5) parse_stringify [OF assms(3)]
    by (auto simp: encrypt_def decrypt_def isEnvelope_def is_string_member_def string_member_def
        member_of_def)
qed

text \<open>An instance of the parameter: the ciphertext is an injective numeral of its four inputs.\<close>

instance tok :: countable
  by countable_datatype

definition example_aead :: aead where
  "example_aead =
     \<lparr>seal = (\<lambda>k iv aad p. ([], replicate (to_nat (k, iv, aad, p)) CHR ''a'')),
      unseal = (\<lambda>k iv aad t c.
        (case from_nat (length c) of (k', iv', aad', p) \<Rightarrow>
           if k' = k \<and> iv' = iv \<and> aad' = aad then Some p else None))\<rparr>"

lemma example_aead_ok: "aead_correct example_aead" "aead_bound example_aead"
  by (simp_all add: aead_correct_def aead_bound_def example_aead_def)

definition example_hex :: string where
  "example_hex = ''00112233445566778899aabbccddeeff00112233445566778899aabbccddeeff''"

definition example_ring :: key_ring where
  "example_ring =
     \<lparr>currentKeyId = ''k1'', ring_keys = [(''k1'', map hex_value example_hex)],
      rejectLegacyPlaintext = True\<rparr>"

lemma example_ring_new: "new_cipher [] (Some (''k1:'' @ example_hex)) ''production'' = Inr example_ring"
  by code_simp

theorem envelope_opens_only_in_place_witness:
  "\<exists>e. encrypt example_aead example_ring ''iv'' (JBool True) ''t:i:receipt'' = Inr e
    \<and> decrypt example_aead example_ring e ''t:i:finding'' = Inl DecryptionFailed"
  using envelope_opens_only_in_place
      [OF example_aead_ok _ example_ring_new refl,
        of "JBool True" "''iv''" "''t:i:receipt''" "''t:i:finding''"]
  by simp

text \<open>
  The key ring accepts an entry that has no key id: a bare string of 64 hexadecimal
  digits is taken as a key whose id is its own first 63 digits, and every envelope written
  with that ring carries these 63 digits of the key in clear.
\<close>

theorem bare_key_becomes_its_own_id:
  assumes "length h = 64" "list_all hex_digit h"
  shows "\<exists>ring. new_cipher devEntry (Some h) nodeEnv = Inr ring
    \<and> key_for ring (butlast h) = Some (map hex_value h)
    \<and> (\<forall>A iv v aad. \<exists>e. encrypt A ring iv v aad = Inr e \<and> string_member e ''kid'' = butlast h)"
proof -
  have "list_all (\<lambda>c. c \<noteq> CHR '':'' \<and> c \<noteq> CHR '','') ''0123456789abcdefABCDEF''" by code_simp
  then have nc: "c \<noteq> CHR '':'' \<and> c \<noteq> CHR '',''" if "c \<in> set h" for c
    using assms(2) that unfolding list_all_iff hex_digit_def by blast
  have split: "split_on (CHR '','') s = [s]" if "\<forall>c \<in> set s. c \<noteq> CHR '',''" for s
    using that by (induction s) auto
  have entry: "split_entry h = (butlast h, h)" using nc by (auto simp: split_entry_def)
  have "list_all key_id_char ''0123456789abcdefABCDEF''" by code_simp
  then have id: "key_id_char c" if "c \<in> set h" for c
    using assms(2) that unfolding list_all_iff hex_digit_def by blast
  have "parse_entry h = Inr (butlast h, map hex_value h)"
    using assms id
    by (auto simp: parse_entry_def entry valid_key_id_def valid_key_hex_def list_all_iff dest: in_set_butlastD)
  then show ?thesis
    using nc split [of h]
    by (auto simp: new_cipher_def Let_def entry key_for_def encrypt_def string_member_def member_of_def
        split: prod.splits)
qed

theorem bare_key_becomes_its_own_id_witness:
  "\<exists>ring. new_cipher [] (Some example_hex) ''production'' = Inr ring
    \<and> key_for ring (butlast example_hex) = Some (map hex_value example_hex)"
proof -
  have "length example_hex = 64" "list_all hex_digit example_hex" by code_simp+
  from bare_key_becomes_its_own_id [OF this] show ?thesis by blast
qed

end
