(* ===== verification/Platform.thy ===== *)
theory Platform
  imports Sensitive_Cipher
begin

text \<open>
  The tables the provider platform, consent and data disposition share: one record per
  entity of \<open>src/src/database/entities\<close>, the enums of \<open>src/src/database/enums\<close> and
  \<open>src/src/provider-platform/types.ts\<close>, and the state \<open>platform_db\<close> with one table each.
  Row-level security is modelled where it acts: a lookup inside \<open>runInTenantContext\<close> sees
  the rows of that tenant only. Generated ids, nonces and clock readings are arguments of
  the operations. Formatted error messages are constructors of \<open>platform_error\<close> that
  carry the values the message mentions.
\<close>

section \<open>Enums\<close>

datatype ProviderCapability = INCOME | ASSET | CREDIT | IDENTITY | DOCUMENT

datatype ProviderMode = SIMULATOR | AUTHORIZED_SANDBOX | PRODUCTION_BYOC

datatype ProviderEffectClass =
  READ_ONLY | REUSABLE_LOOKUP | COST_BEARING_ORDER | CONSUMER_IMPACTING | IRREVERSIBLE

datatype ProviderOperationIntentStatus =
  PREPARED | DISPATCHED | SUCCEEDED | FAILED_FINAL | OUTCOME_UNKNOWN | RECONCILING | CANCELLED

datatype ProviderAdapterState = ADAPTER_ACTIVE | ADAPTER_DISABLED

datatype ProviderCertificationDecision = CERT_PASSED | CERT_FAILED | CERT_REVOKED

datatype ProviderApprovalDecision = APPR_APPROVED | APPR_REJECTED | APPR_REVOKED

datatype ProviderActivationState = ACTIVATED | DEACTIVATED

datatype PermissiblePurposeDecisionStatus = AUTHORIZED | DENIED

datatype LegalHoldStatus = HOLD_ACTIVE | HOLD_RELEASED

datatype DataDispositionTaskType = RETENTION_REVIEW | DELETION | ANONYMIZATION | LEGAL_HOLD

datatype DataDispositionTaskStatus = TASK_PENDING | TASK_IN_PROGRESS | TASK_COMPLETED | TASK_VERIFIED

datatype DataDispositionResolutionOutcome = OUT_DELETED | OUT_ANONYMIZED | OUT_RETAINED_UNDER_HOLD

datatype DataDispositionResolutionAction = DELETE | ANONYMIZE | RETAIN

section \<open>Rows\<close>

record ConsentRecord =
  con_id :: uuid
  con_tenantId :: uuid
  con_caseId :: uuid
  con_purpose :: string
  con_scope :: string
  con_permittedPurposes :: "string list"
  con_permittedDataClasses :: "string list"
  con_grantedAt :: timestamp
  con_expiresAt :: "timestamp option"
  con_revokedAt :: "timestamp option"
  con_revocationReason :: "string option"

record EvidenceFact =
  ev_id :: uuid
  ev_tenantId :: uuid
  ev_caseId :: uuid
  ev_factType :: ProviderCapability
  ev_sourceIdentifier :: string
  ev_value :: json
  ev_observedAt :: timestamp
  ev_validThrough :: "timestamp option"
  ev_version :: int

record ProviderOperationIntent =
  int_id :: uuid
  int_tenantId :: uuid
  int_caseId :: uuid
  int_providerId :: string
  int_capability :: ProviderCapability
  int_effectClass :: ProviderEffectClass
  int_requestFingerprint :: string
  int_idempotencyKey :: string
  int_logicalOperationKey :: string
  int_authorizationGrantId :: uuid
  int_providerReceipt :: "json option"
  int_normalizedFinding :: "json option"
  int_state :: ProviderOperationIntentStatus
  int_resolvedBy :: "string option"
  int_resolutionNote :: "string option"
  int_createdAt :: timestamp
  int_updatedAt :: timestamp

record ProviderAuthorizationGrant =
  gr_id :: uuid
  gr_tenantId :: uuid
  gr_caseId :: uuid
  gr_borrowerSubjectId :: string
  gr_providerId :: string
  gr_capability :: ProviderCapability
  gr_purposeCode :: string
  gr_permittedDataClasses :: "string list"
  gr_permittedFields :: "string list option"
  gr_consentRecordIds :: "uuid list"
  gr_permissiblePurposeDecisionId :: "uuid option"
  gr_issuedAt :: timestamp
  gr_expiresAt :: timestamp
  gr_revokedAt :: "timestamp option"

record PermissiblePurposeDecision =
  pp_id :: uuid
  pp_tenantId :: uuid
  pp_caseId :: uuid
  pp_borrowerSubjectId :: string
  pp_capability :: ProviderCapability
  pp_purposeCode :: string
  pp_permittedDataClasses :: "string list"
  pp_decision :: PermissiblePurposeDecisionStatus
  pp_basisCode :: string
  pp_decidedBy :: string
  pp_syntheticOnly :: bool
  pp_expiresAt :: timestamp
  pp_revokedAt :: "timestamp option"

record DataDispositionTask =
  task_id :: uuid
  task_tenantId :: uuid
  task_caseId :: uuid
  task_taskType :: DataDispositionTaskType
  task_status :: DataDispositionTaskStatus
  task_triggeringConsentRecordId :: "uuid option"
  task_affectedEvidenceFactIds :: "uuid list"
  task_affectedProviderIntentIds :: "uuid list"
  task_createdAt :: timestamp
  task_resolvedAt :: "timestamp option"
  task_resolutionOutcome :: "DataDispositionResolutionOutcome option"
  task_backupExpiryDueAt :: "timestamp option"
  task_backupExpiryVerifiedAt :: "timestamp option"
  task_backupVerificationReference :: "string option"
  task_resolvedBy :: "string option"

record LegalHold =
  hold_id :: uuid
  hold_tenantId :: uuid
  hold_caseId :: uuid
  hold_reason :: string
  hold_ownerId :: string
  hold_status :: LegalHoldStatus
  hold_releasedAt :: "timestamp option"
  hold_releasedBy :: "string option"

record ProviderAdapterStatus =
  st_id :: uuid
  st_providerId :: string
  st_capability :: ProviderCapability
  st_mode :: ProviderMode
  st_state :: ProviderAdapterState
  st_reason :: "string option"
  st_updatedBy :: string

record ProviderPromotionManifest =
  pm_id :: uuid
  pm_providerId :: string
  pm_capability :: ProviderCapability
  pm_mode :: ProviderMode
  pm_version :: int
  pm_adapterVersion :: string
  pm_endpointAllowlist :: "string list"
  pm_dataClassifications :: "string list"
  pm_contentHash :: string
  pm_proposedBy :: string
  pm_proposedAt :: timestamp
  pm_validFrom :: timestamp
  pm_validUntil :: "timestamp option"
  pm_declaredCommandClass :: "string option"

record ProviderCertificationRecord =
  cert_id :: uuid
  cert_manifestId :: uuid
  cert_environment :: string
  cert_certifiedBy :: string
  cert_decision :: ProviderCertificationDecision
  cert_evidenceRef :: string
  cert_decidedAt :: timestamp
  cert_expiresAt :: "timestamp option"

record ProviderApprovalRecord =
  appr_id :: uuid
  appr_manifestId :: uuid
  appr_approvalRole :: string
  appr_approvedBy :: string
  appr_decision :: ProviderApprovalDecision
  appr_decidedAt :: timestamp
  appr_expiresAt :: "timestamp option"

record ProviderActivation =
  act_id :: uuid
  act_providerId :: string
  act_capability :: ProviderCapability
  act_mode :: ProviderMode
  act_manifestId :: uuid
  act_manifestVersion :: int
  act_state :: ProviderActivationState
  act_activatedBy :: string

record AuditEvent =
  aud_tenantId :: uuid
  aud_actorId :: string
  aud_action :: string
  aud_resourceType :: string
  aud_resourceId :: "string option"
  aud_correlationId :: "string option"
  aud_reason :: "string option"
  aud_metadata :: "json option"

record platform_db =
  consents :: "ConsentRecord table"
  evidence :: "EvidenceFact table"
  intents :: "ProviderOperationIntent table"
  grants :: "ProviderAuthorizationGrant table"
  purposes :: "PermissiblePurposeDecision table"
  tasks :: "DataDispositionTask table"
  holds :: "LegalHold table"
  adapter_statuses :: "ProviderAdapterStatus table"
  manifests :: "ProviderPromotionManifest table"
  certifications :: "ProviderCertificationRecord table"
  approvals :: "ProviderApprovalRecord table"
  activations :: "ProviderActivation table"
  audit_events :: "AuditEvent table"

definition empty_platform :: platform_db where
  "empty_platform =
     \<lparr>consents = [], evidence = [], intents = [], grants = [], purposes = [], tasks = [], holds = [],
      adapter_statuses = [], manifests = [], certifications = [], approvals = [], activations = [],
      audit_events = []\<rparr>"

section \<open>Errors\<close>

datatype RevalidationFailure =
    GrantNotFound uuid
  | GrantMismatch uuid
  | GrantRevoked uuid timestamp
  | GrantExpired uuid timestamp
  | GrantWithoutConsent uuid
  | GrantConsentInvalid uuid uuid

datatype platform_error =
    EntityNotFound
  | UniqueKeyViolation
  | TransactionAborted \<comment> \<open>SQLSTATE 25P02: a command after a failed one in the same transaction\<close>
  | CipherFailure cipher_error
  | NoActiveConsent uuid
  | TaskNotFound uuid
  | TaskAlready uuid DataDispositionTaskStatus
  | RetainWithoutHold uuid uuid
  | BlockedByHold DataDispositionResolutionAction uuid uuid
  | UnsettledOperations DataDispositionResolutionAction uuid nat
  | VerificationReferenceRequired
  | NotAwaitingBackupExpiry uuid
  | BackupWindowOpen uuid
  | VerificationBlockedByHold uuid
  | HoldAlreadyActive uuid uuid
  | HoldNotFound uuid
  | HoldAlreadyReleased uuid
  | ProviderIntentConflictError string
  | ProviderIntentTransitionError uuid "ProviderOperationIntentStatus option"
      "ProviderOperationIntentStatus option"
  | AdapterAlreadyRegistered ProviderCapability ProviderMode
  | NoAdapterRegistered ProviderCapability ProviderMode
  | StructurallyExcluded string string string
  | SelfApproval
  | NotCertified uuid string
  | NotApproved uuid
  | ActivationMoved "int option" "int option"
  | SyntheticPurposeSimulatorOnly
  | ProviderDisabledError string ProviderCapability ProviderMode
  | ProviderNotActivatedError string ProviderCapability ProviderMode
  | ProviderConsentScopeError string "string list"
  | PermissiblePurposeError string
  | ProviderRevalidationError RevalidationFailure
  | ProviderIntentReplayBlockedError string
  | ProviderFindingContractError ProviderCapability
  | SyntheticProviderRejectionError
  | ProviderFailure string

definition cipher_result :: "cipher_error + 'a \<Rightarrow> platform_error + 'a" where
  "cipher_result r = (case r of Inl e \<Rightarrow> Inl (CipherFailure e) | Inr a \<Rightarrow> Inr a)"

lemma cipher_result_iff [result_simps]:
  "cipher_result r = Inr a \<longleftrightarrow> r = Inr a"
  "cipher_result r = Inl e \<longleftrightarrow> (\<exists>c. r = Inl c \<and> e = CipherFailure c)"
  by (auto simp: cipher_result_def split: sum.splits)

text \<open>The cryptography of the process: the cipher, its key ring, and SHA-256 on text.\<close>

record crypto =
  cx_aead :: aead
  cx_ring :: key_ring
  cx_sha256 :: "tok list \<Rightarrow> string"

section \<open>Audit events\<close>

text \<open>
  \<open>AuditEventService.record\<close> writes in a transaction of its own and swallows every failure;
  \<open>stored\<close> says whether the write succeeded.
\<close>

definition record_audit :: "bool \<Rightarrow> AuditEvent \<Rightarrow> platform_db \<Rightarrow> platform_db" where
  "record_audit stored e db = (if stored then db\<lparr>audit_events := audit_events db @ [e]\<rparr> else db)"

definition PLATFORM_AUDIT_TENANT_ID :: uuid where
  "PLATFORM_AUDIT_TENANT_ID = ''00000000-0000-0000-0000-000000000000''"

definition capability_name :: "ProviderCapability \<Rightarrow> string" where
  "capability_name c =
     (case c of INCOME \<Rightarrow> ''INCOME'' | ASSET \<Rightarrow> ''ASSET'' | CREDIT \<Rightarrow> ''CREDIT''
      | IDENTITY \<Rightarrow> ''IDENTITY'' | DOCUMENT \<Rightarrow> ''DOCUMENT'')"

definition mode_name :: "ProviderMode \<Rightarrow> string" where
  "mode_name m =
     (case m of SIMULATOR \<Rightarrow> ''SIMULATOR'' | AUTHORIZED_SANDBOX \<Rightarrow> ''AUTHORIZED_SANDBOX''
      | PRODUCTION_BYOC \<Rightarrow> ''PRODUCTION_BYOC'')"

end
