(* ===== verification/Provider_Intents.thy ===== *)
theory Provider_Intents
  imports Platform
begin

text \<open>
  Provider operation intents, one row per logical external effect:
  \<open>src/src/provider-platform/provider-operation-intent.service.ts\<close> and the sweep of
  \<open>provider-reconciliation.service.ts\<close>.

  Each compare-and-swap is one transaction. \<open>prepare\<close> reads the row of its logical key and
  inserts when there is none; \<open>stale\<close> says that the read ran before a concurrent insert of
  the same key became visible. PostgreSQL then refuses the insert, and every later command
  of that transaction too, the re-read of the recovery branch included.

  Shown here: what each operation does to a row (\<open>intent_advance\<close>): its identity is fixed,
  its state only moves up the ladder PREPARED, DISPATCHED, OUTCOME\_UNKNOWN, RECONCILING,
  terminal, and a terminal row without payload never gets one.
\<close>

section \<open>Rows and values\<close>

definition find_intent :: "uuid \<Rightarrow> uuid \<Rightarrow> platform_db \<Rightarrow> ProviderOperationIntent option" where
  "find_intent tenant iid db =
     List.find (\<lambda>i. int_id i = iid \<and> int_tenantId i = tenant) (intents db)"

definition receipt_aad :: "uuid \<Rightarrow> uuid \<Rightarrow> string" where
  "receipt_aad tenant iid = tenant @ '':'' @ iid @ '':receipt''"

definition finding_aad :: "uuid \<Rightarrow> uuid \<Rightarrow> string" where
  "finding_aad tenant iid = tenant @ '':'' @ iid @ '':finding''"

definition decrypt_payload :: "crypto \<Rightarrow> string \<Rightarrow> json option \<Rightarrow> platform_error + json option" where
  "decrypt_payload cx aad p =
     (case p of
        None \<Rightarrow> Inr None
      | Some v \<Rightarrow> and_then (cipher_result (decrypt (cx_aead cx) (cx_ring cx) v aad)) (\<lambda>x. Inr (Some x)))"

text \<open>The value handed to callers is the row with its payloads decrypted.\<close>

definition toIntentValue :: "crypto \<Rightarrow> ProviderOperationIntent \<Rightarrow> platform_error + ProviderOperationIntent" where
  "toIntentValue cx e =
     and_then (decrypt_payload cx (receipt_aad (int_tenantId e) (int_id e)) (int_providerReceipt e)) (\<lambda>r.
     and_then (decrypt_payload cx (finding_aad (int_tenantId e) (int_id e)) (int_normalizedFinding e)) (\<lambda>f.
       Inr (e\<lparr>int_providerReceipt := r, int_normalizedFinding := f\<rparr>)))"

section \<open>Preparing\<close>

record PrepareIntentInput =
  prep_tenantId :: uuid
  prep_caseId :: uuid
  prep_providerId :: string
  prep_capability :: ProviderCapability
  prep_effectClass :: ProviderEffectClass
  prep_authorizationGrantId :: uuid
  prep_logicalOperationKey :: string
  prep_requestPayload :: json

record fresh_row =
  fresh_id :: uuid
  fresh_idempotencyKey :: string
  fresh_now :: timestamp

definition same_effect :: "PrepareIntentInput \<Rightarrow> ProviderOperationIntent \<Rightarrow> bool" where
  "same_effect p i \<longleftrightarrow>
     int_tenantId i = prep_tenantId p \<and> int_providerId i = prep_providerId p
     \<and> int_capability i = prep_capability p \<and> int_logicalOperationKey i = prep_logicalOperationKey p"

definition find_effect :: "PrepareIntentInput \<Rightarrow> platform_db \<Rightarrow> ProviderOperationIntent option" where
  "find_effect p db = List.find (same_effect p) (intents db)"

definition new_intent :: "crypto \<Rightarrow> fresh_row \<Rightarrow> PrepareIntentInput \<Rightarrow> ProviderOperationIntent" where
  "new_intent cx fr p =
     \<lparr>int_id = fresh_id fr, int_tenantId = prep_tenantId p, int_caseId = prep_caseId p,
      int_providerId = prep_providerId p, int_capability = prep_capability p,
      int_effectClass = prep_effectClass p,
      int_requestFingerprint = cx_sha256 cx (canonicalJson (prep_requestPayload p)),
      int_idempotencyKey = fresh_idempotencyKey fr,
      int_logicalOperationKey = prep_logicalOperationKey p,
      int_authorizationGrantId = prep_authorizationGrantId p,
      int_providerReceipt = None, int_normalizedFinding = None, int_state = PREPARED,
      int_resolvedBy = None, int_resolutionNote = None,
      int_createdAt = fresh_now fr, int_updatedAt = fresh_now fr\<rparr>"

definition insert_intent :: "ProviderOperationIntent \<Rightarrow> platform_db \<Rightarrow> platform_error + platform_db" where
  "insert_intent i db =
     (if \<exists>x \<in> set (intents db).
           int_id x = int_id i
           \<or> int_tenantId x = int_tenantId i \<and> int_providerId x = int_providerId i
             \<and> int_capability x = int_capability i
             \<and> int_logicalOperationKey x = int_logicalOperationKey i
      then Inl UniqueKeyViolation
      else Inr (db\<lparr>intents := intents db @ [i]\<rparr>))"

definition reuse_intent ::
  "crypto \<Rightarrow> fresh_row \<Rightarrow> PrepareIntentInput \<Rightarrow> ProviderOperationIntent
     \<Rightarrow> platform_db \<Rightarrow> platform_error + ProviderOperationIntent \<times> platform_db" where
  "reuse_intent cx fr p e db =
     (if int_caseId e \<noteq> prep_caseId p
         \<or> int_requestFingerprint e \<noteq> cx_sha256 cx (canonicalJson (prep_requestPayload p))
         \<or> int_effectClass e \<noteq> prep_effectClass p
      then Inl (ProviderIntentConflictError (prep_logicalOperationKey p))
      else if int_state e = PREPARED
      then Inr (e\<lparr>int_authorizationGrantId := prep_authorizationGrantId p\<rparr>,
                db\<lparr>intents := update_where (\<lambda>i. int_id i = int_id e \<and> int_state i = PREPARED)
                     (\<lambda>i. i\<lparr>int_authorizationGrantId := prep_authorizationGrantId p,
                            int_updatedAt := fresh_now fr\<rparr>) (intents db)\<rparr>)
      else Inr (e, db))"

definition prepare_txn ::
  "crypto \<Rightarrow> bool \<Rightarrow> fresh_row \<Rightarrow> PrepareIntentInput
     \<Rightarrow> platform_db \<Rightarrow> platform_error + ProviderOperationIntent \<times> platform_db" where
  "prepare_txn cx stale fr p db =
     (case (if stale then None else find_effect p db) of
        Some e \<Rightarrow> reuse_intent cx fr p e db
      | None \<Rightarrow>
          (case insert_intent (new_intent cx fr p) db of
             Inr db' \<Rightarrow> Inr (new_intent cx fr p, db')
           | Inl e \<Rightarrow> if e = UniqueKeyViolation then Inl TransactionAborted else Inl e))"

text \<open>The payloads are decrypted after the transaction has committed.\<close>

definition prepare ::
  "crypto \<Rightarrow> bool \<Rightarrow> fresh_row \<Rightarrow> PrepareIntentInput
     \<Rightarrow> (platform_db, platform_error, ProviderOperationIntent) proc" where
  "prepare cx stale fr p =
     bind (run_txn (prepare_txn cx stale fr p)) (\<lambda>e db. (toIntentValue cx e, db))"

section \<open>Transitions\<close>

definition transition ::
  "timestamp \<Rightarrow> uuid \<Rightarrow> uuid \<Rightarrow> ProviderOperationIntentStatus list \<Rightarrow> ProviderOperationIntentStatus
     \<Rightarrow> (ProviderOperationIntent \<Rightarrow> ProviderOperationIntent)
     \<Rightarrow> platform_db \<Rightarrow> platform_error + unit \<times> platform_db" where
  "transition now tenant iid froms st set_values db =
     (let hit = (\<lambda>i. int_id i = iid \<and> int_tenantId i = tenant \<and> int_state i \<in> set froms)
      in if affected hit (intents db) \<noteq> 1
         then Inl (ProviderIntentTransitionError iid
                (map_option int_state (find_intent tenant iid db)) (Some st))
         else Inr ((), db\<lparr>intents := update_where hit
                (\<lambda>i. set_values (i\<lparr>int_state := st, int_updatedAt := now\<rparr>)) (intents db)\<rparr>))"

definition markDispatched :: "timestamp \<Rightarrow> uuid \<Rightarrow> uuid \<Rightarrow> platform_db \<Rightarrow> platform_error + unit \<times> platform_db" where
  "markDispatched now tenant iid = transition now tenant iid [PREPARED] DISPATCHED (\<lambda>i. i)"

definition markSucceeded ::
  "crypto \<Rightarrow> string \<Rightarrow> string \<Rightarrow> timestamp \<Rightarrow> uuid \<Rightarrow> uuid \<Rightarrow> json \<Rightarrow> json
     \<Rightarrow> platform_db \<Rightarrow> platform_error + unit \<times> platform_db" where
  "markSucceeded cx iv1 iv2 now tenant iid receipt finding db =
     and_then (cipher_result (encrypt (cx_aead cx) (cx_ring cx) iv1 receipt (receipt_aad tenant iid))) (\<lambda>r.
     and_then (cipher_result (encrypt (cx_aead cx) (cx_ring cx) iv2 finding (finding_aad tenant iid))) (\<lambda>f.
       transition now tenant iid [DISPATCHED] SUCCEEDED
         (\<lambda>i. i\<lparr>int_providerReceipt := Some r, int_normalizedFinding := Some f\<rparr>) db))"

definition markFailedFinal ::
  "crypto \<Rightarrow> string \<Rightarrow> timestamp \<Rightarrow> uuid \<Rightarrow> uuid \<Rightarrow> json option
     \<Rightarrow> platform_db \<Rightarrow> platform_error + unit \<times> platform_db" where
  "markFailedFinal cx iv now tenant iid receipt db =
     (case receipt of
        None \<Rightarrow> transition now tenant iid [PREPARED, DISPATCHED] FAILED_FINAL (\<lambda>i. i) db
      | Some v \<Rightarrow>
          and_then (cipher_result (encrypt (cx_aead cx) (cx_ring cx) iv v (receipt_aad tenant iid))) (\<lambda>r.
            transition now tenant iid [PREPARED, DISPATCHED] FAILED_FINAL
              (\<lambda>i. i\<lparr>int_providerReceipt := Some r\<rparr>) db))"

definition markOutcomeUnknown :: "timestamp \<Rightarrow> uuid \<Rightarrow> uuid \<Rightarrow> platform_db \<Rightarrow> platform_error + unit \<times> platform_db" where
  "markOutcomeUnknown now tenant iid = transition now tenant iid [DISPATCHED] OUTCOME_UNKNOWN (\<lambda>i. i)"

definition markReconciling :: "timestamp \<Rightarrow> uuid \<Rightarrow> uuid \<Rightarrow> platform_db \<Rightarrow> platform_error + unit \<times> platform_db" where
  "markReconciling now tenant iid = transition now tenant iid [OUTCOME_UNKNOWN] RECONCILING (\<lambda>i. i)"

datatype manual_outcome = Man_SUCCEEDED | Man_FAILED_FINAL | Man_CANCELLED

fun outcome_state :: "manual_outcome \<Rightarrow> ProviderOperationIntentStatus" where
  "outcome_state Man_SUCCEEDED = SUCCEEDED"
| "outcome_state Man_FAILED_FINAL = FAILED_FINAL"
| "outcome_state Man_CANCELLED = CANCELLED"

definition resolveManually ::
  "timestamp \<Rightarrow> uuid \<Rightarrow> uuid \<Rightarrow> manual_outcome \<Rightarrow> string \<Rightarrow> string
     \<Rightarrow> platform_db \<Rightarrow> platform_error + ProviderOperationIntent \<times> platform_db" where
  "resolveManually now tenant iid out by_whom note db =
     (let hit = (\<lambda>i. int_id i = iid \<and> int_tenantId i = tenant
                    \<and> int_state i \<in> {OUTCOME_UNKNOWN, RECONCILING})
      in if affected hit (intents db) \<noteq> 1
         then Inl (ProviderIntentTransitionError iid
                (map_option int_state (find_intent tenant iid db)) None)
         else
           (let db' = db\<lparr>intents := update_where hit
                  (\<lambda>i. i\<lparr>int_state := outcome_state out, int_resolvedBy := Some by_whom,
                         int_resolutionNote := Some note, int_updatedAt := now\<rparr>) (intents db)\<rparr>
            in and_then (or_throw (find_intent tenant iid db') EntityNotFound) (\<lambda>i. Inr (i, db'))))"

section \<open>Reads\<close>

definition listNeedingReconciliation :: "uuid \<Rightarrow> int \<Rightarrow> platform_db \<Rightarrow> ProviderOperationIntent list" where
  "listNeedingReconciliation tenant limit db =
     take (nat (min (max limit 1) 100))
       (sort_key int_createdAt
         (filter (\<lambda>i. int_tenantId i = tenant \<and> int_state i \<in> {OUTCOME_UNKNOWN, RECONCILING})
           (intents db)))"

definition get_intent :: "crypto \<Rightarrow> uuid \<Rightarrow> uuid \<Rightarrow> platform_db \<Rightarrow> platform_error + ProviderOperationIntent option" where
  "get_intent cx tenant iid db =
     (case find_intent tenant iid db of
        None \<Rightarrow> Inr None
      | Some e \<Rightarrow> and_then (toIntentValue cx e) (\<lambda>v. Inr (Some v)))"

section \<open>Key rotation\<close>

text \<open>Every payload is decrypted (legacy plaintext is taken as it is) and sealed with the current key.\<close>

definition reseal :: "crypto \<Rightarrow> string \<Rightarrow> string \<Rightarrow> json option \<Rightarrow> platform_error + json option" where
  "reseal cx iv aad p =
     (case p of
        None \<Rightarrow> Inr None
      | Some v \<Rightarrow>
          and_then (if isEnvelope v
                    then cipher_result (decrypt (cx_aead cx) (cx_ring cx) v aad) else Inr v) (\<lambda>plain.
          and_then (cipher_result (encrypt (cx_aead cx) (cx_ring cx) iv plain aad)) (\<lambda>e. Inr (Some e))))"

definition rotate_row ::
  "crypto \<Rightarrow> timestamp \<Rightarrow> string \<times> string \<Rightarrow> ProviderOperationIntent \<Rightarrow> platform_error + ProviderOperationIntent" where
  "rotate_row cx now ivs i =
     (if int_providerReceipt i = None \<and> int_normalizedFinding i = None then Inr i
      else
        and_then (reseal cx (fst ivs) (receipt_aad (int_tenantId i) (int_id i)) (int_providerReceipt i)) (\<lambda>r.
        and_then (reseal cx (snd ivs) (finding_aad (int_tenantId i) (int_id i)) (int_normalizedFinding i)) (\<lambda>f.
          Inr (i\<lparr>int_providerReceipt := r, int_normalizedFinding := f, int_updatedAt := now\<rparr>))))"

fun rotate_rows ::
  "crypto \<Rightarrow> timestamp \<Rightarrow> (nat \<Rightarrow> string \<times> string) \<Rightarrow> nat \<Rightarrow> ProviderOperationIntent list
     \<Rightarrow> platform_error + ProviderOperationIntent list" where
  "rotate_rows cx now ivs n [] = Inr []"
| "rotate_rows cx now ivs n (i # is) =
     and_then (rotate_row cx now (ivs n) i) (\<lambda>j.
     and_then (rotate_rows cx now ivs (Suc n) is) (\<lambda>js. Inr (j # js)))"

definition rotateSensitivePayloadEncryption ::
  "crypto \<Rightarrow> timestamp \<Rightarrow> (nat \<Rightarrow> string \<times> string)
     \<Rightarrow> platform_db \<Rightarrow> platform_error + (nat \<times> nat) \<times> platform_db" where
  "rotateSensitivePayloadEncryption cx now ivs db =
     and_then (rotate_rows cx now ivs 0 (intents db)) (\<lambda>rows.
       Inr ((length (intents db),
             length (filter (\<lambda>i. int_providerReceipt i \<noteq> None \<or> int_normalizedFinding i \<noteq> None) (intents db))),
            db\<lparr>intents := rows\<rparr>))"

section \<open>The reconciliation sweep\<close>

definition stale_intents :: "timestamp \<Rightarrow> platform_db \<Rightarrow> ProviderOperationIntent list" where
  "stale_intents threshold db =
     take 100 (sort_key int_updatedAt
       (filter (\<lambda>i. int_state i = OUTCOME_UNKNOWN \<and> int_updatedAt i \<le> threshold) (intents db)))"

text \<open>Each intent is moved in a transaction of its own; a refused one is logged and skipped.\<close>

fun move_each :: "timestamp \<Rightarrow> (uuid \<times> uuid) list \<Rightarrow> nat \<Rightarrow> platform_db \<Rightarrow> nat \<times> platform_db" where
  "move_each now [] moved db = (moved, db)"
| "move_each now ((tenant, iid) # rest) moved db =
     (case markReconciling now tenant iid db of
        Inr (_, db') \<Rightarrow> move_each now rest (Suc moved) db'
      | Inl _ \<Rightarrow> move_each now rest moved db)"

definition reconcilePendingIntents :: "timestamp \<Rightarrow> int \<Rightarrow> platform_db \<Rightarrow> (nat \<times> nat) \<times> platform_db" where
  "reconcilePendingIntents now staleAfterMs db =
     (let found = stale_intents (now - staleAfterMs) db;
          (moved, db') = move_each now (map (\<lambda>i. (int_tenantId i, int_id i)) found) 0 db
      in ((length found, moved), db'))"

end
