(* ===== verification/Consent_Disposition.thy ===== *)
theory Consent_Disposition
  imports Provider_Intents "HOL-Library.Product_Lexorder"
begin

text \<open>
  Consent (\<open>src/src/consent/consent.service.ts\<close>), legal holds and data disposition
  (\<open>src/src/data-disposition\<close>). Revoking a consent opens a retention review in the same
  transaction; resolving the review deletes or blanks the evidence and the provider
  payloads it lists, unless a legal hold is active.

  \<open>resolve_txn\<close> takes the state its legal-hold check sees as a separate argument: the check
  runs on a connection of its own. \<open>place_hold\<close> takes \<open>stale\<close> for a first read that
  ran before a concurrent placement became visible; no unique index backs it. The free
  text of a task's reason column is left out.
\<close>

section \<open>Consent\<close>

datatype ConsentStatus = MISSING | REVOKED | EXPIRED | VALID

definition DEFAULT_PROVIDER_PURPOSE :: string where
  "DEFAULT_PROVIDER_PURPOSE = ''UNDERWRITING_EVIDENCE''"

definition DEFAULT_PROVIDER_DATA_CLASSES :: "string list" where
  "DEFAULT_PROVIDER_DATA_CLASSES = [''INCOME'', ''CREDIT'', ''DOCUMENT'', ''ASSET'', ''IDENTITY'']"

definition DEFAULT_SCOPE :: string where
  "DEFAULT_SCOPE = ''INCOME,CREDIT,DOCUMENT,ASSET,IDENTITY''"

definition scope_classes :: "string \<Rightarrow> string list" where
  "scope_classes scope =
     (if scope = DEFAULT_SCOPE then DEFAULT_PROVIDER_DATA_CLASSES
      else filter (\<lambda>s. s \<noteq> []) (map trim (split_on (CHR '','') scope)))"

definition grantForCase ::
  "timestamp \<Rightarrow> uuid \<Rightarrow> uuid \<Rightarrow> uuid \<Rightarrow> string \<Rightarrow> string
     \<Rightarrow> platform_db \<Rightarrow> platform_error + ConsentRecord \<times> platform_db" where
  "grantForCase now newId tenant caseId purpose scope db =
     (let r = \<lparr>con_id = newId, con_tenantId = tenant, con_caseId = caseId, con_purpose = purpose,
               con_scope = scope, con_permittedPurposes = [purpose],
               con_permittedDataClasses = scope_classes scope, con_grantedAt = now,
               con_expiresAt = None, con_revokedAt = None, con_revocationReason = None\<rparr>
      in if \<exists>x \<in> set (consents db). con_id x = newId then Inl UniqueKeyViolation
         else Inr (r, db\<lparr>consents := consents db @ [r]\<rparr>))"

definition mostRecentRecord :: "uuid \<Rightarrow> uuid \<Rightarrow> platform_db \<Rightarrow> ConsentRecord option" where
  "mostRecentRecord tenant caseId db =
     latest_by con_grantedAt (\<lambda>r. con_tenantId r = tenant \<and> con_caseId r = caseId) (consents db)"

definition expired :: "timestamp \<Rightarrow> ConsentRecord \<Rightarrow> bool" where
  "expired now r = (case con_expiresAt r of None \<Rightarrow> False | Some t \<Rightarrow> t \<le> now)"

definition getStatus :: "timestamp \<Rightarrow> uuid \<Rightarrow> uuid \<Rightarrow> platform_db \<Rightarrow> ConsentStatus" where
  "getStatus now tenant caseId db =
     (case mostRecentRecord tenant caseId db of
        None \<Rightarrow> MISSING
      | Some r \<Rightarrow>
          if con_revokedAt r \<noteq> None then REVOKED else if expired now r then EXPIRED else VALID)"

definition activeRecordId :: "uuid \<Rightarrow> uuid \<Rightarrow> platform_db \<Rightarrow> uuid option" where
  "activeRecordId tenant caseId db = map_option con_id (mostRecentRecord tenant caseId db)"

definition activeRecordForPurpose ::
  "timestamp \<Rightarrow> uuid \<Rightarrow> uuid \<Rightarrow> string \<Rightarrow> string list \<Rightarrow> platform_db \<Rightarrow> ConsentRecord option" where
  "activeRecordForPurpose now tenant caseId purpose classes db =
     (case mostRecentRecord tenant caseId db of
        None \<Rightarrow> None
      | Some r \<Rightarrow>
          if con_revokedAt r \<noteq> None then None
          else if expired now r then None
          else if purpose \<notin> set (con_permittedPurposes r) then None
          else if list_all (\<lambda>c. c \<in> set (con_permittedDataClasses r)) classes then Some r else None)"

definition listConsentsForCase :: "uuid \<Rightarrow> uuid \<Rightarrow> platform_db \<Rightarrow> ConsentRecord list" where
  "listConsentsForCase tenant caseId db =
     rev (sort_key con_grantedAt (filter (\<lambda>r. con_tenantId r = tenant \<and> con_caseId r = caseId) (consents db)))"

record expected_scope =
  exp_tenantId :: uuid
  exp_caseId :: uuid
  exp_purpose :: string
  exp_dataClasses :: "string list"

definition isRecordValid :: "timestamp \<Rightarrow> uuid \<Rightarrow> expected_scope option \<Rightarrow> platform_db \<Rightarrow> bool" where
  "isRecordValid now rid expct db =
     (case List.find (\<lambda>r. con_id r = rid) (consents db) of
        None \<Rightarrow> False
      | Some r \<Rightarrow>
          con_revokedAt r = None \<and> \<not> expired now r
          \<and> (case expct of
               None \<Rightarrow> True
             | Some e \<Rightarrow>
                 con_tenantId r = exp_tenantId e \<and> con_caseId r = exp_caseId e
                 \<and> exp_purpose e \<in> set (con_permittedPurposes r)
                 \<and> list_all (\<lambda>c. c \<in> set (con_permittedDataClasses r)) (exp_dataClasses e)))"

section \<open>Retention reviews\<close>

definition openRetentionReviewForRevokedConsent ::
  "timestamp \<Rightarrow> uuid \<Rightarrow> uuid \<Rightarrow> uuid \<Rightarrow> uuid \<Rightarrow> platform_db \<Rightarrow> platform_error + DataDispositionTask \<times> platform_db" where
  "openRetentionReviewForRevokedConsent now newId tenant caseId consentId db =
     (let t = \<lparr>task_id = newId, task_tenantId = tenant, task_caseId = caseId,
               task_taskType = RETENTION_REVIEW, task_status = TASK_PENDING,
               task_triggeringConsentRecordId = Some consentId,
               task_affectedEvidenceFactIds =
                 map ev_id (filter (\<lambda>e. ev_tenantId e = tenant \<and> ev_caseId e = caseId) (evidence db)),
               task_affectedProviderIntentIds =
                 map int_id (filter (\<lambda>i. int_tenantId i = tenant \<and> int_caseId i = caseId) (intents db)),
               task_createdAt = now, task_resolvedAt = None, task_resolutionOutcome = None,
               task_backupExpiryDueAt = None, task_backupExpiryVerifiedAt = None,
               task_backupVerificationReference = None, task_resolvedBy = None\<rparr>
      in if \<exists>x \<in> set (tasks db). task_id x = newId then Inl UniqueKeyViolation
         else Inr (t, db\<lparr>tasks := tasks db @ [t]\<rparr>))"

definition active_record :: "uuid \<Rightarrow> uuid \<Rightarrow> platform_db \<Rightarrow> ConsentRecord option" where
  "active_record tenant caseId db =
     latest_by con_grantedAt
       (\<lambda>r. con_tenantId r = tenant \<and> con_caseId r = caseId \<and> con_revokedAt r = None) (consents db)"

definition revoke_consent ::
  "timestamp \<Rightarrow> uuid \<Rightarrow> uuid \<Rightarrow> uuid \<Rightarrow> string option
     \<Rightarrow> platform_db \<Rightarrow> platform_error + ConsentRecord \<times> platform_db" where
  "revoke_consent now newTask tenant caseId reason db =
     and_then (or_throw (active_record tenant caseId db) (NoActiveConsent caseId)) (\<lambda>active.
       let db1 = db\<lparr>consents := update_where (\<lambda>r. con_id r = con_id active)
                   (\<lambda>r. r\<lparr>con_revokedAt := Some now, con_revocationReason := reason\<rparr>) (consents db)\<rparr>
       in and_then (openRetentionReviewForRevokedConsent now newTask tenant caseId (con_id active) db1) (\<lambda>(_, db2).
          and_then (or_throw (List.find (\<lambda>r. con_id r = con_id active) (consents db2)) EntityNotFound) (\<lambda>r.
            Inr (r, db2))))"

definition listTasksForCase :: "uuid \<Rightarrow> uuid \<Rightarrow> platform_db \<Rightarrow> DataDispositionTask list" where
  "listTasksForCase tenant caseId db =
     rev (sort_key task_createdAt (filter (\<lambda>t. task_tenantId t = tenant \<and> task_caseId t = caseId) (tasks db)))"

definition listAwaitingBackupExpiry :: "uuid \<Rightarrow> int \<Rightarrow> platform_db \<Rightarrow> DataDispositionTask list" where
  "listAwaitingBackupExpiry tenant limit db =
     take (nat (min (max limit 1) 100))
       (sort_key (\<lambda>t. case task_backupExpiryDueAt t of None \<Rightarrow> (1 :: nat, 0) | Some d \<Rightarrow> (0, d))
         (filter (\<lambda>t. task_tenantId t = tenant \<and> task_status t = TASK_COMPLETED) (tasks db)))"

definition listOpen :: "uuid \<Rightarrow> int \<Rightarrow> platform_db \<Rightarrow> DataDispositionTask list" where
  "listOpen tenant limit db =
     take (nat (min (max limit 1) 100))
       (sort_key task_createdAt
         (filter (\<lambda>t. task_tenantId t = tenant \<and> task_status t = TASK_PENDING) (tasks db)))"

section \<open>Legal holds\<close>

definition find_active_hold :: "uuid \<Rightarrow> uuid \<Rightarrow> platform_db \<Rightarrow> LegalHold option" where
  "find_active_hold tenant caseId db =
     List.find (\<lambda>h. hold_tenantId h = tenant \<and> hold_caseId h = caseId \<and> hold_status h = HOLD_ACTIVE) (holds db)"

definition hasActiveHold :: "uuid \<Rightarrow> uuid \<Rightarrow> platform_db \<Rightarrow> bool" where
  "hasActiveHold tenant caseId db \<longleftrightarrow> find_active_hold tenant caseId db \<noteq> None"

definition place_txn ::
  "bool \<Rightarrow> uuid \<Rightarrow> uuid \<Rightarrow> uuid \<Rightarrow> string \<Rightarrow> string \<Rightarrow> platform_db \<Rightarrow> platform_error + LegalHold \<times> platform_db" where
  "place_txn stale newId tenant caseId reason owner db =
     (case (if stale then None else find_active_hold tenant caseId db) of
        Some h \<Rightarrow> Inl (HoldAlreadyActive caseId (hold_id h))
      | None \<Rightarrow>
          (let h = \<lparr>hold_id = newId, hold_tenantId = tenant, hold_caseId = caseId, hold_reason = reason,
                    hold_ownerId = owner, hold_status = HOLD_ACTIVE, hold_releasedAt = None,
                    hold_releasedBy = None\<rparr>
           in if \<exists>x \<in> set (holds db). hold_id x = newId then Inl UniqueKeyViolation
              else Inr (h, db\<lparr>holds := holds db @ [h]\<rparr>)))"

definition place_hold ::
  "bool \<Rightarrow> bool \<Rightarrow> uuid \<Rightarrow> uuid \<Rightarrow> uuid \<Rightarrow> string \<Rightarrow> string \<Rightarrow> (platform_db, platform_error, LegalHold) proc" where
  "place_hold stored stale newId tenant caseId reason owner =
     bind (run_txn (place_txn stale newId tenant caseId reason owner)) (\<lambda>h db.
       (Inr h, record_audit stored
          \<lparr>aud_tenantId = tenant, aud_actorId = owner, aud_action = ''LEGAL_HOLD_PLACED'',
           aud_resourceType = ''legal_hold'', aud_resourceId = Some (hold_id h), aud_correlationId = None,
           aud_reason = Some reason, aud_metadata = Some (JObj [(''caseId'', JStr caseId)])\<rparr> db))"

definition release_txn ::
  "timestamp \<Rightarrow> uuid \<Rightarrow> uuid \<Rightarrow> string \<Rightarrow> platform_db \<Rightarrow> platform_error + LegalHold \<times> platform_db" where
  "release_txn now tenant hid by_whom db =
     and_then (or_throw (List.find (\<lambda>h. hold_id h = hid \<and> hold_tenantId h = tenant) (holds db))
       (HoldNotFound hid)) (\<lambda>h.
     and_then (ensure (hold_status h \<noteq> HOLD_RELEASED) (HoldAlreadyReleased hid)) (\<lambda>_.
       let db' = db\<lparr>holds := update_where (\<lambda>x. hold_id x = hid \<and> hold_tenantId x = tenant)
             (\<lambda>x. x\<lparr>hold_status := HOLD_RELEASED, hold_releasedAt := Some now,
                    hold_releasedBy := Some by_whom\<rparr>) (holds db)\<rparr>
       in and_then (or_throw (List.find (\<lambda>x. hold_id x = hid \<and> hold_tenantId x = tenant) (holds db'))
            EntityNotFound) (\<lambda>x. Inr (x, db'))))"

definition release_hold ::
  "bool \<Rightarrow> timestamp \<Rightarrow> uuid \<Rightarrow> uuid \<Rightarrow> string \<Rightarrow> (platform_db, platform_error, LegalHold) proc" where
  "release_hold stored now tenant hid by_whom =
     bind (run_txn (release_txn now tenant hid by_whom)) (\<lambda>h db.
       (Inr h, record_audit stored
          \<lparr>aud_tenantId = tenant, aud_actorId = by_whom, aud_action = ''LEGAL_HOLD_RELEASED'',
           aud_resourceType = ''legal_hold'', aud_resourceId = Some (hold_id h), aud_correlationId = None,
           aud_reason = None, aud_metadata = Some (JObj [(''caseId'', JStr (hold_caseId h))])\<rparr> db))"

section \<open>Resolving a review\<close>

definition find_task :: "uuid \<Rightarrow> uuid \<Rightarrow> platform_db \<Rightarrow> DataDispositionTask option" where
  "find_task tenant tid db = List.find (\<lambda>t. task_id t = tid \<and> task_tenantId t = tenant) (tasks db)"

fun action_name :: "DataDispositionResolutionAction \<Rightarrow> string" where
  "action_name DELETE = ''DELETE''"
| "action_name ANONYMIZE = ''ANONYMIZE''"
| "action_name RETAIN = ''RETAIN''"

definition unsettled :: "ProviderOperationIntent \<Rightarrow> bool" where
  "unsettled i \<longleftrightarrow> int_state i \<in> {DISPATCHED, OUTCOME_UNKNOWN, RECONCILING}"

text \<open>What a deletion or anonymisation does to the intents of the review.\<close>

definition cancel_prepared :: "timestamp \<Rightarrow> uuid \<Rightarrow> uuid list \<Rightarrow> string \<Rightarrow> platform_db \<Rightarrow> platform_db" where
  "cancel_prepared now tenant iids actor db =
     db\<lparr>intents := update_where
       (\<lambda>i. int_tenantId i = tenant \<and> int_id i \<in> set iids \<and> int_state i = PREPARED)
       (\<lambda>i. i\<lparr>int_state := CANCELLED, int_resolvedBy := Some actor,
              int_resolutionNote := Some ''Cancelled before dispatch during consent-revocation data disposition.'',
              int_updatedAt := now\<rparr>) (intents db)\<rparr>"

definition clear_payloads :: "timestamp \<Rightarrow> uuid \<Rightarrow> uuid list \<Rightarrow> platform_db \<Rightarrow> platform_db" where
  "clear_payloads now tenant iids db =
     db\<lparr>intents := update_where (\<lambda>i. int_tenantId i = tenant \<and> int_id i \<in> set iids)
       (\<lambda>i. i\<lparr>int_providerReceipt := None, int_normalizedFinding := None, int_updatedAt := now\<rparr>)
       (intents db)\<rparr>"

definition dispose_evidence ::
  "DataDispositionResolutionAction \<Rightarrow> uuid \<Rightarrow> uuid list \<Rightarrow> platform_db \<Rightarrow> platform_db" where
  "dispose_evidence act tenant eids db =
     (case act of
        DELETE \<Rightarrow> db\<lparr>evidence := filter (\<lambda>e. \<not> (ev_tenantId e = tenant \<and> ev_id e \<in> set eids)) (evidence db)\<rparr>
      | ANONYMIZE \<Rightarrow> db\<lparr>evidence := update_where (\<lambda>e. ev_tenantId e = tenant \<and> ev_id e \<in> set eids)
                        (\<lambda>e. e\<lparr>ev_value := JObj [], ev_version := ev_version e + 1\<rparr>) (evidence db)\<rparr>
      | RETAIN \<Rightarrow> db)"

fun resolution_outcome :: "DataDispositionResolutionAction \<Rightarrow> DataDispositionResolutionOutcome" where
  "resolution_outcome DELETE = OUT_DELETED"
| "resolution_outcome ANONYMIZE = OUT_ANONYMIZED"
| "resolution_outcome RETAIN = OUT_RETAINED_UNDER_HOLD"

definition close_task ::
  "timestamp \<Rightarrow> int \<Rightarrow> uuid \<Rightarrow> uuid \<Rightarrow> DataDispositionResolutionAction \<Rightarrow> string \<Rightarrow> platform_db \<Rightarrow> platform_db" where
  "close_task now retentionHours tenant tid act actor db =
     db\<lparr>tasks := update_where (\<lambda>t. task_id t = tid \<and> task_tenantId t = tenant)
       (\<lambda>t. t\<lparr>task_status := (if act = RETAIN then TASK_VERIFIED else TASK_COMPLETED),
              task_resolutionOutcome := Some (resolution_outcome act), task_resolvedAt := Some now,
              task_resolvedBy := Some actor,
              task_backupExpiryDueAt :=
                (if act = RETAIN then None else Some (now + retentionHours * 60 * 60 * 1000))\<rparr>) (tasks db)\<rparr>"

definition resolve_txn ::
  "timestamp \<Rightarrow> int \<Rightarrow> uuid \<Rightarrow> uuid \<Rightarrow> DataDispositionResolutionAction \<Rightarrow> string \<Rightarrow> platform_db
     \<Rightarrow> platform_db \<Rightarrow> platform_error + DataDispositionTask \<times> platform_db" where
  "resolve_txn now retentionHours tenant tid act actor hold_view db =
     and_then (or_throw (find_task tenant tid db) (TaskNotFound tid)) (\<lambda>t.
     and_then (ensure (task_status t = TASK_PENDING) (TaskAlready tid (task_status t))) (\<lambda>_.
     let held = hasActiveHold tenant (task_caseId t) hold_view in
     and_then (ensure (act = RETAIN \<longrightarrow> held) (RetainWithoutHold tid (task_caseId t))) (\<lambda>_.
     and_then (ensure (act \<noteq> RETAIN \<longrightarrow> \<not> held) (BlockedByHold act tid (task_caseId t))) (\<lambda>_.
     let iids = task_affectedProviderIntentIds t;
         open_ops = filter (\<lambda>i. int_tenantId i = tenant \<and> int_id i \<in> set iids \<and> unsettled i) (intents db)
     in
     and_then (ensure (act \<noteq> RETAIN \<longrightarrow> open_ops = []) (UnsettledOperations act tid (length open_ops))) (\<lambda>_.
     let db1 = (if act = RETAIN then db else cancel_prepared now tenant iids actor db);
         db2 = dispose_evidence act tenant (task_affectedEvidenceFactIds t) db1;
         db3 = (if act = RETAIN then db2 else clear_payloads now tenant iids db2);
         db4 = close_task now retentionHours tenant tid act actor db3
     in and_then (or_throw (find_task tenant tid db4) EntityNotFound) (\<lambda>t'. Inr (t', db4)))))))"

definition resolve_task ::
  "bool \<Rightarrow> timestamp \<Rightarrow> int \<Rightarrow> uuid \<Rightarrow> uuid \<Rightarrow> DataDispositionResolutionAction \<Rightarrow> string \<Rightarrow> string option
     \<Rightarrow> (platform_db, platform_error, DataDispositionTask) proc" where
  "resolve_task stored now retentionHours tenant tid act actor corr db =
     bind (run_txn (resolve_txn now retentionHours tenant tid act actor db)) (\<lambda>t db'.
       (Inr t, record_audit stored
          \<lparr>aud_tenantId = tenant, aud_actorId = actor, aud_action = ''DATA_DISPOSITION_TASK_RESOLVED'',
           aud_resourceType = ''data_disposition_task'', aud_resourceId = Some tid, aud_correlationId = corr,
           aud_reason = Some (''Resolved as '' @ action_name act),
           aud_metadata = Some (JObj [(''action'', JStr (action_name act))])\<rparr> db')) db"

definition verify_txn ::
  "timestamp \<Rightarrow> uuid \<Rightarrow> uuid \<Rightarrow> string \<Rightarrow> platform_db \<Rightarrow> platform_error + DataDispositionTask \<times> platform_db" where
  "verify_txn now tenant tid ref db =
     and_then (or_throw (find_task tenant tid db) (NotAwaitingBackupExpiry tid)) (\<lambda>t.
     and_then (ensure (task_status t = TASK_COMPLETED) (NotAwaitingBackupExpiry tid)) (\<lambda>_.
     and_then (ensure (case task_backupExpiryDueAt t of None \<Rightarrow> False | Some d \<Rightarrow> d \<le> now)
       (BackupWindowOpen tid)) (\<lambda>_.
     and_then (ensure (\<not> hasActiveHold tenant (task_caseId t) db) (VerificationBlockedByHold tid)) (\<lambda>_.
       let db' = db\<lparr>tasks := update_where
             (\<lambda>x. task_id x = tid \<and> task_tenantId x = tenant \<and> task_status x = TASK_COMPLETED)
             (\<lambda>x. x\<lparr>task_status := TASK_VERIFIED, task_backupExpiryVerifiedAt := Some now,
                    task_backupVerificationReference := Some ref\<rparr>) (tasks db)\<rparr>
       in and_then (or_throw (find_task tenant tid db') EntityNotFound) (\<lambda>x. Inr (x, db'))))))"

definition verifyBackupExpiry ::
  "bool \<Rightarrow> timestamp \<Rightarrow> uuid \<Rightarrow> uuid \<Rightarrow> string \<Rightarrow> string
     \<Rightarrow> (platform_db, platform_error, DataDispositionTask) proc" where
  "verifyBackupExpiry stored now tenant tid actor ref db =
     (if trim ref = [] then (Inl VerificationReferenceRequired, db)
      else bind (run_txn (verify_txn now tenant tid ref)) (\<lambda>t db'.
        (Inr t, record_audit stored
           \<lparr>aud_tenantId = tenant, aud_actorId = actor, aud_action = ''DATA_DISPOSITION_BACKUP_EXPIRY_VERIFIED'',
            aud_resourceType = ''data_disposition_task'', aud_resourceId = Some tid, aud_correlationId = None,
            aud_reason = Some ''Verified managed-backup retention expiry'',
            aud_metadata = Some (JObj [(''verificationReference'', JStr ref)])\<rparr> db')) db)"

end
