(* ===== verification/Provider_Authorization.thy ===== *)
theory Provider_Authorization
  imports Consent_Disposition
begin

text \<open>
  The authority a provider call carries and the contract its result meets, from
  \<open>src/src/provider-platform\<close>: authorization grants, permissible-purpose decisions for
  consumer reports, the canonical finding schemas, and the field filter.

  The finding schemas are the declarations of \<open>provider-finding-contract.ts\<close> as data, with
  the documented meaning of the zod combinators they use: a strict object has exactly the
  declared members, a number is finite, an integer is safe. A parsed object lists its
  members in the order of the schema.
\<close>

section \<open>Grants\<close>

record IssueGrantInput =
  iss_tenantId :: uuid
  iss_caseId :: uuid
  iss_borrowerSubjectId :: string
  iss_providerId :: string
  iss_capability :: ProviderCapability
  iss_purposeCode :: string
  iss_permittedDataClasses :: "string list"
  iss_permittedFields :: "string list option"
  iss_ttlMs :: "int option"
  iss_consentRecordIds :: "uuid list"
  iss_permissiblePurposeDecisionId :: "uuid option"

definition DEFAULT_GRANT_TTL_MS :: int where
  "DEFAULT_GRANT_TTL_MS = 5 * 60 * 1000"

definition issue ::
  "timestamp \<Rightarrow> uuid \<Rightarrow> IssueGrantInput \<Rightarrow> platform_db \<Rightarrow> platform_error + ProviderAuthorizationGrant \<times> platform_db" where
  "issue now newId i db =
     (let g = \<lparr>gr_id = newId, gr_tenantId = iss_tenantId i, gr_caseId = iss_caseId i,
               gr_borrowerSubjectId = iss_borrowerSubjectId i, gr_providerId = iss_providerId i,
               gr_capability = iss_capability i, gr_purposeCode = iss_purposeCode i,
               gr_permittedDataClasses = iss_permittedDataClasses i,
               gr_permittedFields = iss_permittedFields i,
               gr_consentRecordIds = iss_consentRecordIds i,
               gr_permissiblePurposeDecisionId = iss_permissiblePurposeDecisionId i,
               gr_issuedAt = now,
               gr_expiresAt = now + (case iss_ttlMs i of None \<Rightarrow> DEFAULT_GRANT_TTL_MS | Some t \<Rightarrow> t),
               gr_revokedAt = None\<rparr>
      in if \<exists>x \<in> set (grants db). gr_id x = newId then Inl UniqueKeyViolation
         else Inr (g, db\<lparr>grants := grants db @ [g]\<rparr>))"

record expected_grant =
  eg_tenantId :: uuid
  eg_caseId :: uuid
  eg_providerId :: string
  eg_capability :: ProviderCapability

text \<open>
  The grant is read in one transaction, the consent records it names in later ones;
  \<open>later\<close> is the state those see.
\<close>

definition revalidate ::
  "timestamp \<Rightarrow> uuid \<Rightarrow> expected_grant \<Rightarrow> platform_db \<Rightarrow> platform_db
     \<Rightarrow> RevalidationFailure + ProviderAuthorizationGrant" where
  "revalidate now gid e later db =
     and_then (or_throw (List.find (\<lambda>g. gr_id g = gid \<and> gr_tenantId g = eg_tenantId e) (grants db))
       (GrantNotFound gid)) (\<lambda>g.
     and_then (ensure (gr_tenantId g = eg_tenantId e \<and> gr_caseId g = eg_caseId e
         \<and> gr_providerId g = eg_providerId e \<and> gr_capability g = eg_capability e) (GrantMismatch gid)) (\<lambda>_.
     and_then (case gr_revokedAt g of None \<Rightarrow> Inr () | Some t \<Rightarrow> Inl (GrantRevoked gid t)) (\<lambda>_.
     and_then (ensure (now < gr_expiresAt g) (GrantExpired gid (gr_expiresAt g))) (\<lambda>_.
     and_then (ensure (gr_consentRecordIds g \<noteq> []) (GrantWithoutConsent gid)) (\<lambda>_.
       case List.find (\<lambda>cid. \<not> isRecordValid now cid
              (Some \<lparr>exp_tenantId = gr_tenantId g, exp_caseId = gr_caseId g,
                     exp_purpose = gr_purposeCode g, exp_dataClasses = gr_permittedDataClasses g\<rparr>) later)
            (gr_consentRecordIds g) of
         Some cid \<Rightarrow> Inl (GrantConsentInvalid gid cid)
       | None \<Rightarrow> Inr g)))))"

definition revoke_grant :: "timestamp \<Rightarrow> uuid \<Rightarrow> uuid \<Rightarrow> platform_db \<Rightarrow> platform_db" where
  "revoke_grant now tenant gid db =
     db\<lparr>grants := update_where (\<lambda>g. gr_id g = gid \<and> gr_tenantId g = tenant)
       (\<lambda>g. g\<lparr>gr_revokedAt := Some now\<rparr>) (grants db)\<rparr>"

section \<open>Permissible purpose\<close>

record PermissiblePurposeContext =
  pc_tenantId :: uuid
  pc_caseId :: uuid
  pc_borrowerSubjectId :: string
  pc_capability :: ProviderCapability
  pc_purposeCode :: string
  pc_permittedDataClasses :: "string list"
  pc_mode :: ProviderMode

definition issueSynthetic ::
  "timestamp \<Rightarrow> uuid \<Rightarrow> PermissiblePurposeContext \<Rightarrow> platform_db \<Rightarrow> platform_error + uuid \<times> platform_db" where
  "issueSynthetic now newId c db =
     (if pc_mode c \<noteq> SIMULATOR \<or> pc_capability c \<noteq> CREDIT then Inl SyntheticPurposeSimulatorOnly
      else
        (let d = \<lparr>pp_id = newId, pp_tenantId = pc_tenantId c, pp_caseId = pc_caseId c,
                  pp_borrowerSubjectId = pc_borrowerSubjectId c, pp_capability = pc_capability c,
                  pp_purposeCode = pc_purposeCode c, pp_permittedDataClasses = pc_permittedDataClasses c,
                  pp_decision = AUTHORIZED, pp_basisCode = ''SYNTHETIC_MORTGAGE_APPLICATION'',
                  pp_decidedBy = ''simulator-purpose-policy'', pp_syntheticOnly = True,
                  pp_expiresAt = now + 5 * 60000, pp_revokedAt = None\<rparr>
         in if \<exists>x \<in> set (purposes db). pp_id x = newId then Inl UniqueKeyViolation
            else Inr (newId, db\<lparr>purposes := purposes db @ [d]\<rparr>)))"

definition validate_purpose ::
  "timestamp \<Rightarrow> uuid \<Rightarrow> PermissiblePurposeContext \<Rightarrow> platform_db \<Rightarrow> string + unit" where
  "validate_purpose now did c db =
     and_then (or_throw (List.find (\<lambda>d. pp_id d = did \<and> pp_tenantId d = pc_tenantId c) (purposes db))
       ''decision not found'') (\<lambda>d.
     and_then (ensure (pp_tenantId d = pc_tenantId c \<and> pp_caseId d = pc_caseId c
         \<and> pp_borrowerSubjectId d = pc_borrowerSubjectId c \<and> pp_capability d = pc_capability c
         \<and> pp_purposeCode d = pc_purposeCode c
         \<and> list_all (\<lambda>x. x \<in> set (pp_permittedDataClasses d)) (pc_permittedDataClasses c))
       ''decision scope does not match this request'') (\<lambda>_.
     and_then (ensure (pp_decision d = AUTHORIZED) ''decision is not authorized'') (\<lambda>_.
     and_then (ensure (pp_revokedAt d = None \<and> now < pp_expiresAt d) ''decision is revoked or expired'') (\<lambda>_.
       ensure (\<not> (pp_syntheticOnly d \<and> pc_mode c \<noteq> SIMULATOR))
         ''synthetic decision cannot authorize a live provider mode''))))"

section \<open>Finding contract\<close>

datatype field_type =
    NumberField "rat option" "rat option" \<comment> \<open>least and greatest value\<close>
  | IntField "rat option" "rat option"
  | EnumField "string list"
  | BoolField
  | NonemptyStringsField \<comment> \<open>an array of nonempty strings\<close>

definition in_range :: "rat option \<Rightarrow> rat option \<Rightarrow> rat \<Rightarrow> bool" where
  "in_range lo hi q \<longleftrightarrow>
     (case lo of None \<Rightarrow> True | Some l \<Rightarrow> l \<le> q) \<and> (case hi of None \<Rightarrow> True | Some h \<Rightarrow> q \<le> h)"

fun field_ok :: "field_type \<Rightarrow> json \<Rightarrow> bool" where
  "field_ok (NumberField lo hi) v = (case v of JNum (Num q) \<Rightarrow> in_range lo hi q | _ \<Rightarrow> False)"
| "field_ok (IntField lo hi) v =
     (case v of JNum n \<Rightarrow> (case safe_integer n of Some i \<Rightarrow> in_range lo hi (of_int i) | None \<Rightarrow> False) | _ \<Rightarrow> False)"
| "field_ok (EnumField xs) v = (case v of JStr s \<Rightarrow> s \<in> set xs | _ \<Rightarrow> False)"
| "field_ok BoolField v = (case v of JBool _ \<Rightarrow> True | _ \<Rightarrow> False)"
| "field_ok NonemptyStringsField v =
     (case v of JArr vs \<Rightarrow> list_all (\<lambda>x. case x of JStr s \<Rightarrow> s \<noteq> [] | _ \<Rightarrow> False) vs | _ \<Rightarrow> False)"

type_synonym object_schema = "(string \<times> field_type) list"

definition incomeSchema :: object_schema where
  "incomeSchema =
     [(''monthlyIncome'', NumberField (Some 0) None),
      (''employmentStatus'', EnumField [''FULL_TIME'', ''PART_TIME'', ''SELF_EMPLOYED'', ''UNEMPLOYED'']),
      (''bankAccountAge'', IntField (Some 0) None),
      (''incomeStability'', NumberField (Some 0) (Some 100))]"

definition creditSchema :: object_schema where
  "creditSchema =
     [(''creditScore'', IntField (Some 300) (Some 850)),
      (''debtToIncomeRatio'', NumberField (Some 0) (Some 10)),
      (''paymentHistory'', EnumField [''EXCELLENT'', ''GOOD'', ''FAIR'', ''POOR'']),
      (''openAccounts'', IntField (Some 0) None),
      (''derogatoryMarks'', IntField (Some 0) None)]"

definition documentSchema :: object_schema where
  "documentSchema =
     [(''w2Valid'', BoolField), (''payStubValid'', BoolField), (''bankStatementValid'', BoolField),
      (''taxReturnValid'', BoolField), (''allDocumentsValid'', BoolField),
      (''failedDocuments'', NonemptyStringsField)]"

definition assetSchema :: object_schema where
  "assetSchema =
     [(''liquidAssets'', NumberField (Some 0) None), (''investmentAssets'', NumberField (Some 0) None),
      (''accountCount'', IntField (Some 0) None), (''reserveMonths'', NumberField (Some 0) None)]"

definition identitySchema :: object_schema where
  "identitySchema =
     [(''nameMatch'', BoolField), (''dateOfBirthMatch'', BoolField), (''ssnValid'', BoolField),
      (''addressMatch'', BoolField), (''fraudAlertPresent'', BoolField), (''identityVerified'', BoolField)]"

definition schema_for :: "ProviderCapability \<Rightarrow> object_schema" where
  "schema_for c =
     (case c of INCOME \<Rightarrow> incomeSchema | CREDIT \<Rightarrow> creditSchema | DOCUMENT \<Rightarrow> documentSchema
      | ASSET \<Rightarrow> assetSchema | IDENTITY \<Rightarrow> identitySchema)"

definition flag :: "json \<Rightarrow> string \<Rightarrow> bool" where
  "flag v k \<longleftrightarrow> member_of v k = Some (JBool True)"

definition no_failed_documents :: "json \<Rightarrow> bool" where
  "no_failed_documents v \<longleftrightarrow> member_of v ''failedDocuments'' = Some (JArr [])"

text \<open>The cross-field refinements of the document and identity schemas.\<close>

definition refinement_ok :: "ProviderCapability \<Rightarrow> json \<Rightarrow> bool" where
  "refinement_ok c v =
     (case c of
        DOCUMENT \<Rightarrow>
          flag v ''allDocumentsValid''
            = (flag v ''w2Valid'' \<and> flag v ''payStubValid'' \<and> flag v ''bankStatementValid''
               \<and> flag v ''taxReturnValid'')
          \<and> flag v ''allDocumentsValid'' = no_failed_documents v
      | IDENTITY \<Rightarrow>
          flag v ''identityVerified''
            = (flag v ''nameMatch'' \<and> flag v ''dateOfBirthMatch'' \<and> flag v ''ssnValid''
               \<and> flag v ''addressMatch'' \<and> \<not> flag v ''fraudAlertPresent'')
      | _ \<Rightarrow> True)"

definition schema_parse :: "ProviderCapability \<Rightarrow> json \<Rightarrow> json option" where
  "schema_parse c v =
     (case v of
        JObj ms \<Rightarrow>
          (if list_all (\<lambda>m. fst m \<in> set (map fst (schema_for c))) ms
              \<and> list_all (\<lambda>(k, ft). case member_of v k of None \<Rightarrow> False | Some x \<Rightarrow> field_ok ft x) (schema_for c)
              \<and> refinement_ok c v
           then Some (JObj (map (\<lambda>(k, ft). (k, the (member_of v k))) (schema_for c)))
           else None)
      | _ \<Rightarrow> None)"

text \<open>\<open>observed\<close> is the time read from the receipt's string, None when it is not a date.\<close>

definition validateProviderFinding ::
  "timestamp \<Rightarrow> ProviderCapability \<Rightarrow> json \<Rightarrow> timestamp option \<Rightarrow> platform_error + json" where
  "validateProviderFinding now c finding observed =
     (case observed of
        None \<Rightarrow> Inl (ProviderFindingContractError c)
      | Some t \<Rightarrow>
          if now + 30000 < t \<or> 5 * 60000 < now - t then Inl (ProviderFindingContractError c)
          else or_throw (schema_parse c finding) (ProviderFindingContractError c))"

definition filterToPermittedFields :: "json \<Rightarrow> string list option \<Rightarrow> json" where
  "filterToPermittedFields finding permitted =
     (case permitted of
        None \<Rightarrow> finding
      | Some allowed \<Rightarrow>
          (case finding of
             JObj ms \<Rightarrow> JObj (filter (\<lambda>m. fst m \<in> set allowed) ms)
           | _ \<Rightarrow> finding))"

end
