(* ===== verification/Provider_Governance.thy ===== *)
theory Provider_Governance
  imports Platform
begin

text \<open>
  Which adapter a request may reach: the permanent denylist of
  \<open>src/src/common/structural-exclusions.ts\<close>, the adapter registry, the kill switch and the
  promotion chain (propose, certify, approve, activate) of \<open>src/src/provider-platform\<close>.

  The kill switch and the promotion service use their repositories without a transaction,
  so a method is a sequence of single statements. \<open>activate\<close> is split where it matters:
  \<open>activate_check\<close> reads, \<open>activate_save\<close> writes, and another call may run in between.

  An adapter's remote call and its normalisation are fields of \<open>ProviderAdapter\<close>: the
  registry holds whatever the adapters under \<open>src/src/integrations\<close> register.
\<close>

section \<open>Structural exclusions\<close>

definition STRUCTURALLY_EXCLUDED_COMMAND_CLASSES :: "string list" where
  "STRUCTURALLY_EXCLUDED_COMMAND_CLASSES =
     [''FUNDS_MOVEMENT'', ''RATE_LOCK'', ''LEGAL_DISCLOSURE'', ''FORMAL_DECISION'', ''CLEAR_TO_CLOSE'',
      ''SETTLEMENT'', ''FUNDING'', ''SERVICING_PAYMENT'', ''CAPITAL_DELIVERY'']"

definition assertNotStructurallyExcluded :: "string \<Rightarrow> string \<Rightarrow> string option \<Rightarrow> platform_error + unit" where
  "assertNotStructurallyExcluded kind identifier declared =
     (case declared of
        None \<Rightarrow> Inr ()
      | Some c \<Rightarrow>
          ensure (\<not> (c \<noteq> [] \<and> c \<in> set STRUCTURALLY_EXCLUDED_COMMAND_CLASSES))
            (StructurallyExcluded kind identifier c))"

definition tuple_name :: "string \<Rightarrow> ProviderCapability \<Rightarrow> ProviderMode \<Rightarrow> string" where
  "tuple_name pid c m = pid @ ''/'' @ capability_name c @ ''/'' @ mode_name m"

section \<open>Adapters and their registry\<close>

record SynchronousProviderReceipt =
  rcpt_payload :: json
  rcpt_observedAt :: string
  rcpt_time :: "timestamp option" \<comment> \<open>the instant that string names, None when it is not a date\<close>

datatype submit_result =
    Completed SynchronousProviderReceipt
  | Rejected \<comment> \<open>throws \<open>SyntheticProviderRejectionError\<close>\<close>
  | Failed string \<comment> \<open>throws anything else, a time-out included\<close>

record ProviderContext =
  ctx_tenantId :: uuid
  ctx_caseId :: uuid

record ProviderAdapter =
  ad_providerId :: string
  ad_capability :: ProviderCapability
  ad_mode :: ProviderMode
  ad_effectClass :: ProviderEffectClass
  ad_excludedCommandClass :: "string option"
  ad_submit :: "json \<Rightarrow> ProviderOperationIntent \<Rightarrow> ProviderAuthorizationGrant \<Rightarrow> ProviderContext \<Rightarrow> submit_result"
  ad_normalize :: "json \<Rightarrow> ProviderContext \<Rightarrow> platform_error + json"

type_synonym registry = "((ProviderCapability \<times> ProviderMode) \<times> ProviderAdapter) list"

definition register :: "ProviderAdapter \<Rightarrow> registry \<Rightarrow> platform_error + registry" where
  "register a reg =
     (let k = (ad_capability a, ad_mode a) in
      and_then (ensure (map_of reg k = None) (AdapterAlreadyRegistered (ad_capability a) (ad_mode a))) (\<lambda>_.
      and_then (assertNotStructurallyExcluded ''provider_adapter''
                  (tuple_name (ad_providerId a) (ad_capability a) (ad_mode a))
                  (ad_excludedCommandClass a)) (\<lambda>_.
        Inr (reg @ [(k, a)]))))"

definition resolve_adapter :: "registry \<Rightarrow> ProviderCapability \<Rightarrow> ProviderMode \<Rightarrow> platform_error + ProviderAdapter" where
  "resolve_adapter reg c m = or_throw (map_of reg (c, m)) (NoAdapterRegistered c m)"

definition listRegistered :: "registry \<Rightarrow> ProviderAdapter list" where
  "listRegistered reg = map snd reg"

section \<open>Kill switch\<close>

definition find_status :: "string \<Rightarrow> ProviderCapability \<Rightarrow> ProviderMode \<Rightarrow> platform_db \<Rightarrow> ProviderAdapterStatus option" where
  "find_status pid c m db =
     List.find (\<lambda>s. st_providerId s = pid \<and> st_capability s = c \<and> st_mode s = m) (adapter_statuses db)"

definition isActive :: "string \<Rightarrow> ProviderCapability \<Rightarrow> ProviderMode \<Rightarrow> platform_db \<Rightarrow> bool" where
  "isActive pid c m db =
     (case find_status pid c m db of None \<Rightarrow> True | Some s \<Rightarrow> st_state s = ADAPTER_ACTIVE)"

definition upsert_status ::
  "uuid \<Rightarrow> string \<Rightarrow> ProviderCapability \<Rightarrow> ProviderMode \<Rightarrow> ProviderAdapterState \<Rightarrow> string option \<Rightarrow> string
     \<Rightarrow> platform_db \<Rightarrow> platform_error + unit \<times> platform_db" where
  "upsert_status newId pid c m st reason actor db =
     (case find_status pid c m db of
        None \<Rightarrow>
          (if \<exists>s \<in> set (adapter_statuses db). st_id s = newId then Inl UniqueKeyViolation
           else Inr ((), db\<lparr>adapter_statuses := adapter_statuses db @
             [\<lparr>st_id = newId, st_providerId = pid, st_capability = c, st_mode = m, st_state = st,
               st_reason = reason, st_updatedBy = actor\<rparr>]\<rparr>))
      | Some e \<Rightarrow>
          Inr ((), db\<lparr>adapter_statuses := update_where (\<lambda>s. st_id s = st_id e)
            (\<lambda>s. s\<lparr>st_state := st, st_reason := reason, st_updatedBy := actor\<rparr>) (adapter_statuses db)\<rparr>))"

definition disable ::
  "uuid \<Rightarrow> string \<Rightarrow> ProviderCapability \<Rightarrow> ProviderMode \<Rightarrow> string \<Rightarrow> string
     \<Rightarrow> platform_db \<Rightarrow> platform_error + unit \<times> platform_db" where
  "disable newId pid c m reason actor = upsert_status newId pid c m ADAPTER_DISABLED (Some reason) actor"

definition enable ::
  "uuid \<Rightarrow> string \<Rightarrow> ProviderCapability \<Rightarrow> ProviderMode \<Rightarrow> string
     \<Rightarrow> platform_db \<Rightarrow> platform_error + unit \<times> platform_db" where
  "enable newId pid c m actor = upsert_status newId pid c m ADAPTER_ACTIVE None actor"

section \<open>Promotion\<close>

record ProposeManifestInput =
  pr_providerId :: string
  pr_capability :: ProviderCapability
  pr_mode :: ProviderMode
  pr_adapterVersion :: string
  pr_endpointAllowlist :: "string list"
  pr_dataClassifications :: "string list"
  pr_proposedBy :: string
  pr_validFrom :: "timestamp option"
  pr_validUntil :: "timestamp option"
  pr_declaredCommandClass :: "string option"

definition platform_audit :: "string \<Rightarrow> string \<Rightarrow> string \<Rightarrow> string \<Rightarrow> (string \<times> json) list \<Rightarrow> AuditEvent" where
  "platform_audit actor act resource rid meta =
     \<lparr>aud_tenantId = PLATFORM_AUDIT_TENANT_ID, aud_actorId = actor, aud_action = act,
      aud_resourceType = resource, aud_resourceId = Some rid, aud_correlationId = None,
      aud_reason = None, aud_metadata = Some (JObj meta)\<rparr>"

definition json_strings :: "string list \<Rightarrow> json" where
  "json_strings ss = JArr (map JStr ss)"

definition manifest_content :: "ProposeManifestInput \<Rightarrow> json" where
  "manifest_content i =
     JObj [(''providerId'', JStr (pr_providerId i)), (''capability'', JStr (capability_name (pr_capability i))),
           (''mode'', JStr (mode_name (pr_mode i))), (''adapterVersion'', JStr (pr_adapterVersion i)),
           (''endpointAllowlist'', json_strings (pr_endpointAllowlist i)),
           (''dataClassifications'', json_strings (pr_dataClassifications i))]"

definition latest_version :: "ProposeManifestInput \<Rightarrow> platform_db \<Rightarrow> int" where
  "latest_version i db =
     (case latest_by pm_version (\<lambda>m. pm_providerId m = pr_providerId i \<and> pm_capability m = pr_capability i
              \<and> pm_mode m = pr_mode i) (manifests db) of
        None \<Rightarrow> 0 | Some m \<Rightarrow> pm_version m)"

definition propose ::
  "crypto \<Rightarrow> bool \<Rightarrow> timestamp \<Rightarrow> uuid \<Rightarrow> ProposeManifestInput
     \<Rightarrow> (platform_db, platform_error, ProviderPromotionManifest) proc" where
  "propose cx stored now newId i db =
     (case assertNotStructurallyExcluded ''provider_promotion_manifest''
             (tuple_name (pr_providerId i) (pr_capability i) (pr_mode i)) (pr_declaredCommandClass i) of
        Inl e \<Rightarrow> (Inl e, db)
      | Inr _ \<Rightarrow>
          (let m = \<lparr>pm_id = newId, pm_providerId = pr_providerId i, pm_capability = pr_capability i,
                    pm_mode = pr_mode i, pm_version = latest_version i db + 1,
                    pm_adapterVersion = pr_adapterVersion i, pm_endpointAllowlist = pr_endpointAllowlist i,
                    pm_dataClassifications = pr_dataClassifications i,
                    pm_contentHash = computeDigest (cx_sha256 cx) (manifest_content i),
                    pm_proposedBy = pr_proposedBy i, pm_proposedAt = now,
                    pm_validFrom = (case pr_validFrom i of None \<Rightarrow> now | Some t \<Rightarrow> t),
                    pm_validUntil = pr_validUntil i,
                    pm_declaredCommandClass = pr_declaredCommandClass i\<rparr>
           in (Inr m, record_audit stored
                (platform_audit (pr_proposedBy i) ''PROVIDER_MANIFEST_PROPOSED'' ''provider_promotion_manifest'' newId
                  [(''providerId'', JStr (pr_providerId i)),
                   (''capability'', JStr (capability_name (pr_capability i))),
                   (''mode'', JStr (mode_name (pr_mode i))),
                   (''version'', JNum (js_int (pm_version m))),
                   (''adapterVersion'', JStr (pr_adapterVersion i))])
                (db\<lparr>manifests := manifests db @ [m]\<rparr>))))"

definition find_manifest :: "uuid \<Rightarrow> platform_db \<Rightarrow> ProviderPromotionManifest option" where
  "find_manifest mid db = List.find (\<lambda>m. pm_id m = mid) (manifests db)"

fun certification_name :: "ProviderCertificationDecision \<Rightarrow> string" where
  "certification_name CERT_PASSED = ''PASSED''"
| "certification_name CERT_FAILED = ''FAILED''"
| "certification_name CERT_REVOKED = ''REVOKED''"

fun approval_name :: "ProviderApprovalDecision \<Rightarrow> string" where
  "approval_name APPR_APPROVED = ''APPROVED''"
| "approval_name APPR_REJECTED = ''REJECTED''"
| "approval_name APPR_REVOKED = ''REVOKED''"

definition certify ::
  "bool \<Rightarrow> timestamp \<Rightarrow> uuid \<Rightarrow> uuid \<Rightarrow> string \<Rightarrow> string \<Rightarrow> ProviderCertificationDecision \<Rightarrow> string
     \<Rightarrow> timestamp option \<Rightarrow> (platform_db, platform_error, ProviderCertificationRecord) proc" where
  "certify stored now newId mid env by_whom dec evidenceRef expires db =
     (case find_manifest mid db of
        None \<Rightarrow> (Inl EntityNotFound, db)
      | Some _ \<Rightarrow>
          (let r = \<lparr>cert_id = newId, cert_manifestId = mid, cert_environment = env,
                    cert_certifiedBy = by_whom, cert_decision = dec, cert_evidenceRef = evidenceRef,
                    cert_decidedAt = now, cert_expiresAt = expires\<rparr>
           in (Inr r, record_audit stored
                (platform_audit by_whom ''PROVIDER_MANIFEST_CERTIFIED'' ''provider_promotion_manifest'' mid
                  [(''environment'', JStr env), (''decision'', JStr (certification_name dec)),
                   (''evidenceRef'', JStr evidenceRef)])
                (db\<lparr>certifications := certifications db @ [r]\<rparr>))))"

definition approve_manifest ::
  "bool \<Rightarrow> timestamp \<Rightarrow> uuid \<Rightarrow> uuid \<Rightarrow> string \<Rightarrow> string \<Rightarrow> ProviderApprovalDecision
     \<Rightarrow> timestamp option \<Rightarrow> (platform_db, platform_error, ProviderApprovalRecord) proc" where
  "approve_manifest stored now newId mid role by_whom dec expires db =
     (case find_manifest mid db of
        None \<Rightarrow> (Inl EntityNotFound, db)
      | Some m \<Rightarrow>
          if dec = APPR_APPROVED \<and> pm_proposedBy m = by_whom then (Inl SelfApproval, db)
          else
            (let r = \<lparr>appr_id = newId, appr_manifestId = mid, appr_approvalRole = role,
                      appr_approvedBy = by_whom, appr_decision = dec, appr_decidedAt = now,
                      appr_expiresAt = expires\<rparr>
             in (Inr r, record_audit stored
                  (platform_audit by_whom ''PROVIDER_MANIFEST_APPROVAL_RECORDED'' ''provider_promotion_manifest'' mid
                    [(''approvalRole'', JStr role), (''decision'', JStr (approval_name dec))])
                  (db\<lparr>approvals := approvals db @ [r]\<rparr>))))"

definition isExpired :: "timestamp \<Rightarrow> timestamp option \<Rightarrow> bool" where
  "isExpired now t = (case t of None \<Rightarrow> False | Some e \<Rightarrow> e < now)"

definition latest_certification :: "uuid \<Rightarrow> string \<Rightarrow> platform_db \<Rightarrow> ProviderCertificationRecord option" where
  "latest_certification mid env db =
     latest_by cert_decidedAt (\<lambda>c. cert_manifestId c = mid \<and> cert_environment c = env) (certifications db)"

definition latest_approval :: "uuid \<Rightarrow> platform_db \<Rightarrow> ProviderApprovalRecord option" where
  "latest_approval mid db = latest_by appr_decidedAt (\<lambda>a. appr_manifestId a = mid) (approvals db)"

definition find_activation :: "string \<Rightarrow> ProviderCapability \<Rightarrow> ProviderMode \<Rightarrow> platform_db \<Rightarrow> ProviderActivation option" where
  "find_activation pid c m db =
     List.find (\<lambda>a. act_providerId a = pid \<and> act_capability a = c \<and> act_mode a = m) (activations db)"

definition activate_check ::
  "timestamp \<Rightarrow> uuid \<Rightarrow> string \<Rightarrow> int option
     \<Rightarrow> platform_db \<Rightarrow> platform_error + ProviderPromotionManifest \<times> ProviderActivation option" where
  "activate_check now mid env expected db =
     and_then (or_throw (find_manifest mid db) EntityNotFound) (\<lambda>m.
     and_then (ensure (case latest_certification mid env db of
                 None \<Rightarrow> False
               | Some c \<Rightarrow> cert_decision c = CERT_PASSED \<and> \<not> isExpired now (cert_expiresAt c))
       (NotCertified mid env)) (\<lambda>_.
     and_then (ensure (case latest_approval mid db of
                 None \<Rightarrow> False
               | Some a \<Rightarrow> appr_decision a = APPR_APPROVED \<and> \<not> isExpired now (appr_expiresAt a))
       (NotApproved mid)) (\<lambda>_.
       let existing = find_activation (pm_providerId m) (pm_capability m) (pm_mode m) db;
           current = map_option act_manifestVersion existing
       in and_then (ensure (expected = current) (ActivationMoved expected current)) (\<lambda>_.
            Inr (m, existing)))))"

text \<open>
  \<open>save\<close> of a row read before updates that row by its id, whatever it holds by now; of a
  new row it inserts, which the unique tuple refuses when one has appeared.
\<close>

definition activate_save ::
  "bool \<Rightarrow> uuid \<Rightarrow> string \<Rightarrow> string \<Rightarrow> ProviderPromotionManifest \<times> ProviderActivation option
     \<Rightarrow> (platform_db, platform_error, ProviderActivation) proc" where
  "activate_save stored newId env by_whom checked db =
     (case checked of (m, existing) \<Rightarrow>
       (let a = \<lparr>act_id = (case existing of None \<Rightarrow> newId | Some e \<Rightarrow> act_id e),
                 act_providerId = pm_providerId m, act_capability = pm_capability m, act_mode = pm_mode m,
                 act_manifestId = pm_id m, act_manifestVersion = pm_version m, act_state = ACTIVATED,
                 act_activatedBy = by_whom\<rparr>;
            audit = record_audit stored
              (platform_audit by_whom ''PROVIDER_ACTIVATED'' ''provider_activation'' (act_id a)
                [(''providerId'', JStr (pm_providerId m)),
                 (''capability'', JStr (capability_name (pm_capability m))),
                 (''mode'', JStr (mode_name (pm_mode m))), (''environment'', JStr env),
                 (''manifestId'', JStr (pm_id m)), (''manifestVersion'', JNum (js_int (pm_version m)))])
        in if existing = None
           then if find_activation (pm_providerId m) (pm_capability m) (pm_mode m) db \<noteq> None
                then (Inl UniqueKeyViolation, db)
                else (Inr a, audit (db\<lparr>activations := activations db @ [a]\<rparr>))
           else (Inr a, audit (db\<lparr>activations :=
                    update_where (\<lambda>x. act_id x = act_id a) (\<lambda>_. a) (activations db)\<rparr>))))"

definition activate ::
  "bool \<Rightarrow> timestamp \<Rightarrow> uuid \<Rightarrow> uuid \<Rightarrow> string \<Rightarrow> string \<Rightarrow> int option
     \<Rightarrow> (platform_db, platform_error, ProviderActivation) proc" where
  "activate stored now newId mid env by_whom expected db =
     (case activate_check now mid env expected db of
        Inl e \<Rightarrow> (Inl e, db)
      | Inr checked \<Rightarrow> activate_save stored newId env by_whom checked db)"

definition deactivate ::
  "bool \<Rightarrow> string \<Rightarrow> ProviderCapability \<Rightarrow> ProviderMode \<Rightarrow> string
     \<Rightarrow> (platform_db, platform_error, ProviderActivation) proc" where
  "deactivate stored pid c m actor db =
     (case find_activation pid c m db of
        None \<Rightarrow> (Inl EntityNotFound, db)
      | Some e \<Rightarrow>
          (let f = (\<lambda>a. a\<lparr>act_state := DEACTIVATED, act_activatedBy := actor\<rparr>)
           in (Inr (f e), record_audit stored
                (platform_audit actor ''PROVIDER_DEACTIVATED'' ''provider_activation'' (act_id e)
                  [(''providerId'', JStr pid), (''capability'', JStr (capability_name c)),
                   (''mode'', JStr (mode_name m))])
                (db\<lparr>activations := update_where (\<lambda>a. act_id a = act_id e) f (activations db)\<rparr>))))"

definition isActivated :: "string \<Rightarrow> ProviderCapability \<Rightarrow> ProviderMode \<Rightarrow> platform_db \<Rightarrow> bool" where
  "isActivated pid c m db =
     (case find_activation pid c m db of None \<Rightarrow> False | Some a \<Rightarrow> act_state a = ACTIVATED)"

definition listManifests :: "int \<Rightarrow> platform_db \<Rightarrow> ProviderPromotionManifest list" where
  "listManifests limit db =
     take (nat (min (max limit 1) 100)) (rev (sort_key pm_proposedAt (manifests db)))"

definition listCertifications :: "uuid \<Rightarrow> platform_db \<Rightarrow> ProviderCertificationRecord list" where
  "listCertifications mid db =
     rev (sort_key cert_decidedAt (filter (\<lambda>c. cert_manifestId c = mid) (certifications db)))"

definition listApprovals :: "uuid \<Rightarrow> platform_db \<Rightarrow> ProviderApprovalRecord list" where
  "listApprovals mid db =
     rev (sort_key appr_decidedAt (filter (\<lambda>a. appr_manifestId a = mid) (approvals db)))"

end
