(* ===== verification/Provider_Dispatch.thy ===== *)
theory Provider_Dispatch
  imports Provider_Authorization Provider_Governance
begin

text \<open>
  The dispatch path, \<open>src/src/provider-platform/dispatch-provider-request.ts\<close>, as a
  sequence of separate transactions. Between any two of them other requests may commit:
  step \<open>k\<close> runs on the state that \<open>others k\<close> makes of the one the previous step left, and
  reads its own clock. The world also records the submissions made to providers, which is
  what the safety theorems are about. Telemetry is left out.
\<close>

section \<open>The world of one dispatch\<close>

record submission =
  sub_intentId :: uuid
  sub_tenantId :: uuid
  sub_providerId :: string
  sub_idempotencyKey :: string
  sub_grant :: ProviderAuthorizationGrant

record world =
  w_db :: platform_db
  w_sent :: "submission list"

record dispatch_env =
  clk :: "nat \<Rightarrow> timestamp"
  others :: "nat \<Rightarrow> platform_db \<Rightarrow> platform_db"
  id_purpose :: uuid
  id_grant :: uuid
  id_intent :: uuid
  id_idempotency :: string
  stale_read :: bool
  nonces :: "string \<times> string"

record DispatchProviderRequestParams =
  dp_tenantId :: uuid
  dp_caseId :: uuid
  dp_borrowerSubjectId :: string
  dp_capability :: ProviderCapability
  dp_mode :: "ProviderMode option"
  dp_request :: json
  dp_purposeCode :: string
  dp_permittedDataClasses :: "string list"
  dp_logicalOperationKey :: "string option"
  dp_permittedFields :: "string list option"
  dp_permissiblePurposeDecisionId :: "uuid option"

definition step :: "dispatch_env \<Rightarrow> nat \<Rightarrow> (platform_db, platform_error, 'a) proc \<Rightarrow> (world, platform_error, 'a) proc" where
  "step env k p w =
     (case p (others env k (w_db w)) of (r, db') \<Rightarrow> (r, w\<lparr>w_db := db'\<rparr>))"

definition reading :: "(platform_db \<Rightarrow> 'a) \<Rightarrow> (platform_db, platform_error, 'a) proc" where
  "reading f db = (Inr (f db), db)"

text \<open>The empty string is as absent as an undefined id.\<close>

definition truthy :: "string option \<Rightarrow> string option" where
  "truthy x = (case x of Some s \<Rightarrow> if s = [] then None else Some s | None \<Rightarrow> None)"

definition mode_of :: "DispatchProviderRequestParams \<Rightarrow> ProviderMode" where
  "mode_of p = (case dp_mode p of None \<Rightarrow> SIMULATOR | Some m \<Rightarrow> m)"

definition logical_key :: "DispatchProviderRequestParams \<Rightarrow> string" where
  "logical_key p =
     (case dp_logicalOperationKey p of
        Some k \<Rightarrow> k
      | None \<Rightarrow> dp_caseId p @ '':'' @ capability_name (dp_capability p) @ '':'' @ dp_purposeCode p)"

definition purpose_context :: "DispatchProviderRequestParams \<Rightarrow> PermissiblePurposeContext" where
  "purpose_context p =
     \<lparr>pc_tenantId = dp_tenantId p, pc_caseId = dp_caseId p,
      pc_borrowerSubjectId = dp_borrowerSubjectId p, pc_capability = dp_capability p,
      pc_purposeCode = dp_purposeCode p, pc_permittedDataClasses = dp_permittedDataClasses p,
      pc_mode = mode_of p\<rparr>"

definition dispatch_context :: "DispatchProviderRequestParams \<Rightarrow> ProviderContext" where
  "dispatch_context p = \<lparr>ctx_tenantId = dp_tenantId p, ctx_caseId = dp_caseId p\<rparr>"

definition receipt_json :: "SynchronousProviderReceipt \<Rightarrow> json" where
  "receipt_json r =
     JObj [(''status'', JStr ''COMPLETE''), (''payload'', rcpt_payload r),
           (''observedAt'', JStr (rcpt_observedAt r))]"

section \<open>Authority\<close>

text \<open>Kill switch, promotion and consent; returns the consent record.\<close>

definition check_gates ::
  "dispatch_env \<Rightarrow> ProviderAdapter \<Rightarrow> DispatchProviderRequestParams \<Rightarrow> (world, platform_error, ConsentRecord) proc" where
  "check_gates env a p =
     bind (step env 0 (reading (isActive (ad_providerId a) (dp_capability p) (mode_of p)))) (\<lambda>active.
     if \<not> active then throw (ProviderDisabledError (ad_providerId a) (dp_capability p) (mode_of p))
     else
       bind (if mode_of p = SIMULATOR then return True
             else step env 1 (reading (isActivated (ad_providerId a) (dp_capability p) (mode_of p)))) (\<lambda>activated.
       if \<not> activated then throw (ProviderNotActivatedError (ad_providerId a) (dp_capability p) (mode_of p))
       else
         bind (step env 2 (reading (activeRecordForPurpose (clk env 2) (dp_tenantId p) (dp_caseId p)
                 (dp_purposeCode p) (dp_permittedDataClasses p)))) (\<lambda>consent.
         case consent of
           None \<Rightarrow> throw (ProviderConsentScopeError (dp_purposeCode p) (dp_permittedDataClasses p))
         | Some r \<Rightarrow> return r)))"

definition validate_step ::
  "dispatch_env \<Rightarrow> nat \<Rightarrow> DispatchProviderRequestParams \<Rightarrow> uuid \<Rightarrow> (world, platform_error, string + unit) proc" where
  "validate_step env k p did = step env k (reading (validate_purpose (clk env k) did (purpose_context p)))"

text \<open>The permissible-purpose decision of a consumer report; other capabilities pass theirs through.\<close>

definition purpose_authority ::
  "dispatch_env \<Rightarrow> DispatchProviderRequestParams \<Rightarrow> (world, platform_error, uuid option) proc" where
  "purpose_authority env p =
     (if dp_capability p \<noteq> CREDIT then return (dp_permissiblePurposeDecisionId p)
      else
        bind (if truthy (dp_permissiblePurposeDecisionId p) = None \<and> mode_of p = SIMULATOR
              then bind (step env 3 (run_txn (issueSynthetic (clk env 3) (id_purpose env) (purpose_context p))))
                     (\<lambda>d. return (Some d))
              else return (dp_permissiblePurposeDecisionId p)) (\<lambda>decision.
        case truthy decision of
          None \<Rightarrow> throw (PermissiblePurposeError
            ''consumer-report dispatch requires a transaction-specific permissible-purpose decision'')
        | Some d \<Rightarrow>
            bind (validate_step env 4 p d) (\<lambda>v.
              case v of
                Inl reason \<Rightarrow> throw (PermissiblePurposeError reason)
              | Inr _ \<Rightarrow> return decision)))"

definition issue_input ::
  "ProviderAdapter \<Rightarrow> DispatchProviderRequestParams \<Rightarrow> ConsentRecord \<Rightarrow> uuid option \<Rightarrow> IssueGrantInput" where
  "issue_input a p consent decision =
     \<lparr>iss_tenantId = dp_tenantId p, iss_caseId = dp_caseId p,
      iss_borrowerSubjectId = dp_borrowerSubjectId p, iss_providerId = ad_providerId a,
      iss_capability = dp_capability p, iss_purposeCode = dp_purposeCode p,
      iss_permittedDataClasses = dp_permittedDataClasses p, iss_permittedFields = dp_permittedFields p,
      iss_ttlMs = None, iss_consentRecordIds = [con_id consent],
      iss_permissiblePurposeDecisionId = decision\<rparr>"

definition prepare_input ::
  "ProviderAdapter \<Rightarrow> DispatchProviderRequestParams \<Rightarrow> uuid \<Rightarrow> PrepareIntentInput" where
  "prepare_input a p gid =
     \<lparr>prep_tenantId = dp_tenantId p, prep_caseId = dp_caseId p, prep_providerId = ad_providerId a,
      prep_capability = dp_capability p, prep_effectClass = ad_effectClass a,
      prep_authorizationGrantId = gid, prep_logicalOperationKey = logical_key p,
      prep_requestPayload = dp_request p\<rparr>"

definition expected_of :: "ProviderAdapter \<Rightarrow> DispatchProviderRequestParams \<Rightarrow> expected_grant" where
  "expected_of a p =
     \<lparr>eg_tenantId = dp_tenantId p, eg_caseId = dp_caseId p, eg_providerId = ad_providerId a,
      eg_capability = dp_capability p\<rparr>"

section \<open>Submitting\<close>

definition mark_failed ::
  "crypto \<Rightarrow> dispatch_env \<Rightarrow> nat \<Rightarrow> ProviderOperationIntent \<Rightarrow> json option \<Rightarrow> (world, platform_error, unit) proc" where
  "mark_failed cx env k i r =
     step env k (run_txn (markFailedFinal cx (fst (nonces env)) (clk env k) (int_tenantId i) (int_id i) r))"

text \<open>Revalidation immediately before the call; both failures settle the intent first.\<close>

definition final_checks ::
  "crypto \<Rightarrow> dispatch_env \<Rightarrow> ProviderAdapter \<Rightarrow> DispatchProviderRequestParams \<Rightarrow> uuid \<Rightarrow> uuid option
     \<Rightarrow> ProviderOperationIntent \<Rightarrow> (world, platform_error, ProviderAuthorizationGrant) proc" where
  "final_checks cx env a p gid decision i =
     bind (step env 7 (reading id)) (\<lambda>grant_view.
     bind (step env 8 (reading (\<lambda>later. revalidate (clk env 8) gid (expected_of a p) later grant_view))) (\<lambda>rv.
     case rv of
       Inl reason \<Rightarrow> bind (mark_failed cx env 9 i None) (\<lambda>_. throw (ProviderRevalidationError reason))
     | Inr g \<Rightarrow>
         (case truthy decision of
            None \<Rightarrow> return g
          | Some d \<Rightarrow>
              bind (validate_step env 10 p d) (\<lambda>v.
                case v of
                  Inl reason \<Rightarrow> bind (mark_failed cx env 11 i None) (\<lambda>_. throw (PermissiblePurposeError reason))
                | Inr _ \<Rightarrow> return g))))"

definition log_submission ::
  "ProviderAdapter \<Rightarrow> ProviderOperationIntent \<Rightarrow> ProviderAuthorizationGrant \<Rightarrow> (world, platform_error, unit) proc" where
  "log_submission a i g w =
     (Inr (), w\<lparr>w_sent := w_sent w @
        [\<lparr>sub_intentId = int_id i, sub_tenantId = int_tenantId i, sub_providerId = ad_providerId a,
          sub_idempotencyKey = int_idempotencyKey i, sub_grant = g\<rparr>]\<rparr>)"

definition accept_finding ::
  "dispatch_env \<Rightarrow> ProviderAdapter \<Rightarrow> DispatchProviderRequestParams \<Rightarrow> ProviderAuthorizationGrant
     \<Rightarrow> SynchronousProviderReceipt \<Rightarrow> platform_error + json" where
  "accept_finding env a p g r =
     and_then (ad_normalize a (rcpt_payload r) (dispatch_context p)) (\<lambda>f.
     and_then (validateProviderFinding (clk env 13) (dp_capability p) f (rcpt_time r)) (\<lambda>f'.
       Inr (filterToPermittedFields f' (gr_permittedFields g))))"

text \<open>
  A rejection or a result that breaks the contract is final, anything else that is thrown
  before a receipt exists leaves the outcome unknown; an error of the bookkeeping itself
  replaces the one being handled.
\<close>

definition record_outcome ::
  "crypto \<Rightarrow> dispatch_env \<Rightarrow> ProviderAdapter \<Rightarrow> DispatchProviderRequestParams \<Rightarrow> ProviderOperationIntent
     \<Rightarrow> ProviderAuthorizationGrant \<Rightarrow> submit_result \<Rightarrow> (world, platform_error, json) proc" where
  "record_outcome cx env a p i g result =
     (case result of
        Rejected \<Rightarrow> bind (mark_failed cx env 14 i None) (\<lambda>_. throw SyntheticProviderRejectionError)
      | Failed msg \<Rightarrow>
          bind (step env 14 (run_txn (markOutcomeUnknown (clk env 14) (int_tenantId i) (int_id i))))
            (\<lambda>_. throw (ProviderFailure msg))
      | Completed r \<Rightarrow>
          catch
            (case accept_finding env a p g r of
               Inl e \<Rightarrow> throw e
             | Inr f \<Rightarrow>
                 bind (step env 14 (run_txn (markSucceeded cx (fst (nonces env)) (snd (nonces env)) (clk env 14)
                         (int_tenantId i) (int_id i) (receipt_json r) f))) (\<lambda>_. return f))
            (\<lambda>e.
               if e = SyntheticProviderRejectionError
               then bind (mark_failed cx env 15 i None) (\<lambda>_. throw e)
               else bind (mark_failed cx env 15 i (Some (receipt_json r))) (\<lambda>_. throw e)))"

definition submit_and_record ::
  "crypto \<Rightarrow> dispatch_env \<Rightarrow> ProviderAdapter \<Rightarrow> DispatchProviderRequestParams \<Rightarrow> ProviderOperationIntent
     \<Rightarrow> ProviderAuthorizationGrant \<Rightarrow> (world, platform_error, json) proc" where
  "submit_and_record cx env a p i g =
     bind (log_submission a i g) (\<lambda>_.
       record_outcome cx env a p i g (ad_submit a (dp_request p) i g (dispatch_context p)))"

section \<open>Dispatch\<close>

text \<open>A retry that finds its effect settled replays the stored finding or is blocked.\<close>

definition dispatch_prepared ::
  "crypto \<Rightarrow> dispatch_env \<Rightarrow> ProviderAdapter \<Rightarrow> DispatchProviderRequestParams \<Rightarrow> uuid \<Rightarrow> uuid option
     \<Rightarrow> ProviderOperationIntent \<Rightarrow> (world, platform_error, json) proc" where
  "dispatch_prepared cx env a p gid decision i =
     (if int_state i = SUCCEEDED
      then (case int_normalizedFinding i of
              None \<Rightarrow> throw (ProviderIntentReplayBlockedError (int_logicalOperationKey i))
            | Some f \<Rightarrow> return f)
      else if int_state i \<noteq> PREPARED
      then throw (ProviderIntentReplayBlockedError (int_logicalOperationKey i))
      else
        bind (final_checks cx env a p gid decision i) (\<lambda>g.
        bind (step env 12 (run_txn (markDispatched (clk env 12) (int_tenantId i) (int_id i)))) (\<lambda>_.
          submit_and_record cx env a p i g)))"

definition dispatch_authorized ::
  "crypto \<Rightarrow> dispatch_env \<Rightarrow> ProviderAdapter \<Rightarrow> DispatchProviderRequestParams \<Rightarrow> ConsentRecord \<Rightarrow> uuid option
     \<Rightarrow> (world, platform_error, json) proc" where
  "dispatch_authorized cx env a p consent decision =
     bind (step env 5 (run_txn (issue (clk env 5) (id_grant env) (issue_input a p consent decision)))) (\<lambda>grant.
     bind (step env 6 (prepare cx (stale_read env)
             \<lparr>fresh_id = id_intent env, fresh_idempotencyKey = id_idempotency env, fresh_now = clk env 6\<rparr>
             (prepare_input a p (gr_id grant)))) (\<lambda>i.
       dispatch_prepared cx env a p (gr_id grant) decision i))"

definition dispatchProviderRequest ::
  "crypto \<Rightarrow> registry \<Rightarrow> dispatch_env \<Rightarrow> DispatchProviderRequestParams \<Rightarrow> (world, platform_error, json) proc" where
  "dispatchProviderRequest cx reg env p =
     (case resolve_adapter reg (dp_capability p) (mode_of p) of
        Inl e \<Rightarrow> throw e
      | Inr a \<Rightarrow>
          (case assertNotStructurallyExcluded ''provider_adapter''
                  (tuple_name (ad_providerId a) (dp_capability p) (mode_of p)) (ad_excludedCommandClass a) of
             Inl e \<Rightarrow> throw e
           | Inr _ \<Rightarrow>
               bind (check_gates env a p) (\<lambda>consent.
               bind (purpose_authority env p) (\<lambda>decision.
                 dispatch_authorized cx env a p consent decision))))"

end
