(* ===== verification/Provider_System.thy ===== *)
theory Provider_System
  imports Provider_Dispatch Account_Book
begin

text \<open>
  The provider platform as a system of operations. \<open>platform_op\<close> lists every operation of
  \<open>Provider_Intents\<close>, \<open>Consent_Disposition\<close>, \<open>Provider_Authorization\<close> and
  \<open>Provider_Governance\<close> that changes a table; \<open>platform_exec\<close> runs one, and whatever it
  throws, the state it leaves is kept. The interpretation \<open>ps\<close> shows that all of them keep
  the keys of the tables unique and only move rows forward: an intent up its ladder, a
  consent from granted to revoked, a review from pending to verified, a hold from active
  to released.
\<close>

section \<open>Operations\<close>

datatype platform_op =
    Op_prepare crypto bool fresh_row PrepareIntentInput
  | Op_markDispatched timestamp uuid uuid
  | Op_markSucceeded crypto string string timestamp uuid uuid json json
  | Op_markFailedFinal crypto string timestamp uuid uuid "json option"
  | Op_markOutcomeUnknown timestamp uuid uuid
  | Op_markReconciling timestamp uuid uuid
  | Op_resolveManually timestamp uuid uuid manual_outcome string string
  | Op_rotate crypto timestamp "nat \<Rightarrow> string \<times> string"
  | Op_reconcile timestamp int
  | Op_grantConsent timestamp uuid uuid uuid string string
  | Op_revokeConsent timestamp uuid uuid uuid "string option"
  | Op_placeHold bool bool uuid uuid uuid string string
  | Op_releaseHold bool timestamp uuid uuid string
  | Op_resolveTask bool timestamp int uuid uuid DataDispositionResolutionAction string "string option"
  | Op_verifyExpiry bool timestamp uuid uuid string string
  | Op_issue timestamp uuid IssueGrantInput
  | Op_revokeGrant timestamp uuid uuid
  | Op_issueSynthetic timestamp uuid PermissiblePurposeContext
  | Op_disable uuid string ProviderCapability ProviderMode string string
  | Op_enable uuid string ProviderCapability ProviderMode string
  | Op_propose crypto bool timestamp uuid ProposeManifestInput
  | Op_certify bool timestamp uuid uuid string string ProviderCertificationDecision string "timestamp option"
  | Op_approve bool timestamp uuid uuid string string ProviderApprovalDecision "timestamp option"
  | Op_activateSave bool uuid string string "ProviderPromotionManifest \<times> ProviderActivation option"
  | Op_deactivate bool string ProviderCapability ProviderMode string

definition effect :: "('e + 'a) \<times> 's \<Rightarrow> ('e + unit) \<times> 's" where
  "effect x = (case fst x of Inl e \<Rightarrow> Inl e | Inr _ \<Rightarrow> Inr (), snd x)"

fun platform_exec :: "platform_op \<Rightarrow> platform_db \<Rightarrow> (platform_error + unit) \<times> platform_db" where
  "platform_exec (Op_prepare cx stale fr p) db = effect (prepare cx stale fr p db)"
| "platform_exec (Op_markDispatched now t i) db = effect (run_txn (markDispatched now t i) db)"
| "platform_exec (Op_markSucceeded cx a b now t i r f) db = effect (run_txn (markSucceeded cx a b now t i r f) db)"
| "platform_exec (Op_markFailedFinal cx a now t i r) db = effect (run_txn (markFailedFinal cx a now t i r) db)"
| "platform_exec (Op_markOutcomeUnknown now t i) db = effect (run_txn (markOutcomeUnknown now t i) db)"
| "platform_exec (Op_markReconciling now t i) db = effect (run_txn (markReconciling now t i) db)"
| "platform_exec (Op_resolveManually now t i out w n) db = effect (run_txn (resolveManually now t i out w n) db)"
| "platform_exec (Op_rotate cx now ivs) db = effect (run_txn (rotateSensitivePayloadEncryption cx now ivs) db)"
| "platform_exec (Op_reconcile now ms) db = (Inr (), snd (reconcilePendingIntents now ms db))"
| "platform_exec (Op_grantConsent now i t c p s) db = effect (run_txn (grantForCase now i t c p s) db)"
| "platform_exec (Op_revokeConsent now i t c r) db = effect (run_txn (revoke_consent now i t c r) db)"
| "platform_exec (Op_placeHold ok stale i t c r w) db = effect (place_hold ok stale i t c r w db)"
| "platform_exec (Op_releaseHold ok now t i w) db = effect (release_hold ok now t i w db)"
| "platform_exec (Op_resolveTask ok now h t i act w c) db = effect (resolve_task ok now h t i act w c db)"
| "platform_exec (Op_verifyExpiry ok now t i w r) db = effect (verifyBackupExpiry ok now t i w r db)"
| "platform_exec (Op_issue now i inp) db = effect (run_txn (issue now i inp) db)"
| "platform_exec (Op_revokeGrant now t i) db = (Inr (), revoke_grant now t i db)"
| "platform_exec (Op_issueSynthetic now i c) db = effect (run_txn (issueSynthetic now i c) db)"
| "platform_exec (Op_disable i p c m r w) db = effect (run_txn (disable i p c m r w) db)"
| "platform_exec (Op_enable i p c m w) db = effect (run_txn (enable i p c m w) db)"
| "platform_exec (Op_propose cx ok now i inp) db = effect (propose cx ok now i inp db)"
| "platform_exec (Op_certify ok now i m env w d e x) db = effect (certify ok now i m env w d e x db)"
| "platform_exec (Op_approve ok now i m r w d x) db = effect (approve_manifest ok now i m r w d x db)"
| "platform_exec (Op_activateSave ok i env w ch) db = effect (activate_save ok i env w ch db)"
| "platform_exec (Op_deactivate ok p c m w) db = effect (deactivate ok p c m w db)"

section \<open>Moving forward\<close>

fun ladder :: "ProviderOperationIntentStatus \<Rightarrow> nat" where
  "ladder PREPARED = 0"
| "ladder DISPATCHED = 1"
| "ladder OUTCOME_UNKNOWN = 2"
| "ladder RECONCILING = 3"
| "ladder SUCCEEDED = 4"
| "ladder FAILED_FINAL = 4"
| "ladder CANCELLED = 4"

definition intent_identity ::
  "ProviderOperationIntent \<Rightarrow> uuid \<times> uuid \<times> uuid \<times> string \<times> ProviderCapability \<times> ProviderEffectClass
     \<times> string \<times> string \<times> string" where
  "intent_identity i =
     (int_id i, int_tenantId i, int_caseId i, int_providerId i, int_capability i, int_effectClass i,
      int_requestFingerprint i, int_idempotencyKey i, int_logicalOperationKey i)"

definition effect_key :: "ProviderOperationIntent \<Rightarrow> uuid \<times> string \<times> ProviderCapability \<times> string" where
  "effect_key i = (int_tenantId i, int_providerId i, int_capability i, int_logicalOperationKey i)"

definition intent_advance :: "ProviderOperationIntent \<Rightarrow> ProviderOperationIntent \<Rightarrow> bool" where
  "intent_advance i j \<longleftrightarrow>
     intent_identity j = intent_identity i
     \<and> (int_state j = int_state i \<or> ladder (int_state i) < ladder (int_state j))
     \<and> (ladder (int_state i) = 4 \<longrightarrow>
          (int_providerReceipt i = None \<longrightarrow> int_providerReceipt j = None)
          \<and> (int_normalizedFinding i = None \<longrightarrow> int_normalizedFinding j = None))"

definition consent_advance :: "ConsentRecord \<Rightarrow> ConsentRecord \<Rightarrow> bool" where
  "consent_advance c d \<longleftrightarrow>
     d = c \<or> con_revokedAt c = None \<and> (\<exists>t r. d = c\<lparr>con_revokedAt := Some t, con_revocationReason := r\<rparr>)"

fun task_rank :: "DataDispositionTaskStatus \<Rightarrow> nat" where
  "task_rank TASK_PENDING = 0"
| "task_rank TASK_IN_PROGRESS = 1"
| "task_rank TASK_COMPLETED = 2"
| "task_rank TASK_VERIFIED = 3"

definition task_advance :: "DataDispositionTask \<Rightarrow> DataDispositionTask \<Rightarrow> bool" where
  "task_advance t u \<longleftrightarrow>
     u = t \<or> task_id u = task_id t \<and> task_tenantId u = task_tenantId t \<and> task_caseId u = task_caseId t
       \<and> task_rank (task_status t) < task_rank (task_status u)"

definition hold_advance :: "LegalHold \<Rightarrow> LegalHold \<Rightarrow> bool" where
  "hold_advance h k \<longleftrightarrow> k = h \<or> hold_status h = HOLD_ACTIVE \<and> hold_status k = HOLD_RELEASED
     \<and> hold_id k = hold_id h \<and> hold_tenantId k = hold_tenantId h \<and> hold_caseId k = hold_caseId h"

definition grant_advance :: "ProviderAuthorizationGrant \<Rightarrow> ProviderAuthorizationGrant \<Rightarrow> bool" where
  "grant_advance g h \<longleftrightarrow> h = g \<or> (\<exists>t. h = g\<lparr>gr_revokedAt := Some t\<rparr>)"

definition platform_inv :: "platform_db \<Rightarrow> bool" where
  "platform_inv db \<longleftrightarrow>
     distinct (map int_id (intents db)) \<and> distinct (map effect_key (intents db))
     \<and> distinct (map con_id (consents db)) \<and> distinct (map task_id (tasks db))
     \<and> distinct (map hold_id (holds db)) \<and> distinct (map gr_id (grants db))"

definition platform_le :: "platform_db \<Rightarrow> platform_db \<Rightarrow> bool" where
  "platform_le db db' \<longleftrightarrow>
     grows intent_advance (intents db) (intents db') \<and> grows consent_advance (consents db) (consents db')
     \<and> grows task_advance (tasks db) (tasks db') \<and> grows hold_advance (holds db) (holds db')
     \<and> grows grant_advance (grants db) (grants db')"

lemma intent_advance_refl [simp]: "intent_advance i i"
  by (simp add: intent_advance_def)

lemma ladder_le_4: "ladder s \<le> 4"
  by (cases s) auto

lemma intent_advance_trans: "intent_advance i j \<Longrightarrow> intent_advance j k \<Longrightarrow> intent_advance i k"
  unfolding intent_advance_def using ladder_le_4 [of "int_state j"] ladder_le_4 [of "int_state k"] by auto

lemma consent_advance_refl [simp]: "consent_advance c c"
  by (simp add: consent_advance_def)

lemma consent_advance_trans: "consent_advance c d \<Longrightarrow> consent_advance d e \<Longrightarrow> consent_advance c e"
  by (auto simp: consent_advance_def)

lemma task_advance_refl [simp]: "task_advance t t"
  by (simp add: task_advance_def)

lemma task_advance_trans: "task_advance t u \<Longrightarrow> task_advance u v \<Longrightarrow> task_advance t v"
  by (auto simp: task_advance_def)

lemma hold_advance_refl [simp]: "hold_advance h h"
  by (simp add: hold_advance_def)

lemma hold_advance_trans: "hold_advance h k \<Longrightarrow> hold_advance k l \<Longrightarrow> hold_advance h l"
  by (auto simp: hold_advance_def)

lemma grant_advance_refl [simp]: "grant_advance g g"
  by (simp add: grant_advance_def)

lemma grant_advance_trans: "grant_advance g h \<Longrightarrow> grant_advance h k \<Longrightarrow> grant_advance g k"
  by (auto simp: grant_advance_def)

lemma platform_le_refl: "platform_le db db"
  by (simp add: platform_le_def grows_refl)

lemma platform_le_trans: "platform_le a b \<Longrightarrow> platform_le b c \<Longrightarrow> platform_le a c"
  unfolding platform_le_def
  by (meson grows_trans transpI intent_advance_trans consent_advance_trans task_advance_trans
      hold_advance_trans grant_advance_trans)

text \<open>A step that, from unique keys, keeps them unique and moves forward.\<close>

definition forward :: "platform_db \<Rightarrow> platform_db \<Rightarrow> bool" where
  "forward db db' \<longleftrightarrow> (platform_inv db \<longrightarrow> platform_le db db' \<and> platform_inv db')"

lemma forward_refl [simp]: "forward db db"
  by (simp add: forward_def platform_le_refl)

lemma forward_trans: "forward a b \<Longrightarrow> forward b c \<Longrightarrow> forward a c"
  unfolding forward_def using platform_le_trans by blast

lemma forward_same:
  assumes "intents db' = intents db" "consents db' = consents db" "tasks db' = tasks db" "holds db' = holds db"
    and "grants db' = grants db"
  shows "forward db db'"
  using assms by (simp add: forward_def platform_le_def platform_inv_def grows_refl)

lemma forward_audit: "forward db db' \<Longrightarrow> forward db (record_audit ok e db')"
  by (rule forward_trans, assumption, rule forward_same) (simp_all add: record_audit_def)

section \<open>Intents move forward\<close>

lemma forward_intents:
  assumes "\<And>i. i \<in> set (intents db) \<Longrightarrow> P i \<Longrightarrow> intent_advance i (f i)"
    and "\<And>i. intent_identity (f i) = intent_identity i"
  shows "forward db (db\<lparr>intents := update_where P f (intents db)\<rparr>)"
proof -
  have "int_id (f i) = int_id i" "effect_key (f i) = effect_key i" for i
    using assms(2) [of i] by (auto simp: intent_identity_def effect_key_def)
  then show ?thesis
    using assms(1)
    by (auto simp: forward_def platform_le_def platform_inv_def grows_refl map_update_where
        intro!: grows_update_where)
qed

lemma intent_identity_update [simp]:
  "intent_identity (i\<lparr>int_state := s\<rparr>) = intent_identity i"
  "intent_identity (i\<lparr>int_updatedAt := t\<rparr>) = intent_identity i"
  "intent_identity (i\<lparr>int_providerReceipt := r\<rparr>) = intent_identity i"
  "intent_identity (i\<lparr>int_normalizedFinding := f\<rparr>) = intent_identity i"
  "intent_identity (i\<lparr>int_authorizationGrantId := g\<rparr>) = intent_identity i"
  "intent_identity (i\<lparr>int_resolvedBy := w\<rparr>) = intent_identity i"
  "intent_identity (i\<lparr>int_resolutionNote := n\<rparr>) = intent_identity i"
  by (simp_all add: intent_identity_def)

lemma intent_climb:
  "intent_identity j = intent_identity i \<Longrightarrow> ladder (int_state i) < ladder (int_state j) \<Longrightarrow> intent_advance i j"
  using ladder_le_4 [of "int_state j"] by (auto simp: intent_advance_def)

lemma forward_transition:
  assumes "transition now tenant iid froms st f db = Inr (u, db')"
    and "\<And>s. s \<in> set froms \<Longrightarrow> ladder s < ladder st"
    and "\<And>i. intent_identity (f i) = intent_identity i" "\<And>i. int_state (f i) = int_state i"
  shows "forward db db'"
proof -
  have "db' = db\<lparr>intents := update_where
      (\<lambda>i. int_id i = iid \<and> int_tenantId i = tenant \<and> int_state i \<in> set froms)
      (\<lambda>i. f (i\<lparr>int_state := st, int_updatedAt := now\<rparr>)) (intents db)\<rparr>"
    using assms(1) by (auto simp: transition_def Let_def split: if_splits)
  then show ?thesis
    using assms(2-4) by (auto intro!: forward_intents intent_climb)
qed

lemmas mark_defs = markDispatched_def markSucceeded_def markFailedFinal_def markOutcomeUnknown_def
  markReconciling_def

lemma forward_marks:
  "markDispatched now t i db = Inr (u, db') \<Longrightarrow> forward db db'"
  "markSucceeded cx a b now t i r f db = Inr (u, db') \<Longrightarrow> forward db db'"
  "markFailedFinal cx a now t i ro db = Inr (u, db') \<Longrightarrow> forward db db'"
  "markOutcomeUnknown now t i db = Inr (u, db') \<Longrightarrow> forward db db'"
  "markReconciling now t i db = Inr (u, db') \<Longrightarrow> forward db db'"
  by (auto simp: mark_defs result_simps split: option.splits elim!: forward_transition)

lemma forward_resolveManually:
  assumes "resolveManually now t i out w n db = Inr (r, db')"
  shows "forward db db'"
proof -
  let ?f = "\<lambda>i. i\<lparr>int_state := outcome_state out, int_resolvedBy := Some w,
      int_resolutionNote := Some n, int_updatedAt := now\<rparr>"
  have "db' = db\<lparr>intents := update_where (\<lambda>x. int_id x = i \<and> int_tenantId x = t
      \<and> int_state x \<in> {OUTCOME_UNKNOWN, RECONCILING}) ?f (intents db)\<rparr>"
    using assms by (auto simp: resolveManually_def Let_def result_simps split: if_splits)
  moreover have "ladder (outcome_state out) = 4" by (cases out) auto
  ultimately show ?thesis by (auto intro!: forward_intents intent_climb)
qed

lemma forward_insert_intent:
  assumes "insert_intent i db = Inr db'"
  shows "forward db db'"
proof -
  from assms have db': "db' = db\<lparr>intents := intents db @ [i]\<rparr>"
    and new: "\<And>x. x \<in> set (intents db) \<Longrightarrow> int_id x \<noteq> int_id i \<and> effect_key x \<noteq> effect_key i"
    by (auto simp: insert_intent_def effect_key_def split: if_splits)
  from new have "int_id i \<notin> int_id ` set (intents db)" "effect_key i \<notin> effect_key ` set (intents db)"
    by (metis imageE)+
  then show ?thesis
    by (auto simp: db' forward_def platform_le_def platform_inv_def grows_refl intro!: grows_append)
qed

lemma forward_prepare_txn:
  assumes "prepare_txn cx stale fr p db = Inr (i, db')"
  shows "forward db db'"
  using assms
  by (auto simp: prepare_txn_def reuse_intent_def intent_advance_def
      split: option.splits sum.splits if_splits intro!: forward_intents dest!: forward_insert_intent)

lemma reseal_None: "reseal cx iv aad p = Inr q \<Longrightarrow> p = None \<Longrightarrow> q = None"
  by (simp add: reseal_def)

lemma rotate_row_keeps:
  assumes "rotate_row cx now ivs i = Inr j"
  shows "intent_identity j = intent_identity i" "intent_advance i j"
  using assms by (auto simp: rotate_row_def result_simps intent_advance_def dest!: reseal_None split: if_splits)

lemma rotate_rows_keep:
  "rotate_rows cx now ivs n is = Inr js \<Longrightarrow>
   map intent_identity js = map intent_identity is \<and> grows intent_advance is js"
proof (induction "is" arbitrary: n js)
  case (Cons i "is")
  then obtain j js' where j: "rotate_row cx now (ivs n) i = Inr j"
      "rotate_rows cx now ivs (Suc n) is = Inr js'" "js = j # js'"
    by (auto simp: result_simps)
  with Cons.IH [OF j(2)] rotate_row_keeps [OF j(1)] show ?case by (auto simp: grows_def)
qed (simp add: grows_def)

lemma forward_rotate:
  assumes "rotateSensitivePayloadEncryption cx now ivs db = Inr (n, db')"
  shows "forward db db'"
proof -
  from assms obtain js where js: "rotate_rows cx now ivs 0 (intents db) = Inr js" "db' = db\<lparr>intents := js\<rparr>"
    by (auto simp: rotateSensitivePayloadEncryption_def result_simps)
  have same: "map intent_identity js = map intent_identity (intents db)"
    using rotate_rows_keep [OF js(1)] by simp
  have "map int_id js = map fst (map intent_identity js)"
    "map effect_key js = map (\<lambda>(i, t, c, p, cap, e, f, k, l). (t, p, cap, l)) (map intent_identity js)" for js
    by (simp_all add: intent_identity_def effect_key_def)
  with same have "map int_id js = map int_id (intents db)" "map effect_key js = map effect_key (intents db)"
    by (metis, metis)
  then show ?thesis
    using rotate_rows_keep [OF js(1)] js(2)
    by (auto simp: forward_def platform_le_def platform_inv_def grows_refl)
qed

lemma forward_move_each: "forward db (snd (move_each now xs n db))"
proof (induction xs arbitrary: n db)
  case (Cons x xs)
  obtain tenant iid where x: "x = (tenant, iid)" by (cases x)
  show ?case
  proof (cases "markReconciling now tenant iid db")
    case (Inr r)
    obtain u db' where r: "r = (u, db')" by (cases r)
    with Inr have "forward db db'" by (auto intro: forward_marks(5))
    with Inr r Cons.IH [of db' "Suc n"] show ?thesis by (auto simp: x elim: forward_trans)
  qed (use Cons.IH x in simp)
qed simp

lemma forward_reconcile: "forward db (snd (reconcilePendingIntents now ms db))"
  using forward_move_each by (auto simp: reconcilePendingIntents_def Let_def split: prod.splits) (metis snd_conv)

section \<open>Consents, reviews and holds move forward\<close>

lemma same_row: "distinct (map k t) \<Longrightarrow> r \<in> set t \<Longrightarrow> s \<in> set t \<Longrightarrow> k r = k s \<Longrightarrow> r = s"
  by (auto simp: distinct_map inj_on_def)

lemma forward_grantForCase:
  assumes "grantForCase now newId t c p s db = Inr (r, db')"
  shows "forward db db'"
  using assms
  by (auto simp: grantForCase_def Let_def forward_def platform_le_def platform_inv_def grows_refl
      intro!: grows_append split: if_splits)

lemma forward_open_review:
  assumes "openRetentionReviewForRevokedConsent now newId t c k db = Inr (r, db')"
  shows "forward db db'"
  using assms
  by (auto simp: openRetentionReviewForRevokedConsent_def Let_def forward_def platform_le_def platform_inv_def
      grows_refl intro!: grows_append split: if_splits)

lemma active_record_SomeD:
  assumes "active_record t c db = Some r"
  shows "r \<in> set (consents db)" "con_tenantId r = t" "con_caseId r = c" "con_revokedAt r = None"
  using latest_by_SomeD [OF assms [unfolded active_record_def]] by auto

lemma forward_revoke_row:
  assumes "active_record t c db = Some a"
  shows "forward db (db\<lparr>consents := update_where (\<lambda>r. con_id r = con_id a)
    (\<lambda>r. r\<lparr>con_revokedAt := Some now, con_revocationReason := reason\<rparr>) (consents db)\<rparr>)"
  unfolding forward_def
proof
  assume inv: "platform_inv db"
  have "r = a" if "r \<in> set (consents db)" "con_id r = con_id a" for r
    using same_row [of con_id "consents db" r a] that inv active_record_SomeD [OF assms]
    by (simp add: platform_inv_def)
  then have "grows consent_advance (consents db) (update_where (\<lambda>r. con_id r = con_id a)
      (\<lambda>r. r\<lparr>con_revokedAt := Some now, con_revocationReason := reason\<rparr>) (consents db))"
    using active_record_SomeD(4) [OF assms]
    by (intro grows_update_where) (auto simp: consent_advance_def)
  with inv show "platform_le db (db\<lparr>consents := update_where (\<lambda>r. con_id r = con_id a)
      (\<lambda>r. r\<lparr>con_revokedAt := Some now, con_revocationReason := reason\<rparr>) (consents db)\<rparr>)
    \<and> platform_inv (db\<lparr>consents := update_where (\<lambda>r. con_id r = con_id a)
      (\<lambda>r. r\<lparr>con_revokedAt := Some now, con_revocationReason := reason\<rparr>) (consents db)\<rparr>)"
    by (simp add: platform_le_def platform_inv_def grows_refl map_update_where)
qed

lemma forward_revoke_consent:
  assumes "revoke_consent now newTask t c reason db = Inr (r, db')"
  shows "forward db db'"
proof -
  from assms obtain a x where a: "active_record t c db = Some a"
    "openRetentionReviewForRevokedConsent now newTask t c (con_id a)
       (db\<lparr>consents := update_where (\<lambda>r. con_id r = con_id a)
         (\<lambda>r. r\<lparr>con_revokedAt := Some now, con_revocationReason := reason\<rparr>) (consents db)\<rparr>) = Inr (x, db')"
    by (auto simp: revoke_consent_def Let_def result_simps)
  then show ?thesis by (blast intro: forward_trans forward_revoke_row forward_open_review)
qed

lemma forward_place_txn:
  assumes "place_txn stale newId t c reason owner db = Inr (h, db')"
  shows "forward db db'"
  using assms
  by (auto simp: place_txn_def Let_def forward_def platform_le_def platform_inv_def grows_refl
      intro!: grows_append split: if_splits option.splits)

lemma forward_release_txn:
  assumes "release_txn now t hid w db = Inr (h, db')"
  shows "forward db db'"
  unfolding forward_def
proof
  assume inv: "platform_inv db"
  let ?P = "\<lambda>x. hold_id x = hid \<and> hold_tenantId x = t"
  let ?f = "\<lambda>x. x\<lparr>hold_status := HOLD_RELEASED, hold_releasedAt := Some now, hold_releasedBy := Some w\<rparr>"
  from assms obtain k where k: "List.find ?P (holds db) = Some k" "hold_status k \<noteq> HOLD_RELEASED"
      "db' = db\<lparr>holds := update_where ?P ?f (holds db)\<rparr>"
    by (auto simp: release_txn_def Let_def result_simps)
  have "r = k" if "r \<in> set (holds db)" "?P r" for r
    using same_row [of hold_id "holds db" r k] that inv find_SomeD [OF k(1)] by (simp add: platform_inv_def)
  moreover have "hold_status k = HOLD_ACTIVE" using k(2) by (cases "hold_status k") auto
  ultimately have "grows hold_advance (holds db) (update_where ?P ?f (holds db))"
    by (intro grows_update_where) (auto simp: hold_advance_def)
  with inv k(3) show "platform_le db db' \<and> platform_inv db'"
    by (simp add: platform_le_def platform_inv_def grows_refl map_update_where)
qed

lemma forward_tasks:
  assumes "find_task t tid db = Some k" "task_rank (task_status k) < task_rank (task_status (f k))"
    and "\<And>x. task_id (f x) = task_id x" "\<And>x. task_tenantId (f x) = task_tenantId x"
    and "\<And>x. task_caseId (f x) = task_caseId x"
    and "\<And>x. P x \<Longrightarrow> task_id x = tid"
  shows "forward db (db\<lparr>tasks := update_where P f (tasks db)\<rparr>)"
  unfolding forward_def
proof
  assume inv: "platform_inv db"
  have k: "k \<in> set (tasks db)" "task_id k = tid"
    using find_SomeD [OF assms(1) [unfolded find_task_def]] by auto
  have "r = k" if "r \<in> set (tasks db)" "P r" for r
    using same_row [of task_id "tasks db" r k] that inv k assms(6) by (simp add: platform_inv_def)
  then have "grows task_advance (tasks db) (update_where P f (tasks db))"
    using assms(2-5) by (intro grows_update_where) (auto simp: task_advance_def)
  with inv assms(3) show "platform_le db (db\<lparr>tasks := update_where P f (tasks db)\<rparr>)
      \<and> platform_inv (db\<lparr>tasks := update_where P f (tasks db)\<rparr>)"
    by (simp add: platform_le_def platform_inv_def grows_refl map_update_where)
qed

lemma forward_verify_txn:
  assumes "verify_txn now t tid ref db = Inr (r, db')"
  shows "forward db db'"
  using assms
  by (auto simp: verify_txn_def Let_def result_simps split: option.splits intro!: forward_tasks)

lemma forward_cancel_prepared: "forward db (cancel_prepared now t iids w db)"
  unfolding cancel_prepared_def by (rule forward_intents) (auto intro!: intent_climb)

lemma forward_clear_payloads: "forward db (clear_payloads now t iids db)"
  unfolding clear_payloads_def by (rule forward_intents) (auto simp: intent_advance_def)

lemma forward_dispose: "forward db (dispose_evidence act t eids db)"
  by (rule forward_same) (auto simp: dispose_evidence_def split: DataDispositionResolutionAction.splits)

lemma tasks_untouched [simp]:
  "find_task t tid (cancel_prepared now t' iids w db) = find_task t tid db"
  "find_task t tid (clear_payloads now t' iids db) = find_task t tid db"
  "find_task t tid (dispose_evidence act t' eids db) = find_task t tid db"
  by (auto simp: find_task_def cancel_prepared_def clear_payloads_def dispose_evidence_def
      split: DataDispositionResolutionAction.splits)

lemma forward_close_task:
  assumes "find_task t tid db = Some k" "task_status k = TASK_PENDING"
  shows "forward db (close_task now h t tid act w db)"
  unfolding close_task_def by (rule forward_tasks [OF assms(1)]) (auto simp: assms(2))

lemma resolve_txn_steps:
  assumes "resolve_txn now h t tid act w view db = Inr (r, db')"
  obtains k where "find_task t tid db = Some k" "task_status k = TASK_PENDING"
    "act = RETAIN \<longleftrightarrow> hasActiveHold t (task_caseId k) view"
    "act = RETAIN \<Longrightarrow> db' = close_task now h t tid act w db"
    "act \<noteq> RETAIN \<Longrightarrow> db' = close_task now h t tid act w
       (clear_payloads now t (task_affectedProviderIntentIds k)
         (dispose_evidence act t (task_affectedEvidenceFactIds k)
           (cancel_prepared now t (task_affectedProviderIntentIds k) w db)))"
    "act \<noteq> RETAIN \<Longrightarrow> \<forall>i \<in> set (intents db). int_tenantId i = t
       \<longrightarrow> int_id i \<in> set (task_affectedProviderIntentIds k) \<longrightarrow> \<not> unsettled i"
  using assms
  by (auto simp: resolve_txn_def Let_def result_simps dispose_evidence_def filter_empty_conv
      split: if_splits)

lemma forward_resolve_txn:
  assumes "resolve_txn now h t tid act w view db = Inr (r, db')"
  shows "forward db db'"
  using assms
proof (rule resolve_txn_steps)
  fix k
  assume k: "find_task t tid db = Some k" "task_status k = TASK_PENDING"
    and r: "act = RETAIN \<Longrightarrow> db' = close_task now h t tid act w db"
      "act \<noteq> RETAIN \<Longrightarrow> db' = close_task now h t tid act w
       (clear_payloads now t (task_affectedProviderIntentIds k)
         (dispose_evidence act t (task_affectedEvidenceFactIds k)
           (cancel_prepared now t (task_affectedProviderIntentIds k) w db)))"
  show ?thesis
  proof (cases "act = RETAIN")
    case True
    then show ?thesis using r forward_close_task [OF k] by simp
  next
    case False
    have "forward db (clear_payloads now t (task_affectedProviderIntentIds k)
         (dispose_evidence act t (task_affectedEvidenceFactIds k)
           (cancel_prepared now t (task_affectedProviderIntentIds k) w db)))"
      by (blast intro: forward_trans forward_cancel_prepared forward_dispose forward_clear_payloads)
    then show ?thesis
      using r(2) [OF False] k by (metis forward_trans forward_close_task tasks_untouched)
  qed
qed

section \<open>The system\<close>

lemma effect_snd [simp]: "snd (effect x) = snd x"
  by (simp add: effect_def)

lemma effect_Inr_iff: "effect x = (Inr u, s) \<longleftrightarrow> (\<exists>a. x = (Inr a, s))"
  by (cases x) (auto simp: effect_def split: sum.splits)

lemma forward_run_txn:
  "(\<And>a db'. t db = Inr (a, db') \<Longrightarrow> forward db db') \<Longrightarrow> forward db (snd (run_txn t db))"
  by (auto simp: run_txn_def split: sum.splits)

lemma forward_bind:
  assumes "forward db (snd (m db))" "\<And>a db'. forward db' (snd (f a db'))"
  shows "forward db (snd (bind m f db))"
  using assms by (auto simp: bind_def split: prod.splits sum.splits elim!: forward_trans)

lemma forward_governance:
  "forward db (snd (run_txn (disable i p c m r w) db))" "forward db (snd (run_txn (enable i p c m w) db))"
  "forward db (snd (propose cx ok now i inp db))"
  "forward db (snd (certify ok now i mid env w dc e x db))"
  "forward db (snd (approve_manifest ok now i mid role w da x db))"
  "forward db (snd (activate_save ok i env w ch db))"
  "forward db (snd (deactivate ok p c m w db))"
  by (rule forward_same; simp add: disable_def enable_def upsert_status_def propose_def certify_def
      approve_manifest_def activate_save_def deactivate_def record_audit_def run_txn_def Let_def
      split: option.splits sum.splits prod.splits)+

lemma forward_issue:
  assumes "issue now i inp db = Inr (g, db')"
  shows "forward db db'"
  using assms
  by (auto simp: issue_def Let_def forward_def platform_le_def platform_inv_def grows_refl
      intro!: grows_append split: if_splits)

lemma forward_revoke_grant: "forward db (revoke_grant now t i db)"
  by (auto simp: revoke_grant_def forward_def platform_le_def platform_inv_def grows_refl grant_advance_def
      map_update_where intro!: grows_update_where)

lemma forward_issueSynthetic: "issueSynthetic now i c db = Inr (d, db') \<Longrightarrow> forward db db'"
  by (rule forward_same) (auto simp: issueSynthetic_def Let_def split: if_splits)

lemma forward_prepare: "forward db (snd (prepare cx stale fr p db))"
  unfolding prepare_def
  by (rule forward_bind) (auto intro: forward_run_txn forward_prepare_txn)

lemma forward_place_hold: "forward db (snd (place_hold ok stale i t c r w db))"
  unfolding place_hold_def
  by (rule forward_bind) (auto intro: forward_run_txn forward_place_txn forward_audit)

lemma forward_release_hold: "forward db (snd (release_hold ok now t i w db))"
  unfolding release_hold_def
  by (rule forward_bind) (auto intro: forward_run_txn forward_release_txn forward_audit)

lemma forward_resolve_task: "forward db (snd (resolve_task ok now h t i act w c db))"
  unfolding resolve_task_def
  by (rule forward_bind) (auto intro: forward_run_txn forward_resolve_txn forward_audit)

lemma forward_verify: "forward db (snd (verifyBackupExpiry ok now t i w r db))"
  unfolding verifyBackupExpiry_def
  by (auto intro!: forward_bind forward_audit intro: forward_run_txn forward_verify_txn)

lemma platform_exec_forward: "forward db (snd (platform_exec x db))"
  by (cases x)
    (auto intro!: forward_governance
      intro: forward_run_txn forward_prepare forward_reconcile forward_place_hold forward_release_hold
      forward_resolve_task forward_verify forward_revoke_grant
      elim: forward_marks forward_resolveManually forward_rotate forward_grantForCase forward_revoke_consent
        forward_issue forward_issueSynthetic)

interpretation ps: progress_system platform_exec platform_inv platform_le
  using platform_exec_forward platform_le_refl platform_le_trans
  by unfold_locales (auto simp: forward_def)

lemma empty_platform_inv: "platform_inv empty_platform"
  by (simp add: platform_inv_def empty_platform_def)

end
