(* ===== verification/Dispatch_Safety.thy ===== *)
theory Dispatch_Safety
  imports Provider_System
begin

text \<open>
  What a dispatch may do to the world. \<open>interleaved env\<close> says that everything the other
  requests commit between its steps is a sequence of platform operations. Then the whole
  dispatch is one too (\<open>dispatch_reaches\<close>), and a submission is made only at the end of
  the full chain of checks (\<open>submission_chain\<close>).
\<close>

section \<open>Sequences of operations\<close>

definition reach :: "platform_db \<Rightarrow> platform_db \<Rightarrow> bool" where
  "reach db db' \<longleftrightarrow> (\<exists>xs. db' = run_ops platform_exec xs db)"

definition interleaved :: "dispatch_env \<Rightarrow> bool" where
  "interleaved env \<longleftrightarrow> (\<forall>k db. reach db (others env k db))"

lemma run_ops_append: "run_ops e (xs @ ys) s = run_ops e ys (run_ops e xs s)"
  by (induction xs arbitrary: s) auto

lemma reach_refl [simp]: "reach db db"
  unfolding reach_def by (rule exI [of _ "[]"]) simp

lemma reach_trans: "reach a b \<Longrightarrow> reach b c \<Longrightarrow> reach a c"
  unfolding reach_def by (metis run_ops_append)

lemma reach_exec: "reach db (snd (platform_exec x db))"
  unfolding reach_def by (rule exI [of _ "[x]"]) simp

lemma reach_inv: "platform_inv db \<Longrightarrow> reach db db' \<Longrightarrow> platform_inv db'"
  unfolding reach_def using ps.run_inv by blast

lemma reach_le: "platform_inv db \<Longrightarrow> reach db db' \<Longrightarrow> platform_le db db'"
  unfolding reach_def using ps.run_le by blast

lemma reach_txns:
  "reach db (snd (prepare cx stale fr p db))"
  "reach db (snd (run_txn (markDispatched now t i) db))"
  "reach db (snd (run_txn (markSucceeded cx a b now t i r f) db))"
  "reach db (snd (run_txn (markFailedFinal cx a now t i ro) db))"
  "reach db (snd (run_txn (markOutcomeUnknown now t i) db))"
  "reach db (snd (run_txn (issue now gi inp) db))"
  "reach db (snd (run_txn (issueSynthetic now pid c) db))"
  using reach_exec [of db "Op_prepare cx stale fr p"] reach_exec [of db "Op_markDispatched now t i"]
    reach_exec [of db "Op_markSucceeded cx a b now t i r f"] reach_exec [of db "Op_markFailedFinal cx a now t i ro"]
    reach_exec [of db "Op_markOutcomeUnknown now t i"] reach_exec [of db "Op_issue now gi inp"]
    reach_exec [of db "Op_issueSynthetic now pid c"]
  by simp_all

section \<open>Processes that run operations, and processes that send nothing\<close>

definition by_ops :: "(world, platform_error, 'a) proc \<Rightarrow> bool" where
  "by_ops m \<longleftrightarrow> (\<forall>w. reach (w_db w) (w_db (snd (m w))))"

definition silent :: "(world, platform_error, 'a) proc \<Rightarrow> bool" where
  "silent m \<longleftrightarrow> (\<forall>w. w_sent (snd (m w)) = w_sent w)"

lemma by_ops_combinators:
  "by_ops (return a)" "by_ops (throw e)"
  "by_ops m \<Longrightarrow> (\<And>a. by_ops (f a)) \<Longrightarrow> by_ops (bind m f)"
  "by_ops m \<Longrightarrow> (\<And>e. by_ops (h e)) \<Longrightarrow> by_ops (catch m h)"
  "by_ops (log_submission ad i g)"
proof -
  assume m: "by_ops m" and f: "\<And>a. by_ops (f a)"
  show "by_ops (bind m f)"
    unfolding by_ops_def
  proof
    fix w
    have "reach (w_db w) (w_db (snd (m w)))" using m by (simp add: by_ops_def)
    then show "reach (w_db w) (w_db (snd (bind m f w)))"
      using f by (auto simp: bind_def by_ops_def split: prod.splits sum.splits elim!: reach_trans)
  qed
next
  assume m: "by_ops m" and h: "\<And>e. by_ops (h e)"
  show "by_ops (catch m h)"
    unfolding by_ops_def
  proof
    fix w
    have "reach (w_db w) (w_db (snd (m w)))" using m by (simp add: by_ops_def)
    then show "reach (w_db w) (w_db (snd (catch m h w)))"
      using h by (auto simp: catch_def by_ops_def split: prod.splits sum.splits elim!: reach_trans)
  qed
qed (simp_all add: by_ops_def log_submission_def)

lemma by_ops_step:
  "interleaved env \<Longrightarrow> (\<And>db. reach db (snd (p db))) \<Longrightarrow> by_ops (step env k p)"
  by (auto simp: by_ops_def step_def interleaved_def split: prod.splits) (metis reach_trans snd_conv)

lemma reach_reading [simp]: "reach db (snd (reading f db))"
  by (simp add: reading_def)

lemma silent_combinators:
  "silent (return a)" "silent (throw e)" "silent (step env k p)"
  "silent m \<Longrightarrow> (\<And>a. silent (f a)) \<Longrightarrow> silent (bind m f)"
  "silent m \<Longrightarrow> (\<And>e. silent (h e)) \<Longrightarrow> silent (catch m h)"
  by (auto simp: silent_def step_def bind_def catch_def split: prod.splits sum.splits) (metis snd_conv)+

lemmas stage_defs = check_gates_def purpose_authority_def validate_step_def final_checks_def mark_failed_def

lemma by_ops_stages:
  assumes "interleaved env"
  shows "by_ops (check_gates env a p)" "by_ops (purpose_authority env p)"
    "by_ops (final_checks cx env a p gid d i)" "by_ops (submit_and_record cx env a p i g)"
    "by_ops (mark_failed cx env k i ro)" "by_ops (record_outcome cx env a p i g res)"
  unfolding stage_defs submit_and_record_def record_outcome_def
  by (auto intro!: by_ops_combinators by_ops_step [OF assms] reach_txns
      split: option.splits sum.splits submit_result.splits)

lemma silent_stages:
  "silent (check_gates env a p)" "silent (purpose_authority env p)" "silent (final_checks cx env a p gid d i)"
  "silent (record_outcome cx env a p i g res)"
  unfolding stage_defs record_outcome_def
  by (auto intro!: silent_combinators split: option.splits sum.splits submit_result.splits)

lemma dispatch_by_ops:
  assumes "interleaved env"
  shows "by_ops (dispatchProviderRequest cx reg env p)"
  unfolding dispatchProviderRequest_def dispatch_authorized_def dispatch_prepared_def
  by (auto intro!: by_ops_combinators by_ops_step [OF assms] by_ops_stages [OF assms] reach_txns
      split: option.splits sum.splits)

lemma dispatch_reaches:
  "interleaved env \<Longrightarrow> dispatchProviderRequest cx reg env p w = (r, w') \<Longrightarrow> reach (w_db w) (w_db w')"
  using dispatch_by_ops unfolding by_ops_def by (metis snd_conv)

section \<open>The chain that leads to a submission\<close>

lemma silentD: "silent m \<Longrightarrow> m w = (r, w') \<Longrightarrow> w_sent w' = w_sent w"
  unfolding silent_def by (metis snd_conv)

lemma sent_bindE:
  assumes "bind m f w = (r, w')" "w_sent w' \<noteq> w_sent w" "silent m"
  obtains a w1 where "m w = (Inr a, w1)" "f a w1 = (r, w')" "w_sent w1 = w_sent w" "w_sent w' \<noteq> w_sent w1"
proof -
  obtain x w1 where m: "m w = (x, w1)" by (cases "m w")
  have w1: "w_sent w1 = w_sent w" by (rule silentD [OF assms(3) m])
  show thesis
  proof (cases x)
    case (Inl e)
    with assms m w1 show thesis by (simp add: bind_def)
  next
    case (Inr a)
    with assms m w1 show thesis by (auto simp: bind_def intro: that)
  qed
qed

lemma step_Inr_iff:
  "step env k p w = (Inr a, w') \<longleftrightarrow>
     (\<exists>db'. p (others env k (w_db w)) = (Inr a, db') \<and> w' = w\<lparr>w_db := db'\<rparr>)"
  by (auto simp: step_def split: prod.splits)

lemma step_reading_iff [simp]:
  "step env k (reading f) w = (Inr a, w') \<longleftrightarrow>
     a = f (others env k (w_db w)) \<and> w' = w\<lparr>w_db := others env k (w_db w)\<rparr>"
  by (auto simp: step_Inr_iff reading_def)

lemma return_iff [simp]: "return a w = (Inr b, w') \<longleftrightarrow> b = a \<and> w' = w"
  by auto

lemma submission_chain:
  assumes "dispatchProviderRequest cx reg env p w = (r, w')" "w_sent w' \<noteq> w_sent w"
  obtains a consent decision grant i g w1 w2 w3 w4 w5 w6 where
    "map_of reg (dp_capability p, mode_of p) = Some a"
    "assertNotStructurallyExcluded ''provider_adapter''
       (tuple_name (ad_providerId a) (dp_capability p) (mode_of p)) (ad_excludedCommandClass a) = Inr ()"
    "check_gates env a p w = (Inr consent, w1)"
    "purpose_authority env p w1 = (Inr decision, w2)"
    "step env 5 (run_txn (issue (clk env 5) (id_grant env) (issue_input a p consent decision))) w2 = (Inr grant, w3)"
    "step env 6 (prepare cx (stale_read env)
       \<lparr>fresh_id = id_intent env, fresh_idempotencyKey = id_idempotency env, fresh_now = clk env 6\<rparr>
       (prepare_input a p (gr_id grant))) w3 = (Inr i, w4)"
    "int_state i = PREPARED"
    "final_checks cx env a p (gr_id grant) decision i w4 = (Inr g, w5)"
    "step env 12 (run_txn (markDispatched (clk env 12) (int_tenantId i) (int_id i))) w5 = (Inr (), w6)"
    "submit_and_record cx env a p i g w6 = (r, w')"
    "w_sent w6 = w_sent w"
proof -
  from assms obtain a where a: "map_of reg (dp_capability p, mode_of p) = Some a"
    by (auto simp: dispatchProviderRequest_def resolve_adapter_def or_throw_def split: option.splits)
  have ex: "assertNotStructurallyExcluded ''provider_adapter''
       (tuple_name (ad_providerId a) (dp_capability p) (mode_of p)) (ad_excludedCommandClass a) = Inr ()"
    using assms a
    by (auto simp: dispatchProviderRequest_def resolve_adapter_def split: sum.splits)
  note body = assms(1) [unfolded dispatchProviderRequest_def resolve_adapter_def a or_throw_simps sum.case ex]
  from sent_bindE [OF body assms(2) silent_stages(1)]
  obtain consent w1 where b1: "check_gates env a p w = (Inr consent, w1)" and k1: "w_sent w1 = w_sent w"
      "w_sent w' \<noteq> w_sent w1"
    and c1: "bind (purpose_authority env p) (\<lambda>decision. dispatch_authorized cx env a p consent decision) w1 = (r, w')"
    by metis
  from sent_bindE [OF c1 k1(2) silent_stages(2)]
  obtain decision w2 where b2: "purpose_authority env p w1 = (Inr decision, w2)"
    and k2: "w_sent w2 = w_sent w1" "w_sent w' \<noteq> w_sent w2"
    and c2: "dispatch_authorized cx env a p consent decision w2 = (r, w')"
    by metis
  let ?prep = "\<lambda>grant. step env 6 (prepare cx (stale_read env)
      \<lparr>fresh_id = id_intent env, fresh_idempotencyKey = id_idempotency env, fresh_now = clk env 6\<rparr>
      (prepare_input a p (gr_id grant)))"
  from sent_bindE [OF c2 [unfolded dispatch_authorized_def] k2(2) silent_combinators(3)]
  obtain grant w3 where b3: "step env 5 (run_txn (issue (clk env 5) (id_grant env)
      (issue_input a p consent decision))) w2 = (Inr grant, w3)"
    and k3: "w_sent w3 = w_sent w2" "w_sent w' \<noteq> w_sent w3"
    and c3: "bind (?prep grant) (dispatch_prepared cx env a p (gr_id grant) decision) w3 = (r, w')"
    by metis
  from sent_bindE [OF c3 k3(2) silent_combinators(3)]
  obtain i w4 where b4: "?prep grant w3 = (Inr i, w4)"
    and k4: "w_sent w4 = w_sent w3" "w_sent w' \<noteq> w_sent w4"
    and c4: "dispatch_prepared cx env a p (gr_id grant) decision i w4 = (r, w')"
    by metis
  have prep: "int_state i = PREPARED"
    using c4 k4(2) by (auto simp: dispatch_prepared_def split: if_splits option.splits)
  let ?mark = "step env 12 (run_txn (markDispatched (clk env 12) (int_tenantId i) (int_id i)))"
  have c5: "bind (final_checks cx env a p (gr_id grant) decision i) (\<lambda>g.
      bind ?mark (\<lambda>_. submit_and_record cx env a p i g)) w4 = (r, w')"
    using c4 prep by (simp add: dispatch_prepared_def)
  from sent_bindE [OF c5 k4(2) silent_stages(3)]
  obtain g w5 where b5: "final_checks cx env a p (gr_id grant) decision i w4 = (Inr g, w5)"
    and k5: "w_sent w5 = w_sent w4" "w_sent w' \<noteq> w_sent w5"
    and c6: "bind ?mark (\<lambda>_. submit_and_record cx env a p i g) w5 = (r, w')"
    by metis
  from sent_bindE [OF c6 k5(2) silent_combinators(3)]
  obtain w6 where b6: "?mark w5 = (Inr (), w6)"
    and k6: "w_sent w6 = w_sent w5" and c7: "submit_and_record cx env a p i g w6 = (r, w')"
    by (metis old.unit.exhaust)
  show thesis
    by (rule that [OF a ex b1 b2 b3 b4 prep b5 _ c7]) (use b6 k1 k2 k3 k4 k5 k6 in simp_all)
qed

text \<open>The states along the chain, each reached from the one before by platform operations.\<close>

lemma by_opsD: "by_ops m \<Longrightarrow> m w = (x, w') \<Longrightarrow> reach (w_db w) (w_db w')"
  unfolding by_ops_def by (metis snd_conv)

lemma final_checks_reach:
  assumes "interleaved env" "final_checks cx env a p gid decision i w = (Inr g, w')"
  shows "reach (others env 8 (others env 7 (w_db w))) (w_db w')"
  using assms
  by (auto simp: final_checks_def validate_step_def bind_Inr_iff interleaved_def
      split: option.splits sum.splits)

lemma submission_states:
  assumes env: "interleaved env"
    and b1: "check_gates env a p w = (Inr consent, w1)"
    and b2: "purpose_authority env p w1 = (Inr decision, w2)"
    and b3: "step env 5 (run_txn (issue (clk env 5) (id_grant env) inp)) w2 = (Inr grant, w3)"
    and b4: "step env 6 (prepare cx (stale_read env) fr prep) w3 = (Inr i, w4)"
    and b5: "final_checks cx env a p gid decision i w4 = (Inr g, w5)"
    and b6: "step env 12 (run_txn (markDispatched now t iid)) w5 = (Inr (), w6)"
    and b7: "submit_and_record cx env a p i g w6 = (r, w')"
  shows "reach (w_db w) (w_db w3)" "reach (w_db w3) (w_db w4)" "reach (w_db w4) (others env 7 (w_db w4))"
    "reach (others env 7 (w_db w4)) (others env 8 (others env 7 (w_db w4)))"
    "reach (others env 8 (others env 7 (w_db w4))) (others env 12 (w_db w5))"
    "reach (others env 12 (w_db w5)) (w_db w6)" "reach (w_db w6) (w_db w')"
proof -
  note o = env [unfolded interleaved_def, rule_format]
  show "reach (w_db w) (w_db w3)"
    using by_opsD [OF by_ops_stages(1) [OF env] b1] by_opsD [OF by_ops_stages(2) [OF env] b2]
      by_opsD [OF by_ops_step [OF env reach_txns(6)] b3]
    by (meson reach_trans)
  show "reach (w_db w3) (w_db w4)" by (rule by_opsD [OF by_ops_step [OF env reach_txns(1)] b4])
  show "reach (w_db w4) (others env 7 (w_db w4))"
    "reach (others env 7 (w_db w4)) (others env 8 (others env 7 (w_db w4)))"
    by (rule o)+
  show "reach (others env 8 (others env 7 (w_db w4))) (others env 12 (w_db w5))"
    using final_checks_reach [OF env b5] o by (meson reach_trans)
  show "reach (others env 12 (w_db w5)) (w_db w6)"
    using b6 reach_txns(2) [of "others env 12 (w_db w5)"] by (auto simp: step_Inr_iff) (metis snd_conv)
  show "reach (w_db w6) (w_db w')" by (rule by_opsD [OF by_ops_stages(4) [OF env] b7])
qed

section \<open>What single steps do to an intent\<close>

lemma transition_InrD:
  assumes "transition now t iid froms st f db = Inr (u, db')"
  shows "\<exists>x \<in> set (intents db). int_id x = iid \<and> int_tenantId x = t \<and> int_state x \<in> set froms
    \<and> f (x\<lparr>int_state := st, int_updatedAt := now\<rparr>) \<in> set (intents db')"
proof -
  let ?P = "\<lambda>i. int_id i = iid \<and> int_tenantId i = t \<and> int_state i \<in> set froms"
  have one: "affected ?P (intents db) = 1"
    and db': "db' = db\<lparr>intents := update_where ?P
      (\<lambda>i. f (i\<lparr>int_state := st, int_updatedAt := now\<rparr>)) (intents db)\<rparr>"
    using assms by (auto simp: transition_def Let_def split: if_splits)
  from one have "filter ?P (intents db) \<noteq> []" by (auto simp: affected_def)
  then obtain x where "x \<in> set (intents db)" "?P x" by (auto simp: filter_empty_conv)
  then show ?thesis by (auto simp: db' set_update_where intro!: bexI [of _ x] rev_image_eqI [of x])
qed

lemma markDispatched_InrD:
  assumes "markDispatched now t iid db = Inr (u, db')"
  shows "\<exists>x \<in> set (intents db). int_id x = iid \<and> int_tenantId x = t \<and> int_state x = PREPARED
    \<and> x\<lparr>int_state := DISPATCHED, int_updatedAt := now\<rparr> \<in> set (intents db')"
  using transition_InrD [OF assms [unfolded markDispatched_def]] by auto

lemma prepare_InrD:
  assumes "prepare cx stale fr p db = (Inr i, db')"
  shows "\<exists>e \<in> set (intents db'). intent_identity e = intent_identity i"
    and "effect_key i = (prep_tenantId p, prep_providerId p, prep_capability p, prep_logicalOperationKey p)"
proof -
  from assms obtain e where e: "prepare_txn cx stale fr p db = Inr (e, db')" "toIntentValue cx e = Inr i"
    by (auto simp: prepare_def bind_Inr_iff run_txn_Inr_iff)
  from e(2) have id: "intent_identity i = intent_identity e"
    by (auto simp: toIntentValue_def result_simps)
  let ?row = "if stale then None else find_effect p db"
  have key: "effect_key e = (prep_tenantId p, prep_providerId p, prep_capability p, prep_logicalOperationKey p)
      \<and> (\<exists>x \<in> set (intents db'). intent_identity x = intent_identity e)"
  proof (cases ?row)
    case None
    with e(1) have "e = new_intent cx fr p" "e \<in> set (intents db')"
      by (auto simp: prepare_txn_def insert_intent_def split: sum.splits if_splits)
    then show ?thesis by (auto simp: new_intent_def effect_key_def)
  next
    case (Some x)
    then have x: "x \<in> set (intents db)" "same_effect p x"
      by (auto simp: find_effect_def dest!: find_SomeD split: if_splits)
    from e(1) Some have re: "reuse_intent cx fr p x db = Inr (e, db')" by (simp add: prepare_txn_def)
    then have "intent_identity e = intent_identity x" by (auto simp: reuse_intent_def split: if_splits)
    moreover have "map intent_identity (intents db') = map intent_identity (intents db)"
      using re by (auto simp: reuse_intent_def map_update_where split: if_splits)
    then have "intent_identity x \<in> intent_identity ` set (intents db')"
      using x(1) by (metis image_eqI list.set_map)
    then obtain y where "y \<in> set (intents db')" "intent_identity y = intent_identity x" by (metis imageE)
    ultimately show ?thesis
      using x(2) by (auto simp: same_effect_def effect_key_def intent_identity_def)
  qed
  then show "\<exists>e \<in> set (intents db'). intent_identity e = intent_identity i" using id by auto
  show "effect_key i = (prep_tenantId p, prep_providerId p, prep_capability p, prep_logicalOperationKey p)"
    using key id by (auto simp: intent_identity_def effect_key_def)
qed

end
