(* ===== verification/Provider_Scenario.thy ===== *)
theory Provider_Scenario
  imports Dispatch_Safety
begin

text \<open>
  A concrete platform for the witnesses of the provider and consent properties: one case
  with one consent, a credit simulator whose answer satisfies the finding contract, and a
  dispatch of its consumer report with nothing running in between. The runs are evaluated
  here once and for all.
\<close>

definition ex_cx :: crypto where
  "ex_cx = \<lparr>cx_aead = example_aead, cx_ring = example_ring, cx_sha256 = (\<lambda>ts. ''digest'')\<rparr>"

definition ex_finding :: json where
  "ex_finding =
     JObj [(''creditScore'', JNum (Num 700)), (''debtToIncomeRatio'', JNum (Num 1)),
           (''paymentHistory'', JStr ''GOOD''), (''openAccounts'', JNum (Num 4)),
           (''derogatoryMarks'', JNum (Num 0))]"

definition ex_adapter :: ProviderAdapter where
  "ex_adapter =
     \<lparr>ad_providerId = ''sim-credit'', ad_capability = CREDIT, ad_mode = SIMULATOR,
      ad_effectClass = READ_ONLY, ad_excludedCommandClass = None,
      ad_submit = (\<lambda>req i g c. Completed \<lparr>rcpt_payload = ex_finding, rcpt_observedAt = ''now'',
                                          rcpt_time = Some 1000\<rparr>),
      ad_normalize = (\<lambda>v c. Inr v)\<rparr>"

definition ex_reg :: registry where
  "ex_reg = [((CREDIT, SIMULATOR), ex_adapter)]"

definition ex_env :: dispatch_env where
  "ex_env =
     \<lparr>clk = (\<lambda>k. 1000), others = (\<lambda>k db. db), id_purpose = ''purpose'', id_grant = ''grant'',
      id_intent = ''intent'', id_idempotency = ''key'', stale_read = False, nonces = (''n1'', ''n2'')\<rparr>"

definition ex_env2 :: dispatch_env where
  "ex_env2 = ex_env\<lparr>id_purpose := ''purpose2'', id_grant := ''grant2'', id_intent := ''intent2'',
     id_idempotency := ''key2''\<rparr>"

definition ex_params :: DispatchProviderRequestParams where
  "ex_params =
     \<lparr>dp_tenantId = ''t'', dp_caseId = ''c'', dp_borrowerSubjectId = ''b'', dp_capability = CREDIT,
      dp_mode = None, dp_request = JObj [], dp_purposeCode = ''UNDERWRITING_EVIDENCE'',
      dp_permittedDataClasses = [''CREDIT''], dp_logicalOperationKey = None,
      dp_permittedFields = None, dp_permissiblePurposeDecisionId = None\<rparr>"

definition ex_params2 :: DispatchProviderRequestParams where
  "ex_params2 = ex_params\<lparr>dp_logicalOperationKey := Some ''second''\<rparr>"

definition ex_consent :: ConsentRecord where
  "ex_consent =
     \<lparr>con_id = ''consent'', con_tenantId = ''t'', con_caseId = ''c'', con_purpose = ''UNDERWRITING_EVIDENCE'',
      con_scope = DEFAULT_SCOPE, con_permittedPurposes = [''UNDERWRITING_EVIDENCE''],
      con_permittedDataClasses = DEFAULT_PROVIDER_DATA_CLASSES, con_grantedAt = 500,
      con_expiresAt = None, con_revokedAt = None, con_revocationReason = None\<rparr>"

definition ex_fact :: EvidenceFact where
  "ex_fact =
     \<lparr>ev_id = ''fact'', ev_tenantId = ''t'', ev_caseId = ''c'', ev_factType = CREDIT,
      ev_sourceIdentifier = ''sim-credit'', ev_value = ex_finding, ev_observedAt = 1000, ev_validThrough = None, ev_version = 1\<rparr>"

definition ex_world :: world where
  "ex_world = \<lparr>w_db = empty_platform\<lparr>consents := [ex_consent], evidence := [ex_fact]\<rparr>, w_sent = []\<rparr>"

definition ex_run :: "(platform_error + json) \<times> world" where
  "ex_run = dispatchProviderRequest ex_cx ex_reg ex_env ex_params ex_world"

definition ex_run2 :: "(platform_error + json) \<times> world" where
  "ex_run2 = dispatchProviderRequest ex_cx ex_reg ex_env2 ex_params2 (snd ex_run)"

text \<open>The platform after the dispatch, and after the consent is revoked.\<close>

definition ex_db :: platform_db where
  "ex_db = w_db (snd ex_run)"

definition ex_revoked :: platform_db where
  "ex_revoked = snd (run_txn (revoke_consent 2000 ''task'' ''t'' ''c'' None) ex_db)"

text \<open>After the review is resolved by deletion, and instead with a hold placed first.\<close>

definition ex_disposed :: platform_db where
  "ex_disposed = snd (resolve_task True 4000 24 ''t'' ''task'' DELETE ''ops'' None ex_revoked)"

definition ex_held :: platform_db where
  "ex_held = snd (place_hold True False ''hold'' ''t'' ''c'' ''litigation'' ''counsel'' ex_revoked)"

text \<open>A platform with the intent prepared, and then marked dispatched.\<close>

definition ex_prepared :: platform_db where
  "ex_prepared = snd (platform_exec (Op_prepare ex_cx False
     \<lparr>fresh_id = ''intent'', fresh_idempotencyKey = ''key'', fresh_now = 1000\<rparr>
     (prepare_input ex_adapter ex_params ''grant'')) (w_db ex_world))"

definition ex_marked :: platform_db where
  "ex_marked = snd (platform_exec (Op_markDispatched 1000 ''t'' ''intent'') ex_prepared)"

lemma ex_platform_inv: "platform_inv (w_db ex_world)"
  by (simp add: platform_inv_def ex_world_def empty_platform_def)

lemma ex_interleaved: "interleaved ex_env" "interleaved ex_env2"
  by (simp_all add: interleaved_def ex_env_def ex_env2_def)

lemma ex_run_succeeds: "fst ex_run = Inr ex_finding" "length (w_sent (snd ex_run)) = 1"
  by code_simp+

lemma ex_run2_succeeds: "fst ex_run2 = Inr ex_finding" "length (w_sent (snd ex_run2)) = 2"
  by code_simp+

lemma ex_run2_sends:
  obtains s where "w_sent (snd ex_run2) = w_sent (snd ex_run) @ [s]"
proof -
  have "w_sent (snd ex_run2) = w_sent (snd ex_run) @ [last (w_sent (snd ex_run2))]" by code_simp
  then show thesis by (rule that)
qed

end
