(* ===== verification/Interleaving.thy ===== *)
theory Interleaving
  imports Prelude
begin

text \<open>
  Asynchronous handlers as programs. Between two awaited database calls of a handler any
  other request may commit, so a handler is the tree of what is left of it: \<open>Ret\<close> when it
  has returned or thrown, \<open>Act\<close> when its next step is one atomic query or transaction,
  which reads an input (the clock, a generated id) and the shared state and yields the new
  state and the rest of the handler.

  \<^item> \<open>pbind\<close>, \<open>pcatch\<close>, \<open>act\<close>: sequencing, \<open>try \<dots> catch\<close> and a single
    awaited call; \<open>prun\<close> runs a handler alone, \<open>atomically\<close> makes it one step.
  \<^item> \<open>pstep\<close>: one step of a pool of handlers, the scheduler choosing any of them.
  \<^item> \<open>rg\<close>: from a state on, whatever the others do within the relation \<open>R\<close>, every
    step of the handler keeps the invariant \<open>I\<close> and stays within \<open>R\<close>, and it ends as
    \<open>Q\<close> says. The locale \<open>rely_guarantee\<close> turns this into invariants of all
    interleavings.
\<close>

section \<open>Programs\<close>

datatype ('i, 's, 'e, 'a) prog =
    Ret "'e + 'a"
  | Act "'i \<Rightarrow> 's \<Rightarrow> ('i, 's, 'e, 'a) prog \<times> 's"

primrec pbind :: "('i, 's, 'e, 'a) prog \<Rightarrow> ('a \<Rightarrow> ('i, 's, 'e, 'b) prog) \<Rightarrow> ('i, 's, 'e, 'b) prog" where
  "pbind (Ret r) f = (case r of Inl e \<Rightarrow> Ret (Inl e) | Inr a \<Rightarrow> f a)"
| "pbind (Act k) f = Act (\<lambda>i s. map_prod (\<lambda>p. pbind p f) id (k i s))"

primrec pcatch :: "('i, 's, 'e, 'a) prog \<Rightarrow> ('e \<Rightarrow> ('i, 's, 'e, 'a) prog) \<Rightarrow> ('i, 's, 'e, 'a) prog" where
  "pcatch (Ret r) h = (case r of Inl e \<Rightarrow> h e | Inr a \<Rightarrow> Ret (Inr a))"
| "pcatch (Act k) h = Act (\<lambda>i s. map_prod (\<lambda>p. pcatch p h) id (k i s))"

definition preturn :: "'a \<Rightarrow> ('i, 's, 'e, 'a) prog" where
  "preturn a = Ret (Inr a)"

definition pthrow :: "'e \<Rightarrow> ('i, 's, 'e, 'a) prog" where
  "pthrow e = Ret (Inl e)"

definition act :: "('i \<Rightarrow> ('s, 'e, 'a) proc) \<Rightarrow> ('i, 's, 'e, 'a) prog" where
  "act p = Act (\<lambda>i s. map_prod Ret id (p i s))"

definition query :: "('i \<Rightarrow> 's \<Rightarrow> 'a) \<Rightarrow> ('i, 's, 'e, 'a) prog" where
  "query f = act (\<lambda>i s. (Inr (f i s), s))"

fun pmap_list :: "('a \<Rightarrow> ('i, 's, 'e, 'b) prog) \<Rightarrow> 'a list \<Rightarrow> ('i, 's, 'e, 'b list) prog" where
  "pmap_list f [] = preturn []"
| "pmap_list f (x # xs) = pbind (f x) (\<lambda>y. pbind (pmap_list f xs) (\<lambda>ys. preturn (y # ys)))"

primrec prun :: "('i, 's, 'e, 'a) prog \<Rightarrow> (nat \<Rightarrow> 'i) \<Rightarrow> 's \<Rightarrow> ('e + 'a) \<times> 's" where
  "prun (Ret r) = (\<lambda>is s. (r, s))"
| "prun (Act k) = (\<lambda>is s. case map_prod prun id (k (is 0) s) of (m, t) \<Rightarrow> m (\<lambda>n. is (Suc n)) t)"

definition atomically :: "(nat \<Rightarrow> 'j) \<Rightarrow> ('j, 's, 'e, 'a) prog \<Rightarrow> ('i, 's, 'e, 'a) prog" where
  "atomically is p = act (\<lambda>_ s. prun p is s)"

definition forget :: "('i, 's, 'e, 'a) prog \<Rightarrow> ('i, 's, 'e, unit) prog" where
  "forget p = pbind p (\<lambda>_. preturn ())"

lemma pbind_preturn [simp]: "pbind (preturn a) f = f a"
  by (simp add: preturn_def)

lemma pbind_pthrow [simp]: "pbind (pthrow e) f = pthrow e"
  by (simp add: pthrow_def)

lemma prun_preturn [simp]: "prun (preturn a) is s = (Inr a, s)"
  by (simp add: preturn_def)

lemma prun_pthrow [simp]: "prun (pthrow e) is s = (Inl e, s)"
  by (simp add: pthrow_def)

lemma prun_pbind_act [simp]:
  "prun (pbind (act p) f) is s =
     (case p (is 0) s of (Inl e, t) \<Rightarrow> (Inl e, t) | (Inr a, t) \<Rightarrow> prun (f a) (\<lambda>n. is (Suc n)) t)"
  by (simp add: act_def split: prod.split sum.split)

lemma prun_act [simp]: "prun (act p) is s = p (is 0) s"
  by (cases "p (is 0) s") (simp add: act_def)

lemma prun_pbind_query [simp]:
  "prun (pbind (query g) f) is s = prun (f (g (is 0) s)) (\<lambda>n. is (Suc n)) s"
  by (simp add: query_def)

lemma pbind_assoc: "pbind (pbind p f) g = pbind p (\<lambda>a. pbind (f a) g)"
proof (induction p)
  case (Act k)
  then show ?case
    by (auto simp: fun_eq_iff prod.map_comp comp_def intro!: prod.map_cong0 elim: range_eqI)
      (metis (no_types, lifting) fst_map_prod fsts.simps rangeI surjective_pairing)+
qed (auto split: sum.split)

section \<open>Pools\<close>

inductive pstep :: "('i, 's, 'e, 'a) prog list \<times> 's \<Rightarrow> ('i, 's, 'e, 'a) prog list \<times> 's \<Rightarrow> bool" where
  pstep: "n < length ps \<Longrightarrow> ps ! n = Act k \<Longrightarrow> k i s = (p, t) \<Longrightarrow> pstep (ps, s) (ps[n := p], t)"

inductive_cases pstepE: "pstep (ps, s) c"

text \<open>A schedule, as a list of choices: which handler moves, and what input it reads.\<close>

fun run_schedule :: "(nat \<times> 'i) list \<Rightarrow> ('i, 's, 'e, 'a) prog list \<times> 's \<Rightarrow> ('i, 's, 'e, 'a) prog list \<times> 's" where
  "run_schedule [] c = c"
| "run_schedule ((n, i) # xs) (ps, s) =
     (if n < length ps
      then case ps ! n of
             Ret r \<Rightarrow> run_schedule xs (ps, s)
           | Act k \<Rightarrow> (case k i s of (p, t) \<Rightarrow> run_schedule xs (ps[n := p], t))
      else run_schedule xs (ps, s))"

lemma run_schedule_steps: "pstep\<^sup>*\<^sup>* c (run_schedule xs c)"
proof (induction xs c rule: run_schedule.induct)
  case (2 n i xs ps s)
  show ?case
  proof (cases "n < length ps \<and> (\<exists>k. ps ! n = Act k)")
    case True
    then obtain k where k: "n < length ps" "ps ! n = Act k" by blast
    obtain p t where pt: "k i s = (p, t)" by fastforce
    have "pstep (ps, s) (ps[n := p], t)" using k pt by (rule pstep)
    moreover have "pstep\<^sup>*\<^sup>* (ps[n := p], t) (run_schedule xs (ps[n := p], t))"
      using 2 k pt by (metis (no_types, lifting))
    ultimately show ?thesis using k pt by (simp add: converse_rtranclp_into_rtranclp)
  next
    case False
    then show ?thesis using 2 by (auto split: prog.split)
  qed
qed simp

section \<open>Rely and guarantee\<close>

inductive rg :: "('s \<Rightarrow> bool) \<Rightarrow> ('s \<Rightarrow> 's \<Rightarrow> bool) \<Rightarrow> ('s \<Rightarrow> 'e + 'a \<Rightarrow> bool)
    \<Rightarrow> 's \<Rightarrow> ('i, 's, 'e, 'a) prog \<Rightarrow> bool"
  for I R Q
where
  rg_Ret: "Q s r \<Longrightarrow> rg I R Q s (Ret r)"
| rg_Act: "(\<And>i s'. I s' \<Longrightarrow> R s s' \<Longrightarrow>
      I (snd (k i s')) \<and> R s' (snd (k i s')) \<and> rg I R Q (snd (k i s')) (fst (k i s')))
    \<Longrightarrow> rg I R Q s (Act k)"

inductive_simps rg_Ret_iff [simp]: "rg I R Q s (Ret r)"
inductive_cases rg_ActE: "rg I R Q s (Act k)"

lemma rg_preturn [simp]: "rg I R Q s (preturn a) \<longleftrightarrow> Q s (Inr a)"
  by (simp add: preturn_def)

lemma rg_pthrow [simp]: "rg I R Q s (pthrow e) \<longleftrightarrow> Q s (Inl e)"
  by (simp add: pthrow_def)

lemma rg_weaken:
  assumes "rg I R Q s p" "\<And>t r. Q t r \<Longrightarrow> Q' t r"
  shows "rg I R Q' s p"
  using assms(1) by induction (auto intro: rg.intros assms(2))

lemma rg_pbind:
  assumes "rg I R Q s p"
    and "\<And>t a. Q t (Inr a) \<Longrightarrow> rg I R Q' t (f a)"
    and "\<And>t e. Q t (Inl e) \<Longrightarrow> Q' t (Inl e)"
  shows "rg I R Q' s (pbind p f)"
  using assms(1)
proof induction
  case (rg_Ret s r)
  then show ?case by (cases r) (auto intro: assms(2,3))
next
  case (rg_Act s k)
  then show ?case by (auto intro!: rg.rg_Act)
qed

lemma rg_pcatch:
  assumes "rg I R Q s p"
    and "\<And>t e. Q t (Inl e) \<Longrightarrow> rg I R Q' t (h e)"
    and "\<And>t a. Q t (Inr a) \<Longrightarrow> Q' t (Inr a)"
  shows "rg I R Q' s (pcatch p h)"
  using assms(1)
proof induction
  case (rg_Ret s r)
  then show ?case by (cases r) (auto intro: assms(2,3))
next
  case (rg_Act s k)
  then show ?case by (auto intro!: rg.rg_Act)
qed

lemma rg_act:
  assumes "\<And>i t r u. I t \<Longrightarrow> R s t \<Longrightarrow> p i t = (r, u) \<Longrightarrow> I u \<and> R t u \<and> Q u r"
  shows "rg I R Q s (act p)"
  unfolding act_def
proof (rule rg_Act)
  fix i t assume "I t" "R s t"
  then have "I (snd (p i t)) \<and> R t (snd (p i t)) \<and> Q (snd (p i t)) (fst (p i t))"
    using assms [of t i "fst (p i t)" "snd (p i t)"] by (simp only: prod.collapse)
  then show "I (snd (map_prod Ret id (p i t))) \<and> R t (snd (map_prod Ret id (p i t)))
      \<and> rg I R Q (snd (map_prod Ret id (p i t))) (fst (map_prod Ret id (p i t)))"
    by simp
qed

lemma rg_forget: "rg I R (\<lambda>_ _. True) s p \<Longrightarrow> rg I R (\<lambda>_ _. True) s (forget p)"
  unfolding forget_def by (rule rg_pbind) simp_all

locale rely_guarantee =
  fixes I :: "'s \<Rightarrow> bool" and R :: "'s \<Rightarrow> 's \<Rightarrow> bool"
  assumes R_refl: "R s s"
    and R_trans: "R s t \<Longrightarrow> R t u \<Longrightarrow> R s u"
begin

lemma rg_query:
  assumes "\<And>i t. I t \<Longrightarrow> R s t \<Longrightarrow> Q t (Inr (f i t))"
  shows "rg I R Q s (query f)"
  unfolding query_def by (rule rg_act) (use assms R_refl in auto)

lemma rg_later:
  assumes "rg I R Q s p" "R s t" "\<And>u v r. Q u r \<Longrightarrow> R u v \<Longrightarrow> Q v r"
  shows "rg I R Q t p"
  using assms(1)
proof cases
  case (rg_Ret r)
  with assms(2,3) show ?thesis by simp
next
  case (rg_Act k)
  with assms(2) show ?thesis by (auto intro!: rg.rg_Act intro: R_trans)
qed

lemma rg_pmap_list:
  assumes "\<And>t x. R s t \<Longrightarrow> x \<in> set xs \<Longrightarrow> rg I R (\<lambda>u _. R s u) t (f x)" "R s t"
  shows "rg I R (\<lambda>u _. R s u) t (pmap_list f xs)"
  using assms
proof (induction xs arbitrary: t)
  case (Cons x xs)
  have f: "rg I R (\<lambda>u _. R s u) t (f x)" using Cons.prems by simp
  have tail: "rg I R (\<lambda>u _. R s u) u (pbind (pmap_list f xs) (\<lambda>ys. preturn (y # ys)))"
    if "R s u" for u y
  proof (rule rg_pbind)
    show "rg I R (\<lambda>u _. R s u) u (pmap_list f xs)" using Cons.IH Cons.prems(1) that by simp
  qed simp_all
  show ?case unfolding pmap_list.simps by (rule rg_pbind [OF f]) (use tail in simp_all)
qed simp

text \<open>A handler that keeps to \<open>R\<close> leaves a later state.\<close>

lemma rg_guarantee:
  assumes "rg I R Q s p"
  shows "rg I R (\<lambda>t r. R s t \<and> Q t r) s p"
  using assms
proof induction
  case (rg_Ret s r)
  then show ?case by (simp add: R_refl)
next
  case (rg_Act s k)
  show ?case
  proof (rule rg.rg_Act)
    fix i t assume t: "I t" "R s t"
    from rg_Act [OF t, of i] have *: "I (snd (k i t)) \<and> R t (snd (k i t))"
      and ih: "rg I R (\<lambda>u r. R (snd (k i t)) u \<and> Q u r) (snd (k i t)) (fst (k i t))" by blast+
    have "R s (snd (k i t))" using t(2) * R_trans by blast
    then have "rg I R (\<lambda>u r. R s u \<and> Q u r) (snd (k i t)) (fst (k i t))"
      using rg_weaken [OF ih, of "\<lambda>u r. R s u \<and> Q u r"] R_trans by blast
    with * show "I (snd (k i t)) \<and> R t (snd (k i t))
        \<and> rg I R (\<lambda>u r. R s u \<and> Q u r) (snd (k i t)) (fst (k i t))" by blast
  qed
qed

text \<open>The effect of running a handler alone is one step within \<open>R\<close>.\<close>

lemma rg_prun:
  assumes "rg I R Q s p" "I s" "prun p is s = (r, t)"
  shows "I t \<and> R s t \<and> Q t r"
  using assms
proof (induction arbitrary: "is")
  case (rg_Act s k)
  let ?k = "k (is 0) s"
  have *: "I (snd ?k) \<and> R s (snd ?k) \<and> rg I R Q (snd ?k) (fst ?k)"
    using rg_Act.IH [OF rg_Act.prems(1) R_refl] by blast
  have "I t \<and> R (snd ?k) t \<and> Q t r"
    using rg_Act.IH [OF rg_Act.prems(1) R_refl, of "is 0"] rg_Act.prems(2)
    by (auto simp: case_prod_beta)
  with * show ?case by (meson R_trans)
qed (use R_refl in auto)

lemma rg_atomically:
  assumes "\<And>t. R s t \<Longrightarrow> rg I R Q t p"
  shows "rg I R Q s (atomically is p)"
  unfolding atomically_def by (rule rg_act) (use assms rg_prun in blast)

text \<open>Every interleaving of well-behaved handlers keeps the invariant.\<close>

definition pool_ok :: "('i, 's, 'e, 'a) prog list \<times> 's \<Rightarrow> bool" where
  "pool_ok c \<longleftrightarrow> I (snd c) \<and> (\<forall>p \<in> set (fst c). rg I R (\<lambda>_ _. True) (snd c) p)"

lemma pool_ok_step:
  assumes "pool_ok c" "pstep c c'"
  shows "pool_ok c' \<and> R (snd c) (snd c')"
  using assms(2,1)
proof cases
  case (pstep n ps k i s p t)
  from pstep(3,4) have "rg I R (\<lambda>_ _. True) s (Act k)" "I s"
    using assms(1) pstep(1) nth_mem [of n ps] by (auto simp: pool_ok_def)
  then have "I t \<and> R s t \<and> rg I R (\<lambda>_ _. True) t p"
    using pstep(5) R_refl by (auto elim!: rg_ActE) (metis fst_conv snd_conv)+
  moreover from this have "rg I R (\<lambda>_ _. True) t q" if "q \<in> set ps" for q
    using that assms(1) pstep(1) by (auto simp: pool_ok_def intro: rg_later)
  ultimately show ?thesis
    using pstep(1,2) by (auto simp: pool_ok_def dest: subsetD [OF set_update_subset_insert])
qed

lemma pool_ok_steps:
  assumes "pstep\<^sup>*\<^sup>* c c'" "pool_ok c"
  shows "pool_ok c' \<and> R (snd c) (snd c')"
  using assms by induction (auto intro: R_refl R_trans dest: pool_ok_step)

end

end
