(* ===== verification/Running_Alone.thy ===== *)
theory Running_Alone
  imports Interleaving
begin

text \<open>
  A triple for a handler that runs by itself: \<open>runs s p Q\<close> says that from the state
  \<open>s\<close>, with any inputs, \<open>p\<close> ends as \<open>Q\<close> says. One rule per construct, and one for
  loops over a list. Running a handler of a pool to its end is a run of the pool.
\<close>

definition runs :: "'s \<Rightarrow> ('i, 's, 'e, 'a) prog \<Rightarrow> ('s \<Rightarrow> 'e + 'a \<Rightarrow> bool) \<Rightarrow> bool" where
  "runs s p Q \<longleftrightarrow> (\<forall>is. Q (snd (prun p is s)) (fst (prun p is s)))"

lemma runs_Ret [simp]: "runs s (Ret r) Q \<longleftrightarrow> Q s r"
  by (simp add: runs_def)

lemma runs_Act: "runs s (Act k) Q \<longleftrightarrow> (\<forall>i. runs (snd (k i s)) (fst (k i s)) Q)"
proof -
  have "prun (Act k) (case_nat i is) s = prun (fst (k i s)) is (snd (k i s))" for i "is"
    by (simp add: case_prod_beta)
  moreover have "prun (Act k) is s = prun (fst (k (is 0) s)) (\<lambda>n. is (Suc n)) (snd (k (is 0) s))" for "is"
    by (simp add: case_prod_beta)
  ultimately show ?thesis unfolding runs_def by metis
qed

lemma runs_pbind:
  assumes "runs s p (\<lambda>t r. case r of Inl e \<Rightarrow> Q t (Inl e) | Inr a \<Rightarrow> runs t (f a) Q)"
  shows "runs s (pbind p f) Q"
  using assms
proof (induction p arbitrary: s)
  case (Ret r)
  then show ?case by (cases r) simp_all
next
  case (Act k)
  have "runs (snd (k i s)) (pbind (fst (k i s)) f) Q" for i
    by (rule Act.IH [of "k i" "k i s"]) (use Act.prems in \<open>auto simp: runs_Act fsts.simps prod_eq_iff\<close>)
  then show ?case by (simp add: runs_Act)
qed

lemma runs_preturn [simp]: "runs s (preturn a) Q \<longleftrightarrow> Q s (Inr a)"
  by (simp add: preturn_def)

lemma runs_act [simp]: "runs s (act p) Q \<longleftrightarrow> (\<forall>i. Q (snd (p i s)) (fst (p i s)))"
  by (simp add: act_def runs_Act)

lemma runs_query [simp]: "runs s (query f) Q \<longleftrightarrow> (\<forall>i. Q s (Inr (f i s)))"
  by (simp add: query_def)

lemma runs_mono: "runs s p Q \<Longrightarrow> (\<And>t r. Q t r \<Longrightarrow> Q' t r) \<Longrightarrow> runs s p Q'"
  by (simp add: runs_def)

text \<open>A loop: what holds before an element and the rest holds before the rest, and at the end of all.\<close>

lemma runs_pmap_list:
  fixes f :: "'x \<Rightarrow> ('i, 's, 'e, 'a) prog"
  assumes "Inv xs s"
    and "\<And>x ys t. Inv (x # ys) t \<Longrightarrow> runs t (f x) (\<lambda>u r. (\<forall>e. r = Inl e \<longrightarrow> Inv [] u) \<and> (\<forall>a. r = Inr a \<longrightarrow> Inv ys u))"
  shows "runs s (pmap_list f xs) (\<lambda>t _. Inv [] t)"
  using assms(1)
proof (induction xs arbitrary: s)
  case (Cons x xs)
  show ?case
    unfolding pmap_list.simps
  proof (rule runs_pbind, rule runs_mono [OF assms(2) [OF Cons.prems]])
    fix t and r :: "'e + 'a"
    assume r: "(\<forall>e. r = Inl e \<longrightarrow> Inv [] t) \<and> (\<forall>a. r = Inr a \<longrightarrow> Inv xs t)"
    show "case r of Inl e \<Rightarrow> Inv [] t | Inr a \<Rightarrow> runs t (pbind (pmap_list f xs) (\<lambda>ys. preturn (a # ys))) (\<lambda>t _. Inv [] t)"
    proof (cases r)
      case (Inr a)
      then have "runs t (pmap_list f xs) (\<lambda>t _. Inv [] t)" using r Cons.IH by simp
      then have "runs t (pbind (pmap_list f xs) (\<lambda>ys. preturn (a # ys))) (\<lambda>t _. Inv [] t)"
        by (intro runs_pbind) (auto elim!: runs_mono split: sum.split)
      then show ?thesis by (simp add: Inr)
    qed (use r in simp)
  qed
qed simp


lemma prun_forget: "prun (forget p) is s = (map_sum id (\<lambda>_. ()) (fst (prun p is s)), snd (prun p is s))"
proof (induction p arbitrary: "is" s)
  case (Ret r)
  then show ?case by (cases r) (simp_all add: forget_def preturn_def)
next
  case (Act k)
  obtain p t where k: "k (is 0) s = (p, t)" by fastforce
  then have "prun (forget p) (\<lambda>n. is (Suc n)) t
      = (map_sum id (\<lambda>_. ()) (fst (prun p (\<lambda>n. is (Suc n)) t)), snd (prun p (\<lambda>n. is (Suc n)) t))"
    using Act [of "k (is 0)" "(p, t)" p] by (metis fst_conv fsts.intros rangeI)
  with k show ?case by (simp add: forget_def id_def)
qed

text \<open>Running one handler of a pool to its end is a run of the pool.\<close>

lemma prun_steps:
  "prun p is s = (r, t) \<Longrightarrow> pstep\<^sup>*\<^sup>* (xs @ p # ys, s) (xs @ Ret r # ys, t)"
proof (induction p arbitrary: "is" s)
  case (Act k)
  obtain p u where k: "k (is 0) s = (p, u)" by fastforce
  have "pstep (xs @ Act k # ys, s) ((xs @ Act k # ys)[length xs := p], u)"
    by (rule pstep [where k = k and i = "is 0"]) (simp_all add: k)
  then have "pstep (xs @ Act k # ys, s) (xs @ p # ys, u)" by simp
  moreover have "pstep\<^sup>*\<^sup>* (xs @ p # ys, u) (xs @ Ret r # ys, t)"
  proof (rule Act.IH [of "k (is 0)" "(p, u)" p "\<lambda>n. is (Suc n)" u])
    show "(p, u) \<in> range (k (is 0))" using k by (metis rangeI)
    show "prun p (\<lambda>n. is (Suc n)) u = (r, t)" using Act.prems k by simp
  qed (simp_all add: fsts.intros)
  ultimately show ?case by (rule converse_rtranclp_into_rtranclp)
qed simp

text \<open>With the same inputs at every step, a sequence runs in two parts.\<close>

lemma prun_pbind_const:
  "prun (pbind p f) (\<lambda>_. i) s =
     (case prun p (\<lambda>_. i) s of (Inl e, t) \<Rightarrow> (Inl e, t) | (Inr a, t) \<Rightarrow> prun (f a) (\<lambda>_. i) t)"
proof (induction p arbitrary: s)
  case (Ret r)
  then show ?case by (cases r) simp_all
next
  case (Act k)
  obtain p t where k: "k i s = (p, t)" by fastforce
  have "prun (pbind p f) (\<lambda>_. i) t
      = (case prun p (\<lambda>_. i) t of (Inl e, t) \<Rightarrow> (Inl e, t) | (Inr a, t) \<Rightarrow> prun (f a) (\<lambda>_. i) t)"
    by (rule Act.IH [of "k i" "(p, t)"]) (use k in \<open>auto simp: fsts.simps intro: range_eqI [of _ _ s]\<close>)
  with k show ?case by simp
qed

section \<open>One after the other\<close>

text \<open>The states that handlers leave when each runs to its end before the next one starts.\<close>

inductive serial :: "('c \<Rightarrow> ('i, 's, 'e, 'a) prog) \<Rightarrow> 's \<Rightarrow> 's \<Rightarrow> bool" for handler where
  now: "serial handler s s"
| call: "serial handler s t \<Longrightarrow> prun (handler c) is t = (r, u) \<Longrightarrow> serial handler s u"

lemma serial_keeps:
  assumes "serial handler s t" "I s" "\<And>c s. I s \<Longrightarrow> runs s (handler c) (\<lambda>t _. I t)"
  shows "I t"
  using assms(1,2)
proof (induction rule: serial.induct)
  case (call s t c "is" r u)
  then show ?case using assms(3) [of t c] by (auto simp: runs_def dest: spec [of _ "is"])
qed

text \<open>The same with the calls made and what they answered, oldest first.\<close>

inductive history :: "('c \<Rightarrow> ('i, 's, 'e, 'a) prog) \<Rightarrow> 's \<Rightarrow> ('c \<times> ('e + 'a)) list \<Rightarrow> 's \<Rightarrow> bool" for handler where
  history_now: "history handler s [] s"
| history_call: "history handler s h t \<Longrightarrow> prun (handler c) is t = (r, u) \<Longrightarrow> history handler s (h @ [(c, r)]) u"

lemma history_keeps:
  assumes "history handler s h t" "I [] s" "\<And>h c s. I h s \<Longrightarrow> runs s (handler c) (\<lambda>t r. I (h @ [(c, r)]) t)"
  shows "I h t"
  using assms(1,2)
proof (induction rule: history.induct)
  case (history_call s h t c "is" r u)
  then show ?case using assms(3) [of h t c] by (auto simp: runs_def dest: spec [of _ "is"])
qed

lemma serial_trans: "serial handler t u \<Longrightarrow> serial handler s t \<Longrightarrow> serial handler s u"
  by (induction rule: serial.induct) (auto intro: serial.call)

lemma runs_forget_result: "runs s p (\<lambda>t r. Q t (map_sum id (\<lambda>_. ()) r)) \<Longrightarrow> runs s (forget p) Q"
  by (simp add: runs_def prun_forget)

lemma runs_both: "runs s p Q \<Longrightarrow> runs s p Q' \<Longrightarrow> runs s p (\<lambda>t r. Q t r \<and> Q' t r)"
  by (simp add: runs_def)

lemma runs_forget: "runs s p (\<lambda>t _. Q t) \<Longrightarrow> runs s (forget p) (\<lambda>t _. Q t)"
  unfolding forget_def by (rule runs_pbind) (auto elim!: runs_mono split: sum.split)

end
