(* ===== verification/Exclusive_Claims.thy ===== *)
theory Exclusive_Claims
  imports Running_Alone
begin

text \<open>
  Effects that must happen once, in a pool of handlers. A handler first claims an effect by an
  atomic step that finds it unclaimed, and only later performs it; between the two any other
  handler may run. \<open>disciplined\<close> extends the rely-guarantee judgement \<open>rg\<close> by the claim the
  handler holds: a step may take a claim on something so far unclaimed, give one up, or perform
  the claimed effect, which uses the claim up. The locale \<open>claim_discipline\<close> shows that in every
  interleaving of such handlers no two hold the same claim and no effect is performed twice.
\<close>

section \<open>Disciplined handlers\<close>

inductive disciplined :: "('s \<Rightarrow> bool) \<Rightarrow> ('s \<Rightarrow> 's \<Rightarrow> bool) \<Rightarrow> ('x option \<Rightarrow> 'x option \<Rightarrow> 's \<Rightarrow> 's \<Rightarrow> bool)
    \<Rightarrow> ('x option \<Rightarrow> 's \<Rightarrow> 'e + 'a \<Rightarrow> bool) \<Rightarrow> 'x option \<Rightarrow> 's \<Rightarrow> ('i, 's, 'e, 'a) prog \<Rightarrow> bool"
  for I R M Q
where
  disciplined_Ret: "Q c s r \<Longrightarrow> disciplined I R M Q c s (Ret r)"
| disciplined_Act: "(\<And>i s'. I s' \<Longrightarrow> R s s' \<Longrightarrow>
      I (snd (k i s')) \<and> R s' (snd (k i s'))
      \<and> (\<exists>c'. M c c' s' (snd (k i s')) \<and> disciplined I R M Q c' (snd (k i s')) (fst (k i s'))))
    \<Longrightarrow> disciplined I R M Q c s (Act k)"

inductive_simps disciplined_Ret_iff [simp]: "disciplined I R M Q c s (Ret r)"
inductive_cases disciplined_ActE: "disciplined I R M Q c s (Act k)"

lemma disciplined_preturn [simp]: "disciplined I R M Q c s (preturn a) \<longleftrightarrow> Q c s (Inr a)"
  by (simp add: preturn_def)

lemma disciplined_pthrow [simp]: "disciplined I R M Q c s (pthrow e) \<longleftrightarrow> Q c s (Inl e)"
  by (simp add: pthrow_def)

lemma disciplined_weaken:
  assumes "disciplined I R M Q c s p" "\<And>c t r. Q c t r \<Longrightarrow> Q' c t r"
  shows "disciplined I R M Q' c s p"
  using assms(1)
proof induction
  case (disciplined_Act s k c)
  then show ?case by (intro disciplined.disciplined_Act) blast
qed (simp add: assms(2))

lemma disciplined_pbind:
  assumes "disciplined I R M Q c s p"
    and "\<And>c t a. Q c t (Inr a) \<Longrightarrow> disciplined I R M Q' c t (f a)"
    and "\<And>c t e. Q c t (Inl e) \<Longrightarrow> Q' c t (Inl e)"
  shows "disciplined I R M Q' c s (pbind p f)"
  using assms(1)
proof induction
  case (disciplined_Ret c s r)
  then show ?case by (cases r) (auto intro: assms(2,3))
next
  case (disciplined_Act s k c)
  show ?case unfolding pbind.simps
  proof (rule disciplined.disciplined_Act)
    fix i t assume "I t" "R s t"
    then show "I (snd (map_prod (\<lambda>p. pbind p f) id (k i t))) \<and> R t (snd (map_prod (\<lambda>p. pbind p f) id (k i t)))
      \<and> (\<exists>c'. M c c' t (snd (map_prod (\<lambda>p. pbind p f) id (k i t)))
          \<and> disciplined I R M Q' c' (snd (map_prod (\<lambda>p. pbind p f) id (k i t))) (fst (map_prod (\<lambda>p. pbind p f) id (k i t))))"
      using disciplined_Act [of t i] by auto
  qed
qed

lemma disciplined_pcatch:
  assumes "disciplined I R M Q c s p"
    and "\<And>c t e. Q c t (Inl e) \<Longrightarrow> disciplined I R M Q' c t (h e)"
    and "\<And>c t a. Q c t (Inr a) \<Longrightarrow> Q' c t (Inr a)"
  shows "disciplined I R M Q' c s (pcatch p h)"
  using assms(1)
proof induction
  case (disciplined_Ret c s r)
  then show ?case by (cases r) (auto intro: assms(2,3))
next
  case (disciplined_Act s k c)
  show ?case unfolding pcatch.simps
  proof (rule disciplined.disciplined_Act)
    fix i t assume "I t" "R s t"
    then show "I (snd (map_prod (\<lambda>p. pcatch p h) id (k i t))) \<and> R t (snd (map_prod (\<lambda>p. pcatch p h) id (k i t)))
      \<and> (\<exists>c'. M c c' t (snd (map_prod (\<lambda>p. pcatch p h) id (k i t)))
          \<and> disciplined I R M Q' c' (snd (map_prod (\<lambda>p. pcatch p h) id (k i t))) (fst (map_prod (\<lambda>p. pcatch p h) id (k i t))))"
      using disciplined_Act [of t i] by auto
  qed
qed

lemma disciplined_act:
  assumes "\<And>i t r u. I t \<Longrightarrow> R s t \<Longrightarrow> p i t = (r, u) \<Longrightarrow> I u \<and> R t u \<and> (\<exists>c'. M c c' t u \<and> Q c' u r)"
  shows "disciplined I R M Q c s (act p)"
  unfolding act_def
proof (rule disciplined_Act)
  fix i t assume "I t" "R s t"
  then have "I (snd (p i t)) \<and> R t (snd (p i t)) \<and> (\<exists>c'. M c c' t (snd (p i t)) \<and> Q c' (snd (p i t)) (fst (p i t)))"
    by (rule assms) simp
  then show "I (snd (map_prod Ret id (p i t))) \<and> R t (snd (map_prod Ret id (p i t)))
      \<and> (\<exists>c'. M c c' t (snd (map_prod Ret id (p i t)))
          \<and> disciplined I R M Q c' (snd (map_prod Ret id (p i t))) (fst (map_prod Ret id (p i t))))" by simp
qed

lemma disciplined_forget:
  "disciplined I R M (\<lambda>_ _ _. True) c s p \<Longrightarrow> disciplined I R M (\<lambda>_ _ _. True) c s (forget p)"
  unfolding forget_def by (rule disciplined_pbind) simp_all

section \<open>No effect twice\<close>

definition claim_move :: "('s \<Rightarrow> 'x list) \<Rightarrow> ('s \<Rightarrow> 'x set) \<Rightarrow> 'x option \<Rightarrow> 'x option \<Rightarrow> 's \<Rightarrow> 's \<Rightarrow> bool" where
  "claim_move performed claimed c c' s t \<longleftrightarrow>
     (performed t = performed s \<and> (c' = c \<or> c' = None \<or> (\<exists>x. c' = Some x \<and> x \<notin> claimed s \<and> x \<in> claimed t)))
     \<or> (\<exists>x. c = Some x \<and> c' = None \<and> performed t = performed s @ [x])"

locale claim_discipline = rely_guarantee I R
  for I :: "'s \<Rightarrow> bool" and R :: "'s \<Rightarrow> 's \<Rightarrow> bool" +
  fixes performed :: "'s \<Rightarrow> 'x list" and claimed :: "'s \<Rightarrow> 'x set"
  assumes claimed_mono: "I s \<Longrightarrow> R s t \<Longrightarrow> claimed s \<subseteq> claimed t"
begin

definition pool_claims :: "(nat \<Rightarrow> 'x option) \<Rightarrow> ('i, 's, 'e, 'a) prog list \<times> 's \<Rightarrow> bool" where
  "pool_claims own c \<longleftrightarrow>
     I (snd c)
     \<and> (\<forall>n < length (fst c). disciplined I R (claim_move performed claimed) (\<lambda>_ _ _. True) (own n) (snd c) (fst c ! n))
     \<and> distinct (performed (snd c)) \<and> set (performed (snd c)) \<subseteq> claimed (snd c)
     \<and> (\<forall>n < length (fst c). \<forall>x. own n = Some x \<longrightarrow> x \<in> claimed (snd c) \<and> x \<notin> set (performed (snd c)))
     \<and> (\<forall>m < length (fst c). \<forall>n < length (fst c). \<forall>x. own m = Some x \<longrightarrow> own n = Some x \<longrightarrow> m = n)"

lemma disciplined_later:
  assumes "disciplined I R M (\<lambda>_ _ _. True) c s p" "R s t"
  shows "disciplined I R M (\<lambda>_ _ _. True) c t p"
proof (cases p)
  case (Act k)
  show ?thesis unfolding Act
  proof (rule disciplined.disciplined_Act)
    fix i u assume "I u" "R t u"
    moreover from this have "R s u" using assms(2) R_trans by blast
    ultimately show "I (snd (k i u)) \<and> R u (snd (k i u))
        \<and> (\<exists>c'. M c c' u (snd (k i u)) \<and> disciplined I R M (\<lambda>_ _ _. True) c' (snd (k i u)) (fst (k i u)))"
      using assms(1) [unfolded Act] by (elim disciplined_ActE) blast
  qed
qed simp

lemma pool_claims_step:
  assumes "pool_claims own c" "pstep c d"
  shows "\<exists>own'. pool_claims own' d"
  using assms(2)
proof cases
  case (pstep n ps k i s p t)
  note I = assms(1) [unfolded pstep(1) pool_claims_def fst_conv snd_conv]
  have "disciplined I R (claim_move performed claimed) (\<lambda>_ _ _. True) (own n) s (Act k)" using I pstep(3,4) by metis
  then obtain c' where step: "I t" "R s t" "claim_move performed claimed (own n) c' s t"
      "disciplined I R (claim_move performed claimed) (\<lambda>_ _ _. True) c' t p"
    using I R_refl pstep(5) by (elim disciplined_ActE) (metis fst_conv snd_conv)
  have mono: "claimed s \<subseteq> claimed t" using claimed_mono I step(2) by blast
  have rest: "disciplined I R (claim_move performed claimed) (\<lambda>_ _ _. True) ((own(n := c')) m) t (ps[n := p] ! m)"
    if "m < length ps" for m
    using I that step(2,4) pstep(3) by (cases "m = n") (auto intro: disciplined_later)
  have "pool_claims (own(n := c')) (ps[n := p], t)"
    using step(3) unfolding claim_move_def
  proof (elim disjE conjE exE)
    assume "c' = own n" and d: "performed t = performed s"
    then show ?thesis using I step(1) rest mono unfolding pool_claims_def by (simp add: fun_upd_idem) blast
  next
    assume "c' = None" and d: "performed t = performed s"
    then show ?thesis using I step(1) rest mono unfolding pool_claims_def by (simp split: if_splits) blast
  next
    fix x assume "c' = Some x" and x: "x \<notin> claimed s" "x \<in> claimed t" and d: "performed t = performed s"
    moreover have "own m \<noteq> Some x" if "m < length ps" for m using I x(1) that by blast
    moreover have "x \<notin> set (performed t)" using I x(1) d by auto
    ultimately show ?thesis using I step(1) rest mono d unfolding pool_claims_def by (simp split: if_splits) blast
  next
    fix x assume x: "own n = Some x" and c': "c' = None" and d: "performed t = performed s @ [x]"
    have new: "x \<notin> set (performed s)" "x \<in> claimed t" using I x pstep(3) mono by blast+
    have "own m \<noteq> Some x" if "m < length ps" "m \<noteq> n" for m using I x pstep(3) that by blast
    then show ?thesis using I step(1) rest mono d c' new unfolding pool_claims_def by (simp split: if_splits) blast
  qed
  then have "\<exists>own'. pool_claims own' (ps[n := p], t)" by blast
  then show ?thesis by (simp only: pstep(2))
qed

lemma pool_claims_steps:
  assumes "pstep\<^sup>*\<^sup>* c d" "\<exists>own. pool_claims own c"
  shows "\<exists>own. pool_claims own d"
  using assms by induction (use pool_claims_step in blast)+

text \<open>Handlers that start without a claim perform no effect twice.\<close>

lemma performed_once:
  assumes "pstep\<^sup>*\<^sup>* (ps, s) (qs, t)" "I s" "performed s = []"
    and "\<And>p. p \<in> set ps \<Longrightarrow> disciplined I R (claim_move performed claimed) (\<lambda>_ _ _. True) None s p"
  shows "I t \<and> distinct (performed t) \<and> set (performed t) \<subseteq> claimed t"
proof -
  have "pool_claims (\<lambda>_. None) (ps, s)" using assms(2-4) by (simp add: pool_claims_def)
  then obtain own where "pool_claims own (qs, t)" using pool_claims_steps [OF assms(1)] by blast
  then show ?thesis by (simp add: pool_claims_def)
qed

end

end
