(* ===== verification/Dispatch_Pool.thy ===== *)
theory Dispatch_Pool
  imports Dispatch_Safety Exclusive_Claims
begin

text \<open>
  Dispatches that overlap. The dispatch of \<open>Provider_Dispatch\<close> once more, as a program of
  awaited steps (\<open>dispatch\_program\<close>), so that several of them and any other operations of the
  platform can run in one pool and share one world. Run by itself the program is
  \<open>dispatchProviderRequest\<close> with nothing committed in between (\<open>dispatch\_program\_alone\<close>).
  Marking the intent dispatched is the claim of \<open>Exclusive\_Claims\<close> and the submission the
  effect it licenses: every interleaving submits an intent at most once.
\<close>

section \<open>The dispatch as a program\<close>

type_synonym 'a dispatch_prog = "(dispatch_env, world, platform_error, 'a) prog"

definition on_db :: "(platform_db, platform_error, 'a) proc \<Rightarrow> (world, platform_error, 'a) proc" where
  "on_db q w = (case q (w_db w) of (r, db') \<Rightarrow> (r, w\<lparr>w_db := db'\<rparr>))"

definition dstep :: "(dispatch_env \<Rightarrow> (platform_db, platform_error, 'a) proc) \<Rightarrow> 'a dispatch_prog" where
  "dstep q = act (\<lambda>e. on_db (q e))"

definition gates_program :: "ProviderAdapter \<Rightarrow> DispatchProviderRequestParams \<Rightarrow> ConsentRecord dispatch_prog" where
  "gates_program a p =
     pbind (dstep (\<lambda>_. reading (isActive (ad_providerId a) (dp_capability p) (mode_of p)))) (\<lambda>active.
     if \<not> active then pthrow (ProviderDisabledError (ad_providerId a) (dp_capability p) (mode_of p))
     else
       pbind (if mode_of p = SIMULATOR then preturn True
              else dstep (\<lambda>_. reading (isActivated (ad_providerId a) (dp_capability p) (mode_of p)))) (\<lambda>activated.
       if \<not> activated then pthrow (ProviderNotActivatedError (ad_providerId a) (dp_capability p) (mode_of p))
       else
         pbind (dstep (\<lambda>e. reading (activeRecordForPurpose (clk e 2) (dp_tenantId p) (dp_caseId p)
                 (dp_purposeCode p) (dp_permittedDataClasses p)))) (\<lambda>consent.
         case consent of
           None \<Rightarrow> pthrow (ProviderConsentScopeError (dp_purposeCode p) (dp_permittedDataClasses p))
         | Some r \<Rightarrow> preturn r)))"

definition validate_program :: "nat \<Rightarrow> DispatchProviderRequestParams \<Rightarrow> uuid \<Rightarrow> (string + unit) dispatch_prog" where
  "validate_program k p did = dstep (\<lambda>e. reading (validate_purpose (clk e k) did (purpose_context p)))"

definition purpose_program :: "DispatchProviderRequestParams \<Rightarrow> uuid option dispatch_prog" where
  "purpose_program p =
     (if dp_capability p \<noteq> CREDIT then preturn (dp_permissiblePurposeDecisionId p)
      else
        pbind (if truthy (dp_permissiblePurposeDecisionId p) = None \<and> mode_of p = SIMULATOR
               then pbind (dstep (\<lambda>e. run_txn (issueSynthetic (clk e 3) (id_purpose e) (purpose_context p))))
                      (\<lambda>d. preturn (Some d))
               else preturn (dp_permissiblePurposeDecisionId p)) (\<lambda>decision.
        case truthy decision of
          None \<Rightarrow> pthrow (PermissiblePurposeError
            ''consumer-report dispatch requires a transaction-specific permissible-purpose decision'')
        | Some d \<Rightarrow>
            pbind (validate_program 4 p d) (\<lambda>v.
              case v of
                Inl reason \<Rightarrow> pthrow (PermissiblePurposeError reason)
              | Inr _ \<Rightarrow> preturn decision)))"

definition mark_failed_program ::
  "crypto \<Rightarrow> nat \<Rightarrow> ProviderOperationIntent \<Rightarrow> json option \<Rightarrow> unit dispatch_prog" where
  "mark_failed_program cx k i r =
     dstep (\<lambda>e. run_txn (markFailedFinal cx (fst (nonces e)) (clk e k) (int_tenantId i) (int_id i) r))"

definition final_program ::
  "crypto \<Rightarrow> ProviderAdapter \<Rightarrow> DispatchProviderRequestParams \<Rightarrow> uuid \<Rightarrow> uuid option
     \<Rightarrow> ProviderOperationIntent \<Rightarrow> ProviderAuthorizationGrant dispatch_prog" where
  "final_program cx a p gid decision i =
     pbind (dstep (\<lambda>_. reading id)) (\<lambda>grant_view.
     pbind (dstep (\<lambda>e. reading (\<lambda>later. revalidate (clk e 8) gid (expected_of a p) later grant_view))) (\<lambda>rv.
     case rv of
       Inl reason \<Rightarrow> pbind (mark_failed_program cx 9 i None) (\<lambda>_. pthrow (ProviderRevalidationError reason))
     | Inr g \<Rightarrow>
         (case truthy decision of
            None \<Rightarrow> preturn g
          | Some d \<Rightarrow>
              pbind (validate_program 10 p d) (\<lambda>v.
                case v of
                  Inl reason \<Rightarrow> pbind (mark_failed_program cx 11 i None) (\<lambda>_. pthrow (PermissiblePurposeError reason))
                | Inr _ \<Rightarrow> preturn g))))"

definition outcome_program ::
  "crypto \<Rightarrow> ProviderAdapter \<Rightarrow> DispatchProviderRequestParams \<Rightarrow> ProviderOperationIntent
     \<Rightarrow> ProviderAuthorizationGrant \<Rightarrow> submit_result \<Rightarrow> json dispatch_prog" where
  "outcome_program cx a p i g result =
     (case result of
        Rejected \<Rightarrow> pbind (mark_failed_program cx 14 i None) (\<lambda>_. pthrow SyntheticProviderRejectionError)
      | Failed msg \<Rightarrow>
          pbind (dstep (\<lambda>e. run_txn (markOutcomeUnknown (clk e 14) (int_tenantId i) (int_id i))))
            (\<lambda>_. pthrow (ProviderFailure msg))
      | Completed r \<Rightarrow>
          pcatch
            (pbind (query (\<lambda>e _. accept_finding e a p g r)) (\<lambda>accepted.
               case accepted of
                 Inl e \<Rightarrow> pthrow e
               | Inr f \<Rightarrow>
                   pbind (dstep (\<lambda>e. run_txn (markSucceeded cx (fst (nonces e)) (snd (nonces e)) (clk e 14)
                           (int_tenantId i) (int_id i) (receipt_json r) f))) (\<lambda>_. preturn f)))
            (\<lambda>e.
               if e = SyntheticProviderRejectionError
               then pbind (mark_failed_program cx 15 i None) (\<lambda>_. pthrow e)
               else pbind (mark_failed_program cx 15 i (Some (receipt_json r))) (\<lambda>_. pthrow e)))"

definition submit_program ::
  "crypto \<Rightarrow> ProviderAdapter \<Rightarrow> DispatchProviderRequestParams \<Rightarrow> ProviderOperationIntent
     \<Rightarrow> ProviderAuthorizationGrant \<Rightarrow> json dispatch_prog" where
  "submit_program cx a p i g =
     pbind (act (\<lambda>_. log_submission a i g)) (\<lambda>_.
       outcome_program cx a p i g (ad_submit a (dp_request p) i g (dispatch_context p)))"

definition prepared_program ::
  "crypto \<Rightarrow> ProviderAdapter \<Rightarrow> DispatchProviderRequestParams \<Rightarrow> uuid \<Rightarrow> uuid option
     \<Rightarrow> ProviderOperationIntent \<Rightarrow> json dispatch_prog" where
  "prepared_program cx a p gid decision i =
     (if int_state i = SUCCEEDED
      then (case int_normalizedFinding i of
              None \<Rightarrow> pthrow (ProviderIntentReplayBlockedError (int_logicalOperationKey i))
            | Some f \<Rightarrow> preturn f)
      else if int_state i \<noteq> PREPARED
      then pthrow (ProviderIntentReplayBlockedError (int_logicalOperationKey i))
      else
        pbind (final_program cx a p gid decision i) (\<lambda>g.
        pbind (dstep (\<lambda>e. run_txn (markDispatched (clk e 12) (int_tenantId i) (int_id i)))) (\<lambda>_.
          submit_program cx a p i g)))"

definition authorized_program ::
  "crypto \<Rightarrow> ProviderAdapter \<Rightarrow> DispatchProviderRequestParams \<Rightarrow> ConsentRecord \<Rightarrow> uuid option \<Rightarrow> json dispatch_prog" where
  "authorized_program cx a p consent decision =
     pbind (dstep (\<lambda>e. run_txn (issue (clk e 5) (id_grant e) (issue_input a p consent decision)))) (\<lambda>grant.
     pbind (dstep (\<lambda>e. prepare cx (stale_read e)
             \<lparr>fresh_id = id_intent e, fresh_idempotencyKey = id_idempotency e, fresh_now = clk e 6\<rparr>
             (prepare_input a p (gr_id grant)))) (\<lambda>i.
       prepared_program cx a p (gr_id grant) decision i))"

definition dispatch_program ::
  "crypto \<Rightarrow> registry \<Rightarrow> DispatchProviderRequestParams \<Rightarrow> json dispatch_prog" where
  "dispatch_program cx reg p =
     (case resolve_adapter reg (dp_capability p) (mode_of p) of
        Inl e \<Rightarrow> pthrow e
      | Inr a \<Rightarrow>
          (case assertNotStructurallyExcluded ''provider_adapter''
                  (tuple_name (ad_providerId a) (dp_capability p) (mode_of p)) (ad_excludedCommandClass a) of
             Inl e \<Rightarrow> pthrow e
           | Inr _ \<Rightarrow>
               pbind (gates_program a p) (\<lambda>consent.
               pbind (purpose_program p) (\<lambda>decision.
                 authorized_program cx a p consent decision))))"

section \<open>Alone, it is the dispatch\<close>

lemma prun_pcatch_const:
  "prun (pcatch p h) (\<lambda>_. i) s =
     (case prun p (\<lambda>_. i) s of (Inl e, t) \<Rightarrow> prun (h e) (\<lambda>_. i) t | (Inr a, t) \<Rightarrow> (Inr a, t))"
proof (induction p arbitrary: s)
  case (Ret r)
  then show ?case by (cases r) simp_all
next
  case (Act k)
  obtain p t where k: "k i s = (p, t)" by fastforce
  have "prun (pcatch p h) (\<lambda>_. i) t
      = (case prun p (\<lambda>_. i) t of (Inl e, t) \<Rightarrow> prun (h e) (\<lambda>_. i) t | (Inr a, t) \<Rightarrow> (Inr a, t))"
    by (rule Act.IH [of "k i" "(p, t)"]) (use k in \<open>auto simp: fsts.simps intro: range_eqI [of _ _ s]\<close>)
  with k show ?case by simp
qed

abbreviation alone :: "dispatch_env \<Rightarrow> 'a dispatch_prog \<Rightarrow> (world, platform_error, 'a) proc" where
  "alone e p \<equiv> prun p (\<lambda>_. e)"

lemma alone_simps:
  "alone e (pbind q f) = bind (alone e q) (\<lambda>a. alone e (f a))"
  "alone e (pcatch q h) = catch (alone e q) (\<lambda>x. alone e (h x))"
  "alone e (preturn a) = return a" "alone e (pthrow x) = throw x"
  "alone e (act (\<lambda>_. m)) = m"
  by (auto simp: fun_eq_iff prun_pbind_const prun_pcatch_const bind_def catch_def return_def throw_def split: prod.split sum.split)

lemma alone_cases:
  "alone e (if b then q else q') = (if b then alone e q else alone e q')"
  "alone e (case x of None \<Rightarrow> q | Some a \<Rightarrow> f a) = (case x of None \<Rightarrow> alone e q | Some a \<Rightarrow> alone e (f a))"
  "alone e (case y of Inl a \<Rightarrow> g a | Inr b \<Rightarrow> h b) = (case y of Inl a \<Rightarrow> alone e (g a) | Inr b \<Rightarrow> alone e (h b))"
  by (simp_all split: option.split sum.split)

lemma alone_dstep: "alone e (dstep q) = on_db (q e)"
  by (auto simp: fun_eq_iff dstep_def)

lemma alone_query: "alone e (query (\<lambda>e _. v e)) = return (v e)" "bind (return a) f = f a"
  by (simp_all add: fun_eq_iff query_def bind_def)

definition quiet :: "dispatch_env \<Rightarrow> bool" where
  "quiet e \<longleftrightarrow> others e = (\<lambda>_ db. db)"

lemma step_quiet: "quiet e \<Longrightarrow> step e k q = on_db q"
  by (simp add: fun_eq_iff step_def on_db_def quiet_def)

lemma stages_alone:
  assumes "quiet e"
  shows "alone e (gates_program a p) = check_gates e a p"
    "alone e (validate_program k p d) = validate_step e k p d"
    "alone e (mark_failed_program cx k i ro) = mark_failed cx e k i ro"
  unfolding gates_program_def check_gates_def validate_program_def validate_step_def mark_failed_program_def mark_failed_def
  by (simp_all only: alone_simps alone_cases alone_dstep step_quiet [OF assms])

lemma checks_alone:
  assumes "quiet e"
  shows "alone e (purpose_program p) = purpose_authority e p"
    "alone e (final_program cx a p gid d i) = final_checks cx e a p gid d i"
  unfolding purpose_program_def purpose_authority_def final_program_def final_checks_def
  by (simp_all only: alone_simps alone_cases alone_dstep step_quiet [OF assms] stages_alone [OF assms])

lemma outcome_alone:
  assumes "quiet e"
  shows "alone e (outcome_program cx a p i g res) = record_outcome cx e a p i g res"
  unfolding outcome_program_def record_outcome_def
  by (cases res)
    (simp_all only: submit_result.case alone_query alone_simps alone_cases alone_dstep step_quiet [OF assms] stages_alone [OF assms])

text \<open>Run alone, the program is the dispatch with nothing in between.\<close>

lemma dispatch_program_alone:
  assumes "quiet e"
  shows "alone e (dispatch_program cx reg p) = dispatchProviderRequest cx reg e p"
  unfolding dispatch_program_def dispatchProviderRequest_def authorized_program_def dispatch_authorized_def
    prepared_program_def dispatch_prepared_def submit_program_def submit_and_record_def
  by (simp only: alone_simps alone_cases alone_dstep step_quiet [OF assms] stages_alone [OF assms]
      checks_alone [OF assms] outcome_alone [OF assms])

section \<open>The pool\<close>

datatype pool_call =
    Dispatch crypto registry DispatchProviderRequestParams
  | Operation platform_op

fun pool_handler :: "pool_call \<Rightarrow> unit dispatch_prog" where
  "pool_handler (Dispatch cx reg p) = forget (dispatch_program cx reg p)"
| "pool_handler (Operation x) = dstep (\<lambda>_. platform_exec x)"

text \<open>The logical operation of a submission: the key of its intent, and of a dispatch that was asked for.\<close>

definition submitted_for :: "world \<Rightarrow> submission \<Rightarrow> (uuid \<times> string \<times> ProviderCapability \<times> string) \<Rightarrow> bool" where
  "submitted_for w s k \<longleftrightarrow> (\<exists>x \<in> set (intents (w_db w)). int_id x = sub_intentId s \<and> effect_key x = k)"

definition requested :: "pool_call list \<Rightarrow> string \<Rightarrow> (uuid \<times> string \<times> ProviderCapability \<times> string) \<Rightarrow> bool" where
  "requested calls prov k \<longleftrightarrow> (\<exists>cx reg p. Dispatch cx reg p \<in> set calls
     \<and> k = (dp_tenantId p, prov, dp_capability p, logical_key p))"

definition world_ok :: "pool_call list \<Rightarrow> world \<Rightarrow> bool" where
  "world_ok calls w \<longleftrightarrow> platform_inv (w_db w)
     \<and> (\<forall>s \<in> set (w_sent w). \<exists>k. submitted_for w s k \<and> requested calls (sub_providerId s) k)"

definition world_le :: "world \<Rightarrow> world \<Rightarrow> bool" where
  "world_le w w' \<longleftrightarrow> platform_le (w_db w) (w_db w')"

definition submitted :: "world \<Rightarrow> uuid list" where
  "submitted w = map sub_intentId (w_sent w)"

definition beyond_prepared :: "world \<Rightarrow> uuid set" where
  "beyond_prepared w = int_id ` {x \<in> set (intents (w_db w)). 0 < ladder (int_state x)}"

lemma row_later:
  assumes "platform_le db db'" "x \<in> set (intents db)"
  obtains y where "y \<in> set (intents db')" "intent_identity y = intent_identity x" "ladder (int_state x) \<le> ladder (int_state y)"
proof -
  obtain y where "y \<in> set (intents db')" "intent_advance x y" using assms by (auto simp: platform_le_def dest: growsD)
  then show thesis by (intro that [of y]) (auto simp: intent_advance_def)
qed

lemma same_identity: "intent_identity x = intent_identity y \<Longrightarrow> int_id x = int_id y \<and> effect_key x = effect_key y"
  by (simp add: intent_identity_def effect_key_def)

lemma submitted_for_later: "platform_le (w_db w) (w_db w') \<Longrightarrow> submitted_for w s k \<Longrightarrow> submitted_for w' s k"
  unfolding submitted_for_def by (metis row_later same_identity)

interpretation dc: claim_discipline "world_ok calls" world_le submitted beyond_prepared for calls
proof
  show "world_le s s" for s by (simp add: world_le_def platform_le_refl)
  show "world_le s t \<Longrightarrow> world_le t u \<Longrightarrow> world_le s u" for s t u unfolding world_le_def by (rule platform_le_trans)
  show "beyond_prepared s \<subseteq> beyond_prepared t" if "world_le s t" for s t
  proof
    fix i assume "i \<in> beyond_prepared s"
    then obtain x where x: "x \<in> set (intents (w_db s))" "i = int_id x" "0 < ladder (int_state x)"
      by (auto simp: beyond_prepared_def)
    obtain y where "y \<in> set (intents (w_db t))" "intent_identity y = intent_identity x" "ladder (int_state x) \<le> ladder (int_state y)"
      using row_later [OF _ x(1)] \<open>world_le s t\<close> by (auto simp: world_le_def)
    then show "i \<in> beyond_prepared t" using x same_identity [of y x] by (auto simp: beyond_prepared_def intro!: image_eqI [of _ _ y])
  qed
qed

section \<open>Every handler keeps the discipline\<close>

abbreviation well_claimed :: "pool_call list \<Rightarrow> (uuid option \<Rightarrow> world \<Rightarrow> platform_error + 'a \<Rightarrow> bool)
    \<Rightarrow> uuid option \<Rightarrow> world \<Rightarrow> 'a dispatch_prog \<Rightarrow> bool" where
  "well_claimed calls Q c w q \<equiv> disciplined (world_ok calls) world_le (claim_move submitted beyond_prepared) Q c w q"

lemma world_ok_later:
  "world_ok calls w \<Longrightarrow> forward (w_db w) db' \<Longrightarrow> world_ok calls (w\<lparr>w_db := db'\<rparr>) \<and> world_le w (w\<lparr>w_db := db'\<rparr>)"
  unfolding world_ok_def world_le_def forward_def
  using submitted_for_later [of w "w\<lparr>w_db := db'\<rparr>"] by fastforce

lemma same_sent: "w_sent w' = w_sent w \<Longrightarrow> claim_move submitted beyond_prepared c c w w'"
  by (simp add: claim_move_def submitted_def)

text \<open>A step of the platform keeps whatever claim is held.\<close>

lemma claims_dstep:
  assumes "\<And>e db. forward db (snd (q e db))"
    and "\<And>e t r db'. world_ok calls t \<Longrightarrow> world_le w t \<Longrightarrow> q e (w_db t) = (r, db') \<Longrightarrow> Q c (t\<lparr>w_db := db'\<rparr>) r"
  shows "well_claimed calls Q c w (dstep q)"
  unfolding dstep_def
proof (rule disciplined_act)
  fix e t r u assume t: "world_ok calls t" "world_le w t" and u: "on_db (q e) t = (r, u)"
  obtain db' where db': "q e (w_db t) = (r, db')" "u = t\<lparr>w_db := db'\<rparr>" using u by (auto simp: on_db_def split: prod.splits)
  have "forward (w_db t) db'" using assms(1) [of "w_db t" e] db'(1) by simp
  then show "world_ok calls u \<and> world_le t u \<and> (\<exists>c'. claim_move submitted beyond_prepared c c' t u \<and> Q c' u r)"
    using world_ok_later [OF t(1)] assms(2) [OF t db'(1)] same_sent [of u t c] db'(2) by auto
qed

lemma forward_steps:
  "forward db (snd (reading f db))" "forward db (snd (run_txn (issueSynthetic n1 i1 x1) db))"
  "forward db (snd (run_txn (issue n2 i2 x2) db))" "forward db (snd (prepare cx st fr inp db))"
  "forward db (snd (run_txn (markFailedFinal cx a n3 t3 i3 ro) db))" "forward db (snd (run_txn (markOutcomeUnknown n4 t4 i4) db))"
  "forward db (snd (run_txn (markSucceeded cx a b n5 t5 i5 rc f5) db))" "forward db (snd (run_txn (markDispatched n6 t6 i6) db))"
  "forward db (snd (platform_exec x db))"
  using platform_exec_forward [of db "Op_issueSynthetic n1 i1 x1"] platform_exec_forward [of db "Op_issue n2 i2 x2"]
    platform_exec_forward [of db "Op_markFailedFinal cx a n3 t3 i3 ro"] platform_exec_forward [of db "Op_markOutcomeUnknown n4 t4 i4"]
    platform_exec_forward [of db "Op_markSucceeded cx a b n5 t5 i5 rc f5"] platform_exec_forward [of db "Op_markDispatched n6 t6 i6"]
    platform_exec_forward [of db "Op_prepare cx st fr inp"] platform_exec_forward [of db x]
  by (simp_all add: reading_def forward_def platform_le_refl)

text \<open>Stages that neither claim nor submit.\<close>

definition unclaiming :: "pool_call list \<Rightarrow> 'a dispatch_prog \<Rightarrow> bool" where
  "unclaiming calls q \<longleftrightarrow> (\<forall>c w. well_claimed calls (\<lambda>c' t _. c' = c \<and> world_le w t) c w q)"

lemma unclaimingD: "unclaiming calls q \<Longrightarrow> well_claimed calls (\<lambda>c' t _. c' = c \<and> world_le w t) c w q"
  by (simp add: unclaiming_def)

lemma unclaiming_dstep:
  assumes "\<And>e db. forward db (snd (q e db))"
  shows "unclaiming calls (dstep q)"
  unfolding unclaiming_def
proof (intro allI claims_dstep [OF assms] conjI refl)
  fix w e t r db' assume t: "world_ok calls t" "world_le w t" "q e (w_db t) = (r, db')"
  have "world_le t (t\<lparr>w_db := db'\<rparr>)" using world_ok_later [OF t(1)] assms [of "w_db t" e] t(3) by simp
  then show "world_le w (t\<lparr>w_db := db'\<rparr>)" using t(2) dc.R_trans by blast
qed

lemma unclaiming_pbind:
  assumes "unclaiming calls q" "\<And>a. unclaiming calls (f a)"
  shows "unclaiming calls (pbind q f)"
  unfolding unclaiming_def
proof (intro allI, rule disciplined_pbind [OF unclaimingD [OF assms(1)]])
  fix c c' :: "uuid option" and w t a assume "c' = c \<and> world_le w t"
  then have eq: "c' = c" and le: "world_le w t" by simp_all
  show "well_claimed calls (\<lambda>c' t _. c' = c \<and> world_le w t) c' t (f a)"
    unfolding eq by (rule disciplined_weaken [OF unclaimingD [OF assms(2)]]) (use le dc.R_trans in blast)
qed simp

lemma unclaiming_pcatch:
  assumes "unclaiming calls q" "\<And>x. unclaiming calls (h x)"
  shows "unclaiming calls (pcatch q h)"
  unfolding unclaiming_def
proof (intro allI, rule disciplined_pcatch [OF unclaimingD [OF assms(1)]])
  fix c c' :: "uuid option" and w t x assume "c' = c \<and> world_le w t"
  then have eq: "c' = c" and le: "world_le w t" by simp_all
  show "well_claimed calls (\<lambda>c' t _. c' = c \<and> world_le w t) c' t (h x)"
    unfolding eq by (rule disciplined_weaken [OF unclaimingD [OF assms(2)]]) (use le dc.R_trans in blast)
qed simp

lemma unclaiming_ends [simp]: "unclaiming calls (preturn a)" "unclaiming calls (pthrow x)"
  by (simp_all add: unclaiming_def dc.R_refl)

lemma unclaiming_query: "unclaiming calls (query f)"
  unfolding unclaiming_def query_def
  by (intro allI disciplined_act) (auto simp: dc.R_refl claim_move_def)

lemmas unclaiming_rules = unclaiming_pbind unclaiming_pcatch unclaiming_dstep unclaiming_query forward_steps

lemma unclaiming_stages:
  "unclaiming calls (gates_program a p)" "unclaiming calls (purpose_program p)" "unclaiming calls (mark_failed_program cx k i ro)"
  "unclaiming calls (final_program cx a p gid d i)" "unclaiming calls (outcome_program cx a p i g res)"
  unfolding gates_program_def purpose_program_def mark_failed_program_def final_program_def outcome_program_def validate_program_def
  by (auto intro!: unclaiming_rules split: option.split sum.split submit_result.split)

text \<open>The intent of a dispatch, and the state of the world that knows its row.\<close>

definition knows :: "ProviderOperationIntent \<Rightarrow> world \<Rightarrow> bool" where
  "knows i w \<longleftrightarrow> (\<exists>x \<in> set (intents (w_db w)). intent_identity x = intent_identity i)"

lemma knows_later: "knows i w \<Longrightarrow> world_le w t \<Longrightarrow> knows i t"
  unfolding knows_def world_le_def by (metis row_later)

text \<open>Marking the intent dispatched takes the claim.\<close>

lemma marking_claims:
  assumes "knows i w"
  shows "well_claimed calls (\<lambda>c u r. knows i u \<and> (\<forall>a. r = Inr a \<longrightarrow> c = Some (int_id i))) None w
    (dstep (\<lambda>e. run_txn (markDispatched (clk e 12) (int_tenantId i) (int_id i))))"
  unfolding dstep_def
proof (rule disciplined_act)
  fix e t r u
  assume t: "world_ok calls t" "world_le w t"
    and u: "on_db (run_txn (markDispatched (clk e 12) (int_tenantId i) (int_id i))) t = (r, u)"
  obtain db' where db': "run_txn (markDispatched (clk e 12) (int_tenantId i) (int_id i)) (w_db t) = (r, db')" "u = t\<lparr>w_db := db'\<rparr>"
    using u by (auto simp: on_db_def split: prod.splits)
  have ok: "world_ok calls u" "world_le t u"
    using world_ok_later [OF t(1)] forward_steps(8) [of "w_db t" "clk e 12" "int_tenantId i" "int_id i"] db' by auto
  have k: "knows i u" using knows_later [OF assms dc.R_trans [OF t(2) ok(2)]] .
  show "world_ok calls u \<and> world_le t u \<and> (\<exists>c'. claim_move submitted beyond_prepared None c' t u
      \<and> knows i u \<and> (\<forall>a. r = Inr a \<longrightarrow> c' = Some (int_id i)))"
  proof (cases r)
    case (Inl x)
    then show ?thesis using ok k same_sent [of u t None] db'(2) by auto
  next
    case (Inr a)
    then have "markDispatched (clk e 12) (int_tenantId i) (int_id i) (w_db t) = Inr (a, db')"
      using db'(1) by (simp add: run_txn_Inr_iff)
    then obtain x where x: "x \<in> set (intents (w_db t))" "int_id x = int_id i" "int_state x = PREPARED"
        "x\<lparr>int_state := DISPATCHED, int_updatedAt := clk e 12\<rparr> \<in> set (intents db')"
      using markDispatched_InrD by blast
    have "y = x" if "y \<in> set (intents (w_db t))" "int_id y = int_id i" for y
      using same_row [of int_id "intents (w_db t)" y x] t(1) that x by (simp add: world_ok_def platform_inv_def)
    then have "int_id i \<notin> beyond_prepared t" using x(3) by (force simp: beyond_prepared_def)
    moreover have "int_id i \<in> beyond_prepared u"
      unfolding beyond_prepared_def using x(2,4) db'(2) by (force intro!: image_eqI [of _ _ "x\<lparr>int_state := DISPATCHED, int_updatedAt := clk e 12\<rparr>"])
    ultimately have "claim_move submitted beyond_prepared None (Some (int_id i)) t u"
      using db'(2) by (simp add: claim_move_def submitted_def)
    then show ?thesis using ok k by blast
  qed
qed

text \<open>The submission uses it up.\<close>

lemma submission_uses_claim:
  assumes "knows i w" "requested calls (ad_providerId a) (effect_key i)"
  shows "well_claimed calls (\<lambda>c _ _. c = None) (Some (int_id i)) w (act (\<lambda>_. log_submission a i g))"
proof (rule disciplined_act)
  fix e :: dispatch_env and t r u
  assume t: "world_ok calls t" "world_le w t" and u: "log_submission a i g t = (r, u)"
  obtain x where x: "x \<in> set (intents (w_db t))" "intent_identity x = intent_identity i"
    using knows_later [OF assms(1) t(2)] by (auto simp: knows_def)
  have op: "submitted_for u s k \<longleftrightarrow> submitted_for t s k" for s k using u by (auto simp: submitted_for_def log_submission_def)
  define new where "new = \<lparr>sub_intentId = int_id i, sub_tenantId = int_tenantId i, sub_providerId = ad_providerId a,
      sub_idempotencyKey = int_idempotencyKey i, sub_grant = g\<rparr>"
  have "submitted_for u new (effect_key i) \<and> requested calls (sub_providerId new) (effect_key i)"
    unfolding op using x same_identity [OF x(2)] assms(2) by (auto simp: submitted_for_def new_def)
  moreover have "set (w_sent u) = insert new (set (w_sent t))" "w_db u = w_db t"
    using u by (auto simp: log_submission_def new_def)
  ultimately have "world_ok calls u" using t(1) unfolding world_ok_def op by (metis insertE)
  moreover have "world_le t u" using u by (auto simp: world_le_def log_submission_def platform_le_refl)
  moreover have "claim_move submitted beyond_prepared (Some (int_id i)) None t u"
    using u by (auto simp: claim_move_def submitted_def log_submission_def)
  ultimately show "world_ok calls u \<and> world_le t u \<and> (\<exists>c'. claim_move submitted beyond_prepared (Some (int_id i)) c' t u \<and> c' = None)"
    by blast
qed

abbreviation anything :: "uuid option \<Rightarrow> world \<Rightarrow> platform_error + 'a \<Rightarrow> bool" where
  "anything \<equiv> \<lambda>_ _ _. True"

lemma claims_unclaiming: "unclaiming calls q \<Longrightarrow> well_claimed calls anything c w q"
  by (rule disciplined_weaken [OF unclaimingD]) simp_all

lemma claims_prepared:
  assumes "knows i w" "requested calls (ad_providerId a) (effect_key i)"
  shows "well_claimed calls anything None w (prepared_program cx a p gid d i)"
proof -
  have submit: "well_claimed calls anything (Some (int_id i)) u (submit_program cx a p i g)" if "knows i u" for u g
    unfolding submit_program_def
    by (rule disciplined_pbind [OF submission_uses_claim [OF that assms(2)]])
      (use claims_unclaiming [OF unclaiming_stages(5)] in simp_all)
  have mark: "well_claimed calls anything None u (pbind (dstep (\<lambda>e. run_txn (markDispatched (clk e 12) (int_tenantId i) (int_id i))))
      (\<lambda>_. submit_program cx a p i g))" if "knows i u" for u g
    by (rule disciplined_pbind [OF marking_claims [OF that]]) (use submit in auto)
  have "well_claimed calls anything None w (pbind (final_program cx a p gid d i) (\<lambda>g.
      pbind (dstep (\<lambda>e. run_txn (markDispatched (clk e 12) (int_tenantId i) (int_id i)))) (\<lambda>_. submit_program cx a p i g)))"
    by (rule disciplined_pbind [OF unclaimingD [OF unclaiming_stages(4)]]) (use mark knows_later [OF assms(1)] in auto)
  then show ?thesis unfolding prepared_program_def by (auto split: option.split)
qed

lemma claims_authorized:
  assumes "Dispatch cx reg p \<in> set calls"
  shows "well_claimed calls anything None w (authorized_program cx a p consent d)"
  unfolding authorized_program_def
proof (rule disciplined_pbind [OF unclaimingD [OF unclaiming_dstep [OF forward_steps(3)]]])
  fix c :: "uuid option" and t grant assume c: "c = None \<and> world_le w t"
  let ?prep = "\<lambda>e. prepare cx (stale_read e) \<lparr>fresh_id = id_intent e, fresh_idempotencyKey = id_idempotency e, fresh_now = clk e 6\<rparr>
      (prepare_input a p (gr_id grant))"
  have "well_claimed calls (\<lambda>c u r. c = None \<and> (\<forall>i. r = Inr i \<longrightarrow> knows i u \<and> requested calls (ad_providerId a) (effect_key i))) None t (dstep ?prep)"
  proof (rule claims_dstep [OF forward_steps(4)])
    fix e r db' and u :: world assume "?prep e (w_db u) = (r, db')"
    then show "None = None \<and> (\<forall>i. r = Inr i \<longrightarrow> knows i (u\<lparr>w_db := db'\<rparr>) \<and> requested calls (ad_providerId a) (effect_key i))"
      using assms prepare_InrD by (fastforce simp: knows_def requested_def prepare_input_def)
  qed
  then show "well_claimed calls anything c t (pbind (dstep ?prep) (\<lambda>i. prepared_program cx a p (gr_id grant) d i))"
    using c by (auto elim!: disciplined_pbind intro: claims_prepared)
qed simp

lemma claims_handler:
  assumes "x \<in> set calls"
  shows "well_claimed calls anything None w (pool_handler x)"
proof (cases x)
  case (Operation op)
  then show ?thesis using claims_unclaiming [OF unclaiming_dstep [OF forward_steps(9)]] by simp
next
  case (Dispatch cx reg p)
  have "well_claimed calls anything None w (pbind (gates_program a p) (\<lambda>consent. pbind (purpose_program p)
      (\<lambda>decision. authorized_program cx a p consent decision)))" for a
    by (rule disciplined_pbind [OF unclaimingD [OF unclaiming_stages(1)]],
        elim conjE, hypsubst, rule disciplined_pbind [OF unclaimingD [OF unclaiming_stages(2)]])
      (use claims_authorized assms Dispatch in auto)
  then have "well_claimed calls anything None w (dispatch_program cx reg p)"
    unfolding dispatch_program_def by (auto split: sum.split)
  then show ?thesis using Dispatch by (simp add: disciplined_forget)
qed

text \<open>In every interleaving each intent is submitted at most once, and only for a dispatch that was asked for.\<close>

lemma pool_submits_once:
  assumes "pstep\<^sup>*\<^sup>* (map pool_handler calls, w) (ps, w')" "platform_inv (w_db w)" "w_sent w = []"
  shows "world_ok calls w' \<and> distinct (map sub_intentId (w_sent w'))"
proof -
  have "world_ok calls w" "submitted w = []" using assms(2,3) by (simp_all add: world_ok_def submitted_def)
  then show ?thesis
    using dc.performed_once [OF assms(1), of calls] claims_handler by (auto simp: submitted_def)
qed

end
