(* ===== verification/Provider_Properties.thy ===== *)
theory Provider_Properties
  imports Provider_Scenario Dispatch_Pool
begin

text \<open>
  The properties of the provider platform: what a submission to a provider presupposes,
  that one logical operation is submitted at most once and never left unclassified, and
  what consent revocation, data disposition, legal holds and promotion guarantee.
\<close>

section \<open>Stages of a dispatch\<close>

lemma check_gates_InrD:
  assumes "check_gates env a p w = (Inr consent, w1)"
  shows "isActive (ad_providerId a) (dp_capability p) (mode_of p) (others env 0 (w_db w))"
    and "mode_of p \<noteq> SIMULATOR \<Longrightarrow>
      isActivated (ad_providerId a) (dp_capability p) (mode_of p) (others env 1 (others env 0 (w_db w)))"
  using assms by (auto simp: check_gates_def bind_Inr_iff split: if_splits option.splits)

lemma purpose_authority_credit:
  assumes "purpose_authority env p w = (Inr decision, w')" "dp_capability p = CREDIT"
  shows "\<exists>d. decision = Some d \<and> truthy decision = Some d"
  using assms
  by (auto simp: purpose_authority_def bind_Inr_iff truthy_def split: if_splits option.splits sum.splits)
    (metis old.unit.exhaust sumE)+

lemma final_checks_InrD:
  assumes "final_checks cx env a p gid decision i w = (Inr g, w')"
  shows "revalidate (clk env 8) gid (expected_of a p) (others env 8 (others env 7 (w_db w)))
      (others env 7 (w_db w)) = Inr g"
    and "truthy decision = Some d \<Longrightarrow>
      validate_purpose (clk env 10) d (purpose_context p) (others env 10 (others env 8 (others env 7 (w_db w)))) = Inr ()"
  using assms
  by (auto simp: final_checks_def validate_step_def bind_Inr_iff split: if_splits option.splits sum.splits)

lemma revalidate_InrD:
  assumes "revalidate now gid e later db = Inr g"
  shows "g \<in> set (grants db)" "gr_id g = gid" "gr_tenantId g = eg_tenantId e" "gr_caseId g = eg_caseId e"
    "gr_providerId g = eg_providerId e" "gr_capability g = eg_capability e"
    "gr_revokedAt g = None" "now < gr_expiresAt g" "gr_consentRecordIds g \<noteq> []"
    "\<And>c. c \<in> set (gr_consentRecordIds g) \<Longrightarrow> isRecordValid now c
        (Some \<lparr>exp_tenantId = gr_tenantId g, exp_caseId = gr_caseId g, exp_purpose = gr_purposeCode g,
               exp_dataClasses = gr_permittedDataClasses g\<rparr>) later"
  using assms
  by (auto simp: revalidate_def result_simps split: option.splits dest!: find_SomeD dest: find_NoneD)

lemma issue_InrD:
  assumes "issue now gid inp db = Inr (g, db')"
  shows "g \<in> set (grants db')" "gr_id g = gid" "gr_purposeCode g = iss_purposeCode inp"
    "gr_permittedDataClasses g = iss_permittedDataClasses inp" "gr_permittedFields g = iss_permittedFields inp"
    "gr_permissiblePurposeDecisionId g = iss_permissiblePurposeDecisionId inp"
  using assms by (auto simp: issue_def Let_def split: if_splits)

text \<open>The grant read back under its id is the one that was issued.\<close>

lemma grant_unchanged:
  assumes "platform_inv db" "g \<in> set (grants db)" "reach db db'" "h \<in> set (grants db')" "gr_id h = gr_id g"
    "gr_revokedAt h = None"
  shows "h = g"
proof -
  obtain g' where g': "g' \<in> set (grants db')" "grant_advance g g'"
    using reach_le [OF assms(1,3)] assms(2) by (auto simp: platform_le_def dest: growsD)
  moreover have "gr_id g' = gr_id g" using g'(2) by (auto simp: grant_advance_def)
  ultimately have "g' = h"
    using reach_inv [OF assms(1,3)] assms(4,5) same_row [of gr_id "grants db'" g' h]
    by (simp add: platform_inv_def)
  with g'(2) assms(6) show ?thesis by (auto simp: grant_advance_def)
qed

lemma submit_and_record_sent:
  assumes "submit_and_record cx env a p i g w = (r, w')"
  shows "w_sent w' = w_sent w @
    [\<lparr>sub_intentId = int_id i, sub_tenantId = int_tenantId i, sub_providerId = ad_providerId a,
      sub_idempotencyKey = int_idempotencyKey i, sub_grant = g\<rparr>]"
  using assms silentD [OF silent_stages(4)]
  by (fastforce simp: submit_and_record_def log_submission_def bind_def)

section \<open>Authority\<close>

text \<open>
  C19. A request reaches a provider only with full authority. If a dispatch submits
  anything, whatever other requests commit between its steps, then: it submits exactly
  once, to the registered adapter of its capability and mode, which declares no excluded
  command class; the kill switch let it pass and, outside the simulator, the promotion
  chain had activated it; its grant is bound to the tenant, case, provider, capability,
  purpose and data classes of the request, is neither revoked nor expired at the final
  check, and every consent record it names is valid for that scope in the state the final
  check reads; a consumer report also has a permissible-purpose decision that is valid at
  its own final check; and the intent was still PREPARED when it was marked dispatched.
\<close>

theorem submission_requires_authority:
  assumes inv: "platform_inv (w_db w)" and env: "interleaved env"
    and run: "dispatchProviderRequest cx reg env p w = (r, w')" and sent: "w_sent w' \<noteq> w_sent w"
  shows "\<exists>a s g final before. w_sent w' = w_sent w @ [s] \<and> sub_grant s = g
    \<and> map_of reg (dp_capability p, mode_of p) = Some a \<and> sub_providerId s = ad_providerId a
    \<and> (\<forall>c. ad_excludedCommandClass a = Some c \<longrightarrow> c \<notin> set STRUCTURALLY_EXCLUDED_COMMAND_CLASSES)
    \<and> isActive (ad_providerId a) (dp_capability p) (mode_of p) (others env 0 (w_db w))
    \<and> (mode_of p \<noteq> SIMULATOR \<longrightarrow>
         isActivated (ad_providerId a) (dp_capability p) (mode_of p) (others env 1 (others env 0 (w_db w))))
    \<and> gr_tenantId g = dp_tenantId p \<and> gr_caseId g = dp_caseId p \<and> gr_providerId g = ad_providerId a
    \<and> gr_capability g = dp_capability p \<and> gr_purposeCode g = dp_purposeCode p
    \<and> gr_permittedDataClasses g = dp_permittedDataClasses p
    \<and> gr_revokedAt g = None \<and> clk env 8 < gr_expiresAt g
    \<and> gr_consentRecordIds g \<noteq> []
    \<and> (\<forall>c \<in> set (gr_consentRecordIds g). isRecordValid (clk env 8) c
         (Some \<lparr>exp_tenantId = dp_tenantId p, exp_caseId = dp_caseId p, exp_purpose = dp_purposeCode p,
                exp_dataClasses = dp_permittedDataClasses p\<rparr>) final)
    \<and> (dp_capability p = CREDIT \<longrightarrow>
         (\<exists>d. gr_permissiblePurposeDecisionId g = Some d
            \<and> validate_purpose (clk env 10) d (purpose_context p) (others env 10 final) = Inr ()))
    \<and> reach (w_db w) final \<and> reach final before \<and> reach before (w_db w')
    \<and> (\<exists>i \<in> set (intents before). int_id i = sub_intentId s \<and> int_tenantId i = dp_tenantId p
         \<and> int_state i = PREPARED)"
proof -
  obtain a consent decision grant i g w1 w2 w3 w4 w5 w6 where
    a: "map_of reg (dp_capability p, mode_of p) = Some a"
    and ex: "assertNotStructurallyExcluded ''provider_adapter''
       (tuple_name (ad_providerId a) (dp_capability p) (mode_of p)) (ad_excludedCommandClass a) = Inr ()"
    and b1: "check_gates env a p w = (Inr consent, w1)"
    and b2: "purpose_authority env p w1 = (Inr decision, w2)"
    and b3: "step env 5 (run_txn (issue (clk env 5) (id_grant env) (issue_input a p consent decision))) w2
      = (Inr grant, w3)"
    and b4: "step env 6 (prepare cx (stale_read env)
       \<lparr>fresh_id = id_intent env, fresh_idempotencyKey = id_idempotency env, fresh_now = clk env 6\<rparr>
       (prepare_input a p (gr_id grant))) w3 = (Inr i, w4)"
    and b5: "final_checks cx env a p (gr_id grant) decision i w4 = (Inr g, w5)"
    and b6: "step env 12 (run_txn (markDispatched (clk env 12) (int_tenantId i) (int_id i))) w5 = (Inr (), w6)"
    and b7: "submit_and_record cx env a p i g w6 = (r, w')" and k6: "w_sent w6 = w_sent w"
    by (rule submission_chain [OF run sent])
  define view where "view = others env 7 (w_db w4)"
  define final where "final = others env 8 view"
  define before where "before = others env 12 (w_db w5)"
  note states = submission_states [OF env b1 b2 b3 b4 b5 b6 b7, folded view_def, folded final_def before_def]
  have rv: "revalidate (clk env 8) (gr_id grant) (expected_of a p) final view = Inr g"
    using final_checks_InrD(1) [OF b5] by (simp add: view_def final_def)
  from b3 obtain db3 where iss: "issue (clk env 5) (id_grant env) (issue_input a p consent decision) (others env 5 (w_db w2))
      = Inr (grant, db3)" "w_db w3 = db3"
    by (auto simp: step_Inr_iff run_txn_Inr_iff)
  have "g = grant"
    by (rule grant_unchanged [of "w_db w3" grant view])
      (use reach_inv [OF inv states(1)] issue_InrD [OF iss(1)] iss(2) reach_trans [OF states(2,3)]
        revalidate_InrD [OF rv] in auto)
  with issue_InrD [OF iss(1)] have g: "gr_purposeCode g = dp_purposeCode p"
      "gr_permittedDataClasses g = dp_permittedDataClasses p" "gr_permissiblePurposeDecisionId g = decision"
    by (simp_all add: issue_input_def)
  have tenant: "int_tenantId i = dp_tenantId p"
    using b4 by (auto simp: step_Inr_iff effect_key_def prepare_input_def dest!: prepare_InrD(2))
  have "\<exists>x \<in> set (intents before). int_id x = int_id i \<and> int_tenantId x = dp_tenantId p \<and> int_state x = PREPARED"
    using b6 by (auto simp: step_Inr_iff run_txn_Inr_iff before_def tenant dest!: markDispatched_InrD)
  moreover have "dp_capability p = CREDIT \<Longrightarrow> \<exists>d. gr_permissiblePurposeDecisionId g = Some d
      \<and> validate_purpose (clk env 10) d (purpose_context p) (others env 10 final) = Inr ()"
    using purpose_authority_credit [OF b2] final_checks_InrD(2) [OF b5] g(3)
    by (auto simp: view_def final_def)
  moreover have "\<forall>c. ad_excludedCommandClass a = Some c \<longrightarrow> c \<notin> set STRUCTURALLY_EXCLUDED_COMMAND_CLASSES"
    using ex by (auto simp: assertNotStructurallyExcluded_def STRUCTURALLY_EXCLUDED_COMMAND_CLASSES_def
        split: option.splits)
  moreover have "reach (w_db w) final" "reach final before" "reach before (w_db w')"
    using states by (meson reach_trans)+
  ultimately show ?thesis
    using submit_and_record_sent [OF b7] a check_gates_InrD [OF b1] revalidate_InrD [OF rv] g k6
    by (intro exI [of _ a] exI [of _ "\<lparr>sub_intentId = int_id i, sub_tenantId = int_tenantId i,
        sub_providerId = ad_providerId a, sub_idempotencyKey = int_idempotencyKey i, sub_grant = g\<rparr>"]
        exI [of _ g] exI [of _ final] exI [of _ before])
      (simp add: expected_of_def)
qed

theorem submission_requires_authority_witness:
  "\<exists>s final. w_sent (snd ex_run) = [s] \<and> sub_providerId s = ''sim-credit''
    \<and> gr_tenantId (sub_grant s) = ''t'' \<and> gr_capability (sub_grant s) = CREDIT
    \<and> gr_revokedAt (sub_grant s) = None \<and> 1000 < gr_expiresAt (sub_grant s)
    \<and> (\<exists>d. gr_permissiblePurposeDecisionId (sub_grant s) = Some d
         \<and> validate_purpose 1000 d (purpose_context ex_params) final = Inr ())
    \<and> reach (w_db ex_world) final"
proof -
  have "w_sent (snd ex_run) \<noteq> w_sent ex_world" using ex_run_succeeds(2) by (auto simp: ex_world_def)
  from submission_requires_authority [OF ex_platform_inv ex_interleaved(1) _ this,
      of ex_cx ex_reg ex_params "fst ex_run"]
  show ?thesis
    by (auto simp: ex_run_def [symmetric])
      (auto simp: ex_params_def mode_of_def ex_reg_def ex_adapter_def ex_world_def ex_env_def)
qed

section \<open>One logical operation, one submission\<close>

lemma at_most_one:
  assumes "distinct (map f xs)" "\<And>x y. x \<in> set xs \<Longrightarrow> y \<in> set xs \<Longrightarrow> f x = f y"
  shows "length xs \<le> 1"
proof (cases xs)
  case (Cons x ys)
  have "y \<notin> set ys" for y using assms(1) assms(2) [of x y] Cons by auto
  then have "ys = []" by (cases ys) auto
  then show ?thesis using Cons by simp
qed simp

lemma dispatched_stays:
  assumes "platform_inv db" "x \<in> set (intents db)" "0 < ladder (int_state x)" "reach db db'"
    "y \<in> set (intents db')" "int_id y = int_id x \<or> effect_key y = effect_key x"
  shows "int_state y \<noteq> PREPARED" and "int_id y = int_id x"
proof -
  obtain x' where x': "x' \<in> set (intents db')" "intent_advance x x'"
    using reach_le [OF assms(1,4)] assms(2) by (auto simp: platform_le_def dest: growsD)
  have id: "int_id x' = int_id x" "effect_key x' = effect_key x"
    using x'(2) by (auto simp: intent_advance_def intent_identity_def effect_key_def)
  have "y = x'"
    using reach_inv [OF assms(1,4)] assms(5,6) x'(1) id
      same_row [of int_id "intents db'" y x'] same_row [of effect_key "intents db'" y x']
    by (auto simp: platform_inv_def)
  then show "int_state y \<noteq> PREPARED" "int_id y = int_id x"
    using x'(2) assms(3) id by (auto simp: intent_advance_def)
qed

text \<open>
  Marking an intent dispatched succeeds at most once: after one success, no sequence of
  operations whatever makes it possible again.
\<close>

theorem marked_dispatched_at_most_once:
  assumes "platform_inv db" "platform_exec (Op_markDispatched now t i) db = (Inr (), db')"
  shows "fst (platform_exec (Op_markDispatched now' t' i) (run_ops platform_exec xs db')) \<noteq> Inr ()"
proof
  let ?db2 = "run_ops platform_exec xs db'"
  assume "fst (platform_exec (Op_markDispatched now' t' i) ?db2) = Inr ()"
  then obtain db3 where m2: "markDispatched now' t' i ?db2 = Inr ((), db3)"
    by (auto simp: effect_def run_txn_def split: sum.splits)
  from assms(2) have m1: "markDispatched now t i db = Inr ((), db')"
    by (auto simp: effect_def run_txn_def split: sum.splits)
  obtain x where x: "x \<in> set (intents db')" "int_id x = i" "int_state x = DISPATCHED"
    using markDispatched_InrD [OF m1] by fastforce
  obtain y where y: "y \<in> set (intents ?db2)" "int_id y = i" "int_state y = PREPARED"
    using markDispatched_InrD [OF m2] by blast
  have "platform_inv db'" using forward_marks(1) [OF m1] assms(1) by (simp add: forward_def)
  moreover have "reach db' ?db2" by (auto simp: reach_def)
  ultimately show False using dispatched_stays(1) [of db' x ?db2 y] x y by simp
qed

theorem marked_dispatched_at_most_once_witness:
  "fst (platform_exec (Op_markDispatched 2000 ''t'' ''intent'') ex_marked) \<noteq> Inr ()"
proof -
  have "platform_inv ex_prepared" by code_simp
  moreover have "platform_exec (Op_markDispatched 1000 ''t'' ''intent'') ex_prepared = (Inr (), ex_marked)"
    by (rule prod_eqI) (simp_all add: ex_marked_def, code_simp)
  ultimately show ?thesis
    using marked_dispatched_at_most_once [of ex_prepared 1000 "''t''" "''intent''" ex_marked 2000 "''t''" "[]"]
    by simp
qed

text \<open>
  C20. One logical operation reaches the provider at most once. Any number of dispatches and
  other operations of the platform run in one pool and interleave in any way, each dispatch
  one awaited step at a time. Then no intent is submitted twice; every submission belongs to
  the intent of a dispatch that was asked for, with its tenant, capability and logical
  operation key; and for every tenant, provider, capability and logical operation key there
  is at most one submission.
\<close>

theorem logical_operation_submitted_once:
  assumes "pstep\<^sup>*\<^sup>* (map pool_handler calls, w) (ps, w')" "platform_inv (w_db w)" "w_sent w = []"
  shows "distinct (map sub_intentId (w_sent w'))
    \<and> (\<forall>s \<in> set (w_sent w'). \<exists>k. submitted_for w' s k \<and> requested calls (sub_providerId s) k)
    \<and> (\<forall>k. length (filter (\<lambda>s. submitted_for w' s k) (w_sent w')) \<le> 1)"
proof -
  note pool = pool_submits_once [OF assms]
  have "length (filter (\<lambda>s. submitted_for w' s k) (w_sent w')) \<le> 1" for k
  proof (rule at_most_one [of sub_intentId])
    show "distinct (map sub_intentId (filter (\<lambda>s. submitted_for w' s k) (w_sent w')))"
      using pool by (simp add: distinct_map_filter)
    fix s s' assume "s \<in> set (filter (\<lambda>s. submitted_for w' s k) (w_sent w'))" "s' \<in> set (filter (\<lambda>s. submitted_for w' s k) (w_sent w'))"
    then obtain x y where "x \<in> set (intents (w_db w'))" "y \<in> set (intents (w_db w'))" "effect_key x = effect_key y"
        "int_id x = sub_intentId s" "int_id y = sub_intentId s'"
      by (auto simp: submitted_for_def)
    then show "sub_intentId s = sub_intentId s'"
      using pool same_row [of effect_key "intents (w_db w')" x y] by (simp add: world_ok_def platform_inv_def)
  qed
  then show ?thesis using pool by (simp add: world_ok_def)
qed

text \<open>A dispatch, another logical operation, and a repetition of the first that has yet to start.\<close>

theorem logical_operation_submitted_once_witness:
  "length (w_sent (snd ex_run2)) = 2 \<and> distinct (map sub_intentId (w_sent (snd ex_run2)))
   \<and> (\<forall>k. length (filter (\<lambda>s. submitted_for (snd ex_run2) s k) (w_sent (snd ex_run2))) \<le> 1)"
proof -
  let ?d1 = "Dispatch ex_cx ex_reg ex_params" and ?d2 = "Dispatch ex_cx ex_reg ex_params2"
  have q: "quiet ex_env" "quiet ex_env2" by (simp_all add: quiet_def ex_env_def ex_env2_def)
  have r1: "prun (pool_handler ?d1) (\<lambda>_. ex_env) ex_world = (Inr (), snd ex_run)"
    using ex_run_succeeds(1) by (simp add: prun_forget dispatch_program_alone [OF q(1)] ex_run_def)
  have r2: "prun (pool_handler ?d2) (\<lambda>_. ex_env2) (snd ex_run) = (Inr (), snd ex_run2)"
    using ex_run2_succeeds(1) by (simp add: prun_forget dispatch_program_alone [OF q(2)] ex_run2_def)
  have "pstep\<^sup>*\<^sup>* (map pool_handler [?d1, ?d2, ?d1], ex_world) ([Ret (Inr ()), Ret (Inr ()), pool_handler ?d1], snd ex_run2)"
  proof -
    have a: "pstep\<^sup>*\<^sup>* ([pool_handler ?d1, pool_handler ?d2, pool_handler ?d1], ex_world)
        ([Ret (Inr ()), pool_handler ?d2, pool_handler ?d1], snd ex_run)"
      using prun_steps [OF r1, of "[]" "[pool_handler ?d2, pool_handler ?d1]"] by (simp only: append_Nil)
    have b: "pstep\<^sup>*\<^sup>* ([Ret (Inr ()), pool_handler ?d2, pool_handler ?d1], snd ex_run)
        ([Ret (Inr ()), Ret (Inr ()), pool_handler ?d1], snd ex_run2)"
      using prun_steps [OF r2, of "[Ret (Inr ())]" "[pool_handler ?d1]"] by (simp only: append_Nil append_Cons)
    show ?thesis unfolding list.map by (rule rtranclp_trans [OF a b])
  qed
  from logical_operation_submitted_once [OF this ex_platform_inv] show ?thesis
    using ex_run2_succeeds(2) by (simp add: ex_world_def)
qed

section \<open>No submission is left unclassified\<close>

definition climbed :: "nat \<Rightarrow> uuid \<Rightarrow> uuid \<Rightarrow> platform_db \<Rightarrow> bool" where
  "climbed n t iid db \<longleftrightarrow>
     (\<exists>y \<in> set (intents db). int_id y = iid \<and> int_tenantId y = t \<and> n \<le> ladder (int_state y))"

lemma climbed_forward:
  assumes "climbed n t iid db" "platform_inv db" "platform_le db db'"
  shows "climbed n t iid db'"
proof -
  obtain x where x: "x \<in> set (intents db)" "int_id x = iid" "int_tenantId x = t" "n \<le> ladder (int_state x)"
    using assms(1) by (auto simp: climbed_def)
  obtain y where y: "y \<in> set (intents db')" "intent_advance x y"
    using assms(3) x(1) by (auto simp: platform_le_def dest: growsD)
  have "n \<le> ladder (int_state y)" using y(2) x(4) by (auto simp: intent_advance_def)
  moreover have "int_id y = iid" "int_tenantId y = t"
    using y(2) x(2,3) by (auto simp: intent_advance_def intent_identity_def)
  ultimately show ?thesis using y(1) unfolding climbed_def by blast
qed

lemma climbed_reach: "climbed n t iid db \<Longrightarrow> platform_inv db \<Longrightarrow> reach db db' \<Longrightarrow> climbed n t iid db'"
  using climbed_forward reach_le by blast

lemma transition_settles:
  assumes inv: "platform_inv db" and start: "climbed 1 t iid db"
    and froms: "DISPATCHED \<in> set froms" "\<And>s. s \<in> set froms \<Longrightarrow> ladder s < ladder st" "2 \<le> ladder st"
    and f: "\<And>i. intent_identity (f i) = intent_identity i" "\<And>i. int_state (f i) = int_state i"
  shows "climbed 2 t iid (snd (run_txn (transition now t iid froms st f) db))"
proof (cases "transition now t iid froms st f db")
  case (Inl e)
  obtain x where x: "x \<in> set (intents db)" "int_id x = iid" "int_tenantId x = t" "1 \<le> ladder (int_state x)"
    using start by (auto simp: climbed_def)
  let ?P = "\<lambda>i. int_id i = iid \<and> int_tenantId i = t \<and> int_state i \<in> set froms"
  have "affected ?P (intents db) \<noteq> 1" using Inl by (auto simp: transition_def Let_def split: if_splits)
  then have "\<not> ?P x"
    using affected_one [of int_id "intents db" x ?P] inv x by (auto simp: platform_inv_def)
  then have "int_state x \<noteq> DISPATCHED" using froms(1) x by auto
  then have "2 \<le> ladder (int_state x)" using x(4) by (cases "int_state x") auto
  then show ?thesis using Inl x by (auto simp: run_txn_def climbed_def)
next
  case (Inr res)
  obtain u db' where res: "res = (u, db')" by (cases res)
  obtain x where x: "x \<in> set (intents db)" "int_id x = iid" "int_tenantId x = t"
      "f (x\<lparr>int_state := st, int_updatedAt := now\<rparr>) \<in> set (intents db')"
    using transition_InrD [OF Inr [unfolded res]] by blast
  have "intent_identity (f (x\<lparr>int_state := st, int_updatedAt := now\<rparr>)) = intent_identity x" by (simp add: f(1))
  then have "int_id (f (x\<lparr>int_state := st, int_updatedAt := now\<rparr>)) = iid"
    "int_tenantId (f (x\<lparr>int_state := st, int_updatedAt := now\<rparr>)) = t"
    using x(2,3) by (auto simp: intent_identity_def)
  then show ?thesis using x(4) f(2) froms(3) by (auto simp: Inr res run_txn_def climbed_def intro!: bexI)
qed

lemma encrypt_available:
  "key_for ring (currentKeyId ring) \<noteq> None \<Longrightarrow> \<exists>e. encrypt A ring iv v aad = Inr e"
  by (auto simp: encrypt_def case_prod_beta)

lemma marks_settle:
  assumes inv: "platform_inv db" and start: "climbed 1 t iid db"
    and key: "key_for (cx_ring cx) (currentKeyId (cx_ring cx)) \<noteq> None"
  shows "climbed 2 t iid (snd (run_txn (markFailedFinal cx a now t iid ro) db))"
    and "climbed 2 t iid (snd (run_txn (markSucceeded cx a b now t iid rc fi) db))"
    and "climbed 2 t iid (snd (run_txn (markOutcomeUnknown now t iid) db))"
proof -
  note settle = transition_settles [OF inv start]
  show "climbed 2 t iid (snd (run_txn (markFailedFinal cx a now t iid ro) db))"
  proof (cases ro)
    case None
    then have eq: "markFailedFinal cx a now t iid ro
        = transition now t iid [PREPARED, DISPATCHED] FAILED_FINAL (\<lambda>i. i)"
      by (auto simp: markFailedFinal_def)
    show ?thesis unfolding eq by (rule settle) auto
  next
    case (Some v)
    obtain e where "encrypt (cx_aead cx) (cx_ring cx) a v (receipt_aad t iid) = Inr e"
      using encrypt_available [OF key] by blast
    with Some have eq: "markFailedFinal cx a now t iid ro
        = transition now t iid [PREPARED, DISPATCHED] FAILED_FINAL (\<lambda>i. i\<lparr>int_providerReceipt := Some e\<rparr>)"
      by (auto simp: markFailedFinal_def cipher_result_def)
    show ?thesis unfolding eq by (rule settle) auto
  qed
  obtain e e' where "encrypt (cx_aead cx) (cx_ring cx) a rc (receipt_aad t iid) = Inr e"
      "encrypt (cx_aead cx) (cx_ring cx) b fi (finding_aad t iid) = Inr e'"
    using encrypt_available [OF key] by metis
  then have eq: "markSucceeded cx a b now t iid rc fi = transition now t iid [DISPATCHED] SUCCEEDED
      (\<lambda>i. i\<lparr>int_providerReceipt := Some e, int_normalizedFinding := Some e'\<rparr>)"
    by (auto simp: markSucceeded_def cipher_result_def)
  show "climbed 2 t iid (snd (run_txn (markSucceeded cx a b now t iid rc fi) db))"
    unfolding eq by (rule settle) auto
  show "climbed 2 t iid (snd (run_txn (markOutcomeUnknown now t iid) db))"
    unfolding markOutcomeUnknown_def by (rule settle) auto
qed

lemma bind_w_db:
  "climbed n t iid (w_db (snd (m w))) \<Longrightarrow> platform_inv (w_db (snd (m w))) \<Longrightarrow> (\<And>a. by_ops (f a)) \<Longrightarrow>
   climbed n t iid (w_db (snd (bind m f w)))"
  by (auto simp: bind_def by_ops_def split: prod.splits sum.splits intro: climbed_reach)

lemma catch_w_db:
  "climbed n t iid (w_db (snd (m w))) \<Longrightarrow> platform_inv (w_db (snd (m w))) \<Longrightarrow> (\<And>e. by_ops (h e)) \<Longrightarrow>
   climbed n t iid (w_db (snd (catch m h w)))"
  by (auto simp: catch_def by_ops_def split: prod.splits sum.splits intro: climbed_reach)

lemma step_settles:
  assumes env: "interleaved env" and inv: "platform_inv (w_db w)" and start: "climbed 1 t iid (w_db w)"
    and "\<And>db. platform_inv db \<Longrightarrow> climbed 1 t iid db \<Longrightarrow> climbed 2 t iid (snd (q db))"
  shows "climbed 2 t iid (w_db (snd (step env k q w)))"
proof -
  have r: "reach (w_db w) (others env k (w_db w))" using env by (simp add: interleaved_def)
  have "climbed 2 t iid (snd (q (others env k (w_db w))))"
    by (rule assms(4)) (use reach_inv [OF inv r] climbed_reach [OF start inv r] in auto)
  then show ?thesis by (simp add: step_def case_prod_beta)
qed

lemma record_outcome_settles:
  assumes env: "interleaved env" and inv: "platform_inv (w_db w)"
    and start: "climbed 1 (int_tenantId i) (int_id i) (w_db w)"
    and key: "key_for (cx_ring cx) (currentKeyId (cx_ring cx)) \<noteq> None"
  shows "climbed 2 (int_tenantId i) (int_id i) (w_db (snd (record_outcome cx env a p i g res w)))"
proof -
  note st = step_settles [OF env inv start]
  have byinv: "platform_inv (w_db (snd (m w)))" if "by_ops m" for m :: "(world, platform_error, 'x) proc"
    using that inv reach_inv unfolding by_ops_def by blast
  have ops: "by_ops (step env k (run_txn (markOutcomeUnknown now t iid)))"
    "by_ops (step env k (run_txn (markSucceeded cx n1 n2 now t iid rc f)))" for k now t iid n1 n2 rc f
    by (rule by_ops_step [OF env], rule reach_txns)+
  have failed: "climbed 2 (int_tenantId i) (int_id i) (w_db (snd (mark_failed cx env k i ro w)))" for k ro
    unfolding mark_failed_def by (rule st) (rule marks_settle [OF _ _ key])
  show ?thesis
  proof (cases res)
    case Rejected
    show ?thesis
      unfolding record_outcome_def Rejected submit_result.case
      by (intro bind_w_db failed byinv by_ops_stages(5) [OF env] by_ops_combinators(2))
  next
    case (Failed msg)
    show ?thesis
      unfolding record_outcome_def Failed submit_result.case
      by (intro bind_w_db st marks_settle(3) [OF _ _ key] byinv ops by_ops_combinators(2))
  next
    case (Completed rc)
    let ?h = "\<lambda>e. if e = SyntheticProviderRejectionError
        then bind (mark_failed cx env 15 i None) (\<lambda>_. throw e)
        else bind (mark_failed cx env 15 i (Some (receipt_json rc))) (\<lambda>_. throw e)"
    have h: "by_ops (?h e :: (world, platform_error, json) proc)" for e
      by (auto intro!: by_ops_combinators by_ops_stages [OF env])
    show ?thesis
    proof (cases "accept_finding env a p g rc")
      case (Inl e)
      have "climbed 2 (int_tenantId i) (int_id i) (w_db (snd (?h e w)))"
        by (auto intro!: bind_w_db failed byinv by_ops_stages(5) [OF env] by_ops_combinators(2))
      then show ?thesis by (simp add: record_outcome_def Completed Inl catch_def)
    next
      case (Inr f)
      show ?thesis
        unfolding record_outcome_def Completed submit_result.case Inr sum.case
        by (intro catch_w_db bind_w_db st marks_settle(2) [OF _ _ key] byinv ops by_ops_combinators h)
    qed
  qed
qed

text \<open>
  C21. A submitted request never leaves its intent at DISPATCHED. Once a dispatch has
  submitted, then whatever the provider answered, whether it rejected, failed or broke the
  contract, and whatever other requests did meanwhile, when the dispatch returns the intent
  is OUTCOME\_UNKNOWN, RECONCILING or terminal, provided the process has its encryption key.
\<close>

theorem submission_is_classified:
  assumes inv: "platform_inv (w_db w)" and env: "interleaved env"
    and key: "key_for (cx_ring cx) (currentKeyId (cx_ring cx)) \<noteq> None"
    and run: "dispatchProviderRequest cx reg env p w = (r, w')" and sent: "w_sent w' = w_sent w @ [s]"
  shows "\<exists>i \<in> set (intents (w_db w')). int_id i = sub_intentId s
    \<and> int_state i \<in> {OUTCOME_UNKNOWN, RECONCILING, SUCCEEDED, FAILED_FINAL, CANCELLED}"
proof -
  have "w_sent w' \<noteq> w_sent w" using sent by simp
  then obtain a consent decision grant i g w1 w2 w3 w4 w5 w6 where
    b1: "check_gates env a p w = (Inr consent, w1)"
    and b2: "purpose_authority env p w1 = (Inr decision, w2)"
    and b3: "step env 5 (run_txn (issue (clk env 5) (id_grant env) (issue_input a p consent decision))) w2
      = (Inr grant, w3)"
    and b4: "step env 6 (prepare cx (stale_read env)
       \<lparr>fresh_id = id_intent env, fresh_idempotencyKey = id_idempotency env, fresh_now = clk env 6\<rparr>
       (prepare_input a p (gr_id grant))) w3 = (Inr i, w4)"
    and b5: "final_checks cx env a p (gr_id grant) decision i w4 = (Inr g, w5)"
    and b6: "step env 12 (run_txn (markDispatched (clk env 12) (int_tenantId i) (int_id i))) w5 = (Inr (), w6)"
    and b7: "submit_and_record cx env a p i g w6 = (r, w')" and k6: "w_sent w6 = w_sent w"
    by (rule submission_chain [OF run])
  note states = submission_states [OF env b1 b2 b3 b4 b5 b6 b7]
  have i6: "platform_inv (w_db w6)" using states inv by (meson reach_inv)
  from b6 obtain db6 where md: "markDispatched (clk env 12) (int_tenantId i) (int_id i) (others env 12 (w_db w5))
      = Inr ((), db6)" "w_db w6 = db6"
    by (auto simp: step_Inr_iff run_txn_Inr_iff)
  then obtain x where "int_id x = int_id i" "int_tenantId x = int_tenantId i"
      "x\<lparr>int_state := DISPATCHED, int_updatedAt := clk env 12\<rparr> \<in> set (intents (w_db w6))"
    using markDispatched_InrD [OF md(1)] by auto
  then have "climbed 1 (int_tenantId i) (int_id i) (w_db w6)"
    unfolding climbed_def by (intro bexI) simp_all
  then have "climbed 2 (int_tenantId i) (int_id i) (w_db w')"
    using b7 record_outcome_settles [OF env _ _ key, of "snd (log_submission a i g w6)" i a p g] i6
    by (auto simp: submit_and_record_def bind_def log_submission_def) (metis snd_conv)
  moreover have "sub_intentId s = int_id i" using submit_and_record_sent [OF b7] k6 sent by simp
  moreover have "2 \<le> ladder st \<longleftrightarrow> st \<in> {OUTCOME_UNKNOWN, RECONCILING, SUCCEEDED, FAILED_FINAL, CANCELLED}" for st
    by (cases st) auto
  ultimately show ?thesis by (auto simp: climbed_def)
qed

theorem submission_is_classified_witness:
  "\<exists>i. i \<in> set (intents (w_db (snd ex_run)))
    \<and> int_state i \<in> {OUTCOME_UNKNOWN, RECONCILING, SUCCEEDED, FAILED_FINAL, CANCELLED}"
proof -
  obtain s1 where s1: "w_sent (snd ex_run) = w_sent ex_world @ [s1]"
    using ex_run_succeeds(2) by (auto simp: length_Suc_conv ex_world_def)
  have "key_for (cx_ring ex_cx) (currentKeyId (cx_ring ex_cx)) \<noteq> None" by code_simp
  from submission_is_classified [OF ex_platform_inv ex_interleaved(1) this _ s1,
      of ex_reg ex_params "fst ex_run"]
  show ?thesis by (auto simp: ex_run_def [symmetric])
qed

end
