(* ===== verification/Consent_Properties.thy ===== *)
theory Consent_Properties
  imports Provider_Scenario
begin

text \<open>
  Properties of consent, retention reviews and legal holds over arbitrary sequences of
  platform operations, from the interpretation \<open>ps\<close> of \<open>Provider_System\<close>.
\<close>

lemma later_inv: "platform_inv db \<Longrightarrow> platform_inv (run_ops platform_exec xs db)"
  by (rule ps.run_inv)


lemma later_consent:
  assumes "platform_inv db" "c \<in> set (consents db)"
  obtains d where "d \<in> set (consents (run_ops platform_exec xs db))" "consent_advance c d"
  using ps.run_le [OF assms(1), of xs] assms(2) by (auto simp: platform_le_def dest: growsD)

lemma later_task:
  assumes "platform_inv db" "t \<in> set (tasks db)"
  obtains u where "u \<in> set (tasks (run_ops platform_exec xs db))" "task_advance t u"
  using ps.run_le [OF assms(1), of xs] assms(2) by (auto simp: platform_le_def dest: growsD)

section \<open>Revocation\<close>

lemma revoke_consent_InrD:
  assumes "revoke_consent now newTask tenant caseId reason db = Inr (r, db')"
  shows "\<exists>a. active_record tenant caseId db = Some a
    \<and> consents db' = update_where (\<lambda>r. con_id r = con_id a)
        (\<lambda>r. r\<lparr>con_revokedAt := Some now, con_revocationReason := reason\<rparr>) (consents db)
    \<and> List.find (\<lambda>r. con_id r = con_id a) (consents db') = Some r
    \<and> (\<exists>t. tasks db' = tasks db @ [t] \<and> task_id t = newTask \<and> task_tenantId t = tenant \<and> task_caseId t = caseId
         \<and> task_taskType t = RETENTION_REVIEW \<and> task_status t = TASK_PENDING
         \<and> task_triggeringConsentRecordId t = Some (con_id a)
         \<and> task_affectedEvidenceFactIds t
             = map ev_id (filter (\<lambda>e. ev_tenantId e = tenant \<and> ev_caseId e = caseId) (evidence db))
         \<and> task_affectedProviderIntentIds t
             = map int_id (filter (\<lambda>i. int_tenantId i = tenant \<and> int_caseId i = caseId) (intents db)))
    \<and> intents db' = intents db \<and> evidence db' = evidence db"
  using assms
  by (auto simp: revoke_consent_def openRetentionReviewForRevokedConsent_def Let_def result_simps
      split: if_splits)

lemma most_recent_revoked:
  assumes act: "active_record tenant caseId db = Some a"
    and times: "\<And>r s. r \<in> set (consents db) \<Longrightarrow> s \<in> set (consents db) \<Longrightarrow> con_tenantId r = tenant \<Longrightarrow>
        con_caseId r = caseId \<Longrightarrow> con_tenantId s = tenant \<Longrightarrow> con_caseId s = caseId \<Longrightarrow>
        con_grantedAt r = con_grantedAt s \<Longrightarrow> r = s"
    and rows: "consents db' = update_where (\<lambda>r. con_id r = con_id a)
        (\<lambda>r. r\<lparr>con_revokedAt := Some now, con_revocationReason := reason\<rparr>) (consents db)"
  shows "\<exists>m. mostRecentRecord tenant caseId db' = Some m \<and> con_revokedAt m \<noteq> None"
proof -
  note a = latest_by_SomeD [OF act [unfolded active_record_def]]
  let ?f = "\<lambda>r. r\<lparr>con_revokedAt := Some now, con_revocationReason := reason\<rparr>"
  have "?f a \<in> set (consents db')" using a by (auto simp: rows set_update_where)
  then have "mostRecentRecord tenant caseId db' \<noteq> None"
    using a unfolding mostRecentRecord_def latest_by_None_iff by fastforce
  then obtain m where m: "mostRecentRecord tenant caseId db' = Some m" by auto
  note mm = latest_by_SomeD [OF m [unfolded mostRecentRecord_def]]
  then obtain s where s: "s \<in> set (consents db)" "m = (if con_id s = con_id a then ?f s else s)"
    using rows by (auto elim: in_update_whereE)
  show ?thesis
  proof (cases "con_id s = con_id a")
    case False
    have "con_tenantId (?f a) = tenant \<and> con_caseId (?f a) = caseId" using a by simp
    then have "con_grantedAt (?f a) \<le> con_grantedAt m" using mm \<open>?f a \<in> set (consents db')\<close> by blast
    then have le: "con_grantedAt a \<le> con_grantedAt m" by simp
    have "con_revokedAt s \<noteq> None"
    proof
      assume open_s: "con_revokedAt s = None"
      have st: "con_tenantId s = tenant" "con_caseId s = caseId" "con_grantedAt s = con_grantedAt m"
        using mm s(2) False by auto
      have "con_grantedAt s \<le> con_grantedAt a" using a s(1) st open_s by blast
      then have "con_grantedAt s = con_grantedAt a" using le st(3) by simp
      then have "s = a" by (intro times) (use a s(1) st in blast)+
      then show False using False by simp
    qed
    then show ?thesis using m s False by simp
  qed (use m s in auto)
qed

text \<open>
  A revocation takes effect at once and never without its review: when \<open>revoke\<close> returns,
  the record it returns is revoked, exactly one review was added, pending and naming
  that record and every evidence fact and provider intent of the case, and (with no two
  grants of the case at the same instant) the case's consent status is REVOKED and no
  purpose is authorised for it. When it throws, nothing changed.
\<close>

theorem revocation_opens_review:
  assumes inv: "platform_inv db"
    and times: "\<And>r s. r \<in> set (consents db) \<Longrightarrow> s \<in> set (consents db) \<Longrightarrow> con_tenantId r = tenant \<Longrightarrow>
        con_caseId r = caseId \<Longrightarrow> con_tenantId s = tenant \<Longrightarrow> con_caseId s = caseId \<Longrightarrow>
        con_grantedAt r = con_grantedAt s \<Longrightarrow> r = s"
    and run: "run_txn (revoke_consent now newTask tenant caseId reason) db = (res, db')"
  shows "case res of
      Inl e \<Rightarrow> db' = db
    | Inr r \<Rightarrow> r \<in> set (consents db') \<and> con_revokedAt r = Some now \<and> con_tenantId r = tenant
        \<and> con_caseId r = caseId
        \<and> (\<exists>t. tasks db' = tasks db @ [t] \<and> task_status t = TASK_PENDING
             \<and> task_taskType t = RETENTION_REVIEW \<and> task_triggeringConsentRecordId t = Some (con_id r)
             \<and> (\<forall>e \<in> set (evidence db'). ev_tenantId e = tenant \<longrightarrow> ev_caseId e = caseId
                  \<longrightarrow> ev_id e \<in> set (task_affectedEvidenceFactIds t))
             \<and> (\<forall>i \<in> set (intents db'). int_tenantId i = tenant \<longrightarrow> int_caseId i = caseId
                  \<longrightarrow> int_id i \<in> set (task_affectedProviderIntentIds t)))
        \<and> getStatus later tenant caseId db' = REVOKED
        \<and> activeRecordForPurpose later tenant caseId purpose classes db' = None"
proof (cases res)
  case (Inl e)
  then show ?thesis using run by (auto simp: run_txn_Inl_iff)
next
  case (Inr r)
  then have rv: "revoke_consent now newTask tenant caseId reason db = Inr (r, db')"
    using run by (simp add: run_txn_Inr_iff)
  obtain a t where a: "active_record tenant caseId db = Some a"
      "consents db' = update_where (\<lambda>r. con_id r = con_id a)
        (\<lambda>r. r\<lparr>con_revokedAt := Some now, con_revocationReason := reason\<rparr>) (consents db)"
      "List.find (\<lambda>r. con_id r = con_id a) (consents db') = Some r"
      "intents db' = intents db" "evidence db' = evidence db"
    and t: "tasks db' = tasks db @ [t]" "task_taskType t = RETENTION_REVIEW" "task_status t = TASK_PENDING"
      "task_triggeringConsentRecordId t = Some (con_id a)"
      "task_affectedEvidenceFactIds t
        = map ev_id (filter (\<lambda>e. ev_tenantId e = tenant \<and> ev_caseId e = caseId) (evidence db))"
      "task_affectedProviderIntentIds t
        = map int_id (filter (\<lambda>i. int_tenantId i = tenant \<and> int_caseId i = caseId) (intents db))"
    using revoke_consent_InrD [OF rv] by blast
  note ad = active_record_SomeD [OF a(1)]
  have uniq: "s = a" if "s \<in> set (consents db)" "con_id s = con_id a" for s
    using same_row [of con_id "consents db" s a] inv that ad by (simp add: platform_inv_def)
  have rin: "r \<in> set (consents db')" "con_id r = con_id a" using find_SomeD [OF a(3)] by auto
  then obtain s where s: "s \<in> set (consents db)" "r = (if con_id s = con_id a
      then s\<lparr>con_revokedAt := Some now, con_revocationReason := reason\<rparr> else s)"
    using a(2) by (auto elim: in_update_whereE)
  then have "con_id s = con_id a" using rin(2) by (auto split: if_splits)
  then have r: "r = a\<lparr>con_revokedAt := Some now, con_revocationReason := reason\<rparr>" "r \<in> set (consents db')"
    using uniq [OF s(1)] s(2) rin(1) by auto
  obtain m where m: "mostRecentRecord tenant caseId db' = Some m" "con_revokedAt m \<noteq> None"
    using most_recent_revoked [OF a(1) times a(2)] by blast
  show ?thesis
    using Inr r t a(4,5) ad m
    by (auto simp: getStatus_def activeRecordForPurpose_def)
qed

theorem revocation_opens_review_witness:
  "\<exists>r. fst (run_txn (revoke_consent 2000 ''task'' ''t'' ''c'' None) ex_db) = Inr r
    \<and> con_revokedAt r = Some 2000 \<and> (\<exists>t. tasks ex_revoked = tasks ex_db @ [t])
    \<and> getStatus 2001 ''t'' ''c'' ex_revoked = REVOKED"
proof -
  let ?run = "run_txn (revoke_consent 2000 ''task'' ''t'' ''c'' None) ex_db"
  have inv: "platform_inv ex_db" and one: "consents ex_db = [ex_consent]" by code_simp+
  define r where "r = projr (fst ?run)"
  have eq: "?run = (Inr r, ex_revoked)" unfolding r_def by code_simp
  have "con_revokedAt r = Some 2000 \<and> (\<exists>t. tasks ex_revoked = tasks ex_db @ [t])
        \<and> getStatus 2001 ''t'' ''c'' ex_revoked = REVOKED"
    using revocation_opens_review [OF inv _ eq, of 2001 "''P''" "[]"] by (auto simp: one)
  moreover have "fst ?run = Inr r" by (simp only: eq fst_conv)
  ultimately show ?thesis by blast
qed

text \<open>
  C22. Revocation is final: a revoked consent record is never valid again, for any scope at
  any time, after any sequence of operations (new grants included).
\<close>

theorem revoked_consent_never_valid:
  assumes "platform_inv db" "c \<in> set (consents db)" "con_revokedAt c \<noteq> None"
  shows "\<not> isRecordValid now (con_id c) expct (run_ops platform_exec xs db)"
proof -
  obtain d where d: "d \<in> set (consents (run_ops platform_exec xs db))" "consent_advance c d"
    by (rule later_consent [OF assms(1,2)])
  then have "d = c" using assms(3) by (auto simp: consent_advance_def)
  moreover have "List.find (\<lambda>r. con_id r = con_id c) (consents (run_ops platform_exec xs db)) = Some c"
    using later_inv [OF assms(1), of xs] d \<open>d = c\<close>
    by (intro find_unique [of con_id]) (auto simp: platform_inv_def)
  ultimately show ?thesis using assms(3) by (simp add: isRecordValid_def)
qed

theorem revoked_consent_never_valid_witness:
  "\<exists>c. c \<in> set (consents ex_revoked) \<and> con_id c = ''consent''
    \<and> \<not> isRecordValid 3000 (con_id c) None
        (run_ops platform_exec [Op_grantConsent 2500 ''new'' ''t'' ''c'' ''UNDERWRITING_EVIDENCE'' ''CREDIT''] ex_revoked)"
proof -
  let ?c = "hd (consents ex_revoked)"
  have "platform_inv ex_revoked" by code_simp
  moreover have c: "consents ex_revoked = [?c]" "con_id ?c = ''consent''" "con_revokedAt ?c \<noteq> None" by code_simp+
  moreover from c(1) have "?c \<in> set (consents ex_revoked)" by (metis list.set_intros(1))
  ultimately show ?thesis using revoked_consent_never_valid [of ex_revoked ?c] by blast
qed

section \<open>Data disposition\<close>

lemma resolve_task_cases:
  assumes "resolve_task stored now h t tid act w corr db = (Inr k, db')"
  obtains db1 where "resolve_txn now h t tid act w db db = Inr (k, db1)"
    "intents db' = intents db1" "evidence db' = evidence db1" "tasks db' = tasks db1" "holds db' = holds db1"
    "consents db' = consents db1" "grants db' = grants db1"
  using assms by (auto simp: resolve_task_def bind_Inr_iff run_txn_Inr_iff record_audit_def)





text \<open>
  C24. A legal hold protects the evidence of its case: while one is active, neither DELETE nor
  ANONYMIZE nor the verification of a backup expiry goes through, each throws and leaves
  every table as it was; and RETAIN goes through only under a hold.
\<close>

theorem legal_hold_blocks_disposal:
  assumes "find_task tenant tid db = Some t"
  shows "(hasActiveHold tenant (task_caseId t) db \<and> act \<noteq> RETAIN \<longrightarrow>
      (\<exists>e. resolve_task stored now hours tenant tid act actor corr db = (Inl e, db)))
    \<and> (hasActiveHold tenant (task_caseId t) db \<longrightarrow>
      (\<exists>e. verifyBackupExpiry stored now tenant tid actor ref db = (Inl e, db)))
    \<and> (\<not> hasActiveHold tenant (task_caseId t) db \<longrightarrow>
      (\<exists>e. resolve_task stored now hours tenant tid RETAIN actor corr db = (Inl e, db)))"
  using assms
  by (auto simp: resolve_task_def resolve_txn_def verifyBackupExpiry_def verify_txn_def bind_def run_txn_def
      Let_def and_then_def ensure_def split: sum.splits option.splits)

theorem legal_hold_blocks_disposal_witness:
  "\<exists>e. resolve_task True 4000 24 ''t'' ''task'' DELETE ''ops'' None ex_held = (Inl e, ex_held)"
proof -
  let ?t = "the (find_task ''t'' ''task'' ex_held)"
  have "find_task ''t'' ''task'' ex_held = Some ?t" "hasActiveHold ''t'' (task_caseId ?t) ex_held" by code_simp+
  with legal_hold_blocks_disposal [of "''t''" "''task''" ex_held ?t DELETE] show ?thesis by blast
qed

lemma closed_task:
  assumes "find_task tenant tid (close_task now hours tenant tid act actor db) = Some t"
  shows "task_status t = (if act = RETAIN then TASK_VERIFIED else TASK_COMPLETED)"
    and "task_backupExpiryDueAt t = (if act = RETAIN then None else Some (now + hours * 60 * 60 * 1000))"
proof -
  let ?P = "\<lambda>t. task_id t = tid \<and> task_tenantId t = tenant"
  let ?f = "\<lambda>t. t\<lparr>task_status := (if act = RETAIN then TASK_VERIFIED else TASK_COMPLETED),
      task_resolutionOutcome := Some (resolution_outcome act), task_resolvedAt := Some now,
      task_resolvedBy := Some actor,
      task_backupExpiryDueAt := (if act = RETAIN then None else Some (now + hours * 60 * 60 * 1000))\<rparr>"
  have "t \<in> set (update_where ?P ?f (tasks db))" "?P t"
    using find_SomeD [OF assms [unfolded find_task_def]] by (simp_all add: close_task_def)
  then obtain x where "t = ?f x"
    unfolding set_update_where by (cases "?P t") (auto simp del: if_split)
  then show "task_status t = (if act = RETAIN then TASK_VERIFIED else TASK_COMPLETED)"
    and "task_backupExpiryDueAt t = (if act = RETAIN then None else Some (now + hours * 60 * 60 * 1000))"
    by simp_all
qed

text \<open>
  Backups are declared clean only after their window: if a review is resolved by DELETE or
  ANONYMIZE at one time and, after any operations, its backup expiry is verified at
  another, at least the configured number of retention hours lies between the two.
\<close>

theorem backup_window_respected:
  assumes inv: "platform_inv db" and act: "act \<noteq> RETAIN"
    and run: "resolve_task stored now hours tenant tid act actor corr db = (Inr t, db')"
    and ver: "verifyBackupExpiry stored' later tenant tid actor' ref (run_ops platform_exec xs db') = (Inr u, db'')"
  shows "now + hours * 3600000 \<le> later"
proof -
  obtain db1 where db1: "resolve_txn now hours tenant tid act actor db db = Inr (t, db1)" "tasks db' = tasks db1"
    by (rule resolve_task_cases [OF run])
  have ft: "find_task tenant tid db1 = Some t"
    using db1(1) by (auto simp: resolve_txn_def Let_def result_simps)
  obtain db2 where "db1 = close_task now hours tenant tid act actor db2"
    by (rule resolve_txn_steps [OF db1(1)]) (use act in blast)
  then have t: "task_status t = TASK_COMPLETED" "task_backupExpiryDueAt t = Some (now + hours * 60 * 60 * 1000)"
    using closed_task [of tenant tid now hours act actor db2 t] ft act by auto
  have tin: "t \<in> set (tasks db')"
    using find_SomeD [OF ft [unfolded find_task_def]] db1(2) by simp
  have "platform_inv db'" using forward_resolve_task [of db] run inv by (metis forward_def snd_conv)
  then obtain v where v: "v \<in> set (tasks (run_ops platform_exec xs db'))" "task_advance t v"
    and inv2: "platform_inv (run_ops platform_exec xs db')"
    using later_task [of db' t xs] tin later_inv by metis
  from ver obtain k where k: "find_task tenant tid (run_ops platform_exec xs db') = Some k"
      "task_status k = TASK_COMPLETED" "\<exists>d. task_backupExpiryDueAt k = Some d \<and> d \<le> later"
    by (auto simp: verifyBackupExpiry_def verify_txn_def bind_Inr_iff run_txn_Inr_iff result_simps Let_def
        split: if_splits option.splits)
  have "task_id v = task_id k"
    using v(2) find_SomeD [OF k(1) [unfolded find_task_def]] find_SomeD [OF ft [unfolded find_task_def]]
    by (auto simp: task_advance_def)
  then have "v = k"
    using same_row [of task_id "tasks (run_ops platform_exec xs db')" v k] inv2 v(1)
      find_SomeD [OF k(1) [unfolded find_task_def]] by (simp add: platform_inv_def)
  then have "k = t" using v(2) k(2) t(1) by (auto simp: task_advance_def)
  then show ?thesis using k(3) t(2) by auto
qed

theorem backup_window_respected_witness:
  "\<exists>u db. verifyBackupExpiry True 86404000 ''t'' ''task'' ''ops'' ''ref'' ex_disposed = (Inr u, db)
    \<and> 4000 + 24 * 3600000 \<le> (86404000 :: int)"
proof -
  let ?t = "the (find_task ''t'' ''task'' ex_disposed)"
  let ?v = "verifyBackupExpiry True 86404000 ''t'' ''task'' ''ops'' ''ref'' ex_disposed"
  have "platform_inv ex_revoked" by code_simp
  moreover have "resolve_task True 4000 24 ''t'' ''task'' DELETE ''ops'' None ex_revoked = (Inr ?t, ex_disposed)"
    by code_simp
  moreover have v: "?v = (Inr (projr (fst ?v)), snd ?v)" by code_simp
  then have "verifyBackupExpiry True 86404000 ''t'' ''task'' ''ops'' ''ref'' (run_ops platform_exec [] ex_disposed)
      = (Inr (projr (fst ?v)), snd ?v)" by simp
  ultimately have "4000 + 24 * 3600000 \<le> (86404000 :: int)"
    using backup_window_respected [of ex_revoked DELETE True 4000 24 "''t''" "''task''" "''ops''" None ?t ex_disposed
        True 86404000 "''ops''" "''ref''" "[]"] by blast
  with v show ?thesis by blast
qed

section \<open>Races\<close>

definition new_hold :: "uuid \<Rightarrow> uuid \<Rightarrow> uuid \<Rightarrow> string \<Rightarrow> string \<Rightarrow> LegalHold" where
  "new_hold newId tenant caseId reason owner =
     \<lparr>hold_id = newId, hold_tenantId = tenant, hold_caseId = caseId, hold_reason = reason,
      hold_ownerId = owner, hold_status = HOLD_ACTIVE, hold_releasedAt = None, hold_releasedBy = None\<rparr>"

lemma place_hold_ok:
  assumes "stale \<or> find_active_hold tenant caseId db = None" "\<And>h. h \<in> set (holds db) \<Longrightarrow> hold_id h \<noteq> newId"
  shows "\<exists>db'. place_hold stored stale newId tenant caseId reason owner db
      = (Inr (new_hold newId tenant caseId reason owner), db')
    \<and> holds db' = holds db @ [new_hold newId tenant caseId reason owner]"
proof -
  have "\<not> (\<exists>x \<in> set (holds db). hold_id x = newId)" using assms(2) by blast
  then show ?thesis
    using assms(1)
    by (auto simp: place_hold_def place_txn_def bind_def run_txn_def record_audit_def Let_def new_hold_def)
qed

lemma release_hold_ok:
  assumes "List.find (\<lambda>h. hold_id h = hid \<and> hold_tenantId h = tenant) (holds db) = Some h"
    "hold_status h = HOLD_ACTIVE"
  shows "\<exists>h' db'. release_hold stored now tenant hid actor db = (Inr h', db')
    \<and> holds db' = update_where (\<lambda>x. hold_id x = hid \<and> hold_tenantId x = tenant)
        (\<lambda>x. x\<lparr>hold_status := HOLD_RELEASED, hold_releasedAt := Some now, hold_releasedBy := Some actor\<rparr>) (holds db)"
  using assms
  by (auto simp: release_hold_def release_txn_def bind_def run_txn_def record_audit_def Let_def
      find_update_where)

text \<open>
  Two placements of a hold that overlap both succeed: the second one's check ran before
  the first became visible, and no index refuses its row. The case then has two active
  holds, and releasing one still leaves it held.
\<close>

theorem concurrent_placements_both_hold:
  assumes "\<And>h. h \<in> set (holds db) \<Longrightarrow> hold_id h \<noteq> id1 \<and> hold_id h \<noteq> id2" "id1 \<noteq> id2"
    and "\<not> hasActiveHold tenant caseId db"
  shows "\<exists>h1 db1 h2 db2 h3 db3. place_hold s1 False id1 tenant caseId r1 o1 db = (Inr h1, db1)
    \<and> place_hold s2 True id2 tenant caseId r2 o2 db1 = (Inr h2, db2)
    \<and> length (filter (\<lambda>h. hold_tenantId h = tenant \<and> hold_caseId h = caseId \<and> hold_status h = HOLD_ACTIVE)
        (holds db2)) = 2
    \<and> release_hold s3 now tenant id1 actor db2 = (Inr h3, db3) \<and> hasActiveHold tenant caseId db3"
proof -
  let ?h1 = "new_hold id1 tenant caseId r1 o1" and ?h2 = "new_hold id2 tenant caseId r2 o2"
  let ?P = "\<lambda>h. hold_tenantId h = tenant \<and> hold_caseId h = caseId \<and> hold_status h = HOLD_ACTIVE"
  have none: "filter ?P (holds db) = []" "find_active_hold tenant caseId db = None"
    using assms(3) by (auto simp: hasActiveHold_def find_active_hold_def find_None_iff filter_empty_conv)
  obtain db1 where p1: "place_hold s1 False id1 tenant caseId r1 o1 db = (Inr ?h1, db1)"
      "holds db1 = holds db @ [?h1]"
    using place_hold_ok [of False tenant caseId db id1 s1 r1 o1] assms(1) none(2) by blast
  have "hold_id h \<noteq> id2" if "h \<in> set (holds db1)" for h
    using that p1(2) assms(1,2) by (auto simp: new_hold_def)
  then obtain db2 where p2: "place_hold s2 True id2 tenant caseId r2 o2 db1 = (Inr ?h2, db2)"
      "holds db2 = holds db @ [?h1, ?h2]"
    using place_hold_ok [of True tenant caseId db1 id2 s2 r2 o2] p1(2) by auto
  have "List.find (\<lambda>h. hold_id h = id1 \<and> hold_tenantId h = tenant) (holds db) = None"
    using assms(1) by (auto simp: find_None_iff)
  then have f1: "List.find (\<lambda>h. hold_id h = id1 \<and> hold_tenantId h = tenant) (holds db2) = Some ?h1"
    by (simp add: p2(2) find_append new_hold_def)
  obtain h3 db3 where p3: "release_hold s3 now tenant id1 actor db2 = (Inr h3, db3)"
      "holds db3 = update_where (\<lambda>x. hold_id x = id1 \<and> hold_tenantId x = tenant)
        (\<lambda>x. x\<lparr>hold_status := HOLD_RELEASED, hold_releasedAt := Some now, hold_releasedBy := Some actor\<rparr>) (holds db2)"
    using release_hold_ok [OF f1, of s3 now actor] by (auto simp: new_hold_def simp del: set_update_where)
  have "?h2 \<in> set (holds db3)" using p2(2) p3(2) assms(2) by (auto simp: set_update_where new_hold_def)
  moreover have "?P ?h2" by (simp add: new_hold_def)
  ultimately have "hasActiveHold tenant caseId db3"
    unfolding hasActiveHold_def find_active_hold_def by (simp add: find_None_iff) blast
  moreover have "length (filter ?P (holds db2)) = 2" using none(1) by (simp add: p2(2) new_hold_def)
  ultimately show ?thesis using p1(1) p2(1) p3(1) by blast
qed

theorem concurrent_placements_both_hold_witness:
  "\<exists>h1 db1 h2 db2. place_hold True False ''h1'' ''t'' ''c'' ''audit'' ''a'' ex_revoked = (Inr h1, db1)
    \<and> place_hold True True ''h2'' ''t'' ''c'' ''audit'' ''b'' db1 = (Inr h2, db2)
    \<and> length (filter (\<lambda>h. hold_tenantId h = ''t'' \<and> hold_caseId h = ''c'' \<and> hold_status h = HOLD_ACTIVE)
        (holds db2)) = 2"
proof -
  have "holds ex_revoked = []" "\<not> hasActiveHold ''t'' ''c'' ex_revoked" by code_simp+
  then show ?thesis
    using concurrent_placements_both_hold [of ex_revoked "''h1''" "''h2''" "''t''" "''c''" True "''audit''" "''a''"
        True "''audit''" "''b''" True 5000 "''ops''"] by force
qed

text \<open>
  The recovery branch of \<open>prepare\<close> does not recover: when the insert of a retry meets the
  row a concurrent attempt has just inserted, the retry gets the transaction error of its
  own re-read, where the same call running later would have returned that row.
\<close>

theorem prepare_race_is_not_recovered:
  assumes "find_effect p db = Some e" "int_caseId e = prep_caseId p" "int_effectClass e = prep_effectClass p"
    and "int_requestFingerprint e = cx_sha256 cx (canonicalJson (prep_requestPayload p))"
    and "int_providerReceipt e = None" "int_normalizedFinding e = None"
  shows "prepare cx True fr p db = (Inl TransactionAborted, db)
    \<and> (\<exists>i db'. prepare cx False fr p db = (Inr i, db') \<and> int_id i = int_id e
         \<and> int_idempotencyKey i = int_idempotencyKey e)"
proof -
  have e: "e \<in> set (intents db)" "same_effect p e"
    using find_SomeD [OF assms(1) [unfolded find_effect_def]] by auto
  have "insert_intent (new_intent cx fr p) db = Inl UniqueKeyViolation"
    using e by (auto simp: insert_intent_def new_intent_def same_effect_def)
  then have "prepare cx True fr p db = (Inl TransactionAborted, db)"
    by (simp add: prepare_def prepare_txn_def bind_def run_txn_def)
  moreover have "\<exists>i db'. prepare cx False fr p db = (Inr i, db') \<and> int_id i = int_id e
         \<and> int_idempotencyKey i = int_idempotencyKey e"
    using assms
    by (auto simp: prepare_def prepare_txn_def reuse_intent_def bind_def run_txn_def toIntentValue_def
        decrypt_payload_def)
  ultimately show ?thesis ..
qed

theorem prepare_race_is_not_recovered_witness:
  "prepare ex_cx True \<lparr>fresh_id = ''other'', fresh_idempotencyKey = ''key3'', fresh_now = 1500\<rparr>
     (prepare_input ex_adapter ex_params ''grant'') ex_prepared = (Inl TransactionAborted, ex_prepared)"
proof -
  let ?p = "prepare_input ex_adapter ex_params ''grant''"
  let ?e = "the (find_effect ?p ex_prepared)"
  have "find_effect ?p ex_prepared = Some ?e" "int_caseId ?e = prep_caseId ?p"
    "int_effectClass ?e = prep_effectClass ?p"
    "int_requestFingerprint ?e = cx_sha256 ex_cx (canonicalJson (prep_requestPayload ?p))"
    "int_providerReceipt ?e = None" "int_normalizedFinding ?e = None"
    by code_simp+
  from prepare_race_is_not_recovered [OF this] show ?thesis by blast
qed

end
