(* ===== verification/Governance_Properties.thy ===== *)
theory Governance_Properties
  imports Provider_Scenario
begin

text \<open>
  The promotion chain, the kill switch, the adapter registry and the finding contract:
  what an activation presupposes, how long a disabled adapter stays disabled, and what a
  finding looks like once it is accepted. The governance tables change only through the
  governance operations (\<open>other_ops_keep_governance\<close>).
\<close>

section \<open>Operations that leave the governance tables alone\<close>

definition gov_same :: "platform_db \<Rightarrow> platform_db \<Rightarrow> bool" where
  "gov_same db db' \<longleftrightarrow>
     manifests db' = manifests db \<and> approvals db' = approvals db \<and> certifications db' = certifications db
     \<and> activations db' = activations db \<and> adapter_statuses db' = adapter_statuses db"

lemma gov_same_refl [simp]: "gov_same db db"
  by (simp add: gov_same_def)

lemma gov_same_trans: "gov_same a b \<Longrightarrow> gov_same b c \<Longrightarrow> gov_same a c"
  by (simp add: gov_same_def)

lemma gov_same_audit [simp]: "gov_same db (record_audit ok e db') \<longleftrightarrow> gov_same db db'"
  by (simp add: gov_same_def record_audit_def)

lemma gov_same_tables [simp]:
  "gov_same db (db\<lparr>intents := i\<rparr>)" "gov_same db (db\<lparr>consents := c\<rparr>)" "gov_same db (db\<lparr>tasks := t\<rparr>)"
  "gov_same db (db\<lparr>holds := h\<rparr>)" "gov_same db (db\<lparr>grants := g\<rparr>)" "gov_same db (db\<lparr>purposes := p\<rparr>)"
  "gov_same db (db\<lparr>evidence := e\<rparr>)"
  by (simp_all add: gov_same_def)

lemma gov_same_run_txn: "(\<And>a db'. p db = Inr (a, db') \<Longrightarrow> gov_same db db') \<Longrightarrow> gov_same db (snd (run_txn p db))"
  by (auto simp: run_txn_def split: sum.splits)

lemma gov_same_transition: "transition now t i froms st f db = Inr (u, db') \<Longrightarrow> gov_same db db'"
  by (auto simp: transition_def Let_def split: if_splits)

lemma gov_same_marks:
  "markDispatched now t i db = Inr (u, db') \<Longrightarrow> gov_same db db'"
  "markSucceeded cx a b now t i r f db = Inr (u, db') \<Longrightarrow> gov_same db db'"
  "markFailedFinal cx a now t i ro db = Inr (u, db') \<Longrightarrow> gov_same db db'"
  "markOutcomeUnknown now t i db = Inr (u, db') \<Longrightarrow> gov_same db db'"
  "markReconciling now t i db = Inr (u, db') \<Longrightarrow> gov_same db db'"
  "resolveManually now t i out w n db = Inr (v, db') \<Longrightarrow> gov_same db db'"
  by (auto simp: mark_defs resolveManually_def result_simps Let_def
      split: option.splits if_splits sum.splits intro: gov_same_transition)

lemma gov_same_prepare: "gov_same db (snd (prepare cx stale fr p db))"
  by (auto simp: prepare_def prepare_txn_def insert_intent_def reuse_intent_def bind_def run_txn_def
      split: sum.splits option.splits if_splits prod.splits)

lemma gov_same_move_each: "gov_same db (snd (move_each now xs n db))"
  by (induction now xs n db rule: move_each.induct)
    (auto split: sum.splits prod.splits intro: gov_same_trans dest: gov_same_marks(5))

lemma gov_same_reconcile: "gov_same db (snd (reconcilePendingIntents now ms db))"
  using gov_same_move_each
  by (auto simp: reconcilePendingIntents_def Let_def split: prod.splits) (metis snd_conv)

lemma gov_same_consent:
  "grantForCase now i t c p s db = Inr (r, db') \<Longrightarrow> gov_same db db'"
  "revoke_consent now i t c reason db = Inr (r, db') \<Longrightarrow> gov_same db db'"
  by (auto simp: grantForCase_def revoke_consent_def openRetentionReviewForRevokedConsent_def Let_def
      result_simps gov_same_def split: if_splits)

lemma gov_same_holds:
  "gov_same db (snd (place_hold ok stale i t c r w db))"
  "gov_same db (snd (release_hold ok now t i w db))"
  by (auto simp: place_hold_def place_txn_def release_hold_def release_txn_def bind_def run_txn_def Let_def
      result_simps split: sum.splits option.splits if_splits)

lemma gov_same_disposition_steps [simp]:
  "gov_same db (close_task now h t tid act w db1) \<longleftrightarrow> gov_same db db1"
  "gov_same db (clear_payloads now t iids db1) \<longleftrightarrow> gov_same db db1"
  "gov_same db (cancel_prepared now t iids w db1) \<longleftrightarrow> gov_same db db1"
  "gov_same db (dispose_evidence act t eids db1) \<longleftrightarrow> gov_same db db1"
  by (auto simp: gov_same_def close_task_def clear_payloads_def cancel_prepared_def dispose_evidence_def
      split: DataDispositionResolutionAction.splits)

lemma gov_same_disposition:
  "gov_same db (snd (resolve_task ok now h t i act w c db))"
  "gov_same db (snd (verifyBackupExpiry ok now t i w r db))"
  by (auto simp: resolve_task_def resolve_txn_def verifyBackupExpiry_def verify_txn_def bind_def run_txn_def
      Let_def result_simps split: sum.splits if_splits)

lemma gov_same_authorization:
  "issue now gi inp db = Inr (g, db') \<Longrightarrow> gov_same db db'"
  "issueSynthetic now pid c db = Inr (d, db') \<Longrightarrow> gov_same db db'"
  "gov_same db (revoke_grant now t gi db)"
  by (auto simp: issue_def issueSynthetic_def revoke_grant_def Let_def split: if_splits)

fun governs :: "platform_op \<Rightarrow> bool" where
  "governs (Op_disable i p c m r w) = True"
| "governs (Op_enable i p c m w) = True"
| "governs (Op_propose cx ok now i inp) = True"
| "governs (Op_certify ok now i m env w d e x) = True"
| "governs (Op_approve ok now i m r w d x) = True"
| "governs (Op_activateSave ok i env w ch) = True"
| "governs (Op_deactivate ok p c m w) = True"
| "governs _ = False"

lemma other_ops_keep_governance:
  "\<not> governs x \<Longrightarrow> gov_same db (snd (platform_exec x db))"
  by (cases x)
    (auto simp: rotateSensitivePayloadEncryption_def result_simps
      intro!: gov_same_run_txn gov_same_prepare gov_same_reconcile gov_same_holds gov_same_disposition
        gov_same_authorization(3)
      dest: gov_same_marks gov_same_consent gov_same_authorization(1,2))

section \<open>The promotion chain\<close>

text \<open>
  Every approval on record is by someone other than the proposer of its manifest, and no
  manifest declares a structurally excluded command class.
\<close>

definition gov_inv :: "platform_db \<Rightarrow> bool" where
  "gov_inv db \<longleftrightarrow>
     (\<forall>a \<in> set (approvals db). appr_decision a = APPR_APPROVED \<longrightarrow>
        (\<exists>m. find_manifest (appr_manifestId a) db = Some m \<and> pm_proposedBy m \<noteq> appr_approvedBy a))
     \<and> (\<forall>m \<in> set (manifests db). \<forall>c. pm_declaredCommandClass m = Some c \<longrightarrow>
          c \<notin> set STRUCTURALLY_EXCLUDED_COMMAND_CLASSES)"

lemma gov_inv_same: "gov_same db db' \<Longrightarrow> gov_inv db' = gov_inv db"
  by (simp add: gov_inv_def gov_same_def find_manifest_def)

lemma gov_inv_audit [simp]: "gov_inv (record_audit ok e db) = gov_inv db"
  by (rule gov_inv_same) simp

lemma gov_inv_untouched [simp]:
  "gov_inv (db\<lparr>activations := x\<rparr>) = gov_inv db" "gov_inv (db\<lparr>certifications := y\<rparr>) = gov_inv db"
  "gov_inv (db\<lparr>adapter_statuses := z\<rparr>) = gov_inv db"
  by (simp_all add: gov_inv_def find_manifest_def)

lemma not_excluded:
  "assertNotStructurallyExcluded k n d = Inr u \<Longrightarrow> d = Some c \<Longrightarrow> c \<notin> set STRUCTURALLY_EXCLUDED_COMMAND_CLASSES"
  by (auto simp: assertNotStructurallyExcluded_def STRUCTURALLY_EXCLUDED_COMMAND_CLASSES_def result_simps)

lemma gov_inv_add_manifest:
  assumes "gov_inv db" "\<And>c. pm_declaredCommandClass m = Some c \<Longrightarrow> c \<notin> set STRUCTURALLY_EXCLUDED_COMMAND_CLASSES"
  shows "gov_inv (db\<lparr>manifests := manifests db @ [m]\<rparr>)"
proof -
  have "find_manifest k (db\<lparr>manifests := manifests db @ [m]\<rparr>) = Some n" if "find_manifest k db = Some n" for k n
    using that by (simp add: find_manifest_def find_append)
  then have "\<exists>n. find_manifest k (db\<lparr>manifests := manifests db @ [m]\<rparr>) = Some n \<and> pm_proposedBy n \<noteq> w"
    if "\<exists>n. find_manifest k db = Some n \<and> pm_proposedBy n \<noteq> w" for k w
    using that by blast
  then show ?thesis using assms unfolding gov_inv_def by simp
qed

lemma gov_inv_add_approval:
  assumes "gov_inv db" "find_manifest (appr_manifestId r) db = Some m"
    "appr_decision r = APPR_APPROVED \<Longrightarrow> pm_proposedBy m \<noteq> appr_approvedBy r"
  shows "gov_inv (db\<lparr>approvals := approvals db @ [r]\<rparr>)"
proof -
  have "find_manifest k (db\<lparr>approvals := as\<rparr>) = find_manifest k db" for k as by (simp add: find_manifest_def)
  then show ?thesis using assms unfolding gov_inv_def by auto
qed

lemma gov_inv_propose: "gov_inv db \<Longrightarrow> gov_inv (snd (propose cx ok now i inp db))"
  using not_excluded [of "''provider_promotion_manifest''"]
  by (fastforce simp: propose_def Let_def intro!: gov_inv_add_manifest split: sum.splits)

lemma gov_inv_approve: "gov_inv db \<Longrightarrow> gov_inv (snd (approve_manifest ok now i mid r w d x db))"
  by (auto simp: approve_manifest_def Let_def intro!: gov_inv_add_approval split: option.splits)

lemma gov_inv_governing:
  assumes "gov_inv db"
  shows "gov_inv (snd (certify ok now i m env w d e x db))" "gov_inv (snd (activate_save ok i env w ch db))"
    "gov_inv (snd (deactivate ok p c md w db))" "gov_inv (snd (run_txn (disable i p c md r w) db))"
    "gov_inv (snd (run_txn (enable i p c md w) db))"
  using assms
  by (auto simp: certify_def activate_save_def deactivate_def disable_def enable_def upsert_status_def run_txn_def
      Let_def split: option.splits prod.splits if_splits sum.splits)

interpretation gov: invariant_system platform_exec gov_inv
proof
  fix db x
  assume inv: "gov_inv db"
  show "gov_inv (snd (platform_exec x db))"
  proof (cases "governs x")
    case True
    then show ?thesis
      using gov_inv_propose [OF inv] gov_inv_approve [OF inv] gov_inv_governing [OF inv] by (cases x) auto
  next
    case False
    then show ?thesis using inv gov_inv_same other_ops_keep_governance by blast
  qed
qed

lemma gov_inv_empty: "gov_inv empty_platform"
  by (simp add: gov_inv_def empty_platform_def)

lemma activate_save_activates:
  assumes "activate_save stored newId env actor (m, ex) db = (Inr a, db')"
    and ex: "ex = find_activation (pm_providerId m) (pm_capability m) (pm_mode m) db"
  shows "isActivated (pm_providerId m) (pm_capability m) (pm_mode m) db' \<and> act_manifestId a = pm_id m
    \<and> act_manifestVersion a = pm_version m"
proof -
  let ?P = "\<lambda>a. act_providerId a = pm_providerId m \<and> act_capability a = pm_capability m \<and> act_mode a = pm_mode m"
  have a: "act_manifestId a = pm_id m" "act_manifestVersion a = pm_version m" "?P a" "act_state a = ACTIVATED"
    and rows: "activations db' = (if ex = None then activations db @ [a]
      else update_where (\<lambda>x. act_id x = act_id a) (\<lambda>_. a) (activations db))"
    and id: "ex = Some e \<Longrightarrow> act_id a = act_id e" for e
    using assms(1) by (auto simp: activate_save_def Let_def record_audit_def split: if_splits)
  have "\<exists>x. List.find ?P (activations db') = Some x \<and> act_state x = ACTIVATED"
  proof (cases ex)
    case None
    then show ?thesis using ex a rows by (simp add: find_activation_def find_append)
  next
    case (Some e)
    have "List.find ?P (update_where (\<lambda>x. act_id x = act_id e) (\<lambda>_. a) xs) = Some a"
      if "List.find ?P xs = Some e" for xs
      using that a(3) by (induction xs) (auto split: if_splits)
    then show ?thesis using Some ex a rows id by (simp add: find_activation_def)
  qed
  then show ?thesis using a by (auto simp: isActivated_def find_activation_def)
qed

text \<open>
  C25. An adapter is activated only by the whole chain. On a platform that any sequence of
  operations has produced, if \<open>activate\<close> returns then: the manifest exists and declares no
  excluded command class; its latest certification for the environment passed and has not
  expired; its latest approval is an approval, has not expired, and was given by someone
  other than the proposer; the caller knew the version that was active; and the tuple of
  the manifest is now activated with the manifest's version.
\<close>

theorem activation_needs_four_eyes:
  assumes "activate stored now newId mid env actor expected (run_ops platform_exec xs empty_platform) = (Inr a, db')"
  shows "\<exists>m c ap db. db = run_ops platform_exec xs empty_platform \<and> find_manifest mid db = Some m
    \<and> (\<forall>k. pm_declaredCommandClass m = Some k \<longrightarrow> k \<notin> set STRUCTURALLY_EXCLUDED_COMMAND_CLASSES)
    \<and> c \<in> set (certifications db) \<and> cert_manifestId c = mid \<and> cert_environment c = env
    \<and> cert_decision c = CERT_PASSED \<and> \<not> isExpired now (cert_expiresAt c)
    \<and> (\<forall>c' \<in> set (certifications db). cert_manifestId c' = mid \<longrightarrow> cert_environment c' = env
         \<longrightarrow> cert_decidedAt c' \<le> cert_decidedAt c)
    \<and> ap \<in> set (approvals db) \<and> appr_manifestId ap = mid \<and> appr_decision ap = APPR_APPROVED
    \<and> \<not> isExpired now (appr_expiresAt ap) \<and> appr_approvedBy ap \<noteq> pm_proposedBy m
    \<and> (\<forall>ap' \<in> set (approvals db). appr_manifestId ap' = mid \<longrightarrow> appr_decidedAt ap' \<le> appr_decidedAt ap)
    \<and> expected = map_option act_manifestVersion (find_activation (pm_providerId m) (pm_capability m) (pm_mode m) db)
    \<and> isActivated (pm_providerId m) (pm_capability m) (pm_mode m) db'
    \<and> act_manifestId a = mid \<and> act_manifestVersion a = pm_version m"
proof -
  define db where "db = run_ops platform_exec xs empty_platform"
  have inv: "gov_inv db" unfolding db_def by (rule gov.run_inv [OF gov_inv_empty])
  from assms obtain m ex where ck: "activate_check now mid env expected db = Inr (m, ex)"
    and sv: "activate_save stored newId env actor (m, ex) db = (Inr a, db')"
    by (auto simp: activate_def db_def [symmetric] split: sum.splits)
  from ck obtain c ap where
    m: "find_manifest mid db = Some m" and c: "latest_certification mid env db = Some c"
    "cert_decision c = CERT_PASSED" "\<not> isExpired now (cert_expiresAt c)"
    and ap: "latest_approval mid db = Some ap" "appr_decision ap = APPR_APPROVED" "\<not> isExpired now (appr_expiresAt ap)"
    and ex: "ex = find_activation (pm_providerId m) (pm_capability m) (pm_mode m) db"
    "expected = map_option act_manifestVersion ex"
    by (auto simp: activate_check_def Let_def result_simps split: option.splits)
  note cl = latest_by_SomeD [OF c(1) [unfolded latest_certification_def]]
  note al = latest_by_SomeD [OF ap(1) [unfolded latest_approval_def]]
  have mm: "m \<in> set (manifests db)" "pm_id m = mid" using find_SomeD [OF m [unfolded find_manifest_def]] by auto
  have "pm_proposedBy m \<noteq> appr_approvedBy ap" using inv al ap(2) m by (auto simp: gov_inv_def)
  moreover have "\<forall>k. pm_declaredCommandClass m = Some k \<longrightarrow> k \<notin> set STRUCTURALLY_EXCLUDED_COMMAND_CLASSES"
    using inv mm(1) by (auto simp: gov_inv_def)
  moreover have "isActivated (pm_providerId m) (pm_capability m) (pm_mode m) db' \<and> act_manifestId a = mid
      \<and> act_manifestVersion a = pm_version m"
    using activate_save_activates [OF sv ex(1)] mm(2) by blast
  ultimately show ?thesis
    using m c(2,3) ap(2,3) ex cl al unfolding db_def [symmetric]
    by (intro exI [of _ m] exI [of _ c] exI [of _ ap] exI [of _ db]) auto
qed

definition ex_proposal :: ProposeManifestInput where
  "ex_proposal =
     \<lparr>pr_providerId = ''bureau'', pr_capability = CREDIT, pr_mode = AUTHORIZED_SANDBOX, pr_adapterVersion = ''1'',
      pr_endpointAllowlist = [''https://bureau''], pr_dataClassifications = [''CREDIT''],
      pr_proposedBy = ''alice'', pr_validFrom = None, pr_validUntil = None, pr_declaredCommandClass = None\<rparr>"

definition ex_chain :: "platform_op list" where
  "ex_chain =
     [Op_propose ex_cx True 100 ''m1'' ex_proposal,
      Op_certify True 200 ''k1'' ''m1'' ''staging'' ''carol'' CERT_PASSED ''report'' None,
      Op_approve True 300 ''a1'' ''m1'' ''RISK'' ''bob'' APPR_APPROVED (Some 9000)]"

definition ex_promoted :: platform_db where
  "ex_promoted = run_ops platform_exec ex_chain empty_platform"

theorem activation_needs_four_eyes_witness:
  "\<exists>a db' m ap. activate True 400 ''x1'' ''m1'' ''staging'' ''dave'' None ex_promoted = (Inr a, db')
    \<and> find_manifest ''m1'' ex_promoted = Some m \<and> ap \<in> set (approvals ex_promoted)
    \<and> appr_approvedBy ap \<noteq> pm_proposedBy m \<and> isActivated (pm_providerId m) (pm_capability m) (pm_mode m) db'"
proof -
  let ?run = "activate True 400 ''x1'' ''m1'' ''staging'' ''dave'' None ex_promoted"
  define a where "a = projr (fst ?run)"
  define db' where "db' = snd ?run"
  have "?run = (Inr a, db')" unfolding a_def db'_def by code_simp
  then show ?thesis
    using activation_needs_four_eyes [of True 400 "''x1''" "''m1''" "''staging''" "''dave''" None ex_chain a db']
    unfolding ex_promoted_def by blast
qed

text \<open>
  The version check of \<open>activate\<close> does not stop two operators who race. If both have
  passed the check before either saves, both saves succeed, and the second overwrites the
  first, although the version it expects is no longer the active one: run after the first
  save, the same check refuses it.
\<close>

theorem activation_race_overwrites:
  assumes c1: "activate_check now mid1 env expected db = Inr (m1, Some e)"
    and c2: "activate_check now mid2 env expected db = Inr (m2, Some e)"
    and newer: "expected \<noteq> Some (pm_version m1)"
  shows "\<exists>a1 db1 a2 db2. activate_save s1 i1 env w1 (m1, Some e) db = (Inr a1, db1)
    \<and> activate_save s2 i2 env w2 (m2, Some e) db1 = (Inr a2, db2)
    \<and> find_activation (pm_providerId m1) (pm_capability m1) (pm_mode m1) db2 = Some a2
    \<and> act_manifestId a2 = mid2
    \<and> activate_check now mid2 env expected db1 = Inl (ActivationMoved expected (Some (pm_version m1)))"
proof -
  from c1 have f1: "find_activation (pm_providerId m1) (pm_capability m1) (pm_mode m1) db = Some e"
    by (auto simp: activate_check_def Let_def result_simps)
  from c2 have f2: "find_activation (pm_providerId m2) (pm_capability m2) (pm_mode m2) db = Some e"
    and id2: "pm_id m2 = mid2"
    by (auto simp: activate_check_def Let_def result_simps find_manifest_def dest: find_SomeD)
  have tup: "pm_providerId m2 = pm_providerId m1" "pm_capability m2 = pm_capability m1" "pm_mode m2 = pm_mode m1"
    using find_SomeD [OF f1 [unfolded find_activation_def]] find_SomeD [OF f2 [unfolded find_activation_def]] by auto
  obtain a1 db1 where s1: "activate_save s1 i1 env w1 (m1, Some e) db = (Inr a1, db1)"
    and r1: "activations db1 = update_where (\<lambda>x. act_id x = act_id e) (\<lambda>_. a1) (activations db)"
      "act_id a1 = act_id e" "act_manifestVersion a1 = pm_version m1"
      "act_providerId a1 = pm_providerId m1" "act_capability a1 = pm_capability m1" "act_mode a1 = pm_mode m1"
    and k1: "manifests db1 = manifests db" "certifications db1 = certifications db" "approvals db1 = approvals db"
    by (auto simp: activate_save_def Let_def record_audit_def)
  have upd: "List.find (\<lambda>a. act_providerId a = pm_providerId m1 \<and> act_capability a = pm_capability m1
        \<and> act_mode a = pm_mode m1) (update_where (\<lambda>x. act_id x = act_id y) (\<lambda>_. b) xs) = Some b"
    if "List.find (\<lambda>a. act_providerId a = pm_providerId m1 \<and> act_capability a = pm_capability m1
        \<and> act_mode a = pm_mode m1) xs = Some y" "act_providerId b = pm_providerId m1"
      "act_capability b = pm_capability m1" "act_mode b = pm_mode m1" for y b xs
    using that by (induction xs) (auto split: if_splits)
  have g1: "find_activation (pm_providerId m1) (pm_capability m1) (pm_mode m1) db1 = Some a1"
    using upd [OF f1 [unfolded find_activation_def] r1(4-6)] by (simp add: find_activation_def r1(1))
  obtain a2 db2 where s2: "activate_save s2 i2 env w2 (m2, Some e) db1 = (Inr a2, db2)"
    and r2: "activations db2 = update_where (\<lambda>x. act_id x = act_id a1) (\<lambda>_. a2) (activations db1)"
      "act_manifestId a2 = mid2"
      "act_providerId a2 = pm_providerId m1" "act_capability a2 = pm_capability m1" "act_mode a2 = pm_mode m1"
    using id2 tup r1(2) by (auto simp: activate_save_def Let_def record_audit_def)
  have g2: "find_activation (pm_providerId m1) (pm_capability m1) (pm_mode m1) db2 = Some a2"
    using upd [OF g1 [unfolded find_activation_def] r2(3-5)] by (simp add: find_activation_def r2(1))
  have "activate_check now mid2 env expected db1 = Inl (ActivationMoved expected (Some (pm_version m1)))"
    using c2 g1 newer tup k1 r1(3)
    by (auto simp: activate_check_def Let_def and_then_def ensure_def find_manifest_def latest_certification_def
        latest_approval_def split: sum.splits option.splits if_splits)
  with s1 s2 g2 r2(2) show ?thesis by blast
qed

definition ex_contested :: platform_db where
  "ex_contested = run_ops platform_exec
     [Op_propose ex_cx True 500 ''m2'' ex_proposal,
      Op_certify True 510 ''k2'' ''m2'' ''staging'' ''carol'' CERT_PASSED ''report'' None,
      Op_approve True 520 ''a2'' ''m2'' ''RISK'' ''bob'' APPR_APPROVED None,
      Op_propose ex_cx True 530 ''m3'' ex_proposal,
      Op_certify True 540 ''k3'' ''m3'' ''staging'' ''carol'' CERT_PASSED ''report'' None,
      Op_approve True 550 ''a3'' ''m3'' ''RISK'' ''bob'' APPR_APPROVED None]
     (snd (activate True 400 ''x1'' ''m1'' ''staging'' ''dave'' None ex_promoted))"

theorem activation_race_overwrites_witness:
  "\<exists>m2 m3 e a2 db1 a3 db2. activate_check 600 ''m2'' ''staging'' (Some 1) ex_contested = Inr (m2, Some e)
    \<and> activate_check 600 ''m3'' ''staging'' (Some 1) ex_contested = Inr (m3, Some e)
    \<and> activate_save True ''y'' ''staging'' ''dave'' (m2, Some e) ex_contested = (Inr a2, db1)
    \<and> activate_save True ''y'' ''staging'' ''erin'' (m3, Some e) db1 = (Inr a3, db2)
    \<and> act_manifestId a3 = ''m3''"
proof -
  define m2 where "m2 = the (find_manifest ''m2'' ex_contested)"
  define m3 where "m3 = the (find_manifest ''m3'' ex_contested)"
  define e where "e = hd (activations ex_contested)"
  have "activate_check 600 ''m2'' ''staging'' (Some 1) ex_contested = Inr (m2, Some e)"
    "activate_check 600 ''m3'' ''staging'' (Some 1) ex_contested = Inr (m3, Some e)" "pm_version m2 = 2"
    unfolding m2_def m3_def e_def by code_simp+
  moreover from this have "Some 1 \<noteq> Some (pm_version m2)" by simp
  ultimately show ?thesis
    using activation_race_overwrites [of 600 "''m2''" "''staging''" "Some 1" ex_contested m2 e "''m3''" m3
        True "''y''" "''dave''" True "''y''" "''erin''"] by blast
qed

section \<open>The kill switch\<close>

definition disabled_tuple :: "string \<Rightarrow> ProviderCapability \<Rightarrow> ProviderMode \<Rightarrow> platform_db \<Rightarrow> bool" where
  "disabled_tuple pid c m db \<longleftrightarrow>
     distinct (map st_id (adapter_statuses db))
     \<and> (\<exists>s. find_status pid c m db = Some s \<and> st_state s = ADAPTER_DISABLED)"

fun enables :: "string \<Rightarrow> ProviderCapability \<Rightarrow> ProviderMode \<Rightarrow> platform_op \<Rightarrow> bool" where
  "enables pid c m (Op_enable i p c' m' w) = (p = pid \<and> c' = c \<and> m' = m)"
| "enables pid c m _ = False"

lemma disabled_tuple_same: "adapter_statuses db' = adapter_statuses db \<Longrightarrow> disabled_tuple p c m db' = disabled_tuple p c m db"
  by (simp add: disabled_tuple_def find_status_def)

lemma upsert_status_keeps:
  assumes "disabled_tuple p c m db" "upsert_status i p' c' m' st r w db = Inr (u, db')"
    "st = ADAPTER_DISABLED \<or> (p', c', m') \<noteq> (p, c, m)"
  shows "disabled_tuple p c m db'"
proof (cases "find_status p' c' m' db")
  case None
  with assms show ?thesis
    by (auto simp: upsert_status_def disabled_tuple_def find_status_def find_append split: if_splits)
next
  case (Some e)
  let ?P = "\<lambda>s. st_providerId s = p \<and> st_capability s = c \<and> st_mode s = m"
  let ?f = "\<lambda>s. s\<lparr>st_state := st, st_reason := r, st_updatedBy := w\<rparr>"
  from assms(1) obtain s where s: "List.find ?P (adapter_statuses db) = Some s" "st_state s = ADAPTER_DISABLED"
    by (auto simp: disabled_tuple_def find_status_def)
  from Some have e: "e \<in> set (adapter_statuses db)" "st_providerId e = p'" "st_capability e = c'" "st_mode e = m'"
    by (auto simp: find_status_def dest: find_SomeD)
  have ids: "st_id s = st_id e \<Longrightarrow> s = e"
    using same_row [of st_id "adapter_statuses db" s e] assms(1) find_SomeD [OF s(1)] e(1)
    by (simp add: disabled_tuple_def)
  have "List.find ?P (update_where (\<lambda>s. st_id s = st_id e) ?f (adapter_statuses db)) =
      Some (if st_id s = st_id e then ?f s else s)"
    using s(1) by (simp add: find_update_where)
  moreover have "st_state (if st_id s = st_id e then ?f s else s) = ADAPTER_DISABLED"
    using s(2) ids assms(3) e find_SomeD [OF s(1)] by auto
  moreover have "db' = db\<lparr>adapter_statuses := update_where (\<lambda>s. st_id s = st_id e) ?f (adapter_statuses db)\<rparr>"
    using Some assms(2) by (simp add: upsert_status_def)
  ultimately show ?thesis
    using s(1) assms(1) by (simp add: disabled_tuple_def find_status_def map_update_where)
qed

lemma disabled_tuple_step:
  assumes "disabled_tuple p c m db" "\<not> enables p c m x"
  shows "disabled_tuple p c m (snd (platform_exec x db))"
proof (cases "governs x")
  case False
  then show ?thesis
    using disabled_tuple_same [of "snd (platform_exec x db)" db p c m] other_ops_keep_governance [of x db] assms(1)
    unfolding gov_same_def by blast
next
  case True
  have keep: "disabled_tuple p c m (snd (run_txn (upsert_status i p' c' m' st r w) db))"
    if "st = ADAPTER_DISABLED \<or> (p', c', m') \<noteq> (p, c, m)" for i p' c' m' st r w
    using upsert_status_keeps [OF assms(1) _ that] assms(1) by (auto simp: run_txn_def split: sum.splits)
  have other: "adapter_statuses (snd (propose cx ok now i inp db)) = adapter_statuses db"
    "adapter_statuses (snd (certify ok now i mid env w d e t db)) = adapter_statuses db"
    "adapter_statuses (snd (approve_manifest ok now i mid rl w d' t db)) = adapter_statuses db"
    "adapter_statuses (snd (activate_save ok i env w ch db)) = adapter_statuses db"
    "adapter_statuses (snd (deactivate ok p' c' m' w db)) = adapter_statuses db"
    for cx ok now i inp mid env w d d' e t ch p' c' m' rl
    by (auto simp: propose_def certify_def approve_manifest_def activate_save_def deactivate_def record_audit_def
        Let_def split: sum.splits option.splits prod.splits if_splits)
  show ?thesis
    using True assms keep other [THEN disabled_tuple_same]
    by (cases x) (auto simp: disable_def enable_def)
qed

lemma disabled_tuple_run:
  assumes "disabled_tuple p c m db" "list_all (\<lambda>x. \<not> enables p c m x) xs"
  shows "disabled_tuple p c m (run_ops platform_exec xs db)"
  using assms by (induction xs arbitrary: db) (auto intro: disabled_tuple_step)

text \<open>
  C26. A disabled adapter receives nothing until it is enabled. After \<open>disable\<close> succeeded and
  any operations that do not enable that tuple, every dispatch that resolves to the adapter
  throws \<open>ProviderDisabledError\<close>, submits nothing, and neither issues a grant nor
  prepares an intent: its own steps change no table.
\<close>

theorem kill_switch_stops_dispatch:
  assumes "distinct (map st_id (adapter_statuses db))"
    and "disable i (ad_providerId a) (dp_capability p) (mode_of p) reason actor db = Inr (u, db')"
    and "list_all (\<lambda>x. \<not> enables (ad_providerId a) (dp_capability p) (mode_of p) x) xs"
    and "others env 0 (w_db w) = run_ops platform_exec xs db'"
    and "resolve_adapter reg (dp_capability p) (mode_of p) = Inr a"
    and "assertNotStructurallyExcluded ''provider_adapter''
       (tuple_name (ad_providerId a) (dp_capability p) (mode_of p)) (ad_excludedCommandClass a) = Inr ()"
  shows "dispatchProviderRequest cx reg env p w =
    (Inl (ProviderDisabledError (ad_providerId a) (dp_capability p) (mode_of p)),
     w\<lparr>w_db := run_ops platform_exec xs db'\<rparr>)"
proof -
  let ?P = "\<lambda>s. st_providerId s = ad_providerId a \<and> st_capability s = dp_capability p \<and> st_mode s = mode_of p"
  have "disabled_tuple (ad_providerId a) (dp_capability p) (mode_of p) db'"
  proof (cases "find_status (ad_providerId a) (dp_capability p) (mode_of p) db")
    case None
    then show ?thesis
      using assms(1,2)
      by (auto simp: disable_def upsert_status_def disabled_tuple_def find_status_def find_append split: if_splits)
  next
    case (Some e)
    then have "db' = db\<lparr>adapter_statuses := update_where (\<lambda>s. st_id s = st_id e)
        (\<lambda>s. s\<lparr>st_state := ADAPTER_DISABLED, st_reason := Some reason, st_updatedBy := actor\<rparr>) (adapter_statuses db)\<rparr>"
      using assms(2) by (simp add: disable_def upsert_status_def)
    then show ?thesis
      using assms(1) Some by (simp add: disabled_tuple_def find_status_def map_update_where find_update_where)
  qed
  from disabled_tuple_run [OF this assms(3)]
  have "\<not> isActive (ad_providerId a) (dp_capability p) (mode_of p) (run_ops platform_exec xs db')"
    by (auto simp: disabled_tuple_def isActive_def)
  then show ?thesis
    using assms(4-6)
    by (simp add: dispatchProviderRequest_def check_gates_def bind_def step_def reading_def throw_def)
qed

definition ex_disabled :: platform_db where
  "ex_disabled = snd (run_txn (disable ''s1'' ''sim-credit'' CREDIT SIMULATOR ''incident'' ''ops'') (w_db ex_world))"

theorem kill_switch_stops_dispatch_witness:
  "fst (dispatchProviderRequest ex_cx ex_reg ex_env ex_params (ex_world\<lparr>w_db := ex_disabled\<rparr>))
    = Inl (ProviderDisabledError ''sim-credit'' CREDIT SIMULATOR)"
proof -
  have ids: "ad_providerId ex_adapter = ''sim-credit''" "dp_capability ex_params = CREDIT" "mode_of ex_params = SIMULATOR"
    by code_simp+
  have "distinct (map st_id (adapter_statuses (w_db ex_world)))" by code_simp
  moreover have "disable ''s1'' ''sim-credit'' CREDIT SIMULATOR ''incident'' ''ops'' (w_db ex_world)
      = Inr ((), ex_disabled)"
    by code_simp
  moreover have "resolve_adapter ex_reg CREDIT SIMULATOR = Inr ex_adapter"
    by (simp add: resolve_adapter_def ex_reg_def)
  moreover have "assertNotStructurallyExcluded ''provider_adapter'' (tuple_name ''sim-credit'' CREDIT SIMULATOR)
      (ad_excludedCommandClass ex_adapter) = Inr ()"
    by code_simp
  moreover have "others ex_env 0 (w_db (ex_world\<lparr>w_db := ex_disabled\<rparr>)) = run_ops platform_exec [] ex_disabled"
    by (simp add: ex_env_def)
  ultimately show ?thesis
    using kill_switch_stops_dispatch [of "w_db ex_world" "''s1''" ex_adapter ex_params "''incident''" "''ops''" "()"
        ex_disabled "[]" ex_env "ex_world\<lparr>w_db := ex_disabled\<rparr>" ex_reg ex_cx]
    by (simp add: ids)
qed

section \<open>The registry\<close>

definition register_exec :: "ProviderAdapter \<Rightarrow> registry \<Rightarrow> (platform_error + unit) \<times> registry" where
  "register_exec a reg = (case register a reg of Inl e \<Rightarrow> (Inl e, reg) | Inr reg' \<Rightarrow> (Inr (), reg'))"

definition registry_inv :: "registry \<Rightarrow> bool" where
  "registry_inv reg \<longleftrightarrow>
     distinct (map fst reg)
     \<and> (\<forall>(k, a) \<in> set reg. k = (ad_capability a, ad_mode a)
          \<and> (\<forall>c. ad_excludedCommandClass a = Some c \<longrightarrow> c \<notin> set STRUCTURALLY_EXCLUDED_COMMAND_CLASSES))"

interpretation rg: invariant_system register_exec registry_inv
proof
  fix a reg
  assume "registry_inv reg"
  then show "registry_inv (snd (register_exec a reg))"
    using not_excluded [of "''provider_adapter''"]
    by (auto simp: register_exec_def register_def Let_def registry_inv_def result_simps map_of_eq_None_iff
        split: sum.splits)
qed

lemma register_grows: "set (run_ops register_exec as reg) \<subseteq> set reg \<union> (\<lambda>a. ((ad_capability a, ad_mode a), a)) ` set as"
proof (induction as arbitrary: reg)
  case (Cons a as)
  have "set (snd (register_exec a reg)) \<subseteq> set reg \<union> {((ad_capability a, ad_mode a), a)}"
    by (auto simp: register_exec_def register_def Let_def result_simps split: sum.splits)
  then show ?case using Cons.IH [of "snd (register_exec a reg)"] by auto
qed simp

text \<open>
  Whatever adapters are registered, in whatever order and whichever registrations are
  refused, an adapter that \<open>resolve\<close> returns was registered, serves exactly the capability
  and mode asked for, declares no structurally excluded command class, and is the only one
  the registry lists for that capability and mode.
\<close>

theorem registry_is_sound:
  assumes "resolve_adapter (run_ops register_exec as []) c m = Inr a"
  shows "a \<in> set as \<and> ad_capability a = c \<and> ad_mode a = m
    \<and> (\<forall>k. ad_excludedCommandClass a = Some k \<longrightarrow> k \<notin> set STRUCTURALLY_EXCLUDED_COMMAND_CLASSES)
    \<and> (\<forall>b \<in> set (listRegistered (run_ops register_exec as [])).
         ad_capability b = c \<longrightarrow> ad_mode b = m \<longrightarrow> b = a)"
proof -
  let ?reg = "run_ops register_exec as []"
  have "registry_inv []" by (simp add: registry_inv_def)
  then have inv: "registry_inv ?reg" by (rule rg.run_inv)
  have a: "((c, m), a) \<in> set ?reg" using assms by (auto simp: resolve_adapter_def result_simps dest: map_of_SomeD)
  have "a \<in> set as" using a register_grows [of as "[]"] by auto
  moreover have "b = a" if "(k, b) \<in> set ?reg" "ad_capability b = c" "ad_mode b = m" for k b
  proof -
    have "k = (c, m)" using inv that by (auto simp: registry_inv_def)
    then show ?thesis
      using same_row [of fst ?reg "(k, b)" "((c, m), a)"] inv a that(1) by (simp add: registry_inv_def)
  qed
  moreover have "ad_capability a = c \<and> ad_mode a = m
      \<and> (\<forall>k. ad_excludedCommandClass a = Some k \<longrightarrow> k \<notin> set STRUCTURALLY_EXCLUDED_COMMAND_CLASSES)"
    using inv a unfolding registry_inv_def by fastforce
  ultimately show ?thesis unfolding listRegistered_def by (simp add: image_iff) force
qed

theorem registry_is_sound_witness:
  "ad_capability ex_adapter = CREDIT
    \<and> resolve_adapter (run_ops register_exec [ex_adapter, ex_adapter] []) CREDIT SIMULATOR = Inr ex_adapter"
proof -
  have "run_ops register_exec [ex_adapter, ex_adapter] [] = [((CREDIT, SIMULATOR), ex_adapter)]"
    by (simp add: register_exec_def register_def Let_def and_then_def ensure_def assertNotStructurallyExcluded_def
        ex_adapter_def)
  then have "resolve_adapter (run_ops register_exec [ex_adapter, ex_adapter] []) CREDIT SIMULATOR = Inr ex_adapter"
    by (simp add: resolve_adapter_def)
  with registry_is_sound [OF this] show ?thesis by blast
qed

section \<open>The finding contract\<close>

lemma member_of_schema_order:
  fixes sch :: object_schema
  assumes "(k, ft) \<in> set sch"
  shows "member_of (JObj (filter (\<lambda>m. P (fst m)) (map (\<lambda>(k, ft). (k, val k)) sch))) k
    = (if P k then Some (val k) else None)"
proof -
  have nd: "map_of (filter (\<lambda>m. P (fst m)) (map (\<lambda>(k, ft). (k, val k)) sch)) k
      = (if P k \<and> k \<in> fst ` set sch then Some (val k) else None)" for sch :: object_schema
    by (induction sch) auto
  have "k \<in> fst ` set sch" using assms by (metis fst_conv image_eqI)
  then show ?thesis by (simp add: member_of_def nd)
qed

text \<open>
  C27. An accepted finding is canonical: the receipt is at most five minutes old and at most
  thirty seconds ahead; the finding has exactly the permitted fields of its capability's
  schema, in the schema's order, each with the value the adapter reported, of the declared
  type and range; and the adapter's report as a whole satisfies the cross-field rules.
\<close>

theorem accepted_finding_is_canonical:
  assumes "accept_finding env a p g r = Inr f"
  shows "\<exists>raw t ms. ad_normalize a (rcpt_payload r) (dispatch_context p) = Inr raw
    \<and> rcpt_time r = Some t \<and> clk env 13 - 300000 \<le> t \<and> t \<le> clk env 13 + 30000
    \<and> refinement_ok (dp_capability p) raw
    \<and> f = JObj ms
    \<and> map fst ms = filter (\<lambda>k. case gr_permittedFields g of None \<Rightarrow> True | Some ks \<Rightarrow> k \<in> set ks)
        (map fst (schema_for (dp_capability p)))
    \<and> (\<forall>(k, ft) \<in> set (schema_for (dp_capability p)). \<forall>v.
         member_of f k = Some v \<longrightarrow> member_of raw k = Some v \<and> field_ok ft v)"
proof -
  let ?sch = "schema_for (dp_capability p)"
  let ?ok = "\<lambda>k. case gr_permittedFields g of None \<Rightarrow> True | Some ks \<Rightarrow> k \<in> set ks"
  from assms obtain raw t where raw: "ad_normalize a (rcpt_payload r) (dispatch_context p) = Inr raw"
    and t: "rcpt_time r = Some t" "clk env 13 - 300000 \<le> t" "t \<le> clk env 13 + 30000"
    and ref: "refinement_ok (dp_capability p) raw"
    and tys: "\<forall>(k, ft) \<in> set ?sch. case member_of raw k of None \<Rightarrow> False | Some x \<Rightarrow> field_ok ft x"
    and f: "f = filterToPermittedFields (JObj (map (\<lambda>(k, ft). (k, the (member_of raw k))) ?sch)) (gr_permittedFields g)"
    by (auto simp: accept_finding_def validateProviderFinding_def schema_parse_def result_simps list_all_iff
        split: option.splits if_splits json.splits)
  have f': "f = JObj (filter (\<lambda>m. ?ok (fst m)) (map (\<lambda>(k, ft). (k, the (member_of raw k))) ?sch))"
    by (cases "gr_permittedFields g") (simp_all add: f filterToPermittedFields_def)
  have some: "\<forall>k ft. (k, ft) \<in> set ?sch \<longrightarrow> member_of raw k \<noteq> None"
    using tys by (auto split: option.splits)
  have "member_of raw k = Some v \<and> field_ok ft v" if "(k, ft) \<in> set ?sch" "member_of f k = Some v" for k ft v
    using member_of_schema_order [OF that(1), of ?ok "\<lambda>k. the (member_of raw k)"]
      that tys some
    by (auto simp: f' split: if_splits option.splits)
  moreover have "map fst (filter (\<lambda>m. P (fst m)) (map (\<lambda>(k, ft). (k, the (member_of raw k))) sch))
      = filter P (map fst sch)" for sch :: object_schema and P
    by (induction sch) auto
  ultimately show ?thesis
    using raw t ref f'
    by (intro exI [of _ raw] exI [of _ t]
        exI [of _ "filter (\<lambda>m. ?ok (fst m)) (map (\<lambda>(k, ft). (k, the (member_of raw k))) ?sch)"]) auto
qed

definition ex_grant :: ProviderAuthorizationGrant where
  "ex_grant =
     \<lparr>gr_id = ''grant'', gr_tenantId = ''t'', gr_caseId = ''c'', gr_borrowerSubjectId = ''b'',
      gr_providerId = ''sim-credit'', gr_capability = CREDIT, gr_purposeCode = ''UNDERWRITING_EVIDENCE'',
      gr_permittedDataClasses = [''CREDIT''], gr_permittedFields = Some [''creditScore''],
      gr_consentRecordIds = [''consent''], gr_permissiblePurposeDecisionId = None, gr_issuedAt = 1000,
      gr_expiresAt = 301000, gr_revokedAt = None\<rparr>"

theorem accepted_finding_is_canonical_witness:
  "\<exists>t. accept_finding ex_env ex_adapter ex_params ex_grant
      \<lparr>rcpt_payload = ex_finding, rcpt_observedAt = ''now'', rcpt_time = Some t\<rparr>
        = Inr (JObj [(''creditScore'', JNum (Num 700))])
    \<and> 1000 - 300000 \<le> t \<and> t \<le> 1000 + 30000"
proof -
  have ac: "accept_finding ex_env ex_adapter ex_params ex_grant
      \<lparr>rcpt_payload = ex_finding, rcpt_observedAt = ''now'', rcpt_time = Some 1000\<rparr>
        = Inr (JObj [(''creditScore'', JNum (Num 700))])"
    by code_simp
  have "clk ex_env 13 = 1000" by code_simp
  with accepted_finding_is_canonical [OF ac] ac show ?thesis by auto
qed

end
