(* ===== verification/Js_Number.thy ===== *)
theory Js_Number
  imports Prelude
begin

text \<open>
  The arithmetic of JavaScript numbers (IEEE 754 binary64) on \<open>js_number\<close>: every operation
  is the exact one on rationals followed by \<open>js_round\<close>, which rounds to 53 significant bits
  (fewer below the normal range, multiples of $2^{-1074}$), ties to even, and overflows to
  an infinity. The sign of a zero is not kept. \<open>double_value\<close> says which rationals are
  representable.
\<close>

section \<open>Rounding\<close>

function ilog2 :: "int \<Rightarrow> nat" where
  "ilog2 n = (if n \<le> 1 then 0 else Suc (ilog2 (n div 2)))"
  by auto

termination
  by (relation "measure nat") auto

function ipow2 :: "int \<Rightarrow> int" where
  "ipow2 e =
     (if e \<le> 0 then 1
      else if even e then ipow2 (e div 2) * ipow2 (e div 2)
      else 2 * ipow2 (e - 1))"
  by auto

termination
  by (relation "measure nat") auto

declare ilog2.simps [simp del] ipow2.simps [simp del]

definition pow2 :: "int \<Rightarrow> rat" where
  "pow2 e = (if 0 \<le> e then of_int (ipow2 e) else 1 / of_int (ipow2 (- e)))"

text \<open>The exponent of the leading bit of a positive rational.\<close>

definition lead_exp :: "rat \<Rightarrow> int" where
  "lead_exp q =
     (case quotient_of q of (n, d) \<Rightarrow>
        let k = int (ilog2 n) - int (ilog2 d)
        in if q < pow2 k then k - 1 else k)"

definition half_even :: "rat \<Rightarrow> int" where
  "half_even x =
     (let n = \<lfloor>x\<rfloor>; r = x - of_int n
      in if r < 1/2 then n else if 1/2 < r then n + 1 else if even n then n else n + 1)"

definition ulp_exp :: "rat \<Rightarrow> int" where
  "ulp_exp q = max (lead_exp \<bar>q\<bar> - 52) (- 1074)"

definition round53 :: "rat \<Rightarrow> rat" where
  "round53 q = (if q = 0 then 0 else of_int (half_even (q / pow2 (ulp_exp q))) * pow2 (ulp_exp q))"

definition js_round :: "rat \<Rightarrow> js_number" where
  "js_round q =
     (if pow2 1024 - pow2 970 \<le> q then PosInf
      else if q \<le> - (pow2 1024 - pow2 970) then NegInf
      else Num (round53 q))"

section \<open>Operations\<close>

fun js_sub :: "js_number \<Rightarrow> js_number \<Rightarrow> js_number" where
  "js_sub (Num a) (Num b) = js_round (a - b)"
| "js_sub PosInf (Num b) = PosInf"
| "js_sub NegInf (Num b) = NegInf"
| "js_sub (Num a) PosInf = NegInf"
| "js_sub (Num a) NegInf = PosInf"
| "js_sub PosInf NegInf = PosInf"
| "js_sub NegInf PosInf = NegInf"
| "js_sub _ _ = NaN"

fun js_abs :: "js_number \<Rightarrow> js_number" where
  "js_abs (Num a) = Num \<bar>a\<bar>"
| "js_abs NaN = NaN"
| "js_abs _ = PosInf"

text \<open>Division by a nonzero number, the only one the sources perform.\<close>

fun js_div :: "js_number \<Rightarrow> rat \<Rightarrow> js_number" where
  "js_div (Num a) b = js_round (a / b)"
| "js_div PosInf b = (if 0 < b then PosInf else NegInf)"
| "js_div NegInf b = (if 0 < b then NegInf else PosInf)"
| "js_div NaN b = NaN"

fun js_scale :: "js_number \<Rightarrow> rat \<Rightarrow> js_number" where
  "js_scale (Num a) b = js_round (a * b)"
| "js_scale PosInf b = (if b = 0 then NaN else if 0 < b then PosInf else NegInf)"
| "js_scale NegInf b = (if b = 0 then NaN else if 0 < b then NegInf else PosInf)"
| "js_scale NaN b = NaN"

fun js_greater :: "js_number \<Rightarrow> rat \<Rightarrow> bool" where
  "js_greater (Num a) b = (b < a)"
| "js_greater PosInf b = True"
| "js_greater _ b = False"

section \<open>Rounding error\<close>

lemma ipow2_power: "ipow2 e = 2 ^ nat e"
proof (induction e rule: ipow2.induct)
  case (1 e)
  show ?case
  proof (cases "e \<le> 0")
    case False
    show ?thesis
    proof (cases "even e")
      case True
      then have "nat e = nat (e div 2) + nat (e div 2)" using False by (auto elim: evenE)
      then show ?thesis using True False 1 by (simp add: ipow2.simps [of e] power_add)
    next
      case odd: False
      have "nat e = Suc (nat (e - 1))" using False by simp
      then show ?thesis using odd False 1 by (simp add: ipow2.simps [of e])
    qed
  qed (simp add: ipow2.simps [of e])
qed

lemma pow2_eq: "pow2 e = (if 0 \<le> e then 2 ^ nat e else 1 / 2 ^ nat (- e))"
  by (simp add: pow2_def ipow2_power)

lemma pow2_pos [simp]: "0 < pow2 e"
  by (simp add: pow2_eq)

lemma pow2_nonzero [simp]: "pow2 e \<noteq> 0"
  using pow2_pos [of e] by linarith

lemma pow2_0 [simp]: "pow2 0 = 1"
  by (simp add: pow2_eq)

lemma pow2_Suc: "pow2 (e + 1) = 2 * pow2 e"
proof (cases "0 \<le> e")
  case True
  then show ?thesis by (simp add: pow2_eq nat_add_distrib)
next
  case False
  then obtain k where e: "e = - int (Suc k)" by (metis int_cases linorder_not_le of_nat_0_le_iff)
  have "nat (- e) = Suc k" "nat (- (e + 1)) = k" using e by simp_all
  then show ?thesis using e by (cases k) (simp_all add: pow2_eq)
qed

lemma pow2_add_nat: "pow2 (e + int k) = 2 ^ k * pow2 e"
proof (induction k)
  case (Suc k)
  have "pow2 (e + int (Suc k)) = pow2 ((e + int k) + 1)" by (simp add: algebra_simps)
  then show ?case using Suc by (simp add: pow2_Suc)
qed simp

lemma pow2_add: "pow2 (a + b) = pow2 a * pow2 b"
proof (cases "0 \<le> b")
  case True
  then show ?thesis using pow2_add_nat [of a "nat b"] by (simp add: pow2_eq mult.commute)
next
  case False
  then have "pow2 a = 2 ^ nat (- b) * pow2 (a + b)" using pow2_add_nat [of "a + b" "nat (- b)"] by simp
  then show ?thesis using False by (simp add: pow2_eq)
qed

lemma pow2_mono: "a \<le> b \<Longrightarrow> pow2 a \<le> pow2 b"
proof -
  assume "a \<le> b"
  then have "pow2 b = 2 ^ nat (b - a) * pow2 a" using pow2_add_nat [of a "nat (b - a)"] by simp
  moreover have "1 * pow2 a \<le> 2 ^ nat (b - a) * pow2 a" by (intro mult_right_mono) (simp_all add: order_less_imp_le)
  ultimately show ?thesis by simp
qed

lemma ilog2_bounds: "0 < n \<Longrightarrow> 2 ^ ilog2 n \<le> n \<and> n < 2 * 2 ^ ilog2 n"
proof (induction n rule: ilog2.induct)
  case (1 n)
  show ?case
  proof (cases "n \<le> 1")
    case True
    then show ?thesis using 1 by (simp add: ilog2.simps [of n])
  next
    case False
    then have "2 ^ ilog2 (n div 2) \<le> n div 2" "n div 2 < 2 * 2 ^ ilog2 (n div 2)"
      using 1 by auto
    moreover have "ilog2 n = Suc (ilog2 (n div 2))" using False by (simp add: ilog2.simps [of n])
    ultimately show ?thesis by auto
  qed
qed

lemma ilog2_bounds_rat:
  assumes "0 < n"
  shows "(2::rat) ^ ilog2 n \<le> of_int n" and "of_int n < (2::rat) * 2 ^ ilog2 n"
proof -
  have "of_int (2 ^ ilog2 n) \<le> (of_int n :: rat)" "(of_int n :: rat) < of_int (2 * 2 ^ ilog2 n)"
    using ilog2_bounds [OF assms] by (simp_all only: of_int_le_iff of_int_less_iff)
  then show "(2::rat) ^ ilog2 n \<le> of_int n" "of_int n < (2::rat) * 2 ^ ilog2 n" by simp_all
qed

lemma lead_exp_bounds:
  assumes "0 < q"
  shows "pow2 (lead_exp q) \<le> q" and "q < 2 * pow2 (lead_exp q)"
proof -
  obtain n d where nd: "quotient_of q = (n, d)" by (cases "quotient_of q")
  have d: "0 < d" using quotient_of_denom_pos [OF nd] .
  have q: "q = of_int n / of_int d" using quotient_of_div [OF nd] .
  have n: "0 < n" using assms d by (simp add: q zero_less_divide_iff)
  let ?a = "ilog2 n" and ?b = "ilog2 d"
  let ?k = "int ?a - int ?b"
  note nn = ilog2_bounds_rat [OF n] and dd = ilog2_bounds_rat [OF d]
  have k: "pow2 ?k * 2 ^ ?b = 2 ^ ?a"
    using pow2_add [of ?k "int ?b"] by (simp add: pow2_eq [of "int _"])
  have dpos: "0 < (of_int d :: rat)" using d by simp
  have up: "q < 2 * pow2 ?k"
  proof -
    have "of_int n < 2 * (pow2 ?k * 2 ^ ?b)" using nn(2) k by simp
    also have "\<dots> \<le> 2 * (pow2 ?k * of_int d)" using dd(1) by simp
    finally show ?thesis using dpos by (simp add: q divide_less_eq mult.assoc)
  qed
  have lo: "pow2 (?k - 1) \<le> q"
  proof -
    have "2 * pow2 (?k - 1) = pow2 ?k" using pow2_Suc [of "?k - 1"] by simp
    moreover have "pow2 ?k * of_int d \<le> 2 * of_int n"
    proof -
      have "pow2 ?k * of_int d \<le> pow2 ?k * (2 * 2 ^ ?b)" using dd(2) by simp
      also have "\<dots> = 2 * 2 ^ ?a" using k by simp
      also have "\<dots> \<le> 2 * of_int n" using nn(1) by simp
      finally show ?thesis .
    qed
    ultimately have "2 * (pow2 (?k - 1) * of_int d) \<le> 2 * of_int n" by (simp add: mult.assoc [symmetric])
    then have "pow2 (?k - 1) * of_int d \<le> of_int n" by simp
    then show ?thesis using dpos by (simp add: q pos_le_divide_eq)
  qed
  have half: "2 * pow2 (?k - 1) = pow2 ?k" using pow2_Suc [of "?k - 1"] by simp
  have eq: "lead_exp q = (if q < pow2 ?k then ?k - 1 else ?k)" by (simp add: lead_exp_def nd)
  show "pow2 (lead_exp q) \<le> q" using lo unfolding eq by simp
  show "q < 2 * pow2 (lead_exp q)" using up half unfolding eq by simp
qed

lemma half_even_error: "\<bar>of_int (half_even x) - x\<bar> \<le> 1/2"
proof -
  have "of_int \<lfloor>x\<rfloor> \<le> x" "x < of_int \<lfloor>x\<rfloor> + 1" by linarith+
  then show ?thesis by (simp add: half_even_def Let_def abs_le_iff split: if_split)
qed

lemma round53_error:
  assumes "pow2 (- 1022) \<le> \<bar>q\<bar>"
  shows "\<bar>round53 q - q\<bar> \<le> \<bar>q\<bar> * pow2 (- 53)"
proof -
  have q: "0 < \<bar>q\<bar>" using assms pow2_pos [of "- 1022"] by linarith
  note lead = lead_exp_bounds [OF q]
  have "- 1022 \<le> lead_exp \<bar>q\<bar>"
  proof (rule ccontr)
    assume "\<not> - 1022 \<le> lead_exp \<bar>q\<bar>"
    then have "pow2 (lead_exp \<bar>q\<bar> + 1) \<le> pow2 (- 1022)" by (intro pow2_mono) simp
    then show False using lead(2) assms by (simp add: pow2_Suc)
  qed
  then have u: "ulp_exp q = lead_exp \<bar>q\<bar> - 52" by (simp add: ulp_exp_def)
  let ?u = "pow2 (ulp_exp q)"
  have "round53 q - q = (of_int (half_even (q / ?u)) - q / ?u) * ?u"
    using q by (simp add: round53_def left_diff_distrib)
  then have "\<bar>round53 q - q\<bar> \<le> 1/2 * ?u"
    using half_even_error [of "q / ?u"] by (simp add: abs_mult mult_right_mono order_less_imp_le)
  also have "\<dots> = pow2 (lead_exp \<bar>q\<bar>) * pow2 (- 53)"
  proof -
    have "pow2 (lead_exp \<bar>q\<bar> - 52) = 2 * pow2 (lead_exp \<bar>q\<bar> - 53)"
      using pow2_Suc [of "lead_exp \<bar>q\<bar> - 53"] by simp
    moreover have "pow2 (lead_exp \<bar>q\<bar> - 53) = pow2 (lead_exp \<bar>q\<bar>) * pow2 (- 53)"
      using pow2_add [of "lead_exp \<bar>q\<bar>" "- 53"] by simp
    ultimately show ?thesis by (simp add: u)
  qed
  also have "\<dots> \<le> \<bar>q\<bar> * pow2 (- 53)" using lead(1) by (simp add: mult_right_mono order_less_imp_le)
  finally show ?thesis .
qed

lemma half_even_of_int [simp]: "half_even (of_int i) = i"
  by (simp add: half_even_def)

lemma round53_of_int:
  assumes "\<bar>i\<bar> < 2 ^ 53"
  shows "round53 (of_int i) = of_int i"
proof (cases "i = 0")
  case False
  let ?q = "of_int i :: rat"
  have "0 < \<bar>?q\<bar>" using False by simp
  note lead = lead_exp_bounds [OF this]
  have "lead_exp \<bar>?q\<bar> \<le> 52"
  proof (rule ccontr)
    assume "\<not> lead_exp \<bar>?q\<bar> \<le> 52"
    then have "pow2 53 \<le> pow2 (lead_exp \<bar>?q\<bar>)" by (intro pow2_mono) simp
    also have "\<dots> \<le> of_int \<bar>i\<bar>" using lead(1) by simp
    also have "\<dots> < 2 ^ 53" using assms by (metis of_int_less_iff of_int_numeral of_int_power)
    finally show False by (simp add: pow2_eq)
  qed
  then have "ulp_exp ?q \<le> 0" by (simp add: ulp_exp_def)
  then obtain k where k: "ulp_exp ?q = - int k" by (metis int_cases2 le_minus_iff minus_zero nat_int of_nat_0_le_iff nonpos_int_cases)
  have u: "pow2 (ulp_exp ?q) = 1 / 2 ^ k" by (simp add: k pow2_eq)
  have "?q / pow2 (ulp_exp ?q) = of_int (i * 2 ^ k)" by (simp add: u)
  then have "half_even (?q / pow2 (ulp_exp ?q)) = i * 2 ^ k" by (simp only: half_even_of_int)
  then have "round53 ?q = of_int (i * 2 ^ k) * pow2 (ulp_exp ?q)" using False by (simp add: round53_def)
  then show ?thesis by (simp add: u)
qed (simp add: round53_def)

lemma js_round_finite: "\<bar>q\<bar> < pow2 1024 - pow2 970 \<Longrightarrow> js_round q = Num (round53 q)"
  by (simp add: js_round_def abs_less_iff)

text \<open>Inside the normal range nothing overflows and the error is at most one part in $2^{53}$.\<close>

lemma js_round_normal:
  assumes "pow2 (- 1022) \<le> \<bar>q\<bar>" "\<bar>q\<bar> \<le> pow2 1023"
  shows "\<exists>r. js_round q = Num r \<and> \<bar>r - q\<bar> \<le> \<bar>q\<bar> * pow2 (- 53)"
proof -
  have "pow2 1023 < pow2 1024 - pow2 970"
  proof -
    have "pow2 1024 = 2 * pow2 1023" using pow2_Suc [of 1023] by simp
    moreover have "pow2 971 = 2 * pow2 970" using pow2_Suc [of 970] by simp
    moreover have "pow2 971 \<le> pow2 1023" by (rule pow2_mono) simp
    ultimately show ?thesis using pow2_pos [of 970] by linarith
  qed
  then have "js_round q = Num (round53 q)" using assms(2) by (intro js_round_finite) simp
  then show ?thesis using round53_error [OF assms(1)] by blast
qed

end
