(* ===== verification/Policy_Dsl.thy ===== *)
theory Policy_Dsl
  imports Json Js_Number
begin

text \<open>
  The policy rule language, \<open>src/src/policy/dsl\<close>: the parser, which collects every issue
  before it throws, and the evaluator. A field that is absent from the raw document is
  \<open>None\<close>. \<open>Date.parse\<close> accepts formats that differ between engines and is the argument
  \<open>date_parse\<close>. The text of an outcome's reason is the constructor of \<open>eval_reason\<close>
  with the values the text shows.
\<close>

section \<open>Rules\<close>

record PolicyRuleApplicability =
  ap_jurisdictions :: "string list"
  ap_product :: string
  ap_lifecycleEvents :: "string list"
  ap_effectiveFrom :: string
  ap_transitionRule :: "string option"

datatype PolicyRuleCondition =
  difference_percent (cond_left: string) (cond_right: string) (cond_greaterThan: rat)

record PolicyRuleOutcome =
  out_condition :: string
  out_route :: string

record PolicyRuleDocument =
  rule_id :: string
  rule_version :: string
  rule_applicability :: PolicyRuleApplicability
  rule_when :: PolicyRuleCondition
  rule_outcome :: PolicyRuleOutcome

type_synonym PolicyDslIssue = "string \<times> string"

section \<open>Parser\<close>

definition isRecord :: "json option \<Rightarrow> bool" where
  "isRecord v = (case v of Some (JObj ms) \<Rightarrow> True | _ \<Rightarrow> False)"

definition field :: "json option \<Rightarrow> string \<Rightarrow> json option" where
  "field v k = (case v of Some j \<Rightarrow> member_of j k | None \<Rightarrow> None)"

definition nonblank :: "json \<Rightarrow> bool" where
  "nonblank v = (case v of JStr s \<Rightarrow> trim s \<noteq> [] | _ \<Rightarrow> False)"

definition requireString :: "json option \<Rightarrow> string \<Rightarrow> PolicyDslIssue list \<Rightarrow> string option \<times> PolicyDslIssue list" where
  "requireString v path issues =
     (case v of
        Some (JStr s) \<Rightarrow>
          if trim s = [] then (None, issues @ [(path, ''must be a non-empty string'')]) else (Some s, issues)
      | _ \<Rightarrow> (None, issues @ [(path, ''must be a non-empty string'')]))"

definition string_of :: "json \<Rightarrow> string" where
  "string_of v = (case v of JStr s \<Rightarrow> s | _ \<Rightarrow> [])"

definition requireStringArray ::
  "json option \<Rightarrow> string \<Rightarrow> PolicyDslIssue list \<Rightarrow> string list option \<times> PolicyDslIssue list" where
  "requireStringArray v path issues =
     (case v of
        Some (JArr (x # xs)) \<Rightarrow>
          if list_all nonblank (x # xs) then (Some (map string_of (x # xs)), issues)
          else (None, issues @ [(path, ''every element must be a non-empty string'')])
      | _ \<Rightarrow> (None, issues @ [(path, ''must be a non-empty array of strings'')]))"

definition requireIsoDate ::
  "(string \<Rightarrow> timestamp option) \<Rightarrow> json option \<Rightarrow> string \<Rightarrow> PolicyDslIssue list
     \<Rightarrow> string option \<times> PolicyDslIssue list" where
  "requireIsoDate date_parse v path issues =
     (case v of
        Some (JStr s) \<Rightarrow>
          if date_parse s = None then (None, issues @ [(path, ''must be an ISO 8601 date-time string'')])
          else (Some s, issues)
      | _ \<Rightarrow> (None, issues @ [(path, ''must be an ISO 8601 date-time string'')]))"

definition requireFiniteNumber ::
  "json option \<Rightarrow> string \<Rightarrow> PolicyDslIssue list \<Rightarrow> rat option \<times> PolicyDslIssue list" where
  "requireFiniteNumber v path issues =
     (case v of
        Some (JNum (Num q)) \<Rightarrow> (Some q, issues)
      | _ \<Rightarrow> (None, issues @ [(path, ''must be a finite number'')]))"

definition parseApplicability ::
  "(string \<Rightarrow> timestamp option) \<Rightarrow> json option \<Rightarrow> PolicyDslIssue list
     \<Rightarrow> PolicyRuleApplicability option \<times> PolicyDslIssue list" where
  "parseApplicability date_parse raw issues =
     (if \<not> isRecord raw then (None, issues @ [(''rule.applicability'', ''must be an object'')])
      else
        (let (jurisdictions, i1) =
               requireStringArray (field raw ''jurisdictions'') ''rule.applicability.jurisdictions'' issues;
             (product, i2) = requireString (field raw ''product'') ''rule.applicability.product'' i1;
             (lifecycleEvents, i3) =
               requireStringArray (field raw ''lifecycle_events'') ''rule.applicability.lifecycle_events'' i2;
             (effectiveFrom, i4) =
               requireIsoDate date_parse (field raw ''effective_from'') ''rule.applicability.effective_from'' i3;
             (transitionRule, i5) =
               (if field raw ''transition_rule'' = None then (None, i4)
                else requireString (field raw ''transition_rule'') ''rule.applicability.transition_rule'' i4)
         in case (jurisdictions, product, lifecycleEvents, effectiveFrom) of
              (Some js, Some p, Some ls, Some e) \<Rightarrow>
                if p = [] \<or> e = [] then (None, i5)
                else (Some \<lparr>ap_jurisdictions = js, ap_product = p, ap_lifecycleEvents = ls,
                            ap_effectiveFrom = e, ap_transitionRule = transitionRule\<rparr>, i5)
            | _ \<Rightarrow> (None, i5)))"

definition parseWhen ::
  "json option \<Rightarrow> PolicyDslIssue list \<Rightarrow> PolicyRuleCondition option \<times> PolicyDslIssue list" where
  "parseWhen raw issues =
     (case raw of
        Some (JObj ms) \<Rightarrow>
          (if length ms \<noteq> 1
           then (None, issues @ [(''rule.when'', ''must have exactly one condition operator key'')])
           else if fst (hd ms) \<noteq> ''difference_percent''
           then (None, issues @ [(''rule.when'', ''unrecognized condition operator '' @ fst (hd ms))])
           else
             (let body = Some (snd (hd ms))
              in if \<not> isRecord body
                 then (None, issues @ [(''rule.when.difference_percent'', ''must be an object'')])
                 else
                   (let (l, i1) = requireString (field body ''left'') ''rule.when.difference_percent.left'' issues;
                        (r, i2) = requireString (field body ''right'') ''rule.when.difference_percent.right'' i1;
                        (g, i3) = requireFiniteNumber (field body ''greater_than'')
                                    ''rule.when.difference_percent.greater_than'' i2
                    in case (l, r, g) of
                         (Some l', Some r', Some g') \<Rightarrow>
                           if l' = [] \<or> r' = [] then (None, i3) else (Some (difference_percent l' r' g'), i3)
                       | _ \<Rightarrow> (None, i3))))
      | _ \<Rightarrow> (None, issues @ [(''rule.when'', ''must be an object'')]))"

definition parseOutcome ::
  "json option \<Rightarrow> PolicyDslIssue list \<Rightarrow> PolicyRuleOutcome option \<times> PolicyDslIssue list" where
  "parseOutcome raw issues =
     (if \<not> isRecord raw then (None, issues @ [(''rule.outcome'', ''must be an object'')])
      else
        (let (c, i1) = requireString (field raw ''condition'') ''rule.outcome.condition'' issues;
             (r, i2) = requireString (field raw ''route'') ''rule.outcome.route'' i1
         in case (c, r) of
              (Some c', Some r') \<Rightarrow>
                if c' = [] \<or> r' = [] then (None, i2) else (Some \<lparr>out_condition = c', out_route = r'\<rparr>, i2)
            | _ \<Rightarrow> (None, i2)))"

text \<open>\<open>SEMVER\_PATTERN\<close>: three nonempty runs of digits between dots.\<close>

definition semver :: "string \<Rightarrow> bool" where
  "semver s \<longleftrightarrow> length (split_on (CHR ''.'') s) = 3
     \<and> list_all (\<lambda>p. p \<noteq> [] \<and> list_all digit p) (split_on (CHR ''.'') s)"

definition parseVersion :: "json option \<Rightarrow> PolicyDslIssue list \<Rightarrow> string option \<times> PolicyDslIssue list" where
  "parseVersion v issues =
     (case v of
        Some (JStr s) \<Rightarrow>
          if semver s then (Some s, issues)
          else (None, issues @ [(''rule.version'', ''must be a semver string'')])
      | _ \<Rightarrow> (None, issues @ [(''rule.version'', ''must be a semver string'')]))"

definition parsePolicyRule ::
  "(string \<Rightarrow> timestamp option) \<Rightarrow> json \<Rightarrow> PolicyDslIssue list + PolicyRuleDocument" where
  "parsePolicyRule date_parse raw =
     (if \<not> isRecord (Some raw) \<or> \<not> isRecord (field (Some raw) ''rule'')
      then Inl [(''rule'', ''must be an object with a rule key'')]
      else
        (let ruleRaw = field (Some raw) ''rule'';
             (rid, i1) = requireString (field ruleRaw ''id'') ''rule.id'' [];
             (ver, i2) = parseVersion (field ruleRaw ''version'') i1;
             (app, i3) = parseApplicability date_parse (field ruleRaw ''applicability'') i2;
             (whn, i4) = parseWhen (field ruleRaw ''when'') i3;
             (outc, i5) = parseOutcome (field ruleRaw ''outcome'') i4
         in case (rid, ver, app, whn, outc) of
              (Some r, Some v, Some a, Some w, Some out) \<Rightarrow>
                if r = [] \<or> v = [] then Inl i5
                else Inr \<lparr>rule_id = r, rule_version = v, rule_applicability = a, rule_when = w,
                          rule_outcome = out\<rparr>
            | _ \<Rightarrow> Inl i5))"

section \<open>Evaluator\<close>

text \<open>
  What plain member access finds: besides the own members of an object, an array has its
  elements, its length and, under the name \<open>\_\_proto\_\_\<close>, the prototype object of all
  arrays, itself an array of length 0. Every other inherited member is a function or null,
  from which no further access finds a number.
\<close>

datatype fact_value = Own json | Array_prototype

definition array_index :: "string \<Rightarrow> nat option" where
  "array_index s =
     (if s \<noteq> [] \<and> list_all digit s \<and> (length s = 1 \<or> hd s \<noteq> CHR ''0'')
      then Some (foldl (\<lambda>n c. 10 * n + (of_char c - 48)) 0 s) else None)"

fun access :: "fact_value \<Rightarrow> string \<Rightarrow> fact_value option" where
  "access (Own (JObj ms)) seg = map_option Own (map_of ms seg)"
| "access (Own (JArr vs)) seg =
     (if seg = ''length'' then Some (Own (JNum (js_int (int (length vs)))))
      else if seg = ''__proto__'' then Some Array_prototype
      else case array_index seg of
             None \<Rightarrow> None
           | Some i \<Rightarrow> if i < length vs then Some (Own (vs ! i)) else None)"
| "access Array_prototype seg = (if seg = ''length'' then Some (Own (JNum (Num 0))) else None)"
| "access _ seg = None"

fun navigate :: "fact_value \<Rightarrow> string list \<Rightarrow> fact_value option" where
  "navigate v [] = Some v"
| "navigate v (seg # segs) = (case access v seg of None \<Rightarrow> None | Some w \<Rightarrow> navigate w segs)"

definition resolveFactPath :: "json \<Rightarrow> string \<Rightarrow> rat option" where
  "resolveFactPath ctx path =
     (case navigate (Own ctx) (split_on (CHR ''.'') path) of
        Some (Own (JNum (Num q))) \<Rightarrow> Some q
      | _ \<Rightarrow> None)"

datatype eval_reason =
    MissingFact string string
  | ZeroLeft string
  | Compared rat rat js_number rat

definition percent_difference :: "rat \<Rightarrow> rat \<Rightarrow> js_number" where
  "percent_difference l r = js_scale (js_div (js_abs (js_sub (Num r) (Num l))) \<bar>l\<bar>) 100"

definition evaluateCondition :: "PolicyRuleCondition \<Rightarrow> json \<Rightarrow> bool \<times> eval_reason" where
  "evaluateCondition c ctx =
     (case (resolveFactPath ctx (cond_left c), resolveFactPath ctx (cond_right c)) of
        (Some l, Some r) \<Rightarrow>
          if l = 0 then (False, ZeroLeft (cond_left c))
          else (js_greater (percent_difference l r) (cond_greaterThan c),
                Compared l r (percent_difference l r) (cond_greaterThan c))
      | _ \<Rightarrow> (False, MissingFact (cond_left c) (cond_right c)))"

record PolicyRuleEvaluation =
  eva_matched :: bool
  eva_condition :: "string option"
  eva_route :: "string option"
  eva_reason :: eval_reason

definition evaluatePolicyRule :: "PolicyRuleDocument \<Rightarrow> json \<Rightarrow> PolicyRuleEvaluation" where
  "evaluatePolicyRule rule ctx =
     (case evaluateCondition (rule_when rule) ctx of
        (matched, reason) \<Rightarrow>
          if matched
          then \<lparr>eva_matched = True, eva_condition = Some (out_condition (rule_outcome rule)),
                eva_route = Some (out_route (rule_outcome rule)), eva_reason = reason\<rparr>
          else \<lparr>eva_matched = False, eva_condition = None, eva_route = None, eva_reason = reason\<rparr>)"

end
