(* ===== verification/Policy_Rule_Properties.thy ===== *)
theory Policy_Rule_Properties
  imports Policy_Dsl
begin

text \<open>
  Properties of the rule language: which documents the parser accepts and what it reports
  of the others, and how far the evaluator's floating-point percentage is from the exact one.
\<close>

section \<open>Well-formed fields\<close>

definition string_field :: "json option \<Rightarrow> string \<Rightarrow> bool" where
  "string_field v s \<longleftrightarrow> v = Some (JStr s) \<and> trim s \<noteq> []"

definition strings_field :: "json option \<Rightarrow> string list \<Rightarrow> bool" where
  "strings_field v ss \<longleftrightarrow> v = Some (JArr (map JStr ss)) \<and> ss \<noteq> [] \<and> (\<forall>s \<in> set ss. trim s \<noteq> [])"

definition date_field :: "(string \<Rightarrow> timestamp option) \<Rightarrow> json option \<Rightarrow> string \<Rightarrow> bool" where
  "date_field date_parse v s \<longleftrightarrow> v = Some (JStr s) \<and> date_parse s \<noteq> None"

text \<open>The value a document describes, field by field, without any order of checks.\<close>

definition applicability_shape ::
  "(string \<Rightarrow> timestamp option) \<Rightarrow> json option \<Rightarrow> PolicyRuleApplicability \<Rightarrow> bool" where
  "applicability_shape dp v a \<longleftrightarrow>
     isRecord v
     \<and> strings_field (field v ''jurisdictions'') (ap_jurisdictions a)
     \<and> string_field (field v ''product'') (ap_product a)
     \<and> strings_field (field v ''lifecycle_events'') (ap_lifecycleEvents a)
     \<and> date_field dp (field v ''effective_from'') (ap_effectiveFrom a)
     \<and> (case ap_transitionRule a of
          None \<Rightarrow> field v ''transition_rule'' = None
        | Some t \<Rightarrow> string_field (field v ''transition_rule'') t)"

definition when_shape :: "json option \<Rightarrow> PolicyRuleCondition \<Rightarrow> bool" where
  "when_shape v c \<longleftrightarrow>
     (\<exists>body. v = Some (JObj [(''difference_percent'', body)]) \<and> isRecord (Some body)
        \<and> string_field (member_of body ''left'') (cond_left c)
        \<and> string_field (member_of body ''right'') (cond_right c)
        \<and> member_of body ''greater_than'' = Some (JNum (Num (cond_greaterThan c))))"

definition outcome_shape :: "json option \<Rightarrow> PolicyRuleOutcome \<Rightarrow> bool" where
  "outcome_shape v out \<longleftrightarrow>
     isRecord v \<and> string_field (field v ''condition'') (out_condition out)
     \<and> string_field (field v ''route'') (out_route out)"

definition rule_shape :: "(string \<Rightarrow> timestamp option) \<Rightarrow> json \<Rightarrow> PolicyRuleDocument \<Rightarrow> bool" where
  "rule_shape dp raw doc \<longleftrightarrow>
     (let r = member_of raw ''rule'' in
      isRecord r
      \<and> string_field (field r ''id'') (rule_id doc)
      \<and> field r ''version'' = Some (JStr (rule_version doc)) \<and> semver (rule_version doc)
      \<and> applicability_shape dp (field r ''applicability'') (rule_applicability doc)
      \<and> when_shape (field r ''when'') (rule_when doc)
      \<and> outcome_shape (field r ''outcome'') (rule_outcome doc))"

section \<open>What each step of the parser does\<close>

lemma trim_Nil [simp]: "trim [] = []"
  by (simp add: trim_def)

lemma requireString_iff:
  "fst (requireString v p i) = Some s \<longleftrightarrow> string_field v s"
  "fst (requireString v p i) = None \<longleftrightarrow> (\<forall>s. \<not> string_field v s)"
  "snd (requireString v p i) = i @ (if fst (requireString v p i) = None then [(p, ''must be a non-empty string'')] else [])"
  by (auto simp: requireString_def string_field_def split: option.splits json.splits)

lemma requireStringArray_iff:
  "fst (requireStringArray v p i) = Some ss \<longleftrightarrow> strings_field v ss"
  "fst (requireStringArray v p i) = None \<longleftrightarrow> (\<forall>ss. \<not> strings_field v ss)"
  "fst (requireStringArray v p i) = None \<Longrightarrow> \<exists>m. snd (requireStringArray v p i) = i @ [(p, m)]"
  "fst (requireStringArray v p i) \<noteq> None \<Longrightarrow> snd (requireStringArray v p i) = i"
proof -
  have blank: "list_all nonblank vs \<longleftrightarrow>
      vs = map JStr (map string_of vs) \<and> (\<forall>s \<in> set (map string_of vs). trim s \<noteq> [])" for vs
  proof (induction vs)
    case (Cons v vs)
    then show ?case by (cases v) (auto simp: nonblank_def string_of_def)
  qed simp
  have strs: "map string_of (map JStr ss) = ss" for ss by (induction ss) (auto simp: string_of_def)
  have some: "fst (requireStringArray v p i) = Some ss \<longleftrightarrow> strings_field v ss" for ss
  proof
    assume "fst (requireStringArray v p i) = Some ss"
    then obtain x xs where "v = Some (JArr (x # xs))" "list_all nonblank (x # xs)" "ss = map string_of (x # xs)"
      by (auto simp: requireStringArray_def split: option.splits json.splits list.splits if_splits)
    then show "strings_field v ss" using blank [of "x # xs"] unfolding strings_field_def by auto
  next
    assume sf: "strings_field v ss"
    then obtain x xs where ss: "ss = x # xs" by (cases ss) (auto simp: strings_field_def)
    have "list_all nonblank (map JStr ss)" using sf by (auto simp: strings_field_def nonblank_def list_all_iff)
    then show "fst (requireStringArray v p i) = Some ss"
      using sf strs [of ss] by (simp add: requireStringArray_def strings_field_def ss)
  qed
  then show "fst (requireStringArray v p i) = Some ss \<longleftrightarrow> strings_field v ss"
    and "fst (requireStringArray v p i) = None \<longleftrightarrow> (\<forall>ss. \<not> strings_field v ss)"
    by (auto simp flip: some)
  show "fst (requireStringArray v p i) = None \<Longrightarrow> \<exists>m. snd (requireStringArray v p i) = i @ [(p, m)]"
    "fst (requireStringArray v p i) \<noteq> None \<Longrightarrow> snd (requireStringArray v p i) = i"
    by (auto simp: requireStringArray_def split: option.splits json.splits list.splits if_splits)
qed

lemma requireIsoDate_iff:
  "fst (requireIsoDate dp v p i) = Some s \<longleftrightarrow> date_field dp v s"
  "fst (requireIsoDate dp v p i) = None \<longleftrightarrow> (\<forall>s. \<not> date_field dp v s)"
  "snd (requireIsoDate dp v p i) = i @ (if fst (requireIsoDate dp v p i) = None
     then [(p, ''must be an ISO 8601 date-time string'')] else [])"
  by (auto simp: requireIsoDate_def date_field_def split: option.splits json.splits)

lemma requireFiniteNumber_iff:
  "fst (requireFiniteNumber v p i) = Some q \<longleftrightarrow> v = Some (JNum (Num q))"
  "fst (requireFiniteNumber v p i) = None \<longleftrightarrow> (\<forall>q. v \<noteq> Some (JNum (Num q)))"
  "snd (requireFiniteNumber v p i) = i @ (if fst (requireFiniteNumber v p i) = None
     then [(p, ''must be a finite number'')] else [])"
  by (auto simp: requireFiniteNumber_def split: option.splits json.splits js_number.splits)

lemma parseVersion_Some: "fst (parseVersion v i) = Some s \<longleftrightarrow> v = Some (JStr s) \<and> semver s"
  by (auto simp: parseVersion_def split: option.splits json.splits)

lemmas require_iff = parseVersion_Some requireString_iff requireStringArray_iff requireIsoDate_iff requireFiniteNumber_iff

text \<open>A parser step extends the issues; it yields nothing exactly when it reports something.\<close>

lemma string_field_unique: "string_field v s \<Longrightarrow> string_field v t \<Longrightarrow> s = t"
  by (simp add: string_field_def)

text \<open>
  What the parser takes for a value's applicability: a \<open>transition\_rule\<close> that is there but is
  not a nonempty string passes for an absent one.
\<close>

definition applicability_taken ::
  "(string \<Rightarrow> timestamp option) \<Rightarrow> json option \<Rightarrow> PolicyRuleApplicability \<Rightarrow> bool" where
  "applicability_taken dp v a \<longleftrightarrow>
     isRecord v
     \<and> strings_field (field v ''jurisdictions'') (ap_jurisdictions a)
     \<and> string_field (field v ''product'') (ap_product a)
     \<and> strings_field (field v ''lifecycle_events'') (ap_lifecycleEvents a)
     \<and> date_field dp (field v ''effective_from'') (ap_effectiveFrom a)
     \<and> (\<forall>t. ap_transitionRule a = Some t \<longleftrightarrow> string_field (field v ''transition_rule'') t)"

lemma parseApplicability_Some:
  assumes dp: "dp [] = None"
  shows "fst (parseApplicability dp v i) = Some a \<longleftrightarrow> applicability_taken dp v a"
proof (cases "isRecord v")
  case True
  let ?j = "requireStringArray (field v ''jurisdictions'') ''rule.applicability.jurisdictions'' i"
  let ?p = "requireString (field v ''product'') ''rule.applicability.product'' (snd ?j)"
  let ?l = "requireStringArray (field v ''lifecycle_events'') ''rule.applicability.lifecycle_events'' (snd ?p)"
  let ?e = "requireIsoDate dp (field v ''effective_from'') ''rule.applicability.effective_from'' (snd ?l)"
  let ?t = "if field v ''transition_rule'' = None then (None, snd ?e)
      else requireString (field v ''transition_rule'') ''rule.applicability.transition_rule'' (snd ?e)"
  have t: "fst ?t = Some s \<longleftrightarrow> string_field (field v ''transition_rule'') s" for s
    by (auto simp: require_iff) (auto simp: string_field_def)
  have eq: "fst (parseApplicability dp v i) =
      (case (fst ?j, fst ?p, fst ?l, fst ?e) of
         (Some js, Some p, Some ls, Some e) \<Rightarrow>
           if p = [] \<or> e = [] then None
           else Some \<lparr>ap_jurisdictions = js, ap_product = p, ap_lifecycleEvents = ls,
                       ap_effectiveFrom = e, ap_transitionRule = fst ?t\<rparr>
       | _ \<Rightarrow> None)"
    using True by (simp add: parseApplicability_def Let_def case_prod_beta split: option.splits)
  have ne: "fst ?p = Some p \<Longrightarrow> p \<noteq> []" "fst ?e = Some e \<Longrightarrow> e \<noteq> []" for p e
    using dp by (auto simp: require_iff string_field_def date_field_def)
  show ?thesis
  proof
    assume "fst (parseApplicability dp v i) = Some a"
    then show "applicability_taken dp v a"
      using True t unfolding eq
      by (auto simp: applicability_taken_def require_iff split: option.splits if_splits simp del: split_paired_All)
  next
    assume sh: "applicability_taken dp v a"
    then have f: "fst ?j = Some (ap_jurisdictions a)" "fst ?p = Some (ap_product a)"
        "fst ?l = Some (ap_lifecycleEvents a)" "fst ?e = Some (ap_effectiveFrom a)"
      unfolding applicability_taken_def by (simp_all add: require_iff)
    have "fst ?t = ap_transitionRule a"
      using sh t unfolding applicability_taken_def by (metis not_None_eq)
    with f ne show "fst (parseApplicability dp v i) = Some a" unfolding eq by simp
  qed
qed (auto simp: parseApplicability_def applicability_taken_def)

lemma parseWhen_Some: "fst (parseWhen v i) = Some c \<longleftrightarrow> when_shape v c"
proof (cases "\<exists>body. v = Some (JObj [(''difference_percent'', body)]) \<and> isRecord (Some body)")
  case True
  then obtain body where v: "v = Some (JObj [(''difference_percent'', body)])" "isRecord (Some body)" by blast
  let ?l = "requireString (member_of body ''left'') ''rule.when.difference_percent.left'' i"
  let ?r = "requireString (member_of body ''right'') ''rule.when.difference_percent.right'' (snd ?l)"
  let ?g = "requireFiniteNumber (member_of body ''greater_than'') ''rule.when.difference_percent.greater_than'' (snd ?r)"
  have eq: "fst (parseWhen v i) =
      (case (fst ?l, fst ?r, fst ?g) of
         (Some l', Some r', Some g') \<Rightarrow> if l' = [] \<or> r' = [] then None else Some (difference_percent l' r' g')
       | _ \<Rightarrow> None)"
    using v by (simp add: parseWhen_def Let_def case_prod_beta field_def split: option.splits)
  have ne: "fst ?l = Some p \<Longrightarrow> p \<noteq> []" "fst ?r = Some p \<Longrightarrow> p \<noteq> []" for p
    by (auto simp: require_iff string_field_def)
  show ?thesis
  proof
    assume "fst (parseWhen v i) = Some c"
    then show "when_shape v c"
      using v unfolding eq by (auto simp: when_shape_def require_iff split: option.splits if_splits)
  next
    assume "when_shape v c"
    then have f: "fst ?l = Some (cond_left c)" "fst ?r = Some (cond_right c)" "fst ?g = Some (cond_greaterThan c)"
      using v(1) unfolding when_shape_def by (auto simp: require_iff)
    then show "fst (parseWhen v i) = Some c" using ne unfolding eq by simp
  qed
next
  case False
  then have "fst (parseWhen v i) = None"
    by (auto simp: parseWhen_def Let_def length_Suc_conv split: option.splits json.splits)
  then show ?thesis using False by (auto simp: when_shape_def)
qed

lemma parseOutcome_Some: "fst (parseOutcome v i) = Some out \<longleftrightarrow> outcome_shape v out"
proof (cases "isRecord v")
  case True
  let ?c = "requireString (field v ''condition'') ''rule.outcome.condition'' i"
  let ?r = "requireString (field v ''route'') ''rule.outcome.route'' (snd ?c)"
  have eq: "fst (parseOutcome v i) =
      (case (fst ?c, fst ?r) of
         (Some c', Some r') \<Rightarrow> if c' = [] \<or> r' = [] then None else Some \<lparr>out_condition = c', out_route = r'\<rparr>
       | _ \<Rightarrow> None)"
    using True by (simp add: parseOutcome_def Let_def case_prod_beta split: option.splits)
  have ne: "fst ?c = Some p \<Longrightarrow> p \<noteq> []" "fst ?r = Some p \<Longrightarrow> p \<noteq> []" for p
    by (auto simp: require_iff string_field_def)
  show ?thesis
  proof
    assume "fst (parseOutcome v i) = Some out"
    then show "outcome_shape v out"
      using True unfolding eq by (auto simp: outcome_shape_def require_iff split: option.splits if_splits)
  next
    assume "outcome_shape v out"
    then have "fst ?c = Some (out_condition out)" "fst ?r = Some (out_route out)"
      unfolding outcome_shape_def by (simp_all add: require_iff)
    then show "fst (parseOutcome v i) = Some out" using ne unfolding eq by simp
  qed
qed (auto simp: parseOutcome_def outcome_shape_def)

section \<open>What the parser reports\<close>

definition flaw :: "bool \<Rightarrow> string \<Rightarrow> string list" where
  "flaw ok path = (if ok then [] else [path])"

definition applicability_defects :: "(string \<Rightarrow> timestamp option) \<Rightarrow> json option \<Rightarrow> string list" where
  "applicability_defects dp v =
     (if \<not> isRecord v then [''rule.applicability'']
      else flaw (\<exists>ss. strings_field (field v ''jurisdictions'') ss) ''rule.applicability.jurisdictions''
        @ flaw (\<exists>s. string_field (field v ''product'') s) ''rule.applicability.product''
        @ flaw (\<exists>ss. strings_field (field v ''lifecycle_events'') ss) ''rule.applicability.lifecycle_events''
        @ flaw (\<exists>s. date_field dp (field v ''effective_from'') s) ''rule.applicability.effective_from''
        @ flaw (field v ''transition_rule'' = None \<or> (\<exists>s. string_field (field v ''transition_rule'') s))
            ''rule.applicability.transition_rule'')"

definition when_defects :: "json option \<Rightarrow> string list" where
  "when_defects v =
     (if \<exists>body. v = Some (JObj [(''difference_percent'', body)])
      then let body = snd (hd (case v of Some (JObj ms) \<Rightarrow> ms)) in
        if \<not> isRecord (Some body) then [''rule.when.difference_percent'']
        else flaw (\<exists>s. string_field (member_of body ''left'') s) ''rule.when.difference_percent.left''
          @ flaw (\<exists>s. string_field (member_of body ''right'') s) ''rule.when.difference_percent.right''
          @ flaw (\<exists>q. member_of body ''greater_than'' = Some (JNum (Num q)))
              ''rule.when.difference_percent.greater_than''
      else [''rule.when''])"

definition outcome_defects :: "json option \<Rightarrow> string list" where
  "outcome_defects v =
     (if \<not> isRecord v then [''rule.outcome'']
      else flaw (\<exists>s. string_field (field v ''condition'') s) ''rule.outcome.condition''
        @ flaw (\<exists>s. string_field (field v ''route'') s) ''rule.outcome.route'')"

text \<open>The paths of a document at which something is wrong, in document order.\<close>

definition defects :: "(string \<Rightarrow> timestamp option) \<Rightarrow> json \<Rightarrow> string list" where
  "defects dp raw =
     (let r = member_of raw ''rule'' in
      if \<not> isRecord r then [''rule'']
      else flaw (\<exists>s. string_field (field r ''id'') s) ''rule.id''
        @ flaw (\<exists>s. field r ''version'' = Some (JStr s) \<and> semver s) ''rule.version''
        @ applicability_defects dp (field r ''applicability'')
        @ when_defects (field r ''when'')
        @ outcome_defects (field r ''outcome''))"

lemma paths_require:
  "map fst (snd (requireString v p i)) = map fst i @ flaw (\<exists>s. string_field v s) p"
  "map fst (snd (requireStringArray v p i)) = map fst i @ flaw (\<exists>ss. strings_field v ss) p"
  "map fst (snd (requireIsoDate dp v p i)) = map fst i @ flaw (\<exists>s. date_field dp v s) p"
  "map fst (snd (requireFiniteNumber v p i)) = map fst i @ flaw (\<exists>q. v = Some (JNum (Num q))) p"
  "map fst (snd (parseVersion v i)) = map fst i @ flaw (\<exists>s. v = Some (JStr s) \<and> semver s) ''rule.version''"
proof -
  show "map fst (snd (requireStringArray v p i)) = map fst i @ flaw (\<exists>ss. strings_field v ss) p"
    using requireStringArray_iff(2-4) [of v p i]
    by (cases "fst (requireStringArray v p i) = None") (auto simp: flaw_def)
qed (auto simp: require_iff flaw_def parseVersion_def split: option.splits json.splits)

lemma paths_applicability:
  "map fst (snd (parseApplicability dp v i)) = map fst i @ applicability_defects dp v"
proof (cases "isRecord v")
  case True
  let ?j = "requireStringArray (field v ''jurisdictions'') ''rule.applicability.jurisdictions'' i"
  let ?p = "requireString (field v ''product'') ''rule.applicability.product'' (snd ?j)"
  let ?l = "requireStringArray (field v ''lifecycle_events'') ''rule.applicability.lifecycle_events'' (snd ?p)"
  let ?e = "requireIsoDate dp (field v ''effective_from'') ''rule.applicability.effective_from'' (snd ?l)"
  let ?t = "if field v ''transition_rule'' = None then (None, snd ?e)
      else requireString (field v ''transition_rule'') ''rule.applicability.transition_rule'' (snd ?e)"
  have "snd (parseApplicability dp v i) = snd ?t"
    using True by (simp add: parseApplicability_def Let_def case_prod_beta split: option.splits)
  moreover have "map fst (snd ?t) = map fst (snd ?e) @ flaw (field v ''transition_rule'' = None
      \<or> (\<exists>s. string_field (field v ''transition_rule'') s)) ''rule.applicability.transition_rule''"
    by (cases "\<exists>s. string_field (field v ''transition_rule'') s") (auto simp: paths_require flaw_def)
  ultimately show ?thesis using True by (simp add: applicability_defects_def paths_require)
qed (simp add: parseApplicability_def applicability_defects_def)

lemma paths_when: "map fst (snd (parseWhen v i)) = map fst i @ when_defects v"
proof (cases "\<exists>body. v = Some (JObj [(''difference_percent'', body)])")
  case True
  then show ?thesis
    by (auto simp: parseWhen_def when_defects_def Let_def case_prod_beta paths_require field_def split: option.splits)
next
  case False
  then show ?thesis
    by (auto simp: parseWhen_def when_defects_def Let_def length_Suc_conv split: option.splits json.splits)
qed

lemma paths_outcome: "map fst (snd (parseOutcome v i)) = map fst i @ outcome_defects v"
  by (auto simp: parseOutcome_def outcome_defects_def Let_def case_prod_beta paths_require split: option.splits)

definition transition_path :: string where
  "transition_path = ''rule.applicability.transition_rule''"

lemma no_applicability_defect:
  assumes "dp [] = None" "set (applicability_defects dp v) \<subseteq> {transition_path}"
  shows "\<exists>a. fst (parseApplicability dp v i) = Some a"
proof -
  have v: "isRecord v" using assms(2) by (auto simp: applicability_defects_def transition_path_def split: if_splits)
  with assms(2) obtain js p ls e where "strings_field (field v ''jurisdictions'') js"
      "string_field (field v ''product'') p" "strings_field (field v ''lifecycle_events'') ls"
      "date_field dp (field v ''effective_from'') e"
    by (auto simp: applicability_defects_def flaw_def transition_path_def split: if_splits)
  moreover have "\<exists>x. \<forall>t. x = Some t \<longleftrightarrow> string_field (field v ''transition_rule'') t"
    using string_field_unique by (cases "\<exists>t. string_field (field v ''transition_rule'') t") blast+
  then obtain x where "\<forall>t. x = Some t \<longleftrightarrow> string_field (field v ''transition_rule'') t" ..
  ultimately have "applicability_taken dp v \<lparr>ap_jurisdictions = js, ap_product = p, ap_lifecycleEvents = ls,
      ap_effectiveFrom = e, ap_transitionRule = x\<rparr>"
    using v by (simp add: applicability_taken_def)
  then show ?thesis using parseApplicability_Some [of dp, OF assms(1)] by blast
qed

lemma no_when_defect:
  assumes "when_defects v = []"
  shows "\<exists>c. fst (parseWhen v i) = Some c"
proof -
  from assms obtain body l r g where "v = Some (JObj [(''difference_percent'', body)])" "isRecord (Some body)"
      "string_field (member_of body ''left'') l" "string_field (member_of body ''right'') r"
      "member_of body ''greater_than'' = Some (JNum (Num g))"
    by (auto simp: when_defects_def flaw_def Let_def split: if_splits)
  then have "when_shape v (difference_percent l r g)" by (simp add: when_shape_def)
  then show ?thesis using parseWhen_Some by blast
qed

lemma no_outcome_defect:
  assumes "outcome_defects v = []"
  shows "\<exists>out. fst (parseOutcome v i) = Some out"
proof -
  from assms obtain c r where "isRecord v" "string_field (field v ''condition'') c" "string_field (field v ''route'') r"
    by (auto simp: outcome_defects_def flaw_def split: if_splits)
  then have "outcome_shape v \<lparr>out_condition = c, out_route = r\<rparr>" by (simp add: outcome_shape_def)
  then show ?thesis using parseOutcome_Some by blast
qed

lemma other_paths:
  "set (when_defects v) \<noteq> {transition_path}" "set (outcome_defects v) \<noteq> {transition_path}"
  "transition_path \<notin> set (when_defects v)" "transition_path \<notin> set (outcome_defects v)"
proof -
  show *: "transition_path \<notin> set (when_defects v)" "transition_path \<notin> set (outcome_defects v)"
    by (auto simp: when_defects_def outcome_defects_def flaw_def transition_path_def Let_def split: if_splits)
  show "set (when_defects v) \<noteq> {transition_path}" "set (outcome_defects v) \<noteq> {transition_path}" using * by auto
qed

lemma defects_subset:
  assumes "set (defects dp raw) \<subseteq> {transition_path}"
  shows "isRecord (member_of raw ''rule'')"
    "\<exists>s. string_field (field (member_of raw ''rule'') ''id'') s"
    "\<exists>s. field (member_of raw ''rule'') ''version'' = Some (JStr s) \<and> semver s"
    "set (applicability_defects dp (field (member_of raw ''rule'') ''applicability'')) \<subseteq> {transition_path}"
    "when_defects (field (member_of raw ''rule'') ''when'') = []"
    "outcome_defects (field (member_of raw ''rule'') ''outcome'') = []"
proof -
  let ?r = "member_of raw ''rule''"
  show r: "isRecord ?r" using assms by (auto simp: defects_def transition_path_def Let_def split: if_splits)
  note d = assms [unfolded defects_def Let_def, simplified r]
  show "\<exists>s. string_field (field ?r ''id'') s" "\<exists>s. field ?r ''version'' = Some (JStr s) \<and> semver s"
    using d by (auto simp: flaw_def transition_path_def split: if_splits)
  show "set (applicability_defects dp (field ?r ''applicability'')) \<subseteq> {transition_path}" using d by auto
  have "set (when_defects (field ?r ''when'')) \<subseteq> {transition_path}" "set (outcome_defects (field ?r ''outcome'')) \<subseteq> {transition_path}"
    using d by auto
  then show "when_defects (field ?r ''when'') = []" "outcome_defects (field ?r ''outcome'') = []"
    using other_paths(1,2) subset_singletonD set_empty by metis+
qed

definition rule_taken :: "(string \<Rightarrow> timestamp option) \<Rightarrow> json \<Rightarrow> PolicyRuleDocument \<Rightarrow> bool" where
  "rule_taken dp raw doc \<longleftrightarrow>
     (let r = member_of raw ''rule'' in
      isRecord r
      \<and> string_field (field r ''id'') (rule_id doc)
      \<and> field r ''version'' = Some (JStr (rule_version doc)) \<and> semver (rule_version doc)
      \<and> applicability_taken dp (field r ''applicability'') (rule_applicability doc)
      \<and> when_shape (field r ''when'') (rule_when doc)
      \<and> outcome_shape (field r ''outcome'') (rule_outcome doc))"

lemma part_defects:
  "applicability_taken dp v a \<Longrightarrow> set (applicability_defects dp v) \<subseteq> {transition_path}"
  "when_shape v c \<Longrightarrow> when_defects v = []" "outcome_shape v out \<Longrightarrow> outcome_defects v = []"
  by (auto simp: applicability_taken_def when_shape_def outcome_shape_def applicability_defects_def when_defects_def
      outcome_defects_def flaw_def transition_path_def)

lemma taken_defects:
  assumes "rule_taken dp raw doc"
  shows "set (defects dp raw) \<subseteq> {transition_path}"
proof -
  let ?r = "member_of raw ''rule''"
  note r = assms [unfolded rule_taken_def Let_def]
  have parts: "set (applicability_defects dp (field ?r ''applicability'')) \<subseteq> {transition_path}"
    "when_defects (field ?r ''when'') = []" "outcome_defects (field ?r ''outcome'') = []"
    using r part_defects by blast+
  have "defects dp raw = applicability_defects dp (field ?r ''applicability'')"
    using r unfolding defects_def Let_def parts(2,3) by (auto simp: flaw_def)
  then show ?thesis using parts(1) by (simp only:)
qed

text \<open>The two readings differ in the \<open>transition\_rule\<close> only.\<close>

definition transition_ok :: "json \<Rightarrow> bool" where
  "transition_ok raw \<longleftrightarrow>
     (let v = field (field (member_of raw ''rule'') ''applicability'') ''transition_rule''
      in v = None \<or> (\<exists>s. string_field v s))"

lemma shape_iff_taken: "rule_shape dp raw doc \<longleftrightarrow> rule_taken dp raw doc \<and> transition_ok raw"
proof -
  have none: "\<not> string_field None t" for t by (simp add: string_field_def)
  have "applicability_shape dp v a \<longleftrightarrow> applicability_taken dp v a
      \<and> (field v ''transition_rule'' = None \<or> (\<exists>s. string_field (field v ''transition_rule'') s))" for v a
    unfolding applicability_shape_def applicability_taken_def
    by (cases "ap_transitionRule a") (auto simp: none dest: string_field_unique)
  then show ?thesis unfolding rule_shape_def rule_taken_def transition_ok_def Let_def by blast
qed

lemma transition_defect:
  assumes "rule_taken dp raw doc"
  shows "transition_path \<in> set (defects dp raw) \<longleftrightarrow> \<not> transition_ok raw"
proof -
  let ?r = "member_of raw ''rule''"
  have "isRecord ?r" "isRecord (field ?r ''applicability'')"
    using assms by (simp_all add: rule_taken_def applicability_taken_def Let_def)
  then show ?thesis
    using other_paths(3,4) [unfolded transition_path_def]
    by (auto simp: defects_def applicability_defects_def transition_ok_def flaw_def transition_path_def Let_def)
qed

text \<open>The raw value with the member \<open>transition\_rule\<close> taken out.\<close>

definition map_member :: "string \<Rightarrow> (json \<Rightarrow> json) \<Rightarrow> json \<Rightarrow> json" where
  "map_member k f v = (case v of JObj ms \<Rightarrow> JObj (map (\<lambda>m. (fst m, if fst m = k then f (snd m) else snd m)) ms) | _ \<Rightarrow> v)"

definition drop_member :: "string \<Rightarrow> json \<Rightarrow> json" where
  "drop_member k v = (case v of JObj ms \<Rightarrow> JObj (filter (\<lambda>m. fst m \<noteq> k) ms) | _ \<Rightarrow> v)"

definition without_transition :: "json \<Rightarrow> json" where
  "without_transition = map_member ''rule'' (map_member ''applicability'' (drop_member ''transition_rule''))"

lemma member_of_map_member:
  "member_of (map_member k f v) k' = map_option (if k' = k then f else id) (member_of v k')"
proof -
  have "map_of (map (\<lambda>m. (fst m, if fst m = k then f (snd m) else snd m)) ms) k'
      = map_option (if k' = k then f else id) (map_of ms k')" for ms
    by (induction ms) auto
  then show ?thesis by (auto simp: member_of_def map_member_def split: json.split)
qed

lemma member_of_drop_member: "member_of (drop_member k v) k' = (if k' = k then None else member_of v k')"
proof -
  have "map_of (filter (\<lambda>m. fst m \<noteq> k) ms) k' = (if k' = k then None else map_of ms k')" for ms
    by (induction ms) auto
  then show ?thesis by (auto simp: member_of_def drop_member_def split: json.split)
qed

lemma isRecord_members:
  "isRecord (map_option (map_member k f) v) = isRecord v" "isRecord (map_option (drop_member k) v) = isRecord v"
  by (auto simp: isRecord_def map_member_def drop_member_def split: option.split json.split)

lemma field_members:
  "field (map_option (map_member k f) v) k' = map_option (if k' = k then f else id) (field v k')"
  "field (map_option (drop_member k) v) k' = (if k' = k then None else field v k')"
  by (auto simp: field_def member_of_map_member member_of_drop_member split: option.split)

lemmas member_simps = member_of_map_member isRecord_members field_members option.map_id0

lemma rule_dropped:
  assumes "rule_taken dp raw doc" "\<not> transition_ok raw"
  shows "rule_shape dp (without_transition raw) doc"
proof -
  have "ap_transitionRule (rule_applicability doc) = None"
    using assms by (cases "ap_transitionRule (rule_applicability doc)")
      (auto simp: rule_taken_def applicability_taken_def transition_ok_def Let_def)
  then show ?thesis
    using assms(1)
    unfolding rule_shape_def rule_taken_def Let_def applicability_shape_def applicability_taken_def without_transition_def
    by (simp add: member_simps)
qed

lemma parsePolicyRule_exact:
  assumes dp: "date_parse [] = None"
  shows "case parsePolicyRule date_parse raw of
      Inr doc \<Rightarrow> rule_taken date_parse raw doc \<and> set (defects date_parse raw) \<subseteq> {transition_path}
    | Inl issues \<Rightarrow> map fst issues = defects date_parse raw \<and> \<not> set (defects date_parse raw) \<subseteq> {transition_path}"
proof (cases "isRecord (member_of raw ''rule'')")
  case False
  then show ?thesis
    by (auto simp: parsePolicyRule_def field_def defects_def transition_path_def)
next
  case True
  then have raw: "isRecord (Some raw)" by (cases raw) (auto simp: isRecord_def member_of_def)
  let ?r = "member_of raw ''rule''"
  let ?id = "requireString (field ?r ''id'') ''rule.id'' []"
  let ?v = "parseVersion (field ?r ''version'') (snd ?id)"
  let ?a = "parseApplicability date_parse (field ?r ''applicability'') (snd ?v)"
  let ?w = "parseWhen (field ?r ''when'') (snd ?a)"
  let ?out = "parseOutcome (field ?r ''outcome'') (snd ?w)"
  have ne: "fst ?id = Some s \<Longrightarrow> s \<noteq> []" "fst ?v = Some s \<Longrightarrow> s \<noteq> []" for s
    by (auto simp: parseVersion_Some requireString_iff(1) string_field_def semver_def)
  have eq: "parsePolicyRule date_parse raw =
      (case (fst ?id, fst ?v, fst ?a, fst ?w, fst ?out) of
         (Some r, Some v, Some a, Some w, Some out) \<Rightarrow>
           Inr \<lparr>rule_id = r, rule_version = v, rule_applicability = a, rule_when = w, rule_outcome = out\<rparr>
       | _ \<Rightarrow> Inl (snd ?out))"
    using True raw ne
    by (simp add: parsePolicyRule_def field_def [of "Some raw"] Let_def case_prod_beta split: option.splits)
  have parts: "fst ?id \<noteq> None \<and> fst ?v \<noteq> None \<and> fst ?a \<noteq> None \<and> fst ?w \<noteq> None \<and> fst ?out \<noteq> None"
    if "set (defects date_parse raw) \<subseteq> {transition_path}"
  proof -
    note d = defects_subset [OF that]
    have "fst ?id \<noteq> None" using d(2) by (auto simp: requireString_iff(2))
    moreover have "fst ?v \<noteq> None" using d(3) parseVersion_Some [of "field ?r ''version''" "snd ?id"] by auto
    moreover have "fst ?a \<noteq> None" using no_applicability_defect [of date_parse, OF dp d(4)] by auto
    moreover have "fst ?w \<noteq> None" using no_when_defect [OF d(5)] by auto
    moreover have "fst ?out \<noteq> None" using no_outcome_defect [OF d(6)] by auto
    ultimately show ?thesis by satx
  qed
  show ?thesis
  proof (cases "parsePolicyRule date_parse raw")
    case (Inr doc)
    then have f: "fst ?id = Some (rule_id doc)" "fst ?v = Some (rule_version doc)"
        "fst ?a = Some (rule_applicability doc)" "fst ?w = Some (rule_when doc)" "fst ?out = Some (rule_outcome doc)"
      unfolding eq by (auto split: option.splits)
    then have "rule_taken date_parse raw doc"
      using True by (simp add: rule_taken_def require_iff parseApplicability_Some [of date_parse, OF dp] parseWhen_Some parseOutcome_Some)
    then show ?thesis using taken_defects by (simp add: Inr)
  next
    case (Inl issues)
    then have none: "fst ?id = None \<or> fst ?v = None \<or> fst ?a = None \<or> fst ?w = None \<or> fst ?out = None"
      and issues: "issues = snd ?out"
      unfolding eq by (auto split: option.splits)
    have "map fst issues = defects date_parse raw"
      using True by (simp add: issues paths_outcome paths_when paths_applicability paths_require defects_def Let_def)
    then show ?thesis using none parts by (auto simp: Inl)
  qed
qed

text \<open>
  C33. The parser accepts every well-formed document and reports exactly what is wrong with the
  others, with one exception. A raw value describes a document exactly when it has no
  defective path; the parser then returns the document it describes, field by field. If a
  path other than \<open>rule.applicability.transition\_rule\<close> is defective, it throws one issue for
  each defective path, in document order. The exception: if that path alone is defective, the
  parser does not throw the issue it found, but returns the document that the value without
  its \<open>transition\_rule\<close> describes. (\<open>Date.parse\<close> rejects the empty string.)
\<close>

theorem parser_accepts_and_reports:
  assumes dp: "date_parse [] = None"
  shows "((\<exists>doc. rule_shape date_parse raw doc) \<longleftrightarrow> defects date_parse raw = [])
    \<and> (defects date_parse raw = [] \<longrightarrow>
        (\<exists>doc. parsePolicyRule date_parse raw = Inr doc \<and> rule_shape date_parse raw doc))
    \<and> (\<not> set (defects date_parse raw) \<subseteq> {''rule.applicability.transition_rule''} \<longrightarrow>
        (\<exists>issues. parsePolicyRule date_parse raw = Inl issues \<and> map fst issues = defects date_parse raw))
    \<and> (set (defects date_parse raw) = {''rule.applicability.transition_rule''} \<longrightarrow>
        (\<exists>doc. parsePolicyRule date_parse raw = Inr doc \<and> rule_shape date_parse (without_transition raw) doc))"
proof -
  note exact = parsePolicyRule_exact [of date_parse raw, OF dp]
  have taken: "\<exists>doc. parsePolicyRule date_parse raw = Inr doc \<and> rule_taken date_parse raw doc"
    if "set (defects date_parse raw) \<subseteq> {transition_path}"
    using exact that by (auto split: sum.splits)
  have none: "defects date_parse raw = []" if "rule_shape date_parse raw doc" for doc
  proof -
    have t: "rule_taken date_parse raw doc" "transition_ok raw" using that by (simp_all add: shape_iff_taken)
    then have "set (defects date_parse raw) = {}" using taken_defects [OF t(1)] transition_defect [OF t(1)]
      by (metis insertI1 subset_singletonD)
    then show ?thesis by (simp only: set_empty)
  qed
  have good: "\<exists>doc. parsePolicyRule date_parse raw = Inr doc \<and> rule_shape date_parse raw doc"
    if "defects date_parse raw = []"
    using taken that transition_defect by (fastforce simp: shape_iff_taken)
  moreover have "\<exists>doc. parsePolicyRule date_parse raw = Inr doc \<and> rule_shape date_parse (without_transition raw) doc"
    if only: "set (defects date_parse raw) = {transition_path}"
  proof -
    obtain doc where doc: "parsePolicyRule date_parse raw = Inr doc" "rule_taken date_parse raw doc" using taken only by auto
    have "\<not> transition_ok raw" using transition_defect [OF doc(2)] only by simp
    then have "rule_shape date_parse (without_transition raw) doc"
      using rule_dropped [OF doc(2)] by blast
    then show ?thesis using doc(1) by blast
  qed
  moreover have "\<exists>issues. parsePolicyRule date_parse raw = Inl issues \<and> map fst issues = defects date_parse raw"
    if "\<not> set (defects date_parse raw) \<subseteq> {transition_path}"
    using exact that by (auto split: sum.splits)
  ultimately show ?thesis using none unfolding transition_path_def by blast
qed

definition ex_raw_rule :: "json \<Rightarrow> json" where
  "ex_raw_rule transition =
     JObj [(''rule'', JObj
       [(''id'', JStr ''income-discrepancy''), (''version'', JStr ''1.0.0''),
        (''applicability'', JObj
          [(''jurisdictions'', JArr [JStr ''US-CA'']), (''product'', JStr ''CONVENTIONAL_MORTGAGE''),
           (''lifecycle_events'', JArr [JStr ''UNDERWRITING_REVIEW'']),
           (''effective_from'', JStr ''2027-01-01''), (''transition_rule'', transition)]),
        (''when'', JObj [(''difference_percent'', JObj
          [(''left'', JStr ''application.monthly_income''), (''right'', JStr ''evidence.verified_monthly_income''),
           (''greater_than'', JNum (Num 7))])]),
        (''outcome'', JObj [(''condition'', JStr ''VERIFY_INCOME_DISCREPANCY''), (''route'', JStr ''MANUAL_REVIEW'')])])]"

definition ex_date_parse :: "string \<Rightarrow> timestamp option" where
  "ex_date_parse s = (if s = ''2027-01-01'' then Some 1798761600000 else None)"

definition ex_rule :: PolicyRuleDocument where
  "ex_rule = projr (parsePolicyRule ex_date_parse (ex_raw_rule (JStr ''evaluation_as_of_effective_date'')))"

theorem parser_accepts_and_reports_witness:
  "(\<exists>doc. parsePolicyRule ex_date_parse (ex_raw_rule (JStr ''evaluation_as_of_effective_date'')) = Inr doc
     \<and> rule_shape ex_date_parse (ex_raw_rule (JStr ''evaluation_as_of_effective_date'')) doc)"
proof -
  let ?raw = "ex_raw_rule (JStr ''evaluation_as_of_effective_date'')"
  have d: "ex_date_parse [] = None" by code_simp
  have p: "parsePolicyRule ex_date_parse ?raw = Inr ex_rule"
    unfolding ex_rule_def by code_simp
  have t: "transition_ok ?raw"
    by (auto simp: transition_ok_def string_field_def ex_raw_rule_def member_of_def field_def trim_def js_space_def)
  have "rule_taken ex_date_parse ?raw ex_rule" using parsePolicyRule_exact [of ex_date_parse ?raw, OF d] p by simp
  then have "rule_shape ex_date_parse ?raw ex_rule" using t by (simp add: shape_iff_taken)
  then show ?thesis using parser_accepts_and_reports [of ex_date_parse ?raw, OF d] by blast
qed

text \<open>
  A malformed transition rule is dropped without a word: when a document is accepted
  although its \<open>transition\_rule\<close> is there and is not a nonempty string, the issue that was
  collected for it is discarded and the rule carries no transition rule at all.
\<close>

theorem bad_transition_rule_is_dropped:
  assumes "date_parse [] = None" "parsePolicyRule date_parse raw = Inr doc"
    and "app = field (member_of raw ''rule'') ''applicability''"
    and "field app ''transition_rule'' = Some v" "\<not> nonblank v"
  shows "ap_transitionRule (rule_applicability doc) = None
    \<and> ''rule.applicability.transition_rule'' \<in> set (map fst (snd (parseApplicability date_parse app [])))"
proof -
  have "rule_taken date_parse raw doc"
    using parsePolicyRule_exact [of date_parse raw] assms(1,2) by simp
  then have sh: "applicability_taken date_parse app (rule_applicability doc)"
    by (simp add: rule_taken_def Let_def assms(3))
  moreover have bad: "\<not> string_field (field app ''transition_rule'') s" for s
    using assms(4,5) by (auto simp: string_field_def nonblank_def)
  ultimately have "ap_transitionRule (rule_applicability doc) = None"
    by (cases "ap_transitionRule (rule_applicability doc)") (auto simp: applicability_taken_def)
  moreover have rec: "isRecord app" using sh by (simp add: applicability_taken_def)
  have "\<not> (field app ''transition_rule'' = None \<or> (\<exists>s. string_field (field app ''transition_rule'') s))"
    using bad assms(4) by simp
  then have flaw: "flaw (field app ''transition_rule'' = None \<or> (\<exists>s. string_field (field app ''transition_rule'') s))
      ''rule.applicability.transition_rule'' = [''rule.applicability.transition_rule'']"
    unfolding flaw_def by (rule if_not_P)
  have "''rule.applicability.transition_rule'' \<in> set (applicability_defects date_parse app)"
    using rec flaw unfolding applicability_defects_def by simp
  ultimately show ?thesis by (simp add: paths_applicability)
qed

theorem bad_transition_rule_is_dropped_witness:
  "\<exists>doc. parsePolicyRule ex_date_parse (ex_raw_rule (JStr '' '')) = Inr doc
    \<and> ap_transitionRule (rule_applicability doc) = None"
proof -
  define doc where "doc = projr (parsePolicyRule ex_date_parse (ex_raw_rule (JStr '' '')))"
  have p: "parsePolicyRule ex_date_parse (ex_raw_rule (JStr '' '')) = Inr doc" unfolding doc_def by code_simp
  have "ex_date_parse [] = None"
    "field (field (member_of (ex_raw_rule (JStr '' '')) ''rule'') ''applicability'') ''transition_rule'' = Some (JStr '' '')"
    "\<not> nonblank (JStr '' '')" by code_simp+
  with bad_transition_rule_is_dropped [OF _ p refl] p show ?thesis by blast
qed

section \<open>The percentage\<close>

lemma rounding_twice:
  fixes x e1 e2 u :: rat
  assumes "\<bar>e1\<bar> \<le> x * u" "\<bar>e2\<bar> \<le> \<bar>100 * (x + e1)\<bar> * u" "0 \<le> x" "0 \<le> u" "u \<le> 1"
  shows "\<bar>100 * e1 + e2\<bar> \<le> 100 * x * (3 * u)"
proof -
  have e1: "\<bar>100 * (x + e1)\<bar> \<le> 100 * x + 100 * (x * u)" using assms(1,3) by (simp add: abs_le_iff)
  have "x * u * u \<le> x * u * 1" using assms(3-5) by (intro mult_left_mono) simp_all
  moreover have "\<bar>e2\<bar> \<le> (100 * x + 100 * (x * u)) * u"
    using assms(2,4) e1 by (meson mult_right_mono order_trans)
  ultimately have "\<bar>e2\<bar> \<le> 100 * (x * u) + 100 * (x * u)" by (simp add: algebra_simps)
  then show ?thesis using assms(1) by (simp add: abs_le_iff mult.commute [of u x])
qed

lemma exact_difference:
  assumes "\<bar>l\<bar> \<le> 2 ^ 52" "\<bar>r\<bar> \<le> (2 ^ 52 :: int)"
  shows "js_abs (js_sub (Num (of_int r)) (Num (of_int l))) = Num (of_int \<bar>r - l\<bar>)"
proof -
  have q: "(of_int r - of_int l :: rat) = of_int (r - l)" by simp
  have small: "\<bar>r - l\<bar> \<le> 2 ^ 53" using assms by simp
  have r53: "round53 (of_int (r - l)) = of_int (r - l)"
  proof (cases "\<bar>r - l\<bar> < 2 ^ 53")
    case False
    then have "r - l = 2 ^ 53 \<or> r - l = - (2 ^ 53)" using small by auto
    then show ?thesis
    proof
      assume "r - l = 2 ^ 53"
      moreover have "round53 (of_int (2 ^ 53)) = of_int (2 ^ 53)" by code_simp
      ultimately show ?thesis by simp
    next
      assume "r - l = - (2 ^ 53)"
      moreover have "round53 (of_int (- (2 ^ 53))) = of_int (- (2 ^ 53))" by code_simp
      ultimately show ?thesis by simp
    qed
  qed (rule round53_of_int)
  have "(of_int \<bar>r - l\<bar> :: rat) \<le> of_int (2 ^ 53)" using small by (simp only: of_int_le_iff)
  moreover have "of_int (2 ^ 53) < pow2 1024 - pow2 970" by code_simp
  ultimately have "\<bar>of_int (r - l) :: rat\<bar> < pow2 1024 - pow2 970" by simp
  then have "js_round (of_int (r - l)) = Num (round53 (of_int (r - l)))" by (rule js_round_finite)
  then have "js_sub (Num (of_int r)) (Num (of_int l)) = Num (of_int (r - l))"
    unfolding js_sub.simps q r53 .
  then show ?thesis by (simp only: js_abs.simps of_int_abs)
qed

lemma percent_difference_close:
  fixes l r :: int
  assumes l: "l \<noteq> 0" "\<bar>l\<bar> \<le> 2 ^ 52" and r: "\<bar>r\<bar> \<le> 2 ^ 52"
  shows "\<exists>p. percent_difference (of_int l) (of_int r) = Num p
    \<and> \<bar>p - 100 * (of_int \<bar>r - l\<bar> / of_int \<bar>l\<bar>)\<bar> \<le> 100 * (of_int \<bar>r - l\<bar> / of_int \<bar>l\<bar>) * (3 * pow2 (- 53))"
proof (cases "r = l")
  case True
  have "js_round 0 = Num 0" by code_simp
  then show ?thesis using True by (simp add: percent_difference_def)
next
  case False
  define d where "d = \<bar>r - l\<bar>"
  have d: "1 \<le> d" "d \<le> 2 ^ 53" using False l r by (simp_all add: d_def)
  have dl: "1 \<le> \<bar>l\<bar>" using l by simp
  define x :: rat where "x = of_int d / of_int \<bar>l\<bar>"
  have sub: "js_abs (js_sub (Num (of_int r)) (Num (of_int l))) = Num (of_int d)"
    unfolding d_def by (rule exact_difference [OF l(2) r])
  have xb: "pow2 (- 53) \<le> x" "x \<le> pow2 53"
  proof -
    have p: "pow2 (- 53) * 2 ^ 53 = 1" "pow2 53 = 2 ^ 53" by (simp_all add: pow2_eq)
    have "of_int \<bar>l\<bar> \<le> (of_int (2 ^ 53) :: rat)" "of_int 1 \<le> (of_int \<bar>l\<bar> :: rat)"
        "of_int 1 \<le> (of_int d :: rat)" "(of_int d :: rat) \<le> of_int (2 ^ 53)"
      using l dl d by (simp_all only: of_int_le_iff) simp
    then have ld: "(of_int \<bar>l\<bar> :: rat) \<le> 2 ^ 53" "1 \<le> (of_int \<bar>l\<bar> :: rat)"
      and dd: "1 \<le> (of_int d :: rat)" "(of_int d :: rat) \<le> 2 ^ 53"
      by simp_all
    have "pow2 (- 53) * of_int \<bar>l\<bar> \<le> of_int d"
    proof -
      have "pow2 (- 53) * of_int \<bar>l\<bar> \<le> pow2 (- 53) * 2 ^ 53"
        by (rule mult_left_mono [OF ld(1)]) (simp add: order_less_imp_le)
      then show ?thesis using p(1) dd(1) by linarith
    qed
    then show "pow2 (- 53) \<le> x" using ld(2) by (simp add: x_def pos_le_divide_eq)
    have "of_int d \<le> pow2 53 * of_int \<bar>l\<bar>"
    proof -
      have "of_int d * 1 \<le> pow2 53 * of_int \<bar>l\<bar>" using dd ld(2) p(2) by (intro mult_mono) simp_all
      then show ?thesis by simp
    qed
    then show "x \<le> pow2 53" using ld(2) by (simp add: x_def pos_divide_le_eq)
  qed
  have xp: "0 < x" using xb(1) pow2_pos [of "- 53"] by linarith
  have big: "pow2 (- 1022) \<le> pow2 (- 53)" "pow2 53 \<le> pow2 1023" by (rule pow2_mono, simp)+
  obtain y where y: "js_round x = Num y" "\<bar>y - x\<bar> \<le> \<bar>x\<bar> * pow2 (- 53)"
    using js_round_normal [of x] xb big xp by force
  have u: "0 < pow2 (- 53)" "pow2 (- 53) \<le> 1/2"
    using pow2_mono [of "- 53" "- 1"] by (simp_all add: pow2_eq [of "- 1"])
  have "\<bar>x\<bar> * pow2 (- 53) \<le> x * (1/2)" using xp u by (intro mult_mono) (simp_all add: order_less_imp_le)
  then have "\<bar>y - x\<bar> \<le> x / 2" using y(2) by linarith
  then have yb: "x / 2 \<le> y" "y \<le> 2 * x" using xp by (simp_all only: abs_le_iff) linarith+
  have "pow2 (- 1022) \<le> \<bar>y * 100\<bar>"
  proof -
    have "pow2 (- 53) \<le> y * 100" using yb(1) xb(1) xp by linarith
    then show ?thesis using big(1) by linarith
  qed
  moreover have "\<bar>y * 100\<bar> \<le> pow2 1023"
  proof -
    have "y * 100 \<le> 200 * pow2 53" using yb(2) xb(2) by linarith
    also have "\<dots> \<le> pow2 8 * pow2 53" by (intro mult_right_mono) (simp_all add: pow2_eq order_less_imp_le)
    also have "\<dots> = pow2 61" using pow2_add [of 8 53] by simp
    also have "\<dots> \<le> pow2 1023" by (rule pow2_mono) simp
    finally show ?thesis using yb(1) xp by (simp add: abs_le_iff)
  qed
  ultimately obtain p where p: "js_round (y * 100) = Num p" "\<bar>p - y * 100\<bar> \<le> \<bar>y * 100\<bar> * pow2 (- 53)"
    using js_round_normal by blast
  have "percent_difference (of_int l) (of_int r) = Num p"
    using sub y(1) p(1) by (simp add: percent_difference_def x_def)
  moreover have "\<bar>100 * (y - x) + (p - y * 100)\<bar> \<le> 100 * x * (3 * pow2 (- 53))"
    by (rule rounding_twice) (use y(2) p(2) xp u in \<open>simp_all add: algebra_simps order_less_imp_le\<close>)
  then have "\<bar>p - 100 * x\<bar> \<le> 100 * x * (3 * pow2 (- 53))" by (simp add: algebra_simps)
  ultimately show ?thesis unfolding x_def d_def by blast
qed

text \<open>
  The percentage the evaluator computes is right to fifteen digits. For whole numbers up
  to $2^{52}$ in magnitude on both sides, the rule compares two facts and its decision
  is the exact one except within one part in $2^{51}$ of the threshold: if it matches, the
  exact percentage exceeds the threshold up to that error, and if it does not, the exact
  percentage does not exceed it by more. A missing, non-numeric or zero left fact never
  matches, and a match carries the outcome the rule declares.
\<close>

theorem match_agrees_with_exact_percentage:
  fixes l r :: int
  assumes "resolveFactPath ctx (cond_left (rule_when rule)) = Some (of_int l)"
    and "resolveFactPath ctx (cond_right (rule_when rule)) = Some (of_int r)"
    and "\<bar>l\<bar> \<le> 2 ^ 52" "\<bar>r\<bar> \<le> 2 ^ 52"
  shows "let exact = 100 * (of_int \<bar>r - l\<bar> / of_int \<bar>l\<bar>) :: rat; t = cond_greaterThan (rule_when rule);
             e = evaluatePolicyRule rule ctx
    in (l = 0 \<longrightarrow> \<not> eva_matched e)
     \<and> (l \<noteq> 0 \<and> eva_matched e \<longrightarrow> t < exact * (1 + pow2 (- 51))
          \<and> eva_condition e = Some (out_condition (rule_outcome rule))
          \<and> eva_route e = Some (out_route (rule_outcome rule)))
     \<and> (l \<noteq> 0 \<and> \<not> eva_matched e \<longrightarrow> exact * (1 - pow2 (- 51)) \<le> t \<and> eva_condition e = None)"
proof (cases "l = 0")
  case True
  then show ?thesis using assms(1,2) by (simp add: evaluatePolicyRule_def evaluateCondition_def Let_def)
next
  case False
  let ?x = "100 * (of_int \<bar>r - l\<bar> / of_int \<bar>l\<bar>) :: rat" and ?t = "cond_greaterThan (rule_when rule)"
  obtain p where p: "percent_difference (of_int l) (of_int r) = Num p" "\<bar>p - ?x\<bar> \<le> ?x * (3 * pow2 (- 53))"
    using percent_difference_close [OF False assms(3,4)] by blast
  have "3 * pow2 (- 53) \<le> pow2 (- 51)" using pow2_add_nat [of "- 53" 2] by simp
  then have "?x * (3 * pow2 (- 53)) \<le> ?x * pow2 (- 51)" by (rule mult_left_mono) simp
  then have b: "p \<le> ?x * (1 + pow2 (- 51))" "?x * (1 - pow2 (- 51)) \<le> p"
    using p(2) unfolding distrib_left right_diff_distrib by (simp_all only: abs_le_iff) linarith+
  have m: "evaluateCondition (rule_when rule) ctx = (?t < p, Compared (of_int l) (of_int r) (Num p) ?t)"
    using assms(1,2) False p(1) by (simp add: evaluateCondition_def)
  show ?thesis
    using b False unfolding Let_def evaluatePolicyRule_def m by (cases "?t < p") simp_all
qed

definition ex_facts :: "rat \<Rightarrow> rat \<Rightarrow> json" where
  "ex_facts income verified =
     JObj [(''application'', JObj [(''monthly_income'', JNum (Num income))]),
           (''evidence'', JObj [(''verified_monthly_income'', JNum (Num verified))])]"

theorem match_agrees_with_exact_percentage_witness:
  "eva_matched (evaluatePolicyRule ex_rule (ex_facts 10000 8000)) \<and> (7 :: rat) < 20 * (1 + pow2 (- 51))"
proof -
  have "resolveFactPath (ex_facts 10000 8000) (cond_left (rule_when ex_rule)) = Some (of_int 10000)"
    "resolveFactPath (ex_facts 10000 8000) (cond_right (rule_when ex_rule)) = Some (of_int 8000)"
    "cond_greaterThan (rule_when ex_rule) = 7" "eva_matched (evaluatePolicyRule ex_rule (ex_facts 10000 8000))"
    by code_simp+
  then show ?thesis
    using match_agrees_with_exact_percentage [of "ex_facts 10000 8000" ex_rule 10000 8000] by (simp add: Let_def)
qed

text \<open>
  A difference of exactly the threshold may match, although the comparison is meant to be
  strict: a stated income of 100 against a verified one of 107 differs by exactly 7 percent,
  and a rule with the threshold 7 matches it, because 0.07 times 100 is rounded up.
\<close>

theorem exact_threshold_can_match:
  "\<exists>rule ctx. parsePolicyRule ex_date_parse (ex_raw_rule (JStr ''evaluation_as_of_effective_date'')) = Inr rule
    \<and> resolveFactPath ctx (cond_left (rule_when rule)) = Some 100
    \<and> resolveFactPath ctx (cond_right (rule_when rule)) = Some 107
    \<and> \<bar>107 - 100\<bar> / \<bar>100\<bar> * 100 = cond_greaterThan (rule_when rule)
    \<and> eva_matched (evaluatePolicyRule rule ctx)"
proof -
  have "parsePolicyRule ex_date_parse (ex_raw_rule (JStr ''evaluation_as_of_effective_date'')) = Inr ex_rule"
    unfolding ex_rule_def by code_simp
  moreover have "resolveFactPath (ex_facts 100 107) (cond_left (rule_when ex_rule)) = Some 100"
    "resolveFactPath (ex_facts 100 107) (cond_right (rule_when ex_rule)) = Some 107"
    "\<bar>107 - 100\<bar> / \<bar>100\<bar> * 100 = cond_greaterThan (rule_when ex_rule)"
    "eva_matched (evaluatePolicyRule ex_rule (ex_facts 100 107))"
    by code_simp+
  ultimately show ?thesis by blast
qed

end
