(* ===== verification/Iso_Date.thy ===== *)
theory Iso_Date
  imports Prelude
begin

text \<open>
  \<open>Date.prototype.toISOString\<close>: the UTC date and time of an instant as text. The civil
  date is computed from the days since 1 March 0000 in eras of 400 years. \<open>iso_parse\<close>
  reads such texts back; \<open>iso_parse_toISOString\<close> is the round trip, which also makes
  the text injective on the instants a \<open>Date\<close> can hold.
\<close>

section \<open>Civil dates\<close>

definition civil :: "int \<Rightarrow> int \<times> int \<times> int" where
  "civil days =
     (let z = days + 719468;
          n400 = z mod 146097;
          n100 = min 3 (n400 div 36524);
          r100 = n400 - 36524 * n100;
          r4 = r100 mod 1461;
          n1 = min 3 (r4 div 365);
          doy = r4 - 365 * n1;
          y = 400 * (z div 146097) + 100 * n100 + 4 * (r100 div 1461) + n1;
          mp = (5 * doy + 2) div 153;
          m = (if mp < 10 then mp + 3 else mp - 9)
      in (if m \<le> 2 then y + 1 else y, m, doy - (153 * mp + 2) div 5 + 1))"

definition days_of :: "int \<Rightarrow> int \<Rightarrow> int \<Rightarrow> int" where
  "days_of y m d =
     (let y' = (if m \<le> 2 then y - 1 else y);
          mp = (if m \<le> 2 then m + 9 else m - 3);
          yoe = y' mod 400
      in 146097 * (y' div 400) + 36524 * (yoe div 100) + 1461 * (yoe mod 100 div 4)
         + 365 * (yoe mod 4) + (153 * mp + 2) div 5 + d - 1 - 719468)"

lemma year_parts:
  fixes a b c e :: int
  assumes "0 \<le> a" "a \<le> 3" "0 \<le> b" "b \<le> 24" "0 \<le> c" "c \<le> 3"
  shows "(400 * e + 100 * a + 4 * b + c) div 400 = e"
    "(400 * e + 100 * a + 4 * b + c) mod 400 div 100 = a"
    "(400 * e + 100 * a + 4 * b + c) mod 400 mod 100 div 4 = b"
    "(400 * e + 100 * a + 4 * b + c) mod 400 mod 4 = c"
proof -
  have e: "400 * e + 100 * a + 4 * b + c = 400 * e + (100 * a + 4 * b + c)" by simp
  have r: "0 \<le> 100 * a + 4 * b + c" "100 * a + 4 * b + c < 400" "0 \<le> 4 * b + c" "4 * b + c < 100"
    using assms by linarith+
  show "(400 * e + 100 * a + 4 * b + c) div 400 = e" unfolding e using r by linarith
  have m: "(400 * e + 100 * a + 4 * b + c) mod 400 = 100 * a + (4 * b + c)"
    unfolding e using r by (simp add: mod_pos_pos_trivial)
  show "(400 * e + 100 * a + 4 * b + c) mod 400 div 100 = a" unfolding m using r by linarith
  have m': "(100 * a + (4 * b + c)) mod 100 = 4 * b + c" using r by (simp add: mod_pos_pos_trivial)
  show "(400 * e + 100 * a + 4 * b + c) mod 400 mod 100 div 4 = b" unfolding m m' using assms by linarith
  have "(100 * a + (4 * b + c)) mod 4 = c mod 4" by presburger
  then show "(400 * e + 100 * a + 4 * b + c) mod 400 mod 4 = c"
    unfolding m using assms by (simp add: mod_pos_pos_trivial)
qed

lemma civil_bounds_aux:
  fixes n400 :: int
  assumes "0 \<le> n400" "n400 < 146097" "n100 = min 3 (n400 div 36524)" "r100 = n400 - 36524 * n100"
    and "r4 = r100 mod 1461" "n1 = min 3 (r4 div 365)" "doy = r4 - 365 * n1"
  shows "0 \<le> n100" "n100 \<le> 3" "0 \<le> r100 div 1461" "r100 div 1461 \<le> 24" "0 \<le> n1" "n1 \<le> 3"
    "0 \<le> doy" "doy \<le> 365"
proof -
  show n: "0 \<le> n100" "n100 \<le> 3" using assms(1,3) by (simp_all add: pos_imp_zdiv_nonneg_iff)
  have r: "0 \<le> r100" "r100 \<le> 36524"
    using assms(1-4) by (auto simp: min_def split: if_splits)
  then show "0 \<le> r100 div 1461" "r100 div 1461 \<le> 24" by linarith+
  have s: "0 \<le> r4" "r4 \<le> 1460"
    using pos_mod_bound [of 1461 r100] unfolding assms(5) by simp_all
  then show "0 \<le> n1" "n1 \<le> 3" "0 \<le> doy" "doy \<le> 365"
    unfolding assms(6,7) by (auto simp: min_def)
qed

lemma civil_date:
  assumes "civil days = (y, m, d)"
  shows "1 \<le> m \<and> m \<le> 12 \<and> 1 \<le> d \<and> d \<le> 31 \<and> days_of y m d = days"
proof -
  define z where "z = days + 719468"
  define n400 where "n400 = z mod 146097"
  define n100 where "n100 = min 3 (n400 div 36524)"
  define r100 where "r100 = n400 - 36524 * n100"
  define r4 where "r4 = r100 mod 1461"
  define n1 where "n1 = min 3 (r4 div 365)"
  define doy where "doy = r4 - 365 * n1"
  define yr where "yr = 400 * (z div 146097) + 100 * n100 + 4 * (r100 div 1461) + n1"
  define mp where "mp = (5 * doy + 2) div 153"
  have n: "0 \<le> n400" "n400 < 146097" unfolding n400_def by simp_all
  note b = civil_bounds_aux [OF n n100_def r100_def r4_def n1_def doy_def]
  note parts = year_parts [OF b(1-6), of "z div 146097", folded yr_def]
  have mp: "0 \<le> mp" "mp \<le> 11" unfolding mp_def using b(7,8) by linarith+
  have m: "m = (if mp < 10 then mp + 3 else mp - 9)" and y: "y = (if m \<le> 2 then yr + 1 else yr)"
    and d: "d = doy - (153 * mp + 2) div 5 + 1"
    using assms
    unfolding civil_def Let_def z_def [symmetric] n400_def [symmetric] n100_def [symmetric] r100_def [symmetric]
      r4_def [symmetric] n1_def [symmetric] doy_def [symmetric] yr_def [symmetric] mp_def [symmetric] by auto
  have m': "1 \<le> m" "m \<le> 12" "(if m \<le> 2 then m + 9 else m - 3) = mp" unfolding m using mp by auto
  have y': "(if m \<le> 2 then y - 1 else y) = yr" unfolding y by simp
  have mpd: "153 * mp \<le> 5 * doy + 2" "5 * doy + 2 < 153 * mp + 153" unfolding mp_def by linarith+
  then have d': "1 \<le> d" "d \<le> 31" unfolding d by linarith+
  have "n400 = 36524 * n100 + r100" unfolding r100_def by simp
  moreover have "r100 = 1461 * (r100 div 1461) + r4" unfolding r4_def by simp
  moreover have "r4 = 365 * n1 + doy" unfolding doy_def by simp
  moreover have "z = 146097 * (z div 146097) + n400" unfolding n400_def by simp
  ultimately have "days_of y m d = z - 719468"
    unfolding days_of_def Let_def y' m'(3) parts by (simp add: d)
  then show ?thesis using m'(1,2) d' by (simp add: z_def)
qed

section \<open>Text\<close>

primrec pad :: "nat \<Rightarrow> int \<Rightarrow> string" where
  "pad 0 n = []"
| "pad (Suc w) n = pad w (n div 10) @ [char_of (nat (48 + n mod 10))]"

definition unpad :: "string \<Rightarrow> int" where
  "unpad s = foldl (\<lambda>n c. 10 * n + (int (of_char c) - 48)) 0 s"

definition toISOString :: "timestamp \<Rightarrow> string" where
  "toISOString t =
     (let (y, m, d) = civil (t div 86400000); ms = t mod 86400000
      in (if 0 \<le> y \<and> y \<le> 9999 then pad 4 y
          else (if y < 0 then CHR ''-'' else CHR ''+'') # pad 6 \<bar>y\<bar>)
         @ ''-'' @ pad 2 m @ ''-'' @ pad 2 d @ ''T'' @ pad 2 (ms div 3600000)
         @ '':'' @ pad 2 (ms div 60000 mod 60) @ '':'' @ pad 2 (ms div 1000 mod 60)
         @ ''.'' @ pad 3 (ms mod 1000) @ ''Z'')"

text \<open>The instants a \<open>Date\<close> can hold.\<close>

definition valid_time :: "timestamp \<Rightarrow> bool" where
  "valid_time t \<longleftrightarrow> \<bar>t\<bar> \<le> 8640000000000000"

definition decode_rest :: "int \<Rightarrow> string \<Rightarrow> timestamp" where
  "decode_rest y s =
     86400000 * days_of y (unpad (take 2 (drop 1 s))) (unpad (take 2 (drop 4 s)))
     + 3600000 * unpad (take 2 (drop 7 s)) + 60000 * unpad (take 2 (drop 10 s))
     + 1000 * unpad (take 2 (drop 13 s)) + unpad (take 3 (drop 16 s))"

definition iso_decode :: "string \<Rightarrow> timestamp" where
  "iso_decode s =
     (if take 1 s = ''-'' then decode_rest (- unpad (take 6 (drop 1 s))) (drop 7 s)
      else if take 1 s = ''+'' then decode_rest (unpad (take 6 (drop 1 s))) (drop 7 s)
      else decode_rest (unpad (take 4 s)) (drop 4 s))"

definition iso_parse :: "string \<Rightarrow> timestamp option" where
  "iso_parse s = (if toISOString (iso_decode s) = s then Some (iso_decode s) else None)"

lemma length_pad [simp]: "length (pad w n) = w"
  by (induction w arbitrary: n) auto

lemma unpad_pad: "0 \<le> n \<Longrightarrow> n < 10 ^ w \<Longrightarrow> unpad (pad w n) = n"
proof (induction w arbitrary: n)
  case (Suc w)
  then have "unpad (pad w (n div 10)) = n div 10" by simp
  moreover have "int (of_char (char_of (nat (48 + n mod 10)) :: char)) = 48 + n mod 10"
    by (simp add: nat_less_iff)
  ultimately show ?case by (simp add: unpad_def)
qed (simp add: unpad_def)

lemma hd_pad: "0 < w \<Longrightarrow> take 1 (pad w n @ r) \<noteq> ''-'' \<and> take 1 (pad w n @ r) \<noteq> ''+''"
proof -
  have "c \<in> set (pad w n) \<Longrightarrow> 48 \<le> (of_char c :: nat)" for c
    by (induction w arbitrary: n) (auto simp: nat_less_iff)
  moreover assume "0 < w"
  then obtain c cs where "pad w n = c # cs" by (metis length_pad length_greater_0_conv list.exhaust)
  ultimately have "48 \<le> (of_char c :: nat)" "take 1 (pad w n @ r) = [c]" by auto
  then show ?thesis by auto
qed

lemma era_bound:
  fixes e a b c f d days :: int
  assumes "146097 * e + 36524 * a + 1461 * b + 365 * c + f + d - 1 - 719468 = days" "\<bar>days\<bar> \<le> 100000000"
    and "0 \<le> a" "a \<le> 3" "0 \<le> b" "b \<le> 24" "0 \<le> c" "c \<le> 3" "0 \<le> f" "f \<le> 400" "1 \<le> d" "d \<le> 31"
  shows "\<bar>e\<bar> \<le> 700"
  using assms by linarith

lemma civil_year:
  assumes "civil days = (y, m, d)" "\<bar>days\<bar> \<le> 100000000"
  shows "\<bar>y\<bar> < 10 ^ 6"
proof -
  have d: "1 \<le> m" "m \<le> 12" "1 \<le> d" "d \<le> 31" "days_of y m d = days"
    using civil_date [OF assms(1)] by auto
  define y' where "y' = (if m \<le> 2 then y - 1 else y)"
  define mp where "mp = (if m \<le> 2 then m + 9 else m - 3)"
  have "146097 * (y' div 400) + 36524 * (y' mod 400 div 100) + 1461 * (y' mod 400 mod 100 div 4)
      + 365 * (y' mod 400 mod 4) + (153 * mp + 2) div 5 + d - 1 - 719468 = days"
    using d(5) unfolding days_of_def Let_def y'_def mp_def .
  moreover have "0 \<le> y' mod 400 div 100" "y' mod 400 div 100 \<le> 3"
    using pos_mod_bound [of 400 y'] pos_mod_sign [of 400 y'] by linarith+
  moreover have "0 \<le> y' mod 400 mod 100 div 4" "y' mod 400 mod 100 div 4 \<le> 24"
    using pos_mod_bound [of 100 "y' mod 400"] pos_mod_sign [of 100 "y' mod 400"] by linarith+
  moreover have "0 \<le> y' mod 400 mod 4" "y' mod 400 mod 4 \<le> 3"
    using pos_mod_bound [of 4 "y' mod 400"] pos_mod_sign [of 4 "y' mod 400"] by linarith+
  moreover have "0 \<le> mp" "mp \<le> 11" using d(1,2) by (auto simp: mp_def)
  moreover from this have "0 \<le> (153 * mp + 2) div 5" "(153 * mp + 2) div 5 \<le> 400" by linarith+
  ultimately have "\<bar>y' div 400\<bar> \<le> 700" using d(3,4) assms(2) by (elim era_bound)
  then have "\<bar>y'\<bar> \<le> 281000" by linarith
  then show ?thesis by (auto simp: y'_def split: if_splits)
qed

lemma decode_rest_text:
  assumes "civil (t div 86400000) = (y, m, d)" "ms = t mod 86400000"
  shows "decode_rest y (''-'' @ pad 2 m @ ''-'' @ pad 2 d @ ''T'' @ pad 2 (ms div 3600000)
         @ '':'' @ pad 2 (ms div 60000 mod 60) @ '':'' @ pad 2 (ms div 1000 mod 60)
         @ ''.'' @ pad 3 (ms mod 1000) @ ''Z'') = t"
proof -
  have c: "1 \<le> m" "m \<le> 12" "1 \<le> d" "d \<le> 31" "days_of y m d = t div 86400000"
    using civil_date [OF assms(1)] by auto
  have "0 \<le> ms" "ms < 86400000" unfolding assms(2) by simp_all
  moreover have "unpad (pad 2 m) = m" "unpad (pad 2 d) = d"
    using c(1-4) by (simp_all add: unpad_pad)
  moreover have "unpad (pad 2 (ms div 3600000)) = ms div 3600000"
  proof (rule unpad_pad)
    show "0 \<le> ms div 3600000" "ms div 3600000 < 10 ^ 2" using calculation(1,2) by simp_all
  qed
  moreover have "unpad (pad 2 (ms div 60000 mod 60)) = ms div 60000 mod 60"
    "unpad (pad 2 (ms div 1000 mod 60)) = ms div 1000 mod 60" "unpad (pad 3 (ms mod 1000)) = ms mod 1000"
    by (intro unpad_pad; simp add: order_less_trans [OF pos_mod_bound])+
  ultimately have *: "decode_rest y (''-'' @ pad 2 m @ ''-'' @ pad 2 d @ ''T'' @ pad 2 (ms div 3600000)
         @ '':'' @ pad 2 (ms div 60000 mod 60) @ '':'' @ pad 2 (ms div 1000 mod 60)
         @ ''.'' @ pad 3 (ms mod 1000) @ ''Z'')
       = 86400000 * (t div 86400000) + 3600000 * (ms div 3600000) + 60000 * (ms div 60000 mod 60)
         + 1000 * (ms div 1000 mod 60) + ms mod 1000"
    using c(5) by (simp add: decode_rest_def)
  have "ms div 1000 div 60 = ms div 60000" "ms div 60000 div 60 = ms div 3600000"
    by (simp_all add: zdiv_zmult2_eq [symmetric])
  moreover have "ms = 1000 * (ms div 1000) + ms mod 1000"
    "ms div 1000 = 60 * (ms div 1000 div 60) + ms div 1000 mod 60"
    "ms div 60000 = 60 * (ms div 60000 div 60) + ms div 60000 mod 60" by simp_all
  moreover have "t = 86400000 * (t div 86400000) + ms" unfolding assms(2) by simp
  ultimately show ?thesis unfolding * by linarith
qed

lemma iso_decode_toISOString:
  assumes "valid_time t"
  shows "iso_decode (toISOString t) = t"
proof -
  obtain y m d where c: "civil (t div 86400000) = (y, m, d)" by (metis prod_cases3)
  define rest where "rest = ''-'' @ pad 2 m @ ''-'' @ pad 2 d @ ''T'' @ pad 2 (t mod 86400000 div 3600000)
         @ '':'' @ pad 2 (t mod 86400000 div 60000 mod 60) @ '':'' @ pad 2 (t mod 86400000 div 1000 mod 60)
         @ ''.'' @ pad 3 (t mod 86400000 mod 1000) @ ''Z''"
  have r: "decode_rest y rest = t" unfolding rest_def by (rule decode_rest_text [OF c refl])
  have y: "\<bar>y\<bar> < 10 ^ 6" using assms by (intro civil_year [OF c]) (simp add: valid_time_def; linarith)
  have str: "toISOString t = (if 0 \<le> y \<and> y \<le> 9999 then pad 4 y
      else (if y < 0 then CHR ''-'' else CHR ''+'') # pad 6 \<bar>y\<bar>) @ rest"
    unfolding toISOString_def c rest_def Let_def by simp
  show ?thesis
  proof (cases "0 \<le> y \<and> y \<le> 9999")
    case True
    then have "unpad (pad 4 y) = y" by (simp add: unpad_pad)
    then show ?thesis using True r hd_pad [of 4 y rest] unfolding str by (simp add: iso_decode_def)
  next
    case False
    have "unpad (pad 6 \<bar>y\<bar>) = \<bar>y\<bar>" using y by (simp add: unpad_pad)
    then show ?thesis using False r unfolding str by (auto simp: iso_decode_def)
  qed
qed

lemma iso_parse_toISOString [simp]: "valid_time t \<Longrightarrow> iso_parse (toISOString t) = Some t"
  by (simp add: iso_parse_def iso_decode_toISOString)

lemma toISOString_inj: "valid_time t \<Longrightarrow> valid_time u \<Longrightarrow> toISOString t = toISOString u \<Longrightarrow> t = u"
  by (metis iso_decode_toISOString)

lemma toISOString_epoch: "toISOString 1798761600000 = ''2027-01-01T00:00:00.000Z''"
  by code_simp

lemma iso_parse_Nil [simp]: "iso_parse [] = None"
  by code_simp

end
