(* ===== verification/Policy_Catalog.thy ===== *)
theory Policy_Catalog
  imports Policy_Dsl Iso_Date Interleaving Text_Format
begin

text \<open>
  The policy catalog: one record per policy entity of \<open>src/src/database/entities\<close>, the
  state \<open>policy_db\<close> with a table each, and the applicability resolver of
  \<open>src/src/policy/policy-applicability-resolver.service.ts\<close>.

  The reasons of a refusal are the texts the source builds. Tables that nothing in the
  service writes (jurisdictions, sources, applicability, cases) are read in one step with
  the query that follows; the resolver is two steps, the freshness of the sources and the
  choice of versions, between which other requests may commit. The advisory research
  request that a refusal also enqueues is left out: its errors are swallowed and it writes
  tables of its own.
\<close>

section \<open>Rows\<close>

datatype JurisdictionCoverageStatus = COVERED | PARTIAL | NOT_COVERED

datatype PolicyReleaseStatus = DRAFT | PROPOSED | RELEASED | SUPERSEDED | WITHDRAWN | CORRECTED

datatype PolicySourceRetrievalMode = SYNTHETIC | MANUAL | CONNECTOR

datatype LoanType = CONVENTIONAL | FHA | VA | JUMBO

datatype PolicyResolutionStatus = RESOLVED | REVIEW_REQUIRED

datatype PolicyChangeImpactKind = NO_IMPACT | REQUIRES_REEVALUATION | AMBIGUOUS

record Jurisdiction =
  jur_code :: string
  jur_parentCode :: "string option"
  jur_coverageStatus :: JurisdictionCoverageStatus

record PolicySource =
  src_id :: uuid
  src_name :: string
  src_jurisdictionCode :: string
  src_retrievalMode :: PolicySourceRetrievalMode
  src_freshnessObjectiveHours :: int

record PolicySourceRevision =
  rev_id :: uuid
  rev_policySourceId :: uuid
  rev_checksum :: string
  rev_publishedAt :: timestamp
  rev_recordedAt :: timestamp
  rev_content :: json

record PolicyVersion =
  ver_id :: uuid
  ver_ruleId :: string
  ver_version :: string
  ver_sourceRevisionId :: uuid
  ver_dsl :: json
  ver_effectiveFrom :: timestamp
  ver_effectiveTo :: "timestamp option"
  ver_releaseStatus :: PolicyReleaseStatus

record PolicyApplicability =
  apl_id :: uuid
  apl_policyVersionId :: uuid
  apl_jurisdictionCode :: string
  apl_productCode :: string
  apl_lifecycleEvent :: string
  apl_transitionRule :: "string option"

record PolicyTransitionApproval =
  pta_id :: uuid
  pta_policyVersionId :: uuid
  pta_proposedBy :: string
  pta_proposedAt :: timestamp
  pta_approvedBy :: "string option"
  pta_approvedAt :: "timestamp option"
  pta_notes :: "string option"

record snapshot_version =
  sv_policyVersionId :: uuid
  sv_ruleId :: string
  sv_version :: string
  sv_rule :: PolicyRuleDocument
  sv_effectiveFrom :: string
  sv_effectiveTo :: "string option"

record CasePolicySnapshot =
  snp_id :: uuid
  snp_tenantId :: uuid
  snp_caseId :: uuid
  snp_resolvedAt :: timestamp
  snp_contextHash :: string
  snp_resolverVersion :: string
  snp_resolutionStatus :: PolicyResolutionStatus
  snp_versions :: "snapshot_version list"
  snp_unresolvedReasons :: "string list"

record CasePolicyBinding =
  bnd_id :: uuid
  bnd_tenantId :: uuid
  bnd_caseId :: uuid
  bnd_dependencyDigest :: string
  bnd_observedCatalogGeneration :: int
  bnd_contextKey :: string
  bnd_policySnapshotId :: uuid
  bnd_boundAt :: timestamp
  bnd_revalidateAfter :: timestamp
  bnd_invalidatedAt :: "timestamp option"

record PolicyChangeImpactAssessment =
  pia_id :: uuid
  pia_policyVersionId :: uuid
  pia_tenantId :: uuid
  pia_caseId :: uuid
  pia_priorPolicyBindingId :: "uuid option"
  pia_impact :: PolicyChangeImpactKind
  pia_details :: string

record LoanCase =
  lc_id :: uuid
  lc_tenantId :: uuid
  lc_jurisdictionCode :: string
  lc_loanType :: LoanType
  lc_createdAt :: timestamp

record policy_audit =
  pau_actorId :: string
  pau_action :: string
  pau_resourceId :: uuid
  pau_generation :: int
  pau_assessmentCount :: nat

record policy_db =
  pol_jurisdictions :: "Jurisdiction table"
  pol_sources :: "PolicySource table"
  pol_revisions :: "PolicySourceRevision table"
  pol_versions :: "PolicyVersion table"
  pol_applicability :: "PolicyApplicability table"
  pol_approvals :: "PolicyTransitionApproval table"
  pol_generation :: int
  pol_snapshots :: "CasePolicySnapshot table"
  pol_bindings :: "CasePolicyBinding table"
  pol_assessments :: "PolicyChangeImpactAssessment table"
  pol_cases :: "LoanCase table"
  pol_audit :: "policy_audit list"

text \<open>What a step reads besides the database: the clock and a generated id.\<close>

record policy_input =
  inp_now :: timestamp
  inp_id :: uuid

datatype policy_error =
    EntityNotFound string
  | PolicyDslValidationError "PolicyDslIssue list"
  | CannotActivate uuid PolicyReleaseStatus
  | NoApprovedTransition uuid
  | CannotWithdraw uuid PolicyReleaseStatus
  | CannotPropose uuid PolicyReleaseStatus
  | NoPendingProposal uuid
  | SelfApproval
  | UniqueViolation
  | NumericOutOfRange
  | ValueTooLong

type_synonym 'a policy_prog = "(policy_input, policy_db, policy_error, 'a) prog"

section \<open>Resolution requests and results\<close>

record PolicyResolutionContext =
  ctx_jurisdictionCode :: string
  ctx_productCode :: string
  ctx_lifecycleEvent :: string
  ctx_asOf :: timestamp
  ctx_applicationReceivedAt :: "timestamp option"

record ResolvedPolicyVersionRef =
  rv_policyVersionId :: uuid
  rv_ruleId :: string
  rv_version :: string
  rv_rule :: PolicyRuleDocument
  rv_effectiveFrom :: timestamp
  rv_effectiveTo :: "timestamp option"

record PolicyResolutionResult =
  res_status :: PolicyResolutionStatus
  res_versions :: "ResolvedPolicyVersionRef list"
  res_unresolvedReasons :: "string list"
  res_revalidateAfter :: "timestamp option"

definition review_required :: "string list \<Rightarrow> PolicyResolutionResult" where
  "review_required reasons =
     \<lparr>res_status = REVIEW_REQUIRED, res_versions = [], res_unresolvedReasons = reasons,
      res_revalidateAfter = None\<rparr>"

section \<open>Ancestry of a jurisdiction\<close>

definition find_jurisdiction :: "Jurisdiction table \<Rightarrow> string \<Rightarrow> Jurisdiction option" where
  "find_jurisdiction js c = List.find (\<lambda>j. jur_code j = c) js"

text \<open>The loop of \<open>loadCoveredAncestry\<close>: \<open>while (nextCode)\<close> stops at null and at the empty code.\<close>

function ancestry_loop ::
  "Jurisdiction table \<Rightarrow> string list \<Rightarrow> string option \<Rightarrow> Jurisdiction list \<Rightarrow> string + Jurisdiction list" where
  "ancestry_loop js visited nextCode ancestry =
     (case nextCode of
        None \<Rightarrow> Inr ancestry
      | Some c \<Rightarrow>
          if c = [] then Inr ancestry
          else if c \<in> set visited
          then Inl (''jurisdiction ancestry contains a cycle at '' @ quoted c)
          else
            (case find_jurisdiction js c of
               None \<Rightarrow> Inl (''jurisdiction ancestry references unknown code '' @ quoted c)
             | Some j \<Rightarrow>
                 if jur_coverageStatus j \<noteq> COVERED
                 then Inl (''jurisdiction '' @ quoted c @ '' does not have reviewed COVERED status'')
                 else ancestry_loop js (c # visited) (jur_parentCode j) (ancestry @ [j])))"
  by pat_completeness auto

lemma find_jurisdictionD:
  "find_jurisdiction js c = Some j \<Longrightarrow> j \<in> set js \<and> jur_code j = c"
  unfolding find_jurisdiction_def by (drule find_SomeD) simp

termination ancestry_loop
proof (relation "measure (\<lambda>(js, visited, _, _). card (jur_code ` set js - set visited))")
  fix js visited nextCode ancestry c j
  assume "(c :: string) \<notin> set visited" "find_jurisdiction js c = Some j"
  then have "c \<in> jur_code ` set js - set visited"
    using find_jurisdictionD by force
  then have "jur_code ` set js - set (c # visited) \<subset> jur_code ` set js - set visited" by auto
  then have "card (jur_code ` set js - set (c # visited)) < card (jur_code ` set js - set visited)"
    by (rule psubset_card_mono [rotated]) simp
  then show "((js, c # visited, jur_parentCode j, ancestry @ [j]), js, visited, nextCode, ancestry)
      \<in> measure (\<lambda>(js, visited, _, _). card (jur_code ` set js - set visited))"
    by simp
qed simp

declare ancestry_loop.simps [simp del]

definition loadCoveredAncestry :: "policy_db \<Rightarrow> string \<Rightarrow> string + Jurisdiction list" where
  "loadCoveredAncestry db leafCode = ancestry_loop (pol_jurisdictions db) [] (Some leafCode) []"

section \<open>Freshness of the sources\<close>

definition latest_revision :: "policy_db \<Rightarrow> uuid \<Rightarrow> PolicySourceRevision option" where
  "latest_revision db sid = latest_by rev_recordedAt (\<lambda>r. rev_policySourceId r = sid) (pol_revisions db)"

definition source_deadline :: "PolicySource \<Rightarrow> PolicySourceRevision \<Rightarrow> timestamp" where
  "source_deadline s r = rev_recordedAt r + src_freshnessObjectiveHours s * 60 * 60 * 1000"

definition check_source ::
  "policy_db \<Rightarrow> timestamp \<Rightarrow> PolicySource \<Rightarrow> timestamp option \<times> string list \<Rightarrow> timestamp option \<times> string list" where
  "check_source db now s acc =
     (case acc of (earliest, reasons) \<Rightarrow>
       (case latest_revision db (src_id s) of
          None \<Rightarrow> (earliest, reasons @ [''policy source '' @ quoted (src_name s) @ '' has no recorded revision''])
        | Some r \<Rightarrow>
            if src_freshnessObjectiveHours s \<le> 0
            then (earliest, reasons @ [''policy source '' @ quoted (src_name s) @ '' has an invalid freshness objective''])
            else if source_deadline s r \<le> now
            then (earliest, reasons @ [''policy source '' @ quoted (src_name s)
                    @ '' exceeded its freshness objective at '' @ toISOString (source_deadline s r)])
            else (case earliest of
                    None \<Rightarrow> (Some (source_deadline s r), reasons)
                  | Some e \<Rightarrow> (Some (if source_deadline s r < e then source_deadline s r else e), reasons))))"

definition sources_of :: "policy_db \<Rightarrow> string list \<Rightarrow> PolicySource list" where
  "sources_of db codes = filter (\<lambda>s. src_jurisdictionCode s \<in> set codes) (pol_sources db)"

definition uncovered_codes :: "policy_db \<Rightarrow> string list \<Rightarrow> string list" where
  "uncovered_codes db codes =
     filter (\<lambda>c. \<not> list_ex (\<lambda>s. src_jurisdictionCode s = c) (sources_of db codes)) codes"

definition validateSourceFreshness ::
  "policy_db \<Rightarrow> string list \<Rightarrow> timestamp \<Rightarrow> timestamp option \<times> string list" where
  "validateSourceFreshness db codes now =
     (let missing = map (\<lambda>c. ''jurisdiction '' @ quoted c @ '' has no registered policy source'')
                        (uncovered_codes db codes)
      in if sources_of db codes = [] then (None, missing)
         else fold (check_source db now) (sources_of db codes) (None, missing))"

section \<open>Choice of versions\<close>

definition received_rule :: string where
  "received_rule = ''application_received_on_or_after_effective_date''"

definition as_of_rule :: string where
  "as_of_rule = ''evaluation_as_of_effective_date''"

definition resolveApplicabilityInstant ::
  "PolicyApplicability \<Rightarrow> PolicyResolutionContext \<Rightarrow> string + timestamp" where
  "resolveApplicabilityInstant a ctx =
     (case apl_transitionRule a of
        None \<Rightarrow> Inr (ctx_asOf ctx)
      | Some tr \<Rightarrow>
          if tr = [] then Inr (ctx_asOf ctx)
          else if tr = received_rule
          then (case ctx_applicationReceivedAt ctx of
                  None \<Rightarrow> Inl (''policy applicability '' @ quoted (apl_id a)
                                @ '' requires the original application receipt time'')
                | Some t \<Rightarrow> Inr t)
          else if tr = as_of_rule then Inr (ctx_asOf ctx)
          else Inl (''policy applicability '' @ quoted (apl_id a)
                    @ '' uses unsupported transition rule '' @ quoted tr))"

definition find_version :: "policy_db \<Rightarrow> uuid \<Rightarrow> PolicyVersion option" where
  "find_version db vid = List.find (\<lambda>v. ver_id v = vid) (pol_versions db)"

record scan_state =
  sc_candidates :: "(string \<times> PolicyVersion list) list"
  sc_boundaries :: "timestamp list"
  sc_reasons :: "string list"

fun add_candidate :: "PolicyVersion \<Rightarrow> (string \<times> PolicyVersion list) list \<Rightarrow> (string \<times> PolicyVersion list) list" where
  "add_candidate v [] = [(ver_ruleId v, [v])]"
| "add_candidate v ((r, vs) # bs) =
     (if r = ver_ruleId v then (r, vs @ [v]) # bs else (r, vs) # add_candidate v bs)"

text \<open>One round of the loop over the applicability rows; \<open>continue\<close> leaves the state.\<close>

definition scan_row ::
  "policy_db \<Rightarrow> PolicyResolutionContext \<Rightarrow> PolicyApplicability \<Rightarrow> scan_state \<Rightarrow> scan_state" where
  "scan_row db ctx a st =
     (case find_version db (apl_policyVersionId a) of
        None \<Rightarrow> st
      | Some v \<Rightarrow>
          if ver_releaseStatus v \<noteq> RELEASED then st
          else (case resolveApplicabilityInstant a ctx of
             Inl reason \<Rightarrow> st\<lparr>sc_reasons := sc_reasons st @ [reason]\<rparr>
           | Inr instant \<Rightarrow>
               let dated = (\<lambda>t st. if apl_transitionRule a \<noteq> Some received_rule
                                  then st\<lparr>sc_boundaries := sc_boundaries st @ [t]\<rparr> else st)
               in if instant < ver_effectiveFrom v then dated (ver_effectiveFrom v) st
                  else (case ver_effectiveTo v of
                     None \<Rightarrow> st\<lparr>sc_candidates := add_candidate v (sc_candidates st)\<rparr>
                   | Some e \<Rightarrow>
                       if e \<le> instant then st
                       else (let st' = dated e st
                             in st'\<lparr>sc_candidates := add_candidate v (sc_candidates st')\<rparr>))))"

definition applicability_rows :: "policy_db \<Rightarrow> string list \<Rightarrow> PolicyResolutionContext \<Rightarrow> PolicyApplicability list" where
  "applicability_rows db codes ctx =
     filter (\<lambda>a. apl_jurisdictionCode a \<in> set codes \<and> apl_productCode a = ctx_productCode ctx
                 \<and> apl_lifecycleEvent a = ctx_lifecycleEvent ctx) (pol_applicability db)"

definition scan :: "policy_db \<Rightarrow> string list \<Rightarrow> PolicyResolutionContext \<Rightarrow> scan_state" where
  "scan db codes ctx =
     fold (scan_row db ctx) (applicability_rows db codes ctx)
       \<lparr>sc_candidates = [], sc_boundaries = [], sc_reasons = []\<rparr>"

definition version_ref :: "PolicyRuleDocument \<Rightarrow> PolicyVersion \<Rightarrow> ResolvedPolicyVersionRef" where
  "version_ref rule v =
     \<lparr>rv_policyVersionId = ver_id v, rv_ruleId = ver_ruleId v, rv_version = ver_version v, rv_rule = rule,
      rv_effectiveFrom = ver_effectiveFrom v, rv_effectiveTo = ver_effectiveTo v\<rparr>"

definition overlap_reason :: "PolicyResolutionContext \<Rightarrow> string \<Rightarrow> nat \<Rightarrow> string" where
  "overlap_reason ctx ruleId n =
     ''rule '' @ quoted ruleId @ '' has '' @ nat_text n
     @ '' overlapping released versions effective as of '' @ toISOString (ctx_asOf ctx)"

fun pick_versions ::
  "(string \<Rightarrow> timestamp option) \<Rightarrow> PolicyResolutionContext \<Rightarrow> (string \<times> PolicyVersion list) list
     \<Rightarrow> ResolvedPolicyVersionRef list \<times> string list \<Rightarrow> PolicyDslIssue list + ResolvedPolicyVersionRef list \<times> string list" where
  "pick_versions date_parse ctx [] acc = Inr acc"
| "pick_versions date_parse ctx ((ruleId, cs) # bs) acc =
     (if 1 < length cs
      then pick_versions date_parse ctx bs (fst acc, snd acc @ [overlap_reason ctx ruleId (length cs)])
      else (case parsePolicyRule date_parse (ver_dsl (hd cs)) of
              Inl issues \<Rightarrow> Inl issues
            | Inr rule \<Rightarrow> pick_versions date_parse ctx bs (fst acc @ [version_ref rule (hd cs)], snd acc)))"

definition earliest :: "timestamp list \<Rightarrow> timestamp option" where
  "earliest ts = (case sort ts of [] \<Rightarrow> None | t # _ \<Rightarrow> Some t)"

section \<open>The resolver\<close>

definition resolve_sources ::
  "timestamp \<Rightarrow> policy_db \<Rightarrow> PolicyResolutionContext \<Rightarrow> string list + string list \<times> timestamp option" where
  "resolve_sources now db ctx =
     (case loadCoveredAncestry db (ctx_jurisdictionCode ctx) of
        Inl reason \<Rightarrow> Inl [reason]
      | Inr ancestry \<Rightarrow>
          (case validateSourceFreshness db (map jur_code ancestry) now of
             (deadline, reasons) \<Rightarrow>
               if reasons \<noteq> [] then Inl reasons else Inr (map jur_code ancestry, deadline)))"

definition resolve_versions ::
  "(string \<Rightarrow> timestamp option) \<Rightarrow> policy_db \<Rightarrow> PolicyResolutionContext \<Rightarrow> string list \<Rightarrow> timestamp option
     \<Rightarrow> PolicyDslIssue list + PolicyResolutionResult" where
  "resolve_versions date_parse db ctx codes deadline =
     (let st = scan db codes ctx
      in (case pick_versions date_parse ctx (sc_candidates st) ([], sc_reasons st) of
            Inl issues \<Rightarrow> Inl issues
          | Inr (versions, reasons) \<Rightarrow>
              if reasons \<noteq> [] then Inr (review_required reasons)
              else Inr \<lparr>res_status = RESOLVED, res_versions = versions, res_unresolvedReasons = [],
                        res_revalidateAfter =
                          earliest ((case deadline of None \<Rightarrow> [] | Some d \<Rightarrow> [d]) @ sc_boundaries st)\<rparr>))"

definition resolve ::
  "(string \<Rightarrow> timestamp option) \<Rightarrow> PolicyResolutionContext \<Rightarrow> PolicyResolutionResult policy_prog" where
  "resolve date_parse ctx =
     pbind (query (\<lambda>i db. resolve_sources (inp_now i) db ctx)) (\<lambda>r.
       case r of
         Inl reasons \<Rightarrow> preturn (review_required reasons)
       | Inr (codes, deadline) \<Rightarrow>
           act (\<lambda>_ db. (case resolve_versions date_parse db ctx codes deadline of
                          Inl issues \<Rightarrow> Inl (PolicyDslValidationError issues)
                        | Inr res \<Rightarrow> Inr res, db)))"

text \<open>What the resolver answers when nothing changes meanwhile.\<close>

definition resolution_at ::
  "(string \<Rightarrow> timestamp option) \<Rightarrow> policy_db \<Rightarrow> timestamp \<Rightarrow> PolicyResolutionContext
     \<Rightarrow> PolicyDslIssue list + PolicyResolutionResult" where
  "resolution_at date_parse db now ctx =
     (case resolve_sources now db ctx of
        Inl reasons \<Rightarrow> Inr (review_required reasons)
      | Inr (codes, deadline) \<Rightarrow> resolve_versions date_parse db ctx codes deadline)"

end
