(* ===== verification/Policy_Service.thy ===== *)
theory Policy_Service
  imports Policy_Catalog
begin

text \<open>
  The operations on the policy catalog as handlers of awaited steps: release of a version
  (\<open>policy-transition-approval.service.ts\<close>, \<open>policy-activation.service.ts\<close>), the
  impact assessment it triggers (\<open>policy-change-impact.service.ts\<close>), the evaluation of
  a case with its reuse of bindings (\<open>policy-evaluation.service.ts\<close>) and the monitor of
  the sources (\<open>policy-source-monitor.service.ts\<close>). Inside \<open>runInTenantContext\<close> only
  the rows of the tenant are seen. \<open>Date.parse\<close>, SHA-256 and the connectors are
  parameters; telemetry and logging are left out.
\<close>

section \<open>Shared queries\<close>

definition version_or_fail :: "uuid \<Rightarrow> PolicyVersion policy_prog" where
  "version_or_fail vid = act (\<lambda>_ db. (or_throw (find_version db vid) (EntityNotFound ''PolicyVersion''), db))"

definition find_active_binding :: "policy_db \<Rightarrow> uuid \<Rightarrow> uuid \<Rightarrow> CasePolicyBinding option" where
  "find_active_binding db tenantId caseId =
     latest_by bnd_boundAt (\<lambda>b. bnd_tenantId b = tenantId \<and> bnd_caseId b = caseId \<and> bnd_invalidatedAt b = None)
       (pol_bindings db)"

definition find_snapshot :: "policy_db \<Rightarrow> uuid \<Rightarrow> uuid \<Rightarrow> CasePolicySnapshot option" where
  "find_snapshot db tenantId sid = List.find (\<lambda>s. snp_id s = sid \<and> snp_tenantId s = tenantId) (pol_snapshots db)"

definition set_status :: "uuid \<Rightarrow> PolicyReleaseStatus \<Rightarrow> policy_db \<Rightarrow> policy_db" where
  "set_status vid st db =
     db\<lparr>pol_versions := update_where (\<lambda>v. ver_id v = vid) (\<lambda>v. v\<lparr>ver_releaseStatus := st\<rparr>) (pol_versions db)\<rparr>"

section \<open>Proposal and approval of a release\<close>

definition insert_approval :: "PolicyTransitionApproval \<Rightarrow> (policy_db, policy_error, PolicyTransitionApproval) txn" where
  "insert_approval a db =
     (if pta_id a \<in> pta_id ` set (pol_approvals db) then Inl UniqueViolation
      else Inr (a, db\<lparr>pol_approvals := pol_approvals db @ [a]\<rparr>))"

definition propose_version :: "uuid \<Rightarrow> string \<Rightarrow> string option \<Rightarrow> PolicyTransitionApproval policy_prog" where
  "propose_version policyVersionId proposedBy notes =
     pbind (version_or_fail policyVersionId) (\<lambda>version.
       if ver_releaseStatus version \<noteq> DRAFT
       then pthrow (CannotPropose policyVersionId (ver_releaseStatus version))
       else pbind (act (\<lambda>_ db. (Inr (), set_status policyVersionId PROPOSED db))) (\<lambda>_.
         act (\<lambda>i. run_txn (insert_approval
           \<lparr>pta_id = inp_id i, pta_policyVersionId = policyVersionId, pta_proposedBy = proposedBy,
            pta_proposedAt = inp_now i, pta_approvedBy = None, pta_approvedAt = None, pta_notes = notes\<rparr>))))"

definition pending_proposal :: "policy_db \<Rightarrow> uuid \<Rightarrow> PolicyTransitionApproval option" where
  "pending_proposal db vid =
     latest_by pta_proposedAt (\<lambda>a. pta_policyVersionId a = vid \<and> pta_approvedAt a = None) (pol_approvals db)"

definition approve_version :: "uuid \<Rightarrow> string \<Rightarrow> PolicyTransitionApproval policy_prog" where
  "approve_version policyVersionId approvedBy =
     pbind (query (\<lambda>_ db. pending_proposal db policyVersionId)) (\<lambda>pending.
       case pending of
         None \<Rightarrow> pthrow (NoPendingProposal policyVersionId)
       | Some p \<Rightarrow>
           if pta_proposedBy p = approvedBy then pthrow SelfApproval
           else pbind (act (\<lambda>i db. (Inr (), db\<lparr>pol_approvals :=
                  update_where (\<lambda>a. pta_id a = pta_id p)
                    (\<lambda>a. a\<lparr>pta_approvedBy := Some approvedBy, pta_approvedAt := Some (inp_now i)\<rparr>)
                    (pol_approvals db)\<rparr>))) (\<lambda>_.
             act (\<lambda>_ db. (or_throw (List.find (\<lambda>a. pta_id a = pta_id p) (pol_approvals db))
                            (EntityNotFound ''PolicyTransitionApproval''), db))))"

definition hasApprovedTransition :: "policy_db \<Rightarrow> uuid \<Rightarrow> bool" where
  "hasApprovedTransition db vid =
     (case latest_by pta_proposedAt (\<lambda>a. pta_policyVersionId a = vid) (pol_approvals db) of
        None \<Rightarrow> False
      | Some a \<Rightarrow> pta_approvedAt a \<noteq> None \<and> pta_approvedBy a \<noteq> None)"

section \<open>Impact of a change\<close>

definition loanTypeToProductCode :: "LoanType \<Rightarrow> string" where
  "loanTypeToProductCode t =
     (case t of
        CONVENTIONAL \<Rightarrow> ''CONVENTIONAL_MORTGAGE''
      | FHA \<Rightarrow> ''FHA_MORTGAGE''
      | VA \<Rightarrow> ''VA_MORTGAGE''
      | JUMBO \<Rightarrow> ''JUMBO_MORTGAGE'')"

text \<open>The elements of a \<open>Set\<close> built from a list, in insertion order.\<close>

definition js_set :: "'a list \<Rightarrow> 'a list" where
  "js_set xs = rev (remdups (rev xs))"

definition classifyImpact :: "CasePolicySnapshot \<Rightarrow> PolicyResolutionResult \<Rightarrow> PolicyChangeImpactKind \<times> string" where
  "classifyImpact prior dryRun =
     (if res_status dryRun = REVIEW_REQUIRED
      then (AMBIGUOUS, let d = join ''; '' (res_unresolvedReasons dryRun)
                       in if d = [] then ''policy resolution unresolved'' else d)
      else
        let priorIds = js_set (map sv_policyVersionId (snp_versions prior));
            newIds = js_set (map rv_policyVersionId (res_versions dryRun))
        in if length priorIds = length newIds \<and> list_all (\<lambda>i. i \<in> set newIds) priorIds
           then (NO_IMPACT, ''resolved policy version set is unchanged for this case'')
           else (REQUIRES_REEVALUATION, ''resolved policy version set changed from ['' @ join '', '' priorIds
                   @ ''] to ['' @ join '', '' newIds @ '']''))"

definition insert_assessment :: "PolicyChangeImpactAssessment \<Rightarrow> (policy_db, policy_error, PolicyChangeImpactAssessment) txn" where
  "insert_assessment a db =
     (if pia_id a \<in> pia_id ` set (pol_assessments db) then Inl UniqueViolation
      else Inr (a, db\<lparr>pol_assessments := pol_assessments db @ [a]\<rparr>))"

definition assessOneCase ::
  "(string \<Rightarrow> timestamp option) \<Rightarrow> uuid \<Rightarrow> string \<Rightarrow> string \<Rightarrow> string \<Rightarrow> LoanCase
     \<Rightarrow> PolicyChangeImpactAssessment option policy_prog" where
  "assessOneCase date_parse vid jurisdictionCode productCode lifecycleEvent c =
     pbind (query (\<lambda>_ db. find_active_binding db (lc_tenantId c) (lc_id c))) (\<lambda>active.
       case active of
         None \<Rightarrow> preturn None
       | Some b \<Rightarrow>
           pbind (act (\<lambda>i db. (and_then (or_throw (find_snapshot db (lc_tenantId c) (bnd_policySnapshotId b))
                                  (EntityNotFound ''CasePolicySnapshot'')) (\<lambda>s. Inr (inp_now i, s)), db)))
             (\<lambda>(now, prior).
           pbind (resolve date_parse
                    \<lparr>ctx_jurisdictionCode = jurisdictionCode, ctx_productCode = productCode,
                     ctx_lifecycleEvent = lifecycleEvent, ctx_asOf = now,
                     ctx_applicationReceivedAt = Some (lc_createdAt c)\<rparr>) (\<lambda>dryRun.
           pbind (act (\<lambda>i. run_txn (insert_assessment
              \<lparr>pia_id = inp_id i, pia_policyVersionId = vid, pia_tenantId = lc_tenantId c, pia_caseId = lc_id c,
               pia_priorPolicyBindingId = Some (bnd_id b), pia_impact = fst (classifyImpact prior dryRun),
               pia_details = snd (classifyImpact prior dryRun)\<rparr>))) (\<lambda>a. preturn (Some a)))))"

definition triple_key :: "PolicyApplicability \<Rightarrow> string" where
  "triple_key a = apl_jurisdictionCode a @ ''|'' @ apl_productCode a @ ''|'' @ apl_lifecycleEvent a"

fun unseen_triples :: "string list \<Rightarrow> PolicyApplicability list \<Rightarrow> PolicyApplicability list" where
  "unseen_triples seen [] = []"
| "unseen_triples seen (a # as) =
     (if triple_key a \<in> set seen then unseen_triples seen as
      else a # unseen_triples (triple_key a # seen) as)"

definition affected_cases :: "policy_db \<Rightarrow> PolicyApplicability \<Rightarrow> LoanCase list" where
  "affected_cases db a =
     filter (\<lambda>c. lc_jurisdictionCode c = apl_jurisdictionCode a
                 \<and> loanTypeToProductCode (lc_loanType c) = apl_productCode a) (pol_cases db)"

definition assessImpact ::
  "(string \<Rightarrow> timestamp option) \<Rightarrow> uuid \<Rightarrow> PolicyChangeImpactAssessment list policy_prog" where
  "assessImpact date_parse vid =
     pbind (query (\<lambda>_ db. unseen_triples [] (filter (\<lambda>a. apl_policyVersionId a = vid) (pol_applicability db)))) (\<lambda>rows.
     pbind (pmap_list (\<lambda>a.
              pbind (query (\<lambda>_ db. affected_cases db a)) (\<lambda>cs.
                pmap_list (assessOneCase date_parse vid (apl_jurisdictionCode a) (apl_productCode a)
                             (apl_lifecycleEvent a)) cs)) rows) (\<lambda>found.
       preturn (List.map_filter id (concat found))))"

definition UNDERWRITING_REVIEW_LIFECYCLE_EVENT :: string where
  "UNDERWRITING_REVIEW_LIFECYCLE_EVENT = ''UNDERWRITING_REVIEW''"

definition assessImpactForCase ::
  "(string \<Rightarrow> timestamp option) \<Rightarrow> uuid \<Rightarrow> uuid \<Rightarrow> uuid \<Rightarrow> PolicyChangeImpactAssessment option policy_prog" where
  "assessImpactForCase date_parse tenantId caseId vid =
     pbind (act (\<lambda>_ db. (or_throw (List.find (\<lambda>c. lc_id c = caseId \<and> lc_tenantId c = tenantId) (pol_cases db))
                           (EntityNotFound ''LoanCase''), db))) (\<lambda>c.
       assessOneCase date_parse vid (lc_jurisdictionCode c) (loanTypeToProductCode (lc_loanType c))
         UNDERWRITING_REVIEW_LIFECYCLE_EVENT c)"

section \<open>Activation and withdrawal\<close>

record PolicyActivationResult =
  par_policyVersionId :: uuid
  par_generation :: int
  par_assessments :: "PolicyChangeImpactAssessment list"

definition bumpCatalogGeneration :: "(policy_db, policy_error, int) txn" where
  "bumpCatalogGeneration db =
     (if fits_int4 (pol_generation db + 1)
      then Inr (pol_generation db + 1, db\<lparr>pol_generation := pol_generation db + 1\<rparr>)
      else Inl NumericOutOfRange)"

definition change_txn :: "uuid \<Rightarrow> PolicyReleaseStatus \<Rightarrow> (policy_db, policy_error, int) txn" where
  "change_txn vid st db = bumpCatalogGeneration (set_status vid st db)"

definition record_change :: "string \<Rightarrow> string \<Rightarrow> PolicyActivationResult \<Rightarrow> PolicyActivationResult policy_prog" where
  "record_change actorId action res =
     act (\<lambda>_ db. (Inr res, db\<lparr>pol_audit := pol_audit db @
       [\<lparr>pau_actorId = actorId, pau_action = action, pau_resourceId = par_policyVersionId res,
         pau_generation = par_generation res, pau_assessmentCount = length (par_assessments res)\<rparr>]\<rparr>))"

definition change_and_assess ::
  "(string \<Rightarrow> timestamp option) \<Rightarrow> uuid \<Rightarrow> PolicyReleaseStatus \<Rightarrow> string \<Rightarrow> string \<Rightarrow> PolicyActivationResult policy_prog" where
  "change_and_assess date_parse vid st actorId action =
     pbind (act (\<lambda>_. run_txn (change_txn vid st))) (\<lambda>generation.
     pbind (assessImpact date_parse vid) (\<lambda>assessments.
       record_change actorId action
         \<lparr>par_policyVersionId = vid, par_generation = generation, par_assessments = assessments\<rparr>))"

definition activate_version :: "(string \<Rightarrow> timestamp option) \<Rightarrow> uuid \<Rightarrow> string \<Rightarrow> PolicyActivationResult policy_prog" where
  "activate_version date_parse policyVersionId actorId =
     pbind (version_or_fail policyVersionId) (\<lambda>version.
       if ver_releaseStatus version \<noteq> DRAFT \<and> ver_releaseStatus version \<noteq> PROPOSED
       then pthrow (CannotActivate policyVersionId (ver_releaseStatus version))
       else pbind (query (\<lambda>_ db. hasApprovedTransition db policyVersionId)) (\<lambda>approved.
         if \<not> approved then pthrow (NoApprovedTransition policyVersionId)
         else change_and_assess date_parse policyVersionId RELEASED actorId ''POLICY_VERSION_ACTIVATED''))"

definition withdraw_version :: "(string \<Rightarrow> timestamp option) \<Rightarrow> uuid \<Rightarrow> string \<Rightarrow> PolicyActivationResult policy_prog" where
  "withdraw_version date_parse policyVersionId actorId =
     pbind (version_or_fail policyVersionId) (\<lambda>version.
       if ver_releaseStatus version \<noteq> RELEASED
       then pthrow (CannotWithdraw policyVersionId (ver_releaseStatus version))
       else change_and_assess date_parse policyVersionId WITHDRAWN actorId ''POLICY_VERSION_WITHDRAWN'')"

section \<open>Evaluation of a case\<close>

definition RESOLVER_VERSION :: string where
  "RESOLVER_VERSION = ''2.0.0''"

definition MAX_VALIDATION_INTERVAL_MS :: int where
  "MAX_VALIDATION_INTERVAL_MS = 60 * 60 * 1000"

datatype PolicyEvaluationOutcome = REUSED | REFRESHED | OUTCOME_REVIEW_REQUIRED

record PolicyEvaluationResult =
  per_outcome :: PolicyEvaluationOutcome
  per_resolution :: "PolicyResolutionResult option"
  per_snapshot :: CasePolicySnapshot
  per_binding :: "CasePolicyBinding option"

text \<open>The ids are UUIDs in lower case, on which \<open>localeCompare\<close> is the order of characters.\<close>

definition snapshotVersions :: "PolicyResolutionResult \<Rightarrow> snapshot_version list" where
  "snapshotVersions res =
     sort_key sv_policyVersionId
       (map (\<lambda>v. \<lparr>sv_policyVersionId = rv_policyVersionId v, sv_ruleId = rv_ruleId v, sv_version = rv_version v,
                  sv_rule = rv_rule v, sv_effectiveFrom = toISOString (rv_effectiveFrom v),
                  sv_effectiveTo = map_option toISOString (rv_effectiveTo v)\<rparr>) (res_versions res))"

definition contextKey :: "PolicyResolutionContext \<Rightarrow> string" where
  "contextKey ctx =
     ctx_jurisdictionCode ctx @ ''|'' @ ctx_productCode ctx @ ''|'' @ ctx_lifecycleEvent ctx @ ''|''
     @ (case ctx_applicationReceivedAt ctx of None \<Rightarrow> ''UNSPECIFIED'' | Some t \<Rightarrow> toISOString t)"

definition nextRevalidationDeadline :: "timestamp \<Rightarrow> PolicyResolutionResult \<Rightarrow> timestamp" where
  "nextRevalidationDeadline validatedAt res =
     (case res_revalidateAfter res of
        None \<Rightarrow> validatedAt + MAX_VALIDATION_INTERVAL_MS
      | Some t \<Rightarrow> if t < validatedAt + MAX_VALIDATION_INTERVAL_MS then t
                  else validatedAt + MAX_VALIDATION_INTERVAL_MS)"

text \<open>\<open>new Date(text)\<close> of a text that does not parse is an invalid date, here \<open>None\<close>.\<close>

definition reconstructResolution ::
  "(string \<Rightarrow> timestamp option) \<Rightarrow> CasePolicySnapshot \<Rightarrow> PolicyResolutionResult option" where
  "reconstructResolution date_parse snap =
     (let refs = map (\<lambda>v. case date_parse (sv_effectiveFrom v) of
                   None \<Rightarrow> None
                 | Some from \<Rightarrow>
                     (let ref = (\<lambda>to. \<lparr>rv_policyVersionId = sv_policyVersionId v, rv_ruleId = sv_ruleId v,
                                       rv_version = sv_version v, rv_rule = sv_rule v, rv_effectiveFrom = from,
                                       rv_effectiveTo = to\<rparr>)
                      in case sv_effectiveTo v of
                           None \<Rightarrow> Some (ref None)
                         | Some e \<Rightarrow> if e = [] then Some (ref None) else map_option (\<lambda>t. ref (Some t)) (date_parse e)))
               (snp_versions snap)
      in if None \<in> set refs then None
         else Some \<lparr>res_status = snp_resolutionStatus snap, res_versions = map the refs,
                    res_unresolvedReasons = snp_unresolvedReasons snap, res_revalidateAfter = None\<rparr>)"

definition rule_json :: "PolicyRuleDocument \<Rightarrow> json" where
  "rule_json r =
     JObj [(''id'', JStr (rule_id r)), (''version'', JStr (rule_version r)),
           (''applicability'', JObj
             ([(''jurisdictions'', JArr (map JStr (ap_jurisdictions (rule_applicability r)))),
               (''product'', JStr (ap_product (rule_applicability r))),
               (''lifecycleEvents'', JArr (map JStr (ap_lifecycleEvents (rule_applicability r)))),
               (''effectiveFrom'', JStr (ap_effectiveFrom (rule_applicability r)))]
              @ (case ap_transitionRule (rule_applicability r) of
                   None \<Rightarrow> [] | Some t \<Rightarrow> [(''transitionRule'', JStr t)]))),
           (''when'', JObj [(''kind'', JStr ''difference_percent''), (''left'', JStr (cond_left (rule_when r))),
             (''right'', JStr (cond_right (rule_when r))),
             (''greaterThan'', JNum (Num (cond_greaterThan (rule_when r))))]),
           (''outcome'', JObj [(''condition'', JStr (out_condition (rule_outcome r))),
             (''route'', JStr (out_route (rule_outcome r)))])]"

definition snapshot_json :: "snapshot_version \<Rightarrow> json" where
  "snapshot_json v =
     JObj [(''policyVersionId'', JStr (sv_policyVersionId v)), (''ruleId'', JStr (sv_ruleId v)),
           (''version'', JStr (sv_version v)), (''rule'', rule_json (sv_rule v)),
           (''effectiveFrom'', JStr (sv_effectiveFrom v)),
           (''effectiveTo'', case sv_effectiveTo v of None \<Rightarrow> JNull | Some e \<Rightarrow> JStr e)]"

definition status_text :: "PolicyResolutionStatus \<Rightarrow> string" where
  "status_text st = (case st of RESOLVED \<Rightarrow> ''RESOLVED'' | REVIEW_REQUIRED \<Rightarrow> ''REVIEW_REQUIRED'')"

definition resolution_digest :: "(tok list \<Rightarrow> string) \<Rightarrow> PolicyResolutionResult \<Rightarrow> string" where
  "resolution_digest sha256 res =
     computeDigest sha256
       (JObj [(''status'', JStr (status_text (res_status res))),
              (''unresolvedReasons'', JArr (map JStr (sort (res_unresolvedReasons res)))),
              (''versions'', JArr (map snapshot_json (snapshotVersions res)))])"

definition insert_snapshot :: "CasePolicySnapshot \<Rightarrow> (policy_db, policy_error, CasePolicySnapshot) txn" where
  "insert_snapshot s db =
     (if snp_id s \<in> snp_id ` set (pol_snapshots db) then Inl UniqueViolation
      else Inr (s, db\<lparr>pol_snapshots := pol_snapshots db @ [s]\<rparr>))"

definition persistSnapshot ::
  "uuid \<Rightarrow> uuid \<Rightarrow> PolicyResolutionResult \<Rightarrow> string \<Rightarrow> CasePolicySnapshot policy_prog" where
  "persistSnapshot tenantId caseId res digest =
     act (\<lambda>i. run_txn (insert_snapshot
       \<lparr>snp_id = inp_id i, snp_tenantId = tenantId, snp_caseId = caseId, snp_resolvedAt = inp_now i,
        snp_contextHash = digest, snp_resolverVersion = RESOLVER_VERSION,
        snp_resolutionStatus = res_status res, snp_versions = snapshotVersions res,
        snp_unresolvedReasons = res_unresolvedReasons res\<rparr>))"

definition update_bindings ::
  "(CasePolicyBinding \<Rightarrow> bool) \<Rightarrow> (CasePolicyBinding \<Rightarrow> CasePolicyBinding) \<Rightarrow> policy_db \<Rightarrow> policy_db" where
  "update_bindings P f db = db\<lparr>pol_bindings := update_where P f (pol_bindings db)\<rparr>"

definition invalidateActiveBinding :: "uuid \<Rightarrow> uuid \<Rightarrow> unit policy_prog" where
  "invalidateActiveBinding tenantId caseId =
     act (\<lambda>i db. (Inr (), update_bindings
       (\<lambda>b. bnd_tenantId b = tenantId \<and> bnd_caseId b = caseId \<and> bnd_invalidatedAt b = None)
       (\<lambda>b. b\<lparr>bnd_invalidatedAt := Some (inp_now i)\<rparr>) db))"

text \<open>The primary key and the partial unique index on the active bindings of a case.\<close>

definition insert_binding :: "CasePolicyBinding \<Rightarrow> (policy_db, policy_error, CasePolicyBinding) txn" where
  "insert_binding b db =
     (if 300 < length (bnd_contextKey b) then Inl ValueTooLong
      else if bnd_id b \<in> bnd_id ` set (pol_bindings db)
        \<or> (bnd_invalidatedAt b = None \<and> list_ex (\<lambda>c. bnd_tenantId c = bnd_tenantId b \<and> bnd_caseId c = bnd_caseId b
              \<and> bnd_invalidatedAt c = None) (pol_bindings db))
      then Inl UniqueViolation
      else Inr (b, db\<lparr>pol_bindings := pol_bindings db @ [b]\<rparr>))"

text \<open>The reuse without resolving again: nothing was released or withdrawn since, and the deadline lies ahead.\<close>

definition reusable ::
  "string \<Rightarrow> CasePolicyBinding option \<Rightarrow> CasePolicySnapshot option \<Rightarrow> (CasePolicyBinding \<times> CasePolicySnapshot) option" where
  "reusable key existing snap =
     (case (existing, snap) of
        (Some b, Some s) \<Rightarrow>
          if snp_resolverVersion s = RESOLVER_VERSION \<and> bnd_contextKey b = key then Some (b, s) else None
      | _ \<Rightarrow> None)"

definition fast_path ::
  "int \<Rightarrow> timestamp \<Rightarrow> (CasePolicyBinding \<times> CasePolicySnapshot) option \<Rightarrow> (CasePolicyBinding \<times> CasePolicySnapshot) option" where
  "fast_path generation now cand =
     (case cand of
        Some (b, s) \<Rightarrow>
          if bnd_observedCatalogGeneration b = generation \<and> now < bnd_revalidateAfter b then Some (b, s) else None
      | None \<Rightarrow> None)"

definition reused ::
  "(string \<Rightarrow> timestamp option) \<Rightarrow> CasePolicyBinding \<Rightarrow> CasePolicySnapshot \<Rightarrow> PolicyEvaluationResult" where
  "reused date_parse b s =
     \<lparr>per_outcome = REUSED, per_resolution = reconstructResolution date_parse s, per_snapshot = s, per_binding = Some b\<rparr>"

definition recover_winner ::
  "(string \<Rightarrow> timestamp option) \<Rightarrow> uuid \<Rightarrow> uuid \<Rightarrow> PolicyEvaluationResult policy_prog" where
  "recover_winner date_parse tenantId caseId =
     pbind (act (\<lambda>_ db. (or_throw (List.find (\<lambda>b. bnd_tenantId b = tenantId \<and> bnd_caseId b = caseId
                            \<and> bnd_invalidatedAt b = None) (pol_bindings db)) (EntityNotFound ''CasePolicyBinding''), db))) (\<lambda>b.
     pbind (act (\<lambda>_ db. (or_throw (find_snapshot db tenantId (bnd_policySnapshotId b))
                            (EntityNotFound ''CasePolicySnapshot''), db))) (\<lambda>s.
       preturn (reused date_parse b s)))"

definition bind_case ::
  "(string \<Rightarrow> timestamp option) \<Rightarrow> uuid \<Rightarrow> uuid \<Rightarrow> PolicyResolutionContext \<Rightarrow> int \<Rightarrow> timestamp \<Rightarrow> PolicyResolutionResult
     \<Rightarrow> string \<Rightarrow> CasePolicySnapshot \<Rightarrow> PolicyEvaluationResult policy_prog" where
  "bind_case date_parse tenantId caseId ctx generation now res digest snap =
     pcatch
       (pbind (act (\<lambda>i. run_txn (insert_binding
          \<lparr>bnd_id = inp_id i, bnd_tenantId = tenantId, bnd_caseId = caseId, bnd_dependencyDigest = digest,
           bnd_observedCatalogGeneration = generation, bnd_contextKey = contextKey ctx,
           bnd_policySnapshotId = snp_id snap, bnd_boundAt = inp_now i,
           bnd_revalidateAfter = nextRevalidationDeadline now res, bnd_invalidatedAt = None\<rparr>))) (\<lambda>b.
         preturn \<lparr>per_outcome = REFRESHED, per_resolution = Some res, per_snapshot = snap, per_binding = Some b\<rparr>))
       (\<lambda>e. if e = UniqueViolation then recover_winner date_parse tenantId caseId else pthrow e)"

definition refresh_binding ::
  "CasePolicyBinding \<Rightarrow> int \<Rightarrow> timestamp \<Rightarrow> unit policy_prog" where
  "refresh_binding b generation deadline =
     act (\<lambda>_ db. (Inr (), update_bindings (\<lambda>c. bnd_id c = bnd_id b \<and> bnd_tenantId c = bnd_tenantId b)
       (\<lambda>c. c\<lparr>bnd_observedCatalogGeneration := generation, bnd_revalidateAfter := deadline\<rparr>) db))"

definition invalidate_binding :: "CasePolicyBinding \<Rightarrow> timestamp \<Rightarrow> unit policy_prog" where
  "invalidate_binding b now =
     act (\<lambda>_ db. (Inr (), update_bindings (\<lambda>c. bnd_id c = bnd_id b \<and> bnd_tenantId c = bnd_tenantId b)
       (\<lambda>c. c\<lparr>bnd_invalidatedAt := Some now\<rparr>) db))"

definition apply_resolution ::
  "(string \<Rightarrow> timestamp option) \<Rightarrow> (tok list \<Rightarrow> string) \<Rightarrow> uuid \<Rightarrow> uuid \<Rightarrow> PolicyResolutionContext \<Rightarrow> int \<Rightarrow> timestamp
     \<Rightarrow> CasePolicyBinding option \<Rightarrow> CasePolicySnapshot option \<Rightarrow> PolicyResolutionResult \<Rightarrow> PolicyEvaluationResult policy_prog" where
  "apply_resolution date_parse sha256 tenantId caseId ctx generation now existing snap res =
     (let digest = resolution_digest sha256 res
      in if res_status res = REVIEW_REQUIRED
         then pbind (persistSnapshot tenantId caseId res digest) (\<lambda>s.
              pbind (invalidateActiveBinding tenantId caseId) (\<lambda>_.
                preturn \<lparr>per_outcome = OUTCOME_REVIEW_REQUIRED, per_resolution = Some res, per_snapshot = s,
                         per_binding = None\<rparr>))
         else
           case reusable (contextKey ctx) existing snap of
             Some (b, s) \<Rightarrow>
               if bnd_dependencyDigest b = digest
               then pbind (refresh_binding b generation (nextRevalidationDeadline now res)) (\<lambda>_.
                      preturn \<lparr>per_outcome = REUSED, per_resolution = Some res, per_snapshot = s,
                        per_binding = Some (b\<lparr>bnd_observedCatalogGeneration := generation,
                                             bnd_revalidateAfter := nextRevalidationDeadline now res\<rparr>)\<rparr>)
               else pbind (persistSnapshot tenantId caseId res digest) (\<lambda>s'.
                    pbind (invalidate_binding b now) (\<lambda>_.
                      bind_case date_parse tenantId caseId ctx generation now res digest s'))
           | None \<Rightarrow>
               pbind (persistSnapshot tenantId caseId res digest) (\<lambda>s'.
               pbind (case existing of None \<Rightarrow> preturn () | Some b \<Rightarrow> invalidate_binding b now) (\<lambda>_.
                 bind_case date_parse tenantId caseId ctx generation now res digest s')))"

definition evaluateInternal ::
  "(string \<Rightarrow> timestamp option) \<Rightarrow> (tok list \<Rightarrow> string) \<Rightarrow> uuid \<Rightarrow> uuid \<Rightarrow> PolicyResolutionContext
     \<Rightarrow> PolicyEvaluationResult policy_prog" where
  "evaluateInternal date_parse sha256 tenantId caseId ctx =
     pbind (query (\<lambda>_ db. pol_generation db)) (\<lambda>generation.
     pbind (query (\<lambda>_ db. find_active_binding db tenantId caseId)) (\<lambda>existing.
     pbind (act (\<lambda>i db.
       (case existing of
          None \<Rightarrow> Inr (inp_now i, None)
        | Some b \<Rightarrow> and_then (or_throw (find_snapshot db tenantId (bnd_policySnapshotId b))
                                (EntityNotFound ''CasePolicySnapshot'')) (\<lambda>s. Inr (inp_now i, Some s)), db)))
       (\<lambda>(now, snap).
     case fast_path generation now (reusable (contextKey ctx) existing snap) of
       Some (b, s) \<Rightarrow> preturn (reused date_parse b s)
     | None \<Rightarrow>
         pbind (resolve date_parse ctx)
           (apply_resolution date_parse sha256 tenantId caseId ctx generation now existing snap))))"

section \<open>Source monitoring\<close>

record PolicySourceConnectorUpdate =
  upd_checksum :: string
  upd_publishedAt :: timestamp
  upd_content :: json

text \<open>A connector throws an error text or says whether there is something new.\<close>

record PolicySourceConnector =
  con_sourceId :: uuid
  con_checkForUpdate :: "string option \<Rightarrow> string + bool \<times> PolicySourceConnectorUpdate option"

datatype PolicySourceCheckOutcome = no_change | new_revision | schema_drift | check_error

definition detectSchemaDrift :: "json \<Rightarrow> string list" where
  "detectSchemaDrift content =
     (case content of
        JObj ms \<Rightarrow>
          (case map_of ms ''summary'' of
             Some (JStr (c # cs)) \<Rightarrow> []
           | _ \<Rightarrow> [''content.summary is missing or not a non-empty string''])
      | JArr vs \<Rightarrow> [''content.summary is missing or not a non-empty string'']
      | _ \<Rightarrow> [''content is not an object''])"

definition demo_checkForUpdate ::
  "(string + PolicySourceConnectorUpdate) \<Rightarrow> string option \<Rightarrow> string + bool \<times> PolicySourceConnectorUpdate option" where
  "demo_checkForUpdate fetchLatest known =
     and_then fetchLatest (\<lambda>latest.
       if Some (upd_checksum latest) = known then Inr (False, None) else Inr (True, Some latest))"

definition checkSource ::
  "PolicySourceConnector \<Rightarrow> (PolicySourceCheckOutcome \<times> string option) policy_prog" where
  "checkSource connector =
     pbind (query (\<lambda>_ db. List.find (\<lambda>s. src_id s = con_sourceId connector) (pol_sources db))) (\<lambda>found.
       case found of
         None \<Rightarrow> preturn (check_error, Some ''no such policy source'')
       | Some s \<Rightarrow>
           if src_retrievalMode s \<noteq> CONNECTOR
           then preturn (check_error, Some (''source retrievalMode is ''
                  @ (if src_retrievalMode s = SYNTHETIC then ''SYNTHETIC'' else ''MANUAL'')
                  @ '', not CONNECTOR - refusing to poll a source no one configured for monitoring''))
           else pbind (query (\<lambda>_ db. latest_revision db (src_id s))) (\<lambda>latest.
             case con_checkForUpdate connector (map_option rev_checksum latest) of
               Inl detail \<Rightarrow> preturn (check_error, Some detail)
             | Inr (True, Some u) \<Rightarrow>
                 if detectSchemaDrift (upd_content u) \<noteq> []
                 then preturn (schema_drift, Some (join ''; '' (detectSchemaDrift (upd_content u))))
                 else pbind (act (\<lambda>i db. (Inr (), db\<lparr>pol_revisions := pol_revisions db @
                        [\<lparr>rev_id = inp_id i, rev_policySourceId = src_id s, rev_checksum = upd_checksum u,
                          rev_publishedAt = upd_publishedAt u, rev_recordedAt = inp_now i,
                          rev_content = upd_content u\<rparr>]\<rparr>))) (\<lambda>_. preturn (new_revision, None))
             | Inr _ \<Rightarrow> preturn (no_change, None)))"

definition checkSources ::
  "PolicySourceConnector list \<Rightarrow> (PolicySourceCheckOutcome \<times> string option) list policy_prog" where
  "checkSources connectors = pmap_list checkSource connectors"

end
