(* ===== verification/Policy_Resolver.thy ===== *)
theory Policy_Resolver
  imports Policy_Catalog
begin

text \<open>
  What the applicability resolver computes: the walk over the jurisdictions finds exactly
  the finite covered chains, the freshness check accepts exactly when every source of the
  chain is fresh, the scan keeps exactly the released versions in force, and a resolution
  stays what it is until its own deadline.
\<close>

section \<open>Covered chains\<close>

inductive covered_chain :: "Jurisdiction table \<Rightarrow> string \<Rightarrow> Jurisdiction list \<Rightarrow> bool" for js where
  chain_top: "c \<noteq> [] \<Longrightarrow> find_jurisdiction js c = Some j \<Longrightarrow> jur_coverageStatus j = COVERED
    \<Longrightarrow> jur_parentCode j = None \<or> jur_parentCode j = Some [] \<Longrightarrow> covered_chain js c [j]"
| chain_up: "c \<noteq> [] \<Longrightarrow> find_jurisdiction js c = Some j \<Longrightarrow> jur_coverageStatus j = COVERED
    \<Longrightarrow> jur_parentCode j = Some p \<Longrightarrow> covered_chain js p rest \<Longrightarrow> covered_chain js c (j # rest)"

inductive_cases covered_chainE: "covered_chain js c a"

lemma chain_code: "covered_chain js c a \<Longrightarrow> c \<noteq> [] \<and> (\<exists>j rest. a = j # rest \<and> jur_code j = c)"
  by (induction rule: covered_chain.induct) (auto dest: find_jurisdictionD)

lemma chain_det: "covered_chain js c a \<Longrightarrow> covered_chain js c b \<Longrightarrow> a = b"
proof (induction arbitrary: b rule: covered_chain.induct)
  case (chain_top c j)
  have "jur_parentCode j \<noteq> Some p" if "covered_chain js p rest" for p rest
    using chain_top(4) chain_code [OF that] by auto
  with chain_top(2,5) show ?case by (auto elim: covered_chainE)
next
  case (chain_up c j p rest)
  have "p \<noteq> []" using chain_code [OF chain_up(5)] by blast
  with chain_up(2,4,6,7) show ?case by (auto elim: covered_chainE)
qed

lemma chain_suffix:
  "covered_chain js c a \<Longrightarrow> j \<in> set a \<Longrightarrow> \<exists>b. covered_chain js (jur_code j) b \<and> length b \<le> length a"
proof (induction rule: covered_chain.induct)
  case (chain_top c i)
  then have "j = i" "jur_code i = c" by (auto dest: find_jurisdictionD)
  with chain_top covered_chain.chain_top [OF chain_top(1-4)] show ?case by auto
next
  case (chain_up c i p rest)
  show ?case
  proof (cases "j = i")
    case True
    then have "jur_code j = c" using chain_up(2) by (auto dest: find_jurisdictionD)
    then show ?thesis using covered_chain.chain_up [OF chain_up(1-5)] by auto
  next
    case False
    with chain_up obtain b where "covered_chain js (jur_code j) b" "length b \<le> length rest" by auto
    then show ?thesis by auto
  qed
qed

lemma chain_distinct: "covered_chain js c a \<Longrightarrow> distinct (map jur_code a)"
proof (induction rule: covered_chain.induct)
  case (chain_up c j p rest)
  have whole: "covered_chain js c (j # rest)" using chain_up(1-5) by (rule covered_chain.chain_up)
  have "jur_code i \<noteq> jur_code j" if "i \<in> set rest" for i
  proof
    assume "jur_code i = jur_code j"
    moreover have "jur_code j = c" using chain_up(2) by (auto dest: find_jurisdictionD)
    ultimately obtain b where "covered_chain js c b" "length b \<le> length rest"
      using chain_suffix [OF chain_up(5) \<open>i \<in> set rest\<close>] by auto
    moreover from chain_det [OF whole this(1)] have "length b = Suc (length rest)" by auto
    ultimately show False by simp
  qed
  then have "jur_code j \<notin> jur_code ` set rest" by (metis imageE)
  with chain_up.IH show ?case by simp
qed simp

lemma chain_covered: "covered_chain js c a \<Longrightarrow> j \<in> set a \<Longrightarrow> j \<in> set js \<and> jur_coverageStatus j = COVERED"
  by (induction rule: covered_chain.induct) (auto dest: find_jurisdictionD)

lemma ancestry_loop_chain:
  "covered_chain js c a \<Longrightarrow> set (map jur_code a) \<inter> set visited = {}
    \<Longrightarrow> ancestry_loop js visited (Some c) acc = Inr (acc @ a)"
proof (induction arbitrary: visited acc rule: covered_chain.induct)
  case (chain_top c j)
  have "jur_code j = c" using chain_top(2) by (auto dest: find_jurisdictionD)
  with chain_top show ?case
    by (auto simp: ancestry_loop.simps [of _ _ "Some _"] ancestry_loop.simps [of _ _ None])
next
  case (chain_up c j p rest)
  have code: "jur_code j = c" using chain_up(2) by (auto dest: find_jurisdictionD)
  have "distinct (map jur_code (j # rest))"
    by (rule chain_distinct) (rule covered_chain.chain_up [OF chain_up(1-5)])
  then have "set (map jur_code rest) \<inter> set (c # visited) = {}"
    using chain_up.prems code by auto
  from chain_up.IH [OF this, of "acc @ [j]"] show ?case
    using chain_up(1-4) chain_up.prems code by (auto simp: ancestry_loop.simps [of _ _ "Some c"])
qed

lemma ancestry_loop_sound:
  "ancestry_loop js visited n acc = Inr r \<Longrightarrow>
     (case n of None \<Rightarrow> r = acc | Some c \<Rightarrow> if c = [] then r = acc else \<exists>a. r = acc @ a \<and> covered_chain js c a)"
proof (induction js visited n acc rule: ancestry_loop.induct)
  case (1 js visited n acc)
  show ?case
  proof (cases "n = None \<or> n = Some []")
    case True
    with 1(2) show ?thesis by (auto simp: ancestry_loop.simps [of js visited n acc])
  next
    case False
    then obtain c where c: "n = Some c" "c \<noteq> []" by auto
    with 1(2) have "c \<notin> set visited \<and> (\<exists>j. find_jurisdiction js c = Some j \<and> jur_coverageStatus j = COVERED
        \<and> ancestry_loop js (c # visited) (jur_parentCode j) (acc @ [j]) = Inr r)"
      unfolding ancestry_loop.simps [of js visited n acc] by (auto split: if_splits option.splits)
    then obtain j where j: "c \<notin> set visited" "find_jurisdiction js c = Some j" "jur_coverageStatus j = COVERED"
      and r: "ancestry_loop js (c # visited) (jur_parentCode j) (acc @ [j]) = Inr r" by blast
    have ih: "case jur_parentCode j of None \<Rightarrow> r = acc @ [j]
        | Some p \<Rightarrow> if p = [] then r = acc @ [j] else \<exists>a. r = (acc @ [j]) @ a \<and> covered_chain js p a"
      using 1(1) [OF c(1,2) j(1,2) _ r] j(3) by simp
    show ?thesis
    proof (cases "jur_parentCode j = None \<or> jur_parentCode j = Some []")
      case True
      with ih have "r = acc @ [j]" by auto
      moreover have "covered_chain js c [j]" using c(2) j(2,3) True by (rule chain_top)
      ultimately show ?thesis using c by auto
    next
      case False
      then obtain p where p: "jur_parentCode j = Some p" "p \<noteq> []" by auto
      with ih obtain a where "r = acc @ j # a" "covered_chain js p a" by auto
      moreover have "covered_chain js c (j # a)" using c(2) j(2,3) p(1) calculation(2) by (rule chain_up)
      ultimately show ?thesis using c by auto
    qed
  qed
qed

lemma loadCoveredAncestry_iff:
  "c \<noteq> [] \<Longrightarrow> loadCoveredAncestry db c = Inr a \<longleftrightarrow> covered_chain (pol_jurisdictions db) c a"
  unfolding loadCoveredAncestry_def
  using ancestry_loop_chain [of "pol_jurisdictions db" c a "[]" "[]"]
    ancestry_loop_sound [of "pol_jurisdictions db" "[]" "Some c" "[]" a] by auto

lemma loadCoveredAncestry_empty: "loadCoveredAncestry db [] = Inr []"
  by (simp add: loadCoveredAncestry_def ancestry_loop.simps)

section \<open>Freshness\<close>

definition source_fresh :: "policy_db \<Rightarrow> timestamp \<Rightarrow> PolicySource \<Rightarrow> bool" where
  "source_fresh db now s =
     (case latest_revision db (src_id s) of
        None \<Rightarrow> False
      | Some r \<Rightarrow> 0 < src_freshnessObjectiveHours s \<and> now < source_deadline s r)"

definition deadline_of :: "policy_db \<Rightarrow> PolicySource \<Rightarrow> timestamp" where
  "deadline_of db s = source_deadline s (the (latest_revision db (src_id s)))"

definition lower :: "timestamp option \<Rightarrow> timestamp \<Rightarrow> timestamp option" where
  "lower e t = (case e of None \<Rightarrow> Some t | Some u \<Rightarrow> Some (if t < u then t else u))"

lemma check_source_fresh:
  "source_fresh db now s \<Longrightarrow> check_source db now s (e, rs) = (lower e (deadline_of db s), rs)"
  by (auto simp: check_source_def source_fresh_def deadline_of_def lower_def split: option.splits)

lemma check_source_stale:
  "\<not> source_fresh db now s \<Longrightarrow> \<exists>x. check_source db now s (e, rs) = (e, rs @ [x])"
  by (auto simp: check_source_def source_fresh_def split: option.splits)

lemma check_sources:
  "fold (check_source db now) ss (e, rs) = (d, []) \<longleftrightarrow>
     rs = [] \<and> (\<forall>s \<in> set ss. source_fresh db now s) \<and> d = fold (\<lambda>s e. lower e (deadline_of db s)) ss e"
proof (induction ss arbitrary: e rs)
  case (Cons s ss)
  show ?case
  proof (cases "source_fresh db now s")
    case True
    with Cons show ?thesis by (simp add: check_source_fresh)
  next
    case False
    then obtain x where "check_source db now s (e, rs) = (e, rs @ [x])"
      using check_source_stale by blast
    with Cons False show ?thesis by simp
  qed
qed auto

lemma fold_lower:
  assumes "fold (\<lambda>s e. lower e (f s)) ss e = Some d"
  shows "(\<forall>s \<in> set ss. d \<le> f s) \<and> (\<forall>u. e = Some u \<longrightarrow> d \<le> u)"
  using assms by (induction ss arbitrary: e) (fastforce simp: lower_def split: option.splits if_splits)+

lemma fold_lower_None: "fold (\<lambda>s e. lower e (f s)) ss e = None \<longleftrightarrow> ss = [] \<and> e = None"
  by (induction ss arbitrary: e) (auto simp: lower_def split: option.splits)

definition all_covered :: "policy_db \<Rightarrow> string list \<Rightarrow> bool" where
  "all_covered db codes \<longleftrightarrow> (\<forall>c \<in> set codes. \<exists>s \<in> set (pol_sources db). src_jurisdictionCode s = c)"

lemma uncovered_codes_Nil: "uncovered_codes db codes = [] \<longleftrightarrow> all_covered db codes"
  by (auto simp: uncovered_codes_def sources_of_def all_covered_def filter_empty_conv list_ex_iff)

lemma validateSourceFreshness_iff:
  "validateSourceFreshness db codes now = (d, []) \<longleftrightarrow>
     all_covered db codes \<and> (\<forall>s \<in> set (sources_of db codes). source_fresh db now s)
     \<and> d = fold (\<lambda>s e. lower e (deadline_of db s)) (sources_of db codes) None"
  by (auto simp: validateSourceFreshness_def Let_def check_sources uncovered_codes_Nil)

section \<open>The scan\<close>

text \<open>What one applicability row contributes.\<close>

definition in_force :: "PolicyVersion \<Rightarrow> timestamp \<Rightarrow> bool" where
  "in_force v t \<longleftrightarrow> ver_effectiveFrom v \<le> t \<and> (\<forall>e. ver_effectiveTo v = Some e \<longrightarrow> t < e)"

definition released_at :: "policy_db \<Rightarrow> uuid \<Rightarrow> PolicyVersion option" where
  "released_at db vid =
     (case find_version db vid of
        None \<Rightarrow> None
      | Some v \<Rightarrow> if ver_releaseStatus v = RELEASED then Some v else None)"

definition row_version :: "policy_db \<Rightarrow> PolicyResolutionContext \<Rightarrow> PolicyApplicability \<Rightarrow> PolicyVersion option" where
  "row_version db ctx a =
     (case (released_at db (apl_policyVersionId a), resolveApplicabilityInstant a ctx) of
        (Some v, Inr t) \<Rightarrow> if in_force v t then Some v else None
      | _ \<Rightarrow> None)"

definition row_reasons :: "policy_db \<Rightarrow> PolicyResolutionContext \<Rightarrow> PolicyApplicability \<Rightarrow> string list" where
  "row_reasons db ctx a =
     (case (released_at db (apl_policyVersionId a), resolveApplicabilityInstant a ctx) of
        (Some v, Inl r) \<Rightarrow> [r]
      | _ \<Rightarrow> [])"

definition row_boundaries :: "policy_db \<Rightarrow> PolicyResolutionContext \<Rightarrow> PolicyApplicability \<Rightarrow> timestamp list" where
  "row_boundaries db ctx a =
     (case (released_at db (apl_policyVersionId a), resolveApplicabilityInstant a ctx) of
        (Some v, Inr t) \<Rightarrow>
          if apl_transitionRule a = Some received_rule then []
          else if t < ver_effectiveFrom v then [ver_effectiveFrom v]
          else (case ver_effectiveTo v of Some e \<Rightarrow> if e \<le> t then [] else [e] | None \<Rightarrow> [])
      | _ \<Rightarrow> [])"

lemma scan_row_eq:
  "scan_row db ctx a st =
     st\<lparr>sc_candidates := (case row_version db ctx a of None \<Rightarrow> sc_candidates st
                          | Some v \<Rightarrow> add_candidate v (sc_candidates st)),
        sc_boundaries := sc_boundaries st @ row_boundaries db ctx a,
        sc_reasons := sc_reasons st @ row_reasons db ctx a\<rparr>"
  by (auto simp: scan_row_def row_version_def row_boundaries_def row_reasons_def released_at_def
        in_force_def Let_def split: option.splits sum.splits)

definition applicable :: "policy_db \<Rightarrow> string list \<Rightarrow> PolicyResolutionContext \<Rightarrow> PolicyVersion list" where
  "applicable db codes ctx = List.map_filter (row_version db ctx) (applicability_rows db codes ctx)"

lemma fold_scan_row:
  "fold (scan_row db ctx) rows st =
     st\<lparr>sc_candidates := fold add_candidate (List.map_filter (row_version db ctx) rows) (sc_candidates st),
        sc_boundaries := sc_boundaries st @ concat (map (row_boundaries db ctx) rows),
        sc_reasons := sc_reasons st @ concat (map (row_reasons db ctx) rows)\<rparr>"
  by (induction rows arbitrary: st) (auto simp: scan_row_eq List.map_filter_simps split: option.splits)

lemma scan_eq:
  "scan db codes ctx =
     \<lparr>sc_candidates = fold add_candidate (applicable db codes ctx) [],
      sc_boundaries = concat (map (row_boundaries db ctx) (applicability_rows db codes ctx)),
      sc_reasons = concat (map (row_reasons db ctx) (applicability_rows db codes ctx))\<rparr>"
  by (simp add: scan_def fold_scan_row applicable_def)

text \<open>Grouping by rule: when every group is a single version, the groups are the versions.\<close>

lemma add_candidate_new: "ver_ruleId v \<notin> fst ` set bs \<Longrightarrow> add_candidate v bs = bs @ [(ver_ruleId v, [v])]"
  by (induction bs rule: add_candidate.induct) auto

lemma add_candidate_old:
  "ver_ruleId v \<in> fst ` set bs \<Longrightarrow> (\<forall>b \<in> set bs. snd b \<noteq> []) \<Longrightarrow> \<exists>b \<in> set (add_candidate v bs). 1 < length (snd b)"
  by (induction v bs rule: add_candidate.induct) (auto simp: neq_Nil_conv)

lemma add_candidate_keeps_big:
  "\<exists>b \<in> set bs. 1 < length (snd b) \<Longrightarrow> \<exists>b \<in> set (add_candidate v bs). 1 < length (snd b)"
  by (induction v bs rule: add_candidate.induct) auto

lemma add_candidate_nonempty: "\<forall>b \<in> set bs. snd b \<noteq> [] \<Longrightarrow> \<forall>b \<in> set (add_candidate v bs). snd b \<noteq> []"
  by (induction v bs rule: add_candidate.induct) auto

lemma fold_add_candidate_big:
  "\<exists>b \<in> set bs. 1 < length (snd b) \<Longrightarrow> \<exists>b \<in> set (fold add_candidate vs bs). 1 < length (snd b)"
proof (induction vs arbitrary: bs)
  case (Cons v vs)
  then show ?case using add_candidate_keeps_big [of bs v] by simp
qed simp

definition singles :: "PolicyVersion list \<Rightarrow> (string \<times> PolicyVersion list) list" where
  "singles vs = map (\<lambda>v. (ver_ruleId v, [v])) vs"

lemma fst_singles [simp]: "fst ` set (singles vs) = ver_ruleId ` set vs"
  by (force simp: singles_def)

lemma fold_add_candidate_singles:
  assumes "distinct (map ver_ruleId us)"
  shows "(distinct (map ver_ruleId (us @ vs)) \<longrightarrow> fold add_candidate vs (singles us) = singles (us @ vs))
    \<and> (\<not> distinct (map ver_ruleId (us @ vs)) \<longrightarrow> (\<exists>b \<in> set (fold add_candidate vs (singles us)). 1 < length (snd b)))"
  using assms
proof (induction vs arbitrary: us)
  case (Cons v vs)
  show ?case
  proof (cases "ver_ruleId v \<in> ver_ruleId ` set us")
    case True
    have "\<exists>b \<in> set (add_candidate v (singles us)). 1 < length (snd b)"
      by (rule add_candidate_old) (use True in \<open>auto simp: singles_def image_image\<close>)
    then show ?thesis using True fold_add_candidate_big by auto
  next
    case False
    then have "add_candidate v (singles us) = singles (us @ [v])"
      using add_candidate_new [of v "singles us"] by (simp add: singles_def image_comp comp_def)
    with Cons.IH [of "us @ [v]"] Cons.prems False show ?thesis by simp
  qed
qed simp

lemma candidates_singles:
  "(\<forall>b \<in> set (fold add_candidate vs []). length (snd b) \<le> 1) \<longleftrightarrow> distinct (map ver_ruleId vs)"
  "distinct (map ver_ruleId vs) \<Longrightarrow> fold add_candidate vs [] = singles vs"
  using fold_add_candidate_singles [of "[]" vs] by (fastforce simp: singles_def)+

text \<open>Parsing the chosen versions.\<close>

lemma pick_versions_reasons:
  "pick_versions dp ctx bs (vs, rs) = Inr (ws, []) \<Longrightarrow> rs = [] \<and> (\<forall>b \<in> set bs. length (snd b) \<le> 1)"
  by (induction dp ctx bs "(vs, rs)" arbitrary: vs rs rule: pick_versions.induct)
    (fastforce split: if_splits sum.splits)+

lemma pick_versions_singles:
  "pick_versions dp ctx (singles vs) (ws, []) = Inr (us, []) \<longleftrightarrow>
     (\<exists>rules. list_all2 (\<lambda>v r. parsePolicyRule dp (ver_dsl v) = Inr r) vs rules \<and> us = ws @ map2 version_ref rules vs)"
proof (induction vs arbitrary: ws)
  case (Cons v vs)
  then show ?case
    by (auto simp: singles_def list_all2_Cons1 split: sum.splits)
qed (auto simp: singles_def)

definition parses :: "(string \<Rightarrow> timestamp option) \<Rightarrow> PolicyVersion list \<Rightarrow> ResolvedPolicyVersionRef list \<Rightarrow> bool" where
  "parses dp vs refs \<longleftrightarrow>
     (\<exists>rules. list_all2 (\<lambda>v r. parsePolicyRule dp (ver_dsl v) = Inr r) vs rules \<and> refs = map2 version_ref rules vs)"

lemma pick_versions_iff:
  "pick_versions dp ctx (fold add_candidate vs []) ([], rs) = Inr (us, []) \<longleftrightarrow>
     rs = [] \<and> distinct (map ver_ruleId vs) \<and> parses dp vs us"
proof
  assume *: "pick_versions dp ctx (fold add_candidate vs []) ([], rs) = Inr (us, [])"
  then have d: "distinct (map ver_ruleId vs)" and "rs = []"
    using pick_versions_reasons candidates_singles(1) by blast+
  with * show "rs = [] \<and> distinct (map ver_ruleId vs) \<and> parses dp vs us"
    using candidates_singles(2) [OF d] by (simp add: pick_versions_singles parses_def)
qed (auto simp: candidates_singles(2) pick_versions_singles parses_def)

section \<open>Resolutions\<close>

lemma resolve_sources_iff:
  "resolve_sources now db ctx = Inr (codes, d) \<longleftrightarrow>
     (\<exists>anc. loadCoveredAncestry db (ctx_jurisdictionCode ctx) = Inr anc \<and> codes = map jur_code anc
        \<and> validateSourceFreshness db codes now = (d, []))"
  by (auto simp: resolve_sources_def split: sum.splits prod.splits)

lemma resolve_versions_iff:
  "resolve_versions dp db ctx codes d = Inr res \<and> res_status res = RESOLVED \<longleftrightarrow>
     (\<forall>a \<in> set (applicability_rows db codes ctx). row_reasons db ctx a = [])
     \<and> distinct (map ver_ruleId (applicable db codes ctx))
     \<and> parses dp (applicable db codes ctx) (res_versions res)
     \<and> res = \<lparr>res_status = RESOLVED, res_versions = res_versions res, res_unresolvedReasons = [],
        res_revalidateAfter = earliest ((case d of None \<Rightarrow> [] | Some t \<Rightarrow> [t])
          @ concat (map (row_boundaries db ctx) (applicability_rows db codes ctx)))\<rparr>"
  (is "?l \<longleftrightarrow> ?rs \<and> ?d \<and> ?p \<and> ?r")
proof
  assume l: ?l
  then obtain vs where vs: "pick_versions dp ctx (fold add_candidate (applicable db codes ctx) [])
      ([], concat (map (row_reasons db ctx) (applicability_rows db codes ctx))) = Inr (vs, [])"
    and res: "res = \<lparr>res_status = RESOLVED, res_versions = vs, res_unresolvedReasons = [],
        res_revalidateAfter = earliest ((case d of None \<Rightarrow> [] | Some t \<Rightarrow> [t])
          @ concat (map (row_boundaries db ctx) (applicability_rows db codes ctx)))\<rparr>"
    by (auto simp: resolve_versions_def scan_eq Let_def review_required_def split: sum.splits prod.splits if_splits)
  from res have v: "res_versions res = vs" by simp
  have "?rs \<and> ?d \<and> ?p" using vs unfolding v by (simp add: pick_versions_iff)
  moreover have ?r unfolding v by (rule res)
  ultimately show "?rs \<and> ?d \<and> ?p \<and> ?r" by blast
next
  assume r: "?rs \<and> ?d \<and> ?p \<and> ?r"
  define vs where "vs = res_versions res"
  have p: "pick_versions dp ctx (fold add_candidate (applicable db codes ctx) [])
      ([], concat (map (row_reasons db ctx) (applicability_rows db codes ctx))) = Inr (vs, [])"
    using r by (simp add: pick_versions_iff vs_def)
  have "resolve_versions dp db ctx codes d
      = Inr \<lparr>res_status = RESOLVED, res_versions = vs, res_unresolvedReasons = [],
        res_revalidateAfter = earliest ((case d of None \<Rightarrow> [] | Some t \<Rightarrow> [t])
          @ concat (map (row_boundaries db ctx) (applicability_rows db codes ctx)))\<rparr>" (is "_ = Inr ?res")
    using p by (simp add: resolve_versions_def scan_eq Let_def)
  moreover have "res = ?res" using r unfolding vs_def by blast
  ultimately show ?l by simp
qed

section \<open>Stability\<close>

lemma earliest_le: "earliest ts = Some e \<Longrightarrow> t \<in> set ts \<Longrightarrow> e \<le> t"
proof -
  assume e: "earliest ts = Some e" and t: "t \<in> set ts"
  then obtain us where us: "sort ts = e # us" by (auto simp: earliest_def split: list.splits)
  then have "sorted (e # us)" by (metis sorted_sort)
  moreover have "t \<in> set (e # us)" using t us by (metis set_sort)
  ultimately show "e \<le> t" by auto
qed

lemma earliest_None: "earliest ts = None \<longleftrightarrow> ts = []"
proof -
  have "sort ts = [] \<longleftrightarrow> ts = []" by (metis set_empty set_sort)
  then show ?thesis by (auto simp: earliest_def split: list.splits)
qed

definition at_instant :: "timestamp \<Rightarrow> PolicyResolutionContext \<Rightarrow> PolicyResolutionContext" where
  "at_instant t ctx = ctx\<lparr>ctx_asOf := t\<rparr>"

lemma at_instant_simps [simp]:
  "ctx_jurisdictionCode (at_instant t ctx) = ctx_jurisdictionCode ctx"
  "ctx_productCode (at_instant t ctx) = ctx_productCode ctx"
  "ctx_lifecycleEvent (at_instant t ctx) = ctx_lifecycleEvent ctx"
  "ctx_applicationReceivedAt (at_instant t ctx) = ctx_applicationReceivedAt ctx"
  "ctx_asOf (at_instant t ctx) = t"
  by (simp_all add: at_instant_def)

lemma instant_later:
  "resolveApplicabilityInstant a (at_instant t ctx) =
     (if apl_transitionRule a = Some received_rule then resolveApplicabilityInstant a ctx
      else map_sum id (\<lambda>_. t) (resolveApplicabilityInstant a ctx))"
  by (auto simp: resolveApplicabilityInstant_def received_rule_def as_of_rule_def split: option.splits)

lemma instant_as_of:
  "resolveApplicabilityInstant a ctx = Inr u \<Longrightarrow> apl_transitionRule a \<noteq> Some received_rule \<Longrightarrow> u = ctx_asOf ctx"
  by (auto simp: resolveApplicabilityInstant_def split: option.splits if_splits)

lemma row_stable:
  assumes "ctx_asOf ctx \<le> t" "\<And>b. b \<in> set (row_boundaries db ctx a) \<Longrightarrow> t < b"
    and "released_at db (apl_policyVersionId a) = released_at db' (apl_policyVersionId a)"
  shows "row_version db' (at_instant t ctx) a = row_version db ctx a"
    and "row_reasons db' (at_instant t ctx) a = row_reasons db ctx a"
proof -
  show "row_reasons db' (at_instant t ctx) a = row_reasons db ctx a"
    using assms(3) unfolding row_reasons_def instant_later
    by (cases "resolveApplicabilityInstant a ctx") (auto split: option.splits)
  show "row_version db' (at_instant t ctx) a = row_version db ctx a"
  proof (cases "apl_transitionRule a = Some received_rule \<or> released_at db (apl_policyVersionId a) = None
      \<or> (\<exists>r. resolveApplicabilityInstant a ctx = Inl r)")
    case True
    then show ?thesis using assms(3) by (auto simp: row_version_def instant_later split: option.splits sum.splits)
  next
    case False
    then obtain v u where v: "released_at db (apl_policyVersionId a) = Some v"
      and u: "resolveApplicabilityInstant a ctx = Inr u" and n: "apl_transitionRule a \<noteq> Some received_rule"
      by (cases "resolveApplicabilityInstant a ctx") auto
    have "u = ctx_asOf ctx" using instant_as_of [OF u n] .
    moreover have "\<forall>b \<in> set (row_boundaries db ctx a). t < b" using assms(2) by blast
    ultimately have "in_force v t = in_force v u"
      using assms(1) v u n by (auto simp: in_force_def row_boundaries_def split: option.splits if_splits)
    with v u n assms(3) show ?thesis by (simp add: row_version_def instant_later)
  qed
qed

text \<open>A catalog in which nothing was withdrawn or released and no source has aged.\<close>

definition same_scope :: "policy_db \<Rightarrow> policy_db \<Rightarrow> bool" where
  "same_scope db db' \<longleftrightarrow>
     pol_jurisdictions db' = pol_jurisdictions db \<and> pol_sources db' = pol_sources db
     \<and> pol_applicability db' = pol_applicability db
     \<and> (\<forall>sid r. latest_revision db sid = Some r \<longrightarrow>
          (\<exists>r'. latest_revision db' sid = Some r' \<and> rev_recordedAt r \<le> rev_recordedAt r'))"

lemma same_scope_refl [simp]: "same_scope db db"
  by (auto simp: same_scope_def)

lemma same_scope_trans: "same_scope db db' \<Longrightarrow> same_scope db' db'' \<Longrightarrow> same_scope db db''"
  unfolding same_scope_def by (metis order_trans)

lemma deadline_later:
  assumes "same_scope db db'" "source_fresh db now s"
  shows "deadline_of db s \<le> deadline_of db' s" "t < deadline_of db s \<Longrightarrow> source_fresh db' t s"
  using assms
  by (auto simp: same_scope_def source_fresh_def deadline_of_def source_deadline_def split: option.splits)
    fastforce+

lemma map_filter_same:
  "(\<And>a. a \<in> set xs \<Longrightarrow> f a = g a) \<Longrightarrow> List.map_filter f xs = List.map_filter g xs"
  by (induction xs) (auto simp: List.map_filter_simps split: option.splits)

lemma resolution_stable:
  assumes src: "resolve_sources now db1 ctx = Inr (codes, d)"
    and ver: "resolve_versions dp db2 ctx codes d = Inr res" "res_status res = RESOLVED"
    and scope: "same_scope db1 db2" "same_scope db2 db3"
    and rel: "released_at db2 = released_at db3"
    and time: "ctx_asOf ctx \<le> t" "\<And>rv. res_revalidateAfter res = Some rv \<Longrightarrow> t < rv \<and> now' < rv"
  shows "\<exists>res'. resolution_at dp db3 now' (at_instant t ctx) = Inr res' \<and> res_status res' = RESOLVED
    \<and> res_versions res' = res_versions res"
proof -
  let ?ctx = "at_instant t ctx" and ?rows = "applicability_rows db2 codes ctx"
  have v: "\<forall>a \<in> set ?rows. row_reasons db2 ctx a = []" "distinct (map ver_ruleId (applicable db2 codes ctx))"
    "parses dp (applicable db2 codes ctx) (res_versions res)"
    and rv: "res_revalidateAfter res = earliest ((case d of None \<Rightarrow> [] | Some t \<Rightarrow> [t])
          @ concat (map (row_boundaries db2 ctx) ?rows))"
    using resolve_versions_iff [of dp db2 ctx codes d res] ver
    by (auto, metis PolicyResolutionResult.select_convs(4))
  have later: "t < b \<and> now' < b" if "b \<in> set ((case d of None \<Rightarrow> [] | Some t \<Rightarrow> [t])
          @ concat (map (row_boundaries db2 ctx) ?rows))" (is "b \<in> set ?bs") for b
  proof -
    have "res_revalidateAfter res \<noteq> None" unfolding rv earliest_None using that by (metis empty_iff empty_set)
    then obtain e where e: "res_revalidateAfter res = Some e" by auto
    have "e \<le> b" using rv e that by (metis earliest_le)
    with time(2) [OF e] show ?thesis by linarith
  qed
  have scope13: "same_scope db1 db3" using scope by (rule same_scope_trans)
  have rows: "applicability_rows db3 codes ?ctx = ?rows"
    using scope(2) by (simp add: applicability_rows_def same_scope_def)
  have row: "row_version db3 ?ctx a = row_version db2 ctx a \<and> row_reasons db3 ?ctx a = row_reasons db2 ctx a"
    if "a \<in> set ?rows" for a
  proof (intro conjI row_stable [OF time(1)])
    show "t < b" if "b \<in> set (row_boundaries db2 ctx a)" for b
      using later [of b] that \<open>a \<in> set ?rows\<close> by auto
    then show "t < b" if "b \<in> set (row_boundaries db2 ctx a)" for b using that .
  qed (simp_all add: rel)
  have app: "applicable db3 codes ?ctx = applicable db2 codes ctx"
    unfolding applicable_def rows by (rule map_filter_same) (use row in simp)
  obtain anc where anc: "loadCoveredAncestry db1 (ctx_jurisdictionCode ctx) = Inr anc" "codes = map jur_code anc"
    and fr: "all_covered db1 codes" "\<forall>s \<in> set (sources_of db1 codes). source_fresh db1 now s"
    and d: "d = fold (\<lambda>s e. lower e (deadline_of db1 s)) (sources_of db1 codes) None"
    using src by (auto simp: resolve_sources_iff validateSourceFreshness_iff)
  have srcs: "sources_of db3 codes = sources_of db1 codes" "all_covered db3 codes"
    using scope13 fr(1) by (simp_all add: sources_of_def same_scope_def all_covered_def)
  have "source_fresh db3 now' s" if s: "s \<in> set (sources_of db1 codes)" for s
  proof -
    have "d \<noteq> None" unfolding d fold_lower_None using s by auto
    then obtain e where e: "d = Some e" by auto
    then have "e \<le> deadline_of db1 s" using fold_lower [OF d [symmetric, unfolded e]] s by blast
    moreover have "now' < e" using later [of e] e by simp
    ultimately show ?thesis using deadline_later(2) [OF scope13] fr(2) s by fastforce
  qed
  then obtain d' where d': "validateSourceFreshness db3 codes now' = (d', [])"
    using srcs by (auto simp: validateSourceFreshness_iff)
  have "loadCoveredAncestry db3 (ctx_jurisdictionCode ?ctx) = Inr anc"
    using anc(1) scope13 by (simp add: loadCoveredAncestry_def same_scope_def)
  then have rs: "resolve_sources now' db3 ?ctx = Inr (codes, d')"
    using d' anc(2) by (auto simp: resolve_sources_iff)
  define res' where "res' = \<lparr>res_status = RESOLVED, res_versions = res_versions res, res_unresolvedReasons = [],
        res_revalidateAfter = earliest ((case d' of None \<Rightarrow> [] | Some t \<Rightarrow> [t])
          @ concat (map (row_boundaries db3 ?ctx) (applicability_rows db3 codes ?ctx)))\<rparr>"
  have "resolve_versions dp db3 ?ctx codes d' = Inr res' \<and> res_status res' = RESOLVED"
    unfolding resolve_versions_iff app using v row by (simp add: rows res'_def)
  then show ?thesis using rs by (auto simp: resolution_at_def res'_def)
qed

end
