(* ===== verification/Policy_System.thy ===== *)
theory Policy_System
  imports Policy_Service Policy_Resolver
begin

text \<open>
  The policy operations under every interleaving.

  \<^item> \<open>policy_R\<close>: what any step does to the rest. The catalog generation never falls, and
    while it stands still the released versions are the same; source revisions only get
    newer; snapshots stay; a binding keeps what it binds.
  \<^item> \<open>policy_inv\<close>: every binding is backed by a resolution that was computed at or after
    the generation it records, for a context with its key and an instant up to \<open>T\<close>.
  \<^item> \<open>pg\<close> is the interpretation of \<open>rely_guarantee\<close> on these two.
\<close>

section \<open>Steps\<close>

definition bnd_core :: "CasePolicyBinding \<Rightarrow> uuid \<times> uuid \<times> uuid \<times> string \<times> string \<times> uuid" where
  "bnd_core b = (bnd_id b, bnd_tenantId b, bnd_caseId b, bnd_dependencyDigest b, bnd_contextKey b, bnd_policySnapshotId b)"

definition binding_ids :: "policy_db \<Rightarrow> uuid set" where
  "binding_ids db = bnd_id ` set (pol_bindings db)"

definition policy_R :: "policy_db \<Rightarrow> policy_db \<Rightarrow> bool" where
  "policy_R db db' \<longleftrightarrow>
     same_scope db db' \<and> pol_generation db \<le> pol_generation db'
     \<and> (pol_generation db' = pol_generation db \<longrightarrow> released_at db' = released_at db)
     \<and> (\<forall>t i s. find_snapshot db t i = Some s \<longrightarrow> find_snapshot db' t i = Some s)
     \<and> binding_ids db \<subseteq> binding_ids db'
     \<and> (\<forall>c \<in> set (pol_bindings db'). bnd_id c \<in> binding_ids db \<longrightarrow>
          (\<exists>b \<in> set (pol_bindings db). bnd_core b = bnd_core c))"

lemma policy_R_refl [simp]: "policy_R db db"
  by (auto simp: policy_R_def)

lemma bnd_core_id: "bnd_core b = bnd_core c \<Longrightarrow> bnd_id b = bnd_id c"
  by (simp add: bnd_core_def)

lemma policy_R_trans:
  assumes "policy_R a b" "policy_R b c"
  shows "policy_R a c"
proof -
  have "\<exists>z \<in> set (pol_bindings a). bnd_core z = bnd_core x"
    if "x \<in> set (pol_bindings c)" "bnd_id x \<in> binding_ids a" for x
  proof -
    note x = that
    have "bnd_id x \<in> binding_ids b" using x(2) assms(1) by (auto simp: policy_R_def)
    then obtain y where y: "y \<in> set (pol_bindings b)" "bnd_core y = bnd_core x"
      using x(1) assms(2) by (auto simp: policy_R_def)
    then have "bnd_id y \<in> binding_ids a" using x(2) bnd_core_id by metis
    then show ?thesis using y assms(1) unfolding policy_R_def by metis
  qed
  moreover have "same_scope a c" using assms same_scope_trans by (auto simp: policy_R_def)
  ultimately show ?thesis using assms unfolding policy_R_def by (auto intro: order_trans)
qed

lemma policy_R_frame:
  assumes "pol_jurisdictions db' = pol_jurisdictions db" "pol_sources db' = pol_sources db"
    and "pol_applicability db' = pol_applicability db" "pol_revisions db' = pol_revisions db"
    and "pol_versions db' = pol_versions db" "pol_generation db' = pol_generation db"
    and "pol_snapshots db' = pol_snapshots db" "pol_bindings db' = pol_bindings db"
  shows "policy_R db db'"
  using assms
  by (auto simp: policy_R_def same_scope_def latest_revision_def released_at_def find_version_def
        find_snapshot_def binding_ids_def fun_eq_iff)

section \<open>The invariant\<close>

definition snapshot_digest :: "(tok list \<Rightarrow> string) \<Rightarrow> CasePolicySnapshot \<Rightarrow> string" where
  "snapshot_digest sha256 s =
     computeDigest sha256
       (JObj [(''status'', JStr (status_text (snp_resolutionStatus s))),
              (''unresolvedReasons'', JArr (map JStr (sort (snp_unresolvedReasons s)))),
              (''versions'', JArr (map snapshot_json (snp_versions s)))])"

text \<open>Codes without the separator, and an instant a \<open>Date\<close> can hold.\<close>

definition ctx_ok :: "PolicyResolutionContext \<Rightarrow> bool" where
  "ctx_ok ctx \<longleftrightarrow>
     CHR ''|'' \<notin> set (ctx_jurisdictionCode ctx) \<and> CHR ''|'' \<notin> set (ctx_productCode ctx)
     \<and> CHR ''|'' \<notin> set (ctx_lifecycleEvent ctx)
     \<and> (\<forall>t. ctx_applicationReceivedAt ctx = Some t \<longrightarrow> valid_time t)"

text \<open>The resolution that a binding records, computed while other requests were running.\<close>

definition resolved_between ::
  "(string \<Rightarrow> timestamp option) \<Rightarrow> policy_db \<Rightarrow> int \<Rightarrow> PolicyResolutionContext \<Rightarrow> PolicyResolutionResult \<Rightarrow> bool" where
  "resolved_between dp db g ctx res \<longleftrightarrow>
     (\<exists>db1 db2 now codes d. policy_R db1 db2 \<and> policy_R db2 db \<and> g \<le> pol_generation db2
        \<and> resolve_sources now db1 ctx = Inr (codes, d)
        \<and> resolve_versions dp db2 ctx codes d = Inr res \<and> res_status res = RESOLVED)"

definition backed ::
  "(string \<Rightarrow> timestamp option) \<Rightarrow> (tok list \<Rightarrow> string) \<Rightarrow> timestamp \<Rightarrow> policy_db \<Rightarrow> CasePolicyBinding \<Rightarrow> bool" where
  "backed dp sha256 T db b \<longleftrightarrow>
     (\<exists>s. find_snapshot db (bnd_tenantId b) (bnd_policySnapshotId b) = Some s
        \<and> (snp_resolverVersion s = RESOLVER_VERSION \<longrightarrow>
             bnd_dependencyDigest b = snapshot_digest sha256 s
             \<and> snp_resolutionStatus s = RESOLVED \<and> snp_unresolvedReasons s = []
             \<and> (\<exists>ctx res. resolved_between dp db (bnd_observedCatalogGeneration b) ctx res
                  \<and> ctx_ok ctx \<and> ctx_asOf ctx \<le> T \<and> contextKey ctx = bnd_contextKey b
                  \<and> snapshotVersions res = snp_versions s
                  \<and> (\<forall>rv. res_revalidateAfter res = Some rv \<longrightarrow> bnd_revalidateAfter b \<le> rv))))"

lemma backedI:
  assumes "find_snapshot db (bnd_tenantId b) (bnd_policySnapshotId b) = Some s"
    and "bnd_dependencyDigest b = snapshot_digest sha256 s"
    and "snp_resolutionStatus s = RESOLVED" "snp_unresolvedReasons s = []"
    and "resolved_between dp db (bnd_observedCatalogGeneration b) ctx res"
    and "ctx_ok ctx" "ctx_asOf ctx \<le> T" "contextKey ctx = bnd_contextKey b"
    and "snapshotVersions res = snp_versions s"
    and "\<And>rv. res_revalidateAfter res = Some rv \<Longrightarrow> bnd_revalidateAfter b \<le> rv"
  shows "backed dp sha256 T db b"
  unfolding backed_def using assms by blast

definition case_key :: "CasePolicyBinding \<Rightarrow> uuid \<times> uuid" where
  "case_key b = (bnd_tenantId b, bnd_caseId b)"

definition active_bindings :: "policy_db \<Rightarrow> CasePolicyBinding list" where
  "active_bindings db = filter (\<lambda>b. bnd_invalidatedAt b = None) (pol_bindings db)"

definition bindings_ok :: "policy_db \<Rightarrow> bool" where
  "bindings_ok db \<longleftrightarrow> distinct (map bnd_id (pol_bindings db)) \<and> distinct (map case_key (active_bindings db))"

definition policy_inv ::
  "(string \<Rightarrow> timestamp option) \<Rightarrow> (tok list \<Rightarrow> string) \<Rightarrow> timestamp \<Rightarrow> policy_db \<Rightarrow> bool" where
  "policy_inv dp sha256 T db \<longleftrightarrow> bindings_ok db \<and> (\<forall>b \<in> set (pol_bindings db). backed dp sha256 T db b)"

interpretation pg: rely_guarantee "policy_inv dp sha256 T" policy_R for dp sha256 T
  by unfold_locales (auto intro: policy_R_trans)

lemma resolved_between_later:
  "resolved_between dp db g ctx res \<Longrightarrow> policy_R db db' \<Longrightarrow> resolved_between dp db' g ctx res"
  unfolding resolved_between_def by (blast intro: policy_R_trans)

text \<open>A binding stays backed as time goes on, and when its generation and deadline are not raised.\<close>

lemma backed_later:
  assumes "backed dp sha256 T db b" "policy_R db db'"
  shows "backed dp sha256 T db' b"
proof -
  obtain s where s: "find_snapshot db (bnd_tenantId b) (bnd_policySnapshotId b) = Some s"
    and rest: "snp_resolverVersion s = RESOLVER_VERSION \<Longrightarrow>
             bnd_dependencyDigest b = snapshot_digest sha256 s
             \<and> snp_resolutionStatus s = RESOLVED \<and> snp_unresolvedReasons s = []
             \<and> (\<exists>ctx res. resolved_between dp db (bnd_observedCatalogGeneration b) ctx res
                  \<and> ctx_ok ctx \<and> ctx_asOf ctx \<le> T \<and> contextKey ctx = bnd_contextKey b
                  \<and> snapshotVersions res = snp_versions s
                  \<and> (\<forall>rv. res_revalidateAfter res = Some rv \<longrightarrow> bnd_revalidateAfter b \<le> rv))"
    using assms(1) by (auto simp: backed_def)
  have "find_snapshot db' (bnd_tenantId b) (bnd_policySnapshotId b) = Some s"
    using s assms(2) by (auto simp: policy_R_def)
  then show ?thesis unfolding backed_def using rest resolved_between_later [OF _ assms(2)] by blast
qed

lemma backed_invalidate: "backed dp sha256 T db (b\<lparr>bnd_invalidatedAt := x\<rparr>) = backed dp sha256 T db b"
  by (simp add: backed_def)

lemma policy_inv_frame:
  assumes "policy_inv dp sha256 T db" "policy_R db db'" "pol_bindings db' = pol_bindings db"
  shows "policy_inv dp sha256 T db'"
  using assms backed_later by (auto simp: policy_inv_def bindings_ok_def active_bindings_def)

lemmas policy_frame = policy_inv_frame policy_R_frame

section \<open>Catalog operations\<close>

lemma released_at_set_status:
  assumes "released_at db vid = None" "st \<noteq> RELEASED"
  shows "released_at (set_status vid st db) = released_at db"
proof
  fix i
  have f: "find_version (set_status vid st db) i =
      map_option (\<lambda>v. if ver_id v = vid then v\<lparr>ver_releaseStatus := st\<rparr> else v) (find_version db i)"
    unfolding find_version_def set_status_def by (simp add: find_update_where)
  show "released_at (set_status vid st db) i = released_at db i"
  proof (cases "find_version db i")
    case (Some v)
    then have "ver_id v = i" unfolding find_version_def by (auto dest: find_SomeD)
    with Some f assms show ?thesis by (auto simp: released_at_def)
  qed (simp add: f released_at_def)
qed

lemma set_status_simps [simp]:
  "pol_jurisdictions (set_status vid st db) = pol_jurisdictions db"
  "pol_sources (set_status vid st db) = pol_sources db"
  "pol_revisions (set_status vid st db) = pol_revisions db"
  "pol_applicability (set_status vid st db) = pol_applicability db"
  "pol_approvals (set_status vid st db) = pol_approvals db"
  "pol_generation (set_status vid st db) = pol_generation db"
  "pol_snapshots (set_status vid st db) = pol_snapshots db"
  "pol_bindings (set_status vid st db) = pol_bindings db"
  by (simp_all add: set_status_def)

lemma policy_R_propose:
  "released_at db vid = None \<Longrightarrow> policy_R db (set_status vid PROPOSED db)"
  using released_at_set_status [of db vid PROPOSED]
  by (auto simp: policy_R_def same_scope_def latest_revision_def find_snapshot_def binding_ids_def)

lemma policy_R_bump:
  "policy_R db ((set_status vid st db)\<lparr>pol_generation := pol_generation db + 1\<rparr>)"
  by (auto simp: policy_R_def same_scope_def latest_revision_def find_snapshot_def binding_ids_def)

lemma latest_by_append_ge:
  assumes "latest_by k P t = Some r"
  shows "\<exists>r'. latest_by k P (t @ [x]) = Some r' \<and> k r \<le> k r'"
proof -
  have r: "r \<in> set t" "P r" using latest_by_SomeD [OF assms] by auto
  then obtain r' where r': "latest_by k P (t @ [x]) = Some r'"
    using latest_by_None_iff [of k P "t @ [x]"] by (cases "latest_by k P (t @ [x])") auto
  have "k r \<le> k r'" using latest_by_SomeD [OF r'] r by auto
  with r' show ?thesis by blast
qed

lemma policy_R_revision: "policy_R db (db\<lparr>pol_revisions := pol_revisions db @ [r]\<rparr>)"
  using latest_by_append_ge
  by (fastforce simp: policy_R_def same_scope_def latest_revision_def find_snapshot_def binding_ids_def
        released_at_def find_version_def fun_eq_iff)

section \<open>Handlers that leave the bindings alone\<close>

abbreviation ok :: "(string \<Rightarrow> timestamp option) \<Rightarrow> (tok list \<Rightarrow> string) \<Rightarrow> timestamp \<Rightarrow> policy_db \<Rightarrow> 'a policy_prog \<Rightarrow> bool" where
  "ok dp sha256 T db p \<equiv> rg (policy_inv dp sha256 T) policy_R (\<lambda>_ _. True) db p"

lemma ok_pbind: "ok dp sha256 T db p \<Longrightarrow> (\<And>t a. ok dp sha256 T t (f a)) \<Longrightarrow> ok dp sha256 T db (pbind p f)"
  by (rule rg_pbind) simp_all

lemma ok_query [intro, simp]: "ok dp sha256 T db (query f)"
  by (rule pg.rg_query) simp

lemma ok_read: "(\<And>i t. snd (p i t) = t) \<Longrightarrow> ok dp sha256 T db (act p)"
  by (rule rg_act) (metis policy_R_refl snd_conv)

lemma ok_write:
  assumes "\<And>i t. policy_R t (snd (p i t)) \<and> pol_bindings (snd (p i t)) = pol_bindings t"
  shows "ok dp sha256 T db (act p)"
proof (rule rg_act)
  fix i t r u assume "policy_inv dp sha256 T t" "p i t = (r, u)"
  then show "policy_inv dp sha256 T u \<and> policy_R t u \<and> True"
    using assms [of t i] policy_inv_frame by fastforce
qed

lemma ok_pmap_list: "(\<And>t x. ok dp sha256 T t (f x)) \<Longrightarrow> ok dp sha256 T db (pmap_list f xs)"
proof (induction xs arbitrary: db)
  case (Cons x xs)
  show ?case unfolding pmap_list.simps by (intro ok_pbind Cons) simp
qed simp

lemma ok_version_or_fail [intro, simp]: "ok dp sha256 T db (version_or_fail vid)"
  unfolding version_or_fail_def by (rule ok_read) simp

lemma ok_resolve [intro, simp]: "ok dp sha256 T db (resolve dp' ctx)"
  unfolding resolve_def by (rule ok_pbind) (auto split: sum.split prod.split intro!: ok_read)

lemma ok_assessOneCase [intro, simp]: "ok dp sha256 T db (assessOneCase dp' vid j p l c)"
  unfolding assessOneCase_def
  by (intro ok_pbind ok_query ok_resolve ok_read ok_write conjI rg_Ret
      | simp split: option.split prod.split
      | auto simp: run_txn_def insert_assessment_def split: if_splits intro!: policy_R_frame)+

lemma ok_assessImpact [intro, simp]: "ok dp sha256 T db (assessImpact dp' vid)"
  unfolding assessImpact_def by (intro ok_pbind ok_query ok_pmap_list ok_assessOneCase) simp

lemma ok_assessImpactForCase [intro, simp]: "ok dp sha256 T db (assessImpactForCase dp' t c vid)"
  unfolding assessImpactForCase_def by (intro ok_pbind ok_read ok_assessOneCase) simp

lemma ok_change_and_assess [intro, simp]: "ok dp sha256 T db (change_and_assess dp' vid st actor action)"
  unfolding change_and_assess_def record_change_def
  by (intro ok_pbind ok_assessImpact ok_write)
    (auto simp: run_txn_def change_txn_def bumpCatalogGeneration_def policy_R_bump split: if_splits
      intro!: policy_R_frame)

lemma ok_activate [intro, simp]: "ok dp sha256 T db (activate_version dp' vid actor)"
  unfolding activate_version_def by (intro ok_pbind) (auto intro!: ok_pbind)

lemma ok_withdraw [intro, simp]: "ok dp sha256 T db (withdraw_version dp' vid actor)"
  unfolding withdraw_version_def by (intro ok_pbind) auto

lemma ok_approve [intro, simp]: "ok dp sha256 T db (approve_version vid by)"
proof -
  have w: "ok dp sha256 T t (act (\<lambda>i db. (Inr (), db\<lparr>pol_approvals := f i db\<rparr>)))" for t and f
    by (rule ok_write) (auto intro!: policy_R_frame)
  show ?thesis
    unfolding approve_version_def
    by (rule ok_pbind) (auto split: option.split intro!: ok_pbind w intro: ok_read)
qed

lemma ok_checkSources [intro, simp]: "ok dp sha256 T db (checkSources cs)"
  unfolding checkSources_def checkSource_def
  by (intro ok_pmap_list ok_pbind)
    (auto split: option.split sum.split prod.split bool.split intro!: ok_pbind ok_write policy_R_revision)

text \<open>
  A proposal keeps the rules only when nothing comes between its check and its update: the
  check is what makes sure that the version is not released.
\<close>

lemma propose_alone:
  assumes "policy_inv dp sha256 T db" "prun (propose_version vid by notes) is db = (r, db')"
  shows "policy_inv dp sha256 T db' \<and> policy_R db db'"
proof (cases "\<exists>v. find_version db vid = Some v \<and> ver_releaseStatus v = DRAFT")
  case False
  then have "db' = db" using assms(2)
    by (cases "find_version db vid") (auto simp: propose_version_def version_or_fail_def split: if_splits)
  then show ?thesis using assms(1) by simp
next
  case True
  then have "released_at db vid = None" by (auto simp: released_at_def)
  then have 1: "policy_R db (set_status vid PROPOSED db)" by (rule policy_R_propose)
  have "db' = set_status vid PROPOSED db \<or> (\<exists>a. db' = (set_status vid PROPOSED db)\<lparr>pol_approvals := a\<rparr>)"
    using assms(2) True
    by (auto simp: propose_version_def version_or_fail_def insert_approval_def run_txn_def split: if_splits)
  then have "policy_R (set_status vid PROPOSED db) db'" "pol_bindings db' = pol_bindings db"
    by (auto intro!: policy_R_frame)
  with 1 show ?thesis using policy_R_trans policy_inv_frame [OF assms(1)] by blast
qed

lemma ok_propose: "ok dp sha256 T db (atomically is (propose_version vid by notes))"
  unfolding atomically_def by (rule rg_act) (use propose_alone in blast)

end
