(* ===== verification/Policy_Evaluation.thy ===== *)
theory Policy_Evaluation
  imports Policy_System
begin

text \<open>
  The evaluation of a case keeps the rules of \<open>Policy_System\<close>, whatever runs beside it,
  and run alone it answers what the resolver answers. On the way: the digest of a
  resolution determines the versions of its snapshot, the context key determines the
  context up to its instant, and a snapshot gives back the resolution it was made from.
\<close>

section \<open>Digests and keys\<close>

lemma json_ok_rule [simp]: "json_ok (rule_json r)"
  by (auto simp: rule_json_def list_all_iff split: option.split)

lemma json_ok_snapshot [simp]: "json_ok (snapshot_json v)"
  by (auto simp: snapshot_json_def split: option.split)

lemma same_json_strings: "same_json (JArr (map JStr xs)) (JArr (map JStr ys)) \<longleftrightarrow> xs = ys"
  by (auto simp: list_all_length list_eq_iff_nth_eq)

lemma same_json_rule: "same_json (rule_json r) (rule_json q) \<Longrightarrow> r = q"
proof -
  assume s: "same_json (rule_json r) (rule_json q)"
  have "rule_id r = rule_id q" "rule_version r = rule_version q" "rule_outcome r = rule_outcome q"
    using s by (auto simp: rule_json_def intro: PolicyRuleOutcome.equality)
  moreover have "rule_when r = rule_when q"
    using s by (cases "rule_when r"; cases "rule_when q") (auto simp: rule_json_def)
  moreover have "rule_applicability r = rule_applicability q"
    using s same_json_strings
    by (auto simp: rule_json_def simp del: same_json.simps(1) intro!: PolicyRuleApplicability.equality split: option.splits)
  ultimately show ?thesis by (simp add: PolicyRuleDocument.equality)
qed

lemma same_json_snapshot: "same_json (snapshot_json v) (snapshot_json w) \<Longrightarrow> v = w"
proof -
  assume s: "same_json (snapshot_json v) (snapshot_json w)"
  then have "sv_rule v = sv_rule w" by (auto simp: snapshot_json_def intro: same_json_rule)
  moreover have "sv_effectiveTo v = sv_effectiveTo w"
    using s by (auto simp: snapshot_json_def split: option.splits)
  ultimately show ?thesis
    using s by (auto simp: snapshot_json_def intro!: snapshot_version.equality)
qed

lemma same_json_snapshots:
  "same_json (JArr (map snapshot_json xs)) (JArr (map snapshot_json ys)) \<Longrightarrow> xs = ys"
  by (auto simp: list_all_length list_eq_iff_nth_eq intro!: same_json_snapshot)

lemma computeDigest_inj:
  assumes "inj sha256" "computeDigest sha256 v = computeDigest sha256 w" "json_ok v" "json_ok w"
  shows "same_json v w"
proof -
  have "stringify (canonicalize v) = stringify (canonicalize w)"
    using assms(1,2) by (auto simp: computeDigest_def digest_input_def dest: injD)
  then have "canonicalize v = canonicalize w"
    using parse_stringify canonicalize_finite assms(3,4) by (metis option.inject)
  then show ?thesis using canonicalize_eq_iff assms(3,4) by blast
qed

lemma digest_determines_versions:
  assumes "inj sha256" "resolution_digest sha256 res = snapshot_digest sha256 s"
  shows "snapshotVersions res = snp_versions s"
proof -
  have ok: "json_ok (JObj [(''status'', JStr a), (''unresolvedReasons'', JArr (map JStr b)),
      (''versions'', JArr (map snapshot_json c))])" for a b c
    by (auto simp: list_all_iff)
  have "same_json
      (JObj [(''status'', JStr (status_text (res_status res))),
        (''unresolvedReasons'', JArr (map JStr (sort (res_unresolvedReasons res)))),
        (''versions'', JArr (map snapshot_json (snapshotVersions res)))])
      (JObj [(''status'', JStr (status_text (snp_resolutionStatus s))),
        (''unresolvedReasons'', JArr (map JStr (sort (snp_unresolvedReasons s)))),
        (''versions'', JArr (map snapshot_json (snp_versions s)))])"
    by (rule computeDigest_inj [OF assms(1) _ ok ok])
      (use assms(2) in \<open>simp add: resolution_digest_def snapshot_digest_def\<close>)
  then have "same_json (JArr (map snapshot_json (snapshotVersions res))) (JArr (map snapshot_json (snp_versions s)))"
    by (simp del: same_json.simps(1))
  then show ?thesis by (rule same_json_snapshots)
qed

lemma separated_inj:
  "c \<notin> set a \<Longrightarrow> c \<notin> set b \<Longrightarrow> a @ c # x = b @ c # y \<Longrightarrow> a = b \<and> x = y"
proof (induction a arbitrary: b)
  case Nil then show ?case by (cases b) auto
next
  case (Cons d a) then show ?case by (cases b) auto
qed

lemma toISOString_head: "toISOString t \<noteq> ''UNSPECIFIED''"
proof -
  obtain y m d where c: "civil (t div 86400000) = (y, m, d)" by (metis prod_cases3)
  have "hd (toISOString t) \<noteq> CHR ''U''"
  proof (cases "0 \<le> y \<and> y \<le> 9999")
    case True
    have "set (pad w n) \<subseteq> {x. 48 \<le> (of_char x :: nat) \<and> of_char x < (58 :: nat)}" for w n
      by (induction w arbitrary: n) (auto simp: nat_less_iff)
    moreover have "hd (toISOString t) \<in> set (pad 4 y)"
      using True c length_pad [of 4 y] by (cases "pad 4 y") (auto simp: toISOString_def Let_def)
    ultimately have "(of_char (hd (toISOString t)) :: nat) < 58" by blast
    then show ?thesis by auto
  next
    case False
    then show ?thesis using c by (auto simp: toISOString_def Let_def)
  qed
  then show ?thesis by auto
qed

lemma contextKey_inj:
  assumes "ctx_ok ctx" "ctx_ok ctx'" "contextKey ctx = contextKey ctx'"
  shows "ctx = at_instant (ctx_asOf ctx) ctx'"
proof -
  let ?r = "\<lambda>c. case ctx_applicationReceivedAt c of None \<Rightarrow> ''UNSPECIFIED'' | Some t \<Rightarrow> toISOString t"
  have 1: "ctx_jurisdictionCode ctx = ctx_jurisdictionCode ctx'
      \<and> ctx_productCode ctx @ CHR ''|'' # ctx_lifecycleEvent ctx @ CHR ''|'' # ?r ctx
        = ctx_productCode ctx' @ CHR ''|'' # ctx_lifecycleEvent ctx' @ CHR ''|'' # ?r ctx'"
    by (rule separated_inj [of "CHR ''|''"]) (use assms in \<open>auto simp: ctx_ok_def contextKey_def\<close>)
  have 2: "ctx_productCode ctx = ctx_productCode ctx'
      \<and> ctx_lifecycleEvent ctx @ CHR ''|'' # ?r ctx = ctx_lifecycleEvent ctx' @ CHR ''|'' # ?r ctx'"
    by (rule separated_inj [of "CHR ''|''"]) (use assms 1 in \<open>auto simp: ctx_ok_def\<close>)
  have 3: "ctx_lifecycleEvent ctx = ctx_lifecycleEvent ctx' \<and> ?r ctx = ?r ctx'"
    by (rule separated_inj [of "CHR ''|''"]) (use assms 2 in \<open>auto simp: ctx_ok_def\<close>)
  have "ctx_applicationReceivedAt ctx = ctx_applicationReceivedAt ctx'"
    using 3 assms(1,2) toISOString_head toISOString_inj
    by (auto simp: ctx_ok_def split: option.splits)
  with 1 2 3 show ?thesis by (simp add: at_instant_def)
qed

section \<open>Steps on the bindings\<close>

lemma policy_R_bindings:
  assumes "map bnd_core bs = map bnd_core (pol_bindings db)"
  shows "policy_R db (db\<lparr>pol_bindings := bs\<rparr>)"
proof -
  have cores: "bnd_core ` set bs = bnd_core ` set (pol_bindings db)" using assms by (metis list.set_map)
  have ids: "bnd_id ` set xs = fst ` bnd_core ` set xs" for xs by (simp add: image_image bnd_core_def)
  have "\<exists>b \<in> set (pol_bindings db). bnd_core b = bnd_core c" if "c \<in> set bs" for c
    using that cores by (metis imageE imageI)
  then show ?thesis
    using cores
    by (auto simp: policy_R_def same_scope_def latest_revision_def find_snapshot_def binding_ids_def
          released_at_def find_version_def fun_eq_iff ids)
qed

lemma distinct_active_update:
  assumes "distinct (map case_key (filter A bs))"
    and "\<And>b. case_key (g b) = case_key b" "\<And>b. A (g b) \<Longrightarrow> A b"
  shows "distinct (map case_key (filter A (map g bs)))"
proof -
  have "set (map case_key (filter A (map g bs))) \<subseteq> set (map case_key (filter A bs))" for bs
    using assms(2,3) by (auto simp: image_iff)
  with assms show ?thesis by (induction bs) (fastforce split: if_splits)+
qed

lemma update_bindings_ok:
  assumes inv: "policy_inv dp sha256 T db"
    and core: "\<And>b. bnd_core (f b) = bnd_core b"
    and act: "\<And>b. bnd_invalidatedAt (f b) = None \<Longrightarrow> bnd_invalidatedAt b = None"
    and bkd: "\<And>b. b \<in> set (pol_bindings db) \<Longrightarrow> P b \<Longrightarrow> backed dp sha256 T db (f b)"
  shows "policy_inv dp sha256 T (update_bindings P f db) \<and> policy_R db (update_bindings P f db)"
proof -
  let ?g = "\<lambda>b. if P b then f b else b" and ?db = "update_bindings P f db"
  have g: "bnd_core (?g b) = bnd_core b" for b using core by simp
  have bs: "pol_bindings ?db = map ?g (pol_bindings db)" by (simp add: update_bindings_def update_where_def)
  have R: "policy_R db ?db"
    unfolding update_bindings_def by (rule policy_R_bindings) (simp add: update_where_def core)
  have id: "bnd_id (?g b) = bnd_id b" "case_key (?g b) = case_key b" for b
    using g [of b] by (simp_all add: bnd_core_def case_key_def split: if_splits)
  have "distinct (map case_key (filter (\<lambda>b. bnd_invalidatedAt b = None) (map ?g (pol_bindings db))))"
  proof (rule distinct_active_update [OF _ id(2)])
    show "distinct (map case_key (filter (\<lambda>b. bnd_invalidatedAt b = None) (pol_bindings db)))"
      using inv by (simp add: policy_inv_def bindings_ok_def active_bindings_def)
  qed (use act in \<open>auto split: if_splits\<close>)
  moreover have "distinct (map bnd_id (map ?g (pol_bindings db)))"
    unfolding map_map comp_def id(1) using inv by (simp add: policy_inv_def bindings_ok_def)
  ultimately have "bindings_ok ?db"
    unfolding bindings_ok_def active_bindings_def bs by blast
  moreover have "backed dp sha256 T ?db b" if "b \<in> set (pol_bindings ?db)" for b
    using that inv bkd R unfolding bs policy_inv_def by (auto intro: backed_later split: if_splits)
  ultimately show ?thesis using R by (simp add: policy_inv_def)
qed

lemma insert_binding_ok:
  assumes "policy_inv dp sha256 T db" "insert_binding b db = Inr (b', db')" "backed dp sha256 T db b"
  shows "policy_inv dp sha256 T db' \<and> policy_R db db'"
proof -
  have db': "db' = db\<lparr>pol_bindings := pol_bindings db @ [b]\<rparr>" and fresh: "bnd_id b \<notin> binding_ids db"
    and one: "bnd_invalidatedAt b = None \<Longrightarrow> case_key b \<notin> case_key ` set (active_bindings db)"
    using assms(2)
    by (auto simp: insert_binding_def binding_ids_def active_bindings_def case_key_def list_ex_iff split: if_splits)
  have R: "policy_R db db'"
    using fresh
    by (auto simp: db' policy_R_def same_scope_def latest_revision_def find_snapshot_def binding_ids_def
          released_at_def find_version_def fun_eq_iff)
  have "bindings_ok db'"
    using assms(1) fresh one
    by (auto simp: policy_inv_def bindings_ok_def db' active_bindings_def binding_ids_def)
  moreover have "backed dp sha256 T db' c" if "c \<in> set (pol_bindings db')" for c
    using that assms(1,3) backed_later [OF _ R] by (auto simp: db' policy_inv_def)
  ultimately show ?thesis using R by (simp add: policy_inv_def)
qed

lemma insert_snapshot_ok:
  assumes "policy_inv dp sha256 T db" "insert_snapshot s db = Inr (s', db')"
  shows "policy_inv dp sha256 T db' \<and> policy_R db db' \<and> s' = s \<and> find_snapshot db' (snp_tenantId s) (snp_id s) = Some s"
proof -
  have db': "db' = db\<lparr>pol_snapshots := pol_snapshots db @ [s]\<rparr>" "s' = s" and fresh: "snp_id s \<notin> snp_id ` set (pol_snapshots db)"
    using assms(2) by (auto simp: insert_snapshot_def split: if_splits)
  have R: "policy_R db db'"
    by (auto simp: db' policy_R_def same_scope_def latest_revision_def find_snapshot_def binding_ids_def
          released_at_def find_version_def fun_eq_iff find_append split: option.splits)
  have "find_snapshot db' (snp_tenantId s) (snp_id s) = Some s"
    using fresh
    by (auto simp: db' find_snapshot_def find_append image_iff dest!: find_SomeD split: option.splits)
  then show ?thesis using R policy_inv_frame [OF assms(1) R] by (simp add: db')
qed

section \<open>The handler\<close>

lemma resolved_no_reasons:
  "resolved_between dp db g ctx res \<Longrightarrow> res_unresolvedReasons res = []"
  unfolding resolved_between_def
  by (metis resolve_versions_iff PolicyResolutionResult.select_convs(3))

lemma resolve_rg:
  assumes "g \<le> pol_generation db"
  shows "rg (policy_inv dp sha256 T) policy_R
    (\<lambda>t r. policy_R db t \<and> (\<forall>res. r = Inr res \<and> res_status res = RESOLVED \<longrightarrow> resolved_between dp t g ctx res))
    db (resolve dp ctx)"
  unfolding resolve_def
proof (rule rg_pbind)
  let ?Q = "\<lambda>t r. \<exists>t0 now. policy_R db t0 \<and> policy_R t0 t \<and> r = Inr (resolve_sources now t0 ctx)"
  show "rg (policy_inv dp sha256 T) policy_R ?Q db (query (\<lambda>i db. resolve_sources (inp_now i) db ctx))"
    by (rule pg.rg_query) auto
  fix t and a :: "string list + string list \<times> timestamp option" assume "?Q t (Inr a)"
  then obtain t0 now where t0: "policy_R db t0" "policy_R t0 t" and a: "a = resolve_sources now t0 ctx" by blast
  show "rg (policy_inv dp sha256 T) policy_R
      (\<lambda>t r. policy_R db t \<and> (\<forall>res. r = Inr res \<and> res_status res = RESOLVED \<longrightarrow> resolved_between dp t g ctx res)) t
      (case a of Inl reasons \<Rightarrow> preturn (review_required reasons)
       | Inr (codes, deadline) \<Rightarrow>
           act (\<lambda>_ db. (case resolve_versions dp db ctx codes deadline of
                          Inl issues \<Rightarrow> Inl (PolicyDslValidationError issues) | Inr res \<Rightarrow> Inr res, db)))"
  proof (cases a)
    case (Inl reasons)
    then show ?thesis using t0 policy_R_trans by (auto simp: review_required_def)
  next
    case (Inr cd)
    obtain codes d where cd: "cd = (codes, d)" by (cases cd)
    have "rg (policy_inv dp sha256 T) policy_R
      (\<lambda>t r. policy_R db t \<and> (\<forall>res. r = Inr res \<and> res_status res = RESOLVED \<longrightarrow> resolved_between dp t g ctx res)) t
      (act (\<lambda>_ db. (case resolve_versions dp db ctx codes d of
                          Inl issues \<Rightarrow> Inl (PolicyDslValidationError issues) | Inr res \<Rightarrow> Inr res, db)))"
    proof (rule rg_act)
      fix u r v assume "policy_inv dp sha256 T u" "policy_R t u"
        "(case resolve_versions dp u ctx codes d of
            Inl issues \<Rightarrow> Inl (PolicyDslValidationError issues) | Inr res \<Rightarrow> Inr res, u) = (r, v)"
      moreover from this have "policy_R t0 u" "policy_R db u" using t0 policy_R_trans by blast+
      moreover from this have "g \<le> pol_generation u" using assms by (simp add: policy_R_def)
      ultimately show "policy_inv dp sha256 T v \<and> policy_R u v \<and> policy_R db v
          \<and> (\<forall>res. r = Inr res \<and> res_status res = RESOLVED \<longrightarrow> resolved_between dp v g ctx res)"
        using a Inr cd unfolding resolved_between_def
        by (auto split: sum.splits) (metis policy_R_refl)
    qed
    then show ?thesis by (simp add: Inr cd)
  qed
qed auto

definition made_from :: "uuid \<Rightarrow> PolicyResolutionResult \<Rightarrow> CasePolicySnapshot \<Rightarrow> bool" where
  "made_from tenantId res s \<longleftrightarrow>
     snp_tenantId s = tenantId \<and> snp_resolutionStatus s = res_status res
     \<and> snp_versions s = snapshotVersions res \<and> snp_unresolvedReasons s = res_unresolvedReasons res"

lemma made_from_digest: "made_from tenantId res s \<Longrightarrow> snapshot_digest sha256 s = resolution_digest sha256 res"
  by (simp add: made_from_def snapshot_digest_def resolution_digest_def)

lemma persistSnapshot_rg:
  "rg (policy_inv dp sha256 T) policy_R
     (\<lambda>t r. policy_R db t \<and> (\<forall>s. r = Inr s \<longrightarrow> made_from tenantId res s \<and> find_snapshot t tenantId (snp_id s) = Some s))
     db (persistSnapshot tenantId caseId res digest)"
  unfolding persistSnapshot_def
proof (rule rg_act)
  fix i t r u
  let ?s = "\<lparr>snp_id = inp_id i, snp_tenantId = tenantId, snp_caseId = caseId, snp_resolvedAt = inp_now i,
        snp_contextHash = digest, snp_resolverVersion = RESOLVER_VERSION,
        snp_resolutionStatus = res_status res, snp_versions = snapshotVersions res,
        snp_unresolvedReasons = res_unresolvedReasons res\<rparr>"
  assume t: "policy_inv dp sha256 T t" "policy_R db t" "run_txn (insert_snapshot ?s) t = (r, u)"
  show "policy_inv dp sha256 T u \<and> policy_R t u \<and> policy_R db u
      \<and> (\<forall>s. r = Inr s \<longrightarrow> made_from tenantId res s \<and> find_snapshot u tenantId (snp_id s) = Some s)"
  proof (cases r)
    case (Inl e)
    with t show ?thesis by (simp add: run_txn_Inl_iff)
  next
    case (Inr s)
    with t(3) have "insert_snapshot ?s t = Inr (s, u)" by (simp add: run_txn_Inr_iff)
    from insert_snapshot_ok [OF t(1) this] t(2) Inr show ?thesis
      using policy_R_trans by (auto simp: made_from_def)
  qed
qed

lemma nextRevalidationDeadline_le:
  "res_revalidateAfter res = Some rv \<Longrightarrow> nextRevalidationDeadline now res \<le> rv"
  by (simp add: nextRevalidationDeadline_def)

lemma ok_recover_winner: "ok dp sha256 T db (recover_winner dp' tenantId caseId)"
  unfolding recover_winner_def by (intro ok_pbind ok_read) simp_all

lemma bind_case_ok:
  assumes res: "resolved_between dp db g ctx res" "res_status res = RESOLVED"
    and s: "made_from tenantId res s" "find_snapshot db tenantId (snp_id s) = Some s"
    and ctx: "ctx_ok ctx" "ctx_asOf ctx \<le> T"
  shows "ok dp sha256 T db (bind_case dp tenantId caseId ctx g now res (resolution_digest sha256 res) s)"
  unfolding bind_case_def
proof (rule rg_pcatch)
  let ?b = "\<lambda>i. \<lparr>bnd_id = inp_id i, bnd_tenantId = tenantId, bnd_caseId = caseId,
           bnd_dependencyDigest = resolution_digest sha256 res,
           bnd_observedCatalogGeneration = g, bnd_contextKey = contextKey ctx,
           bnd_policySnapshotId = snp_id s, bnd_boundAt = inp_now i,
           bnd_revalidateAfter = nextRevalidationDeadline now res, bnd_invalidatedAt = None\<rparr>"
  have backed: "backed dp sha256 T t (?b i)" if "policy_R db t" for t i
  proof -
    have "find_snapshot t tenantId (snp_id s) = Some s" using s(2) that by (simp add: policy_R_def)
    moreover have "resolved_between dp t g ctx res" using res(1) that by (rule resolved_between_later)
    ultimately show ?thesis
      using s(1) res(2) ctx resolved_no_reasons [OF res(1)] made_from_digest [OF s(1)]
      by (intro backedI [of _ _ s _ _ ctx res]) (auto simp: made_from_def nextRevalidationDeadline_le)
  qed
  show "ok dp sha256 T db (pbind (act (\<lambda>i. run_txn (insert_binding (?b i))))
      (\<lambda>b. preturn \<lparr>per_outcome = REFRESHED, per_resolution = Some res, per_snapshot = s, per_binding = Some b\<rparr>))"
  proof (rule ok_pbind [OF rg_act])
    fix i t r u
    assume t: "policy_inv dp sha256 T t" "policy_R db t" "run_txn (insert_binding (?b i)) t = (r, u)"
    show "policy_inv dp sha256 T u \<and> policy_R t u \<and> True"
    proof (cases r)
      case (Inl e)
      with t show ?thesis by (simp add: run_txn_Inl_iff)
    next
      case (Inr b)
      with t(3) have "insert_binding (?b i) t = Inr (b, u)" by (simp add: run_txn_Inr_iff)
      from insert_binding_ok [OF t(1) this backed [OF t(2)]] show ?thesis by simp
    qed
  qed simp
qed (simp_all add: ok_recover_winner)

lemma core_same:
  assumes "policy_inv dp sha256 T db" "b \<in> set (pol_bindings db)" "policy_R db t"
    and "c \<in> set (pol_bindings t)" "bnd_id c = bnd_id b"
  shows "bnd_core c = bnd_core b"
proof -
  have "bnd_id c \<in> binding_ids db" using assms(2,5) by (simp add: binding_ids_def)
  then obtain b' where b': "b' \<in> set (pol_bindings db)" "bnd_core b' = bnd_core c"
    using assms(3,4) unfolding policy_R_def by metis
  then have "bnd_id b' = bnd_id b" using assms(5) bnd_core_id by metis
  then have "b' = b" using assms(1,2) b'(1) by (auto simp: policy_inv_def bindings_ok_def distinct_map inj_on_def)
  with b' show ?thesis by simp
qed

lemma refresh_binding_ok:
  assumes inj: "inj sha256" and res: "resolved_between dp db g ctx res"
    and ctx: "ctx_ok ctx" "ctx_asOf ctx \<le> T"
    and b: "policy_inv dp sha256 T db0" "b \<in> set (pol_bindings db0)" "policy_R db0 db"
    and s: "find_snapshot db (bnd_tenantId b) (bnd_policySnapshotId b) = Some s"
      "snp_resolverVersion s = RESOLVER_VERSION" "bnd_contextKey b = contextKey ctx"
    and digest: "bnd_dependencyDigest b = resolution_digest sha256 res"
  shows "ok dp sha256 T db (refresh_binding b g (nextRevalidationDeadline now res))"
  unfolding refresh_binding_def
proof (rule rg_act)
  fix t r u
  let ?P = "\<lambda>c. bnd_id c = bnd_id b \<and> bnd_tenantId c = bnd_tenantId b"
  let ?f = "\<lambda>c. c\<lparr>bnd_observedCatalogGeneration := g, bnd_revalidateAfter := nextRevalidationDeadline now res\<rparr>"
  assume t: "policy_inv dp sha256 T t" "policy_R db t" "(Inr (), update_bindings ?P ?f t) = (r, u)"
  have "policy_inv dp sha256 T (update_bindings ?P ?f t) \<and> policy_R t (update_bindings ?P ?f t)"
  proof (rule update_bindings_ok [OF t(1)])
    fix c assume c: "c \<in> set (pol_bindings t)" "?P c"
    have "bnd_core c = bnd_core b"
      using core_same [OF b(1,2) policy_R_trans [OF b(3) t(2)] c(1)] c(2) by blast
    then have core: "bnd_tenantId c = bnd_tenantId b" "bnd_policySnapshotId c = bnd_policySnapshotId b"
      "bnd_dependencyDigest c = bnd_dependencyDigest b" "bnd_contextKey c = bnd_contextKey b"
      by (simp_all add: bnd_core_def)
    have found: "find_snapshot t (bnd_tenantId c) (bnd_policySnapshotId c) = Some s"
      using s(1) t(2) core by (simp add: policy_R_def)
    then have old: "bnd_dependencyDigest c = snapshot_digest sha256 s" "snp_resolutionStatus s = RESOLVED"
      "snp_unresolvedReasons s = []"
      using t(1) c(1) s(2) by (auto simp: policy_inv_def backed_def)
    have "snapshotVersions res = snp_versions s"
      by (rule digest_determines_versions [OF inj]) (use digest old(1) core(3) in simp)
    then show "backed dp sha256 T t (?f c)"
      using found old s(3) core ctx resolved_between_later [OF res t(2)]
      by (intro backedI [of _ _ s _ _ ctx res]) (auto simp: nextRevalidationDeadline_le)
  qed (simp_all add: bnd_core_def)
  with t(3) show "policy_inv dp sha256 T u \<and> policy_R t u \<and> True" by auto
qed

lemma ok_invalidate:
  assumes "\<And>i. \<exists>x. f i = (\<lambda>b. b\<lparr>bnd_invalidatedAt := Some x\<rparr>)"
  shows "ok dp sha256 T db (act (\<lambda>i db. (Inr (), update_bindings P (f i) db)))"
proof (rule rg_act)
  fix i t r u
  assume t: "policy_inv dp sha256 T t" "(Inr (), update_bindings P (f i) t) = (r, u)"
  obtain x where f: "f i = (\<lambda>b. b\<lparr>bnd_invalidatedAt := Some x\<rparr>)" using assms by blast
  have "policy_inv dp sha256 T (update_bindings P (f i) t) \<and> policy_R t (update_bindings P (f i) t)"
    by (rule update_bindings_ok [OF t(1)])
      (use t(1) in \<open>auto simp: f bnd_core_def backed_invalidate policy_inv_def\<close>)
  with t(2) show "policy_inv dp sha256 T u \<and> policy_R t u \<and> True" by auto
qed

lemma ok_invalidateActiveBinding [intro, simp]: "ok dp sha256 T db (invalidateActiveBinding tenantId caseId)"
  unfolding invalidateActiveBinding_def by (rule ok_invalidate) blast

lemma ok_invalidate_binding [intro, simp]: "ok dp sha256 T db (invalidate_binding b now)"
  unfolding invalidate_binding_def by (rule ok_invalidate) blast

lemma apply_resolution_ok:
  assumes inj: "inj sha256" and ctx: "ctx_ok ctx" "ctx_asOf ctx \<le> T"
    and res: "res_status res = RESOLVED \<Longrightarrow> resolved_between dp db g ctx res"
    and b: "\<And>b s. existing = Some b \<Longrightarrow> snap = Some s \<Longrightarrow>
      b \<in> set (pol_bindings db0) \<and> find_snapshot db (bnd_tenantId b) (bnd_policySnapshotId b) = Some s"
    and db0: "policy_inv dp sha256 T db0" "policy_R db0 db"
  shows "ok dp sha256 T db (apply_resolution dp sha256 tenantId caseId ctx g now existing snap res)"
proof (cases "res_status res")
  case REVIEW_REQUIRED
  then show ?thesis
    unfolding apply_resolution_def Let_def
    by (auto intro!: ok_pbind rg_weaken [OF persistSnapshot_rg])
next
  case RESOLVED
  note rb = res [OF RESOLVED]
  have rebind: "ok dp sha256 T db
      (pbind (persistSnapshot tenantId caseId res (resolution_digest sha256 res)) (\<lambda>s'. pbind p (\<lambda>_.
         bind_case dp tenantId caseId ctx g now res (resolution_digest sha256 res) s')))"
    if p: "\<And>t. rg (policy_inv dp sha256 T) policy_R (\<lambda>u _. policy_R t u) t p" for p :: "unit policy_prog"
  proof (rule rg_pbind [OF persistSnapshot_rg])
    fix t s' assume t: "policy_R db t \<and> (\<forall>s. Inr s' = Inr s \<longrightarrow> made_from tenantId res s \<and> find_snapshot t tenantId (snp_id s) = Some s)"
    show "ok dp sha256 T t (pbind p (\<lambda>_. bind_case dp tenantId caseId ctx g now res (resolution_digest sha256 res) s'))"
    proof (rule rg_pbind [OF p])
      fix u x assume u: "policy_R t u"
      then have "resolved_between dp u g ctx res"
        using t resolved_between_later [OF rb] policy_R_trans by blast
      moreover have "made_from tenantId res s'" "find_snapshot u tenantId (snp_id s') = Some s'"
        using t u unfolding policy_R_def by blast+
      ultimately show "ok dp sha256 T u (bind_case dp tenantId caseId ctx g now res (resolution_digest sha256 res) s')"
        using RESOLVED ctx by (intro bind_case_ok)
    qed simp
  qed simp
  have inval: "rg (policy_inv dp sha256 T) policy_R (\<lambda>u _. policy_R t u) t (invalidate_binding b now)" for t b
    by (rule rg_weaken [OF pg.rg_guarantee [OF ok_invalidate_binding]]) simp
  show ?thesis
  proof (cases "reusable (contextKey ctx) existing snap")
    case None
    have "rg (policy_inv dp sha256 T) policy_R (\<lambda>u _. policy_R t u) t
        (case existing of None \<Rightarrow> preturn () | Some b \<Rightarrow> invalidate_binding b now)" for t
      using inval by (auto split: option.split)
    from rebind [OF this] show ?thesis
      using None RESOLVED by (simp add: apply_resolution_def Let_def)
  next
    case (Some bs)
    then obtain b' s where bs: "bs = (b', s)" "existing = Some b'" "snap = Some s"
      "snp_resolverVersion s = RESOLVER_VERSION" "bnd_contextKey b' = contextKey ctx"
      by (auto simp: reusable_def split: option.splits if_splits)
    show ?thesis
    proof (cases "bnd_dependencyDigest b' = resolution_digest sha256 res")
      case True
      have "ok dp sha256 T db (refresh_binding b' g (nextRevalidationDeadline now res))"
        by (rule refresh_binding_ok [OF inj rb ctx db0(1) _ db0(2)]) (use b bs True in auto)
      then show ?thesis
        using Some bs True RESOLVED by (simp add: apply_resolution_def Let_def ok_pbind)
    next
      case False
      then show ?thesis
        using Some bs RESOLVED rebind [OF inval] by (simp add: apply_resolution_def Let_def)
    qed
  qed
qed

lemma find_active_bindingD:
  "find_active_binding db tenantId caseId = Some b \<Longrightarrow>
     b \<in> set (pol_bindings db) \<and> bnd_tenantId b = tenantId \<and> bnd_caseId b = caseId \<and> bnd_invalidatedAt b = None"
  unfolding find_active_binding_def by (drule latest_by_SomeD) simp

lemma evaluateInternal_ok:
  assumes "inj sha256" "ctx_ok ctx" "ctx_asOf ctx \<le> T"
  shows "ok dp sha256 T db (evaluateInternal dp sha256 tenantId caseId ctx)"
  unfolding evaluateInternal_def
proof (rule rg_pbind)
  show "rg (policy_inv dp sha256 T) policy_R (\<lambda>t r. \<forall>g. r = Inr g \<longrightarrow> g \<le> pol_generation t) db
      (query (\<lambda>_ db. pol_generation db))"
    by (rule pg.rg_query) simp
  fix t :: policy_db and g assume g: "\<forall>h. Inr g = Inr h \<longrightarrow> h \<le> pol_generation t"
  let ?Q = "\<lambda>u r. g \<le> pol_generation u \<and> (\<forall>ex. r = Inr ex \<longrightarrow>
      (\<exists>db0. policy_inv dp sha256 T db0 \<and> policy_R db0 u \<and> ex = find_active_binding db0 tenantId caseId))"
  show "ok dp sha256 T t (pbind (query (\<lambda>_ db. find_active_binding db tenantId caseId)) (\<lambda>existing.
     pbind (act (\<lambda>i db.
       (case existing of
          None \<Rightarrow> Inr (inp_now i, None)
        | Some b \<Rightarrow> and_then (or_throw (find_snapshot db tenantId (bnd_policySnapshotId b))
                                (EntityNotFound ''CasePolicySnapshot'')) (\<lambda>s. Inr (inp_now i, Some s)), db)))
       (\<lambda>(now, snap).
     case fast_path g now (reusable (contextKey ctx) existing snap) of
       Some (b, s) \<Rightarrow> preturn (reused dp b s)
     | None \<Rightarrow> pbind (resolve dp ctx)
           (apply_resolution dp sha256 tenantId caseId ctx g now existing snap))))"
  proof (rule rg_pbind)
    show "rg (policy_inv dp sha256 T) policy_R ?Q t (query (\<lambda>_ db. find_active_binding db tenantId caseId))"
      using g by (intro pg.rg_query) (auto simp: policy_R_def)
    fix u :: policy_db and ex assume "?Q u (Inr ex)"
    then obtain db0 where gu: "g \<le> pol_generation u" and db0: "policy_inv dp sha256 T db0" "policy_R db0 u"
      and ex: "ex = find_active_binding db0 tenantId caseId" by blast
    let ?P = "\<lambda>v r. g \<le> pol_generation v \<and> policy_R db0 v \<and> (\<forall>now s. r = Inr (now, Some s) \<longrightarrow>
        (\<exists>b. ex = Some b \<and> find_snapshot v tenantId (bnd_policySnapshotId b) = Some s))"
    show "ok dp sha256 T u (pbind (act (\<lambda>i db.
       (case ex of
          None \<Rightarrow> Inr (inp_now i, None)
        | Some b \<Rightarrow> and_then (or_throw (find_snapshot db tenantId (bnd_policySnapshotId b))
                                (EntityNotFound ''CasePolicySnapshot'')) (\<lambda>s. Inr (inp_now i, Some s)), db)))
       (\<lambda>(now, snap).
     case fast_path g now (reusable (contextKey ctx) ex snap) of
       Some (b, s) \<Rightarrow> preturn (reused dp b s)
     | None \<Rightarrow> pbind (resolve dp ctx) (apply_resolution dp sha256 tenantId caseId ctx g now ex snap)))"
    proof (rule rg_pbind [of _ _ ?P])
      show "rg (policy_inv dp sha256 T) policy_R ?P u (act (\<lambda>i db.
         (case ex of
            None \<Rightarrow> Inr (inp_now i, None)
          | Some b \<Rightarrow> and_then (or_throw (find_snapshot db tenantId (bnd_policySnapshotId b))
                                  (EntityNotFound ''CasePolicySnapshot'')) (\<lambda>s. Inr (inp_now i, Some s)), db)))"
      proof (rule rg_act)
        fix i v r w
        assume v: "policy_inv dp sha256 T v" "policy_R u v"
          "(case ex of None \<Rightarrow> Inr (inp_now i, None)
            | Some b \<Rightarrow> and_then (or_throw (find_snapshot v tenantId (bnd_policySnapshotId b))
                (EntityNotFound ''CasePolicySnapshot'')) (\<lambda>s. Inr (inp_now i, Some s)), v) = (r, w)"
        have w: "w = v" using v(3) by simp
        have gv: "g \<le> pol_generation v" using gu v(2) unfolding policy_R_def by linarith
        have found: "\<exists>b. ex = Some b \<and> find_snapshot v tenantId (bnd_policySnapshotId b) = Some s"
          if "r = Inr (n, Some s)" for n s
          using v(3) that by (cases ex; cases "find_snapshot v tenantId (bnd_policySnapshotId (the ex))") simp_all
        show "policy_inv dp sha256 T w \<and> policy_R v w \<and> ?P w r"
          unfolding w by (intro conjI allI impI v(1) gv policy_R_trans [OF db0(2) v(2)] policy_R_refl) (rule found)
      qed
      fix v and ns :: "timestamp \<times> CasePolicySnapshot option" assume v: "?P v (Inr ns)"
      obtain now snap where ns: "ns = (now, snap)" by (cases ns)
      have slow: "ok dp sha256 T v (pbind (resolve dp ctx) (apply_resolution dp sha256 tenantId caseId ctx g now ex snap))"
      proof (rule rg_pbind [OF resolve_rg [of g v]])
        fix w res
        assume w: "policy_R v w \<and> (\<forall>res'. Inr res = Inr res' \<and> res_status res' = RESOLVED \<longrightarrow> resolved_between dp w g ctx res')"
        show "ok dp sha256 T w (apply_resolution dp sha256 tenantId caseId ctx g now ex snap res)"
        proof (rule apply_resolution_ok [OF assms])
          fix b s assume "ex = Some b" "snap = Some s"
          then have "b \<in> set (pol_bindings db0)" "bnd_tenantId b = tenantId"
            "find_snapshot v tenantId (bnd_policySnapshotId b) = Some s"
            using ex find_active_bindingD [of db0 tenantId caseId b] v ns by auto
          then show "b \<in> set (pol_bindings db0) \<and> find_snapshot w (bnd_tenantId b) (bnd_policySnapshotId b) = Some s"
            using w unfolding policy_R_def by blast
        qed (use w v db0(1) policy_R_trans in auto)
      qed (use v in auto)
      show "ok dp sha256 T v (case ns of (now, snap) \<Rightarrow>
         case fast_path g now (reusable (contextKey ctx) ex snap) of
           Some (b, s) \<Rightarrow> preturn (reused dp b s)
         | None \<Rightarrow> pbind (resolve dp ctx) (apply_resolution dp sha256 tenantId caseId ctx g now ex snap))"
        using slow by (auto simp: ns split: option.split)
    qed simp
  qed simp
qed simp

section \<open>Snapshots give resolutions back\<close>

lemma toISOString_nonempty [simp]: "toISOString t \<noteq> []"
  by (simp add: toISOString_def Let_def split: prod.split)

lemma reconstruct_snapshot:
  assumes iso: "\<And>t. valid_time t \<Longrightarrow> dp (toISOString t) = Some t"
    and valid: "\<And>v. v \<in> set (res_versions res) \<Longrightarrow>
      valid_time (rv_effectiveFrom v) \<and> (\<forall>e. rv_effectiveTo v = Some e \<longrightarrow> valid_time e)"
    and s: "snp_versions s = snapshotVersions res"
  shows "reconstructResolution dp s =
    Some \<lparr>res_status = snp_resolutionStatus s, res_versions = sort_key rv_policyVersionId (res_versions res),
      res_unresolvedReasons = snp_unresolvedReasons s, res_revalidateAfter = None\<rparr>"
proof -
  let ?F = "\<lambda>v. \<lparr>sv_policyVersionId = rv_policyVersionId v, sv_ruleId = rv_ruleId v, sv_version = rv_version v,
                  sv_rule = rv_rule v, sv_effectiveFrom = toISOString (rv_effectiveFrom v),
                  sv_effectiveTo = map_option toISOString (rv_effectiveTo v)\<rparr>"
  let ?G = "\<lambda>v. case dp (sv_effectiveFrom v) of
                   None \<Rightarrow> None
                 | Some from \<Rightarrow>
                     (let ref = (\<lambda>to. \<lparr>rv_policyVersionId = sv_policyVersionId v, rv_ruleId = sv_ruleId v,
                                       rv_version = sv_version v, rv_rule = sv_rule v, rv_effectiveFrom = from,
                                       rv_effectiveTo = to\<rparr>)
                      in case sv_effectiveTo v of
                           None \<Rightarrow> Some (ref None)
                         | Some e \<Rightarrow> if e = [] then Some (ref None) else map_option (\<lambda>t. ref (Some t)) (dp e))"
  have FG: "?G (?F v) = Some v" if "v \<in> set (res_versions res)" for v
    using valid [OF that] by (auto simp: iso split: option.split)
  have "snp_versions s = map ?F (sort_key rv_policyVersionId (res_versions res))"
    unfolding s snapshotVersions_def sort_key_map by simp
  then have "map ?G (snp_versions s) = map Some (sort_key rv_policyVersionId (res_versions res))"
    using FG by (simp add: comp_def)
  then show ?thesis unfolding reconstructResolution_def Let_def by (simp add: comp_def image_iff)
qed

end
