(* ===== verification/Policy_Scenario.thy ===== *)
theory Policy_Scenario
  imports Policy_Evaluation Policy_Rule_Properties Running_Alone
begin

text \<open>
  A concrete catalog for the examples of \<open>Policy_Properties\<close>: California below the United
  States, one fresh source each, an income rule released for both the conventional and the
  FHA product, a draft of its successor, and a case. \<open>spell\<close> is an injective stand-in for
  the hash: it spells the hashed tokens out.
\<close>

section \<open>An injective text of tokens\<close>

fun spell_string :: "string \<Rightarrow> string" where
  "spell_string [] = ''0''"
| "spell_string (c # cs) = CHR ''1'' # c # spell_string cs"

definition spell_int :: "int \<Rightarrow> string" where
  "spell_int n = spell_string ((if n < 0 then CHR ''-'' else CHR ''+'') # nat_text (nat \<bar>n\<bar>))"

fun spell_tok :: "tok \<Rightarrow> string" where
  "spell_tok TLBrace = ''a''" | "spell_tok TRBrace = ''b''" | "spell_tok TLBrack = ''c''"
| "spell_tok TRBrack = ''d''" | "spell_tok TComma = ''e''" | "spell_tok TColon = ''f''"
| "spell_tok TTrue = ''g''" | "spell_tok TFalse = ''h''" | "spell_tok TNull = ''i''"
| "spell_tok (TStr s) = CHR ''s'' # spell_string s"
| "spell_tok (TNum q) = CHR ''n'' # spell_int (fst (quotient_of q)) @ spell_int (snd (quotient_of q))"

definition spell :: "tok list \<Rightarrow> string" where
  "spell ts = concat (map spell_tok ts)"

lemma unpad_nat_text: "unpad (nat_text n) = int n"
proof (induction n rule: nat_text.induct)
  case (1 n)
  show ?case
  proof (cases "n < 10")
    case True
    then show ?thesis by (simp add: nat_text.simps [of n] unpad_def)
  next
    case False
    with 1 have "unpad (nat_text (n div 10)) = int (n div 10)" by simp
    then show ?thesis using False by (simp add: nat_text.simps [of n] unpad_def, presburger)
  qed
qed

lemma spell_string_prefix: "spell_string s @ r = spell_string t @ q \<Longrightarrow> s = t \<and> r = q"
proof (induction s arbitrary: t)
  case Nil then show ?case by (cases t) auto
next
  case (Cons c s) then show ?case by (cases t) auto
qed

lemma spell_int_prefix: "spell_int m @ r = spell_int n @ q \<Longrightarrow> m = n \<and> r = q"
proof -
  assume "spell_int m @ r = spell_int n @ q"
  then have "(if m < 0 then CHR ''-'' else CHR ''+'') # nat_text (nat \<bar>m\<bar>)
      = (if n < 0 then CHR ''-'' else CHR ''+'') # nat_text (nat \<bar>n\<bar>) \<and> r = q"
    unfolding spell_int_def by (rule spell_string_prefix)
  moreover from this have "int (nat \<bar>m\<bar>) = int (nat \<bar>n\<bar>)" by (metis list.inject unpad_nat_text)
  ultimately show "m = n \<and> r = q" by (auto split: if_splits)
qed

lemma spell_tok_prefix: "spell_tok t @ r = spell_tok u @ q \<Longrightarrow> t = u \<and> r = q"
proof -
  assume a: "spell_tok t @ r = spell_tok u @ q"
  have num: "x = y \<and> r = q" if "spell_int (fst (quotient_of x)) @ spell_int (snd (quotient_of x)) @ r
      = spell_int (fst (quotient_of y)) @ spell_int (snd (quotient_of y)) @ q" for x y
    using spell_int_prefix [OF that] spell_int_prefix by (metis prod.expand quotient_of_inject_eq)
  show ?thesis
    using a by (cases t; cases u) (auto dest: num spell_string_prefix)
qed

lemma spell_inj: "inj spell"
proof (rule injI)
  fix xs ys assume "spell xs = spell ys"
  then show "xs = ys"
  proof (induction xs arbitrary: ys)
    case Nil
    have "spell_tok t \<noteq> []" for t by (cases t) auto
    with Nil show ?case by (cases ys) (auto simp: spell_def)
  next
    case (Cons x xs)
    have "spell_tok t \<noteq> []" for t by (cases t) auto
    with Cons.prems obtain y zs where ys: "ys = y # zs" by (cases ys) (auto simp: spell_def)
    have "x = y \<and> spell xs = spell zs"
      using Cons.prems spell_tok_prefix [of x "spell xs" y "spell zs"] by (simp add: ys spell_def)
    with Cons.IH ys show ?case by simp
  qed
qed

section \<open>A catalog\<close>

definition day :: int where "day = 86400000"

text \<open>1 January 2027, 00:00 UTC.\<close>

definition new_year :: timestamp where "new_year = 1798761600000"

definition ex_version :: "uuid \<Rightarrow> string \<Rightarrow> timestamp \<Rightarrow> PolicyReleaseStatus \<Rightarrow> PolicyVersion" where
  "ex_version i v from st =
     \<lparr>ver_id = i, ver_ruleId = ''income-discrepancy'', ver_version = v, ver_sourceRevisionId = ''r1'',
      ver_dsl = ex_raw_rule (JStr ''evaluation_as_of_effective_date''), ver_effectiveFrom = from,
      ver_effectiveTo = None, ver_releaseStatus = st\<rparr>"

definition ex_apl :: "uuid \<Rightarrow> uuid \<Rightarrow> string \<Rightarrow> PolicyApplicability" where
  "ex_apl i v j =
     \<lparr>apl_id = i, apl_policyVersionId = v, apl_jurisdictionCode = j, apl_productCode = ''CONVENTIONAL_MORTGAGE'',
      apl_lifecycleEvent = ''UNDERWRITING_REVIEW'', apl_transitionRule = None\<rparr>"

definition ex_revision :: "uuid \<Rightarrow> uuid \<Rightarrow> PolicySourceRevision" where
  "ex_revision i s =
     \<lparr>rev_id = i, rev_policySourceId = s, rev_checksum = ''c1'', rev_publishedAt = new_year, rev_recordedAt = new_year,
      rev_content = JObj [(''summary'', JStr ''synthetic'')]\<rparr>"

definition ex_source :: "uuid \<Rightarrow> string \<Rightarrow> PolicySource" where
  "ex_source i j =
     \<lparr>src_id = i, src_name = i, src_jurisdictionCode = j, src_retrievalMode = CONNECTOR,
      src_freshnessObjectiveHours = 720\<rparr>"

definition ex_catalog :: "PolicyVersion list \<Rightarrow> PolicyApplicability list \<Rightarrow> policy_db" where
  "ex_catalog vs as =
     \<lparr>pol_jurisdictions = [\<lparr>jur_code = ''US'', jur_parentCode = None, jur_coverageStatus = COVERED\<rparr>,
                           \<lparr>jur_code = ''US-CA'', jur_parentCode = Some ''US'', jur_coverageStatus = COVERED\<rparr>],
      pol_sources = [ex_source ''s1'' ''US'', ex_source ''s2'' ''US-CA''],
      pol_revisions = [ex_revision ''r1'' ''s1'', ex_revision ''r2'' ''s2''],
      pol_versions = vs, pol_applicability = as, pol_approvals = [], pol_generation = 0,
      pol_snapshots = [], pol_bindings = [], pol_assessments = [],
      pol_cases = [\<lparr>lc_id = ''k1'', lc_tenantId = ''t1'', lc_jurisdictionCode = ''US-CA'', lc_loanType = CONVENTIONAL,
                    lc_createdAt = new_year\<rparr>],
      pol_audit = []\<rparr>"

definition ex_context :: "timestamp \<Rightarrow> PolicyResolutionContext" where
  "ex_context t =
     \<lparr>ctx_jurisdictionCode = ''US-CA'', ctx_productCode = ''CONVENTIONAL_MORTGAGE'',
      ctx_lifecycleEvent = ''UNDERWRITING_REVIEW'', ctx_asOf = t, ctx_applicationReceivedAt = Some new_year\<rparr>"

definition ex_input :: "timestamp \<Rightarrow> uuid \<Rightarrow> policy_input" where
  "ex_input t i = \<lparr>inp_now = t, inp_id = i\<rparr>"

text \<open>Reads the texts of \<open>toISOString\<close> and the one date the example rule carries.\<close>

definition ex_parse :: "string \<Rightarrow> timestamp option" where
  "ex_parse s = (if s = ''2027-01-01'' then Some new_year else iso_parse s)"

lemma ex_parse_iso: "valid_time t \<Longrightarrow> ex_parse (toISOString t) = Some t"
proof -
  assume "valid_time t"
  moreover have "toISOString t \<noteq> ''2027-01-01''"
  proof
    assume "toISOString t = ''2027-01-01''"
    then have "length (toISOString t) = 10" by simp
    then show False by (simp add: toISOString_def Let_def split: prod.splits if_splits)
  qed
  ultimately show ?thesis by (simp add: ex_parse_def)
qed

section \<open>A first evaluation\<close>

definition ex_db0 :: policy_db where
  "ex_db0 = ex_catalog
     [ex_version ''v1'' ''1.0.0'' new_year RELEASED, ex_version ''v2'' ''1.1.0'' (new_year + 10 * day) DRAFT]
     [ex_apl ''a1'' ''v1'' ''US-CA'', ex_apl ''a2'' ''v2'' ''US-CA'']"

definition ex_inputs :: "timestamp \<Rightarrow> nat \<Rightarrow> policy_input" where
  "ex_inputs t n = ex_input t (CHR ''x'' # nat_text n)"

definition ex_res :: PolicyResolutionResult where
  "ex_res = projr (resolution_at ex_parse ex_db0 (new_year + day) (ex_context (new_year + day)))"

definition ex_snapshot :: CasePolicySnapshot where
  "ex_snapshot =
     \<lparr>snp_id = ''x5'', snp_tenantId = ''t1'', snp_caseId = ''k1'', snp_resolvedAt = new_year + day,
      snp_contextHash = resolution_digest spell ex_res, snp_resolverVersion = ''2.0.0'',
      snp_resolutionStatus = RESOLVED, snp_versions = snapshotVersions ex_res, snp_unresolvedReasons = []\<rparr>"

definition ex_binding :: CasePolicyBinding where
  "ex_binding =
     \<lparr>bnd_id = ''x6'', bnd_tenantId = ''t1'', bnd_caseId = ''k1'', bnd_dependencyDigest = resolution_digest spell ex_res,
      bnd_observedCatalogGeneration = 0, bnd_contextKey = contextKey (ex_context (new_year + day)),
      bnd_policySnapshotId = ''x5'', bnd_boundAt = new_year + day, bnd_revalidateAfter = new_year + day + 3600000,
      bnd_invalidatedAt = None\<rparr>"

definition ex_db1 :: policy_db where
  "ex_db1 = ex_db0\<lparr>pol_snapshots := [ex_snapshot], pol_bindings := [ex_binding]\<rparr>"

lemma ex_sources:
  "resolve_sources (new_year + day) ex_db0 (ex_context (new_year + day)) = Inr ([''US-CA'', ''US''], Some (new_year + 30 * day))"
  by code_simp

lemma ex_versions:
  "resolve_versions ex_parse ex_db0 (ex_context (new_year + day)) [''US-CA'', ''US''] (Some (new_year + 30 * day)) = Inr ex_res"
  "res_status ex_res = RESOLVED" "res_unresolvedReasons ex_res = []"
  "nextRevalidationDeadline (new_year + day) ex_res = new_year + day + 3600000"
  unfolding ex_res_def by code_simp+

lemma ex_run:
  "prun (evaluateInternal ex_parse spell ''t1'' ''k1'' (ex_context (new_year + day))) (ex_inputs (new_year + day)) ex_db0
   = (Inr \<lparr>per_outcome = REFRESHED, per_resolution = Some ex_res, per_snapshot = ex_snapshot,
       per_binding = Some ex_binding\<rparr>, ex_db1)"
proof -
  have none: "find_active_binding ex_db0 ''t1'' ''k1'' = None" "pol_generation ex_db0 = 0"
    "pol_snapshots ex_db0 = []" "pol_bindings ex_db0 = []"
    and len: "length (contextKey (ex_context (new_year + day))) \<le> 300"
    and ids: "inp_now (ex_inputs t n) = t" "inp_id (ex_inputs t n) = CHR ''x'' # nat_text n"
      "nat_text (Suc (Suc (Suc (Suc (Suc 0))))) = ''5''" "nat_text (Suc (Suc (Suc (Suc (Suc (Suc 0)))))) = ''6''"
    and v: "RESOLVER_VERSION = ''2.0.0''" for t n
    by (code_simp | simp add: ex_inputs_def ex_input_def)+
  show ?thesis
    using len
    by (simp add: evaluateInternal_def none fast_path_def reusable_def resolve_def pbind_assoc ids ex_sources ex_versions
        apply_resolution_def Let_def persistSnapshot_def run_txn_def insert_snapshot_def bind_case_def insert_binding_def
        act_def preturn_def ex_snapshot_def ex_binding_def ex_db1_def v)
qed

end
