(* ===== verification/Policy_Lifecycle.thy ===== *)
theory Policy_Lifecycle
  imports Policy_Evaluation
begin

text \<open>
  What holds of releases and bindings under every interleaving, proposals included: a
  version that is released now and was not at the start has an approval by someone other
  than its proposer, and a case has at most one active binding.
\<close>

definition approved_for :: "policy_db \<Rightarrow> uuid \<Rightarrow> bool" where
  "approved_for db vid \<longleftrightarrow> (\<exists>a \<in> set (pol_approvals db). pta_policyVersionId a = vid
     \<and> (\<exists>x. pta_approvedBy a = Some x \<and> x \<noteq> pta_proposedBy a))"

definition approvals_ok :: "policy_db \<Rightarrow> bool" where
  "approvals_ok db \<longleftrightarrow> distinct (map pta_id (pol_approvals db))
     \<and> (\<forall>a \<in> set (pol_approvals db). \<forall>x. pta_approvedBy a = Some x \<longrightarrow> x \<noteq> pta_proposedBy a)"

definition releases_ok :: "uuid set \<Rightarrow> policy_db \<Rightarrow> bool" where
  "releases_ok S db \<longleftrightarrow> (\<forall>v \<in> set (pol_versions db). ver_releaseStatus v = RELEASED \<longrightarrow>
     ver_id v \<in> S \<or> approved_for db (ver_id v))"

definition lifecycle_inv :: "uuid set \<Rightarrow> policy_db \<Rightarrow> bool" where
  "lifecycle_inv S db \<longleftrightarrow> bindings_ok db \<and> approvals_ok db \<and> releases_ok S db"

definition approval_core :: "PolicyTransitionApproval \<Rightarrow> uuid \<times> uuid \<times> string" where
  "approval_core a = (pta_id a, pta_policyVersionId a, pta_proposedBy a)"

definition lifecycle_R :: "policy_db \<Rightarrow> policy_db \<Rightarrow> bool" where
  "lifecycle_R db db' \<longleftrightarrow>
     (\<forall>vid. approved_for db vid \<longrightarrow> approved_for db' vid)
     \<and> approval_core ` set (pol_approvals db) \<subseteq> approval_core ` set (pol_approvals db')"

interpretation lg: rely_guarantee "lifecycle_inv S" lifecycle_R for S
proof unfold_locales
  show "lifecycle_R t u \<Longrightarrow> lifecycle_R u v \<Longrightarrow> lifecycle_R t v" for t u v
    unfolding lifecycle_R_def by (meson subset_trans)
qed (simp add: lifecycle_R_def)

abbreviation safe :: "uuid set \<Rightarrow> policy_db \<Rightarrow> 'a policy_prog \<Rightarrow> bool" where
  "safe S db p \<equiv> rg (lifecycle_inv S) lifecycle_R (\<lambda>_ _. True) db p"

lemma safe_pbind: "safe S db p \<Longrightarrow> (\<And>t a. safe S t (f a)) \<Longrightarrow> safe S db (pbind p f)"
  by (rule rg_pbind) simp_all

lemma safe_query [intro, simp]: "safe S db (query f)"
  by (rule lg.rg_query) simp

lemma lifecycle_frame:
  assumes "lifecycle_inv S t" "pol_approvals u = pol_approvals t" "pol_versions u = pol_versions t" "bindings_ok u"
  shows "lifecycle_inv S u \<and> lifecycle_R t u"
  using assms by (auto simp: lifecycle_inv_def lifecycle_R_def approvals_ok_def releases_ok_def approved_for_def)

lemma safe_write:
  assumes "\<And>i t. pol_approvals (snd (p i t)) = pol_approvals t" "\<And>i t. pol_versions (snd (p i t)) = pol_versions t"
    and "\<And>i t. bindings_ok t \<Longrightarrow> bindings_ok (snd (p i t))"
  shows "safe S db (act p)"
proof (rule rg_act)
  fix i t r u assume t: "lifecycle_inv S t" "p i t = (r, u)"
  then have "bindings_ok u" using assms(3) [of t i] by (simp add: lifecycle_inv_def)
  then show "lifecycle_inv S u \<and> lifecycle_R t u \<and> True"
    using lifecycle_frame [OF t(1)] assms(1,2) [of i t] t(2) by simp
qed

lemma safe_read: "(\<And>i t. snd (p i t) = t) \<Longrightarrow> safe S db (act p)"
  by (rule safe_write) simp_all

lemma safe_pmap_list: "(\<And>t x. safe S t (f x)) \<Longrightarrow> safe S db (pmap_list f xs)"
proof (induction xs arbitrary: db)
  case (Cons x xs)
  show ?case unfolding pmap_list.simps by (intro safe_pbind Cons) simp
qed simp

lemma bindings_ok_frame: "pol_bindings u = pol_bindings t \<Longrightarrow> bindings_ok u = bindings_ok t"
  by (simp add: bindings_ok_def active_bindings_def)

section \<open>Bindings\<close>

lemma bindings_ok_update:
  assumes "bindings_ok db" "\<And>b. bnd_core (f b) = bnd_core b"
    and "\<And>b. bnd_invalidatedAt (f b) = None \<Longrightarrow> bnd_invalidatedAt b = None"
  shows "bindings_ok (update_bindings P f db)"
proof -
  let ?g = "\<lambda>b. if P b then f b else b"
  have core: "bnd_core (?g b) = bnd_core b" for b using assms(2) by simp
  have id: "bnd_id (?g b) = bnd_id b" "case_key (?g b) = case_key b" for b
    using core [of b] by (simp_all add: bnd_core_def case_key_def split: if_splits)
  have "distinct (map case_key (filter (\<lambda>b. bnd_invalidatedAt b = None) (map ?g (pol_bindings db))))"
    by (rule distinct_active_update [OF _ id(2)])
      (use assms(1,3) in \<open>auto simp: bindings_ok_def active_bindings_def split: if_splits\<close>)
  moreover have "distinct (map bnd_id (map ?g (pol_bindings db)))"
    unfolding map_map comp_def id(1) using assms(1) by (simp add: bindings_ok_def)
  ultimately show ?thesis
    by (simp add: bindings_ok_def active_bindings_def update_bindings_def update_where_def)
qed

lemma bindings_ok_insert:
  assumes "bindings_ok db" "insert_binding b db = Inr (b', db')"
  shows "bindings_ok db'"
proof -
  have "db' = db\<lparr>pol_bindings := pol_bindings db @ [b]\<rparr>" "bnd_id b \<notin> binding_ids db"
    "bnd_invalidatedAt b = None \<Longrightarrow> case_key b \<notin> case_key ` set (active_bindings db)"
    using assms(2)
    by (auto simp: insert_binding_def binding_ids_def active_bindings_def case_key_def list_ex_iff split: if_splits)
  then show ?thesis using assms(1) by (auto simp: bindings_ok_def active_bindings_def binding_ids_def)
qed

lemma safe_resolve [intro, simp]: "safe S db (resolve dp ctx)"
  unfolding resolve_def by (rule safe_pbind) (auto split: sum.split prod.split intro!: safe_read)

lemma safe_persist [intro, simp]: "safe S db (persistSnapshot tenantId caseId res digest)"
  unfolding persistSnapshot_def
  by (rule safe_write) (auto simp: run_txn_def insert_snapshot_def intro: bindings_ok_frame [THEN iffD2])

lemma safe_update_bindings:
  assumes "\<And>i b. bnd_core (f i b) = bnd_core b" "\<And>i b. bnd_invalidatedAt (f i b) = None \<Longrightarrow> bnd_invalidatedAt b = None"
  shows "safe S db (act (\<lambda>i db. (Inr (), update_bindings P (f i) db)))"
  by (rule safe_write) (simp_all add: bindings_ok_update assms, simp_all add: update_bindings_def)

lemma safe_bind_case [intro, simp]: "safe S db (bind_case dp tenantId caseId ctx g now res digest s)"
proof -
  have ins: "safe S db (act (\<lambda>i. run_txn (insert_binding (b i))))" for b and db
  proof (rule safe_write)
    fix i t
    show "bindings_ok t \<Longrightarrow> bindings_ok (snd (run_txn (insert_binding (b i)) t))"
      by (cases "insert_binding (b i) t") (auto simp: run_txn_def intro: bindings_ok_insert)
  qed (auto simp: run_txn_def insert_binding_def)
  show ?thesis
    unfolding bind_case_def recover_winner_def
    by (rule rg_pcatch [where Q = "\<lambda>_ _. True"]) (auto intro!: safe_pbind ins intro: safe_read)
qed

lemma safe_evaluate [intro, simp]: "safe S db (evaluateInternal dp sha256 tenantId caseId ctx)"
proof -
  have inv: "safe S t (invalidate_binding b now)" "safe S t (invalidateActiveBinding tenantId caseId)"
    "safe S t (refresh_binding b g d)" for t b now g d
    unfolding invalidate_binding_def invalidateActiveBinding_def refresh_binding_def
    by (rule safe_update_bindings; simp add: bnd_core_def)+
  have "safe S t (apply_resolution dp sha256 tenantId caseId ctx g now ex snap res)" for t g now ex snap res
    unfolding apply_resolution_def Let_def
    by (auto split: option.split prod.split intro!: safe_pbind inv)
  then show ?thesis
    unfolding evaluateInternal_def
    by (intro safe_pbind) (auto split: option.split prod.split intro!: safe_pbind intro: safe_read)
qed

section \<open>Releases\<close>

lemma hasApprovedTransition_approved:
  "approvals_ok db \<Longrightarrow> hasApprovedTransition db vid \<Longrightarrow> approved_for db vid"
  by (auto simp: hasApprovedTransition_def approved_for_def approvals_ok_def dest!: latest_by_SomeD split: option.splits)

lemma releases_ok_status:
  assumes "releases_ok S db" "st = RELEASED \<Longrightarrow> vid \<in> S \<or> approved_for db vid"
  shows "releases_ok S (set_status vid st db)"
  using assms
  by (auto simp: releases_ok_def approved_for_def set_status_def set_update_where split: if_splits)

lemma lifecycle_status:
  assumes "lifecycle_inv S db" "st = RELEASED \<Longrightarrow> vid \<in> S \<or> approved_for db vid"
    and "pol_versions db' = pol_versions (set_status vid st db)" "pol_approvals db' = pol_approvals db"
    and "pol_bindings db' = pol_bindings db"
  shows "lifecycle_inv S db' \<and> lifecycle_R db db'"
proof -
  have "releases_ok S (set_status vid st db)"
    using assms(1,2) by (intro releases_ok_status) (simp_all add: lifecycle_inv_def)
  with assms show ?thesis
    using bindings_ok_frame [of db' db]
    by (simp add: lifecycle_inv_def lifecycle_R_def approvals_ok_def releases_ok_def approved_for_def)
qed

lemma safe_assessOneCase [intro, simp]: "safe S db (assessOneCase dp vid j p l c)"
proof -
  have ins: "safe S db (act (\<lambda>i. run_txn (insert_assessment (a i))))" for a and db
    by (rule safe_write)
      (auto simp: run_txn_def insert_assessment_def intro: bindings_ok_frame [THEN iffD2])
  show ?thesis
    unfolding assessOneCase_def
    by (rule safe_pbind) (auto split: option.split prod.split intro!: safe_pbind ins intro: safe_read)
qed

lemma safe_assessImpact [intro, simp]: "safe S db (assessImpact dp vid)"
  unfolding assessImpact_def by (intro safe_pbind safe_query safe_pmap_list safe_assessOneCase) simp

lemma safe_assessImpactForCase [intro, simp]: "safe S db (assessImpactForCase dp t c vid)"
  unfolding assessImpactForCase_def by (intro safe_pbind safe_read safe_assessOneCase) simp

lemma safe_change_and_assess:
  assumes "st = RELEASED \<Longrightarrow> vid \<in> S \<or> approved_for db vid"
  shows "safe S db (change_and_assess dp vid st actor action)"
  unfolding change_and_assess_def
proof (rule safe_pbind [OF rg_act])
  fix t r u assume t: "lifecycle_inv S t" "lifecycle_R db t" "run_txn (change_txn vid st) t = (r, u)"
  have app: "st = RELEASED \<Longrightarrow> vid \<in> S \<or> approved_for t vid" using assms t(2) by (auto simp: lifecycle_R_def)
  show "lifecycle_inv S u \<and> lifecycle_R t u \<and> True"
  proof (cases "u = t")
    case True
    with t(1) show ?thesis by (simp add: lg.R_refl)
  next
    case False
    with t(3) have "u = (set_status vid st t)\<lparr>pol_generation := pol_generation t + 1\<rparr>"
      by (auto simp: run_txn_def change_txn_def bumpCatalogGeneration_def split: if_splits)
    with lifecycle_status [OF t(1) app, where db' = u] show ?thesis by simp
  qed
next
  fix t generation
  show "safe S t (pbind (assessImpact dp vid) (\<lambda>assessments. record_change actor action
      \<lparr>par_policyVersionId = vid, par_generation = generation, par_assessments = assessments\<rparr>))"
    unfolding record_change_def
    by (rule safe_pbind) (auto intro!: safe_write intro: bindings_ok_frame [THEN iffD2])
qed

lemma safe_activate [intro, simp]: "safe S db (activate_version dp vid actor)"
proof -
  have "safe S t (pbind (query (\<lambda>_ db. hasApprovedTransition db vid)) (\<lambda>approved.
         if \<not> approved then pthrow (NoApprovedTransition vid)
         else change_and_assess dp vid RELEASED actor ''POLICY_VERSION_ACTIVATED''))" for t
  proof (rule rg_pbind [OF lg.rg_query])
    show "\<forall>b. Inr (hasApprovedTransition u vid) = Inr b \<longrightarrow> b \<longrightarrow> approved_for u vid" if "lifecycle_inv S u" for u
      using that hasApprovedTransition_approved by (auto simp: lifecycle_inv_def)
  qed (auto intro: safe_change_and_assess)
  then show ?thesis
    unfolding activate_version_def version_or_fail_def
    by (intro safe_pbind) (auto intro: safe_read)
qed

lemma safe_withdraw [intro, simp]: "safe S db (withdraw_version dp vid actor)"
  unfolding withdraw_version_def version_or_fail_def
  by (intro safe_pbind) (auto intro: safe_read safe_change_and_assess)

lemma safe_propose [intro, simp]: "safe S db (propose_version vid actor notes)"
proof -
  have upd: "safe S t (act (\<lambda>_ db. (Inr (), set_status vid PROPOSED db)))" for t
  proof (rule rg_act)
    fix u :: policy_db and r w
    assume u: "lifecycle_inv S u" "(Inr (), set_status vid PROPOSED u) = (r, w)"
    then show "lifecycle_inv S w \<and> lifecycle_R u w \<and> True"
      using lifecycle_status [OF u(1), of PROPOSED vid w] by auto
  qed
  have ins: "safe S t (act (\<lambda>i. run_txn (insert_approval (a i))))" if "\<And>i. pta_approvedBy (a i) = None" for a t
  proof (rule rg_act)
    fix i u r w assume u: "lifecycle_inv S u" "run_txn (insert_approval (a i)) u = (r, w)"
    then have "w = u \<or> (pta_id (a i) \<notin> pta_id ` set (pol_approvals u) \<and> w = u\<lparr>pol_approvals := pol_approvals u @ [a i]\<rparr>)"
      by (auto simp: run_txn_def insert_approval_def split: if_splits)
    then show "lifecycle_inv S w \<and> lifecycle_R u w \<and> True"
      using u(1) that [of i]
      by (auto simp: lifecycle_inv_def lifecycle_R_def approvals_ok_def releases_ok_def approved_for_def bindings_ok_def
          active_bindings_def)
  qed
  show ?thesis
    unfolding propose_version_def version_or_fail_def
    by (rule safe_pbind) (auto intro!: safe_pbind upd ins intro: safe_read)
qed

lemma approve_update:
  assumes inv: "lifecycle_inv S u" and p: "pta_id p = i" "approval_core p \<in> approval_core ` set (pol_approvals u)"
    and ne: "pta_proposedBy p \<noteq> actor"
    and w: "w = u\<lparr>pol_approvals := update_where (\<lambda>a. pta_id a = i)
      (\<lambda>a. a\<lparr>pta_approvedBy := Some actor, pta_approvedAt := Some t\<rparr>) (pol_approvals u)\<rparr>"
  shows "lifecycle_inv S w \<and> lifecycle_R u w"
proof -
  let ?g = "\<lambda>a. if pta_id a = i then a\<lparr>pta_approvedBy := Some actor, pta_approvedAt := Some t\<rparr> else a"
  have apps: "pol_approvals w = map ?g (pol_approvals u)" by (simp add: w update_where_def)
  have proposer: "pta_proposedBy a \<noteq> actor" if a: "a \<in> set (pol_approvals u)" "pta_id a = i" for a
  proof -
    obtain q where q: "q \<in> set (pol_approvals u)" "approval_core q = approval_core p" using p(2) by auto
    then have "q = a" using inv a p(1)
      by (auto simp: lifecycle_inv_def approvals_ok_def distinct_map inj_on_def approval_core_def)
    with q(2) ne show ?thesis by (simp add: approval_core_def)
  qed
  have core: "approval_core (?g a) = approval_core a" for a by (simp add: approval_core_def)
  have "approved_for w vid" if "approved_for u vid" for vid
  proof -
    note approved = that
    obtain a x where a: "a \<in> set (pol_approvals u)" "pta_policyVersionId a = vid"
      "pta_approvedBy a = Some x" "x \<noteq> pta_proposedBy a"
      using approved by (auto simp: approved_for_def)
    have "?g a \<in> set (pol_approvals w)" unfolding apps set_map by (rule imageI [OF a(1)])
    moreover have "pta_policyVersionId (?g a) = vid" "\<exists>y. pta_approvedBy (?g a) = Some y \<and> y \<noteq> pta_proposedBy (?g a)"
      using a proposer [OF a(1)] by auto
    ultimately show ?thesis unfolding approved_for_def by blast
  qed
  moreover have "approval_core ` set (pol_approvals u) \<subseteq> approval_core ` set (pol_approvals w)"
    unfolding apps set_map image_image core by (rule subset_refl)
  moreover have "approvals_ok w"
  proof -
    have "pta_id (?g a) = pta_id a" for a by simp
    then have "map pta_id (pol_approvals w) = map pta_id (pol_approvals u)" unfolding apps by (simp add: comp_def)
    moreover have "pta_approvedBy a = Some x \<longrightarrow> x \<noteq> pta_proposedBy a" if "a \<in> set (pol_approvals w)" for a x
      using that inv unfolding apps
      by (auto simp: lifecycle_inv_def approvals_ok_def dest: proposer split: if_splits)
    ultimately show ?thesis using inv by (simp add: lifecycle_inv_def approvals_ok_def)
  qed
  ultimately show ?thesis
    using inv bindings_ok_frame [of w u] unfolding lifecycle_inv_def lifecycle_R_def releases_ok_def
    by (auto simp: w)
qed

lemma safe_approve [intro, simp]: "safe S db (approve_version vid actor)"
  unfolding approve_version_def
proof (rule rg_pbind)
  let ?Q = "\<lambda>t r. \<forall>p. r = Inr (Some p) \<longrightarrow> approval_core p \<in> approval_core ` set (pol_approvals t)"
  show "rg (lifecycle_inv S) lifecycle_R ?Q db (query (\<lambda>_ db. pending_proposal db vid))"
    by (rule lg.rg_query) (auto simp: pending_proposal_def dest!: latest_by_SomeD)
  fix t :: policy_db and pending assume q: "?Q t (Inr pending)"
  show "safe S t (case pending of
         None \<Rightarrow> pthrow (NoPendingProposal vid)
       | Some p \<Rightarrow>
           if pta_proposedBy p = actor then pthrow SelfApproval
           else pbind (act (\<lambda>i db. (Inr (), db\<lparr>pol_approvals :=
                  update_where (\<lambda>a. pta_id a = pta_id p)
                    (\<lambda>a. a\<lparr>pta_approvedBy := Some actor, pta_approvedAt := Some (inp_now i)\<rparr>)
                    (pol_approvals db)\<rparr>))) (\<lambda>_.
             act (\<lambda>_ db. (or_throw (List.find (\<lambda>a. pta_id a = pta_id p) (pol_approvals db))
                            (EntityNotFound ''PolicyTransitionApproval''), db))))"
  proof (cases "\<exists>p. pending = Some p \<and> pta_proposedBy p \<noteq> actor")
    case False
    then show ?thesis by (auto split: option.split)
  next
    case True
    then obtain p where p: "pending = Some p" "pta_proposedBy p \<noteq> actor" by blast
    have "safe S t (act (\<lambda>i db. (Inr (), db\<lparr>pol_approvals :=
                  update_where (\<lambda>a. pta_id a = pta_id p)
                    (\<lambda>a. a\<lparr>pta_approvedBy := Some actor, pta_approvedAt := Some (inp_now i)\<rparr>)
                    (pol_approvals db)\<rparr>)))"
    proof (rule rg_act)
      fix i u r w assume u: "lifecycle_inv S u" "lifecycle_R t u"
        and w: "(Inr (), u\<lparr>pol_approvals := update_where (\<lambda>a. pta_id a = pta_id p)
            (\<lambda>a. a\<lparr>pta_approvedBy := Some actor, pta_approvedAt := Some (inp_now i)\<rparr>) (pol_approvals u)\<rparr>) = (r, w)"
      have "approval_core p \<in> approval_core ` set (pol_approvals u)"
        using q p(1) u(2) by (auto simp: lifecycle_R_def)
      from approve_update [OF u(1) refl this p(2)] w show "lifecycle_inv S w \<and> lifecycle_R u w \<and> True" by auto
    qed
    then show ?thesis using p by (auto intro!: safe_pbind intro: safe_read)
  qed
qed simp

lemma safe_checkSources [intro, simp]: "safe S db (checkSources cs)"
  unfolding checkSources_def checkSource_def
  by (intro safe_pmap_list safe_pbind)
    (auto simp: bindings_ok_def active_bindings_def split: option.split sum.split prod.split bool.split
      intro!: safe_pbind safe_write)

end
