(* ===== verification/Policy_Properties.thy ===== *)
theory Policy_Properties
  imports Policy_Scenario Policy_Lifecycle
begin

text \<open>
  Properties of the policy catalog: the walk over the jurisdictions, the resolver, its
  stability, and the evaluation of cases beside activations, withdrawals, approvals, source
  checks and other evaluations.
\<close>

section \<open>Requests\<close>

text \<open>
  A request that may run beside others. Everything interleaves step by step, save that a
  proposal takes its check and its update together (what happens otherwise is the subject of
  \<open>late\_proposal\_hides\_release\<close>).
\<close>

datatype policy_call =
    Evaluate uuid uuid PolicyResolutionContext
  | Activate uuid string
  | Withdraw uuid string
  | Propose "nat \<Rightarrow> policy_input" uuid string "string option"
  | Approve uuid string
  | Assess uuid uuid uuid
  | Check_sources "PolicySourceConnector list"

fun handler :: "(string \<Rightarrow> timestamp option) \<Rightarrow> (tok list \<Rightarrow> string) \<Rightarrow> policy_call \<Rightarrow> unit policy_prog" where
  "handler dp sha256 (Evaluate tenantId caseId ctx) = forget (evaluateInternal dp sha256 tenantId caseId ctx)"
| "handler dp sha256 (Activate vid actor) = forget (activate_version dp vid actor)"
| "handler dp sha256 (Withdraw vid actor) = forget (withdraw_version dp vid actor)"
| "handler dp sha256 (Propose is vid actor notes) = forget (atomically is (propose_version vid actor notes))"
| "handler dp sha256 (Approve vid actor) = forget (approve_version vid actor)"
| "handler dp sha256 (Assess tenantId caseId vid) = forget (assessImpactForCase dp tenantId caseId vid)"
| "handler dp sha256 (Check_sources cs) = forget (checkSources cs)"

fun call_ok :: "timestamp \<Rightarrow> policy_call \<Rightarrow> bool" where
  "call_ok T (Evaluate tenantId caseId ctx) = (ctx_ok ctx \<and> ctx_asOf ctx \<le> T)"
| "call_ok T _ = True"

text \<open>A catalog without bindings of the current resolver.\<close>

definition start_ok :: "policy_db \<Rightarrow> bool" where
  "start_ok db \<longleftrightarrow> bindings_ok db \<and>
     (\<forall>b \<in> set (pol_bindings db). \<exists>s. find_snapshot db (bnd_tenantId b) (bnd_policySnapshotId b) = Some s
        \<and> snp_resolverVersion s \<noteq> RESOLVER_VERSION)"

definition dates_ok :: "policy_db \<Rightarrow> bool" where
  "dates_ok db \<longleftrightarrow> (\<forall>v \<in> set (pol_versions db). valid_time (ver_effectiveFrom v)
     \<and> (\<forall>e. ver_effectiveTo v = Some e \<longrightarrow> valid_time e))"

lemma handler_ok: "inj sha256 \<Longrightarrow> call_ok T c \<Longrightarrow> ok dp sha256 T db (handler dp sha256 c)"
  by (cases c) (auto intro!: rg_forget evaluateInternal_ok ok_propose)

lemma reachable_inv:
  assumes "inj sha256" "\<forall>c \<in> set calls. call_ok T c" "start_ok db0"
    and "pstep\<^sup>*\<^sup>* (map (handler dp sha256) calls, db0) (ps, db)"
  shows "policy_inv dp sha256 T db"
proof -
  have "policy_inv dp sha256 T db0"
    using assms(3) by (auto simp: start_ok_def policy_inv_def backed_def)
  then have "pg.pool_ok dp sha256 T (map (handler dp sha256) calls, db0)"
    using assms(1,2) handler_ok by (auto simp: pg.pool_ok_def)
  from pg.pool_ok_steps [OF assms(4) this] show ?thesis by (simp add: pg.pool_ok_def)
qed

section \<open>An evaluation by itself\<close>

lemma prun_resolve:
  "\<exists>js. prun (pbind (resolve dp ctx) h) is db =
     (case resolution_at dp db (inp_now (is 0)) ctx of
        Inl issues \<Rightarrow> (Inl (PolicyDslValidationError issues), db)
      | Inr res \<Rightarrow> prun (h res) js db)"
proof (cases "resolve_sources (inp_now (is 0)) db ctx")
  case (Inl reasons)
  then show ?thesis by (auto simp: resolve_def pbind_assoc resolution_at_def)
next
  case (Inr cd)
  then show ?thesis
    by (cases cd) (auto simp: resolve_def pbind_assoc resolution_at_def split: sum.split)
qed

lemma no_active_left:
  assumes "bindings_ok db" "find_active_binding db tenantId caseId = Some b"
  shows "List.find (\<lambda>c. bnd_tenantId c = tenantId \<and> bnd_caseId c = caseId \<and> bnd_invalidatedAt c = None)
    (update_where (\<lambda>c. bnd_id c = bnd_id b \<and> bnd_tenantId c = bnd_tenantId b)
       (\<lambda>c. c\<lparr>bnd_invalidatedAt := Some now\<rparr>) (pol_bindings db)) = None"
proof -
  have b: "b \<in> set (active_bindings db)" "case_key b = (tenantId, caseId)"
    using find_active_bindingD [OF assms(2)] by (auto simp: active_bindings_def case_key_def)
  have "c = b" if "c \<in> set (active_bindings db)" "case_key c = (tenantId, caseId)" for c
    using that b assms(1) by (auto simp: bindings_ok_def distinct_map inj_on_def)
  then show ?thesis
    by (auto simp: find_None_iff update_where_def active_bindings_def case_key_def)
qed

lemma find_active_None:
  "find_active_binding db tenantId caseId = None \<Longrightarrow>
   List.find (\<lambda>c. bnd_tenantId c = tenantId \<and> bnd_caseId c = caseId \<and> bnd_invalidatedAt c = None) (pol_bindings db) = None"
  unfolding find_active_binding_def find_None_iff latest_by_None_iff by blast

lemma prun_bind_case:
  assumes "prun (bind_case dp tenantId caseId ctx g now res digest s) is db = (Inr r, db')"
    and "List.find (\<lambda>c. bnd_tenantId c = tenantId \<and> bnd_caseId c = caseId \<and> bnd_invalidatedAt c = None)
      (pol_bindings db) = None"
  shows "per_outcome r = REFRESHED \<and> per_resolution r = Some res"
  using assms
  by (auto simp: bind_case_def recover_winner_def act_def preturn_def pthrow_def run_txn_def
      split: sum.splits prod.splits if_splits)

lemma prun_persist:
  assumes "prun (pbind (persistSnapshot tenantId caseId res digest) f) is db = (Inr r, db')"
  shows "\<exists>s js snaps. prun (f s) js (db\<lparr>pol_snapshots := snaps\<rparr>) = (Inr r, db')"
  using assms
  by (auto simp: persistSnapshot_def run_txn_def insert_snapshot_def split: if_splits)

text \<open>What the slow path returns, when nothing came between.\<close>

lemma prun_apply_resolution:
  assumes "prun (apply_resolution dp sha256 tenantId caseId ctx g now existing snap res) is db = (Inr r, db')"
    and "bindings_ok db" "existing = find_active_binding db tenantId caseId"
  shows "per_resolution r = Some res \<and> (per_outcome r = OUTCOME_REVIEW_REQUIRED \<longleftrightarrow> res_status res = REVIEW_REQUIRED)
    \<and> (res_status res = REVIEW_REQUIRED \<longrightarrow> per_binding r = None)"
proof (cases "res_status res = REVIEW_REQUIRED")
  case True
  with assms(1) have "\<exists>js s. r = \<lparr>per_outcome = OUTCOME_REVIEW_REQUIRED, per_resolution = Some res, per_snapshot = s, per_binding = None\<rparr>"
    by (auto simp: apply_resolution_def Let_def invalidateActiveBinding_def dest!: prun_persist)
  with True show ?thesis by auto
next
  case False
  have rebind: "per_resolution r = Some res \<and> per_outcome r = REFRESHED"
    if "prun (pbind (persistSnapshot tenantId caseId res d) (\<lambda>s'.
          pbind (case existing of None \<Rightarrow> preturn () | Some b \<Rightarrow> invalidate_binding b now) (\<lambda>_.
            bind_case dp tenantId caseId ctx g now res d s'))) is db = (Inr r, db')" for d
  proof -
    note run = that
    obtain s js snaps where p: "prun (pbind (case existing of None \<Rightarrow> preturn () | Some b \<Rightarrow> invalidate_binding b now) (\<lambda>_.
            bind_case dp tenantId caseId ctx g now res d s)) js (db\<lparr>pol_snapshots := snaps\<rparr>) = (Inr r, db')"
      using prun_persist [OF run] by blast
    show ?thesis
    proof (cases existing)
      case None
      with p assms(3) find_active_None [of db tenantId caseId] show ?thesis
        by (auto dest!: prun_bind_case)
    next
      case (Some b)
      with p have "prun (bind_case dp tenantId caseId ctx g now res d s) (\<lambda>n. js (Suc n))
          (update_bindings (\<lambda>c. bnd_id c = bnd_id b \<and> bnd_tenantId c = bnd_tenantId b)
            (\<lambda>c. c\<lparr>bnd_invalidatedAt := Some now\<rparr>) (db\<lparr>pol_snapshots := snaps\<rparr>)) = (Inr r, db')"
        by (simp add: invalidate_binding_def)
      from prun_bind_case [OF this] no_active_left [OF assms(2)] Some assms(3) show ?thesis
        by (simp add: update_bindings_def)
    qed
  qed
  show ?thesis
  proof (cases "reusable (contextKey ctx) existing snap")
    case None
    with assms(1) False have "per_resolution r = Some res \<and> per_outcome r = REFRESHED"
      by (intro rebind [of "resolution_digest sha256 res"]) (simp add: apply_resolution_def Let_def)
    with False show ?thesis by simp
  next
    case (Some bs)
    then obtain b s where bs: "bs = (b, s)" "existing = Some b"
      by (auto simp: reusable_def split: option.splits if_splits)
    show ?thesis
    proof (cases "bnd_dependencyDigest b = resolution_digest sha256 res")
      case True
      with assms(1) False Some bs show ?thesis
        by (auto simp: apply_resolution_def Let_def refresh_binding_def)
    next
      case ne: False
      with assms(1) False Some bs have "per_resolution r = Some res \<and> per_outcome r = REFRESHED"
        by (intro rebind [of "resolution_digest sha256 res"]) (simp add: apply_resolution_def Let_def)
      with False show ?thesis by simp
    qed
  qed
qed

lemma parses_mem:
  assumes "parses dp vs refs" "v \<in> set refs"
  shows "\<exists>rule w. w \<in> set vs \<and> parsePolicyRule dp (ver_dsl w) = Inr rule \<and> v = version_ref rule w"
proof -
  obtain rules where r: "list_all2 (\<lambda>v r. parsePolicyRule dp (ver_dsl v) = Inr r) vs rules" "refs = map2 version_ref rules vs"
    using assms(1) by (auto simp: parses_def)
  then obtain i where i: "i < length vs" "i < length rules" "v = version_ref (rules ! i) (vs ! i)"
    using assms(2) by (auto simp: set_zip)
  then have "vs ! i \<in> set vs" "parsePolicyRule dp (ver_dsl (vs ! i)) = Inr (rules ! i)"
    using r(1) by (auto simp: list_all2_conv_all_nth)
  with i(3) show ?thesis by blast
qed

lemma resolved_dates:
  assumes "resolution_at dp db now ctx = Inr res" "res_status res = RESOLVED" "dates_ok db" "v \<in> set (res_versions res)"
  shows "valid_time (rv_effectiveFrom v) \<and> (\<forall>e. rv_effectiveTo v = Some e \<longrightarrow> valid_time e)"
proof -
  obtain codes d where "resolve_versions dp db ctx codes d = Inr res"
    using assms(1,2) by (auto simp: resolution_at_def review_required_def split: sum.splits prod.splits)
  then have "parses dp (applicable db codes ctx) (res_versions res)"
    using resolve_versions_iff assms(2) by blast
  then obtain rule w where w: "w \<in> set (applicable db codes ctx)" "v = version_ref rule w"
    using parses_mem assms(4) by blast
  then obtain a where "row_version db ctx a = Some w"
    by (auto simp: applicable_def List.map_filter_def)
  then have "w \<in> set (pol_versions db)"
    by (auto simp: row_version_def released_at_def find_version_def dest: find_SomeD split: option.splits sum.splits if_splits)
  with assms(3) w(2) show ?thesis by (simp add: dates_ok_def version_ref_def)
qed

lemma fast_path_current:
  assumes inv: "policy_inv dp sha256 T db" and b: "find_active_binding db tenantId caseId = Some b"
    and s: "find_snapshot db tenantId (bnd_policySnapshotId b) = Some s"
    and fast: "fast_path (pol_generation db) now (reusable (contextKey ctx) (Some b) (Some s)) = Some bs"
    and ctx: "ctx_ok ctx" "T \<le> ctx_asOf ctx" "ctx_asOf ctx \<le> now"
  shows "\<exists>res. resolution_at dp db now ctx = Inr res \<and> res_status res = RESOLVED
    \<and> snp_versions s = snapshotVersions res \<and> snp_resolutionStatus s = RESOLVED \<and> bs = (b, s)"
proof -
  have f: "snp_resolverVersion s = RESOLVER_VERSION" "bnd_contextKey b = contextKey ctx"
    "bnd_observedCatalogGeneration b = pol_generation db" "now < bnd_revalidateAfter b" "bs = (b, s)"
    using fast by (auto simp: fast_path_def reusable_def split: if_splits)
  have mem: "b \<in> set (pol_bindings db)" "bnd_tenantId b = tenantId" using find_active_bindingD [OF b] by auto
  then have "backed dp sha256 T db b" using inv by (simp add: policy_inv_def)
  then obtain ctx0 res0 where res0: "resolved_between dp db (pol_generation db) ctx0 res0" "ctx_ok ctx0"
      "ctx_asOf ctx0 \<le> T" "contextKey ctx0 = contextKey ctx" "snapshotVersions res0 = snp_versions s"
      "\<And>rv. res_revalidateAfter res0 = Some rv \<Longrightarrow> bnd_revalidateAfter b \<le> rv"
    and st: "snp_resolutionStatus s = RESOLVED"
    using s f mem(2) by (auto simp: backed_def)
  obtain db1 db2 now0 codes d where r: "policy_R db1 db2" "policy_R db2 db" "pol_generation db \<le> pol_generation db2"
    "resolve_sources now0 db1 ctx0 = Inr (codes, d)" "resolve_versions dp db2 ctx0 codes d = Inr res0" "res_status res0 = RESOLVED"
    using res0(1) by (auto simp: resolved_between_def)
  have eq: "ctx = at_instant (ctx_asOf ctx) ctx0" using contextKey_inj [OF ctx(1) res0(2)] res0(4) by simp
  have "\<exists>res'. resolution_at dp db now (at_instant (ctx_asOf ctx) ctx0) = Inr res' \<and> res_status res' = RESOLVED
      \<and> res_versions res' = res_versions res0"
  proof (rule resolution_stable [OF r(4,5,6)])
    show "same_scope db1 db2" "same_scope db2 db" using r(1,2) by (simp_all add: policy_R_def)
    show "released_at db2 = released_at db" using r(2,3) by (auto simp: policy_R_def)
    show "ctx_asOf ctx0 \<le> ctx_asOf ctx" using res0(3) ctx(2) by linarith
    show "ctx_asOf ctx < rv \<and> now < rv" if "res_revalidateAfter res0 = Some rv" for rv
      using res0(6) [OF that] f(4) ctx(3) by linarith
  qed
  then obtain res' where "resolution_at dp db now ctx = Inr res'" "res_status res' = RESOLVED"
    "res_versions res' = res_versions res0" using eq by auto
  moreover from this have "snapshotVersions res' = snp_versions s" using res0(5) by (simp add: snapshotVersions_def)
  ultimately show ?thesis using st f(5) by auto
qed

text \<open>
  C10. The cache of policy bindings is exact. Whatever evaluations, activations, withdrawals,
  approvals, impact assessments and source checks ran before, interleaved step by step, and
  whatever proposals did, each of them uninterrupted, an evaluation that then runs by itself answers what the resolver answers on the
  catalog of that moment: it asks for a review exactly when the resolver does, without a
  binding, and otherwise it returns the same versions, in the order of their ids on the fast
  path. Provided that hashes do not collide, that \<open>Date.parse\<close> reads what
  \<open>toISOString\<close> writes, that the codes of a context do not contain the separator of
  context keys, and that the evaluation is not dated before an earlier one or after its own
  clock.
\<close>

theorem evaluation_is_current:
  assumes hash: "inj sha256" and iso: "\<And>t. valid_time t \<Longrightarrow> date_parse (toISOString t) = Some t"
    and calls: "\<forall>c \<in> set calls. call_ok T c" and start: "start_ok db0"
    and steps: "pstep\<^sup>*\<^sup>* (map (handler date_parse sha256) calls, db0) (ps, db)"
    and dates: "dates_ok db" and ctx: "ctx_ok ctx" "T \<le> ctx_asOf ctx" "\<And>k. ctx_asOf ctx \<le> inp_now (is k)"
    and run: "prun (evaluateInternal date_parse sha256 tenantId caseId ctx) is db = (Inr r, db')"
  shows "\<exists>k res. resolution_at date_parse db (inp_now (is k)) ctx = Inr res
    \<and> (if res_status res = REVIEW_REQUIRED
        then per_outcome r = OUTCOME_REVIEW_REQUIRED \<and> per_binding r = None
        else per_outcome r \<noteq> OUTCOME_REVIEW_REQUIRED
          \<and> (\<exists>r'. per_resolution r = Some r' \<and> res_status r' = RESOLVED
               \<and> sort_key rv_policyVersionId (res_versions r') = sort_key rv_policyVersionId (res_versions res)))"
proof -
  have inv: "policy_inv date_parse sha256 T db" using reachable_inv [OF hash calls start steps] .
  then have bok: "bindings_ok db" by (simp add: policy_inv_def)
  define ex where "ex = find_active_binding db tenantId caseId"
  have slow: ?thesis
    if slow_run: "prun (pbind (resolve date_parse ctx) (apply_resolution date_parse sha256 tenantId caseId ctx
          (pol_generation db) now ex snap)) (\<lambda>n. is (Suc (Suc (Suc n)))) db = (Inr r, db')" for now snap
  proof -
    let ?now = "inp_now (is (Suc (Suc (Suc 0))))"
    obtain js where "prun (pbind (resolve date_parse ctx) (apply_resolution date_parse sha256 tenantId caseId ctx
          (pol_generation db) now ex snap)) (\<lambda>n. is (Suc (Suc (Suc n)))) db
      = (case resolution_at date_parse db ?now ctx of
           Inl issues \<Rightarrow> (Inl (PolicyDslValidationError issues), db)
         | Inr res \<Rightarrow> prun (apply_resolution date_parse sha256 tenantId caseId ctx (pol_generation db) now ex snap res) js db)"
      using prun_resolve [of date_parse ctx _ "\<lambda>n. is (Suc (Suc (Suc n)))" db] by blast
    then obtain res where res: "resolution_at date_parse db ?now ctx = Inr res"
      and ap: "prun (apply_resolution date_parse sha256 tenantId caseId ctx (pol_generation db) now ex snap res) js db = (Inr r, db')"
      using slow_run by (auto split: sum.splits)
    have "if res_status res = REVIEW_REQUIRED
        then per_outcome r = OUTCOME_REVIEW_REQUIRED \<and> per_binding r = None
        else per_outcome r \<noteq> OUTCOME_REVIEW_REQUIRED \<and> per_resolution r = Some res \<and> res_status res = RESOLVED"
      using prun_apply_resolution [OF ap bok ex_def] by (cases "res_status res") auto
    then show ?thesis using res by (intro exI [of _ "Suc (Suc (Suc 0))"] exI [of _ res]) (auto split: if_splits)
  qed
  show ?thesis
  proof (cases ex)
    case None
    with run show ?thesis
      by (intro slow [of "inp_now (is 2)" None])
        (simp add: evaluateInternal_def ex_def fast_path_def reusable_def numeral_2_eq_2)
  next
    case (Some b)
    with run obtain s where s: "find_snapshot db tenantId (bnd_policySnapshotId b) = Some s"
      by (cases "find_snapshot db tenantId (bnd_policySnapshotId b)")
        (auto simp: evaluateInternal_def ex_def)
    show ?thesis
    proof (cases "fast_path (pol_generation db) (inp_now (is 2)) (reusable (contextKey ctx) (Some b) (Some s))")
      case None
      with run Some s show ?thesis
        by (intro slow [of "inp_now (is 2)" "Some s"])
          (simp add: evaluateInternal_def ex_def numeral_2_eq_2)
    next
      case fast: (Some bs)
      have "find_active_binding db tenantId caseId = Some b" using Some ex_def by simp
      from fast_path_current [OF inv this s fast ctx(1,2) ctx(3)]
      obtain res where res: "resolution_at date_parse db (inp_now (is 2)) ctx = Inr res" "res_status res = RESOLVED"
        "snp_versions s = snapshotVersions res" "snp_resolutionStatus s = RESOLVED" "bs = (b, s)" by blast
      have "r = reused date_parse b s"
        using run Some s fast res(5) by (simp add: evaluateInternal_def ex_def numeral_2_eq_2)
      moreover have "reconstructResolution date_parse s =
          Some \<lparr>res_status = RESOLVED, res_versions = sort_key rv_policyVersionId (res_versions res),
            res_unresolvedReasons = snp_unresolvedReasons s, res_revalidateAfter = None\<rparr>"
        using reconstruct_snapshot [OF iso, of res s] resolved_dates [OF res(1,2) dates] res(3,4) by simp
      ultimately show ?thesis
        using res(1,2) by (intro exI [of _ 2] exI [of _ res]) (simp add: reused_def sort_key_id_if_sorted)
    qed
  qed
qed

theorem evaluation_is_current_witness:
  "\<exists>r db' res. prun (evaluateInternal ex_parse spell ''t1'' ''k1'' (ex_context (new_year + day + 1)))
        (ex_inputs (new_year + day + 1)) ex_db1 = (Inr r, db') \<and> per_outcome r = REUSED
     \<and> resolution_at ex_parse ex_db1 (new_year + day + 1) (ex_context (new_year + day + 1)) = Inr res
     \<and> res_status res = RESOLVED"
proof -
  let ?calls = "[Evaluate ''t1'' ''k1'' (ex_context (new_year + day)), Withdraw ''v1'' ''ops'']"
  have "prun (handler ex_parse spell (hd ?calls)) (ex_inputs (new_year + day)) ex_db0 = (Inr (), ex_db1)"
    by (simp add: prun_forget ex_run)
  from prun_steps [OF this, of "[]" "[handler ex_parse spell (Withdraw ''v1'' ''ops'')]"]
  have steps: "pstep\<^sup>*\<^sup>* (map (handler ex_parse spell) ?calls, ex_db0)
      ([Ret (Inr ()), handler ex_parse spell (Withdraw ''v1'' ''ops'')], ex_db1)" by simp
  have find: "find_active_binding ex_db1 ''t1'' ''k1'' = Some ex_binding" "pol_generation ex_db1 = 0"
    "find_snapshot ex_db1 ''t1'' ''x5'' = Some ex_snapshot"
    by (simp_all add: find_active_binding_def find_snapshot_def ex_db1_def ex_binding_def ex_snapshot_def ex_db0_def ex_catalog_def)
  have key: "contextKey (ex_context (new_year + day + 1)) = contextKey (ex_context (new_year + day))"
    by (simp add: contextKey_def ex_context_def)
  have run: "prun (evaluateInternal ex_parse spell ''t1'' ''k1'' (ex_context (new_year + day + 1)))
        (ex_inputs (new_year + day + 1)) ex_db1 = (Inr (reused ex_parse ex_binding ex_snapshot), ex_db1)"
  proof -
    have fast: "fast_path 0 (new_year + day + 1) (reusable (contextKey (ex_context (new_year + day))) (Some ex_binding)
        (Some ex_snapshot)) = Some (ex_binding, ex_snapshot)" "bnd_policySnapshotId ex_binding = ''x5''"
      by (simp_all add: fast_path_def reusable_def ex_binding_def ex_snapshot_def RESOLVER_VERSION_def)
    show ?thesis
      unfolding evaluateInternal_def by (simp add: find key fast ex_inputs_def ex_input_def)
  qed
  have ok: "ctx_ok (ex_context (new_year + day))" "ctx_ok (ex_context (new_year + day + 1))"
    by (simp_all add: ctx_ok_def ex_context_def valid_time_def new_year_def)
  have "\<exists>k res. resolution_at ex_parse ex_db1 (inp_now (ex_inputs (new_year + day + 1) k)) (ex_context (new_year + day + 1)) = Inr res
    \<and> (if res_status res = REVIEW_REQUIRED
        then per_outcome (reused ex_parse ex_binding ex_snapshot) = OUTCOME_REVIEW_REQUIRED
          \<and> per_binding (reused ex_parse ex_binding ex_snapshot) = None
        else per_outcome (reused ex_parse ex_binding ex_snapshot) \<noteq> OUTCOME_REVIEW_REQUIRED
          \<and> (\<exists>r'. per_resolution (reused ex_parse ex_binding ex_snapshot) = Some r' \<and> res_status r' = RESOLVED
               \<and> sort_key rv_policyVersionId (res_versions r') = sort_key rv_policyVersionId (res_versions res)))"
  proof (rule evaluation_is_current [OF spell_inj ex_parse_iso _ _ steps _ ok(2) _ _ run, of "new_year + day"])
    show "\<forall>c \<in> set ?calls. call_ok (new_year + day) c" using ok(1) by (simp add: ex_context_def)
    show "start_ok ex_db0" by (simp add: start_ok_def bindings_ok_def active_bindings_def ex_db0_def ex_catalog_def)
    show "dates_ok ex_db1"
      by (simp add: dates_ok_def ex_db1_def ex_db0_def ex_catalog_def ex_version_def valid_time_def new_year_def day_def)
  qed (simp_all add: ex_context_def ex_inputs_def ex_input_def)
  then obtain res where "resolution_at ex_parse ex_db1 (new_year + day + 1) (ex_context (new_year + day + 1)) = Inr res"
    "res_status res \<noteq> REVIEW_REQUIRED"
    by (auto simp: ex_inputs_def ex_input_def reused_def split: if_splits)
  with run show ?thesis by (cases "res_status res") (auto simp: reused_def)
qed

section \<open>The resolver\<close>

text \<open>
  C30. The walk up the jurisdictions ends on every catalog, cycles included, and finds
  exactly what it should: it returns a list just when the list is the chain of covered
  jurisdictions from the code to one without a parent. Such a chain visits no code twice and
  is no longer than the table; a cycle, an unknown parent or an uncovered ancestor is
  refused with a reason.
\<close>

theorem ancestry_walk_is_exact:
  assumes "c \<noteq> []"
  shows "(case loadCoveredAncestry db c of
      Inr a \<Rightarrow> covered_chain (pol_jurisdictions db) c a \<and> distinct (map jur_code a)
        \<and> length a \<le> length (pol_jurisdictions db) \<and> (\<forall>j \<in> set a. jur_coverageStatus j = COVERED)
    | Inl reason \<Rightarrow> (\<nexists>a. covered_chain (pol_jurisdictions db) c a))"
proof (cases "loadCoveredAncestry db c")
  case (Inl reason)
  then show ?thesis using loadCoveredAncestry_iff [OF assms, of db] by auto
next
  case (Inr a)
  then have chain: "covered_chain (pol_jurisdictions db) c a" using loadCoveredAncestry_iff [OF assms] by blast
  have d: "distinct (map jur_code a)" using chain by (rule chain_distinct)
  have "set a \<subseteq> set (pol_jurisdictions db)" using chain_covered [OF chain] by blast
  then have "length a \<le> length (pol_jurisdictions db)"
    using distinct_card [of a] d card_mono [of "set (pol_jurisdictions db)" "set a"] card_length [of "pol_jurisdictions db"]
    by (simp add: distinct_map)
  with chain d Inr chain_covered [OF chain] show ?thesis by simp
qed

theorem ancestry_walk_is_exact_witness:
  "loadCoveredAncestry (ex_db0\<lparr>pol_jurisdictions := [\<lparr>jur_code = ''A'', jur_parentCode = Some ''B'', jur_coverageStatus = COVERED\<rparr>,
      \<lparr>jur_code = ''B'', jur_parentCode = Some ''A'', jur_coverageStatus = COVERED\<rparr>]\<rparr>) ''A''
     = Inl (''jurisdiction ancestry contains a cycle at '' @ quoted ''A'')
   \<and> (\<exists>a. loadCoveredAncestry ex_db0 ''US-CA'' = Inr a \<and> map jur_code a = [''US-CA'', ''US'']
         \<and> covered_chain (pol_jurisdictions ex_db0) ''US-CA'' a)"
proof -
  define a where "a = projr (loadCoveredAncestry ex_db0 ''US-CA'')"
  have found: "loadCoveredAncestry ex_db0 ''US-CA'' = Inr a" "map jur_code a = [''US-CA'', ''US'']"
    unfolding a_def by code_simp+
  then have chain: "covered_chain (pol_jurisdictions ex_db0) ''US-CA'' a"
    using ancestry_walk_is_exact [of "''US-CA''" ex_db0] by simp
  have cyclic: "loadCoveredAncestry (ex_db0\<lparr>pol_jurisdictions := [\<lparr>jur_code = ''A'', jur_parentCode = Some ''B'', jur_coverageStatus = COVERED\<rparr>,
      \<lparr>jur_code = ''B'', jur_parentCode = Some ''A'', jur_coverageStatus = COVERED\<rparr>]\<rparr>) ''A''
     = Inl (''jurisdiction ancestry contains a cycle at '' @ quoted ''A'')"
    by (simp add: loadCoveredAncestry_def ancestry_loop.simps find_jurisdiction_def)
  show ?thesis by (intro conjI exI [of _ a] cyclic found chain)
qed

text \<open>The applicability rows a context selects, and the versions they put in force.\<close>

definition selects :: "Jurisdiction list \<Rightarrow> PolicyResolutionContext \<Rightarrow> PolicyApplicability \<Rightarrow> bool" where
  "selects chain ctx a \<longleftrightarrow> apl_jurisdictionCode a \<in> jur_code ` set chain \<and> apl_productCode a = ctx_productCode ctx
     \<and> apl_lifecycleEvent a = ctx_lifecycleEvent ctx"

definition puts_in_force :: "policy_db \<Rightarrow> PolicyResolutionContext \<Rightarrow> PolicyApplicability \<Rightarrow> PolicyVersion \<Rightarrow> bool" where
  "puts_in_force db ctx a v \<longleftrightarrow> released_at db (apl_policyVersionId a) = Some v
     \<and> (\<exists>t. resolveApplicabilityInstant a ctx = Inr t \<and> in_force v t)"

lemma row_version_iff: "row_version db ctx a = Some v \<longleftrightarrow> puts_in_force db ctx a v"
  by (auto simp: row_version_def puts_in_force_def split: option.splits sum.splits)

text \<open>
  C11. The resolver fails closed. When it resolves a context with a jurisdiction, the
  jurisdiction and all its ancestors are covered, each has a source, every source of theirs
  is fresh, every selected row of a released version has a supported transition rule, and
  the versions returned are exactly the released ones that a selected row puts in force:
  none is dropped, no two are of one rule, and each carries the rule its document parses to.
\<close>

theorem resolver_fails_closed:
  assumes res: "resolution_at date_parse db now ctx = Inr res" "res_status res = RESOLVED"
    and code: "ctx_jurisdictionCode ctx \<noteq> []"
  shows "\<exists>chain. covered_chain (pol_jurisdictions db) (ctx_jurisdictionCode ctx) chain
    \<and> (\<forall>j \<in> set chain. \<exists>s \<in> set (pol_sources db). src_jurisdictionCode s = jur_code j)
    \<and> (\<forall>s \<in> set (pol_sources db). src_jurisdictionCode s \<in> jur_code ` set chain \<longrightarrow> source_fresh db now s)
    \<and> (\<forall>a \<in> set (pol_applicability db). selects chain ctx a \<and> released_at db (apl_policyVersionId a) \<noteq> None \<longrightarrow>
         (\<exists>t. resolveApplicabilityInstant a ctx = Inr t))
    \<and> distinct (map rv_ruleId (res_versions res))
    \<and> set (res_versions res) = {version_ref rule v | rule v a. a \<in> set (pol_applicability db) \<and> selects chain ctx a
         \<and> puts_in_force db ctx a v \<and> parsePolicyRule date_parse (ver_dsl v) = Inr rule}"
proof -
  obtain codes d where src: "resolve_sources now db ctx = Inr (codes, d)"
    and ver: "resolve_versions date_parse db ctx codes d = Inr res"
    using res by (auto simp: resolution_at_def review_required_def split: sum.splits prod.splits)
  obtain chain where chain: "loadCoveredAncestry db (ctx_jurisdictionCode ctx) = Inr chain" "codes = map jur_code chain"
    and fresh: "all_covered db codes" "\<forall>s \<in> set (sources_of db codes). source_fresh db now s"
    using src by (auto simp: resolve_sources_iff validateSourceFreshness_iff)
  have v: "\<forall>a \<in> set (applicability_rows db codes ctx). row_reasons db ctx a = []"
    "distinct (map ver_ruleId (applicable db codes ctx))" "parses date_parse (applicable db codes ctx) (res_versions res)"
    using resolve_versions_iff [of date_parse db ctx codes d res] ver res(2) by blast+
  have rows: "a \<in> set (applicability_rows db codes ctx) \<longleftrightarrow> a \<in> set (pol_applicability db) \<and> selects chain ctx a" for a
    by (auto simp: applicability_rows_def selects_def chain(2))
  have app: "w \<in> set (applicable db codes ctx) \<longleftrightarrow>
      (\<exists>a \<in> set (pol_applicability db). selects chain ctx a \<and> puts_in_force db ctx a w)" for w
    using rows by (auto simp: applicable_def List.map_filter_def row_version_iff [symmetric] image_iff)
  obtain rules where rules: "list_all2 (\<lambda>v r. parsePolicyRule date_parse (ver_dsl v) = Inr r) (applicable db codes ctx) rules"
    "res_versions res = map2 version_ref rules (applicable db codes ctx)"
    using v(3) by (auto simp: parses_def)
  have len: "length rules = length (applicable db codes ctx)" using rules(1) by (simp add: list_all2_lengthD)
  have ids: "map rv_ruleId (res_versions res) = map ver_ruleId (applicable db codes ctx)"
    unfolding rules(2) using len by (auto simp: list_eq_iff_nth_eq version_ref_def)
  have "set (res_versions res) = {version_ref rule v | rule v. v \<in> set (applicable db codes ctx)
      \<and> parsePolicyRule date_parse (ver_dsl v) = Inr rule}" (is "_ = ?S")
  proof
    show "set (res_versions res) \<subseteq> ?S" using parses_mem [OF v(3)] by blast
    show "?S \<subseteq> set (res_versions res)"
    proof clarify
      fix rule w assume w: "w \<in> set (applicable db codes ctx)" "parsePolicyRule date_parse (ver_dsl w) = Inr rule"
      then obtain i where i: "i < length (applicable db codes ctx)" "w = applicable db codes ctx ! i"
        by (auto simp: in_set_conv_nth)
      then have "rules ! i = rule" using rules(1) w(2) by (auto simp: list_all2_conv_all_nth)
      then have "res_versions res ! i = version_ref rule w" "i < length (res_versions res)"
        unfolding rules(2) using i len by simp_all
      then show "version_ref rule w \<in> set (res_versions res)" by (metis nth_mem)
    qed
  qed
  also have "\<dots> = {version_ref rule v | rule v a. a \<in> set (pol_applicability db) \<and> selects chain ctx a
         \<and> puts_in_force db ctx a v \<and> parsePolicyRule date_parse (ver_dsl v) = Inr rule}"
    unfolding app by blast
  finally have vers: "set (res_versions res) = {version_ref rule v | rule v a. a \<in> set (pol_applicability db)
      \<and> selects chain ctx a \<and> puts_in_force db ctx a v \<and> parsePolicyRule date_parse (ver_dsl v) = Inr rule}" .
  have "\<exists>t. resolveApplicabilityInstant a ctx = Inr t"
    if "a \<in> set (pol_applicability db)" "selects chain ctx a" "released_at db (apl_policyVersionId a) \<noteq> None" for a
  proof -
    have "row_reasons db ctx a = []" using v(1) rows that(1,2) by blast
    then show ?thesis
      using that(3) by (cases "resolveApplicabilityInstant a ctx") (auto simp: row_reasons_def split: option.splits)
  qed
  moreover have "covered_chain (pol_jurisdictions db) (ctx_jurisdictionCode ctx) chain"
    using chain(1) loadCoveredAncestry_iff [OF code] by blast
  moreover have "\<forall>j \<in> set chain. \<exists>s \<in> set (pol_sources db). src_jurisdictionCode s = jur_code j"
    using fresh(1) by (auto simp: all_covered_def chain(2))
  moreover have "\<forall>s \<in> set (pol_sources db). src_jurisdictionCode s \<in> jur_code ` set chain \<longrightarrow> source_fresh db now s"
    using fresh(2) by (simp add: sources_of_def chain(2))
  ultimately show ?thesis using vers ids v(2) by (intro exI [of _ chain]) simp
qed

theorem resolver_fails_closed_witness:
  "\<exists>chain. covered_chain (pol_jurisdictions ex_db0) ''US-CA'' chain
     \<and> {s \<in> set (pol_sources ex_db0). src_jurisdictionCode s \<in> jur_code ` set chain \<and> \<not> source_fresh ex_db0 (new_year + day) s} = {}
     \<and> map rv_policyVersionId (res_versions ex_res) = [''v1'']"
proof -
  have res: "resolution_at ex_parse ex_db0 (new_year + day) (ex_context (new_year + day)) = Inr ex_res"
    by (simp add: resolution_at_def ex_sources ex_versions)
  have "map rv_policyVersionId (res_versions ex_res) = [''v1'']" by code_simp
  moreover have "ctx_jurisdictionCode (ex_context (new_year + day)) = ''US-CA''" by (simp add: ex_context_def)
  ultimately show ?thesis using resolver_fails_closed [OF res ex_versions(2)] by auto
qed

text \<open>
  A resolution is good until its own deadline. On an unchanged catalog, a context
  resolved for one instant resolves to the same versions for every later instant, and at
  every moment, before \<open>revalidateAfter\<close>: no version enters or leaves force and no source
  goes stale earlier.
\<close>

theorem resolution_holds_until_deadline:
  assumes "resolution_at date_parse db now ctx = Inr res" "res_status res = RESOLVED" "ctx_asOf ctx \<le> t"
    and "\<And>rv. res_revalidateAfter res = Some rv \<Longrightarrow> t < rv \<and> now' < rv"
  shows "\<exists>res'. resolution_at date_parse db now' (ctx\<lparr>ctx_asOf := t\<rparr>) = Inr res' \<and> res_status res' = RESOLVED
    \<and> res_versions res' = res_versions res"
proof -
  obtain codes d where "resolve_sources now db ctx = Inr (codes, d)" "resolve_versions date_parse db ctx codes d = Inr res"
    using assms(1,2) by (auto simp: resolution_at_def review_required_def split: sum.splits prod.splits)
  from resolution_stable [OF this assms(2) same_scope_refl same_scope_refl refl assms(3,4)] show ?thesis
    by (simp add: at_instant_def)
qed

theorem resolution_holds_until_deadline_witness:
  "\<exists>res'. resolution_at ex_parse ex_db0 (new_year + 29 * day) ((ex_context (new_year + day))\<lparr>ctx_asOf := new_year + 9 * day\<rparr>) = Inr res'
     \<and> res_versions res' = res_versions ex_res \<and> res_revalidateAfter ex_res = Some (new_year + 30 * day)"
proof -
  have res: "resolution_at ex_parse ex_db0 (new_year + day) (ex_context (new_year + day)) = Inr ex_res"
    by (simp add: resolution_at_def ex_sources ex_versions)
  have rv: "res_revalidateAfter ex_res = Some (new_year + 30 * day)" by code_simp
  have "\<exists>res'. resolution_at ex_parse ex_db0 (new_year + 29 * day) ((ex_context (new_year + day))\<lparr>ctx_asOf := new_year + 9 * day\<rparr>) = Inr res'
      \<and> res_status res' = RESOLVED \<and> res_versions res' = res_versions ex_res"
    by (rule resolution_holds_until_deadline [OF res ex_versions(2)]) (use rv in \<open>auto simp: ex_context_def day_def\<close>)
  with rv show ?thesis by blast
qed

section \<open>Releases and bindings under every interleaving\<close>

text \<open>The requests with proposals taken step by step.\<close>

definition raw_handler :: "(string \<Rightarrow> timestamp option) \<Rightarrow> (tok list \<Rightarrow> string) \<Rightarrow> policy_call \<Rightarrow> unit policy_prog" where
  "raw_handler dp sha256 c =
     (case c of Propose _ vid actor notes \<Rightarrow> forget (propose_version vid actor notes) | _ \<Rightarrow> handler dp sha256 c)"

lemma raw_handler_safe: "safe S db (raw_handler dp sha256 c)"
  by (cases c) (auto simp: raw_handler_def forget_def intro!: safe_pbind)

lemma raw_reachable:
  assumes "lifecycle_inv S db0" "pstep\<^sup>*\<^sup>* (map (raw_handler dp sha256) calls, db0) (ps, db)"
  shows "lifecycle_inv S db"
proof -
  have "lg.pool_ok S (map (raw_handler dp sha256) calls, db0)"
    using assms(1) raw_handler_safe by (auto simp: lg.pool_ok_def)
  from lg.pool_ok_steps [OF assms(2) this] show ?thesis by (simp add: lg.pool_ok_def)
qed

text \<open>
  C12. No release without an independent approval. Whatever requests ran, in whatever
  interleaving, a version that is released and was not at the start has an approved
  proposal, and its approver is not its proposer.
\<close>

theorem releases_are_approved:
  assumes "bindings_ok db0" "approvals_ok db0"
    and "pstep\<^sup>*\<^sup>* (map (raw_handler date_parse sha256) calls, db0) (ps, db)"
    and "v \<in> set (pol_versions db)" "ver_releaseStatus v = RELEASED"
    and "\<And>w. w \<in> set (pol_versions db0) \<Longrightarrow> ver_id w = ver_id v \<Longrightarrow> ver_releaseStatus w \<noteq> RELEASED"
  shows "\<exists>a \<in> set (pol_approvals db). pta_policyVersionId a = ver_id v
    \<and> (\<exists>approver. pta_approvedBy a = Some approver \<and> approver \<noteq> pta_proposedBy a)"
proof -
  let ?S = "ver_id ` {w \<in> set (pol_versions db0). ver_releaseStatus w = RELEASED}"
  have "lifecycle_inv ?S db0" using assms(1,2) by (auto simp: lifecycle_inv_def releases_ok_def)
  then have "releases_ok ?S db" using raw_reachable [OF _ assms(3)] by (auto simp: lifecycle_inv_def)
  then have "ver_id v \<in> ?S \<or> approved_for db (ver_id v)" using assms(4,5) by (auto simp: releases_ok_def)
  moreover have "ver_id v \<notin> ?S" using assms(6) by auto
  ultimately show ?thesis by (auto simp: approved_for_def)
qed

text \<open>A release of the draft, step by step: proposed, approved by another, activated.\<close>

definition ex_release :: "policy_call list" where
  "ex_release = [Propose (ex_inputs (new_year + 2 * day)) ''v2'' ''ann'' None, Approve ''v2'' ''ben'', Activate ''v2'' ''ben'']"

definition ex_schedule :: "(nat \<times> policy_input) list" where
  "ex_schedule = concat (map (\<lambda>(n, k). replicate k (n, ex_input (new_year + 2 * day) ''p1'')) [(0, 3), (1, 3), (2, 3)])"

theorem releases_are_approved_witness:
  "\<exists>v \<in> set (pol_versions (snd (run_schedule ex_schedule (map (raw_handler ex_parse spell) ex_release, ex_db0)))).
     ver_id v = ''v2'' \<and> ver_releaseStatus v = RELEASED
     \<and> (\<exists>a \<in> set (pol_approvals (snd (run_schedule ex_schedule (map (raw_handler ex_parse spell) ex_release, ex_db0)))).
          pta_policyVersionId a = ''v2'' \<and> (\<exists>x. pta_approvedBy a = Some x \<and> x \<noteq> pta_proposedBy a))"
proof -
  define c where "c = run_schedule ex_schedule (map (raw_handler ex_parse spell) ex_release, ex_db0)"
  have "list_ex (\<lambda>v. ver_id v = ''v2'' \<and> ver_releaseStatus v = RELEASED) (pol_versions (snd c))"
    unfolding c_def by code_simp
  then obtain v where v: "v \<in> set (pol_versions (snd c))" "ver_id v = ''v2''" "ver_releaseStatus v = RELEASED"
    by (auto simp: list_ex_iff)
  have "pstep\<^sup>*\<^sup>* (map (raw_handler ex_parse spell) ex_release, ex_db0) (fst c, snd c)"
    using run_schedule_steps [of "(map (raw_handler ex_parse spell) ex_release, ex_db0)" ex_schedule] by (simp add: c_def)
  moreover have "bindings_ok ex_db0" "approvals_ok ex_db0"
    by (simp_all add: bindings_ok_def approvals_ok_def active_bindings_def ex_db0_def ex_catalog_def)
  moreover have "ver_releaseStatus w \<noteq> RELEASED" if "w \<in> set (pol_versions ex_db0)" "ver_id w = ver_id v" for w
    using that v(2) by (auto simp: ex_db0_def ex_catalog_def ex_version_def)
  ultimately have "\<exists>a \<in> set (pol_approvals (snd c)). pta_policyVersionId a = ''v2''
      \<and> (\<exists>x. pta_approvedBy a = Some x \<and> x \<noteq> pta_proposedBy a)"
    using releases_are_approved [OF _ _ _ v(1,3)] v(2) by metis
  with v show ?thesis unfolding c_def by blast
qed

text \<open>
  C29. A case has at most one active policy binding, after any requests in any
  interleaving.
\<close>

theorem one_active_binding_per_case:
  assumes "bindings_ok db0" "approvals_ok db0"
    and "pstep\<^sup>*\<^sup>* (map (raw_handler date_parse sha256) calls, db0) (ps, db)"
    and "b \<in> set (pol_bindings db)" "c \<in> set (pol_bindings db)"
    and "bnd_invalidatedAt b = None" "bnd_invalidatedAt c = None"
    and "bnd_tenantId b = bnd_tenantId c" "bnd_caseId b = bnd_caseId c"
  shows "b = c"
proof -
  let ?S = "ver_id ` set (pol_versions db0)"
  have "lifecycle_inv ?S db0" using assms(1,2) by (auto simp: lifecycle_inv_def releases_ok_def)
  then have "bindings_ok db" using raw_reachable [OF _ assms(3)] by (auto simp: lifecycle_inv_def)
  then show ?thesis
    using assms(4-9) by (auto simp: bindings_ok_def active_bindings_def distinct_map inj_on_def case_key_def)
qed

theorem one_active_binding_per_case_witness:
  "{c \<in> set (pol_bindings ex_db1). bnd_invalidatedAt c = None \<and> bnd_tenantId c = ''t1'' \<and> bnd_caseId c = ''k1''}
     = {ex_binding}"
proof -
  have "prun (raw_handler ex_parse spell (Evaluate ''t1'' ''k1'' (ex_context (new_year + day)))) (ex_inputs (new_year + day)) ex_db0
      = (Inr (), ex_db1)"
    by (simp add: raw_handler_def prun_forget ex_run)
  from prun_steps [OF this, of "[]" "[]"]
  have steps: "pstep\<^sup>*\<^sup>* (map (raw_handler ex_parse spell) [Evaluate ''t1'' ''k1'' (ex_context (new_year + day))], ex_db0)
      ([Ret (Inr ())], ex_db1)" by simp
  have start: "bindings_ok ex_db0" "approvals_ok ex_db0"
    by (simp_all add: bindings_ok_def approvals_ok_def active_bindings_def ex_db0_def ex_catalog_def)
  have b: "ex_binding \<in> set (pol_bindings ex_db1)" "bnd_invalidatedAt ex_binding = None"
    "bnd_tenantId ex_binding = ''t1''" "bnd_caseId ex_binding = ''k1''"
    by (simp_all add: ex_db1_def ex_binding_def)
  show ?thesis using one_active_binding_per_case [OF start steps _ b(1) _ b(2)] b by auto
qed

section \<open>Races\<close>

lemma released_at_other:
  "st \<noteq> RELEASED \<Longrightarrow> released_at (set_status vid st db) vid = None"
  by (auto simp: released_at_def find_version_def set_status_def find_update_where dest: find_SomeD split: option.splits)

text \<open>
  C37. A proposal that checked its version while it was a draft takes it out of force
  whenever it goes on, without anybody noticing: if the version was released meanwhile, it
  is not any more, and the catalog generation, by which evaluations tell that their bindings
  are out of date, does not move. An evaluation on the fast path goes on serving the
  bindings of the version that is no longer released.
\<close>

theorem late_proposal_hides_release:
  assumes "propose_version policyVersionId proposedBy notes = Act step"
    and "find_version db policyVersionId = Some version" "ver_releaseStatus version = DRAFT"
    and "released_at db' policyVersionId = Some v"
    and "prun (fst (step i db)) is db' = (r, db'')"
  shows "released_at db'' policyVersionId = None \<and> pol_generation db'' = pol_generation db'
    \<and> find_active_binding db'' = find_active_binding db' \<and> find_snapshot db'' = find_snapshot db'"
proof -
  let ?rest = "pbind (act (\<lambda>_ db. (Inr (), set_status policyVersionId PROPOSED db))) (\<lambda>_.
         act (\<lambda>i. run_txn (insert_approval
           \<lparr>pta_id = inp_id i, pta_policyVersionId = policyVersionId, pta_proposedBy = proposedBy,
            pta_proposedAt = inp_now i, pta_approvedBy = None, pta_approvedAt = None, pta_notes = notes\<rparr>)))"
  have "fst (step i db) = ?rest"
    using assms(1-3) by (auto simp: propose_version_def version_or_fail_def act_def fun_eq_iff)
  with assms(5) obtain apps where "db'' = (set_status policyVersionId PROPOSED db')\<lparr>pol_approvals := apps\<rparr>
      \<or> db'' = set_status policyVersionId PROPOSED db'"
    by (auto simp: run_txn_def insert_approval_def split: if_splits)
  moreover have "released_at (x\<lparr>pol_approvals := apps\<rparr>) = released_at x" for x
    by (simp add: released_at_def find_version_def fun_eq_iff)
  ultimately show ?thesis
    using released_at_other [of PROPOSED policyVersionId db']
    by (auto simp: find_active_binding_def find_snapshot_def fun_eq_iff)
qed

theorem late_proposal_hides_release_witness:
  "\<exists>step r db''. propose_version ''v2'' ''eve'' None = Act step
     \<and> prun (fst (step (ex_input new_year ''p9'') ex_db0)) (ex_inputs new_year) (set_status ''v2'' RELEASED ex_db0) = (r, db'')
     \<and> released_at db'' ''v2'' = None \<and> pol_generation db'' = 0"
proof -
  obtain step where step: "propose_version ''v2'' ''eve'' None = Act step" by (simp add: propose_version_def version_or_fail_def act_def)
  define r where "r = prun (fst (step (ex_input new_year ''p9'') ex_db0)) (ex_inputs new_year) (set_status ''v2'' RELEASED ex_db0)"
  have "find_version ex_db0 ''v2'' = Some (ex_version ''v2'' ''1.1.0'' (new_year + 10 * day) DRAFT)"
    "released_at (set_status ''v2'' RELEASED ex_db0) ''v2'' = Some (ex_version ''v2'' ''1.1.0'' (new_year + 10 * day) RELEASED)"
    by (simp_all add: find_version_def released_at_def set_status_def ex_db0_def ex_catalog_def ex_version_def)
  from late_proposal_hides_release [OF step this(1) _ this(2), of "ex_input new_year ''p9''" "ex_inputs new_year" "fst r" "snd r"]
  have "released_at (snd r) ''v2'' = None \<and> pol_generation (snd r) = 0"
    by (simp add: r_def ex_version_def) (simp add: ex_db0_def ex_catalog_def)
  with step show ?thesis unfolding r_def by (metis prod.collapse)
qed

text \<open>
  An activation that passed its checks releases the version whatever has happened to it
  since: one that was released and withdrawn meanwhile is released again, although a
  withdrawn version cannot be activated.
\<close>

theorem late_activation_revives_withdrawn:
  assumes "activate_version date_parse vid actor = Act step1"
    and "find_version db vid = Some version" "ver_releaseStatus version \<in> {DRAFT, PROPOSED}"
    and "fst (step1 i db) = Act step2" "hasApprovedTransition db vid"
    and "fst (step2 j db) = Act step3"
    and "find_version db' vid = Some v" "ver_releaseStatus v = WITHDRAWN" "pol_generation db' < max_int4" "0 \<le> pol_generation db'"
  shows "released_at (snd (step3 k db')) vid = Some (v\<lparr>ver_releaseStatus := RELEASED\<rparr>)
    \<and> (\<exists>e. prun (activate_version date_parse vid actor) is db' = (Inl e, db'))"
proof -
  have 2: "fst (step1 i db) = pbind (query (\<lambda>_ db. hasApprovedTransition db vid)) (\<lambda>approved.
         if \<not> approved then pthrow (NoApprovedTransition vid)
         else change_and_assess date_parse vid RELEASED actor ''POLICY_VERSION_ACTIVATED'')"
    using assms(1-3) by (auto simp: activate_version_def version_or_fail_def act_def)
  have "fst (step2 j db) = change_and_assess date_parse vid RELEASED actor ''POLICY_VERSION_ACTIVATED''"
    using assms(4,5) unfolding 2 by (auto simp: query_def act_def)
  then have "snd (step3 k db') = snd (run_txn (change_txn vid RELEASED) db')"
    using assms(6) by (auto simp: change_and_assess_def act_def)
  also have "\<dots> = (set_status vid RELEASED db')\<lparr>pol_generation := pol_generation db' + 1\<rparr>"
    using assms(9,10) by (simp add: run_txn_def change_txn_def bumpCatalogGeneration_def fits_int4_def max_int4_def)
  finally have "find_version (snd (step3 k db')) vid = Some (v\<lparr>ver_releaseStatus := RELEASED\<rparr>)"
    using assms(7) find_SomeD [of "\<lambda>v. ver_id v = vid" "pol_versions db'" v]
    by (auto simp: find_version_def set_status_def find_update_where)
  moreover have "prun (activate_version date_parse vid actor) is db' = (Inl (CannotActivate vid WITHDRAWN), db')"
    using assms(7,8) by (simp add: activate_version_def version_or_fail_def)
  ultimately show ?thesis by (auto simp: released_at_def)
qed

definition ex_approved :: policy_db where
  "ex_approved = (set_status ''v2'' PROPOSED ex_db0)\<lparr>pol_approvals :=
     [\<lparr>pta_id = ''p1'', pta_policyVersionId = ''v2'', pta_proposedBy = ''ann'', pta_proposedAt = new_year,
       pta_approvedBy = Some ''ben'', pta_approvedAt = Some (new_year + 1), pta_notes = None\<rparr>]\<rparr>"

theorem late_activation_revives_withdrawn_witness:
  "\<exists>step1 step2 step3. activate_version ex_parse ''v2'' ''ben'' = Act step1
     \<and> fst (step1 (ex_input new_year ''q'') ex_approved) = Act step2 \<and> fst (step2 (ex_input new_year ''q'') ex_approved) = Act step3
     \<and> ver_releaseStatus (the (released_at (snd (step3 (ex_input new_year ''q'') (set_status ''v2'' WITHDRAWN ex_approved))) ''v2'')) = RELEASED"
proof -
  let ?v = "ex_version ''v2'' ''1.1.0'' (new_year + 10 * day)" and ?q = "ex_input new_year ''q''"
  have v: "find_version ex_approved ''v2'' = Some (?v PROPOSED)"
    "find_version (set_status ''v2'' WITHDRAWN ex_approved) ''v2'' = Some (?v WITHDRAWN)"
    "hasApprovedTransition ex_approved ''v2''" "pol_generation (set_status ''v2'' WITHDRAWN ex_approved) = 0"
    by (simp_all add: find_version_def set_status_def ex_approved_def ex_db0_def ex_catalog_def ex_version_def hasApprovedTransition_def)
  obtain step1 where 1: "activate_version ex_parse ''v2'' ''ben'' = Act step1"
    by (simp add: activate_version_def version_or_fail_def act_def)
  then obtain step2 where 2: "fst (step1 ?q ex_approved) = Act step2"
    using v(1) by (auto simp: activate_version_def version_or_fail_def act_def query_def ex_version_def)
  then obtain step3 where 3: "fst (step2 ?q ex_approved) = Act step3"
    using 1 v(1,3) by (auto simp: activate_version_def version_or_fail_def act_def query_def ex_version_def change_and_assess_def)
  have "released_at (snd (step3 ?q (set_status ''v2'' WITHDRAWN ex_approved))) ''v2''
      = Some ((?v WITHDRAWN)\<lparr>ver_releaseStatus := RELEASED\<rparr>)"
    using late_activation_revives_withdrawn [OF 1 v(1) _ 2 v(3) 3 v(2), of ?q] v(4)
    by (simp add: ex_version_def max_int4_def)
  with 1 2 3 show ?thesis by auto
qed

text \<open>Handlers between which cases and applicability rows stay the same.\<close>

definition same_rows :: "policy_db \<Rightarrow> policy_db \<Rightarrow> bool" where
  "same_rows db db' \<longleftrightarrow> pol_cases db' = pol_cases db \<and> pol_applicability db' = pol_applicability db"

interpretation ag: rely_guarantee "\<lambda>_. True" same_rows
  by unfold_locales (simp_all add: same_rows_def)

lemma same_rows_refl [simp]: "same_rows db db"
  by (rule ag.R_refl)

abbreviation yields :: "policy_db \<Rightarrow> ('a \<Rightarrow> bool) \<Rightarrow> 'a policy_prog \<Rightarrow> bool" where
  "yields db P p \<equiv> rg (\<lambda>_. True) same_rows (\<lambda>t r. same_rows db t \<and> (\<forall>a. r = Inr a \<longrightarrow> P a)) db p"

lemma yields_pbind:
  assumes "yields db Q p" "\<And>t a. same_rows db t \<Longrightarrow> Q a \<Longrightarrow> yields t P (f a)"
  shows "yields db P (pbind p f)"
proof (rule rg_pbind [OF assms(1)])
  fix t a assume "same_rows db t \<and> (\<forall>b. Inr a = Inr b \<longrightarrow> Q b)"
  then have "same_rows db t" "yields t P (f a)" using assms(2) by auto
  then show "rg (\<lambda>_. True) same_rows (\<lambda>t r. same_rows db t \<and> (\<forall>a. r = Inr a \<longrightarrow> P a)) t (f a)"
    by (auto elim!: rg_weaken intro: ag.R_trans)
qed simp

lemma yields_preturn [simp]: "yields db P (preturn a) \<longleftrightarrow> P a"
  by (auto simp: same_rows_def)

lemma yields_act:
  assumes "\<And>i t. same_rows db t \<Longrightarrow> same_rows t (snd (p i t)) \<and> (\<forall>a. fst (p i t) = Inr a \<longrightarrow> P a)"
  shows "yields db P (act p)"
proof (rule rg_act)
  fix i t r u assume "same_rows db t" "p i t = (r, u)"
  with assms [of t i] show "True \<and> same_rows t u \<and> same_rows db u \<and> (\<forall>a. r = Inr a \<longrightarrow> P a)"
    by (auto intro: ag.R_trans)
qed

lemma yields_query: "(\<And>i t. same_rows db t \<Longrightarrow> P (f i t)) \<Longrightarrow> yields db P (query f)"
  unfolding query_def by (rule yields_act) (simp add: same_rows_def)

lemma yields_pmap_list:
  "(\<And>t x. same_rows db t \<Longrightarrow> x \<in> set xs \<Longrightarrow> yields t (P x) (f x)) \<Longrightarrow> yields db (list_all2 P xs) (pmap_list f xs)"
proof (induction xs arbitrary: db)
  case (Cons x xs)
  show ?case
    unfolding pmap_list.simps
  proof (rule yields_pbind [of db "P x"])
    fix t y assume t: "same_rows db t" "P x y"
    show "yields t (list_all2 P (x # xs)) (pbind (pmap_list f xs) (\<lambda>ys. preturn (y # ys)))"
      by (rule yields_pbind [of t "list_all2 P xs", OF Cons.IH]) (use Cons.prems t ag.R_trans in auto)
  qed (use Cons.prems same_rows_refl in \<open>force\<close>)
qed simp

lemma yields_resolve: "yields db (\<lambda>_. True) (resolve dp ctx)"
  unfolding resolve_def
proof (rule yields_pbind [of db "\<lambda>_. True"])
  fix t and found :: "string list + (string list \<times> timestamp option)"
  have read: "yields t (\<lambda>_. True) (act (\<lambda>_ db. (f db, db)))" for f :: "policy_db \<Rightarrow> policy_error + PolicyResolutionResult"
    by (rule yields_act) (simp add: same_rows_def)
  show "yields t (\<lambda>_. True) (case found of
         Inl reasons \<Rightarrow> preturn (review_required reasons)
       | Inr (codes, deadline) \<Rightarrow>
           act (\<lambda>_ db. (case resolve_versions dp db ctx codes deadline of
                          Inl issues \<Rightarrow> Inl (PolicyDslValidationError issues)
                        | Inr res \<Rightarrow> Inr res, db)))"
    by (cases found) (auto intro: read [simplified])
qed (rule yields_query, rule TrueI)

lemma yields_assessOneCase:
  "yields db (\<lambda>r. \<forall>a. r = Some a \<longrightarrow> pia_caseId a = lc_id c) (assessOneCase dp vid j p l c)"
  unfolding assessOneCase_def
proof (rule yields_pbind [of db "\<lambda>_. True"])
  fix t and active :: "CasePolicyBinding option"
  show "yields t (\<lambda>r. \<forall>a. r = Some a \<longrightarrow> pia_caseId a = lc_id c) (case active of
         None \<Rightarrow> preturn None
       | Some b \<Rightarrow>
           pbind (act (\<lambda>i db. (and_then (or_throw (find_snapshot db (lc_tenantId c) (bnd_policySnapshotId b))
                                  (EntityNotFound ''CasePolicySnapshot'')) (\<lambda>s. Inr (inp_now i, s)), db)))
             (\<lambda>(now, prior).
           pbind (resolve dp
                    \<lparr>ctx_jurisdictionCode = j, ctx_productCode = p,
                     ctx_lifecycleEvent = l, ctx_asOf = now,
                     ctx_applicationReceivedAt = Some (lc_createdAt c)\<rparr>) (\<lambda>dryRun.
           pbind (act (\<lambda>i. run_txn (insert_assessment
              \<lparr>pia_id = inp_id i, pia_policyVersionId = vid, pia_tenantId = lc_tenantId c, pia_caseId = lc_id c,
               pia_priorPolicyBindingId = Some (bnd_id b), pia_impact = fst (classifyImpact prior dryRun),
               pia_details = snd (classifyImpact prior dryRun)\<rparr>))) (\<lambda>a. preturn (Some a)))))"
  proof (cases active)
    case (Some b)
    have ins: "yields u (\<lambda>r. \<forall>a. r = Some a \<longrightarrow> pia_caseId a = lc_id c)
        (pbind (act (\<lambda>i. run_txn (insert_assessment (z i)))) (\<lambda>a. preturn (Some a)))"
      if "\<And>i. pia_caseId (z i) = lc_id c" for u and z
      by (rule yields_pbind [of u "\<lambda>a. pia_caseId a = lc_id c"], rule yields_act)
        (auto simp: run_txn_def insert_assessment_def same_rows_def that split: if_splits)
    show ?thesis
      unfolding Some option.case
    proof (rule yields_pbind [of t "\<lambda>_. True"])
      show "yields t (\<lambda>_. True) (act (\<lambda>i db. (and_then (or_throw (find_snapshot db (lc_tenantId c) (bnd_policySnapshotId b))
          (EntityNotFound ''CasePolicySnapshot'')) (\<lambda>s. Inr (inp_now i, s)), db)))"
        by (rule yields_act) (simp add: same_rows_def)
      fix now_prior :: "timestamp \<times> CasePolicySnapshot" and u
      show "yields u (\<lambda>r. \<forall>a. r = Some a \<longrightarrow> pia_caseId a = lc_id c) (case now_prior of (now, prior) \<Rightarrow>
           pbind (resolve dp
                    \<lparr>ctx_jurisdictionCode = j, ctx_productCode = p,
                     ctx_lifecycleEvent = l, ctx_asOf = now,
                     ctx_applicationReceivedAt = Some (lc_createdAt c)\<rparr>) (\<lambda>dryRun.
           pbind (act (\<lambda>i. run_txn (insert_assessment
              \<lparr>pia_id = inp_id i, pia_policyVersionId = vid, pia_tenantId = lc_tenantId c, pia_caseId = lc_id c,
               pia_priorPolicyBindingId = Some (bnd_id b), pia_impact = fst (classifyImpact prior dryRun),
               pia_details = snd (classifyImpact prior dryRun)\<rparr>))) (\<lambda>a. preturn (Some a))))"
        unfolding case_prod_beta by (rule yields_pbind [OF yields_resolve], rule ins) simp
    qed
  qed (simp add: same_rows_def)
qed (rule yields_query, rule TrueI)

text \<open>
  The impact assessment after an activation or withdrawal misses the cases below. It
  looks only at cases of the very jurisdictions the applicability rows of the version name:
  a case of another jurisdiction gets no assessment, although the resolver applies a version
  to every jurisdiction below the one it names.
\<close>

theorem descendants_go_unassessed:
  assumes run: "prun (assessImpact date_parse vid) is db = (Inr found, db')"
    and c: "c \<in> set (pol_cases db)" "distinct (map lc_id (pol_cases db))"
    and other: "\<And>row. row \<in> set (pol_applicability db) \<Longrightarrow> apl_policyVersionId row = vid \<Longrightarrow>
      apl_jurisdictionCode row \<noteq> lc_jurisdictionCode c"
  shows "\<forall>a \<in> set found. pia_caseId a \<noteq> lc_id c"
proof -
  let ?P = "\<lambda>r. \<forall>a. r = Some a \<longrightarrow> pia_caseId a \<noteq> lc_id c"
  have rows: "set (unseen_triples seen as) \<subseteq> set as" for seen as
    by (induction seen as rule: unseen_triples.induct) auto
  have "yields db (\<lambda>found. \<forall>a \<in> set found. pia_caseId a \<noteq> lc_id c) (assessImpact date_parse vid)"
    unfolding assessImpact_def
  proof (rule yields_pbind [of db "\<lambda>rows. \<forall>row \<in> set rows. row \<in> set (pol_applicability db) \<and> apl_policyVersionId row = vid"])
    show "yields db (\<lambda>rows. \<forall>row \<in> set rows. row \<in> set (pol_applicability db) \<and> apl_policyVersionId row = vid)
        (query (\<lambda>_ db. unseen_triples [] (filter (\<lambda>a. apl_policyVersionId a = vid) (pol_applicability db))))"
      by (rule yields_query) (use rows in \<open>fastforce simp: same_rows_def\<close>)
    fix t rows' assume t: "same_rows db t" and rows': "\<forall>row \<in> set rows'. row \<in> set (pol_applicability db) \<and> apl_policyVersionId row = vid"
    have row: "yields u (\<lambda>rs. \<forall>r \<in> set rs. ?P r) (pbind (query (\<lambda>_ db. affected_cases db row)) (\<lambda>cs.
                pmap_list (assessOneCase date_parse vid (apl_jurisdictionCode row) (apl_productCode row)
                             (apl_lifecycleEvent row)) cs))"
      if u: "same_rows t u" "row \<in> set rows'" for u row
    proof (rule yields_pbind [of u "\<lambda>cs. \<forall>d \<in> set cs. lc_id d \<noteq> lc_id c"])
      have ne: "apl_jurisdictionCode row \<noteq> lc_jurisdictionCode c" using other rows' u(2) by blast
      have "lc_id d \<noteq> lc_id c" if "d \<in> set (affected_cases v row)" "same_rows u v" for d v
      proof
        assume "lc_id d = lc_id c"
        moreover have "d \<in> set (pol_cases db)" using that t u(1) by (simp add: affected_cases_def same_rows_def)
        ultimately have "d = c" using c by (simp add: distinct_map inj_on_def)
        with that(1) ne show False by (simp add: affected_cases_def)
      qed
      then show "yields u (\<lambda>cs. \<forall>d \<in> set cs. lc_id d \<noteq> lc_id c) (query (\<lambda>_ db. affected_cases db row))"
        by (intro yields_query) blast
      fix v and cs :: "LoanCase list" assume cs: "\<forall>d \<in> set cs. lc_id d \<noteq> lc_id c"
      have "yields v (list_all2 (\<lambda>d r. \<forall>a. r = Some a \<longrightarrow> pia_caseId a = lc_id d) cs)
          (pmap_list (assessOneCase date_parse vid (apl_jurisdictionCode row) (apl_productCode row) (apl_lifecycleEvent row)) cs)"
        by (rule yields_pmap_list) (rule yields_assessOneCase)
      then show "yields v (\<lambda>rs. \<forall>r \<in> set rs. ?P r)
          (pmap_list (assessOneCase date_parse vid (apl_jurisdictionCode row) (apl_productCode row) (apl_lifecycleEvent row)) cs)"
        by (rule rg_weaken) (use cs in \<open>force simp: list_all2_conv_all_nth in_set_conv_nth\<close>)
    qed
    show "yields t (\<lambda>found. \<forall>a \<in> set found. pia_caseId a \<noteq> lc_id c) (pbind (pmap_list (\<lambda>a.
              pbind (query (\<lambda>_ db. affected_cases db a)) (\<lambda>cs.
                pmap_list (assessOneCase date_parse vid (apl_jurisdictionCode a) (apl_productCode a)
                             (apl_lifecycleEvent a)) cs)) rows') (\<lambda>found.
       preturn (List.map_filter id (concat found))))"
      by (rule yields_pbind [OF yields_pmap_list [of t rows' "\<lambda>_ rs. \<forall>r \<in> set rs. ?P r"]], erule row, assumption)
        (fastforce simp: List.map_filter_def list_all2_conv_all_nth in_set_conv_nth)
  qed
  from ag.rg_prun [OF this TrueI run] show ?thesis by simp
qed

theorem descendants_go_unassessed_witness:
  "\<exists>found db' res. prun (assessImpact ex_parse ''v1'') (ex_inputs new_year)
        (ex_catalog [ex_version ''v1'' ''1.0.0'' new_year RELEASED] [ex_apl ''a1'' ''v1'' ''US'']) = (Inr found, db')
     \<and> ''k1'' \<notin> pia_caseId ` set found
     \<and> resolution_at ex_parse (ex_catalog [ex_version ''v1'' ''1.0.0'' new_year RELEASED] [ex_apl ''a1'' ''v1'' ''US''])
          (new_year + day) (ex_context (new_year + day)) = Inr res
     \<and> map rv_policyVersionId (res_versions res) = [''v1'']"
proof -
  define db where "db = ex_catalog [ex_version ''v1'' ''1.0.0'' new_year RELEASED] [ex_apl ''a1'' ''v1'' ''US'']"
  define res where "res = projr (resolution_at ex_parse db (new_year + day) (ex_context (new_year + day)))"
  let ?c = "\<lparr>lc_id = ''k1'', lc_tenantId = ''t1'', lc_jurisdictionCode = ''US-CA'', lc_loanType = CONVENTIONAL, lc_createdAt = new_year\<rparr>"
  have res: "resolution_at ex_parse db (new_year + day) (ex_context (new_year + day)) = Inr res"
    "map rv_policyVersionId (res_versions res) = [''v1'']"
    unfolding res_def db_def by code_simp+
  have run: "prun (assessImpact ex_parse ''v1'') (ex_inputs new_year) db = (Inr [], db)"
    by (simp add: assessImpact_def db_def ex_catalog_def ex_apl_def affected_cases_def pbind_assoc List.map_filter_def)
  have "\<forall>a \<in> set ([] :: PolicyChangeImpactAssessment list). pia_caseId a \<noteq> lc_id ?c"
    by (rule descendants_go_unassessed [OF run]) (auto simp: db_def ex_catalog_def ex_apl_def)
  then have "''k1'' \<notin> pia_caseId ` set ([] :: PolicyChangeImpactAssessment list)" by simp
  with run [unfolded db_def] res [unfolded db_def] show ?thesis
    by (intro exI [of _ "[]"] exI [of _ "ex_catalog _ _"] exI [of _ res] conjI)
qed

end
