(* ===== verification/Webhook_Guard.thy ===== *)
theory Webhook_Guard
  imports Text_Format "HOL-Library.Word"
begin

text \<open>
  The guard on webhook targets, \<open>src/src/webhooks/webhook-url-guard.ts\<close>: the test of an
  address text against the special-purpose ranges, and the check of a target URL.

  Numbers are as in JavaScript: \<open><<\<close> and \<open>>>>\<close> work on 32 bit, the second unsigned,
  and big integers are unbounded. \<open>isIPv4\<close> and \<open>isIPv6\<close> follow the grammar of
  \<open>node:net\<close>, a zone after \<open>%\<close> included. The URL parser and the name service are the
  parameters \<open>url_parse\<close> (protocol and host name) and \<open>resolveHostname\<close>.
\<close>

section \<open>IPv4\<close>

definition shift_left :: "int \<Rightarrow> nat \<Rightarrow> int" where
  "shift_left n k = sint (push_bit (k mod 32) (word_of_int n :: 32 word))"

definition shift_right_unsigned :: "int \<Rightarrow> nat \<Rightarrow> int" where
  "shift_right_unsigned n k = uint (drop_bit (k mod 32) (word_of_int n :: 32 word))"

definition octet_text :: "string \<Rightarrow> bool" where
  "octet_text s \<longleftrightarrow> s \<noteq> [] \<and> list_all digit s \<and> (length s = 1 \<or> hd s \<noteq> CHR ''0'')
     \<and> length s \<le> 3 \<and> decimal s \<le> 255"

definition isIPv4 :: "string \<Rightarrow> bool" where
  "isIPv4 s \<longleftrightarrow> length (split_on (CHR ''.'') s) = 4 \<and> list_all octet_text (split_on (CHR ''.'') s)"

definition ipv4ToInt :: "string \<Rightarrow> int" where
  "ipv4ToInt address = foldl (\<lambda>acc octet. shift_left acc 8 + int (decimal octet)) 0 (split_on (CHR ''.'') address)"

record Ipv4Range =
  rng_base :: int
  rng_prefixLength :: nat

definition range_of :: "string \<Rightarrow> Ipv4Range" where
  "range_of cidr =
     (let parts = split_on (CHR ''/'') cidr
      in \<lparr>rng_base = ipv4ToInt (parts ! 0), rng_prefixLength = decimal (parts ! 1)\<rparr>)"

definition BLOCKED_IPV4_RANGES :: "Ipv4Range list" where
  "BLOCKED_IPV4_RANGES = map range_of
     [''0.0.0.0/8'', ''10.0.0.0/8'', ''100.64.0.0/10'', ''127.0.0.0/8'', ''169.254.0.0/16'',
      ''172.16.0.0/12'', ''192.0.0.0/24'', ''192.0.2.0/24'', ''192.168.0.0/16'', ''198.18.0.0/15'',
      ''198.51.100.0/24'', ''203.0.113.0/24'', ''224.0.0.0/4'', ''240.0.0.0/4'']"

definition in_range :: "int \<Rightarrow> Ipv4Range \<Rightarrow> bool" where
  "in_range n r \<longleftrightarrow> shift_right_unsigned n (32 - rng_prefixLength r)
     = shift_right_unsigned (rng_base r) (32 - rng_prefixLength r)"

definition isBlockedIpv4 :: "string \<Rightarrow> bool" where
  "isBlockedIpv4 address = list_ex (in_range (ipv4ToInt address)) BLOCKED_IPV4_RANGES"

section \<open>IPv6\<close>

definition hex_group :: "string \<Rightarrow> bool" where
  "hex_group s \<longleftrightarrow> s \<noteq> [] \<and> length s \<le> 4 \<and> list_all hex_digit s"

text \<open>\<open>String.prototype.split('::')\<close>: between non-overlapping occurrences.\<close>

fun split_double :: "string \<Rightarrow> string list" where
  "split_double [] = [[]]"
| "split_double [x] = [[x]]"
| "split_double (x # y # xs) =
     (if x = CHR '':'' \<and> y = CHR '':'' then [] # split_double xs
      else case split_double (y # xs) of [] \<Rightarrow> [[x]] | z # zs \<Rightarrow> (x # z) # zs)"

text \<open>Groups between colons, the last of them perhaps an IPv4 address, which counts for two.\<close>

definition groups_of :: "string \<Rightarrow> string list" where
  "groups_of s = (if s = [] then [] else split_on (CHR '':'') s)"

definition group_count :: "string list \<Rightarrow> nat option" where
  "group_count gs =
     (if list_all hex_group gs then Some (length gs)
      else if gs \<noteq> [] \<and> list_all hex_group (butlast gs) \<and> isIPv4 (last gs) then Some (length gs + 1)
      else None)"

definition ipv6_text :: "string \<Rightarrow> bool" where
  "ipv6_text s =
     (case split_double s of
        [whole] \<Rightarrow> group_count (groups_of whole) = Some 8
      | [front, back] \<Rightarrow>
          list_all hex_group (groups_of front)
          \<and> (case group_count (groups_of back) of None \<Rightarrow> False | Some n \<Rightarrow> length (groups_of front) + n \<le> 7)
      | _ \<Rightarrow> False)"

definition zone_char :: "char \<Rightarrow> bool" where
  "zone_char c \<longleftrightarrow> digit c \<or> upper_letter c \<or> lower_letter c \<or> c \<in> set ''-.:''"

definition isIPv6 :: "string \<Rightarrow> bool" where
  "isIPv6 s =
     (let address = takeWhile (\<lambda>c. c \<noteq> CHR ''%'') s; zone = dropWhile (\<lambda>c. c \<noteq> CHR ''%'') s
      in ipv6_text address \<and> (zone = [] \<or> (tl zone \<noteq> [] \<and> list_all zone_char (tl zone))))"

datatype guard_error = WebhookTargetBlockedError string | RangeError

text \<open>\<open>parseInt(s, 16)\<close>, none for \<open>NaN\<close>, of which \<open>BigInt\<close> throws.\<close>

definition parseInt16 :: "string \<Rightarrow> int option" where
  "parseInt16 s =
     (let t = dropWhile js_space s;
          negative = (take 1 t = ''-'');
          u = (if take 1 t \<in> {''-'', ''+''} then tl t else t);
          v = (if take 2 u \<in> {''0x'', ''0X''} then drop 2 u else u);
          ds = takeWhile hex_digit v
      in if ds = [] then None
         else Some (if negative then - int (hexadecimal ds) else int (hexadecimal ds)))"

text \<open>The leftmost match of the pattern of four numbers up to the end of the text.\<close>

definition dotted_quad :: "string \<Rightarrow> bool" where
  "dotted_quad s \<longleftrightarrow> length (split_on (CHR ''.'') s) = 4
     \<and> list_all (\<lambda>p. p \<noteq> [] \<and> list_all digit p) (split_on (CHR ''.'') s)"

fun ipv4Tail :: "string \<Rightarrow> string option" where
  "ipv4Tail [] = None"
| "ipv4Tail (c # s) = (if dotted_quad (c # s) then Some (c # s) else ipv4Tail s)"

definition octet_hex :: "string \<Rightarrow> string" where
  "octet_hex octet = padStart 2 (CHR ''0'') (hex_text (decimal octet))"

definition unmix :: "string \<Rightarrow> string" where
  "unmix address =
     (case ipv4Tail address of
        None \<Rightarrow> address
      | Some t \<Rightarrow>
          let hex = map octet_hex (split_on (CHR ''.'') t)
          in take (length address - length t) address @ hex ! 0 @ hex ! 1 @ '':'' @ hex ! 2 @ hex ! 3)"

fun read_groups :: "int \<Rightarrow> string list \<Rightarrow> guard_error + int" where
  "read_groups acc [] = Inr acc"
| "read_groups acc (g # gs) =
     (case parseInt16 g of None \<Rightarrow> Inl RangeError | Some n \<Rightarrow> read_groups (acc * 2 ^ 16 + n) gs)"

definition nonempty_groups :: "string \<Rightarrow> string list" where
  "nonempty_groups s = filter (\<lambda>g. g \<noteq> []) (split_on (CHR '':'') s)"

definition ipv6ToBigInt :: "string \<Rightarrow> guard_error + int" where
  "ipv6ToBigInt address =
     (let parts = split_double (unmix address);
          headGroups = nonempty_groups (parts ! 0);
          tailGroups = (if 1 < length parts then nonempty_groups (parts ! 1) else [])
      in read_groups 0
           (headGroups @ replicate (8 - length headGroups - length tailGroups) ''0'' @ tailGroups))"

definition embedded_ipv4 :: "int \<Rightarrow> string" where
  "embedded_ipv4 n = join ''.'' (map (\<lambda>k. nat_text (nat (n mod 2 ^ 32 div 2 ^ k mod 2 ^ 8))) [24, 16, 8, 0])"

definition isBlockedIpv6 :: "string \<Rightarrow> guard_error + bool" where
  "isBlockedIpv6 address =
     and_then (ipv6ToBigInt address) (\<lambda>n.
       let firstGroup = n div 2 ^ 112
       in Inr (n = 0 \<or> n = 1
             \<or> (0xfc00 \<le> firstGroup \<and> firstGroup \<le> 0xfdff)
             \<or> (0xfe80 \<le> firstGroup \<and> firstGroup \<le> 0xfebf)
             \<or> (0xff00 \<le> firstGroup \<and> firstGroup \<le> 0xffff)
             \<or> (n div 2 ^ 32 = 0xffff \<and> isBlockedIpv4 (embedded_ipv4 n))))"

definition isBlockedAddress :: "string \<Rightarrow> guard_error + bool" where
  "isBlockedAddress address =
     (if isIPv4 address then Inr (isBlockedIpv4 address)
      else if isIPv6 address then isBlockedIpv6 address
      else Inr True)"

section \<open>The sandbox exception\<close>

definition LOOPBACK_IPV4 :: Ipv4Range where
  "LOOPBACK_IPV4 = range_of ''127.0.0.0/8''"

definition loopback_ipv4 :: "string \<Rightarrow> bool" where
  "loopback_ipv4 address = in_range (ipv4ToInt address) LOOPBACK_IPV4"

text \<open>The recursive call of the source is on a dotted address, where it is the first branch.\<close>

definition isLoopback :: "string \<Rightarrow> guard_error + bool" where
  "isLoopback address =
     (if isIPv4 address then Inr (loopback_ipv4 address)
      else if isIPv6 address
      then and_then (ipv6ToBigInt address) (\<lambda>n.
        Inr (n = 1 \<or> (n div 2 ^ 32 = 0xffff \<and> isIPv4 (embedded_ipv4 n) \<and> loopback_ipv4 (embedded_ipv4 n))))
      else Inr False)"

datatype NodeEnvironment = Development | Test | Staging | Production

definition isSandboxEnvironment :: "NodeEnvironment \<Rightarrow> bool" where
  "isSandboxEnvironment e \<longleftrightarrow> e = Development \<or> e = Test"

section \<open>The check of a target\<close>

text \<open>\<open>Array.prototype.filter\<close> with a predicate that may throw.\<close>

fun filter_result :: "('a \<Rightarrow> 'e + bool) \<Rightarrow> 'a list \<Rightarrow> 'e + 'a list" where
  "filter_result f [] = Inr []"
| "filter_result f (x # xs) =
     and_then (f x) (\<lambda>b. and_then (filter_result f xs) (\<lambda>ys. Inr (if b then x # ys else ys)))"

definition blocked_addresses :: "bool \<Rightarrow> string list \<Rightarrow> guard_error + string list" where
  "blocked_addresses allowLoopback addresses =
     and_then (filter_result isBlockedAddress addresses) (\<lambda>blocked.
       filter_result (\<lambda>a. if allowLoopback then and_then (isLoopback a) (\<lambda>b. Inr (\<not> b)) else Inr True) blocked)"

definition bare_host :: "string \<Rightarrow> string" where
  "bare_host h = (if h \<noteq> [] \<and> hd h = CHR ''['' \<and> last h = CHR '']'' then butlast (tl h) else h)"

definition target_addresses ::
  "(string \<Rightarrow> (string \<times> string) option) \<Rightarrow> (string \<Rightarrow> string + string list) \<Rightarrow> string \<Rightarrow> guard_error + string \<times> string list" where
  "target_addresses url_parse resolveHostname targetUrl =
     (case url_parse targetUrl of
        None \<Rightarrow> Inl (WebhookTargetBlockedError (quoted targetUrl @ '' is not a valid URL''))
      | Some (protocol, hostname) \<Rightarrow>
          if protocol \<noteq> ''http:'' \<and> protocol \<noteq> ''https:''
          then Inl (WebhookTargetBlockedError (''webhook target must use http or https, got '' @ quoted protocol))
          else if isIPv4 (bare_host hostname) \<or> isIPv6 (bare_host hostname) then Inr (hostname, [bare_host hostname])
          else (case resolveHostname hostname of
                  Inl message \<Rightarrow> Inl (WebhookTargetBlockedError
                    (''webhook target host '' @ quoted hostname @ '' could not be resolved: '' @ message))
                | Inr addresses \<Rightarrow> Inr (hostname, addresses)))"

definition assertPublicWebhookTarget ::
  "(string \<Rightarrow> (string \<times> string) option) \<Rightarrow> (string \<Rightarrow> string + string list) \<Rightarrow> bool \<Rightarrow> string \<Rightarrow> guard_error + unit" where
  "assertPublicWebhookTarget url_parse resolveHostname allowLoopback targetUrl =
     and_then (target_addresses url_parse resolveHostname targetUrl) (\<lambda>(hostname, addresses).
       if addresses = []
       then Inl (WebhookTargetBlockedError (''webhook target host '' @ quoted hostname @ '' did not resolve to any address''))
       else and_then (blocked_addresses allowLoopback addresses) (\<lambda>blocked.
         if blocked \<noteq> []
         then Inl (WebhookTargetBlockedError (''webhook target host '' @ quoted hostname
                @ '' resolves to a private or reserved address ('' @ join '', '' blocked @ '') and cannot be used''))
         else Inr ()))"

end
