(* ===== verification/Webhook_Address.thy ===== *)
theory Webhook_Address
  imports Webhook_Guard
begin

text \<open>
  What the guard on webhook targets decides, against a reference that knows nothing of its
  shifts and texts: \<open>special4\<close> and \<open>special6\<close> are the special-purpose ranges as
  intervals of numbers, and \<open>denotes\<close> is the grammar of address texts with the number
  each denotes.
\<close>

section \<open>IPv4\<close>

definition quad :: "int \<Rightarrow> int \<Rightarrow> int \<Rightarrow> int \<Rightarrow> int" where
  "quad a b c d = ((a * 256 + b) * 256 + c) * 256 + d"

definition special4 :: "int \<Rightarrow> bool" where
  "special4 n \<longleftrightarrow>
     n \<le> quad 0 255 255 255
   \<or> (quad 10 0 0 0 \<le> n \<and> n \<le> quad 10 255 255 255)
   \<or> (quad 100 64 0 0 \<le> n \<and> n \<le> quad 100 127 255 255)
   \<or> (quad 127 0 0 0 \<le> n \<and> n \<le> quad 127 255 255 255)
   \<or> (quad 169 254 0 0 \<le> n \<and> n \<le> quad 169 254 255 255)
   \<or> (quad 172 16 0 0 \<le> n \<and> n \<le> quad 172 31 255 255)
   \<or> (quad 192 0 0 0 \<le> n \<and> n \<le> quad 192 0 0 255)
   \<or> (quad 192 0 2 0 \<le> n \<and> n \<le> quad 192 0 2 255)
   \<or> (quad 192 168 0 0 \<le> n \<and> n \<le> quad 192 168 255 255)
   \<or> (quad 198 18 0 0 \<le> n \<and> n \<le> quad 198 19 255 255)
   \<or> (quad 198 51 100 0 \<le> n \<and> n \<le> quad 198 51 100 255)
   \<or> (quad 203 0 113 0 \<le> n \<and> n \<le> quad 203 0 113 255)
   \<or> quad 224 0 0 0 \<le> n"

definition number4 :: "string \<Rightarrow> int" where
  "number4 s = foldl (\<lambda>n octet. n * 256 + int (decimal octet)) 0 (split_on (CHR ''.'') s)"

lemma div_eq_interval:
  fixes n m c :: int
  assumes "0 < m"
  shows "n div m = c \<longleftrightarrow> c * m \<le> n \<and> n < (c + 1) * m"
proof
  assume "n div m = c"
  then have n: "n = c * m + n mod m" by (metis div_mult_mod_eq)
  have "0 \<le> n mod m" "n mod m < m" using assms by simp_all
  with n show "c * m \<le> n \<and> n < (c + 1) * m" by (simp add: distrib_right)
next
  assume "c * m \<le> n \<and> n < (c + 1) * m"
  then have "0 \<le> n - c * m" "n - c * m < m" by (simp_all add: distrib_right)
  then have "(n - c * m) div m = 0" by simp
  moreover have "n div m = c + (n - c * m) div m"
    using assms div_mult_self2 [of m "n - c * m" c] by (simp add: mult.commute)
  ultimately show "n div m = c" by simp
qed

lemma le_div_interval:
  fixes n m c :: int
  assumes "0 < m"
  shows "c \<le> n div m \<longleftrightarrow> c * m \<le> n"
proof -
  have n: "n div m * m \<le> n" "n < (n div m + 1) * m" using div_eq_interval [OF assms, of n "n div m"] by auto
  show ?thesis
  proof
    assume "c \<le> n div m"
    then have "c * m \<le> n div m * m" using assms by (intro mult_right_mono) auto
    with n(1) show "c * m \<le> n" by linarith
  next
    assume "c * m \<le> n"
    with n(2) have "c * m < (n div m + 1) * m" by linarith
    then have "c < n div m + 1" using assms by (simp only: mult_less_cancel_right_pos)
    then show "c \<le> n div m" by linarith
  qed
qed

lemma shift_left_word: "(word_of_int (shift_left n 8) :: 32 word) = word_of_int n * 256"
  by (simp add: shift_left_def push_bit_eq_mult)

lemma ipv4ToInt_word: "(word_of_int (ipv4ToInt s) :: 32 word) = word_of_int (number4 s)"
proof -
  have "(word_of_int (foldl (\<lambda>acc octet. shift_left acc 8 + int (decimal octet)) a os) :: 32 word)
      = word_of_int (foldl (\<lambda>n octet. n * 256 + int (decimal octet)) b os)"
    if "(word_of_int a :: 32 word) = word_of_int b" for a b os
    using that
  proof (induction os arbitrary: a b)
    case (Cons octet os)
    show ?case using Cons.prems by (simp, intro Cons.IH) (simp add: shift_left_word)
  qed simp
  then show ?thesis by (simp add: ipv4ToInt_def number4_def)
qed

lemma shift_right_number:
  assumes "(word_of_int n :: 32 word) = word_of_int q" "0 \<le> q" "q < 2 ^ 32" "k < 32"
  shows "shift_right_unsigned n k = q div 2 ^ k"
proof -
  have "shift_right_unsigned n k = drop_bit k (take_bit 32 q)"
    unfolding shift_right_unsigned_def assms(1) unsigned_drop_bit_eq using assms(4) by (simp add: unsigned_of_int)
  then show ?thesis using assms(2,3) by (simp add: take_bit_int_eq_self drop_bit_eq_div)
qed

lemma number4_bounds:
  assumes "length (split_on (CHR ''.'') s) = 4" "list_all (\<lambda>x. decimal x \<le> 255) (split_on (CHR ''.'') s)"
  shows "0 \<le> number4 s \<and> number4 s < 2 ^ 32"
proof -
  obtain a b c d where "split_on (CHR ''.'') s = [a, b, c, d]"
    using assms(1) by (auto simp: numeral_eq_Suc length_Suc_conv)
  then show ?thesis using assms(2) by (simp add: number4_def)
qed

lemma isIPv4_octets: "isIPv4 s \<Longrightarrow> list_all (\<lambda>x. decimal x \<le> 255) (split_on (CHR ''.'') s)"
  by (auto simp: isIPv4_def octet_text_def list_all_iff)

lemma isIPv4_bounds: "isIPv4 s \<Longrightarrow> 0 \<le> number4 s \<and> number4 s < 2 ^ 32"
  by (rule number4_bounds [OF _ isIPv4_octets]) (auto simp: isIPv4_def)

lemma in_range_number:
  assumes "0 \<le> number4 s" "number4 s < 2 ^ 32" "0 \<le> number4 b" "number4 b < 2 ^ 32" "0 < p" "p \<le> 32"
  shows "in_range (ipv4ToInt s) \<lparr>rng_base = ipv4ToInt b, rng_prefixLength = p\<rparr>
     \<longleftrightarrow> number4 s div 2 ^ (32 - p) = number4 b div 2 ^ (32 - p)"
  using assms by (simp add: in_range_def shift_right_number [OF ipv4ToInt_word])

lemma isBlockedIpv4_special:
  assumes "0 \<le> number4 s" "number4 s < 2 ^ 32"
  shows "isBlockedIpv4 s \<longleftrightarrow> special4 (number4 s)"
proof -
  define q where "q = number4 s"
  have q: "0 \<le> q" "q < 2 ^ 32" using assms by (simp_all add: q_def)
  have range: "in_range (ipv4ToInt s) (range_of cidr) \<longleftrightarrow> q div 2 ^ (32 - p) = n div 2 ^ (32 - p)"
    if "split_on (CHR ''/'') cidr = [b, t]" "decimal t = p" "number4 b = n" "0 \<le> n" "n < 2 ^ 32" "0 < p" "p \<le> 32"
    for cidr b t n p
    using that assms by (simp add: range_of_def in_range_number q_def)
  have "isBlockedIpv4 s \<longleftrightarrow> special4 q"
    unfolding isBlockedIpv4_def BLOCKED_IPV4_RANGES_def special4_def
    using q by (simp add: range number4_def decimal_def div_eq_interval quad_def, presburger)
  then show ?thesis by (simp add: q_def)
qed

lemma octet_nat_text:
  assumes "n < 256"
  shows "octet_text (nat_text n)"
proof -
  have zero: "char_of (48 + k) \<noteq> CHR ''0''" if "0 < k" "k < 10" for k :: nat
  proof
    assume "char_of (48 + k) = CHR ''0''"
    then have "of_char (char_of (48 + k)) = (of_char (CHR ''0'') :: nat)" by (rule arg_cong)
    with that show False by simp
  qed
  consider "n < 10" | "10 \<le> n" "n < 100" | "100 \<le> n" by linarith
  then have "length (nat_text n) \<le> 3 \<and> (length (nat_text n) = 1 \<or> hd (nat_text n) \<noteq> CHR ''0'')"
  proof cases
    case 1
    then show ?thesis by (simp add: nat_text.simps)
  next
    case 2
    then have "nat_text n = [char_of (48 + n div 10), char_of (48 + n mod 10)]" by (simp add: nat_text.simps)
    then show ?thesis using 2 by (simp add: zero)
  next
    case 3
    then have "nat_text n = [char_of (48 + n div 10 div 10), char_of (48 + n div 10 mod 10), char_of (48 + n mod 10)]"
      using assms by (simp add: nat_text.simps; linarith)
    then show ?thesis using 3 assms by (simp add: zero)
  qed
  then show ?thesis using assms by (simp add: octet_text_def digits_nat_text)
qed

lemma not_dot: "list_all digit t \<Longrightarrow> CHR ''.'' \<notin> set t"
  by (auto simp: list_all_iff digit_def)

lemma split_embedded:
  "split_on (CHR ''.'') (embedded_ipv4 n)
     = map (\<lambda>k. nat_text (nat (n mod 2 ^ 32 div 2 ^ k mod 2 ^ 8))) [24, 16, 8, 0]"
  unfolding embedded_ipv4_def by (rule split_on_join) (auto dest: not_dot [OF digits_nat_text, THEN notE])

lemma isIPv4_embedded: "isIPv4 (embedded_ipv4 n)"
  unfolding isIPv4_def split_embedded by (auto intro!: octet_nat_text simp: nat_less_iff)

lemma number4_embedded: "number4 (embedded_ipv4 n) = n mod 2 ^ 32"
proof -
  define m where "m = n mod 2 ^ 32"
  have m: "0 \<le> m" "m < 2 ^ 32" by (simp_all add: m_def)
  define x y z where xyz: "x = m div 256" "y = x div 256" "z = y div 256"
  have parts: "m div 2 ^ 16 = y" "m div 2 ^ 24 = z" "m div 2 ^ 8 = x" "(2 :: int) ^ 8 = 256"
    using zdiv_zmult2_eq [of "2 ^ 8" m "2 ^ 8"] zdiv_zmult2_eq [of "2 ^ 8" m "2 ^ 16"] by (simp_all add: xyz)
  have "z mod 256 = z" using m parts by simp
  moreover have "z * 256 + y mod 256 = y" "y * 256 + x mod 256 = x" "x * 256 + m mod 256 = m"
    unfolding xyz by (rule div_mult_mod_eq)+
  ultimately have "((z mod 256 * 256 + y mod 256) * 256 + x mod 256) * 256 + m mod 256 = m" by metis
  then have "((m div 2 ^ 24 mod 2 ^ 8 * 256 + m div 2 ^ 16 mod 2 ^ 8) * 256 + m div 2 ^ 8 mod 2 ^ 8) * 256 + m mod 2 ^ 8 = m"
    by (simp only: parts xyz(1))
  moreover have "number4 (embedded_ipv4 n)
      = ((m div 2 ^ 24 mod 2 ^ 8 * 256 + m div 2 ^ 16 mod 2 ^ 8) * 256 + m div 2 ^ 8 mod 2 ^ 8) * 256 + m div 2 ^ 0 mod 2 ^ 8"
    unfolding number4_def split_embedded m_def [symmetric] by (simp del: power_numeral)
  ultimately show ?thesis by (simp only: m_def power_0 div_by_1)
qed

section \<open>IPv6\<close>

definition number6 :: "int list \<Rightarrow> int" where
  "number6 gs = foldl (\<lambda>n g. n * 2 ^ 16 + g) 0 gs"

definition special6 :: "int \<Rightarrow> bool" where
  "special6 n \<longleftrightarrow>
     n = number6 [0, 0, 0, 0, 0, 0, 0, 0] \<or> n = number6 [0, 0, 0, 0, 0, 0, 0, 1]
   \<or> (number6 [0xfc00, 0, 0, 0, 0, 0, 0, 0] \<le> n \<and> n \<le> number6 (0xfdff # replicate 7 0xffff))
   \<or> (number6 [0xfe80, 0, 0, 0, 0, 0, 0, 0] \<le> n \<and> n \<le> number6 (0xfebf # replicate 7 0xffff))
   \<or> number6 [0xff00, 0, 0, 0, 0, 0, 0, 0] \<le> n
   \<or> (number6 [0, 0, 0, 0, 0, 0xffff, 0, 0] \<le> n \<and> n \<le> number6 [0, 0, 0, 0, 0, 0xffff, 0xffff, 0xffff]
      \<and> special4 (n - number6 [0, 0, 0, 0, 0, 0xffff, 0, 0]))"

text \<open>An optional IPv4 address in place of the last two groups.\<close>

definition tail_text :: "string option \<Rightarrow> string list" where
  "tail_text v4 = (case v4 of None \<Rightarrow> [] | Some t \<Rightarrow> [t])"

definition tail_numbers :: "string option \<Rightarrow> int list" where
  "tail_numbers v4 = (case v4 of None \<Rightarrow> [] | Some t \<Rightarrow> [number4 t div 2 ^ 16, number4 t mod 2 ^ 16])"

definition tail_ok :: "string option \<Rightarrow> bool" where
  "tail_ok v4 \<longleftrightarrow> (\<forall>t. v4 = Some t \<longrightarrow> isIPv4 t)"

inductive denotes :: "string \<Rightarrow> int \<Rightarrow> bool" where
  full: "list_all hex_group gs \<Longrightarrow> tail_ok v4 \<Longrightarrow> length gs + length (tail_numbers v4) = 8 \<Longrightarrow>
    denotes (join '':'' (gs @ tail_text v4)) (number6 (map (\<lambda>g. int (hexadecimal g)) gs @ tail_numbers v4))"
| short: "list_all hex_group fs \<Longrightarrow> list_all hex_group gs \<Longrightarrow> tail_ok v4 \<Longrightarrow>
    length fs + length gs + length (tail_numbers v4) \<le> 7 \<Longrightarrow>
    denotes (join '':'' fs @ ''::'' @ join '':'' (gs @ tail_text v4))
      (number6 (map (\<lambda>g. int (hexadecimal g)) fs
         @ replicate (8 - length fs - length gs - length (tail_numbers v4)) 0
         @ map (\<lambda>g. int (hexadecimal g)) gs @ tail_numbers v4))"

subsection \<open>Splitting\<close>

fun single :: "string \<Rightarrow> bool" where
  "single (x # y # xs) \<longleftrightarrow> \<not> (x = CHR '':'' \<and> y = CHR '':'') \<and> single (y # xs)"
| "single _ \<longleftrightarrow> True"

definition plain :: "string \<Rightarrow> bool" where
  "plain g \<longleftrightarrow> g \<noteq> [] \<and> CHR '':'' \<notin> set g"

lemma single_append: "CHR '':'' \<notin> set g \<Longrightarrow> single (g @ s) \<longleftrightarrow> single s"
proof (induction g)
  case (Cons x g)
  then show ?case by (cases "g @ s") (auto simp: append_eq_Cons_conv)
qed simp

lemma join_plain:
  "gs \<noteq> [] \<Longrightarrow> list_all plain gs \<Longrightarrow> join '':'' gs \<noteq> [] \<and> hd (join '':'' gs) \<noteq> CHR '':'' \<and> last (join '':'' gs) \<noteq> CHR '':''
     \<and> single (join '':'' gs)"
proof (induction gs)
  case (Cons g gs)
  have g: "g \<noteq> []" "hd g \<noteq> CHR '':''" "last g \<noteq> CHR '':''" "CHR '':'' \<notin> set g" "single g"
    using Cons.prems single_append [of g "[]"] by (auto simp: plain_def hd_in_set last_in_set) (metis hd_in_set, metis last_in_set)
  show ?case
  proof (cases "gs = []")
    case True
    then show ?thesis using g by simp
  next
    case False
    with Cons have IH: "join '':'' gs \<noteq> []" "hd (join '':'' gs) \<noteq> CHR '':''" "last (join '':'' gs) \<noteq> CHR '':''" "single (join '':'' gs)"
      by auto
    then show ?thesis using g False by (cases "join '':'' gs") (auto simp: join_Cons single_append)
  qed
qed simp

lemma split_double_not_Nil [simp]: "split_double s \<noteq> []"
  by (induction s rule: split_double.induct) (auto split: list.split)

lemma split_double_single: "single s \<Longrightarrow> split_double s = [s]"
  by (induction s rule: split_double.induct) auto

lemma split_double_append:
  "single f \<Longrightarrow> (f \<noteq> [] \<Longrightarrow> last f \<noteq> CHR '':'') \<Longrightarrow> split_double (f @ ''::'' @ b) = f # split_double b"
  by (induction f rule: split_double.induct) auto

lemma join_split_double: "join ''::'' (split_double s) = s"
proof (induction s rule: split_double.induct)
  case (3 x y xs)
  then show ?case
  proof (cases "x = CHR '':'' \<and> y = CHR '':''")
    case True
    then show ?thesis using 3 by (simp add: join_Cons)
  next
    case False
    then have "join ''::'' (split_double (y # xs)) = y # xs" using 3 by blast
    then show ?thesis using False split_double_not_Nil [of "y # xs"]
      by (cases "split_double (y # xs)"; cases "tl (split_double (y # xs))") auto
  qed
qed simp_all

subsection \<open>Groups\<close>

lemma hex_group_plain: "hex_group g \<Longrightarrow> plain g \<and> CHR ''.'' \<notin> set g \<and> CHR ''%'' \<notin> set g"
proof -
  have "\<not> hex_digit (CHR '':'')" "\<not> hex_digit (CHR ''.'')" "\<not> hex_digit (CHR ''%'')" by (simp_all add: hex_digit_def)
  then show "hex_group g \<Longrightarrow> plain g \<and> CHR ''.'' \<notin> set g \<and> CHR ''%'' \<notin> set g"
    unfolding hex_group_def plain_def list_all_iff by blast
qed

lemma octet_chars: "octet_text p \<Longrightarrow> c \<in> set p \<Longrightarrow> digit c"
  by (simp add: octet_text_def list_all_iff)

lemma dotted_chars:
  assumes "list_all (list_all digit) (split_on (CHR ''.'') s)" "c \<in> set s"
  shows "digit c \<or> c = CHR ''.''"
proof -
  have "set (join ''.'' ps) \<subseteq> {c. digit c} \<union> {CHR ''.''}" if "list_all (list_all digit) ps" for ps
    using that by (induction "''.''" ps rule: join.induct) (auto simp: list_all_iff)
  from this [OF assms(1)] show ?thesis using assms(2) by (auto simp: join_split_on)
qed

lemma isIPv4_chars: "isIPv4 t \<Longrightarrow> c \<in> set t \<Longrightarrow> digit c \<or> c = CHR ''.''"
  by (rule dotted_chars) (auto simp: isIPv4_def list_all_iff octet_chars)

lemma isIPv4_plain: "isIPv4 t \<Longrightarrow> plain t \<and> CHR ''.'' \<in> set t \<and> CHR ''%'' \<notin> set t"
proof -
  assume t: "isIPv4 t"
  have "\<not> digit (CHR '':'')" "\<not> digit (CHR ''%'')" by (simp_all add: digit_def)
  then have "CHR '':'' \<notin> set t" "CHR ''%'' \<notin> set t" using isIPv4_chars [OF t] by auto
  moreover have "CHR ''.'' \<in> set t"
  proof (rule ccontr)
    assume "CHR ''.'' \<notin> set t"
    then show False using t by (simp add: split_on_free isIPv4_def)
  qed
  ultimately show ?thesis by (auto simp: plain_def)
qed

lemma isIPv4_not_hex_group: "isIPv4 t \<Longrightarrow> \<not> hex_group t"
  using isIPv4_plain hex_group_plain by blast

lemma tail_plain: "tail_ok v4 \<Longrightarrow> list_all plain (tail_text v4)"
  using isIPv4_plain by (auto simp: tail_ok_def tail_text_def split: option.split)

lemma hex_groups_plain: "list_all hex_group gs \<Longrightarrow> list_all plain gs"
  by (auto simp: list_all_iff hex_group_plain)

lemma split_on_groups: "list_all plain gs \<Longrightarrow> gs \<noteq> [] \<Longrightarrow> split_on (CHR '':'') (join '':'' gs) = gs"
  by (rule split_on_join) (auto simp: list_all_iff plain_def)

lemma groups_of_join: "list_all plain gs \<Longrightarrow> groups_of (join '':'' gs) = gs"
  using join_plain [of gs] by (cases "gs = []") (auto simp: groups_of_def split_on_groups)

lemma nonempty_groups_join: "list_all plain gs \<Longrightarrow> nonempty_groups (join '':'' gs) = gs"
  by (cases "gs = []") (auto simp: nonempty_groups_def split_on_groups plain_def list_all_iff intro: filter_True)

lemma split_double_join: "list_all plain gs \<Longrightarrow> split_double (join '':'' gs) = [join '':'' gs]"
  using join_plain [of gs] by (cases "gs = []") (auto intro: split_double_single)

lemma split_double_join2:
  "list_all plain fs \<Longrightarrow> list_all plain gs \<Longrightarrow>
     split_double (join '':'' fs @ ''::'' @ join '':'' gs) = [join '':'' fs, join '':'' gs]"
  using join_plain [of fs] split_double_append [of "join '':'' fs" "join '':'' gs"]
  by (cases "fs = []") (auto simp: split_double_join)

lemma parse_group: "hex_group g \<Longrightarrow> parseInt16 g = Some (int (hexadecimal g))"
proof -
  assume g: "hex_group g"
  then obtain c h where ch: "g = c # h" "hex_digit c" "list_all hex_digit h" by (cases g) (auto simp: hex_group_def)
  have none: "\<not> hex_digit d" if "js_space d \<or> d \<in> {CHR ''-'', CHR ''+'', CHR ''x'', CHR ''X''}" for d
    using that by (auto simp: hex_digit_def js_space_def)
  have "\<not> js_space c" "c \<noteq> CHR ''-''" "c \<noteq> CHR ''+''" using ch(2) none by blast+
  moreover have "take 1 h \<noteq> ''x''" "take 1 h \<noteq> ''X''" using ch(3) none [of "hd h"] by (cases h; simp; blast)+
  moreover have "takeWhile hex_digit g = g" using ch by (simp add: list_all_iff takeWhile_eq_all_conv)
  ultimately show ?thesis using ch(1) by (simp add: parseInt16_def)
qed

lemma read_hex_groups:
  "list_all hex_group gs \<Longrightarrow>
     read_groups acc gs = Inr (foldl (\<lambda>n g. n * 2 ^ 16 + g) acc (map (\<lambda>g. int (hexadecimal g)) gs))"
  by (induction gs arbitrary: acc) (simp_all add: parse_group)

lemma zero_group: "hex_group ''0''" "hexadecimal ''0'' = 0"
  by (simp_all add: hex_group_def hex_digit_def hexadecimal_def hex_value_def digit_def)

lemma octet_hex_ok:
  assumes "octet_text p"
  shows "list_all hex_digit (octet_hex p) \<and> length (octet_hex p) = 2 \<and> hexadecimal (octet_hex p) = decimal p"
proof -
  let ?n = "decimal p"
  have n: "?n < 256" using assms by (simp add: octet_text_def)
  have "length (hex_text ?n) \<le> 2 \<and> hex_text ?n \<noteq> []" using n by (simp add: hex_text.simps; linarith)
  then consider "length (hex_text ?n) = 1" | "length (hex_text ?n) = 2" by (cases "hex_text ?n"; cases "tl (hex_text ?n)") auto
  then show ?thesis
  proof cases
    case 1
    then have "octet_hex p = CHR ''0'' # hex_text ?n" by (simp add: octet_hex_def padStart_def)
    moreover have "hexadecimal (CHR ''0'' # hex_text ?n) = ?n"
      using hexadecimal_append [of "''0''" "hex_text ?n"] zero_group(2) by simp
    ultimately show ?thesis using 1 hex_digits_hex_text [of ?n] by (simp add: hex_digit_def)
  next
    case 2
    then show ?thesis using hex_digits_hex_text [of ?n] by (simp add: octet_hex_def padStart_def)
  qed
qed

subsection \<open>The embedded address\<close>

definition hex_pairs :: "string \<Rightarrow> string list" where
  "hex_pairs t = (let hex = map octet_hex (split_on (CHR ''.'') t) in [hex ! 0 @ hex ! 1, hex ! 2 @ hex ! 3])"

lemma hex_pairs_ok:
  assumes "isIPv4 t"
  shows "list_all hex_group (hex_pairs t)
    \<and> map (\<lambda>g. int (hexadecimal g)) (hex_pairs t) = [number4 t div 2 ^ 16, number4 t mod 2 ^ 16]"
proof -
  obtain a b c d where t: "split_on (CHR ''.'') t = [a, b, c, d]"
    using assms by (auto simp: isIPv4_def numeral_eq_Suc length_Suc_conv)
  have o: "octet_text a" "octet_text b" "octet_text c" "octet_text d" using assms t by (simp_all add: isIPv4_def)
  have le: "decimal a \<le> 255" "decimal b \<le> 255" "decimal c \<le> 255" "decimal d \<le> 255"
    using o by (simp_all add: octet_text_def)
  have n: "number4 t = (int (decimal a) * 256 + int (decimal b)) * 2 ^ 16 + (int (decimal c) * 256 + int (decimal d))"
    by (simp add: number4_def t)
  have split: "(x * 2 ^ 16 + y) div 2 ^ 16 = x \<and> (x * 2 ^ 16 + y) mod 2 ^ 16 = y" if "0 \<le> y" "y < 2 ^ 16" for x y :: int
    using that by simp
  have "number4 t div 2 ^ 16 = int (decimal a) * 256 + int (decimal b)"
    "number4 t mod 2 ^ 16 = int (decimal c) * 256 + int (decimal d)"
    unfolding n using split [of "int (decimal c) * 256 + int (decimal d)" "int (decimal a) * 256 + int (decimal b)"] le
    by simp_all
  moreover have "hexadecimal (octet_hex x @ octet_hex y) = decimal x * 256 + decimal y"
    "hex_group (octet_hex x @ octet_hex y)" if "octet_text x" "octet_text y" for x y
    using octet_hex_ok [OF that(1)] octet_hex_ok [OF that(2)] by (auto simp: hexadecimal_append hex_group_def)
  ultimately show ?thesis using o by (simp add: hex_pairs_def t)
qed

lemma dotted_quad_chars: "dotted_quad s \<Longrightarrow> CHR '':'' \<notin> set s \<and> CHR ''.'' \<in> set s"
proof
  assume s: "dotted_quad s"
  have "\<not> digit (CHR '':'')" by (simp add: digit_def)
  then show "CHR '':'' \<notin> set s" using dotted_chars [of s "CHR '':''"] s by (auto simp: dotted_quad_def list_all_iff)
  show "CHR ''.'' \<in> set s"
  proof (rule ccontr)
    assume "CHR ''.'' \<notin> set s"
    then show False using s by (simp add: split_on_free dotted_quad_def)
  qed
qed

lemma isIPv4_dotted: "isIPv4 t \<Longrightarrow> dotted_quad t"
  by (auto simp: isIPv4_def dotted_quad_def octet_text_def list_all_iff)

lemma ipv4Tail_none: "CHR ''.'' \<notin> set s \<Longrightarrow> ipv4Tail s = None"
  by (induction s) (auto dest: dotted_quad_chars)

lemma ipv4Tail_found:
  assumes "isIPv4 t"
  shows "ipv4Tail (p @ '':'' @ t) = Some t"
proof (induction p)
  case Nil
  have "t \<noteq> []" using isIPv4_plain [OF assms] by auto
  then show ?case using isIPv4_dotted [OF assms] dotted_quad_chars [of "CHR '':'' # t"] by (cases t) auto
next
  case (Cons c p)
  then show ?case using dotted_quad_chars [of "(c # p) @ '':'' @ t"] by auto
qed

lemma unmix_none: "CHR ''.'' \<notin> set s \<Longrightarrow> unmix s = s"
  by (simp add: unmix_def ipv4Tail_none)

lemma unmix_found: "isIPv4 t \<Longrightarrow> unmix (p @ '':'' @ t) = p @ '':'' @ join '':'' (hex_pairs t)"
  unfolding unmix_def ipv4Tail_found by (simp add: hex_pairs_def Let_def)

text \<open>The groups after the rewriting: hexadecimal all of them, with the same numbers.\<close>

definition tail_groups :: "string option \<Rightarrow> string list" where
  "tail_groups v4 = (case v4 of None \<Rightarrow> [] | Some t \<Rightarrow> hex_pairs t)"

lemma tail_groups_ok:
  "tail_ok v4 \<Longrightarrow> list_all hex_group (tail_groups v4) \<and> map (\<lambda>g. int (hexadecimal g)) (tail_groups v4) = tail_numbers v4"
  using hex_pairs_ok by (auto simp: tail_ok_def tail_groups_def tail_numbers_def split: option.split)

lemma no_dot: "list_all hex_group gs \<Longrightarrow> CHR ''.'' \<notin> set (join '':'' gs)"
  by (induction "'':''" gs rule: join.induct) (auto dest: hex_group_plain)

lemma unmix_full:
  assumes "list_all hex_group gs" "tail_ok v4" "gs \<noteq> []"
  shows "unmix (join '':'' (gs @ tail_text v4)) = join '':'' (gs @ tail_groups v4)"
proof (cases v4)
  case (Some t)
  then have "isIPv4 t" using assms(2) by (simp add: tail_ok_def)
  moreover have "hex_pairs t \<noteq> []" by (simp add: hex_pairs_def Let_def)
  ultimately show ?thesis using unmix_found [of t "join '':'' gs"] assms(3) Some
    by (simp add: tail_text_def tail_groups_def join_append)
qed (use assms in \<open>simp add: tail_text_def tail_groups_def unmix_none no_dot\<close>)

lemma unmix_short:
  assumes "list_all hex_group fs" "list_all hex_group gs" "tail_ok v4"
  shows "unmix (join '':'' fs @ ''::'' @ join '':'' (gs @ tail_text v4)) = join '':'' fs @ ''::'' @ join '':'' (gs @ tail_groups v4)"
proof (cases v4)
  case (Some t)
  then have t: "isIPv4 t" using assms(3) by (simp add: tail_ok_def)
  have hp: "hex_pairs t \<noteq> []" by (simp add: hex_pairs_def Let_def)
  show ?thesis
  proof (cases "gs = []")
    case True
    then show ?thesis using unmix_found [OF t, of "join '':'' fs @ '':''"] Some by (simp add: tail_text_def tail_groups_def)
  next
    case False
    then show ?thesis using unmix_found [OF t, of "join '':'' fs @ ''::'' @ join '':'' gs"] Some hp
      by (simp add: tail_text_def tail_groups_def join_append)
  qed
qed (use assms in \<open>simp add: tail_text_def tail_groups_def unmix_none no_dot\<close>)

lemma ipv6ToBigInt_denotes: "denotes s n \<Longrightarrow> ipv6ToBigInt s = Inr n"
proof (induction rule: denotes.induct)
  case (full gs v4)
  let ?gs = "gs @ tail_groups v4"
  have t: "list_all hex_group ?gs" "map (\<lambda>g. int (hexadecimal g)) ?gs = map (\<lambda>g. int (hexadecimal g)) gs @ tail_numbers v4"
    using tail_groups_ok [OF full(2)] full(1) by simp_all
  have len: "length ?gs = 8" using arg_cong [OF t(2), of length] full(3) by simp
  have "gs \<noteq> []" using full(3) by (auto simp: tail_numbers_def split: option.splits)
  note rewritten = unmix_full [OF full(1,2) this]
  show ?case
    unfolding ipv6ToBigInt_def rewritten using len hex_groups_plain [OF t(1)]
    by (simp add: split_double_join nonempty_groups_join Let_def read_hex_groups [OF t(1)] t(2) number6_def del: map_append)
next
  case (short fs gs v4)
  let ?gs = "gs @ tail_groups v4"
  let ?zeros = "replicate (8 - length fs - length ?gs) ''0''"
  have t: "list_all hex_group ?gs" "map (\<lambda>g. int (hexadecimal g)) ?gs = map (\<lambda>g. int (hexadecimal g)) gs @ tail_numbers v4"
    using tail_groups_ok [OF short(3)] short(2) by simp_all
  have len: "length ?gs = length gs + length (tail_numbers v4)" using arg_cong [OF t(2), of length] by simp
  have all: "list_all hex_group (fs @ ?zeros @ ?gs)" using short(1) t(1) zero_group by (auto simp: list_all_iff)
  have "ipv6ToBigInt (join '':'' fs @ ''::'' @ join '':'' (gs @ tail_text v4)) = read_groups 0 (fs @ ?zeros @ ?gs)"
    unfolding ipv6ToBigInt_def unmix_short [OF short(1-3)]
      split_double_join2 [OF hex_groups_plain [OF short(1)] hex_groups_plain [OF t(1)]]
    using nonempty_groups_join [OF hex_groups_plain [OF t(1)]] nonempty_groups_join [OF hex_groups_plain [OF short(1)]]
    by (simp add: Let_def)
  also have "\<dots> = Inr (number6 (map (\<lambda>g. int (hexadecimal g)) (fs @ ?zeros @ ?gs)))"
    unfolding read_hex_groups [OF all] number6_def ..
  finally show ?case using t(2) len by (simp add: zero_group map_replicate_const add.assoc)
qed

lemma number6_bounds:
  "\<forall>g \<in> set gs. 0 \<le> g \<and> g < 2 ^ 16 \<Longrightarrow> 0 \<le> number6 gs \<and> number6 gs < 2 ^ (16 * length gs)"
proof (induction gs rule: rev_induct)
  case (snoc g gs)
  then have "0 \<le> number6 gs" "number6 gs + 1 \<le> 2 ^ (16 * length gs)" "0 \<le> g" "g < 2 ^ 16" by auto
  moreover from this(2) have "(number6 gs + 1) * 2 ^ 16 \<le> 2 ^ (16 * length gs) * 2 ^ 16" by (rule mult_right_mono) simp
  ultimately show ?case by (simp add: number6_def power_add distrib_right)
qed (simp add: number6_def)

lemma hex_group_number: "hex_group g \<Longrightarrow> hexadecimal g < 2 ^ 16"
proof -
  assume g: "hex_group g"
  then have "hexadecimal g < 16 ^ length g" by (intro hexadecimal_less) (simp add: hex_group_def)
  also have "\<dots> \<le> 16 ^ 4" using g by (intro power_increasing) (simp_all add: hex_group_def)
  finally show ?thesis by simp
qed

lemma tail_numbers_bounds: "tail_ok v4 \<Longrightarrow> g \<in> set (tail_numbers v4) \<Longrightarrow> 0 \<le> g \<and> g < 2 ^ 16"
proof -
  have "0 \<le> n div 2 ^ 16 \<and> n div 2 ^ 16 < 2 ^ 16" if "0 \<le> n" "n < 2 ^ 32" for n :: int
    using that le_div_interval [of "2 ^ 16" 0 n] le_div_interval [of "2 ^ 16" "2 ^ 16" n] by simp
  then show "tail_ok v4 \<Longrightarrow> g \<in> set (tail_numbers v4) \<Longrightarrow> 0 \<le> g \<and> g < 2 ^ 16"
    using isIPv4_bounds by (fastforce simp: tail_ok_def tail_numbers_def split: option.splits)
qed

lemma denotes_bounds: "denotes s n \<Longrightarrow> 0 \<le> n \<and> n < 2 ^ 128"
proof (induction rule: denotes.induct)
  case (full gs v4)
  then show ?case
    using number6_bounds [of "map (\<lambda>g. int (hexadecimal g)) gs @ tail_numbers v4"] tail_numbers_bounds
    by (force simp: list_all_iff dest: hex_group_number)
next
  case (short fs gs v4)
  let ?ns = "map (\<lambda>g. int (hexadecimal g)) fs @ replicate (8 - length fs - length gs - length (tail_numbers v4)) 0
    @ map (\<lambda>g. int (hexadecimal g)) gs @ tail_numbers v4"
  have "length ?ns = 8" using short(4) by simp
  then show ?case using number6_bounds [of ?ns] tail_numbers_bounds short
    by (force simp: list_all_iff dest: hex_group_number)
qed

subsection \<open>The grammar\<close>

lemma group_count_join:
  "list_all hex_group gs \<Longrightarrow> tail_ok v4 \<Longrightarrow> group_count (gs @ tail_text v4) = Some (length gs + length (tail_numbers v4))"
  using isIPv4_not_hex_group by (cases v4) (auto simp: group_count_def tail_text_def tail_numbers_def tail_ok_def)

lemma group_countD:
  assumes "group_count gs = Some k"
  shows "\<exists>hs v4. gs = hs @ tail_text v4 \<and> list_all hex_group hs \<and> tail_ok v4 \<and> k = length hs + length (tail_numbers v4)"
proof (cases "list_all hex_group gs")
  case True
  then show ?thesis using assms
    by (intro exI [of _ gs] exI [of _ None]) (simp add: group_count_def tail_text_def tail_numbers_def tail_ok_def)
next
  case False
  with assms have "gs \<noteq> []" "list_all hex_group (butlast gs)" "isIPv4 (last gs)" "k = length gs + 1"
    by (auto simp: group_count_def split: if_splits)
  then show ?thesis
    by (intro exI [of _ "butlast gs"] exI [of _ "Some (last gs)"]) (simp add: tail_text_def tail_numbers_def tail_ok_def)
qed

lemma join_groups_of: "join '':'' (groups_of s) = s"
  by (simp add: groups_of_def join_split_on)

lemma ipv6_text_denotes: "ipv6_text s \<longleftrightarrow> (\<exists>n. denotes s n)"
proof
  assume s: "ipv6_text s"
  from s consider w where "split_double s = [w]" "group_count (groups_of w) = Some 8"
    | f b k where "split_double s = [f, b]" "list_all hex_group (groups_of f)" "group_count (groups_of b) = Some k"
        "length (groups_of f) + k \<le> 7"
    by (auto simp: ipv6_text_def split: list.splits option.splits)
  then show "\<exists>n. denotes s n"
  proof cases
    case 1
    then obtain hs v4 where hs: "groups_of w = hs @ tail_text v4" "list_all hex_group hs" "tail_ok v4"
      "length hs + length (tail_numbers v4) = 8" using group_countD by force
    have "s = join '':'' (hs @ tail_text v4)" using join_split_double [of s] 1(1) join_groups_of [of w] hs(1) by simp
    then show ?thesis using denotes.full [OF hs(2-4)] by blast
  next
    case 2
    then obtain hs v4 where hs: "groups_of b = hs @ tail_text v4" "list_all hex_group hs" "tail_ok v4"
      "k = length hs + length (tail_numbers v4)" using group_countD by force
    have "s = join '':'' (groups_of f) @ ''::'' @ join '':'' (hs @ tail_text v4)"
      using join_split_double [of s] 2(1) join_groups_of [of f] join_groups_of [of b] hs(1) by simp
    then show ?thesis using denotes.short [OF 2(2) hs(2,3)] 2(4) hs(4) by fastforce
  qed
next
  assume "\<exists>n. denotes s n"
  then obtain n where "denotes s n" ..
  then show "ipv6_text s"
  proof (induction rule: denotes.induct)
    case (full gs v4)
    have p: "list_all plain (gs @ tail_text v4)" using hex_groups_plain [OF full(1)] tail_plain [OF full(2)] by simp
    show ?case unfolding ipv6_text_def split_double_join [OF p]
      using full by (simp add: groups_of_join [OF p] group_count_join)
  next
    case (short fs gs v4)
    have p: "list_all plain (gs @ tail_text v4)" using hex_groups_plain [OF short(2)] tail_plain [OF short(3)] by simp
    show ?case unfolding ipv6_text_def split_double_join2 [OF hex_groups_plain [OF short(1)] p]
      using short by (simp add: groups_of_join [OF p] groups_of_join [OF hex_groups_plain [OF short(1)]] group_count_join)
  qed
qed

section \<open>Decisions\<close>

lemma blocked6_special:
  assumes "0 \<le> n" "n < 2 ^ 128"
  shows "(n = 0 \<or> n = 1 \<or> (0xfc00 \<le> n div 2 ^ 112 \<and> n div 2 ^ 112 \<le> 0xfdff)
      \<or> (0xfe80 \<le> n div 2 ^ 112 \<and> n div 2 ^ 112 \<le> 0xfebf) \<or> (0xff00 \<le> n div 2 ^ 112 \<and> n div 2 ^ 112 \<le> 0xffff)
      \<or> (n div 2 ^ 32 = 0xffff \<and> isBlockedIpv4 (embedded_ipv4 n))) \<longleftrightarrow> special6 n"
proof -
  have ge: "c \<le> n div 2 ^ k \<longleftrightarrow> c * 2 ^ k \<le> n" for c :: int and k :: nat
    by (rule le_div_interval) simp
  have le: "n div 2 ^ k \<le> c \<longleftrightarrow> n < (c + 1) * 2 ^ k" for c :: int and k :: nat
    using ge [of "c + 1" k] by linarith
  have mapped: "isBlockedIpv4 (embedded_ipv4 n) \<longleftrightarrow> special4 (n - 0xffff * 2 ^ 32)" if "n div 2 ^ 32 = 0xffff"
  proof -
    have "n mod 2 ^ 32 = n - 0xffff * 2 ^ 32" using that div_mult_mod_eq [of n "2 ^ 32"] by simp
    then show ?thesis
      using isBlockedIpv4_special [of "embedded_ipv4 n"] number4_embedded [of n] by simp
  qed
  have eq: "n div 2 ^ 32 = 0xffff \<longleftrightarrow> 0xffff * 2 ^ 32 \<le> n \<and> n < 0x10000 * 2 ^ 32" using div_eq_interval [of "2 ^ 32" n "0xffff"] by simp
  show ?thesis
    using mapped assms unfolding ge le eq special6_def number6_def by (auto simp: numeral_eq_Suc)
qed

text \<open>
  An address text is special when its number is; a text that is no address at all counts as
  special. Zones, which neither URL hosts nor the name service contain, are left out.
\<close>

definition special :: "string \<Rightarrow> bool" where
  "special a \<longleftrightarrow> (if isIPv4 a then special4 (number4 a) else \<forall>n. denotes a n \<longrightarrow> special6 n)"

definition loopback :: "string \<Rightarrow> bool" where
  "loopback a \<longleftrightarrow> (isIPv4 a \<and> quad 127 0 0 0 \<le> number4 a \<and> number4 a \<le> quad 127 255 255 255)
     \<or> (\<exists>n. denotes a n \<and> (n = 1
          \<or> (number6 [0, 0, 0, 0, 0, 0xffff, 0x7f00, 0] \<le> n \<and> n \<le> number6 [0, 0, 0, 0, 0, 0xffff, 0x7fff, 0xffff])))"

lemma denotes_unique: "denotes a m \<Longrightarrow> denotes a n \<Longrightarrow> m = n"
  using ipv6ToBigInt_denotes [of a m] ipv6ToBigInt_denotes [of a n] by simp

lemma denotes_colon: "denotes a n \<Longrightarrow> CHR '':'' \<in> set a"
proof (induction rule: denotes.induct)
  case (full gs v4)
  then obtain g h gs' where "gs = g # h # gs'"
    by (cases gs; cases "tl gs") (auto simp: tail_numbers_def split: option.splits)
  then show ?case by (simp add: join_Cons)
qed simp

lemma isIPv4_not_denotes: "isIPv4 a \<Longrightarrow> \<not> denotes a n"
  using isIPv4_plain denotes_colon by (auto simp: plain_def)

lemma isIPv6_denotes: "CHR ''%'' \<notin> set a \<Longrightarrow> isIPv6 a \<longleftrightarrow> (\<exists>n. denotes a n)"
proof -
  assume "CHR ''%'' \<notin> set a"
  then have zone: "takeWhile (\<lambda>c. c \<noteq> CHR ''%'') a = a" "dropWhile (\<lambda>c. c \<noteq> CHR ''%'') a = []"
    by (auto simp: takeWhile_eq_all_conv dropWhile_eq_Nil_conv)
  show ?thesis unfolding isIPv6_def Let_def zone ipv6_text_denotes by simp
qed

lemma isBlockedAddress_special:
  assumes "CHR ''%'' \<notin> set a"
  shows "isBlockedAddress a = Inr (special a)"
proof -
  consider "isIPv4 a" | n where "\<not> isIPv4 a" "denotes a n" | "\<not> isIPv4 a" "\<nexists>n. denotes a n" by blast
  then show ?thesis
  proof cases
    case 1
    then show ?thesis using isBlockedIpv4_special [of a] isIPv4_bounds by (simp add: isBlockedAddress_def special_def)
  next
    case 2
    then have n: "isIPv6 a" "special a \<longleftrightarrow> special6 n" using isIPv6_denotes [OF assms] denotes_unique by (auto simp: special_def)
    have "isBlockedIpv6 a = Inr (special6 n)"
      unfolding isBlockedIpv6_def ipv6ToBigInt_denotes [OF 2(2)] and_then_simps Let_def
      using blocked6_special denotes_bounds [OF 2(2)] by blast
    then show ?thesis using 2(1) n by (simp add: isBlockedAddress_def)
  next
    case 3
    then show ?thesis using isIPv6_denotes [OF assms] by (simp add: isBlockedAddress_def special_def)
  qed
qed

lemma loopback_ipv4_number:
  assumes "isIPv4 a"
  shows "loopback_ipv4 a \<longleftrightarrow> quad 127 0 0 0 \<le> number4 a \<and> number4 a \<le> quad 127 255 255 255"
proof -
  define q where "q = number4 a"
  have q: "0 \<le> q" "q < 2 ^ 32" using isIPv4_bounds [OF assms] by (simp_all add: q_def)
  have "LOOPBACK_IPV4 = \<lparr>rng_base = ipv4ToInt ''127.0.0.0'', rng_prefixLength = 8\<rparr>"
    by (simp add: LOOPBACK_IPV4_def range_of_def decimal_def)
  moreover have "number4 ''127.0.0.0'' = quad 127 0 0 0" by (simp add: number4_def decimal_def quad_def)
  ultimately have "loopback_ipv4 a \<longleftrightarrow> q div 2 ^ 24 = quad 127 0 0 0 div 2 ^ 24"
    using in_range_number [of a "''127.0.0.0''" 8] q by (simp add: loopback_ipv4_def q_def quad_def)
  then show ?thesis unfolding q_def [symmetric] by (simp add: quad_def div_eq_interval; linarith)
qed

lemma isLoopback_loopback:
  assumes "CHR ''%'' \<notin> set a"
  shows "isLoopback a = Inr (loopback a)"
proof -
  consider "isIPv4 a" | n where "\<not> isIPv4 a" "denotes a n" | "\<not> isIPv4 a" "\<nexists>n. denotes a n" by blast
  then show ?thesis
  proof cases
    case 1
    then show ?thesis using isIPv4_not_denotes by (simp add: isLoopback_def loopback_def loopback_ipv4_number)
  next
    case 2
    have n: "0 \<le> n" "n < 2 ^ 128" using denotes_bounds [OF 2(2)] by auto
    have "n div 2 ^ 32 = 0xffff \<longleftrightarrow> 0xffff * 2 ^ 32 \<le> n \<and> n < 0x10000 * 2 ^ 32"
      using div_eq_interval [of "2 ^ 32" n "0xffff"] by simp
    moreover have "n mod 2 ^ 32 = n - 0xffff * 2 ^ 32" if "n div 2 ^ 32 = 0xffff"
      using that div_mult_mod_eq [of n "2 ^ 32"] by simp
    ultimately have "n div 2 ^ 32 = 0xffff \<and> loopback_ipv4 (embedded_ipv4 n)
        \<longleftrightarrow> number6 [0, 0, 0, 0, 0, 0xffff, 0x7f00, 0] \<le> n \<and> n \<le> number6 [0, 0, 0, 0, 0, 0xffff, 0x7fff, 0xffff]"
      unfolding loopback_ipv4_number [OF isIPv4_embedded] number4_embedded number6_def quad_def by auto
    moreover have "isIPv6 a" "loopback a \<longleftrightarrow> n = 1
        \<or> (number6 [0, 0, 0, 0, 0, 0xffff, 0x7f00, 0] \<le> n \<and> n \<le> number6 [0, 0, 0, 0, 0, 0xffff, 0x7fff, 0xffff])"
      using isIPv6_denotes [OF assms] 2 denotes_unique by (auto simp: loopback_def)
    ultimately show ?thesis using 2 isIPv4_embedded [of n]
      by (simp add: isLoopback_def ipv6ToBigInt_denotes)
  next
    case 3
    then show ?thesis using isIPv6_denotes [OF assms] by (simp add: isLoopback_def loopback_def)
  qed
qed

lemma filter_result_Inr: "(\<And>x. x \<in> set xs \<Longrightarrow> f x = Inr (P x)) \<Longrightarrow> filter_result f xs = Inr (filter P xs)"
  by (induction xs) simp_all

lemma blocked_addresses_filter:
  assumes "\<And>a. a \<in> set addresses \<Longrightarrow> CHR ''%'' \<notin> set a"
  shows "blocked_addresses allow addresses = Inr (filter (\<lambda>a. special a \<and> \<not> (allow \<and> loopback a)) addresses)"
proof -
  have "filter_result isBlockedAddress addresses = Inr (filter special addresses)"
    by (rule filter_result_Inr) (simp add: assms isBlockedAddress_special)
  moreover have "filter_result (\<lambda>a. if allow then and_then (isLoopback a) (\<lambda>b. Inr (\<not> b)) else Inr True) (filter special addresses)
      = Inr (filter (\<lambda>a. \<not> (allow \<and> loopback a)) (filter special addresses))"
    by (rule filter_result_Inr) (simp add: assms isLoopback_loopback)
  ultimately show ?thesis by (simp add: blocked_addresses_def conj_commute)
qed

end
