(* ===== verification/Webhook_Dispatch.thy ===== *)
theory Webhook_Dispatch
  imports Webhook_Guard Interleaving Iso_Date Json
begin

text \<open>
  Outbox and webhooks: the signed outbox rows of \<open>src/src/database/outbox\<close>, endpoints
  (\<open>webhook-endpoint.service.ts\<close>), signatures (\<open>webhook-signer.ts\<close>) and the
  dispatcher (\<open>webhook-dispatch.service.ts\<close>), under \<open>src/src/webhooks\<close>.

  A handler is a program of awaited steps. A step reads the clock, generated ids and
  secrets, the answers of the name service and the reply of the receiver; \<open>whk_sent\<close>
  lists the requests that went out. Within one transaction the queries see what is committed
  when they run, and the inserts become visible together at its end. HMAC-SHA256 (as
  hexadecimal text), the spelling of JSON tokens, \<open>Date.parse\<close> and the URL parser are
  parameters; telemetry and logging are left out.
\<close>

section \<open>Rows\<close>

datatype WebhookEndpointStatus = ACTIVE | DISABLED

datatype WebhookDeliveryStatus = PENDING | SUCCEEDED | FAILED_FINAL

datatype attempt_outcome = ATTEMPT_SUCCEEDED | ATTEMPT_FAILED

record WebhookDeliveryAttempt =
  att_attemptNumber :: nat
  att_attemptedAt :: string
  att_httpStatusCode :: "nat option"
  att_outcome :: attempt_outcome
  att_errorMessage :: "string option"

record WebhookDelivery =
  dlv_id :: uuid
  dlv_tenantId :: uuid
  dlv_webhookEndpointId :: uuid
  dlv_outboxEventId :: uuid
  dlv_eventType :: string
  dlv_status :: WebhookDeliveryStatus
  dlv_attempts :: "WebhookDeliveryAttempt list"
  dlv_nextAttemptAt :: "timestamp option"

record WebhookEndpoint =
  whe_id :: uuid
  whe_tenantId :: uuid
  whe_targetUrl :: string
  whe_secret :: string
  whe_eventTypes :: "string list"
  whe_status :: WebhookEndpointStatus
  whe_outboundRateLimitPerMinute :: int
  whe_rateWindowStartedAt :: "timestamp option"
  whe_rateWindowAttempts :: int

record OutboxEvent =
  obx_id :: uuid
  obx_tenantId :: uuid
  obx_caseId :: uuid
  obx_eventType :: string
  obx_payload :: json
  obx_signature :: string
  obx_createdAt :: timestamp
  obx_publishedAt :: "timestamp option"

text \<open>A request on the wire: the delivery, where it went and what it carried.\<close>

record sent_request =
  snt_deliveryId :: uuid
  snt_endpointId :: uuid
  snt_targetUrl :: string
  snt_addresses :: "string list"
  snt_timestamp :: string
  snt_body :: string
  snt_signature :: string

record webhook_db =
  whk_endpoints :: "WebhookEndpoint table"
  whk_deliveries :: "WebhookDelivery table"
  whk_outbox :: "OutboxEvent table"
  whk_sent :: "sent_request list"

datatype http_reply = Response nat | NetworkError string

record webhook_input =
  win_now :: timestamp
  win_ids :: "nat \<Rightarrow> uuid"
  win_secret :: string
  win_dns :: "string \<Rightarrow> string + string list"
  win_reply :: http_reply

datatype webhook_error =
    WebhookEndpointNotFound uuid
  | WebhookDeliveryNotFound uuid
  | OutboxEventNotFound uuid
  | BadWebhookTarget string
  | TargetRangeError
  | WebhookUniqueViolation
  | WebhookCheckViolation

type_synonym 'a webhook_prog = "(webhook_input, webhook_db, webhook_error, 'a) prog"

record webhook_env =
  env_nodeEnv :: "NodeEnvironment option"
  env_url_parse :: "string \<Rightarrow> (string \<times> string) option"
  env_hmac :: "string \<Rightarrow> string \<Rightarrow> string"
  env_spell :: "tok list \<Rightarrow> string"

section \<open>The outbox\<close>

text \<open>\<open>canonicalize\<close> of the signer is the one of the policy digests, and so is its text.\<close>

definition signOutboxPayload :: "webhook_env \<Rightarrow> json \<Rightarrow> string \<Rightarrow> string" where
  "signOutboxPayload env payload secret = env_hmac env secret (env_spell env (digest_input payload))"

text \<open>\<open>Buffer.from(s, 'hex')\<close>: pairs of digits up to the first that is none.\<close>

fun hex_bytes :: "string \<Rightarrow> nat list" where
  "hex_bytes (a # b # s) = (if hex_digit a \<and> hex_digit b then (16 * hex_value a + hex_value b) # hex_bytes s else [])"
| "hex_bytes _ = []"

definition verifyOutboxSignature :: "webhook_env \<Rightarrow> json \<Rightarrow> string \<Rightarrow> string \<Rightarrow> bool" where
  "verifyOutboxSignature env payload signature secret \<longleftrightarrow>
     hex_bytes (signOutboxPayload env payload secret) = hex_bytes signature"

record OutboxEventInput =
  obi_tenantId :: uuid
  obi_caseId :: uuid
  obi_eventType :: string
  obi_payload :: json

definition outbox_event :: "webhook_env \<Rightarrow> string \<Rightarrow> OutboxEventInput \<Rightarrow> uuid \<Rightarrow> timestamp \<Rightarrow> OutboxEvent" where
  "outbox_event env signingSecret inp newId now =
     \<lparr>obx_id = newId, obx_tenantId = obi_tenantId inp, obx_caseId = obi_caseId inp,
      obx_eventType = obi_eventType inp, obx_payload = obi_payload inp,
      obx_signature = signOutboxPayload env (obi_payload inp) signingSecret,
      obx_createdAt = now, obx_publishedAt = None\<rparr>"

definition writeOutboxEvent ::
  "webhook_env \<Rightarrow> string \<Rightarrow> OutboxEventInput \<Rightarrow> uuid \<Rightarrow> timestamp \<Rightarrow> (webhook_db, webhook_error, unit) txn" where
  "writeOutboxEvent env signingSecret inp newId now db =
     (if newId \<in> obx_id ` set (whk_outbox db) then Inl WebhookUniqueViolation
      else Inr ((), db\<lparr>whk_outbox := whk_outbox db @ [outbox_event env signingSecret inp newId now]\<rparr>))"

section \<open>Signatures\<close>

definition signed_text :: "string \<Rightarrow> string \<Rightarrow> string \<Rightarrow> string" where
  "signed_text deliveryId timestampIso rawBody = deliveryId @ ''.'' @ timestampIso @ ''.'' @ rawBody"

definition signWebhookDelivery :: "webhook_env \<Rightarrow> string \<Rightarrow> string \<Rightarrow> string \<Rightarrow> string \<Rightarrow> string" where
  "signWebhookDelivery env deliveryId timestampIso rawBody secret =
     env_hmac env secret (signed_text deliveryId timestampIso rawBody)"

definition DEFAULT_MAX_AGE_MS :: int where
  "DEFAULT_MAX_AGE_MS = 5 * 60 * 1000"

datatype signature_check = Valid | InvalidTimestamp | PossibleReplay int | SignatureMismatch

definition verifyWebhookSignature ::
  "webhook_env \<Rightarrow> (string \<Rightarrow> timestamp option) \<Rightarrow> string \<Rightarrow> string \<Rightarrow> string \<Rightarrow> string \<Rightarrow> string
     \<Rightarrow> int option \<Rightarrow> timestamp \<Rightarrow> signature_check" where
  "verifyWebhookSignature env date_parse deliveryId timestampIso rawBody signature secret maxAge now =
     (case date_parse timestampIso of
        None \<Rightarrow> InvalidTimestamp
      | Some t \<Rightarrow>
          let maxAgeMs = (case maxAge of None \<Rightarrow> DEFAULT_MAX_AGE_MS | Some m \<Rightarrow> m)
          in if maxAgeMs < \<bar>now - t\<bar> then PossibleReplay maxAgeMs
             else if hex_bytes (signWebhookDelivery env deliveryId timestampIso rawBody secret) = hex_bytes signature
             then Valid
             else SignatureMismatch)"

section \<open>Endpoints\<close>

definition sandbox :: "webhook_env \<Rightarrow> bool" where
  "sandbox env = isSandboxEnvironment (case env_nodeEnv env of None \<Rightarrow> Development | Some e \<Rightarrow> e)"

definition guard_target :: "webhook_env \<Rightarrow> webhook_input \<Rightarrow> string \<Rightarrow> guard_error + unit" where
  "guard_target env i url = assertPublicWebhookTarget (env_url_parse env) (win_dns i) (sandbox env) url"

definition assertSafeTarget :: "webhook_env \<Rightarrow> string \<Rightarrow> unit webhook_prog" where
  "assertSafeTarget env url =
     act (\<lambda>i db. (case guard_target env i url of
                    Inr u \<Rightarrow> Inr u
                  | Inl (WebhookTargetBlockedError m) \<Rightarrow> Inl (BadWebhookTarget m)
                  | Inl RangeError \<Rightarrow> Inl TargetRangeError, db))"

definition create_endpoint :: "webhook_env \<Rightarrow> uuid \<Rightarrow> string \<Rightarrow> string list \<Rightarrow> WebhookEndpoint webhook_prog" where
  "create_endpoint env tenantId targetUrl eventTypes =
     pbind (assertSafeTarget env targetUrl) (\<lambda>_.
       act (\<lambda>i. run_txn (\<lambda>db.
         let e = \<lparr>whe_id = win_ids i 0, whe_tenantId = tenantId, whe_targetUrl = targetUrl, whe_secret = win_secret i,
                  whe_eventTypes = eventTypes, whe_status = ACTIVE, whe_outboundRateLimitPerMinute = 60,
                  whe_rateWindowStartedAt = None, whe_rateWindowAttempts = 0\<rparr>
         in if whe_id e \<in> whe_id ` set (whk_endpoints db) then Inl WebhookUniqueViolation
            else Inr (e, db\<lparr>whk_endpoints := whk_endpoints db @ [e]\<rparr>))))"

definition find_endpoint :: "webhook_db \<Rightarrow> uuid \<Rightarrow> uuid \<Rightarrow> WebhookEndpoint option" where
  "find_endpoint db tenantId eid = List.find (\<lambda>e. whe_id e = eid \<and> whe_tenantId e = tenantId) (whk_endpoints db)"

definition findActiveForTenantAndEventType :: "webhook_db \<Rightarrow> uuid \<Rightarrow> string \<Rightarrow> WebhookEndpoint list" where
  "findActiveForTenantAndEventType db tenantId eventType =
     filter (\<lambda>e. eventType \<in> set (whe_eventTypes e))
       (filter (\<lambda>e. whe_tenantId e = tenantId \<and> whe_status e = ACTIVE) (whk_endpoints db))"

definition endpoint_or_fail :: "uuid \<Rightarrow> uuid \<Rightarrow> WebhookEndpoint webhook_prog" where
  "endpoint_or_fail tenantId eid = act (\<lambda>_ db. (or_throw (find_endpoint db tenantId eid) (WebhookEndpointNotFound eid), db))"

text \<open>\<open>save\<close> of an entity writes all its columns that differ from the stored row.\<close>

definition save_endpoint :: "WebhookEndpoint \<Rightarrow> webhook_db \<Rightarrow> webhook_db" where
  "save_endpoint e db = db\<lparr>whk_endpoints := update_where (\<lambda>r. whe_id r = whe_id e) (\<lambda>_. e) (whk_endpoints db)\<rparr>"

text \<open>The check constraint of the column.\<close>

definition rate_check :: "int option \<Rightarrow> bool" where
  "rate_check limit = (case limit of None \<Rightarrow> True | Some n \<Rightarrow> 1 \<le> n \<and> n \<le> 600)"

definition update_endpoint ::
  "webhook_env \<Rightarrow> uuid \<Rightarrow> uuid \<Rightarrow> string option \<Rightarrow> string list option \<Rightarrow> int option \<Rightarrow> WebhookEndpoint webhook_prog" where
  "update_endpoint env tenantId eid targetUrl eventTypes limit =
     pbind (case targetUrl of None \<Rightarrow> preturn () | Some u \<Rightarrow> assertSafeTarget env u) (\<lambda>_.
     pbind (endpoint_or_fail tenantId eid) (\<lambda>e.
       let e' = e\<lparr>whe_targetUrl := (case targetUrl of None \<Rightarrow> whe_targetUrl e | Some u \<Rightarrow> u),
                  whe_eventTypes := (case eventTypes of None \<Rightarrow> whe_eventTypes e | Some ts \<Rightarrow> ts),
                  whe_outboundRateLimitPerMinute := (case limit of None \<Rightarrow> whe_outboundRateLimitPerMinute e | Some n \<Rightarrow> n)\<rparr>
       in act (\<lambda>_ db. if rate_check limit then (Inr e', save_endpoint e' db) else (Inl WebhookCheckViolation, db))))"

definition disable_endpoint :: "uuid \<Rightarrow> uuid \<Rightarrow> WebhookEndpoint webhook_prog" where
  "disable_endpoint tenantId eid =
     pbind (endpoint_or_fail tenantId eid) (\<lambda>e.
       act (\<lambda>_ db. (Inr (e\<lparr>whe_status := DISABLED\<rparr>), save_endpoint (e\<lparr>whe_status := DISABLED\<rparr>) db)))"

definition window_start :: "timestamp \<Rightarrow> timestamp" where
  "window_start now = now div 60000 * 60000"

definition window_open :: "timestamp \<Rightarrow> WebhookEndpoint \<Rightarrow> bool" where
  "window_open start e \<longleftrightarrow> (case whe_rateWindowStartedAt e of None \<Rightarrow> True | Some w \<Rightarrow> w < start)"

definition count_attempt :: "timestamp \<Rightarrow> WebhookEndpoint \<Rightarrow> WebhookEndpoint" where
  "count_attempt start e =
     e\<lparr>whe_rateWindowStartedAt := Some start,
       whe_rateWindowAttempts := (if window_open start e then 1 else whe_rateWindowAttempts e + 1)\<rparr>"

definition rate_where :: "uuid \<Rightarrow> uuid \<Rightarrow> timestamp \<Rightarrow> WebhookEndpoint \<Rightarrow> bool" where
  "rate_where tenantId eid start e \<longleftrightarrow> whe_id e = eid \<and> whe_tenantId e = tenantId
     \<and> (window_open start e \<or> whe_rateWindowAttempts e < whe_outboundRateLimitPerMinute e)"

definition reserveOutboundAttempt ::
  "uuid \<Rightarrow> uuid \<Rightarrow> timestamp \<Rightarrow> webhook_db \<Rightarrow> (bool \<times> timestamp) \<times> webhook_db" where
  "reserveOutboundAttempt tenantId eid now db =
     (let start = window_start now; P = rate_where tenantId eid start
      in ((affected P (whk_endpoints db) = 1, start + 60000),
          db\<lparr>whk_endpoints := update_where P (count_attempt start) (whk_endpoints db)\<rparr>))"

section \<open>Delivery\<close>

definition delivery_or_fail :: "uuid \<Rightarrow> uuid \<Rightarrow> WebhookDelivery webhook_prog" where
  "delivery_or_fail tenantId did =
     act (\<lambda>_ db. (or_throw (List.find (\<lambda>d. dlv_id d = did \<and> dlv_tenantId d = tenantId) (whk_deliveries db))
                    (WebhookDeliveryNotFound did), db))"

definition EVENT_BATCH_SIZE :: nat where
  "EVENT_BATCH_SIZE = 50"

definition DELIVERY_BATCH_SIZE :: nat where
  "DELIVERY_BATCH_SIZE = 50"

definition MAX_ATTEMPTS :: nat where
  "MAX_ATTEMPTS = 5"

definition backoffMs :: "nat \<Rightarrow> int" where
  "backoffMs attemptNumber = min (1000 * 2 ^ attemptNumber) 60000"

definition update_delivery ::
  "(WebhookDelivery \<Rightarrow> bool) \<Rightarrow> (WebhookDelivery \<Rightarrow> WebhookDelivery) \<Rightarrow> webhook_db \<Rightarrow> webhook_db" where
  "update_delivery P f db = db\<lparr>whk_deliveries := update_where P f (whk_deliveries db)\<rparr>"

definition raw_body :: "webhook_env \<Rightarrow> WebhookDelivery \<Rightarrow> string \<Rightarrow> OutboxEvent \<Rightarrow> string" where
  "raw_body env d timestampIso event =
     env_spell env (stringify (JObj [(''id'', JStr (dlv_id d)), (''type'', JStr (dlv_eventType d)),
       (''timestamp'', JStr timestampIso), (''data'', obx_payload event)]))"

text \<open>The addresses a request to the host of the URL may go to when it is made.\<close>

definition connect_addresses :: "webhook_env \<Rightarrow> webhook_input \<Rightarrow> string \<Rightarrow> string list" where
  "connect_addresses env i url =
     (case target_addresses (env_url_parse env) (win_dns i) url of Inl _ \<Rightarrow> [] | Inr (_, as) \<Rightarrow> as)"

text \<open>The status of the reply, the outcome and the message of one attempt.\<close>

type_synonym attempt_result = "nat option \<times> attempt_outcome \<times> string option"

definition send_request ::
  "webhook_env \<Rightarrow> WebhookDelivery \<Rightarrow> WebhookEndpoint \<Rightarrow> string \<Rightarrow> string \<Rightarrow> attempt_result webhook_prog" where
  "send_request env d e timestampIso rawBody =
     pbind (query (\<lambda>i _. guard_target env i (whe_targetUrl e))) (\<lambda>guard.
       case guard of
         Inl (WebhookTargetBlockedError m) \<Rightarrow> preturn (None, ATTEMPT_FAILED, Some m)
       | Inl RangeError \<Rightarrow> preturn (None, ATTEMPT_FAILED, Some ''The number NaN cannot be converted to a BigInt because it is not an integer'')
       | Inr _ \<Rightarrow>
           act (\<lambda>i db.
             (Inr (case win_reply i of
                     NetworkError m \<Rightarrow> (None, ATTEMPT_FAILED, Some m)
                   | Response n \<Rightarrow>
                       if 200 \<le> n \<and> n \<le> 299 then (Some n, ATTEMPT_SUCCEEDED, None)
                       else (Some n, ATTEMPT_FAILED, Some (''receiver responded HTTP '' @ nat_text n))),
              db\<lparr>whk_sent := whk_sent db @
                [\<lparr>snt_deliveryId = dlv_id d, snt_endpointId = whe_id e, snt_targetUrl = whe_targetUrl e,
                  snt_addresses = connect_addresses env i (whe_targetUrl e), snt_timestamp = timestampIso, snt_body = rawBody,
                  snt_signature = signWebhookDelivery env (dlv_id d) timestampIso rawBody (whe_secret e)\<rparr>]\<rparr>)))"

definition after_attempt ::
  "timestamp \<Rightarrow> nat \<Rightarrow> attempt_outcome \<Rightarrow> WebhookDeliveryStatus \<times> timestamp option" where
  "after_attempt now attemptNumber outcome =
     (if outcome = ATTEMPT_SUCCEEDED then (SUCCEEDED, None)
      else if MAX_ATTEMPTS \<le> attemptNumber then (FAILED_FINAL, None)
      else (PENDING, Some (now + backoffMs attemptNumber)))"

definition record_attempt :: "WebhookDelivery \<Rightarrow> timestamp \<Rightarrow> attempt_result \<Rightarrow> unit webhook_prog" where
  "record_attempt d now res =
     (let attemptNumber = length (dlv_attempts d) + 1;
          attempts = dlv_attempts d @
            [\<lparr>att_attemptNumber = attemptNumber, att_attemptedAt = toISOString now, att_httpStatusCode = fst res,
              att_outcome = fst (snd res), att_errorMessage = snd (snd res)\<rparr>];
          (status, next) = after_attempt now attemptNumber (fst (snd res))
      in act (\<lambda>_ db. (Inr (), update_delivery (\<lambda>r. dlv_id r = dlv_id d \<and> dlv_tenantId r = dlv_tenantId d)
           (\<lambda>r. r\<lparr>dlv_attempts := attempts, dlv_status := status, dlv_nextAttemptAt := next\<rparr>) db)))"

definition defer_delivery :: "WebhookDelivery \<Rightarrow> timestamp \<Rightarrow> unit webhook_prog" where
  "defer_delivery d next =
     act (\<lambda>_ db. (Inr (), update_delivery
       (\<lambda>r. dlv_id r = dlv_id d \<and> dlv_tenantId r = dlv_tenantId d \<and> dlv_status r = PENDING)
       (\<lambda>r. r\<lparr>dlv_nextAttemptAt := Some next\<rparr>) db))"

definition attemptDelivery :: "webhook_env \<Rightarrow> WebhookDelivery \<Rightarrow> timestamp \<Rightarrow> unit webhook_prog" where
  "attemptDelivery env d now =
     pbind (endpoint_or_fail (dlv_tenantId d) (dlv_webhookEndpointId d)) (\<lambda>e.
     pbind (act (\<lambda>_ db. map_prod Inr id (reserveOutboundAttempt (dlv_tenantId d) (whe_id e) now db))) (\<lambda>(reserved, nextWindowAt).
       if \<not> reserved then defer_delivery d nextWindowAt
       else
         pbind (act (\<lambda>_ db. (or_throw (List.find (\<lambda>ev. obx_id ev = dlv_outboxEventId d \<and> obx_tenantId ev = dlv_tenantId d)
                               (whk_outbox db)) (OutboxEventNotFound (dlv_outboxEventId d)), db))) (\<lambda>event.
         pbind (send_request env d e (toISOString now) (raw_body env d (toISOString now) event)) (\<lambda>res.
           record_attempt d now res))))"

section \<open>A tick of the dispatcher\<close>

definition pending_events :: "webhook_db \<Rightarrow> OutboxEvent list" where
  "pending_events db = take EVENT_BATCH_SIZE (sort_key obx_createdAt (filter (\<lambda>ev. obx_publishedAt ev = None) (whk_outbox db)))"

definition due_deliveries :: "timestamp \<Rightarrow> webhook_db \<Rightarrow> WebhookDelivery list" where
  "due_deliveries now db =
     take DELIVERY_BATCH_SIZE
       (filter (\<lambda>d. dlv_status d = PENDING
                    \<and> (case dlv_nextAttemptAt d of None \<Rightarrow> True | Some t \<Rightarrow> t \<le> now)) (whk_deliveries db))"

definition new_delivery :: "OutboxEvent \<Rightarrow> WebhookEndpoint \<Rightarrow> uuid \<Rightarrow> WebhookDelivery" where
  "new_delivery event e newId =
     \<lparr>dlv_id = newId, dlv_tenantId = obx_tenantId event, dlv_webhookEndpointId = whe_id e,
      dlv_outboxEventId = obx_id event, dlv_eventType = obx_eventType event, dlv_status = PENDING,
      dlv_attempts = [], dlv_nextAttemptAt = None\<rparr>"

definition has_delivery :: "webhook_db \<Rightarrow> OutboxEvent \<Rightarrow> WebhookEndpoint \<Rightarrow> bool" where
  "has_delivery db event e =
     list_ex (\<lambda>d. dlv_outboxEventId d = obx_id event \<and> dlv_webhookEndpointId d = whe_id e
                  \<and> dlv_tenantId d = obx_tenantId event) (whk_deliveries db)"

definition insert_deliveries ::
  "OutboxEvent \<Rightarrow> WebhookEndpoint list \<Rightarrow> (nat \<Rightarrow> uuid) \<Rightarrow> (webhook_db, webhook_error, unit) txn" where
  "insert_deliveries event es ids db =
     (let rows = map (\<lambda>(k, e). new_delivery event e (ids k)) (List.enumerate 0 es)
      in if distinct (map dlv_id rows) \<and> list_all (\<lambda>r. dlv_id r \<notin> dlv_id ` set (whk_deliveries db)) rows
         then Inr ((), db\<lparr>whk_deliveries := whk_deliveries db @ rows\<rparr>)
         else Inl WebhookUniqueViolation)"

text \<open>One transaction: a query per endpoint, and the missing deliveries visible at its end.\<close>

definition fan_out :: "OutboxEvent \<Rightarrow> WebhookEndpoint list \<Rightarrow> unit webhook_prog" where
  "fan_out event endpoints =
     pbind (pmap_list (\<lambda>e. query (\<lambda>_ db. (e, has_delivery db event e))) endpoints) (\<lambda>found.
       act (\<lambda>i. run_txn (insert_deliveries event (map fst (filter (\<lambda>p. \<not> snd p) found)) (win_ids i))))"

definition mark_published :: "OutboxEvent \<Rightarrow> timestamp \<Rightarrow> unit webhook_prog" where
  "mark_published event now =
     act (\<lambda>_ db. (Inr (), db\<lparr>whk_outbox :=
       update_where (\<lambda>ev. obx_id ev = obx_id event \<and> obx_tenantId ev = obx_tenantId event)
         (\<lambda>ev. ev\<lparr>obx_publishedAt := Some now\<rparr>) (whk_outbox db)\<rparr>))"

definition publish_event :: "timestamp \<Rightarrow> OutboxEvent \<Rightarrow> unit webhook_prog" where
  "publish_event now event =
     pbind (query (\<lambda>_ db. findActiveForTenantAndEventType db (obx_tenantId event) (obx_eventType event))) (\<lambda>endpoints.
     pbind (fan_out event endpoints) (\<lambda>_.
       mark_published event now))"

record DispatchPendingEventsResult =
  dpr_eventsProcessed :: nat
  dpr_attemptsMade :: nat

definition dispatchPendingEventsInternal ::
  "webhook_env \<Rightarrow> timestamp option \<Rightarrow> DispatchPendingEventsResult webhook_prog" where
  "dispatchPendingEventsInternal env given =
     pbind (query (\<lambda>i db. (case given of None \<Rightarrow> win_now i | Some t \<Rightarrow> t, pending_events db))) (\<lambda>(now, events).
     pbind (pmap_list (publish_event now) events) (\<lambda>_.
     pbind (query (\<lambda>_ db. due_deliveries now db)) (\<lambda>due.
     pbind (pmap_list (\<lambda>d. attemptDelivery env d now) due) (\<lambda>_.
       preturn \<lparr>dpr_eventsProcessed = length events, dpr_attemptsMade = length due\<rparr>))))"

end
