(* ===== verification/Webhook_System.thy ===== *)
theory Webhook_System
  imports Webhook_Dispatch Running_Alone
begin

text \<open>
  What the webhook handlers keep. \<open>history_ok\<close> is the consistency of one delivery row
  and holds under every interleaving of ticks, endpoint changes and new events
  (\<open>wg\<close>, an instance of \<open>rely_guarantee\<close>). \<open>runs\<close> is a triple for a handler that
  runs by itself, with rules for the constructs of programs; with it \<open>book_ok\<close> relates
  the rows to the requests that went out when handlers run one after the other.
\<close>

section \<open>Handlers\<close>

datatype webhook_call =
    Tick "timestamp option"
  | CreateEndpoint uuid string "string list"
  | UpdateEndpoint uuid uuid "string option" "string list option" "int option"
  | DisableEndpoint uuid uuid
  | WriteEvent string OutboxEventInput

fun webhook_handler :: "webhook_env \<Rightarrow> webhook_call \<Rightarrow> unit webhook_prog" where
  "webhook_handler env (Tick given) = forget (dispatchPendingEventsInternal env given)"
| "webhook_handler env (CreateEndpoint t u ts) = forget (create_endpoint env t u ts)"
| "webhook_handler env (UpdateEndpoint t e u ts n) = forget (update_endpoint env t e u ts n)"
| "webhook_handler env (DisableEndpoint t e) = forget (disable_endpoint t e)"
| "webhook_handler env (WriteEvent secret e) =
     act (\<lambda>i. run_txn (writeOutboxEvent env secret e (win_ids i 0) (win_now i)))"

section \<open>Delivery rows\<close>

definition failed :: "WebhookDeliveryAttempt \<Rightarrow> bool" where
  "failed a \<longleftrightarrow> att_outcome a = ATTEMPT_FAILED"

definition history_ok :: "WebhookDelivery \<Rightarrow> bool" where
  "history_ok d \<longleftrightarrow>
     map att_attemptNumber (dlv_attempts d) = [1..<length (dlv_attempts d) + 1]
   \<and> (case dlv_status d of
        PENDING \<Rightarrow> length (dlv_attempts d) < MAX_ATTEMPTS \<and> list_all failed (dlv_attempts d)
      | SUCCEEDED \<Rightarrow> length (dlv_attempts d) \<le> MAX_ATTEMPTS \<and> dlv_attempts d \<noteq> [] \<and> list_all failed (butlast (dlv_attempts d))
          \<and> \<not> failed (last (dlv_attempts d)) \<and> dlv_nextAttemptAt d = None
      | FAILED_FINAL \<Rightarrow> length (dlv_attempts d) = MAX_ATTEMPTS \<and> list_all failed (dlv_attempts d) \<and> dlv_nextAttemptAt d = None)"

text \<open>The fields a recorded attempt writes, from the row the dispatcher read.\<close>

definition attempted :: "WebhookDelivery \<Rightarrow> timestamp \<Rightarrow> attempt_result \<Rightarrow> WebhookDelivery \<Rightarrow> WebhookDelivery" where
  "attempted d now res r =
     (let n = length (dlv_attempts d) + 1
      in r\<lparr>dlv_attempts := dlv_attempts d @
             [\<lparr>att_attemptNumber = n, att_attemptedAt = toISOString now, att_httpStatusCode = fst res,
               att_outcome = fst (snd res), att_errorMessage = snd (snd res)\<rparr>],
           dlv_status := fst (after_attempt now n (fst (snd res))),
           dlv_nextAttemptAt := snd (after_attempt now n (fst (snd res)))\<rparr>)"

lemma record_attempt_eq:
  "record_attempt d now res =
     act (\<lambda>_ db. (Inr (), update_delivery (\<lambda>r. dlv_id r = dlv_id d \<and> dlv_tenantId r = dlv_tenantId d)
       (attempted d now res) db))"
  by (cases "after_attempt now (length (dlv_attempts d) + 1) (fst (snd res))")
    (simp add: record_attempt_def attempted_def [abs_def] Let_def)

lemma history_ok_attempted:
  assumes "history_ok d" "dlv_status d = PENDING"
  shows "history_ok (attempted d now res r)"
  using assms by (cases "fst (snd res)")
    (auto simp: history_ok_def attempted_def after_attempt_def failed_def Let_def MAX_ATTEMPTS_def)

lemma history_ok_deferred: "history_ok d \<Longrightarrow> dlv_status d = PENDING \<Longrightarrow> history_ok (d\<lparr>dlv_nextAttemptAt := n\<rparr>)"
  by (simp add: history_ok_def)

lemma history_ok_new [simp]: "history_ok (new_delivery event e newId)"
  by (simp add: history_ok_def new_delivery_def MAX_ATTEMPTS_def)

section \<open>Any interleaving\<close>

definition histories_ok :: "webhook_db \<Rightarrow> bool" where
  "histories_ok db \<longleftrightarrow> (\<forall>d \<in> set (whk_deliveries db). history_ok d)"

interpretation wg: rely_guarantee histories_ok "\<lambda>_ _. True"
  by unfold_locales simp_all

definition well_behaved :: "webhook_db \<Rightarrow> ('a \<Rightarrow> bool) \<Rightarrow> 'a webhook_prog \<Rightarrow> bool" where
  "well_behaved db P p \<longleftrightarrow> rg histories_ok (\<lambda>_ _. True) (\<lambda>_ r. \<forall>a. r = Inr a \<longrightarrow> P a) db p"

lemma wb_pbind:
  assumes "well_behaved db Q p" "\<And>t a. Q a \<Longrightarrow> well_behaved t P (f a)"
  shows "well_behaved db P (pbind p f)"
  unfolding well_behaved_def by (rule rg_pbind [OF assms(1) [unfolded well_behaved_def]]) (use assms(2) in \<open>auto simp: well_behaved_def\<close>)

lemma wb_act:
  assumes "\<And>i t. histories_ok t \<Longrightarrow> histories_ok (snd (p i t)) \<and> (\<forall>a. fst (p i t) = Inr a \<longrightarrow> P a)"
  shows "well_behaved db P (act p)"
  unfolding well_behaved_def
proof (rule rg_act)
  fix i t r u assume "histories_ok t" "p i t = (r, u)"
  with assms [of t i] show "histories_ok u \<and> True \<and> (\<forall>a. r = Inr a \<longrightarrow> P a)" by simp
qed

lemma wb_query: "(\<And>i t. histories_ok t \<Longrightarrow> P (f i t)) \<Longrightarrow> well_behaved db P (query f)"
  unfolding query_def by (rule wb_act) simp

lemma wb_preturn [simp]: "well_behaved db P (preturn a) \<longleftrightarrow> P a"
  by (simp add: well_behaved_def)

lemma wb_pmap_list:
  "(\<And>t x. x \<in> set xs \<Longrightarrow> well_behaved t (\<lambda>_. True) (f x)) \<Longrightarrow> well_behaved db (\<lambda>_. True) (pmap_list f xs)"
proof (induction xs arbitrary: db)
  case (Cons x xs)
  have "well_behaved t (\<lambda>_. True) (pbind (pmap_list f xs) (\<lambda>ys. preturn (y # ys)))" for t y
    by (rule wb_pbind [OF Cons.IH]) (use Cons.prems in auto)
  with Cons.prems show ?case unfolding pmap_list.simps by - (rule wb_pbind [where Q = "\<lambda>_. True"], auto)
qed simp

lemma wb_forget: "well_behaved db P p \<Longrightarrow> well_behaved db (\<lambda>_. True) (forget p)"
  unfolding forget_def by (rule wb_pbind) auto

lemma wb_endpoint_or_fail: "well_behaved db (\<lambda>_. True) (endpoint_or_fail t e)"
  unfolding endpoint_or_fail_def by (rule wb_act) simp

lemma wb_assertSafeTarget: "well_behaved db (\<lambda>_. True) (assertSafeTarget env u)"
  unfolding assertSafeTarget_def by (rule wb_act) simp

lemma wb_create_endpoint: "well_behaved db (\<lambda>_. True) (create_endpoint env t u ts)"
  unfolding create_endpoint_def
  by (rule wb_pbind [OF wb_assertSafeTarget], rule wb_act) (auto simp: run_txn_def histories_ok_def Let_def)

lemma wb_update_endpoint: "well_behaved db (\<lambda>_. True) (update_endpoint env t e u ts n)"
  unfolding update_endpoint_def Let_def
proof (rule wb_pbind [where Q = "\<lambda>_. True"])
  show "well_behaved db (\<lambda>_. True) (case u of None \<Rightarrow> preturn () | Some u \<Rightarrow> assertSafeTarget env u)"
    by (cases u) (auto intro: wb_assertSafeTarget)
qed (rule wb_pbind [OF wb_endpoint_or_fail], rule wb_act, auto simp: save_endpoint_def histories_ok_def)

lemma wb_disable_endpoint: "well_behaved db (\<lambda>_. True) (disable_endpoint t e)"
  unfolding disable_endpoint_def
  by (rule wb_pbind [OF wb_endpoint_or_fail], rule wb_act) (auto simp: save_endpoint_def histories_ok_def)

lemma wb_write: "well_behaved db (\<lambda>_. True) (act (\<lambda>i. run_txn (writeOutboxEvent env secret e (win_ids i 0) (win_now i))))"
  by (rule wb_act) (auto simp: run_txn_def writeOutboxEvent_def histories_ok_def)

lemma histories_update:
  "histories_ok db \<Longrightarrow> (\<And>r. r \<in> set (whk_deliveries db) \<Longrightarrow> P r \<Longrightarrow> history_ok (f r)) \<Longrightarrow> histories_ok (update_delivery P f db)"
  by (auto simp: histories_ok_def update_delivery_def set_update_where)

lemma wb_publish_event: "well_behaved db (\<lambda>_. True) (publish_event now event)"
proof -
  have "well_behaved u (\<lambda>_. True) (fan_out event es)" for u es
    unfolding fan_out_def
  proof (rule wb_pbind [where Q = "\<lambda>_. True"])
    show "well_behaved u (\<lambda>_. True) (pmap_list (\<lambda>e. query (\<lambda>_ db. (e, has_delivery db event e))) es)"
      by (rule wb_pmap_list) (rule wb_query, rule TrueI)
    fix t found
    show "well_behaved t (\<lambda>_. True) (act (\<lambda>i. run_txn (insert_deliveries event (map fst (filter (\<lambda>p. \<not> snd p) found)) (win_ids i))))"
      by (rule wb_act) (auto simp: run_txn_def insert_deliveries_def histories_ok_def Let_def)
  qed
  moreover have "well_behaved u (\<lambda>_. True) (mark_published event now)" for u
    unfolding mark_published_def by (rule wb_act) (simp add: histories_ok_def)
  ultimately show ?thesis unfolding publish_event_def
    by (intro wb_pbind [where Q = "\<lambda>_. True"] wb_query) auto
qed

lemma wb_send_request: "well_behaved db (\<lambda>_. True) (send_request env d e ts body)"
  unfolding send_request_def
proof (rule wb_pbind [where Q = "\<lambda>_. True"])
  fix t and g :: "guard_error + unit"
  have "well_behaved t (\<lambda>_. True) (act (\<lambda>i db. (Inr (f i), db\<lparr>whk_sent := h i db\<rparr>)))" for f :: "webhook_input \<Rightarrow> attempt_result" and h
    by (rule wb_act) (simp add: histories_ok_def)
  then show "well_behaved t (\<lambda>_. True) (case g of
         Inl (WebhookTargetBlockedError m) \<Rightarrow> preturn (None, ATTEMPT_FAILED, Some m)
       | Inl RangeError \<Rightarrow> preturn (None, ATTEMPT_FAILED, Some ''The number NaN cannot be converted to a BigInt because it is not an integer'')
       | Inr _ \<Rightarrow>
           act (\<lambda>i db.
             (Inr (case win_reply i of
                     NetworkError m \<Rightarrow> (None, ATTEMPT_FAILED, Some m)
                   | Response n \<Rightarrow>
                       if 200 \<le> n \<and> n \<le> 299 then (Some n, ATTEMPT_SUCCEEDED, None)
                       else (Some n, ATTEMPT_FAILED, Some (''receiver responded HTTP '' @ nat_text n))),
              db\<lparr>whk_sent := whk_sent db @
                [\<lparr>snt_deliveryId = dlv_id d, snt_endpointId = whe_id e, snt_targetUrl = whe_targetUrl e,
                  snt_addresses = connect_addresses env i (whe_targetUrl e), snt_timestamp = ts, snt_body = body,
                  snt_signature = signWebhookDelivery env (dlv_id d) ts body (whe_secret e)\<rparr>]\<rparr>)))"
    by (auto split: sum.split guard_error.split)
qed (rule wb_query, rule TrueI)

lemma wb_attemptDelivery:
  assumes d: "history_ok d" "dlv_status d = PENDING"
  shows "well_behaved db (\<lambda>_. True) (attemptDelivery env d now)"
proof -
  have recorded: "well_behaved u (\<lambda>_. True) (record_attempt d now res)" for u res
    unfolding record_attempt_eq by (rule wb_act) (simp add: histories_update history_ok_attempted [OF d])
  have "well_behaved u (\<lambda>_. True) (defer_delivery d n)" for u n
    unfolding defer_delivery_def
    by (rule wb_act, simp, rule histories_update) (auto simp: history_ok_deferred histories_ok_def)
  moreover have "well_behaved u (\<lambda>_. True) (pbind (act (\<lambda>_ db. (or_throw (List.find (\<lambda>ev. obx_id ev = dlv_outboxEventId d \<and> obx_tenantId ev = dlv_tenantId d)
                               (whk_outbox db)) (OutboxEventNotFound (dlv_outboxEventId d)), db))) (\<lambda>event.
         pbind (send_request env d e (toISOString now) (raw_body env d (toISOString now) event)) (\<lambda>res.
           record_attempt d now res)))" for u e
    by (intro wb_pbind [where Q = "\<lambda>_. True"] wb_act wb_send_request recorded) simp
  ultimately show ?thesis
    unfolding attemptDelivery_def
    by (intro wb_pbind [where Q = "\<lambda>_. True"] wb_endpoint_or_fail wb_act)
      (auto simp: reserveOutboundAttempt_def histories_ok_def Let_def split: prod.split)
qed

lemma wb_tick: "well_behaved db (\<lambda>_. True) (dispatchPendingEventsInternal env given)"
  unfolding dispatchPendingEventsInternal_def
proof (rule wb_pbind [where Q = "\<lambda>_. True"])
  fix t and ne :: "timestamp \<times> OutboxEvent list"
  obtain now events where ne: "ne = (now, events)" by fastforce
  have due: "well_behaved u (\<lambda>due. \<forall>d \<in> set due. history_ok d \<and> dlv_status d = PENDING) (query (\<lambda>_ db. due_deliveries now db))" for u
    by (rule wb_query) (auto simp: due_deliveries_def histories_ok_def dest!: in_set_takeD)
  show "well_behaved t (\<lambda>_. True) (case ne of (now, events) \<Rightarrow> pbind (pmap_list (publish_event now) events) (\<lambda>_.
     pbind (query (\<lambda>_ db. due_deliveries now db)) (\<lambda>due.
     pbind (pmap_list (\<lambda>d. attemptDelivery env d now) due) (\<lambda>_.
       preturn \<lparr>dpr_eventsProcessed = length events, dpr_attemptsMade = length due\<rparr>))))"
    unfolding ne prod.case
    by (intro wb_pbind [where Q = "\<lambda>_. True" and p = "pmap_list f xs" for f xs] wb_pmap_list wb_publish_event wb_pbind [OF due] wb_attemptDelivery) auto
qed (rule wb_query, rule TrueI)

lemma wb_handler: "well_behaved db (\<lambda>_. True) (webhook_handler env c)"
  by (cases c) (auto intro: wb_forget [OF wb_tick] wb_forget [OF wb_create_endpoint] wb_forget [OF wb_update_endpoint]
      wb_forget [OF wb_disable_endpoint] wb_write)

lemma histories_reachable:
  assumes "pstep\<^sup>*\<^sup>* (map (webhook_handler env) calls, db0) (ps, db)" "histories_ok db0"
  shows "histories_ok db"
proof -
  have "wg.pool_ok (map (webhook_handler env) calls, db0)"
    using assms(2) wb_handler [of db0 env] by (auto simp: wg.pool_ok_def well_behaved_def intro: rg_weaken)
  from wg.pool_ok_steps [OF assms(1) this] show ?thesis by (simp add: wg.pool_ok_def)
qed

section \<open>Handlers one after the other\<close>

definition requests_for :: "uuid \<Rightarrow> webhook_db \<Rightarrow> nat" where
  "requests_for did db = length (filter (\<lambda>s. snt_deliveryId s = did) (whk_sent db))"

definition settled :: "WebhookDelivery \<Rightarrow> bool" where
  "settled d \<longleftrightarrow> dlv_status d \<noteq> PENDING"

text \<open>Every request is one of the attempts its delivery records.\<close>

definition book_ok :: "webhook_db \<Rightarrow> bool" where
  "book_ok db \<longleftrightarrow> histories_ok db \<and> distinct (map dlv_id (whk_deliveries db))
     \<and> snt_deliveryId ` set (whk_sent db) \<subseteq> dlv_id ` set (whk_deliveries db)
     \<and> (\<forall>d \<in> set (whk_deliveries db). requests_for (dlv_id d) db \<le> length (dlv_attempts d))"

text \<open>The same delivery later: settled ones stay, the others only gain attempts.\<close>

definition carries_on :: "webhook_db \<Rightarrow> webhook_db \<Rightarrow> WebhookDelivery \<Rightarrow> WebhookDelivery \<Rightarrow> bool" where
  "carries_on db db' d d' \<longleftrightarrow>
     dlv_id d' = dlv_id d \<and> dlv_webhookEndpointId d' = dlv_webhookEndpointId d \<and> dlv_outboxEventId d' = dlv_outboxEventId d
   \<and> take (length (dlv_attempts d)) (dlv_attempts d') = dlv_attempts d
   \<and> (settled d \<longrightarrow> d' = d \<and> requests_for (dlv_id d) db' = requests_for (dlv_id d) db)"

definition grown :: "webhook_db \<Rightarrow> webhook_db \<Rightarrow> bool" where
  "grown db db' \<longleftrightarrow> (\<forall>d \<in> set (whk_deliveries db). \<exists>d' \<in> set (whk_deliveries db'). carries_on db db' d d')"

lemma grown_refl [simp]: "grown db db"
  by (auto simp: grown_def carries_on_def)

lemma grown_trans:
  assumes "grown db db'" "grown db' db''"
  shows "grown db db''"
  unfolding grown_def
proof
  fix d assume "d \<in> set (whk_deliveries db)"
  then obtain d' where d': "d' \<in> set (whk_deliveries db')" "carries_on db db' d d'" using assms(1) by (auto simp: grown_def)
  then obtain d'' where d'': "d'' \<in> set (whk_deliveries db'')" "carries_on db' db'' d' d''" using assms(2) by (auto simp: grown_def)
  have "take (length (dlv_attempts d)) (dlv_attempts d'') = dlv_attempts d"
    using d'(2) d''(2) unfolding carries_on_def by (metis length_take min.absorb2 min_def take_take)
  then show "\<exists>d'' \<in> set (whk_deliveries db''). carries_on db db'' d d''"
    using d'(2) d'' by (intro bexI [of _ d'']) (auto simp: carries_on_def)
qed

text \<open>Handlers that leave deliveries and requests alone.\<close>

lemma book_same:
  "whk_deliveries db' = whk_deliveries db \<Longrightarrow> whk_sent db' = whk_sent db \<Longrightarrow> book_ok db' = book_ok db \<and> grown db db'"
  by (auto simp: book_ok_def histories_ok_def grown_def carries_on_def requests_for_def)

text \<open>An attempt on a row that is still as it was read.\<close>

lemma book_update:
  assumes book: "book_ok db" and d: "d \<in> set (whk_deliveries db)" "dlv_status d = PENDING"
    and f: "\<And>r. P r \<longleftrightarrow> dlv_id r = dlv_id d \<and> Q r" "Q d"
    and row: "history_ok (f d)" "dlv_id (f d) = dlv_id d" "dlv_webhookEndpointId (f d) = dlv_webhookEndpointId d"
      "dlv_outboxEventId (f d) = dlv_outboxEventId d" "take (length (dlv_attempts d)) (dlv_attempts (f d)) = dlv_attempts d"
      "length (dlv_attempts d) + length xs \<le> length (dlv_attempts (f d))"
    and xs: "\<And>x. x \<in> set xs \<Longrightarrow> snt_deliveryId x = dlv_id d"
    and db': "whk_deliveries db' = update_where P f (whk_deliveries db)" "whk_sent db' = whk_sent db @ xs"
  shows "book_ok db' \<and> grown db db' \<and> set (whk_deliveries db) - {d} \<subseteq> set (whk_deliveries db')"
proof -
  have same: "P r \<longleftrightarrow> r = d" if "r \<in> set (whk_deliveries db)" for r
    using that book d(1) f by (auto simp: book_ok_def distinct_map inj_on_def)
  have rows: "set (whk_deliveries db') = insert (f d) (set (whk_deliveries db) - {d})"
    using same d(1) by (auto simp: db'(1) set_update_where)
  have filter_xs: "filter (\<lambda>x. snt_deliveryId x = did) xs = (if did = dlv_id d then xs else [])" for did
    using xs by (induction xs) auto
  have count: "requests_for did db' = requests_for did db + (if did = dlv_id d then length xs else 0)" for did
    by (simp add: requests_for_def db'(2) filter_xs)
  have ids: "dlv_id r \<noteq> dlv_id d" if "r \<in> set (whk_deliveries db)" "r \<noteq> d" for r
    using that book d(1) by (auto simp: book_ok_def distinct_map inj_on_def)
  have "map dlv_id (whk_deliveries db') = map dlv_id (whk_deliveries db)"
    unfolding db'(1) update_where_def map_map by (rule map_cong) (use same row(2) in auto)
  moreover have "histories_ok db'" using book rows row(1) by (auto simp: book_ok_def histories_ok_def)
  moreover have "\<forall>r \<in> set (whk_deliveries db'). requests_for (dlv_id r) db' \<le> length (dlv_attempts r)"
  proof
    fix r assume r: "r \<in> set (whk_deliveries db')"
    have old: "requests_for (dlv_id q) db \<le> length (dlv_attempts q)" if "q \<in> set (whk_deliveries db)" for q
      using book that by (simp add: book_ok_def)
    consider "r = f d" | "r \<in> set (whk_deliveries db)" "r \<noteq> d" using r rows by blast
    then show "requests_for (dlv_id r) db' \<le> length (dlv_attempts r)"
    proof cases
      case 1
      then show ?thesis using old [OF d(1)] row(2,6) count by simp
    next
      case 2
      then show ?thesis using old [OF 2(1)] ids count by simp
    qed
  qed
  moreover have "snt_deliveryId ` set (whk_sent db') \<subseteq> dlv_id ` set (whk_deliveries db')"
  proof -
    have "dlv_id ` set (whk_deliveries db') = dlv_id ` set (whk_deliveries db)"
      using arg_cong [OF calculation(1), of set] by simp
    moreover have "snt_deliveryId ` set (whk_sent db) \<subseteq> dlv_id ` set (whk_deliveries db)" using book by (simp add: book_ok_def)
    ultimately show ?thesis using xs d(1) by (auto simp: db'(2))
  qed
  ultimately have "book_ok db'" using book by (simp add: book_ok_def)
  moreover have "grown db db'"
    unfolding grown_def
  proof
    fix r assume r: "r \<in> set (whk_deliveries db)"
    show "\<exists>r' \<in> set (whk_deliveries db'). carries_on db db' r r'"
    proof (cases "r = d")
      case True
      then show ?thesis using rows row d(2) by (intro bexI [of _ "f d"]) (auto simp: carries_on_def settled_def)
    next
      case False
      then show ?thesis using r rows count ids by (intro bexI [of _ r]) (auto simp: carries_on_def)
    qed
  qed
  ultimately show ?thesis using rows by auto
qed

lemma attempted_fields [simp]:
  "dlv_id (attempted d now res r) = dlv_id r" "dlv_webhookEndpointId (attempted d now res r) = dlv_webhookEndpointId r"
  "dlv_outboxEventId (attempted d now res r) = dlv_outboxEventId r"
  "length (dlv_attempts (attempted d now res r)) = length (dlv_attempts d) + 1"
  "take (length (dlv_attempts d)) (dlv_attempts (attempted d now res r)) = dlv_attempts d"
  by (simp_all add: attempted_def Let_def)

text \<open>What is kept while a tick works through its list of due deliveries.\<close>

definition working :: "webhook_db \<Rightarrow> WebhookDelivery list \<Rightarrow> webhook_db \<Rightarrow> bool" where
  "working db0 ds db \<longleftrightarrow> book_ok db \<and> grown db0 db \<and> set ds \<subseteq> set (whk_deliveries db) \<and> distinct ds
     \<and> (\<forall>d \<in> set ds. dlv_status d = PENDING)"

lemma working_same:
  "working db0 ds db \<Longrightarrow> whk_deliveries db' = whk_deliveries db \<Longrightarrow> whk_sent db' = whk_sent db \<Longrightarrow> working db0 ds db'"
  using book_same [of db' db] grown_trans [of db0 db db'] by (auto simp: working_def)

lemma working_done: "working db0 ds db \<Longrightarrow> working db0 [] db"
  by (simp add: working_def)

lemma working_update:
  assumes w: "working db0 (d # ds) db" and f: "\<And>r. P r \<longleftrightarrow> dlv_id r = dlv_id d \<and> Q r" "Q d"
    and row: "history_ok (f d)" "dlv_id (f d) = dlv_id d" "dlv_webhookEndpointId (f d) = dlv_webhookEndpointId d"
      "dlv_outboxEventId (f d) = dlv_outboxEventId d" "take (length (dlv_attempts d)) (dlv_attempts (f d)) = dlv_attempts d"
      "length (dlv_attempts d) + length xs \<le> length (dlv_attempts (f d))"
    and xs: "\<And>x. x \<in> set xs \<Longrightarrow> snt_deliveryId x = dlv_id d"
    and db': "whk_deliveries db' = update_where P f (whk_deliveries db)" "whk_sent db' = whk_sent db @ xs"
  shows "working db0 ds db'"
proof -
  have "book_ok db" "d \<in> set (whk_deliveries db)" "dlv_status d = PENDING" using w by (auto simp: working_def)
  from book_update [OF this f row xs db'] show ?thesis
    using w grown_trans [of db0 db db'] by (auto simp: working_def)
qed

lemma runs_attemptDelivery:
  assumes w: "working db0 (d # ds) db"
  shows "runs db (attemptDelivery env d now) (\<lambda>t r. (\<forall>e. r = Inl e \<longrightarrow> working db0 [] t) \<and> (\<forall>a. r = Inr a \<longrightarrow> working db0 ds t))"
proof -
  have d: "history_ok d" "dlv_status d = PENDING" using w by (auto simp: working_def book_ok_def histories_ok_def)
  have recorded: "working db0 ds (update_delivery (\<lambda>r. dlv_id r = dlv_id d \<and> dlv_tenantId r = dlv_tenantId d) (attempted d now res) u)"
    if "whk_deliveries u = whk_deliveries db" "whk_sent u = whk_sent db @ xs" "length xs \<le> 1"
      "\<And>x. x \<in> set xs \<Longrightarrow> snt_deliveryId x = dlv_id d" for u xs res
    by (rule working_update [OF w, where P = "\<lambda>r. dlv_id r = dlv_id d \<and> dlv_tenantId r = dlv_tenantId d"
          and Q = "\<lambda>r. dlv_tenantId r = dlv_tenantId d" and f = "attempted d now res" and xs = xs])
      (use that history_ok_attempted [OF d] in \<open>auto simp: update_delivery_def\<close>)
  have deferred: "working db0 ds (update_delivery (\<lambda>r. dlv_id r = dlv_id d \<and> dlv_tenantId r = dlv_tenantId d \<and> dlv_status r = PENDING)
      (\<lambda>r. r\<lparr>dlv_nextAttemptAt := Some n\<rparr>) u)"
    if "whk_deliveries u = whk_deliveries db" "whk_sent u = whk_sent db" for u n
    by (rule working_update [OF w, where P = "\<lambda>r. dlv_id r = dlv_id d \<and> dlv_tenantId r = dlv_tenantId d \<and> dlv_status r = PENDING"
          and Q = "\<lambda>r. dlv_tenantId r = dlv_tenantId d \<and> dlv_status r = PENDING"
          and f = "\<lambda>r. r\<lparr>dlv_nextAttemptAt := Some n\<rparr>" and xs = "[]"])
      (use that d history_ok_deferred [OF d] in \<open>auto simp: update_delivery_def\<close>)
  define W :: "webhook_db \<Rightarrow> webhook_error + unit \<Rightarrow> bool"
    where W: "W = (\<lambda>t r. (\<forall>e. r = Inl e \<longrightarrow> working db0 [] t) \<and> (\<forall>a. r = Inr a \<longrightarrow> working db0 ds t))"
  have sent: "runs u (pbind (send_request env d e ts body) (\<lambda>res. record_attempt d now res)) W"
    if u: "whk_deliveries u = whk_deliveries db" "whk_sent u = whk_sent db" for u e ts body
  proof -
    have blocked: "runs u (record_attempt d now res) W" for res
      by (simp add: record_attempt_eq W) (rule recorded [where xs = "[]"], simp_all add: u)
    have wire: "runs u (pbind (act (\<lambda>i db. (Inr (h i), db\<lparr>whk_sent := whk_sent db @ [x i]\<rparr>))) (record_attempt d now)) W"
      if "\<And>i. snt_deliveryId (x i) = dlv_id d" for h :: "webhook_input \<Rightarrow> attempt_result" and x :: "webhook_input \<Rightarrow> sent_request"
      by (rule runs_pbind) (use that in \<open>auto simp: record_attempt_eq u W intro: recorded\<close>)
    show ?thesis
      unfolding send_request_def pbind_assoc
      by (rule runs_pbind) (auto intro!: blocked wire split: sum.split guard_error.split)
  qed
  have same: "whk_deliveries (snd (reserveOutboundAttempt t e now u)) = whk_deliveries u"
    "whk_sent (snd (reserveOutboundAttempt t e now u)) = whk_sent u" for t e u
    by (simp_all add: reserveOutboundAttempt_def Let_def)
  have stop: "W t (Inl e)" if "whk_deliveries t = whk_deliveries db" "whk_sent t = whk_sent db" for t e
    using working_done [OF working_same [OF w that]] by (simp add: W)
  have wait: "W (update_delivery (\<lambda>r. dlv_id r = dlv_id d \<and> dlv_tenantId r = dlv_tenantId d \<and> dlv_status r = PENDING)
      (\<lambda>r. r\<lparr>dlv_nextAttemptAt := Some n\<rparr>) t) (Inr ())"
    if "whk_deliveries t = whk_deliveries db" "whk_sent t = whk_sent db" for t n
    using deferred [OF that] by (simp add: W)
  have "runs db (attemptDelivery env d now) W"
    unfolding attemptDelivery_def endpoint_or_fail_def defer_delivery_def
    by (rule runs_pbind) (auto intro!: runs_pbind [of _ "act p" for p] sent stop wait simp: same case_prod_beta split: sum.split option.split)
  then show ?thesis by (simp only: W)
qed

text \<open>New rows of the fan-out: their ids are fresh, so no request carries them yet.\<close>

definition keeps :: "webhook_db \<Rightarrow> webhook_db \<Rightarrow> bool" where
  "keeps db0 db \<longleftrightarrow> book_ok db \<and> grown db0 db"

lemma keeps_same: "keeps db0 db \<Longrightarrow> whk_deliveries db' = whk_deliveries db \<Longrightarrow> whk_sent db' = whk_sent db \<Longrightarrow> keeps db0 db'"
  using book_same [of db' db] grown_trans [of db0 db db'] by (auto simp: keeps_def)

lemma keeps_insert:
  assumes k: "keeps db0 db" and ins: "insert_deliveries event es ids db = Inr ((), db')"
  shows "keeps db0 db'"
proof -
  define rows where "rows = map (\<lambda>(k, e). new_delivery event e (ids k)) (List.enumerate 0 es)"
  have db': "whk_deliveries db' = whk_deliveries db @ rows" "whk_sent db' = whk_sent db"
    and fresh: "distinct (map dlv_id rows)" "\<And>r. r \<in> set rows \<Longrightarrow> dlv_id r \<notin> dlv_id ` set (whk_deliveries db)"
    using ins by (auto simp: insert_deliveries_def Let_def list_all_iff rows_def split: if_splits)
  have book: "book_ok db" "grown db0 db" using k by (auto simp: keeps_def)
  have count: "requests_for did db' = requests_for did db" for did by (simp add: requests_for_def db'(2))
  have new: "history_ok r \<and> requests_for (dlv_id r) db = 0" if "r \<in> set rows" for r
  proof -
    have "dlv_id r \<notin> snt_deliveryId ` set (whk_sent db)" using fresh(2) [OF that] book(1) by (auto simp: book_ok_def)
    then have "filter (\<lambda>s. snt_deliveryId s = dlv_id r) (whk_sent db) = []" by (auto simp: filter_empty_conv image_iff)
    then show ?thesis using that by (auto simp: requests_for_def rows_def)
  qed
  have "distinct (map dlv_id (whk_deliveries db'))"
    using book(1) fresh unfolding db'(1) book_ok_def by (auto simp: image_iff) (metis)
  moreover have "histories_ok db'" using book(1) new unfolding histories_ok_def db'(1) book_ok_def by (auto simp: histories_ok_def)
  moreover have "\<forall>r \<in> set (whk_deliveries db'). requests_for (dlv_id r) db' \<le> length (dlv_attempts r)"
    using book(1) new unfolding count db'(1) book_ok_def by auto
  moreover have "snt_deliveryId ` set (whk_sent db') \<subseteq> dlv_id ` set (whk_deliveries db')"
    using book(1) unfolding db' book_ok_def by auto
  ultimately have "book_ok db'" by (simp add: book_ok_def)
  moreover have "grown db db'" by (auto simp: grown_def carries_on_def count db'(1))
  ultimately show ?thesis using book(2) grown_trans by (auto simp: keeps_def)
qed

lemma runs_publish_event:
  assumes "keeps db0 db"
  shows "runs db (publish_event now event) (\<lambda>t _. keeps db0 t)"
proof -
  have fan: "runs u (act (\<lambda>i. run_txn (insert_deliveries event es (win_ids i)))) (\<lambda>t _. keeps db0 t)" if "keeps db0 u" for u es
    using that keeps_insert [OF that] by (auto simp: run_txn_def split: sum.split)
  have "runs u (fan_out event es) (\<lambda>t _. keeps db0 t)" if u: "keeps db0 u" for u es
    unfolding fan_out_def
  proof (rule runs_pbind, rule runs_mono [OF runs_pmap_list [where Inv = "\<lambda>_ t. keeps db0 t"]])
    fix t and r :: "webhook_error + (WebhookEndpoint \<times> bool) list"
    assume "keeps db0 t"
    then show "case r of Inl e \<Rightarrow> keeps db0 t | Inr found \<Rightarrow>
        runs t (act (\<lambda>i. run_txn (insert_deliveries event (map fst (filter (\<lambda>p. \<not> snd p) found)) (win_ids i)))) (\<lambda>t _. keeps db0 t)"
      by (cases r) (simp_all only: sum.case fan)
  qed (use u in auto)
  moreover have "runs u (mark_published event now) (\<lambda>t _. keeps db0 t)" if "keeps db0 u" for u
    using keeps_same [OF that] by (simp add: mark_published_def)
  ultimately show ?thesis
    unfolding publish_event_def using assms
    by - (rule runs_pbind, simp only: runs_query sum.case, rule allI, rule runs_pbind, rule runs_mono, blast, auto split: sum.split)
qed

lemma runs_tick:
  assumes "keeps db0 db"
  shows "runs db (dispatchPendingEventsInternal env given) (\<lambda>t _. keeps db0 t)"
proof -
  have attempts: "runs u (pmap_list (\<lambda>d. attemptDelivery env d now) ds) (\<lambda>t _. keeps db0 t)" if "working db0 ds u" for u ds now
    by (rule runs_mono [OF runs_pmap_list [where Inv = "working db0"]])
      (use that runs_attemptDelivery in \<open>auto simp: working_def keeps_def\<close>)
  have due: "working db0 (due_deliveries now u) u" if "keeps db0 u" for u now
    using that by (auto simp: working_def keeps_def due_deliveries_def book_ok_def distinct_map
        intro!: distinct_take distinct_filter dest!: in_set_takeD)
  have publish: "runs u (pmap_list (publish_event now) es) (\<lambda>t _. keeps db0 t)" if "keeps db0 u" for u es now
    by (rule runs_pmap_list [where Inv = "\<lambda>_ t. keeps db0 t", OF that]) (auto elim: runs_mono [OF runs_publish_event])
  have rest: "runs u (pbind (pmap_list (\<lambda>d. attemptDelivery env d now) (due_deliveries now u)) (\<lambda>_. preturn x)) (\<lambda>t _. keeps db0 t)"
    if "keeps db0 u" for u now and x :: DispatchPendingEventsResult
    by (rule runs_pbind, rule runs_mono [OF attempts [OF due [OF that]]]) (auto split: sum.split)
  show ?thesis
    unfolding dispatchPendingEventsInternal_def
  proof (rule runs_pbind, simp only: runs_query sum.case prod.case, rule allI)
    fix i
    let ?now = "case given of None \<Rightarrow> win_now i | Some t \<Rightarrow> t"
    show "runs db (pbind (pmap_list (publish_event ?now) (pending_events db)) (\<lambda>_.
       pbind (query (\<lambda>_ db. due_deliveries ?now db)) (\<lambda>due.
       pbind (pmap_list (\<lambda>d. attemptDelivery env d ?now) due) (\<lambda>_.
         preturn \<lparr>dpr_eventsProcessed = length (pending_events db), dpr_attemptsMade = length due\<rparr>)))) (\<lambda>t _. keeps db0 t)"
      by (rule runs_pbind, rule runs_mono [OF publish [OF assms]]) (auto intro!: runs_pbind [of _ "query _"] rest split: sum.split)
  qed
qed

lemma runs_webhook_handler:
  assumes "keeps db0 db"
  shows "runs db (webhook_handler env c) (\<lambda>t _. keeps db0 t)"
proof -
  have k: "keeps db0 (db\<lparr>whk_endpoints := es\<rparr>)" "keeps db0 (db\<lparr>whk_outbox := os\<rparr>)" for es os
    using keeps_same [OF assms] by simp_all
  show ?thesis
  proof (cases c)
    case (Tick given)
    then show ?thesis unfolding Tick webhook_handler.simps forget_def
      by - (rule runs_pbind, rule runs_mono [OF runs_tick [OF assms]], auto split: sum.split)
  next
    case (CreateEndpoint t u ts)
    then show ?thesis using assms k
      by (auto intro!: runs_pbind simp: forget_def create_endpoint_def assertSafeTarget_def run_txn_def Let_def split: sum.split guard_error.split)
  next
    case (UpdateEndpoint t e u ts n)
    then show ?thesis using assms k
      by (cases u) (auto intro!: runs_pbind simp: forget_def update_endpoint_def endpoint_or_fail_def assertSafeTarget_def save_endpoint_def Let_def
          split: sum.split guard_error.split)
  next
    case (DisableEndpoint t e)
    then show ?thesis using assms k
      by (auto intro!: runs_pbind simp: forget_def disable_endpoint_def endpoint_or_fail_def save_endpoint_def split: sum.split)
  next
    case (WriteEvent secret e)
    then show ?thesis using assms k by (auto simp: run_txn_def writeOutboxEvent_def)
  qed
qed

end
