(* ===== verification/Webhook_Properties.thy ===== *)
theory Webhook_Properties
  imports Webhook_Address Webhook_System
begin

text \<open>
  The properties of outbox and webhooks, with their witnesses: the guard on targets, the
  signatures, the histories of deliveries, the rate limit, and two races of the dispatcher.
\<close>

section \<open>The guard\<close>

text \<open>
  The guard reads IPv6 text right. A text without a zone is an IPv6 address for the guard
  just when the grammar derives it, in any of its forms: eight groups, a double colon in place of
  zeros, and with an IPv4 address at the end; and the number the guard computes is the 128 bit number
  the text denotes.
\<close>

theorem ipv6_reading_is_exact:
  assumes "CHR ''%'' \<notin> set a"
  shows "(isIPv6 a \<longleftrightarrow> (\<exists>n. denotes a n))
    \<and> (\<forall>n. denotes a n \<longrightarrow> ipv6ToBigInt a = Inr n \<and> 0 \<le> n \<and> n < 2 ^ 128)"
  using isIPv6_denotes [OF assms] ipv6ToBigInt_denotes denotes_bounds by blast

lemma zeros: "replicate 4 (0 :: int) = [0, 0, 0, 0]" "replicate 5 (0 :: int) = [0, 0, 0, 0, 0]" "replicate 6 (0 :: int) = [0, 0, 0, 0, 0, 0]"
  by (simp_all add: numeral_eq_Suc)

lemma ex_mixed: "denotes ''64:ff9B::1.2.3.4'' (number6 [0x64, 0xff9b, 0, 0, 0, 0, 0x102, 0x304])"
  using denotes.short [of "[''64'', ''ff9B'']" "[]" "Some ''1.2.3.4''"]
  by (simp add: hex_group_def hex_digit_def tail_ok_def tail_text_def tail_numbers_def isIPv4_def octet_text_def digit_def
      lower_letter_def decimal_def number4_def hexadecimal_def hex_value_def zeros)

theorem ipv6_reading_is_exact_witness:
  "isIPv6 ''64:ff9B::1.2.3.4'' \<and> ipv6ToBigInt ''64:ff9B::1.2.3.4'' = Inr (number6 [0x64, 0xff9b, 0, 0, 0, 0, 0x102, 0x304])"
  using ipv6_reading_is_exact [of "''64:ff9B::1.2.3.4''"] ex_mixed by auto

text \<open>
  C13. The guard admits exactly the public targets. The scheme is http or https and, for the
  addresses the host stands for, the target is accepted just when there is one and none of
  them lies in a special-purpose range, the embedded IPv4 addresses included; a text that is
  no address counts as special. In the sandbox loopback addresses are excepted, and nothing
  else.
\<close>

theorem guard_admits_exactly_public:
  assumes target: "target_addresses url_parse dns url = Inr (hostname, addresses)"
    and zones: "\<And>a. a \<in> set addresses \<Longrightarrow> CHR ''%'' \<notin> set a"
  shows "(\<exists>protocol. url_parse url = Some (protocol, hostname) \<and> protocol \<in> {''http:'', ''https:''})
    \<and> (assertPublicWebhookTarget url_parse dns allow url = Inr ()
        \<longleftrightarrow> addresses \<noteq> [] \<and> (\<forall>a \<in> set addresses. special a \<longrightarrow> allow \<and> loopback a))"
proof
  show "\<exists>protocol. url_parse url = Some (protocol, hostname) \<and> protocol \<in> {''http:'', ''https:''}"
    using target by (auto simp: target_addresses_def split: option.splits if_splits sum.splits)
  show "assertPublicWebhookTarget url_parse dns allow url = Inr ()
      \<longleftrightarrow> addresses \<noteq> [] \<and> (\<forall>a \<in> set addresses. special a \<longrightarrow> allow \<and> loopback a)"
    using blocked_addresses_filter [of addresses allow, OF zones]
    by (auto simp: assertPublicWebhookTarget_def target filter_empty_conv)
qed

definition ex_url_parse :: "string \<Rightarrow> (string \<times> string) option" where
  "ex_url_parse u = (if take 8 u = ''https://'' then Some (''https:'', drop 8 u) else None)"

lemma ex_addresses:
  "\<not> special ''93.184.216.34''" "\<not> special ''2606::1''" "special ''::ffff:10.1.2.3''" "\<not> loopback ''::ffff:10.1.2.3''"
proof -
  have four: "isIPv4 ''93.184.216.34''" "isIPv4 ''10.1.2.3''"
    by (simp_all add: isIPv4_def octet_text_def digit_def decimal_def)
  then show "\<not> special ''93.184.216.34''"
    by (simp add: special_def special4_def number4_def decimal_def quad_def)
  have n: "denotes ''2606::1'' (number6 [0x2606, 0, 0, 0, 0, 0, 0, 1])"
    using denotes.short [of "[''2606'']" "[''1'']" None]
    by (simp add: hex_group_def hex_digit_def tail_ok_def tail_text_def tail_numbers_def hexadecimal_def hex_value_def digit_def
        zeros)
  then show "\<not> special ''2606::1''"
    using isIPv4_not_denotes [of "''2606::1''"] by (auto simp: special_def special6_def number6_def zeros)
  have m: "denotes ''::ffff:10.1.2.3'' (number6 [0, 0, 0, 0, 0, 0xffff, 0xa01, 0x203])"
    using denotes.short [of "[]" "[''ffff'']" "Some ''10.1.2.3''"] four(2)
    by (simp add: hex_group_def hex_digit_def tail_ok_def tail_text_def tail_numbers_def hexadecimal_def hex_value_def digit_def
        lower_letter_def number4_def decimal_def zeros)
  have six: "special6 (number6 [0, 0, 0, 0, 0, 0xffff, 0xa01, 0x203])"
    by (simp add: special6_def number6_def special4_def quad_def)
  show "special ''::ffff:10.1.2.3''"
    unfolding special_def using six m isIPv4_not_denotes denotes_unique [OF m] by metis
  show "\<not> loopback ''::ffff:10.1.2.3''"
  proof
    assume "loopback ''::ffff:10.1.2.3''"
    then obtain k where "denotes ''::ffff:10.1.2.3'' k" "k = 1 \<or> number6 [0, 0, 0, 0, 0, 0xffff, 0x7f00, 0] \<le> k"
      using m isIPv4_not_denotes by (auto simp: loopback_def)
    moreover from this(1) have "number6 [0, 0, 0, 0, 0, 0xffff, 0xa01, 0x203] = k" by (rule denotes_unique [OF m])
    ultimately show False by (auto simp: number6_def)
  qed
qed

theorem guard_admits_exactly_public_witness:
  "assertPublicWebhookTarget ex_url_parse (\<lambda>_. Inr [''93.184.216.34'', ''2606::1'']) False ''https://a.example'' = Inr ()
   \<and> assertPublicWebhookTarget ex_url_parse (\<lambda>_. Inr [''93.184.216.34'', ''::ffff:10.1.2.3'']) True ''https://a.example'' \<noteq> Inr ()"
proof -
  have host: "ex_url_parse ''https://a.example'' = Some (''https:'', ''a.example'')" "\<not> isIPv4 ''a.example''"
    "\<not> isIPv6 ''a.example''" "bare_host ''a.example'' = ''a.example''"
    by (simp_all add: ex_url_parse_def isIPv4_def isIPv6_def ipv6_text_def groups_of_def group_count_def hex_group_def
        hex_digit_def bare_host_def)
  have t: "target_addresses ex_url_parse (\<lambda>_. Inr as) ''https://a.example'' = Inr (''a.example'', as)" for as
    using host by (simp add: target_addresses_def)
  have z: "CHR ''%'' \<notin> set a" if "a \<in> set [''93.184.216.34'', ''2606::1'']" for a using that by auto
  have z': "CHR ''%'' \<notin> set a" if "a \<in> set [''93.184.216.34'', ''::ffff:10.1.2.3'']" for a using that by auto
  show ?thesis
    using guard_admits_exactly_public [OF t [of "[''93.184.216.34'', ''2606::1'']"] z, where allow = False]
      guard_admits_exactly_public [OF t [of "[''93.184.216.34'', ''::ffff:10.1.2.3'']"] z', where allow = True] ex_addresses
    by simp
qed

section \<open>Signatures\<close>

lemma pad_no_dot: "CHR ''.'' \<notin> set (pad w n)"
proof (induction w arbitrary: n)
  case (Suc w)
  have "char_of (nat (48 + n mod 10)) \<noteq> CHR ''.''"
  proof
    assume "char_of (nat (48 + n mod 10)) = CHR ''.''"
    then have "of_char (char_of (nat (48 + n mod 10))) = (of_char (CHR ''.'') :: nat)" by (rule arg_cong)
    moreover have "48 \<le> nat (48 + n mod 10)" "nat (48 + n mod 10) < 58" by (auto simp: nat_less_iff)
    ultimately show False by simp
  qed
  with Suc show ?case by simp
qed simp

lemma iso_dot: "\<exists>p q. toISOString t = p @ ''.'' @ q \<and> CHR ''.'' \<notin> set p \<and> CHR ''.'' \<notin> set q"
proof -
  obtain y m d where c: "civil (t div 86400000) = (y, m, d)" by (cases "civil (t div 86400000)")
  let ?ms = "t mod 86400000"
  have "toISOString t = ((if 0 \<le> y \<and> y \<le> 9999 then pad 4 y else (if y < 0 then CHR ''-'' else CHR ''+'') # pad 6 \<bar>y\<bar>)
         @ ''-'' @ pad 2 m @ ''-'' @ pad 2 d @ ''T'' @ pad 2 (?ms div 3600000)
         @ '':'' @ pad 2 (?ms div 60000 mod 60) @ '':'' @ pad 2 (?ms div 1000 mod 60)) @ ''.'' @ pad 3 (?ms mod 1000) @ ''Z''"
    by (simp add: toISOString_def c Let_def)
  then show ?thesis
    by (rule exI [of _ "(if 0 \<le> y \<and> y \<le> 9999 then pad 4 y else (if y < 0 then CHR ''-'' else CHR ''+'') # pad 6 \<bar>y\<bar>)
         @ ''-'' @ pad 2 m @ ''-'' @ pad 2 d @ ''T'' @ pad 2 (?ms div 3600000)
         @ '':'' @ pad 2 (?ms div 60000 mod 60) @ '':'' @ pad 2 (?ms div 1000 mod 60)", OF exI [of _ "pad 3 (?ms mod 1000) @ ''Z''"], OF conjI])
      (auto simp: pad_no_dot)
qed

lemma before_dot:
  "a @ ''.'' @ b = c @ ''.'' @ d \<Longrightarrow> CHR ''.'' \<notin> set a \<Longrightarrow> CHR ''.'' \<notin> set c \<Longrightarrow> a = c \<and> b = d"
  by (induction a arbitrary: c) (auto simp: Cons_eq_append_conv append_eq_Cons_conv)

lemma signed_text_inj:
  assumes "signed_text a (toISOString t) b = signed_text c (toISOString u) d" "CHR ''.'' \<notin> set a" "CHR ''.'' \<notin> set c"
  shows "a = c \<and> toISOString t = toISOString u \<and> b = d"
proof -
  obtain p q where pq: "toISOString t = p @ ''.'' @ q" "CHR ''.'' \<notin> set p" "CHR ''.'' \<notin> set q" using iso_dot by blast
  obtain r s where rs: "toISOString u = r @ ''.'' @ s" "CHR ''.'' \<notin> set r" "CHR ''.'' \<notin> set s" using iso_dot by blast
  have 1: "a = c \<and> toISOString t @ ''.'' @ b = toISOString u @ ''.'' @ d"
    using before_dot [OF assms(1) [unfolded signed_text_def] assms(2,3)] .
  then have 2: "p = r \<and> q @ ''.'' @ b = s @ ''.'' @ d"
    using before_dot [of p "q @ ''.'' @ b" r "s @ ''.'' @ d"] pq rs by simp
  then have "q = s \<and> b = d" using before_dot [of q b s d] pq rs by simp
  with 1 2 show ?thesis using pq rs by simp
qed

text \<open>A digest in hexadecimal: lower case, two digits per byte.\<close>

definition digest_text :: "string \<Rightarrow> bool" where
  "digest_text s \<longleftrightarrow> even (length s) \<and> list_all (\<lambda>c. c \<in> set ''0123456789abcdef'') s"

lemma lower_hex: "c \<in> set ''0123456789abcdef'' \<Longrightarrow> hex_digit c \<and> nibble (hex_value c) = c"
proof -
  have "\<forall>c \<in> set ''0123456789abcdef''. hex_digit c \<and> nibble (hex_value c) = c" by code_simp
  then show "c \<in> set ''0123456789abcdef'' \<Longrightarrow> hex_digit c \<and> nibble (hex_value c) = c" by blast
qed

lemma hex_bytes_digest:
  "digest_text s \<Longrightarrow> concat (map (\<lambda>n. [nibble (n div 16), nibble (n mod 16)]) (hex_bytes s)) = s"
proof (induction s rule: hex_bytes.induct)
  case (1 a b s)
  then have ab: "a \<in> set ''0123456789abcdef''" "b \<in> set ''0123456789abcdef''" and s: "digest_text s"
    by (auto simp: digest_text_def)
  have h: "hex_digit a" "hex_digit b" "nibble (hex_value a) = a" "nibble (hex_value b) = b" "hex_value b < 16"
    using lower_hex [OF ab(1)] lower_hex [OF ab(2)] hex_digit_value by auto
  with 1(1) [OF _ s] show ?case by simp
qed (auto simp: digest_text_def)

text \<open>
  C31. A webhook signature is good for one delivery, one time and one body. With a digest that
  does not collide, a signature made for a delivery verifies under the same secret just for
  the same delivery id, timestamp and body, and just while the timestamp is within the
  allowed age of the receiver's clock, before or after: a captured request cannot be given a
  new time or another body, nor be replayed later.
\<close>

theorem signature_is_bound:
  assumes hmac: "\<And>k. inj (env_hmac env k)" "\<And>k m. digest_text (env_hmac env k m)"
    and iso: "\<And>t. valid_time t \<Longrightarrow> date_parse (toISOString t) = Some t"
    and ids: "CHR ''.'' \<notin> set deliveryId" "CHR ''.'' \<notin> set deliveryId'" and times: "valid_time t" "valid_time t'"
  shows "verifyWebhookSignature env date_parse deliveryId (toISOString t) rawBody
      (signWebhookDelivery env deliveryId' (toISOString t') rawBody' secret) secret maxAge now = Valid
    \<longleftrightarrow> deliveryId = deliveryId' \<and> t = t' \<and> rawBody = rawBody'
       \<and> \<bar>now - t\<bar> \<le> (case maxAge of None \<Rightarrow> DEFAULT_MAX_AGE_MS | Some m \<Rightarrow> m)"
proof -
  have "hex_bytes (env_hmac env k m) = hex_bytes (env_hmac env k m') \<longleftrightarrow> m = m'" for k m m'
    using hex_bytes_digest [OF hmac(2)] injD [OF hmac(1)] by metis
  moreover have "signed_text deliveryId (toISOString t) rawBody = signed_text deliveryId' (toISOString t') rawBody'
      \<longleftrightarrow> deliveryId = deliveryId' \<and> t = t' \<and> rawBody = rawBody'"
    using signed_text_inj [OF _ ids] toISOString_inj [OF times] by auto
  ultimately show ?thesis
    using iso [OF times(1)] by (auto simp: verifyWebhookSignature_def signWebhookDelivery_def Let_def)
qed

text \<open>A digest that spells the whole message, two digits for each character.\<close>

definition ex_hmac :: "string \<Rightarrow> string \<Rightarrow> string" where
  "ex_hmac k m = concat (map (\<lambda>c. [nibble (of_char c div 16), nibble (of_char c mod 16)]) m)"

definition ex_env :: webhook_env where
  "ex_env = \<lparr>env_nodeEnv = Some Production, env_url_parse = ex_url_parse, env_hmac = ex_hmac, env_spell = (\<lambda>_. ''{}'')\<rparr>"

lemma nibble_lower: "n < 16 \<Longrightarrow> nibble n \<in> set ''0123456789abcdef''"
  unfolding nibble_def by (rule nth_mem) simp

lemma ex_hmac_ok: "inj (ex_hmac k)" "digest_text (ex_hmac k m)"
proof -
  have small: "of_char c div 16 < (16 :: nat)" for c :: char
    using nat_of_char_less_256 [of c] by linarith
  have "hex_bytes (ex_hmac k m) = map of_char m" for m
    using nibble_value [OF small] nibble_value [of "of_char c mod 16" for c] by (induction m) (auto simp: ex_hmac_def)
  moreover have "inj (map (of_char :: char \<Rightarrow> nat))" by (simp add: inj_of_char)
  ultimately show "inj (ex_hmac k)" by (metis injD injI)
  show "digest_text (ex_hmac k m)"
    using nibble_lower [OF small] nibble_lower [of "of_char c mod 16" for c] by (induction m) (auto simp: ex_hmac_def digest_text_def)
qed

theorem signature_is_bound_witness:
  "verifyWebhookSignature ex_env iso_parse ''d1'' (toISOString 1000) ''body'' (signWebhookDelivery ex_env ''d1'' (toISOString 1000) ''body'' ''s'')
     ''s'' None 301000 = Valid
   \<and> verifyWebhookSignature ex_env iso_parse ''d1'' (toISOString 1000) ''body'' (signWebhookDelivery ex_env ''d1'' (toISOString 1000) ''body'' ''s'')
     ''s'' None 301001 \<noteq> Valid
   \<and> verifyWebhookSignature ex_env iso_parse ''d1'' (toISOString 2000) ''body'' (signWebhookDelivery ex_env ''d1'' (toISOString 1000) ''body'' ''s'')
     ''s'' None 2000 \<noteq> Valid"
proof -
  have h: "inj (env_hmac ex_env k)" "digest_text (env_hmac ex_env k m)" for k m by (simp_all add: ex_env_def ex_hmac_ok)
  have v: "valid_time 1000" "valid_time 2000" "CHR ''.'' \<notin> set ''d1''" by (simp_all add: valid_time_def)
  show ?thesis
    using signature_is_bound [OF h iso_parse_toISOString v(3,3) v(1,1), of "''body''" "''body''" "''s''" None 301000]
      signature_is_bound [OF h iso_parse_toISOString v(3,3) v(1,1), of "''body''" "''body''" "''s''" None 301001]
      signature_is_bound [OF h iso_parse_toISOString v(3,3) v(2,1), of "''body''" "''body''" "''s''" None 2000]
    by (simp add: DEFAULT_MAX_AGE_MS_def)
qed

section \<open>Deliveries\<close>

text \<open>
  C15. The history of a delivery is consistent, after any ticks of the dispatcher, endpoint
  changes and new events, interleaved step by step: the attempts are numbered from one
  without gaps, there are at most five, only the last can have succeeded; the delivery has
  succeeded just when it did, has failed finally just when five attempts failed, and a
  settled delivery has no next attempt.
\<close>

theorem delivery_history_consistent:
  assumes "pstep\<^sup>*\<^sup>* (map (webhook_handler env) calls, db0) (ps, db)" "whk_deliveries db0 = []" "d \<in> set (whk_deliveries db)"
  shows "map att_attemptNumber (dlv_attempts d) = [1..<length (dlv_attempts d) + 1] \<and> length (dlv_attempts d) \<le> MAX_ATTEMPTS
    \<and> list_all (\<lambda>a. att_outcome a = ATTEMPT_FAILED) (butlast (dlv_attempts d))
    \<and> (dlv_status d = SUCCEEDED \<longleftrightarrow> dlv_attempts d \<noteq> [] \<and> att_outcome (last (dlv_attempts d)) = ATTEMPT_SUCCEEDED)
    \<and> (dlv_status d = FAILED_FINAL \<longleftrightarrow> length (dlv_attempts d) = MAX_ATTEMPTS \<and> att_outcome (last (dlv_attempts d)) = ATTEMPT_FAILED)
    \<and> (dlv_status d \<noteq> PENDING \<longrightarrow> dlv_nextAttemptAt d = None)"
proof -
  have "histories_ok db0" using assms(2) by (simp add: histories_ok_def)
  then have ok: "history_ok d" using histories_reachable [OF assms(1)] assms(3) by (simp add: histories_ok_def)
  have last_failed: "list_all failed xs \<Longrightarrow> xs \<noteq> [] \<Longrightarrow> failed (last xs)" "list_all failed xs \<Longrightarrow> list_all failed (butlast xs)" for xs
    by (auto simp: list_all_iff dest: in_set_butlastD)
  have not_failed: "att_outcome a = ATTEMPT_SUCCEEDED \<longleftrightarrow> \<not> failed a" for a
    by (cases "att_outcome a") (simp_all add: failed_def)
  have five: "MAX_ATTEMPTS \<noteq> 0" by (simp add: MAX_ATTEMPTS_def)
  show ?thesis
    unfolding failed_def [symmetric] not_failed using ok five last_failed [of "dlv_attempts d"]
    by (cases "dlv_status d"; cases "dlv_attempts d = []") (auto simp: history_ok_def)
qed

lemma later_keeps:
  assumes "serial (webhook_handler env) db db'" "book_ok db"
  shows "keeps db db'"
  using assms
proof (induction rule: serial.induct)
  case (call db db' c "is" r db'')
  then show ?case using runs_webhook_handler [of db db' env c] by (auto simp: runs_def dest: spec [of _ "is"])
qed (simp add: keeps_def)

text \<open>
  C14. Handlers that do not overlap deliver at most five times and never after the end. After
  any sequence of ticks, endpoint changes and new events, each run to its end, every
  delivery is still there with the attempts it had; at most as many requests went out as it
  records attempts, so no more than five; and once it had succeeded or failed finally,
  neither its row changed nor another request went out.
\<close>

theorem settled_delivery_is_final:
  assumes "serial (webhook_handler env) db0 db" "whk_deliveries db0 = []" "whk_sent db0 = []" "serial (webhook_handler env) db db'" "d \<in> set (whk_deliveries db)"
  shows "\<exists>d' \<in> set (whk_deliveries db'). dlv_id d' = dlv_id d
    \<and> take (length (dlv_attempts d)) (dlv_attempts d') = dlv_attempts d
    \<and> requests_for (dlv_id d) db' \<le> length (dlv_attempts d') \<and> length (dlv_attempts d') \<le> MAX_ATTEMPTS
    \<and> (dlv_status d \<noteq> PENDING \<longrightarrow> d' = d \<and> requests_for (dlv_id d) db' = requests_for (dlv_id d) db)"
proof -
  have "book_ok db0" using assms(2,3) by (simp add: book_ok_def histories_ok_def)
  then have "book_ok db" using later_keeps [OF assms(1)] by (simp add: keeps_def)
  then have k: "book_ok db'" "grown db db'" using later_keeps [OF assms(4)] by (simp_all add: keeps_def)
  then obtain d' where d': "d' \<in> set (whk_deliveries db')" "carries_on db db' d d'" using assms(5) by (auto simp: grown_def)
  have "history_ok d'" "requests_for (dlv_id d') db' \<le> length (dlv_attempts d')" using k(1) d'(1) by (auto simp: book_ok_def histories_ok_def)
  then show ?thesis using d' by (intro bexI [of _ d'])
      (auto simp: carries_on_def settled_def history_ok_def split: WebhookDeliveryStatus.splits)
qed

section \<open>The rate limit\<close>

fun reserve_run :: "uuid \<Rightarrow> uuid \<Rightarrow> timestamp list \<Rightarrow> webhook_db \<Rightarrow> bool list" where
  "reserve_run tenantId eid [] db = []"
| "reserve_run tenantId eid (now # ts) db =
     (case reserveOutboundAttempt tenantId eid now db of
        ((reserved, _), db') \<Rightarrow> reserved # reserve_run tenantId eid ts db')"

definition granted_in :: "timestamp \<Rightarrow> timestamp list \<Rightarrow> bool list \<Rightarrow> nat" where
  "granted_in w ts oks = length (filter (\<lambda>(t, ok). ok \<and> window_start t = w) (zip ts oks))"

definition tried_in :: "timestamp \<Rightarrow> timestamp list \<Rightarrow> nat" where
  "tried_in w ts = length (filter (\<lambda>t. window_start t = w) ts)"

lemma reserve_row:
  assumes "distinct (map whe_id (whk_endpoints db))" "e \<in> set (whk_endpoints db)"
    and "reserveOutboundAttempt (whe_tenantId e) (whe_id e) now db = ((ok, nxt), db')"
  defines "start \<equiv> window_start now"
  defines "e' \<equiv> if window_open start e \<or> whe_rateWindowAttempts e < whe_outboundRateLimitPerMinute e then count_attempt start e else e"
  shows "ok \<longleftrightarrow> window_open start e \<or> whe_rateWindowAttempts e < whe_outboundRateLimitPerMinute e"
    "distinct (map whe_id (whk_endpoints db'))" "e' \<in> set (whk_endpoints db')"
proof -
  let ?P = "rate_where (whe_tenantId e) (whe_id e) start"
  have same: "?P r \<Longrightarrow> whe_id r = whe_id e" for r by (simp add: rate_where_def)
  have other: "r = e" if "r \<in> set (whk_endpoints db)" "whe_id r = whe_id e" for r
    using that assms(1,2) by (auto simp: distinct_map inj_on_def)
  have db': "whk_endpoints db' = update_where ?P (count_attempt start) (whk_endpoints db)" and ok: "ok \<longleftrightarrow> affected ?P (whk_endpoints db) = 1"
    using assms(3) by (auto simp: reserveOutboundAttempt_def Let_def start_def)
  have P: "?P e \<longleftrightarrow> window_open start e \<or> whe_rateWindowAttempts e < whe_outboundRateLimitPerMinute e" by (simp add: rate_where_def)
  show "ok \<longleftrightarrow> window_open start e \<or> whe_rateWindowAttempts e < whe_outboundRateLimitPerMinute e"
  proof (cases "?P e")
    case True
    then have "affected ?P (whk_endpoints db) = 1" by (rule affected_one [OF assms(1,2)]) (use same in blast)
    with True show ?thesis using ok P by simp
  next
    case False
    then have "filter ?P (whk_endpoints db) = []" using other same by (auto simp: filter_empty_conv)
    with False show ?thesis using ok P by (simp add: affected_def)
  qed
  have "map whe_id (whk_endpoints db') = map whe_id (whk_endpoints db)"
    unfolding db' update_where_def map_map by (rule map_cong) (auto simp: count_attempt_def)
  then show "distinct (map whe_id (whk_endpoints db'))" using assms(1) by simp
  show "e' \<in> set (whk_endpoints db')"
    using assms(2) P by (auto simp: e'_def db' set_update_where intro!: image_eqI [of _ _ e])
qed

lemma reserve_run_exact:
  assumes "sorted (map window_start ts)" "distinct (map whe_id (whk_endpoints db))" "e \<in> set (whk_endpoints db)"
    and "\<And>s t. whe_rateWindowStartedAt e = Some s \<Longrightarrow> t \<in> set ts \<Longrightarrow> s \<le> window_start t"
    and "0 \<le> whe_rateWindowAttempts e" "1 \<le> whe_outboundRateLimitPerMinute e"
  shows "granted_in w ts (reserve_run (whe_tenantId e) (whe_id e) ts db)
    = min (nat (whe_outboundRateLimitPerMinute e - (if whe_rateWindowStartedAt e = Some w then whe_rateWindowAttempts e else 0)))
        (tried_in w ts)"
  using assms
proof (induction ts arbitrary: db e)
  case Nil
  then show ?case by (simp add: granted_in_def tried_in_def)
next
  case (Cons now ts)
  let ?s = "window_start now" and ?L = "whe_outboundRateLimitPerMinute e" and ?a = "whe_rateWindowAttempts e"
  obtain ok nxt db' where res: "reserveOutboundAttempt (whe_tenantId e) (whe_id e) now db = ((ok, nxt), db')"
    by (metis prod.exhaust)
  define e' where "e' = (if window_open ?s e \<or> ?a < ?L then count_attempt ?s e else e)"
  note row = reserve_row [OF Cons.prems(2,3) res, folded e'_def]
  have keep: "whe_tenantId e' = whe_tenantId e" "whe_id e' = whe_id e" "whe_outboundRateLimitPerMinute e' = ?L"
    by (simp_all add: e'_def count_attempt_def)
  have mono: "?s \<le> window_start t" if "t \<in> set ts" for t
    using Cons.prems(1) that by simp
  have started: "whe_rateWindowStartedAt e = Some s \<Longrightarrow> s \<le> ?s" for s using Cons.prems(4) by simp
  have e': "0 \<le> whe_rateWindowAttempts e'"
    using Cons.prems(5,6) by (auto simp: e'_def count_attempt_def)
  have s': "whe_rateWindowStartedAt e' = Some ?s"
    using started by (auto simp: e'_def count_attempt_def window_open_def split: option.splits)
  have IH: "granted_in w ts (reserve_run (whe_tenantId e) (whe_id e) ts db')
      = min (nat (?L - (if ?s = w then whe_rateWindowAttempts e' else 0))) (tried_in w ts)"
  proof -
    have "s \<le> window_start t" if "whe_rateWindowStartedAt e' = Some s" "t \<in> set ts" for s t using that s' mono by auto
    from Cons.IH [OF _ row(2,3) this e'] show ?thesis using Cons.prems(1,6) s' keep by simp
  qed
  have step: "granted_in w (now # ts) (ok # oks) = (if ok \<and> ?s = w then 1 else 0) + granted_in w ts oks" for oks
    by (simp add: granted_in_def)
  have tried: "tried_in w (now # ts) = (if ?s = w then 1 else 0) + tried_in w ts" by (simp add: tried_in_def)
  have ok: "ok \<longleftrightarrow> window_open ?s e \<or> ?a < ?L" by (rule row(1))
  show ?case
  proof (cases "?s = w")
    case False
    have "whe_rateWindowStartedAt e \<noteq> Some w \<or> tried_in w ts = 0"
    proof (rule disjCI)
      assume "tried_in w ts \<noteq> 0"
      then obtain t where t: "t \<in> set ts" "window_start t = w" by (auto simp: tried_in_def filter_empty_conv)
      with mono False have "?s < w" by force
      then show "whe_rateWindowStartedAt e \<noteq> Some w" using started by force
    qed
    then show ?thesis using False IH step tried res by auto
  next
    case True
    have a': "whe_rateWindowAttempts e' = (if window_open ?s e then 1 else if ?a < ?L then ?a + 1 else ?a)"
      by (simp add: e'_def count_attempt_def)
    have "window_open ?s e \<longleftrightarrow> whe_rateWindowStartedAt e \<noteq> Some w"
      using started True by (auto simp: window_open_def split: option.splits)
    then show ?thesis using True IH step tried res ok a' Cons.prems(5,6) by (auto simp: min_def)
  qed
qed

text \<open>
  C32. The rate limit of an endpoint is exact while the attempts reach the table in the order
  of their minutes and none is in a minute before the recorded window: in every minute
  exactly the first attempts are let through until, with those already counted in it, the
  limit is reached, and the others are deferred. An attempt with an older minute breaks this,
  see \<open>late\_attempt\_reopens\_window\<close>.
\<close>

theorem rate_limit_is_exact:
  assumes "sorted (map window_start ts)" "distinct (map whe_id (whk_endpoints db))" "e \<in> set (whk_endpoints db)"
    and "\<And>s t. whe_rateWindowStartedAt e = Some s \<Longrightarrow> t \<in> set ts \<Longrightarrow> s \<le> window_start t"
    and "0 \<le> whe_rateWindowAttempts e" "1 \<le> whe_outboundRateLimitPerMinute e"
  shows "granted_in w ts (reserve_run (whe_tenantId e) (whe_id e) ts db)
    = min (nat (whe_outboundRateLimitPerMinute e - (if whe_rateWindowStartedAt e = Some w then whe_rateWindowAttempts e else 0)))
        (tried_in w ts)"
  using assms by (rule reserve_run_exact)

text \<open>
  An attempt of a slower tick, with a time in an earlier minute, sets the window back while
  there is room; the next attempt in the current minute then finds an older window and counts
  from one again. So a minute in which some attempts were already let through lets through a
  full limit more.
\<close>

theorem late_attempt_reopens_window:
  assumes "distinct (map whe_id (whk_endpoints db))" "e \<in> set (whk_endpoints db)"
    and "whe_rateWindowStartedAt e = Some w" "0 \<le> whe_rateWindowAttempts e"
      "whe_rateWindowAttempts e < whe_outboundRateLimitPerMinute e"
    and "window_start late < w" "\<forall>t \<in> set ts. window_start t = w"
  shows "granted_in w (late # ts) (reserve_run (whe_tenantId e) (whe_id e) (late # ts) db)
    = min (nat (whe_outboundRateLimitPerMinute e)) (length ts)"
proof -
  obtain ok nxt db' where res: "reserveOutboundAttempt (whe_tenantId e) (whe_id e) late db = ((ok, nxt), db')"
    by (metis prod.exhaust)
  define e' where "e' = count_attempt (window_start late) e"
  have row: "distinct (map whe_id (whk_endpoints db'))" "e' \<in> set (whk_endpoints db')"
    using reserve_row(2,3) [OF assms(1,2) res] assms(5) by (simp_all add: e'_def)
  have e': "whe_tenantId e' = whe_tenantId e" "whe_id e' = whe_id e" "whe_rateWindowStartedAt e' = Some (window_start late)"
    "whe_outboundRateLimitPerMinute e' = whe_outboundRateLimitPerMinute e" "0 \<le> whe_rateWindowAttempts e'"
    using assms(4) by (simp_all add: e'_def count_attempt_def)
  have "sorted (map window_start ts)" using assms(7) by (simp add: sorted_iff_nth_mono)
  moreover have "tried_in w ts = length ts" using assms(7) by (simp add: tried_in_def filter_id_conv)
  ultimately have "granted_in w ts (reserve_run (whe_tenantId e') (whe_id e') ts db')
      = min (nat (whe_outboundRateLimitPerMinute e')) (length ts)"
    using reserve_run_exact [OF _ row, of ts w] e' assms(4-7) by auto
  then show ?thesis using res assms(6) e' by (simp add: granted_in_def)
qed

section \<open>A scenario\<close>

definition ex_endpoint :: WebhookEndpoint where
  "ex_endpoint = \<lparr>whe_id = ''e1'', whe_tenantId = ''t1'', whe_targetUrl = ''https://a.example'', whe_secret = ''s'',
     whe_eventTypes = [''condition.opened''], whe_status = ACTIVE, whe_outboundRateLimitPerMinute = 2,
     whe_rateWindowStartedAt = None, whe_rateWindowAttempts = 0\<rparr>"

definition ex_event :: OutboxEvent where
  "ex_event = \<lparr>obx_id = ''o1'', obx_tenantId = ''t1'', obx_caseId = ''k1'', obx_eventType = ''condition.opened'',
     obx_payload = JObj [], obx_signature = [], obx_createdAt = 0, obx_publishedAt = None\<rparr>"

definition ex_start :: webhook_db where
  "ex_start = \<lparr>whk_endpoints = [ex_endpoint], whk_deliveries = [], whk_outbox = [ex_event], whk_sent = []\<rparr>"

definition ex_win :: "string list \<Rightarrow> http_reply \<Rightarrow> webhook_input" where
  "ex_win as reply = \<lparr>win_now = 1000, win_ids = (\<lambda>n. CHR ''d'' # nat_text n), win_secret = ''s'', win_dns = (\<lambda>_. Inr as), win_reply = reply\<rparr>"

lemma ex_win_simps [simp]:
  "win_now (ex_win as reply) = 1000" "win_ids (ex_win as reply) n = CHR ''d'' # nat_text n" "win_dns (ex_win as reply) h = Inr as"
  "win_reply (ex_win as reply) = reply"
  by (simp_all add: ex_win_def)

lemma ex_host:
  "ex_url_parse ''https://a.example'' = Some (''https:'', ''a.example'')" "\<not> isIPv4 ''a.example''"
  "\<not> isIPv6 ''a.example''" "bare_host ''a.example'' = ''a.example''"
  by (simp_all add: ex_url_parse_def isIPv4_def isIPv6_def ipv6_text_def groups_of_def group_count_def hex_group_def
      hex_digit_def bare_host_def)

lemma ex_target: "target_addresses ex_url_parse (\<lambda>_. Inr as) ''https://a.example'' = Inr (''a.example'', as)"
  using ex_host by (simp add: target_addresses_def)

lemma ex_guard: "guard_target ex_env (ex_win [''93.184.216.34''] reply) ''https://a.example'' = Inr ()"
proof -
  have "blocked_addresses (sandbox ex_env) [''93.184.216.34''] = Inr []"
    using ex_addresses(1) by (subst blocked_addresses_filter) auto
  then show ?thesis by (simp add: guard_target_def assertPublicWebhookTarget_def ex_env_def ex_win_def ex_target)
qed

definition ex_delivered :: WebhookDelivery where
  "ex_delivered = \<lparr>dlv_id = ''d0'', dlv_tenantId = ''t1'', dlv_webhookEndpointId = ''e1'', dlv_outboxEventId = ''o1'',
     dlv_eventType = ''condition.opened'', dlv_status = SUCCEEDED,
     dlv_attempts = [\<lparr>att_attemptNumber = 1, att_attemptedAt = toISOString 1000, att_httpStatusCode = Some 200,
       att_outcome = ATTEMPT_SUCCEEDED, att_errorMessage = None\<rparr>], dlv_nextAttemptAt = None\<rparr>"

definition ex_pending :: WebhookDelivery where
  "ex_pending = ex_delivered\<lparr>dlv_status := PENDING, dlv_attempts := []\<rparr>"

definition ex_published :: webhook_db where
  "ex_published = ex_start\<lparr>whk_deliveries := [ex_pending], whk_outbox := [ex_event\<lparr>obx_publishedAt := Some 1000\<rparr>]\<rparr>"

abbreviation ex_in :: "nat \<Rightarrow> webhook_input" where
  "ex_in \<equiv> (\<lambda>_. ex_win [''93.184.216.34''] (Response 200))"

lemma nat_text_0 [simp]: "nat_text 0 = ''0''"
  by code_simp

lemma ex_publish: "prun (publish_event 1000 ex_event) ex_in ex_start = (Inr (), ex_published)"
  by (simp add: publish_event_def prun_pbind_const fan_out_def mark_published_def findActiveForTenantAndEventType_def ex_endpoint_def
      has_delivery_def insert_deliveries_def run_txn_def new_delivery_def ex_start_def ex_event_def ex_published_def ex_pending_def
      ex_delivered_def query_def)

definition ex_end :: webhook_db where
  "ex_end = ex_published\<lparr>whk_endpoints := [count_attempt 0 ex_endpoint], whk_deliveries := [ex_delivered],
     whk_sent := [\<lparr>snt_deliveryId = ''d0'', snt_endpointId = ''e1'', snt_targetUrl = ''https://a.example'',
       snt_addresses = [''93.184.216.34''], snt_timestamp = toISOString 1000, snt_body = ''{}'',
       snt_signature = signWebhookDelivery ex_env ''d0'' (toISOString 1000) ''{}'' ''s''\<rparr>]\<rparr>"

lemma ex_connect: "connect_addresses ex_env (ex_win as reply) ''https://a.example'' = as"
  by (simp add: connect_addresses_def ex_env_def ex_win_def ex_target)

lemma ex_attempt: "prun (attemptDelivery ex_env ex_pending 1000) ex_in ex_published = (Inr (), ex_end)"
proof -
  have e: "whe_id ex_endpoint = ''e1''" "whe_tenantId ex_endpoint = ''t1''" "whe_targetUrl ex_endpoint = ''https://a.example''"
    "whe_secret ex_endpoint = ''s''" "whe_rateWindowStartedAt ex_endpoint = None" by (simp_all add: ex_endpoint_def)
  have w: "window_start 1000 = 0" by (simp add: window_start_def)
  show ?thesis
    by (simp add: attemptDelivery_def prun_pbind_const endpoint_or_fail_def find_endpoint_def ex_published_def ex_start_def e ex_pending_def
        ex_delivered_def reserveOutboundAttempt_def w affected_def rate_where_def window_open_def ex_event_def send_request_def ex_guard
        record_attempt_eq attempted_def after_attempt_def update_delivery_def ex_connect ex_end_def raw_body_def query_def)
      (simp add: ex_env_def)
qed

lemma ex_tick: "prun (webhook_handler ex_env (Tick None)) ex_in ex_start = (Inr (), ex_end)"
proof -
  have "pending_events ex_start = [ex_event]" by (simp add: pending_events_def ex_start_def ex_event_def EVENT_BATCH_SIZE_def)
  moreover have "due_deliveries 1000 ex_published = [ex_pending]"
    by (simp add: due_deliveries_def DELIVERY_BATCH_SIZE_def ex_published_def ex_pending_def ex_delivered_def)
  ultimately show ?thesis
    by (simp add: prun_forget dispatchPendingEventsInternal_def prun_pbind_const query_def ex_publish ex_attempt)
qed

theorem delivery_history_consistent_witness:
  "\<exists>ps. pstep\<^sup>*\<^sup>* (map (webhook_handler ex_env) [Tick None, Tick None], ex_start) (ps, ex_end) \<and> ex_delivered \<in> set (whk_deliveries ex_end)
     \<and> length (dlv_attempts ex_delivered) \<le> MAX_ATTEMPTS \<and> dlv_nextAttemptAt ex_delivered = None"
proof -
  have steps: "pstep\<^sup>*\<^sup>* (map (webhook_handler ex_env) [Tick None, Tick None], ex_start) ([Ret (Inr ()), webhook_handler ex_env (Tick None)], ex_end)"
    using prun_steps [OF ex_tick, of "[]" "[webhook_handler ex_env (Tick None)]"] by simp
  have d: "ex_delivered \<in> set (whk_deliveries ex_end)" "whk_deliveries ex_start = []" "dlv_status ex_delivered \<noteq> PENDING"
    by (simp_all add: ex_end_def ex_start_def ex_delivered_def)
  show ?thesis using delivery_history_consistent [OF steps d(2,1)] steps d(1,3) by auto
qed

theorem settled_delivery_is_final_witness:
  "serial (webhook_handler ex_env) ex_start ex_end
   \<and> (\<exists>d' \<in> set (whk_deliveries (snd (prun (webhook_handler ex_env (Tick None)) (\<lambda>_. ex_win [] (Response 500)) ex_end))). d' = ex_delivered)
   \<and> requests_for ''d0'' (snd (prun (webhook_handler ex_env (Tick None)) (\<lambda>_. ex_win [] (Response 500)) ex_end)) = 1"
proof -
  define db' where "db' = snd (prun (webhook_handler ex_env (Tick None)) (\<lambda>_. ex_win [] (Response 500)) ex_end)"
  have l: "serial (webhook_handler ex_env) ex_start ex_end" using serial.call [of "webhook_handler ex_env" ex_start ex_start "Tick None", OF serial.now ex_tick] .
  have l': "serial (webhook_handler ex_env) ex_end db'"
    using serial.call [of "webhook_handler ex_env" ex_end ex_end "Tick None" "\<lambda>_. ex_win [] (Response 500)", OF serial.now] by (simp add: db'_def prod_eq_iff)
  have d: "ex_delivered \<in> set (whk_deliveries ex_end)" "whk_deliveries ex_start = []" "whk_sent ex_start = []" "dlv_status ex_delivered \<noteq> PENDING"
    "dlv_id ex_delivered = ''d0''" "requests_for ''d0'' ex_end = 1"
    by (simp_all add: ex_end_def ex_start_def ex_delivered_def requests_for_def)
  show ?thesis using settled_delivery_is_final [OF l d(2,3) l' d(1)] l d(4-6) unfolding db'_def by auto
qed

theorem rate_limit_is_exact_witness:
  "granted_in 0 [1000, 2000, 3000, 61000] (reserve_run ''t1'' ''e1'' [1000, 2000, 3000, 61000] ex_start) = 2
   \<and> granted_in 60000 [1000, 2000, 3000, 61000] (reserve_run ''t1'' ''e1'' [1000, 2000, 3000, 61000] ex_start) = 1"
proof -
  let ?ts = "[1000, 2000, 3000, 61000] :: timestamp list"
  have e: "ex_endpoint \<in> set (whk_endpoints ex_start)" "distinct (map whe_id (whk_endpoints ex_start))"
    "whe_rateWindowStartedAt ex_endpoint = None" "0 \<le> whe_rateWindowAttempts ex_endpoint"
    "1 \<le> whe_outboundRateLimitPerMinute ex_endpoint" "whe_tenantId ex_endpoint = ''t1''" "whe_id ex_endpoint = ''e1''"
    "whe_outboundRateLimitPerMinute ex_endpoint = 2"
    by (simp_all add: ex_start_def ex_endpoint_def)
  have "sorted (map window_start ?ts)" by (simp add: window_start_def)
  from rate_limit_is_exact [OF this e(2,1) _ e(4,5)] e(3)
  have "granted_in w ?ts (reserve_run ''t1'' ''e1'' ?ts ex_start) = min 2 (tried_in w ?ts)" for w
    unfolding e(6-8) by simp
  then show ?thesis by (simp add: tried_in_def window_start_def)
qed

text \<open>
  With a limit of two, one attempt was let through in the second minute; a late one of the
  first minute and two more of the second follow, and all pass: three in the second minute.
\<close>

theorem late_attempt_reopens_window_witness:
  "granted_in 60000 [61000, 1000, 62000, 63000] (reserve_run ''t1'' ''e1'' [61000, 1000, 62000, 63000] ex_start) = 3"
  by (simp add: granted_in_def reserveOutboundAttempt_def ex_start_def ex_endpoint_def affected_def update_where_def
      rate_where_def window_open_def count_attempt_def window_start_def Let_def)

section \<open>Races\<close>

text \<open>
  C38. Overlapping ticks undo a success. The dispatcher starts a tick every few seconds without
  waiting for the one before, and a tick records an attempt from the row as it read it: when
  the request of the slower tick fails after another tick has delivered, the delivery is no
  longer delivered, the successful attempt is gone from its history, and unless the attempts
  are used up it is due again after the backoff.
\<close>

theorem overlapping_ticks_undo_success:
  assumes "d \<in> set (due_deliveries now db0)" "histories_ok db0"
    and "d' \<in> set (whk_deliveries db)" "dlv_id d' = dlv_id d" "dlv_tenantId d' = dlv_tenantId d" "dlv_status d' = SUCCEEDED"
    and "prun (record_attempt d now (code, ATTEMPT_FAILED, message)) is db = (r, db')"
  shows "\<exists>d'' \<in> set (whk_deliveries db'). dlv_id d'' = dlv_id d \<and> dlv_status d'' \<noteq> SUCCEEDED
    \<and> list_all (\<lambda>a. att_outcome a = ATTEMPT_FAILED) (dlv_attempts d'')
    \<and> (length (dlv_attempts d) + 1 < MAX_ATTEMPTS \<longrightarrow>
         dlv_status d'' = PENDING \<and> dlv_nextAttemptAt d'' = Some (now + backoffMs (length (dlv_attempts d) + 1)))"
proof -
  have d: "dlv_status d = PENDING" "history_ok d" using assms(1,2) by (auto simp: due_deliveries_def histories_ok_def dest!: in_set_takeD)
  let ?d = "attempted d now (code, ATTEMPT_FAILED, message) d'"
  have "?d \<in> set (whk_deliveries db')"
    using assms(3-5,7) by (auto simp: record_attempt_eq update_delivery_def set_update_where intro!: image_eqI [of _ _ d'])
  moreover have "list_all failed (dlv_attempts d)" using d by (simp add: history_ok_def)
  ultimately show ?thesis using assms(4)
    by (intro bexI [of _ ?d]) (auto simp: attempted_def after_attempt_def Let_def failed_def list_all_iff)
qed

theorem overlapping_ticks_undo_success_witness:
  "\<exists>d \<in> set (whk_deliveries (snd (prun (record_attempt ex_pending 1000 (None, ATTEMPT_FAILED, Some ''timeout'')) ex_in ex_end))).
     dlv_id d = ''d0'' \<and> dlv_status d = PENDING \<and> dlv_nextAttemptAt d = Some 3000 \<and> requests_for ''d0'' ex_end = 1"
proof -
  have due: "ex_pending \<in> set (due_deliveries 1000 ex_published)"
    by (simp add: due_deliveries_def DELIVERY_BATCH_SIZE_def ex_published_def ex_pending_def ex_delivered_def)
  have ok: "histories_ok ex_published"
    by (simp add: histories_ok_def history_ok_def ex_published_def ex_pending_def ex_delivered_def MAX_ATTEMPTS_def)
  have d: "ex_delivered \<in> set (whk_deliveries ex_end)" "dlv_id ex_delivered = dlv_id ex_pending" "dlv_tenantId ex_delivered = dlv_tenantId ex_pending"
    "dlv_status ex_delivered = SUCCEEDED" "dlv_id ex_pending = ''d0''" "dlv_attempts ex_pending = []" "requests_for ''d0'' ex_end = 1"
    by (simp_all add: ex_end_def ex_pending_def ex_delivered_def requests_for_def)
  from overlapping_ticks_undo_success [OF due ok d(1-4) surjective_pairing] d(5-7) show ?thesis
    by (fastforce simp: MAX_ATTEMPTS_def backoffMs_def)
qed

text \<open>
  C39. The guard and the request look the host up separately. When the guard has accepted a
  target, the request goes to what the name service answers at the moment of the request,
  whatever that is: a host whose answers change in between gets a signed request sent to a
  private address the guard has never seen.
\<close>

theorem rebinding_defeats_guard:
  assumes "guard_target env (is 0) (whe_targetUrl e) = Inr ()"
    and "env_url_parse env (whe_targetUrl e) = Some (protocol, hostname)" "\<not> isIPv4 (bare_host hostname)" "\<not> isIPv6 (bare_host hostname)"
    and "win_dns (is 1) hostname = Inr addresses"
    and "prun (send_request env d e timestampIso rawBody) is db = (r, db')"
  shows "\<exists>s. whk_sent db' = whk_sent db @ [s] \<and> snt_addresses s = addresses
    \<and> snt_signature s = signWebhookDelivery env (dlv_id d) timestampIso rawBody (whe_secret e)"
proof -
  have "protocol = ''http:'' \<or> protocol = ''https:''"
    using assms(1,2) by (auto simp: guard_target_def assertPublicWebhookTarget_def target_addresses_def split: if_splits)
  then have "connect_addresses env (is 1) (whe_targetUrl e) = addresses"
    using assms(2-5) by (auto simp: connect_addresses_def target_addresses_def)
  then show ?thesis using assms(1,6) by (auto simp: send_request_def)
qed

theorem rebinding_defeats_guard_witness:
  "\<exists>s. whk_sent (snd (prun (send_request ex_env ex_pending ex_endpoint ''t'' ''b'')
        (case_nat (ex_win [''93.184.216.34''] (Response 200)) (\<lambda>_. ex_win [''::ffff:10.1.2.3''] (Response 200))) ex_start)) = [s]
     \<and> snt_addresses s = [''::ffff:10.1.2.3''] \<and> special ''::ffff:10.1.2.3''"
proof -
  let ?is = "case_nat (ex_win [''93.184.216.34''] (Response 200)) (\<lambda>_. ex_win [''::ffff:10.1.2.3''] (Response 200))"
  have h: "guard_target ex_env (?is 0) (whe_targetUrl ex_endpoint) = Inr ()"
    "env_url_parse ex_env (whe_targetUrl ex_endpoint) = Some (''https:'', ''a.example'')"
    "\<not> isIPv4 (bare_host ''a.example'')" "\<not> isIPv6 (bare_host ''a.example'')" "win_dns (?is 1) ''a.example'' = Inr [''::ffff:10.1.2.3'']"
    using ex_host ex_guard [of "Response 200"] by (simp_all add: ex_endpoint_def) (simp add: ex_env_def)
  show ?thesis
    using rebinding_defeats_guard [of ex_env ?is, OF h surjective_pairing, of ex_pending "''t''" "''b''" ex_start] ex_addresses(3)
    by (auto simp: ex_start_def)
qed

end
