(* ===== verification/Communications.thy ===== *)
theory Communications
  imports Platform Webhook_Dispatch
begin

text \<open>
  Messages to borrowers, \<open>src/src/communications\<close>: rendering of templates, the
  deterministic classifier, drafts, approvals and deliveries, and the script that seeds an
  approved template (\<open>src/src/seed-communication-template.ts\<close>).

  A handler is a program of awaited steps. The transaction of a draft, an approval or a
  delivery reads first and writes at its end, and the delivery calls the channel in between;
  \<open>com_sent\<close> lists those calls, which no rollback takes back. SHA-256 is a parameter,
  of JSON text for the digests and of plain text for the channel's reference. Text is a list
  of Latin-1 characters.
\<close>

section \<open>Rows\<close>

datatype CommunicationClassification = PROTECTED | ROUTINE

datatype CommunicationTemplateStatus = TEMPLATE_DRAFT | TEMPLATE_APPROVED | TEMPLATE_RETIRED

datatype CommunicationMessageStatus = DRAFTED | AWAITING_APPROVAL | APPROVED | SENT

type_synonym variables = "(string \<times> string) list"

record CommunicationTemplate =
  tpl_id :: uuid
  tpl_tenantId :: uuid
  tpl_templateKey :: string
  tpl_version :: string
  tpl_channel :: string
  tpl_locale :: string
  tpl_recipientRelationship :: string
  tpl_bodyTemplate :: string
  tpl_allowedVariables :: "string list"
  tpl_attachmentsAllowed :: bool
  tpl_status :: CommunicationTemplateStatus
  tpl_approvedBy :: "string option"
  tpl_approvedAt :: "timestamp option"

record CommunicationMessage =
  msg_id :: uuid
  msg_tenantId :: uuid
  msg_caseId :: uuid
  msg_classification :: CommunicationClassification
  msg_classificationReasons :: "string list"
  msg_templateId :: "uuid option"
  msg_recipientRelationship :: string
  msg_channel :: string
  msg_locale :: string
  msg_renderedContent :: string
  msg_renderedContentHash :: string
  msg_variables :: variables
  msg_status :: CommunicationMessageStatus
  msg_createdAt :: timestamp
  msg_deliveryReference :: "string option"
  msg_sentAt :: "timestamp option"

record CommunicationApproval =
  cap_id :: uuid
  cap_communicationMessageId :: uuid
  cap_actorId :: string
  cap_approvedRenderedContentHash :: string
  cap_reason :: "string option"
  cap_approvedAt :: timestamp

text \<open>One call of the channel.\<close>

record channel_call =
  chn_messageId :: uuid
  chn_contentHash :: string
  chn_channel :: string

record comm_db =
  com_templates :: "CommunicationTemplate table"
  com_messages :: "CommunicationMessage table"
  com_approvals :: "CommunicationApproval table"
  com_outbox :: "OutboxEvent table"
  com_audit :: "AuditEvent table"
  com_sent :: "channel_call list"

record comm_input =
  cin_now :: timestamp
  cin_id :: uuid
  cin_eventId :: uuid
  cin_stored :: bool \<comment> \<open>whether the audit row could be written\<close>

datatype comm_error =
    MessageNotFound uuid
  | NotProtected uuid
  | AlreadyApproved uuid
  | NoContent
  | SeedUsage
  | TemplateExists uuid string string
  | NotReadyConflict string
  | CommUniqueViolation

type_synonym 'a comm_prog = "(comm_input, comm_db, comm_error, 'a) prog"

record comm_env =
  cme_web :: webhook_env
  cme_outboxSecret :: string
  cme_sha256 :: "tok list \<Rightarrow> string"
  cme_sha256_text :: "string \<Rightarrow> string"

section \<open>Rendering\<close>

definition word_char :: "char \<Rightarrow> bool" where
  "word_char c \<longleftrightarrow> upper_letter c \<or> lower_letter c \<or> digit c \<or> c = CHR ''_''"

text \<open>A match of \<open>PLACEHOLDER\_PATTERN\<close> at the start of a text: the name and what follows.\<close>

definition placeholder :: "string \<Rightarrow> (string \<times> string) option" where
  "placeholder s =
     (let k = takeWhile word_char (drop 2 s); rest = dropWhile word_char (drop 2 s)
      in if take 2 s = ''{{'' \<and> k \<noteq> [] \<and> take 2 rest = ''}}'' then Some (k, drop 2 rest) else None)"

lemma placeholder_shorter: "placeholder s = Some (k, rest) \<Longrightarrow> length rest < length s"
  using length_dropWhile_le [of word_char "drop 2 s"]
  by (auto simp: placeholder_def Let_def split: if_splits) (cases s; auto)

datatype segment = Lit char | Hole string

text \<open>The matches of the pattern, leftmost first and without overlap, between plain characters.\<close>

function segments :: "string \<Rightarrow> segment list" where
  "segments [] = []"
| "segments (c # s) =
     (case placeholder (c # s) of
        None \<Rightarrow> Lit c # segments s
      | Some (k, rest) \<Rightarrow> Hole k # segments rest)"
  by pat_completeness auto
termination
  by (relation "measure length") (use placeholder_shorter in fastforce)+

text \<open>Every object inherits these members; as text they are a function or the prototype.\<close>

definition inherited_names :: "string list" where
  "inherited_names =
     [''constructor'', ''__defineGetter__'', ''__defineSetter__'', ''hasOwnProperty'', ''__lookupGetter__'',
      ''__lookupSetter__'', ''isPrototypeOf'', ''propertyIsEnumerable'', ''toString'', ''valueOf'',
      ''toLocaleString'']"

definition inherited :: "string \<Rightarrow> string option" where
  "inherited k =
     (if k = ''__proto__'' then Some ''[object Object]''
      else if k \<in> set inherited_names
      then Some (''function '' @ (if k = ''constructor'' then ''Object'' else k) @ ''() { [native code] }'')
      else None)"

text \<open>\<open>key in variables\<close> and \<open>variables[key]\<close>.\<close>

definition property :: "variables \<Rightarrow> string \<Rightarrow> string option" where
  "property vs k = (case map_of vs k of None \<Rightarrow> inherited k | Some v \<Rightarrow> Some v)"

fun fill :: "variables \<Rightarrow> segment \<Rightarrow> string" where
  "fill vs (Lit c) = [c]"
| "fill vs (Hole k) = (case property vs k of None \<Rightarrow> ''{{'' @ k @ ''}}'' | Some v \<Rightarrow> v)"

fun missing :: "variables \<Rightarrow> segment \<Rightarrow> string list" where
  "missing vs (Lit c) = []"
| "missing vs (Hole k) = (if property vs k = None then [k] else [])"

record RenderResult =
  rnd_content :: string
  rnd_missingVariables :: "string list"
  rnd_unknownVariables :: "string list"

definition renderTemplate :: "string \<Rightarrow> string list \<Rightarrow> variables \<Rightarrow> RenderResult" where
  "renderTemplate bodyTemplate allowedVariables vs =
     \<lparr>rnd_content = concat (map (fill vs) (segments bodyTemplate)),
      rnd_missingVariables = concat (map (missing vs) (segments bodyTemplate)),
      rnd_unknownVariables = filter (\<lambda>k. k \<notin> set allowedVariables) (map fst vs)\<rparr>"

section \<open>Classification\<close>

record DraftCommunicationInput =
  dci_recipientRelationship :: string
  dci_channel :: string
  dci_locale :: string
  dci_templateKey :: "string option"
  dci_templateVersion :: "string option"
  dci_variables :: variables
  dci_freeformContent :: "string option"
  dci_hasAttachments :: bool

record ClassificationOutcome =
  cls_classification :: CommunicationClassification
  cls_reasons :: "string list"
  cls_renderedContent :: string
  cls_templateId :: "uuid option"

definition NEGATIVE_IMPLICATION_KEYWORDS :: "string list" where
  "NEGATIVE_IMPLICATION_KEYWORDS =
     [''denied'', ''denial'', ''reject'', ''ineligible'', ''ineligibility'', ''adverse'', ''not approved'',
      ''unable to approve'', ''disqualif'', ''cannot proceed'', ''terminated'', ''cancel'']"

text \<open>\<open>toLowerCase\<close> on Latin-1, and \<open>includes\<close>.\<close>

definition lower_case :: "char \<Rightarrow> char" where
  "lower_case c =
     (let n = of_char c :: nat
      in if (65 \<le> n \<and> n \<le> 90) \<or> (192 \<le> n \<and> n \<le> 222 \<and> n \<noteq> 215) then char_of (n + 32) else c)"

fun occurs_in :: "string \<Rightarrow> string \<Rightarrow> bool" where
  "occurs_in [] w = (w = [])"
| "occurs_in (c # s) w = (take (length w) (c # s) = w \<or> occurs_in s w)"

definition negative :: "string \<Rightarrow> bool" where
  "negative v \<longleftrightarrow> list_ex (occurs_in (map lower_case v)) NEGATIVE_IMPLICATION_KEYWORDS"

definition findNegativeImplication :: "variables \<Rightarrow> string option" where
  "findNegativeImplication vs = map_option fst (List.find (\<lambda>kv. negative (snd kv)) vs)"

definition template_status_text :: "CommunicationTemplateStatus \<Rightarrow> string" where
  "template_status_text st =
     (case st of TEMPLATE_DRAFT \<Rightarrow> ''DRAFT'' | TEMPLATE_APPROVED \<Rightarrow> ''APPROVED'' | TEMPLATE_RETIRED \<Rightarrow> ''RETIRED'')"

definition present :: "string option \<Rightarrow> string option" where
  "present x = (case x of Some s \<Rightarrow> if s = [] then None else Some s | None \<Rightarrow> None)"

definition reasons_against ::
  "DraftCommunicationInput \<Rightarrow> CommunicationTemplate \<Rightarrow> string \<Rightarrow> RenderResult \<Rightarrow> string list" where
  "reasons_against inp t name r =
     (if tpl_status t \<noteq> TEMPLATE_APPROVED
      then [''template '' @ name @ '' is not APPROVED (status: '' @ template_status_text (tpl_status t) @ '')''] else [])
   @ (if tpl_channel t \<noteq> dci_channel inp
      then [''channel '' @ quoted (dci_channel inp) @ '' does not match the approved template''
            @ CHR 0x27 # ''s channel '' @ quoted (tpl_channel t)] else [])
   @ (if tpl_locale t \<noteq> dci_locale inp
      then [''locale '' @ quoted (dci_locale inp) @ '' is not supported by this template (approved for ''
            @ quoted (tpl_locale t) @ '')''] else [])
   @ (if tpl_recipientRelationship t \<noteq> dci_recipientRelationship inp
      then [''recipient relationship '' @ quoted (dci_recipientRelationship inp)
            @ '' does not match the approved template'' @ CHR 0x27 # ''s ''
            @ quoted (tpl_recipientRelationship t)] else [])
   @ (if dci_hasAttachments inp \<and> \<not> tpl_attachmentsAllowed t
      then [''attachments are not allowed by this template''] else [])
   @ (if rnd_missingVariables r \<noteq> []
      then [''failed variable validation: missing value(s) for '' @ join '', '' (rnd_missingVariables r)] else [])
   @ (if rnd_unknownVariables r \<noteq> []
      then [''failed variable validation: unexpected variable(s) '' @ join '', '' (rnd_unknownVariables r)
            @ '' not declared by this template''] else [])
   @ (case present (findNegativeImplication (dci_variables inp)) of
        None \<Rightarrow> []
      | Some k \<Rightarrow> [''negative or ambiguous implication detected in variable '' @ quoted k])"

definition classifyCommunication ::
  "DraftCommunicationInput \<Rightarrow> CommunicationTemplate option \<Rightarrow> comm_error + ClassificationOutcome" where
  "classifyCommunication inp template =
     (case dci_freeformContent inp of
        Some content \<Rightarrow>
          Inr \<lparr>cls_classification = PROTECTED, cls_reasons = [''free-form material text''],
               cls_renderedContent = content, cls_templateId = None\<rparr>
      | None \<Rightarrow>
          (case (present (dci_templateKey inp), present (dci_templateVersion inp)) of
             (Some key, Some version) \<Rightarrow>
               let name = quoted key @ ''@'' @ version
               in (case template of
                     None \<Rightarrow>
                       Inr \<lparr>cls_classification = PROTECTED, cls_reasons = [''referenced template '' @ name @ '' not found''],
                            cls_renderedContent = [], cls_templateId = None\<rparr>
                   | Some t \<Rightarrow>
                       let r = renderTemplate (tpl_bodyTemplate t) (tpl_allowedVariables t) (dci_variables inp);
                           reasons = reasons_against inp t name r
                       in Inr \<lparr>cls_classification = (if reasons = [] then ROUTINE else PROTECTED),
                               cls_reasons = reasons, cls_renderedContent = rnd_content r,
                               cls_templateId = Some (tpl_id t)\<rparr>)
           | _ \<Rightarrow> Inl NoContent))"

section \<open>Drafting\<close>

definition find_template :: "comm_db \<Rightarrow> uuid \<Rightarrow> DraftCommunicationInput \<Rightarrow> CommunicationTemplate option" where
  "find_template db tenantId inp =
     (case (present (dci_templateKey inp), present (dci_templateVersion inp)) of
        (Some key, Some version) \<Rightarrow>
          List.find (\<lambda>t. tpl_tenantId t = tenantId \<and> tpl_templateKey t = key \<and> tpl_version t = version) (com_templates db)
      | _ \<Rightarrow> None)"

definition new_message ::
  "comm_env \<Rightarrow> comm_input \<Rightarrow> uuid \<Rightarrow> uuid \<Rightarrow> DraftCommunicationInput \<Rightarrow> ClassificationOutcome \<Rightarrow> CommunicationMessage" where
  "new_message env i tenantId caseId inp res =
     \<lparr>msg_id = cin_id i, msg_tenantId = tenantId, msg_caseId = caseId,
      msg_classification = cls_classification res, msg_classificationReasons = cls_reasons res,
      msg_templateId = cls_templateId res, msg_recipientRelationship = dci_recipientRelationship inp,
      msg_channel = dci_channel inp, msg_locale = dci_locale inp,
      msg_renderedContent = cls_renderedContent res,
      msg_renderedContentHash = computeDigest (cme_sha256 env) (JStr (cls_renderedContent res)),
      msg_variables = dci_variables inp,
      msg_status = (if cls_classification res = PROTECTED then AWAITING_APPROVAL else DRAFTED),
      msg_createdAt = cin_now i, msg_deliveryReference = None, msg_sentAt = None\<rparr>"

definition insert_message :: "CommunicationMessage \<Rightarrow> (comm_db, comm_error, CommunicationMessage) txn" where
  "insert_message m db =
     (if msg_id m \<in> msg_id ` set (com_messages db) then Inl CommUniqueViolation
      else Inr (m, db\<lparr>com_messages := com_messages db @ [m]\<rparr>))"

definition draft_message ::
  "comm_env \<Rightarrow> uuid \<Rightarrow> uuid \<Rightarrow> DraftCommunicationInput \<Rightarrow> CommunicationMessage comm_prog" where
  "draft_message env tenantId caseId inp =
     pbind (query (\<lambda>_ db. find_template db tenantId inp)) (\<lambda>template.
       case classifyCommunication inp template of
         Inl e \<Rightarrow> pthrow e
       | Inr res \<Rightarrow> act (\<lambda>i. run_txn (insert_message (new_message env i tenantId caseId inp res))))"

definition listMessagesForCase :: "uuid \<Rightarrow> uuid \<Rightarrow> comm_db \<Rightarrow> CommunicationMessage list" where
  "listMessagesForCase tenantId caseId db =
     rev (sort_key msg_createdAt (filter (\<lambda>m. msg_tenantId m = tenantId \<and> msg_caseId m = caseId) (com_messages db)))"

section \<open>Approving\<close>

definition find_message :: "comm_db \<Rightarrow> uuid \<Rightarrow> uuid \<Rightarrow> CommunicationMessage option" where
  "find_message db tenantId mid = List.find (\<lambda>m. msg_id m = mid \<and> msg_tenantId m = tenantId) (com_messages db)"

definition message_or_fail :: "uuid \<Rightarrow> uuid \<Rightarrow> CommunicationMessage comm_prog" where
  "message_or_fail tenantId mid = act (\<lambda>_ db. (or_throw (find_message db tenantId mid) (MessageNotFound mid), db))"

definition set_message :: "uuid \<Rightarrow> (CommunicationMessage \<Rightarrow> CommunicationMessage) \<Rightarrow> comm_db \<Rightarrow> comm_db" where
  "set_message mid f db = db\<lparr>com_messages := update_where (\<lambda>m. msg_id m = mid) f (com_messages db)\<rparr>"

definition approve_txn ::
  "comm_input \<Rightarrow> CommunicationMessage \<Rightarrow> string \<Rightarrow> string option \<Rightarrow> (comm_db, comm_error, CommunicationApproval) txn" where
  "approve_txn i m actorId reason db =
     (let a = \<lparr>cap_id = cin_id i, cap_communicationMessageId = msg_id m, cap_actorId = actorId,
               cap_approvedRenderedContentHash = msg_renderedContentHash m, cap_reason = reason,
               cap_approvedAt = cin_now i\<rparr>
      in if cap_id a \<in> cap_id ` set (com_approvals db) then Inl CommUniqueViolation
         else Inr (a, set_message (msg_id m) (\<lambda>r. r\<lparr>msg_status := APPROVED\<rparr>)
                       (db\<lparr>com_approvals := com_approvals db @ [a]\<rparr>)))"

definition audit_message :: "uuid \<Rightarrow> string \<Rightarrow> string \<Rightarrow> uuid \<Rightarrow> string option \<Rightarrow> string option \<Rightarrow> json option \<Rightarrow> unit comm_prog" where
  "audit_message tenantId actorId action mid corr reason metadata =
     act (\<lambda>i db. (Inr (), if cin_stored i then db\<lparr>com_audit := com_audit db @
       [\<lparr>aud_tenantId = tenantId, aud_actorId = actorId, aud_action = action,
         aud_resourceType = ''communication_message'', aud_resourceId = Some mid, aud_correlationId = corr,
         aud_reason = reason, aud_metadata = metadata\<rparr>]\<rparr> else db))"

definition approve_message ::
  "uuid \<Rightarrow> uuid \<Rightarrow> string \<Rightarrow> string option \<Rightarrow> string option \<Rightarrow> CommunicationApproval comm_prog" where
  "approve_message tenantId mid actorId reason corr =
     pbind (message_or_fail tenantId mid) (\<lambda>m.
       if msg_classification m \<noteq> PROTECTED then pthrow (NotProtected mid)
       else if msg_status m = APPROVED then pthrow (AlreadyApproved mid)
       else pbind (act (\<lambda>i. run_txn (approve_txn i m actorId reason))) (\<lambda>a.
            pbind (audit_message tenantId actorId ''COMMUNICATION_APPROVED'' mid corr reason None) (\<lambda>_.
              preturn a)))"

section \<open>Delivering\<close>

definition classification_text :: "CommunicationClassification \<Rightarrow> string" where
  "classification_text c = (case c of PROTECTED \<Rightarrow> ''PROTECTED'' | ROUTINE \<Rightarrow> ''ROUTINE'')"

definition message_status_text :: "CommunicationMessageStatus \<Rightarrow> string" where
  "message_status_text st =
     (case st of DRAFTED \<Rightarrow> ''DRAFTED'' | AWAITING_APPROVAL \<Rightarrow> ''AWAITING_APPROVAL''
      | APPROVED \<Rightarrow> ''APPROVED'' | SENT \<Rightarrow> ''SENT'')"

definition ready_to_send :: "CommunicationMessage \<Rightarrow> bool" where
  "ready_to_send m \<longleftrightarrow>
     (msg_classification m = ROUTINE \<and> msg_status m = DRAFTED)
     \<or> (msg_classification m = PROTECTED \<and> msg_status m = APPROVED)"

datatype DeliverCommunicationResult =
    Delivered string timestamp
  | NotReady string

definition delivery_reference :: "comm_env \<Rightarrow> uuid \<Rightarrow> string \<Rightarrow> string" where
  "delivery_reference env mid hash = ''sim-'' @ take 24 (cme_sha256_text env (mid @ '':'' @ hash))"

definition channel_send :: "comm_env \<Rightarrow> CommunicationMessage \<Rightarrow> string comm_prog" where
  "channel_send env m =
     act (\<lambda>_ db. (Inr (delivery_reference env (msg_id m) (msg_renderedContentHash m)),
       db\<lparr>com_sent := com_sent db @
         [\<lparr>chn_messageId = msg_id m, chn_contentHash = msg_renderedContentHash m, chn_channel = msg_channel m\<rparr>]\<rparr>))"

definition delivered_event :: "CommunicationMessage \<Rightarrow> string \<Rightarrow> OutboxEventInput" where
  "delivered_event m ref =
     \<lparr>obi_tenantId = msg_tenantId m, obi_caseId = msg_caseId m, obi_eventType = ''communication.delivered'',
      obi_payload = JObj [(''caseId'', JStr (msg_caseId m)), (''communicationMessageId'', JStr (msg_id m)),
        (''classification'', JStr (classification_text (msg_classification m))),
        (''channel'', JStr (msg_channel m)), (''deliveryReference'', JStr ref)]\<rparr>"

definition record_delivery ::
  "comm_env \<Rightarrow> comm_input \<Rightarrow> CommunicationMessage \<Rightarrow> string \<Rightarrow> (comm_db, comm_error, DeliverCommunicationResult) txn" where
  "record_delivery env i m ref db =
     (if cin_eventId i \<in> obx_id ` set (com_outbox db) then Inl CommUniqueViolation
      else Inr (Delivered ref (cin_now i),
        (set_message (msg_id m)
           (\<lambda>r. r\<lparr>msg_status := SENT, msg_deliveryReference := Some ref, msg_sentAt := Some (cin_now i)\<rparr>) db)
        \<lparr>com_outbox := com_outbox db @
           [outbox_event (cme_web env) (cme_outboxSecret env) (delivered_event m ref) (cin_eventId i) (cin_now i)]\<rparr>))"

definition deliver :: "comm_env \<Rightarrow> uuid \<Rightarrow> uuid \<Rightarrow> DeliverCommunicationResult comm_prog" where
  "deliver env tenantId mid =
     pbind (message_or_fail tenantId mid) (\<lambda>m.
       if \<not> ready_to_send m
       then preturn (NotReady (''communication message '' @ mid @ '' is '' @ classification_text (msg_classification m)
              @ ''/'' @ message_status_text (msg_status m) @ '', not ready to send''))
       else pbind (channel_send env m) (\<lambda>ref. act (\<lambda>i. run_txn (record_delivery env i m ref))))"

text \<open>\<open>send\<close> of the controller.\<close>

definition send_message ::
  "comm_env \<Rightarrow> uuid \<Rightarrow> uuid \<Rightarrow> string \<Rightarrow> string option \<Rightarrow> DeliverCommunicationResult comm_prog" where
  "send_message env tenantId mid actorId corr =
     pbind (deliver env tenantId mid) (\<lambda>r.
       case r of
         NotReady reason \<Rightarrow> pthrow (NotReadyConflict reason)
       | Delivered ref sentAt \<Rightarrow>
           pbind (audit_message tenantId actorId ''COMMUNICATION_SENT'' mid corr None
                    (Some (JObj [(''deliveryReference'', JStr ref)]))) (\<lambda>_. preturn r))"

section \<open>Seeding a template\<close>

fun hole_names :: "segment list \<Rightarrow> string list" where
  "hole_names [] = []"
| "hole_names (Lit c # xs) = hole_names xs"
| "hole_names (Hole k # xs) = k # hole_names xs"

record template_args =
  tar_tenantId :: uuid
  tar_templateKey :: string
  tar_version :: string
  tar_channel :: string
  tar_locale :: string
  tar_recipientRelationship :: string
  tar_approvedBy :: string
  tar_bodyTemplate :: string

definition new_template :: "comm_input \<Rightarrow> template_args \<Rightarrow> CommunicationTemplate" where
  "new_template i args =
     \<lparr>tpl_id = cin_id i, tpl_tenantId = tar_tenantId args, tpl_templateKey = tar_templateKey args,
      tpl_version = tar_version args, tpl_channel = tar_channel args, tpl_locale = tar_locale args,
      tpl_recipientRelationship = tar_recipientRelationship args, tpl_bodyTemplate = tar_bodyTemplate args,
      tpl_allowedVariables = rev (remdups (rev (hole_names (segments (tar_bodyTemplate args))))),
      tpl_attachmentsAllowed = False, tpl_status = TEMPLATE_APPROVED,
      tpl_approvedBy = Some (tar_approvedBy args), tpl_approvedAt = Some (cin_now i)\<rparr>"

definition same_key :: "CommunicationTemplate \<Rightarrow> CommunicationTemplate \<Rightarrow> bool" where
  "same_key t u \<longleftrightarrow> tpl_tenantId t = tpl_tenantId u \<and> tpl_templateKey t = tpl_templateKey u \<and> tpl_version t = tpl_version u"

definition insert_template :: "CommunicationTemplate \<Rightarrow> (comm_db, comm_error, CommunicationTemplate) txn" where
  "insert_template t db =
     (if list_ex (\<lambda>u. tpl_id u = tpl_id t \<or> same_key u t) (com_templates db) then Inl CommUniqueViolation
      else Inr (t, db\<lparr>com_templates := com_templates db @ [t]\<rparr>))"

definition seed_template :: "template_args \<Rightarrow> CommunicationTemplate comm_prog" where
  "seed_template args =
     (if [] \<in> {tar_tenantId args, tar_templateKey args, tar_version args, tar_channel args, tar_locale args,
               tar_recipientRelationship args, tar_approvedBy args, tar_bodyTemplate args}
      then pthrow SeedUsage else
     pbind (query (\<lambda>_ db. List.find (\<lambda>t. tpl_tenantId t = tar_tenantId args
              \<and> tpl_templateKey t = tar_templateKey args \<and> tpl_version t = tar_version args) (com_templates db)))
       (\<lambda>existing.
          if existing \<noteq> None
          then pthrow (TemplateExists (tar_tenantId args) (tar_templateKey args) (tar_version args))
          else act (\<lambda>i. run_txn (insert_template (new_template i args)))))"

end
