(* ===== verification/Communication_System.thy ===== *)
theory Communication_System
  imports Communications Running_Alone
begin

text \<open>
  What the communication handlers keep under every interleaving. \<open>comm_R\<close>: templates and
  approvals are never taken back and a message changes in nothing but its status, reference
  and time of sending. \<open>comm_inv\<close>: a routine message is the rendering of an approved
  template, a protected one is approved or sent only with an approval of its content, and
  so is every call of the channel. \<open>cg\<close> is the instance of \<open>rely_guarantee\<close>.
\<close>

section \<open>Handlers\<close>

datatype comm_call =
    Draft uuid uuid DraftCommunicationInput
  | Approve uuid uuid string "string option" "string option"
  | Deliver uuid uuid
  | Send uuid uuid string "string option"
  | SeedTemplate template_args

fun comm_handler :: "comm_env \<Rightarrow> comm_call \<Rightarrow> unit comm_prog" where
  "comm_handler env (Draft t c inp) = forget (draft_message env t c inp)"
| "comm_handler env (Approve t m a r k) = forget (approve_message t m a r k)"
| "comm_handler env (Deliver t m) = forget (deliver env t m)"
| "comm_handler env (Send t m a k) = forget (send_message env t m a k)"
| "comm_handler env (SeedTemplate args) = forget (seed_template args)"

section \<open>The invariant\<close>

definition msg_core :: "CommunicationMessage \<Rightarrow> CommunicationMessage" where
  "msg_core m = m\<lparr>msg_status := DRAFTED, msg_deliveryReference := None, msg_sentAt := None\<rparr>"

definition approved_for :: "comm_db \<Rightarrow> CommunicationMessage \<Rightarrow> bool" where
  "approved_for db m \<longleftrightarrow> (\<exists>a \<in> set (com_approvals db). cap_communicationMessageId a = msg_id m
     \<and> cap_approvedRenderedContentHash a = msg_renderedContentHash m)"

text \<open>
  A routine message is its template with every placeholder filled, from the variables that
  were supplied or, for a placeholder that was not, from a member every object inherits.
\<close>

definition rendering_of :: "CommunicationTemplate \<Rightarrow> CommunicationMessage \<Rightarrow> bool" where
  "rendering_of t m \<longleftrightarrow>
     tpl_status t = TEMPLATE_APPROVED \<and> tpl_tenantId t = msg_tenantId m \<and> msg_templateId m = Some (tpl_id t)
     \<and> tpl_channel t = msg_channel m \<and> tpl_locale t = msg_locale m
     \<and> tpl_recipientRelationship t = msg_recipientRelationship m
     \<and> msg_renderedContent m = concat (map (fill (msg_variables m)) (segments (tpl_bodyTemplate t)))
     \<and> (\<forall>k. Hole k \<in> set (segments (tpl_bodyTemplate t)) \<longrightarrow>
          k \<in> fst ` set (msg_variables m) \<or> inherited k \<noteq> None)
     \<and> fst ` set (msg_variables m) \<subseteq> set (tpl_allowedVariables t)
     \<and> (\<forall>v \<in> snd ` set (msg_variables m). \<not> negative v)"

text \<open>Exactly the supplied variables: each placeholder stands for the value supplied under its name.\<close>

definition no_inherited_placeholder :: "CommunicationTemplate \<Rightarrow> bool" where
  "no_inherited_placeholder t \<longleftrightarrow> (\<forall>k. Hole k \<in> set (segments (tpl_bodyTemplate t)) \<longrightarrow> inherited k = None)"

fun supplied :: "variables \<Rightarrow> segment \<Rightarrow> string option" where
  "supplied vs (Lit c) = Some [c]"
| "supplied vs (Hole k) = map_of vs k"

definition exact_rendering_of :: "CommunicationTemplate \<Rightarrow> CommunicationMessage \<Rightarrow> bool" where
  "exact_rendering_of t m \<longleftrightarrow>
     (\<forall>x \<in> set (segments (tpl_bodyTemplate t)). supplied (msg_variables m) x \<noteq> None)
     \<and> msg_renderedContent m = concat (map (\<lambda>x. the (supplied (msg_variables m) x)) (segments (tpl_bodyTemplate t)))"

lemma rendering_is_exact:
  assumes "rendering_of t m" "no_inherited_placeholder t"
  shows "exact_rendering_of t m"
proof -
  let ?vs = "msg_variables m"
  have some: "supplied ?vs x \<noteq> None" if "x \<in> set (segments (tpl_bodyTemplate t))" for x
  proof (cases x)
    case (Hole k)
    then have "k \<in> fst ` set ?vs" using assms that by (auto simp: rendering_of_def no_inherited_placeholder_def)
    then show ?thesis using Hole by (simp add: map_of_eq_None_iff)
  qed simp
  have "fill ?vs x = the (supplied ?vs x)" if "x \<in> set (segments (tpl_bodyTemplate t))" for x
    using some [OF that] by (cases x) (auto simp: property_def)
  then have "map (fill ?vs) (segments (tpl_bodyTemplate t)) = map (\<lambda>x. the (supplied ?vs x)) (segments (tpl_bodyTemplate t))"
    by (rule map_cong [OF refl])
  then show ?thesis using assms(1) some unfolding exact_rendering_of_def rendering_of_def by metis
qed

definition message_ok :: "comm_env \<Rightarrow> comm_db \<Rightarrow> CommunicationMessage \<Rightarrow> bool" where
  "message_ok env db m \<longleftrightarrow>
     msg_renderedContentHash m = computeDigest (cme_sha256 env) (JStr (msg_renderedContent m))
     \<and> (msg_classification m = ROUTINE \<longrightarrow>
          msg_status m \<in> {DRAFTED, SENT} \<and> (\<exists>t \<in> set (com_templates db). rendering_of t m))
     \<and> (msg_classification m = PROTECTED \<longrightarrow>
          msg_status m \<noteq> DRAFTED \<and> (msg_status m \<in> {APPROVED, SENT} \<longrightarrow> approved_for db m))"

definition call_ok :: "comm_db \<Rightarrow> channel_call \<Rightarrow> bool" where
  "call_ok db c \<longleftrightarrow> (\<exists>m \<in> set (com_messages db). chn_messageId c = msg_id m
     \<and> chn_contentHash c = msg_renderedContentHash m \<and> chn_channel c = msg_channel m
     \<and> (msg_classification m = PROTECTED \<longrightarrow> approved_for db m))"

definition comm_inv :: "comm_env \<Rightarrow> comm_db \<Rightarrow> bool" where
  "comm_inv env db \<longleftrightarrow>
     distinct (map msg_id (com_messages db)) \<and> (\<forall>m \<in> set (com_messages db). message_ok env db m)
     \<and> (\<forall>t \<in> set (com_templates db). [] \<notin> set (tpl_allowedVariables t))
     \<and> (\<forall>c \<in> set (com_sent db). call_ok db c)"

definition comm_R :: "comm_db \<Rightarrow> comm_db \<Rightarrow> bool" where
  "comm_R db db' \<longleftrightarrow>
     set (com_templates db) \<subseteq> set (com_templates db') \<and> set (com_approvals db) \<subseteq> set (com_approvals db')
     \<and> msg_core ` set (com_messages db) \<subseteq> msg_core ` set (com_messages db')"

interpretation cg: rely_guarantee "comm_inv env" comm_R for env
proof
  show "comm_R s s" for s by (simp add: comm_R_def)
  show "comm_R s t \<Longrightarrow> comm_R t u \<Longrightarrow> comm_R s u" for s t u unfolding comm_R_def by (meson subset_trans)
qed

lemma msg_core_fields:
  "msg_core m = msg_core n \<Longrightarrow>
     msg_id m = msg_id n \<and> msg_tenantId m = msg_tenantId n \<and> msg_classification m = msg_classification n
     \<and> msg_renderedContentHash m = msg_renderedContentHash n \<and> msg_renderedContent m = msg_renderedContent n
     \<and> msg_channel m = msg_channel n"
  by (cases m; cases n) (simp add: msg_core_def)

lemma approved_for_later: "approved_for db m \<Longrightarrow> comm_R db db' \<Longrightarrow> approved_for db' m"
  by (auto simp: approved_for_def comm_R_def)

text \<open>The row a handler has read is still there, with the same content.\<close>

lemma same_message:
  assumes "comm_inv env db'" "comm_R db db'" "m \<in> set (com_messages db)" "n \<in> set (com_messages db')" "msg_id n = msg_id m"
  shows "msg_core n = msg_core m"
proof -
  from assms(2,3) obtain m' where m': "m' \<in> set (com_messages db')" "msg_core m' = msg_core m"
    by (force simp: comm_R_def)
  then have "msg_id m' = msg_id n" using assms(5) msg_core_fields by metis
  then have "m' = n" using assms(1,4) m'(1) by (auto simp: comm_inv_def distinct_map inj_on_def)
  with m'(2) show ?thesis by simp
qed

text \<open>Changing the status of one message, and adding rows to the other tables.\<close>

lemma set_message_R:
  assumes "\<And>m. msg_core (f m) = msg_core m"
  shows "comm_R db (set_message mid f db)"
proof -
  have "map msg_core (com_messages (set_message mid f db)) = map msg_core (com_messages db)"
    by (simp add: set_message_def update_where_def assms)
  then have "msg_core ` set (com_messages (set_message mid f db)) = msg_core ` set (com_messages db)" by (metis set_map)
  then show ?thesis by (simp add: comm_R_def) (simp add: set_message_def)
qed

lemma comm_inv_set:
  assumes "comm_inv env db" "\<And>m. msg_core (f m) = msg_core m"
    and "\<And>m. m \<in> set (com_messages db) \<Longrightarrow> msg_id m = mid \<Longrightarrow> message_ok env db (f m)"
  shows "comm_inv env (set_message mid f db)"
proof -
  let ?db' = "set_message mid f db"
  have same: "com_templates ?db' = com_templates db" "com_approvals ?db' = com_approvals db" "com_sent ?db' = com_sent db"
    by (simp_all add: set_message_def)
  have msgs: "m \<in> set (com_messages ?db') \<longleftrightarrow> (\<exists>x \<in> set (com_messages db). m = (if msg_id x = mid then f x else x))" for m
  proof -
    have "com_messages ?db' = map (\<lambda>x. if msg_id x = mid then f x else x) (com_messages db)"
      by (simp add: set_message_def update_where_def)
    then show ?thesis by (simp only: set_map image_iff)
  qed
  have ids: "map msg_id (com_messages ?db') = map msg_id (com_messages db)"
    using msg_core_fields [OF assms(2)] by (simp add: set_message_def map_update_where)
  have ok: "message_ok env ?db' m \<longleftrightarrow> message_ok env db m" for m
    by (simp add: message_ok_def approved_for_def same)
  have "call_ok ?db' c" if "call_ok db c" for c
  proof -
    from that obtain m where m: "m \<in> set (com_messages db)" "chn_messageId c = msg_id m"
      "chn_contentHash c = msg_renderedContentHash m" "chn_channel c = msg_channel m"
      "msg_classification m = PROTECTED \<longrightarrow> approved_for db m" by (auto simp: call_ok_def)
    let ?n = "if msg_id m = mid then f m else m"
    have "?n \<in> set (com_messages ?db')" using m(1) msgs by blast
    then show ?thesis unfolding call_ok_def using m msg_core_fields [OF assms(2) [of m]]
      by (intro bexI [of _ ?n]) (auto simp: approved_for_def same)
  qed
  then show ?thesis using assms(1,3) unfolding comm_inv_def ids same
    by (auto simp: msgs ok split: if_splits)
qed

lemma message_ok_mono:
  assumes "message_ok env db m" "set (com_templates db) \<subseteq> set (com_templates db')"
    "set (com_approvals db) \<subseteq> set (com_approvals db')"
  shows "message_ok env db' m"
proof -
  have "approved_for db m \<Longrightarrow> approved_for db' m"
    using assms(3) by (auto simp: approved_for_def)
  moreover have "\<exists>t \<in> set (com_templates db). rendering_of t m \<Longrightarrow> \<exists>t \<in> set (com_templates db'). rendering_of t m"
    using assms(2) by auto
  ultimately show ?thesis using assms(1) unfolding message_ok_def by meson
qed

lemma comm_inv_frame:
  assumes "comm_inv env db" "com_messages db' = com_messages db" "set (com_templates db) \<subseteq> set (com_templates db')"
    "set (com_approvals db) \<subseteq> set (com_approvals db')"
    "\<forall>t \<in> set (com_templates db'). [] \<notin> set (tpl_allowedVariables t)" "\<forall>c \<in> set (com_sent db'). call_ok db' c"
  shows "comm_inv env db'"
  using assms(1,2,5,6) message_ok_mono [OF _ assms(3,4)] unfolding comm_inv_def by simp

lemma call_ok_frame:
  assumes "call_ok db c" "com_messages db' = com_messages db" "set (com_approvals db) \<subseteq> set (com_approvals db')"
  shows "call_ok db' c"
proof -
  from assms(1) obtain m where "m \<in> set (com_messages db)" "chn_messageId c = msg_id m"
    "chn_contentHash c = msg_renderedContentHash m" "chn_channel c = msg_channel m"
    "msg_classification m = PROTECTED \<longrightarrow> approved_for db m" by (auto simp: call_ok_def)
  then show ?thesis using assms(2,3) unfolding call_ok_def by (intro bexI [of _ m]) (auto simp: approved_for_def)
qed

lemma comm_R_frame [simp]:
  "comm_R db (db\<lparr>com_audit := a\<rparr>)" "comm_R db (db\<lparr>com_sent := s\<rparr>)" "comm_R db (db\<lparr>com_outbox := x\<rparr>)"
  by (simp_all add: comm_R_def)

lemma approved_for_books [simp]:
  "approved_for (db\<lparr>com_audit := a\<rparr>) = approved_for db" "approved_for (db\<lparr>com_outbox := x\<rparr>) = approved_for db"
  "approved_for (db\<lparr>com_sent := c\<rparr>) = approved_for db"
  by (simp_all add: approved_for_def fun_eq_iff)

lemma comm_inv_books [simp]:
  "comm_inv env (db\<lparr>com_audit := a\<rparr>) \<longleftrightarrow> comm_inv env db" "comm_inv env (db\<lparr>com_outbox := x\<rparr>) \<longleftrightarrow> comm_inv env db"
  by (simp_all add: comm_inv_def message_ok_def call_ok_def)

section \<open>Templates and classification\<close>

lemma hole_segments: "Hole k \<in> set (segments s) \<Longrightarrow> k \<noteq> []"
proof (induction s rule: segments.induct)
  case (2 c s)
  then show ?case by (auto simp: placeholder_def Let_def split: option.splits if_splits)
qed simp

lemma set_hole_names: "set (hole_names xs) = {k. Hole k \<in> set xs}"
  by (induction xs rule: hole_names.induct) auto

lemma missing_Nil: "concat (map (missing vs) xs) = [] \<longleftrightarrow> (\<forall>k. Hole k \<in> set xs \<longrightarrow> property vs k \<noteq> None)"
proof (induction xs)
  case (Cons x xs)
  then show ?case by (cases x) auto
qed simp

text \<open>Without the empty name among the variables the first flagged one is a reason.\<close>

lemma no_negative:
  assumes "present (findNegativeImplication vs) = None" "[] \<notin> fst ` set vs"
  shows "\<forall>v \<in> snd ` set vs. \<not> negative v"
proof -
  have "findNegativeImplication vs = None"
  proof (rule ccontr)
    assume "findNegativeImplication vs \<noteq> None"
    then obtain kv where kv: "List.find (\<lambda>kv. negative (snd kv)) vs = Some kv" "findNegativeImplication vs = Some (fst kv)"
      by (auto simp: findNegativeImplication_def)
    then have "kv \<in> set vs" by (auto dest: find_SomeD)
    with assms(2) have "fst kv \<noteq> []" by force
    with assms(1) kv(2) show False by (simp add: present_def)
  qed
  then show ?thesis by (auto simp: findNegativeImplication_def find_None_iff)
qed

lemma no_reasons:
  assumes "reasons_against inp t name (renderTemplate (tpl_bodyTemplate t) (tpl_allowedVariables t) (dci_variables inp)) = []"
    "[] \<notin> set (tpl_allowedVariables t)"
  shows "tpl_status t = TEMPLATE_APPROVED" "tpl_channel t = dci_channel inp" "tpl_locale t = dci_locale inp"
    "tpl_recipientRelationship t = dci_recipientRelationship inp"
    "\<forall>k. Hole k \<in> set (segments (tpl_bodyTemplate t)) \<longrightarrow> property (dci_variables inp) k \<noteq> None"
    "fst ` set (dci_variables inp) \<subseteq> set (tpl_allowedVariables t)"
    "\<forall>v \<in> snd ` set (dci_variables inp). \<not> negative v"
proof -
  let ?r = "renderTemplate (tpl_bodyTemplate t) (tpl_allowedVariables t) (dci_variables inp)"
  from assms(1) show "tpl_status t = TEMPLATE_APPROVED" "tpl_channel t = dci_channel inp" "tpl_locale t = dci_locale inp"
    "tpl_recipientRelationship t = dci_recipientRelationship inp" by (auto simp: reasons_against_def split: if_splits)
  have r: "rnd_missingVariables ?r = []" "rnd_unknownVariables ?r = []" "present (findNegativeImplication (dci_variables inp)) = None"
    using assms(1) by (auto simp: reasons_against_def split: if_splits option.splits)
  from r(1) show "\<forall>k. Hole k \<in> set (segments (tpl_bodyTemplate t)) \<longrightarrow> property (dci_variables inp) k \<noteq> None"
    unfolding renderTemplate_def by (simp only: RenderResult.select_convs missing_Nil)
  from r(2) show u: "fst ` set (dci_variables inp) \<subseteq> set (tpl_allowedVariables t)"
    by (auto simp: renderTemplate_def filter_empty_conv)
  show "\<forall>v \<in> snd ` set (dci_variables inp). \<not> negative v"
    by (rule no_negative [OF r(3)]) (use u assms(2) in blast)
qed

lemma find_template_SomeD:
  "find_template db tenantId inp = Some t \<Longrightarrow> t \<in> set (com_templates db) \<and> tpl_tenantId t = tenantId"
  by (auto simp: find_template_def dest!: find_SomeD split: option.splits)

text \<open>What is drafted is classified right.\<close>

lemma new_message_ok:
  assumes "comm_inv env db" "comm_R db0 db" "template = find_template db0 tenantId inp" "comm_inv env db0"
    "classifyCommunication inp template = Inr res"
  shows "message_ok env db (new_message env i tenantId caseId inp res)"
proof (cases "cls_classification res")
  case PROTECTED
  then show ?thesis by (simp add: message_ok_def new_message_def)
next
  case ROUTINE
  then obtain t where t: "template = Some t" "cls_templateId res = Some (tpl_id t)"
      "cls_renderedContent res = concat (map (fill (dci_variables inp)) (segments (tpl_bodyTemplate t)))"
      "\<exists>name. reasons_against inp t name (renderTemplate (tpl_bodyTemplate t) (tpl_allowedVariables t) (dci_variables inp)) = []"
    using assms(5) by (auto simp: classifyCommunication_def Let_def split: option.splits if_splits) (auto simp: renderTemplate_def)
  have mem: "t \<in> set (com_templates db0)" "tpl_tenantId t = tenantId"
    using find_template_SomeD t(1) assms(3) by metis+
  then have "[] \<notin> set (tpl_allowedVariables t)" using assms(4) by (auto simp: comm_inv_def)
  with t(4) obtain name where none: "[] \<notin> set (tpl_allowedVariables t)"
      "reasons_against inp t name (renderTemplate (tpl_bodyTemplate t) (tpl_allowedVariables t) (dci_variables inp)) = []" by blast
  have own: "property vs k \<noteq> None \<Longrightarrow> k \<in> fst ` set vs \<or> inherited k \<noteq> None" for vs k
    by (cases "map_of vs k") (auto simp: property_def map_of_eq_None_iff dest!: map_of_SomeD intro: rev_image_eqI)
  have "rendering_of t (new_message env i tenantId caseId inp res)"
    using no_reasons [OF none(2,1)] own mem(2) t(2,3) unfolding rendering_of_def new_message_def by simp
  moreover have "t \<in> set (com_templates db)" using mem(1) assms(2) by (auto simp: comm_R_def)
  ultimately show ?thesis using ROUTINE by (auto simp: message_ok_def new_message_def)
qed

section \<open>The handlers keep it\<close>

definition comm_ok :: "comm_env \<Rightarrow> comm_db \<Rightarrow> 'a comm_prog \<Rightarrow> bool" where
  "comm_ok env db p \<longleftrightarrow> rg (comm_inv env) comm_R (\<lambda>_ _. True) db p"

lemma insert_message_step:
  assumes "comm_inv env db" "message_ok env db m" "run_txn (insert_message m) db = (r, db')"
  shows "comm_inv env db' \<and> comm_R db db'"
proof (cases "msg_id m \<in> msg_id ` set (com_messages db)")
  case True
  then show ?thesis using assms(1,3) cg.R_refl by (auto simp: run_txn_def insert_message_def)
next
  case False
  then have db': "db' = db\<lparr>com_messages := com_messages db @ [m]\<rparr>" using assms(3) by (auto simp: run_txn_def insert_message_def)
  have "message_ok env db' n" if "message_ok env db n" for n
    by (rule message_ok_mono [OF that]) (simp_all add: db')
  moreover have "call_ok db' c" if "call_ok db c" for c
    using that by (auto simp: call_ok_def approved_for_def db')
  ultimately show ?thesis using assms(1,2) False by (auto simp: comm_inv_def comm_R_def db')
qed

lemma ok_draft: "comm_inv env db \<Longrightarrow> comm_ok env db (draft_message env t c inp)"
  unfolding comm_ok_def draft_message_def
proof (rule rg_pbind [where Q = "\<lambda>u r. comm_inv env u \<and> (\<forall>a. r = Inr a \<longrightarrow> a = find_template u t inp)"])
  show "rg (comm_inv env) comm_R (\<lambda>u r. comm_inv env u \<and> (\<forall>a. r = Inr a \<longrightarrow> a = find_template u t inp)) db
      (query (\<lambda>_ db. find_template db t inp))" by (rule cg.rg_query) simp
  fix u template assume "comm_inv env u \<and> (\<forall>a. Inr template = Inr a \<longrightarrow> a = find_template u t inp)"
  then have u: "comm_inv env u" "template = find_template u t inp" by auto
  show "rg (comm_inv env) comm_R (\<lambda>_ _. True) u (case classifyCommunication inp template of
      Inl e \<Rightarrow> pthrow e | Inr res \<Rightarrow> act (\<lambda>i. run_txn (insert_message (new_message env i t c inp res))))"
  proof (cases "classifyCommunication inp template")
    case (Inr res)
    have "rg (comm_inv env) comm_R (\<lambda>_ _. True) u (act (\<lambda>i. run_txn (insert_message (new_message env i t c inp res))))"
      by (rule rg_act) (use new_message_ok [OF _ _ u(2,1) Inr] insert_message_step in blast)
    then show ?thesis using Inr by simp
  qed simp
qed simp

lemma ok_message_or_fail:
  "rg (comm_inv env) comm_R (\<lambda>u r. \<forall>m. r = Inr m \<longrightarrow> comm_inv env u \<and> m \<in> set (com_messages u) \<and> msg_id m = mid)
     db (message_or_fail t mid)"
  unfolding message_or_fail_def
  by (rule rg_act) (auto simp: find_message_def or_throw_def comm_R_def dest!: find_SomeD split: option.splits)

lemma ok_audit: "comm_ok env db (audit_message t a x m k r j)"
  unfolding comm_ok_def audit_message_def
  by (rule rg_act) (auto simp: cg.R_refl split: if_splits)

lemma approve_step:
  assumes "comm_inv env u" "m \<in> set (com_messages u)" "msg_classification m = PROTECTED"
    "comm_inv env db" "comm_R u db" "run_txn (approve_txn i m actor reason) db = (r, db')"
  shows "comm_inv env db' \<and> comm_R db db'"
proof (cases "cin_id i \<in> cap_id ` set (com_approvals db)")
  case True
  then show ?thesis using assms(4,6) cg.R_refl by (auto simp: run_txn_def approve_txn_def Let_def)
next
  case False
  define a where "a = \<lparr>cap_id = cin_id i, cap_communicationMessageId = msg_id m, cap_actorId = actor,
      cap_approvedRenderedContentHash = msg_renderedContentHash m, cap_reason = reason, cap_approvedAt = cin_now i\<rparr>"
  let ?db1 = "db\<lparr>com_approvals := com_approvals db @ [a]\<rparr>" and ?f = "\<lambda>r. r\<lparr>msg_status := APPROVED\<rparr>"
  have db': "db' = set_message (msg_id m) ?f ?db1"
    using assms(6) False by (auto simp: run_txn_def approve_txn_def Let_def a_def)
  have core: "msg_core (?f n) = msg_core n" for n by (simp add: msg_core_def)
  have inv1: "comm_inv env ?db1"
    by (rule comm_inv_frame [OF assms(4)]) (use assms(4) in \<open>auto simp: comm_inv_def intro: call_ok_frame\<close>)
  have "message_ok env ?db1 (?f n)" if n: "n \<in> set (com_messages ?db1)" "msg_id n = msg_id m" for n
  proof -
    have "msg_core n = msg_core m" using same_message [OF assms(4,5,2)] n by simp
    note same = msg_core_fields [OF this]
    have "approved_for ?db1 (?f n)" using same by (auto simp: approved_for_def a_def)
    moreover have "message_ok env db n" using assms(4) n by (simp add: comm_inv_def)
    ultimately show ?thesis using same assms(3) by (simp add: message_ok_def)
  qed
  then have "comm_inv env db'" unfolding db' using inv1 core by (intro comm_inv_set) auto
  moreover have "comm_R ?db1 db'" unfolding db' by (rule set_message_R) (rule core)
  moreover have "comm_R db ?db1" by (auto simp: comm_R_def)
  ultimately show ?thesis using cg.R_trans by blast
qed

lemma ok_approve_message: "comm_ok env db (approve_message t mid actor reason corr)"
  unfolding comm_ok_def approve_message_def
proof (rule rg_pbind [OF ok_message_or_fail])
  fix u m assume "\<forall>a. Inr m = Inr a \<longrightarrow> comm_inv env u \<and> a \<in> set (com_messages u) \<and> msg_id a = mid"
  then have u: "comm_inv env u" "m \<in> set (com_messages u)" by auto
  have step: "rg (comm_inv env) comm_R (\<lambda>_ _. True) u (act (\<lambda>i. run_txn (approve_txn i m actor reason)))"
    if "msg_classification m = PROTECTED" by (rule rg_act) (use approve_step [OF u that] in blast)
  have "rg (comm_inv env) comm_R (\<lambda>_ _. True) u
      (pbind (act (\<lambda>i. run_txn (approve_txn i m actor reason))) (\<lambda>a.
       pbind (audit_message t actor ''COMMUNICATION_APPROVED'' mid corr reason None) (\<lambda>_. preturn a)))"
    if "msg_classification m = PROTECTED"
    by (rule rg_pbind [OF step [OF that]], rule rg_pbind [OF ok_audit [unfolded comm_ok_def]]) simp_all
  then show "rg (comm_inv env) comm_R (\<lambda>_ _. True) u
      (if msg_classification m \<noteq> PROTECTED then pthrow (NotProtected mid)
       else if msg_status m = APPROVED then pthrow (AlreadyApproved mid)
       else pbind (act (\<lambda>i. run_txn (approve_txn i m actor reason))) (\<lambda>a.
            pbind (audit_message t actor ''COMMUNICATION_APPROVED'' mid corr reason None) (\<lambda>_. preturn a)))" by auto
qed simp

text \<open>A message that was ready when it was read is approved if it is protected.\<close>

lemma ready_approved:
  assumes "comm_inv env u" "m \<in> set (com_messages u)" "ready_to_send m" "comm_inv env db" "comm_R u db"
    "n \<in> set (com_messages db)" "msg_id n = msg_id m"
  shows "msg_core n = msg_core m" "msg_classification n = PROTECTED \<longrightarrow> approved_for db n"
proof -
  show c: "msg_core n = msg_core m" using same_message [OF assms(4,5,2,6,7)] .
  have "msg_classification m = PROTECTED \<longrightarrow> approved_for u m"
    using assms(1-3) by (auto simp: comm_inv_def message_ok_def ready_to_send_def)
  then have "msg_classification m = PROTECTED \<longrightarrow> approved_for db m" using approved_for_later assms(5) by blast
  then show "msg_classification n = PROTECTED \<longrightarrow> approved_for db n"
    using msg_core_fields [OF c] by (simp add: approved_for_def)
qed

lemma ok_channel_send:
  assumes "comm_inv env u" "m \<in> set (com_messages u)" "ready_to_send m"
  shows "comm_ok env u (channel_send env m)"
  unfolding comm_ok_def channel_send_def
proof (rule rg_act)
  fix i t r v
  assume t: "comm_inv env t" "comm_R u t"
    and v: "(Inr (delivery_reference env (msg_id m) (msg_renderedContentHash m)), t\<lparr>com_sent := com_sent t @
         [\<lparr>chn_messageId = msg_id m, chn_contentHash = msg_renderedContentHash m, chn_channel = msg_channel m\<rparr>]\<rparr>) = (r, v)"
  obtain n where "n \<in> set (com_messages t)" "msg_core n = msg_core m" using t(2) assms(2) by (force simp: comm_R_def)
  then have n: "n \<in> set (com_messages t)" "msg_id n = msg_id m" by (auto dest: msg_core_fields)
  note same = ready_approved [OF assms t n] msg_core_fields
  have old: "call_ok v c" if "c \<in> set (com_sent t)" for c
    using that t(1) v by (auto simp: comm_inv_def intro: call_ok_frame)
  have "\<forall>c \<in> set (com_sent v). call_ok v c"
  proof
    fix c assume "c \<in> set (com_sent v)"
    then consider "c \<in> set (com_sent t)"
      | "c = \<lparr>chn_messageId = msg_id m, chn_contentHash = msg_renderedContentHash m, chn_channel = msg_channel m\<rparr>"
      using v by auto
    then show "call_ok v c"
    proof cases
      case 2
      then show ?thesis unfolding call_ok_def using v n same(1,2) msg_core_fields [OF same(1)]
        by (intro bexI [of _ n]) (auto simp: approved_for_def)
    qed (rule old)
  qed
  then show "comm_inv env v \<and> comm_R t v \<and> True"
    using v t(1) comm_inv_frame [OF t(1), of v] by (auto simp: comm_inv_def)
qed

lemma record_step:
  assumes "comm_inv env u" "m \<in> set (com_messages u)" "ready_to_send m" "comm_inv env db" "comm_R u db"
    "run_txn (record_delivery env i m ref) db = (r, db')"
  shows "comm_inv env db' \<and> comm_R db db'"
proof (cases "cin_eventId i \<in> obx_id ` set (com_outbox db)")
  case True
  then show ?thesis using assms(4,6) cg.R_refl by (auto simp: run_txn_def record_delivery_def)
next
  case False
  let ?f = "\<lambda>r. r\<lparr>msg_status := SENT, msg_deliveryReference := Some ref, msg_sentAt := Some (cin_now i)\<rparr>"
  let ?db1 = "set_message (msg_id m) ?f db"
  obtain x where db': "db' = ?db1\<lparr>com_outbox := x\<rparr>" using assms(6) False by (auto simp: run_txn_def record_delivery_def)
  have core: "msg_core (?f n) = msg_core n" for n by (simp add: msg_core_def)
  have "message_ok env db (?f n)" if n: "n \<in> set (com_messages db)" "msg_id n = msg_id m" for n
  proof -
    have "message_ok env db n" using assms(4) n by (simp add: comm_inv_def)
    then show ?thesis using ready_approved [OF assms(1-5) n]
      by (auto simp: message_ok_def approved_for_def rendering_of_def)
  qed
  then have inv1: "comm_inv env ?db1" using assms(4) core by (intro comm_inv_set) auto
  then have "comm_inv env db'" unfolding db' by simp
  moreover have "comm_R db ?db1" by (rule set_message_R) (rule core)
  ultimately show ?thesis unfolding db' using cg.R_trans comm_R_frame(3) by blast
qed

lemma ok_deliver: "comm_ok env db (deliver env t mid)"
  unfolding comm_ok_def deliver_def
proof (rule rg_pbind [OF ok_message_or_fail])
  fix u m assume "\<forall>a. Inr m = Inr a \<longrightarrow> comm_inv env u \<and> a \<in> set (com_messages u) \<and> msg_id a = mid"
  then have u: "comm_inv env u" "m \<in> set (com_messages u)" by auto
  have "rg (comm_inv env) comm_R (\<lambda>_ _. True) u (pbind (channel_send env m) (\<lambda>ref. act (\<lambda>i. run_txn (record_delivery env i m ref))))"
    if ready: "ready_to_send m"
  proof (rule rg_pbind [OF cg.rg_guarantee [OF ok_channel_send [OF u ready, unfolded comm_ok_def]]])
    fix v ref assume "comm_R u v \<and> True"
    then show "rg (comm_inv env) comm_R (\<lambda>_ _. True) v (act (\<lambda>i. run_txn (record_delivery env i m ref)))"
      by (intro rg_act) (use record_step [OF u ready] cg.R_trans in blast)
  qed simp
  then show "rg (comm_inv env) comm_R (\<lambda>_ _. True) u (if \<not> ready_to_send m
       then preturn (NotReady (''communication message '' @ mid @ '' is '' @ classification_text (msg_classification m)
              @ ''/'' @ message_status_text (msg_status m) @ '', not ready to send''))
       else pbind (channel_send env m) (\<lambda>ref. act (\<lambda>i. run_txn (record_delivery env i m ref))))" by simp
qed simp

lemma ok_send: "comm_ok env db (send_message env t mid actor corr)"
  unfolding comm_ok_def send_message_def
proof (rule rg_pbind [OF ok_deliver [unfolded comm_ok_def]])
  fix u and r :: DeliverCommunicationResult
  have "rg (comm_inv env) comm_R (\<lambda>_ _. True) u (pbind (audit_message t actor x mid corr None j) (\<lambda>_. preturn r))" for x j
    by (rule rg_pbind [OF ok_audit [unfolded comm_ok_def]]) simp_all
  then show "rg (comm_inv env) comm_R (\<lambda>_ _. True) u (case r of NotReady reason \<Rightarrow> pthrow (NotReadyConflict reason)
      | Delivered ref sentAt \<Rightarrow> pbind (audit_message t actor ''COMMUNICATION_SENT'' mid corr None
          (Some (JObj [(''deliveryReference'', JStr ref)]))) (\<lambda>_. preturn r))" by (cases r) simp_all
qed simp

lemma ok_seed: "comm_ok env db (seed_template args)"
proof -
  have step: "comm_inv env t' \<and> comm_R t t'"
    if "comm_inv env t" "run_txn (insert_template (new_template i args)) t = (r, t')" for i t r t'
  proof (cases "list_ex (\<lambda>u. tpl_id u = tpl_id (new_template i args) \<or> same_key u (new_template i args)) (com_templates t)")
    case True
    then show ?thesis using that cg.R_refl by (simp add: run_txn_def insert_template_def)
  next
    case False
    then have t': "t' = t\<lparr>com_templates := com_templates t @ [new_template i args]\<rparr>"
      using that(2) by (simp add: run_txn_def insert_template_def)
    have "[] \<notin> set (tpl_allowedVariables (new_template i args))"
      using hole_segments by (auto simp: new_template_def set_hole_names)
    then have "comm_inv env t'" unfolding t'
      by (intro comm_inv_frame [OF that(1)]) (use that(1) in \<open>auto simp: comm_inv_def intro: call_ok_frame\<close>)
    then show ?thesis by (auto simp: comm_R_def t')
  qed
  have "rg (comm_inv env) comm_R (\<lambda>_ _. True) u (act (\<lambda>i. run_txn (insert_template (new_template i args))))" for u
    by (rule rg_act) (use step in blast)
  then show ?thesis unfolding comm_ok_def seed_template_def
    by (auto intro!: rg_pbind [OF cg.rg_query [where Q = "\<lambda>_ _. True"]])
qed

lemma ok_comm_handler: "comm_inv env db \<Longrightarrow> comm_ok env db (comm_handler env c)"
  unfolding comm_ok_def
  by (cases c) (auto intro!: rg_forget ok_draft [unfolded comm_ok_def] ok_approve_message [unfolded comm_ok_def]
      ok_deliver [unfolded comm_ok_def] ok_send [unfolded comm_ok_def] ok_seed [unfolded comm_ok_def])

end
