(* ===== verification/Communication_Properties.thy ===== *)
theory Communication_Properties
  imports Communication_System
begin

text \<open>
  Properties of the messages to borrowers: what leaves the platform has been reviewed, how
  often a message can leave it, and how an approval after the sending sends it again.
\<close>

section \<open>Any interleaving\<close>

definition ex_comm_env :: comm_env where
  "ex_comm_env =
     \<lparr>cme_web = \<lparr>env_nodeEnv = None, env_url_parse = \<lambda>_. None, env_hmac = \<lambda>k s. [], env_spell = \<lambda>_. []\<rparr>,
      cme_outboxSecret = [], cme_sha256 = (\<lambda>ts. case ts of [TStr s] \<Rightarrow> s | _ \<Rightarrow> []), cme_sha256_text = id\<rparr>"

definition empty_comm :: comm_db where
  "empty_comm = \<lparr>com_templates = [], com_messages = [], com_approvals = [], com_outbox = [], com_audit = [], com_sent = []\<rparr>"

text \<open>
  C16. Nothing unreviewed is sent. However drafts, approvals, deliveries and new templates
  interleave, whatever was handed to the channel is a message of the table, with the hash of
  its content, and either a protected one for which someone approved that hash, or a routine
  one that renders an approved template of its tenant: same channel, locale and recipient, no
  undeclared variable and none with a negative wording, every placeholder filled, and filled
  with the value supplied under its name, unless the template has a placeholder named like a
  member that every object inherits (\<open>constructor\<close>, \<open>toString\<close> and the like).
\<close>

theorem nothing_sent_unreviewed:
  assumes "pstep\<^sup>*\<^sup>* (map (comm_handler env) calls, empty_comm) (ps, db)" "c \<in> set (com_sent db)"
  shows "\<exists>m \<in> set (com_messages db).
    chn_messageId c = msg_id m \<and> chn_channel c = msg_channel m
    \<and> chn_contentHash c = computeDigest (cme_sha256 env) (JStr (msg_renderedContent m))
    \<and> (msg_classification m = ROUTINE \<longrightarrow> (\<exists>t \<in> set (com_templates db).
         rendering_of t m \<and> (no_inherited_placeholder t \<longrightarrow> exact_rendering_of t m)))
    \<and> (msg_classification m = PROTECTED \<longrightarrow>
         (\<exists>a \<in> set (com_approvals db). cap_communicationMessageId a = msg_id m
            \<and> cap_approvedRenderedContentHash a = chn_contentHash c))"
proof -
  have inv0: "comm_inv env empty_comm" by (simp add: comm_inv_def empty_comm_def)
  then have "cg.pool_ok env (map (comm_handler env) calls, empty_comm)"
    using ok_comm_handler by (auto simp: cg.pool_ok_def comm_ok_def)
  then have inv: "comm_inv env db" using cg.pool_ok_steps [OF assms(1)] by (simp add: cg.pool_ok_def)
  then obtain m where m: "m \<in> set (com_messages db)" "chn_messageId c = msg_id m"
      "chn_contentHash c = msg_renderedContentHash m" "chn_channel c = msg_channel m"
      "msg_classification m = PROTECTED \<longrightarrow> approved_for db m"
    using assms(2) by (auto simp: comm_inv_def call_ok_def)
  moreover have "message_ok env db m" using inv m(1) by (simp add: comm_inv_def)
  ultimately show ?thesis
    by (intro bexI [of _ m]) (auto simp: message_ok_def approved_for_def dest: rendering_is_exact)
qed

text \<open>
  The exception: a template with such a placeholder is routine although nothing was supplied
  for it, and the text of the inherited member is sent.
\<close>

lemma inherited_placeholder_is_routine:
  "\<exists>t inp res. tpl_bodyTemplate t = ''{{toString}}'' \<and> dci_variables inp = []
     \<and> classifyCommunication inp (Some t) = Inr res \<and> cls_classification res = ROUTINE
     \<and> cls_renderedContent res = ''function toString() { [native code] }''"
proof -
  define t where "t = new_template (\<lparr>cin_now = 1, cin_id = ''t1'', cin_eventId = [], cin_stored = True\<rparr>)
    \<lparr>tar_tenantId = ''t'', tar_templateKey = ''k'', tar_version = ''1'', tar_channel = ''EMAIL'', tar_locale = ''en-US'',
     tar_recipientRelationship = ''BORROWER'', tar_approvedBy = ''a'', tar_bodyTemplate = ''{{toString}}''\<rparr>"
  define inp where "inp = \<lparr>dci_recipientRelationship = ''BORROWER'', dci_channel = ''EMAIL'', dci_locale = ''en-US'',
    dci_templateKey = Some ''k'', dci_templateVersion = Some ''1'', dci_variables = [], dci_freeformContent = None,
    dci_hasAttachments = False\<rparr>"
  have "case classifyCommunication inp (Some t) of Inl _ \<Rightarrow> False
      | Inr res \<Rightarrow> cls_classification res = ROUTINE \<and> cls_renderedContent res = ''function toString() { [native code] }''"
    unfolding t_def inp_def by code_simp
  then have "\<exists>res. classifyCommunication inp (Some t) = Inr res \<and> cls_classification res = ROUTINE
      \<and> cls_renderedContent res = ''function toString() { [native code] }''" by (auto split: sum.splits)
  moreover have "tpl_bodyTemplate t = ''{{toString}}''" "dci_variables inp = []"
    by (simp_all add: t_def inp_def new_template_def)
  ultimately show ?thesis by blast
qed

section \<open>One handler after the other\<close>

definition delivered_of :: "uuid \<Rightarrow> OutboxEvent \<Rightarrow> bool" where
  "delivered_of mid e \<longleftrightarrow> obx_eventType e = ''communication.delivered''
     \<and> member_of (obx_payload e) ''communicationMessageId'' = Some (JStr mid)"

definition deliveries :: "comm_db \<Rightarrow> uuid \<Rightarrow> nat" where
  "deliveries db mid = length (filter (delivered_of mid) (com_outbox db))"

definition sends :: "comm_db \<Rightarrow> uuid \<Rightarrow> nat" where
  "sends db mid = length (filter (\<lambda>c. chn_messageId c = mid) (com_sent db))"

text \<open>The calls for a message that sent it but could not record that: their transaction failed.\<close>

definition delivers :: "uuid \<Rightarrow> comm_call \<Rightarrow> bool" where
  "delivers mid c = (case c of Deliver _ m \<Rightarrow> m = mid | Send _ m _ _ \<Rightarrow> m = mid | _ \<Rightarrow> False)"

definition unrecorded :: "(comm_call \<times> (comm_error + unit)) list \<Rightarrow> uuid \<Rightarrow> nat" where
  "unrecorded h mid = length (filter (\<lambda>(c, r). delivers mid c \<and> r = Inl CommUniqueViolation) h)"

definition approvals_of :: "comm_db \<Rightarrow> uuid \<Rightarrow> nat" where
  "approvals_of db mid = length (filter (\<lambda>a. cap_communicationMessageId a = mid) (com_approvals db))"

definition licensed :: "comm_db \<Rightarrow> CommunicationMessage \<Rightarrow> bool" where
  "licensed db m \<longleftrightarrow> deliveries db (msg_id m) + (if ready_to_send m then 1 else 0)
     \<le> (if msg_classification m = ROUTINE then 1 else approvals_of db (msg_id m))"

definition counted :: "comm_db \<Rightarrow> bool" where
  "counted db \<longleftrightarrow> distinct (map msg_id (com_messages db)) \<and> (\<forall>m \<in> set (com_messages db). licensed db m)
     \<and> (\<forall>mid. mid \<notin> msg_id ` set (com_messages db) \<longrightarrow> deliveries db mid = 0)"

lemma delivered_of_event [simp]:
  "delivered_of mid (outbox_event w k (delivered_event m ref) i n) \<longleftrightarrow> msg_id m = mid"
  by (auto simp: delivered_of_def outbox_event_def delivered_event_def member_of_def)

lemma counted_books [simp]:
  "counted (db\<lparr>com_audit := a\<rparr>) = counted db" "counted (db\<lparr>com_sent := c\<rparr>) = counted db"
  "counted (db\<lparr>com_templates := x\<rparr>) = counted db"
  by (simp_all add: counted_def licensed_def deliveries_def approvals_of_def)

lemma runs_message_or_fail:
  "(\<And>m. m \<in> set (com_messages db) \<Longrightarrow> msg_id m = mid \<Longrightarrow> msg_tenantId m = t \<Longrightarrow> Q db (Inr m))
    \<Longrightarrow> Q db (Inl (MessageNotFound mid)) \<Longrightarrow> runs db (message_or_fail t mid) Q"
  by (auto simp: message_or_fail_def find_message_def or_throw_def dest!: find_SomeD split: option.splits)

lemma counted_insert: "counted db \<Longrightarrow> counted (snd (run_txn (insert_message (new_message env i t c inp res)) db))"
  by (auto simp: run_txn_def insert_message_def counted_def licensed_def deliveries_def approvals_of_def
      new_message_def ready_to_send_def)


text \<open>One message changes; only its own counts do.\<close>

lemma counted_set:
  assumes "counted db" "m \<in> set (com_messages db)" "com_messages db' = update_where (\<lambda>x. msg_id x = msg_id m) f (com_messages db)"
    and "msg_id (f m) = msg_id m" "licensed db' (f m)"
    and "\<And>mid. mid \<noteq> msg_id m \<Longrightarrow> deliveries db' mid = deliveries db mid \<and> approvals_of db' mid = approvals_of db mid"
  shows "counted db'"
proof -
  have only: "x = m" if "x \<in> set (com_messages db)" "msg_id x = msg_id m" for x
    using that assms(1,2) by (auto simp: counted_def distinct_map inj_on_def)
  have upd: "com_messages db' = map (\<lambda>x. if x = m then f m else x) (com_messages db)"
    unfolding assms(3) update_where_def using only by (intro map_cong) auto
  have ids: "map msg_id (com_messages db') = map msg_id (com_messages db)"
    unfolding upd using assms(4) by simp
  have "msg_id ` set (com_messages db') = msg_id ` set (com_messages db)" using ids by (metis set_map)
  moreover have "licensed db' x" if "x \<in> set (com_messages db')" for x
  proof (cases "x = f m")
    case False
    then have x: "x \<in> set (com_messages db)" "x \<noteq> m" using that unfolding upd by (auto split: if_splits)
    then have "msg_id x \<noteq> msg_id m" using only by blast
    moreover have "licensed db x" using assms(1) x(1) by (simp add: counted_def)
    ultimately show ?thesis using assms(6) [of "msg_id x"] unfolding licensed_def by (simp only: if_split) simp
  qed (use assms(5) in simp)
  moreover have "deliveries db' mid = 0" if "mid \<notin> msg_id ` set (com_messages db)" for mid
  proof -
    have "mid \<noteq> msg_id m" using that assms(2) by blast
    then show ?thesis using that assms(1) assms(6) [of mid] by (simp add: counted_def)
  qed
  ultimately show ?thesis using assms(1) ids by (simp add: counted_def)
qed

lemma counted_approve:
  assumes "counted db" "m \<in> set (com_messages db)" "msg_classification m = PROTECTED" "msg_status m \<noteq> APPROVED"
  shows "counted (snd (run_txn (approve_txn i m actor reason) db))"
proof (cases "cin_id i \<in> cap_id ` set (com_approvals db)")
  case False
  have "licensed db m" using assms(1,2) by (simp add: counted_def)
  with False assms(3,4) show ?thesis
    by (intro counted_set [OF assms(1,2), where f = "\<lambda>r. r\<lparr>msg_status := APPROVED\<rparr>"])
      (auto simp: run_txn_def approve_txn_def set_message_def Let_def licensed_def deliveries_def approvals_of_def ready_to_send_def)
qed (use assms(1) in \<open>simp add: run_txn_def approve_txn_def Let_def\<close>)

lemma counted_deliver:
  assumes "counted db" "m \<in> set (com_messages db)" "ready_to_send m"
  shows "counted (snd (run_txn (record_delivery env i m ref) db))"
proof (cases "cin_eventId i \<in> obx_id ` set (com_outbox db)")
  case False
  have "licensed db m" using assms(1,2) by (simp add: counted_def)
  with False assms(3) show ?thesis
    by (intro counted_set [OF assms(1,2), where
          f = "\<lambda>r. r\<lparr>msg_status := SENT, msg_deliveryReference := Some ref, msg_sentAt := Some (cin_now i)\<rparr>"])
      (auto simp: run_txn_def record_delivery_def set_message_def licensed_def deliveries_def approvals_of_def ready_to_send_def)
qed (use assms(1) in \<open>simp add: run_txn_def record_delivery_def\<close>)

lemma runs_audit: "counted db \<Longrightarrow> runs db (audit_message t a x m k r j) (\<lambda>db' _. counted db')"
  by (simp add: audit_message_def)

lemma runs_deliver: "counted db \<Longrightarrow> runs db (deliver env t mid) (\<lambda>db' _. counted db')"
  unfolding deliver_def
  by (rule runs_pbind, rule runs_message_or_fail)
    (auto simp: channel_send_def intro!: runs_pbind counted_deliver)

lemma runs_comm_handler: "counted db \<Longrightarrow> runs db (comm_handler env c) (\<lambda>db' _. counted db')"
proof (cases c)
  case (Draft t k inp)
  have "runs db (draft_message env t k inp) (\<lambda>db' _. counted db')" if "counted db"
    unfolding draft_message_def using that
    by (intro runs_pbind) (auto simp: counted_insert pthrow_def split: sum.split)
  then show "counted db \<Longrightarrow> ?thesis" using Draft by (simp add: runs_forget)
next
  case (Approve t m a r k)
  have "runs db (approve_message t m a r k) (\<lambda>db' _. counted db')" if "counted db"
    unfolding approve_message_def
    by (rule runs_pbind, rule runs_message_or_fail)
      (use that in \<open>auto simp: pthrow_def intro!: runs_pbind runs_mono [OF runs_audit] counted_approve split: sum.split\<close>)
  then show "counted db \<Longrightarrow> ?thesis" using Approve by (simp add: runs_forget)
next
  case (Deliver t m)
  then show "counted db \<Longrightarrow> ?thesis" by (simp add: runs_forget runs_deliver)
next
  case (Send t m a k)
  have "runs db (send_message env t m a k) (\<lambda>db' _. counted db')" if "counted db"
    unfolding send_message_def
    by (rule runs_pbind, rule runs_mono [OF runs_deliver [OF that]])
      (auto simp: pthrow_def intro!: runs_pbind runs_mono [OF runs_audit] split: sum.split DeliverCommunicationResult.split)
  then show "counted db \<Longrightarrow> ?thesis" using Send by (simp add: runs_forget)
next
  case (SeedTemplate args)
  have "runs db (seed_template args) (\<lambda>db' _. counted db')" if "counted db"
    unfolding seed_template_def using that
    by (auto simp: pthrow_def run_txn_def insert_template_def intro!: runs_pbind)
  then show "counted db \<Longrightarrow> ?thesis" using SeedTemplate by (simp add: runs_forget)
qed

lemma map_sum_Inl: "map_sum id g r = Inl e \<longleftrightarrow> r = Inl e"
  by (cases r) auto

text \<open>Every call of the channel is either recorded as a delivery or made by a call that failed.\<close>

definition balanced_by :: "comm_db \<Rightarrow> comm_db \<Rightarrow> uuid \<Rightarrow> bool \<Rightarrow> bool" where
  "balanced_by db db' mid failed \<longleftrightarrow>
     sends db' mid + deliveries db mid = sends db mid + deliveries db' mid + (if failed then 1 else 0)"

lemma balanced_same: "com_sent db' = com_sent db \<Longrightarrow> com_outbox db' = com_outbox db \<Longrightarrow> balanced_by db db' mid False"
  by (simp add: balanced_by_def sends_def deliveries_def)

lemma balance_deliver:
  "runs db (deliver env t m) (\<lambda>db' r. (\<forall>mid. balanced_by db db' mid (mid = m \<and> r = Inl CommUniqueViolation))
     \<and> (\<forall>reason. r \<noteq> Inl (NotReadyConflict reason)))"
  unfolding deliver_def
  by (rule runs_pbind, rule runs_message_or_fail)
    (auto simp: channel_send_def run_txn_def record_delivery_def balanced_by_def sends_def deliveries_def set_message_def
      intro!: runs_pbind)

lemma unchanged_books:
  "runs db (draft_message env t c inp) (\<lambda>db' _. com_sent db' = com_sent db \<and> com_outbox db' = com_outbox db)"
  "runs db (approve_message t m a r k) (\<lambda>db' _. com_sent db' = com_sent db \<and> com_outbox db' = com_outbox db)"
  "runs db (seed_template args) (\<lambda>db' _. com_sent db' = com_sent db \<and> com_outbox db' = com_outbox db)"
proof -
  show "runs db (draft_message env t c inp) (\<lambda>db' _. com_sent db' = com_sent db \<and> com_outbox db' = com_outbox db)"
    unfolding draft_message_def
    by (intro runs_pbind) (auto simp: pthrow_def run_txn_def insert_message_def split: sum.split)
  show "runs db (approve_message t m a r k) (\<lambda>db' _. com_sent db' = com_sent db \<and> com_outbox db' = com_outbox db)"
    unfolding approve_message_def
    by (rule runs_pbind, rule runs_message_or_fail)
      (auto simp: pthrow_def audit_message_def run_txn_def approve_txn_def set_message_def Let_def
        intro!: runs_pbind split: sum.split)
  show "runs db (seed_template args) (\<lambda>db' _. com_sent db' = com_sent db \<and> com_outbox db' = com_outbox db)"
    unfolding seed_template_def
    by (auto simp: pthrow_def run_txn_def insert_template_def intro!: runs_pbind)
qed

lemma balance_handler:
  "runs db (comm_handler env c) (\<lambda>db' r. \<forall>mid. balanced_by db db' mid (delivers mid c \<and> r = Inl CommUniqueViolation))"
proof (cases c)
  case (Deliver t m)
  have "runs db (forget (deliver env t m)) (\<lambda>db' r. \<forall>mid. balanced_by db db' mid (delivers mid c \<and> r = Inl CommUniqueViolation))"
    by (rule runs_forget_result, rule runs_mono [OF balance_deliver])
      (auto simp: Deliver delivers_def map_sum_Inl eq_commute [of m])
  then show ?thesis by (simp add: Deliver)
next
  case (Send t m a k)
  have "runs db (send_message env t m a k) (\<lambda>db' r. \<forall>mid. balanced_by db db' mid (mid = m \<and> r = Inl CommUniqueViolation))"
    unfolding send_message_def
    by (rule runs_pbind, rule runs_mono [OF balance_deliver])
      (auto simp: pthrow_def audit_message_def balanced_by_def sends_def deliveries_def
        intro!: runs_pbind split: sum.split DeliverCommunicationResult.split)
  then have "runs db (forget (send_message env t m a k))
      (\<lambda>db' r. \<forall>mid. balanced_by db db' mid (delivers mid c \<and> r = Inl CommUniqueViolation))"
    by (intro runs_forget_result) (auto elim!: runs_mono simp: Send delivers_def map_sum_Inl eq_commute [of m])
  then show ?thesis by (simp add: Send)
qed (auto simp: delivers_def intro!: runs_forget runs_mono [OF unchanged_books(1)] runs_mono [OF unchanged_books(2)]
    runs_mono [OF unchanged_books(3)] balanced_same)

text \<open>
  C17. A message is sent once per license. When handlers do not overlap, the channel was called
  for a message exactly as often as a delivery of it was recorded, plus once for every delivery
  whose recording failed after the call; and a routine message is recorded as delivered at most
  once, a protected one at most as often as it has been approved.
\<close>

theorem sends_bounded_by_approvals:
  assumes "history (comm_handler env) empty_comm h db" "m \<in> set (com_messages db)"
  shows "sends db (msg_id m) = deliveries db (msg_id m) + unrecorded h (msg_id m)
    \<and> deliveries db (msg_id m) \<le> (if msg_classification m = ROUTINE then 1 else approvals_of db (msg_id m))"
proof -
  let ?I = "\<lambda>h db. counted db \<and> (\<forall>mid. sends db mid = deliveries db mid + unrecorded h mid)"
  have "?I h db"
  proof (rule history_keeps [OF assms(1)])
    show "?I [] empty_comm" by (simp add: counted_def empty_comm_def deliveries_def sends_def unrecorded_def)
    fix h c db assume I: "?I h db"
    show "runs db (comm_handler env c) (\<lambda>db' r. ?I (h @ [(c, r)]) db')"
      by (rule runs_mono [OF runs_both [OF runs_comm_handler balance_handler]])
        (use I in \<open>auto simp: balanced_by_def unrecorded_def\<close>)
  qed
  then show ?thesis using assms(2) by (auto simp: counted_def licensed_def)
qed


section \<open>Approving what was sent\<close>

text \<open>
  C40. An approval after the sending sends again. \<open>approve\<close> refuses a message that is
  approved but not one that was sent: it makes the sent message ready once more, and the
  next delivery hands the same content to the channel a second time.
\<close>

theorem approval_after_sending_sends_again:
  assumes "find_message db t mid = Some m" "msg_classification m = PROTECTED" "msg_status m = SENT"
    "cin_id i \<notin> cap_id ` set (com_approvals db)" "cin_eventId j \<notin> obx_id ` set (com_outbox db)"
  shows "\<exists>a db1 db2. prun (approve_message t mid actor reason corr) (\<lambda>_. i) db = (Inr a, db1)
    \<and> prun (deliver env t mid) (\<lambda>_. j) db1 = (Inr (Delivered (delivery_reference env mid (msg_renderedContentHash m)) (cin_now j)), db2)
    \<and> com_sent db2 = com_sent db @ [\<lparr>chn_messageId = mid, chn_contentHash = msg_renderedContentHash m, chn_channel = msg_channel m\<rparr>]
    \<and> deliveries db2 mid = Suc (deliveries db mid)"
proof -
  have mid: "msg_id m = mid" "msg_tenantId m = t" using assms(1) by (auto simp: find_message_def dest!: find_SomeD)
  obtain a db1 where ap: "prun (approve_message t mid actor reason corr) (\<lambda>_. i) db = (Inr a, db1)"
    and db1: "com_messages db1 = update_where (\<lambda>x. msg_id x = mid) (\<lambda>r. r\<lparr>msg_status := APPROVED\<rparr>) (com_messages db)"
      "com_sent db1 = com_sent db" "com_outbox db1 = com_outbox db"
    using assms mid by (simp add: approve_message_def message_or_fail_def audit_message_def or_throw_def run_txn_def
        approve_txn_def set_message_def Let_def)
  have "find_message db1 t mid = Some (m\<lparr>msg_status := APPROVED\<rparr>)"
    using assms(1) unfolding find_message_def db1(1) by (subst find_update_where) (auto simp: mid)
  then have "\<exists>db2. prun (deliver env t mid) (\<lambda>_. j) db1
        = (Inr (Delivered (delivery_reference env mid (msg_renderedContentHash m)) (cin_now j)), db2)
    \<and> com_sent db2 = com_sent db1 @ [\<lparr>chn_messageId = mid, chn_contentHash = msg_renderedContentHash m, chn_channel = msg_channel m\<rparr>]
    \<and> deliveries db2 mid = Suc (deliveries db1 mid)"
    using assms(2,5) mid db1(3)
    by (simp add: deliver_def message_or_fail_def channel_send_def or_throw_def ready_to_send_def run_txn_def
        record_delivery_def set_message_def deliveries_def)
  with ap db1 show ?thesis by (auto simp: deliveries_def)
qed


section \<open>Witnesses\<close>

text \<open>A free-form message is drafted, approved and delivered.\<close>

definition ex_inp :: DraftCommunicationInput where
  "ex_inp = \<lparr>dci_recipientRelationship = ''BORROWER'', dci_channel = ''EMAIL'', dci_locale = ''en-US'', dci_templateKey = None,
     dci_templateVersion = None, dci_variables = [], dci_freeformContent = Some ''Please call.'', dci_hasAttachments = False\<rparr>"

definition ex_in :: "string \<Rightarrow> comm_input" where
  "ex_in x = \<lparr>cin_now = 1, cin_id = x, cin_eventId = x, cin_stored = True\<rparr>"

definition ex_msg :: "CommunicationMessageStatus \<Rightarrow> CommunicationMessage" where
  "ex_msg st =
     \<lparr>msg_id = ''m'', msg_tenantId = ''t'', msg_caseId = ''c'', msg_classification = PROTECTED,
      msg_classificationReasons = [''free-form material text''], msg_templateId = None,
      msg_recipientRelationship = ''BORROWER'', msg_channel = ''EMAIL'', msg_locale = ''en-US'',
      msg_renderedContent = ''Please call.'', msg_renderedContentHash = ''Please call.'', msg_variables = [],
      msg_status = st, msg_createdAt = 1,
      msg_deliveryReference = (if st = SENT then Some ''sim-m:Please call.'' else None),
      msg_sentAt = (if st = SENT then Some 1 else None)\<rparr>"

abbreviation "ex_h \<equiv> comm_handler ex_comm_env"
abbreviation "ex_c0 \<equiv> Draft ''t'' ''c'' ex_inp"
abbreviation "ex_c1 \<equiv> Approve ''t'' ''m'' ''rev'' None None"
abbreviation "ex_c2 \<equiv> Deliver ''t'' ''m''"

definition ex_drafted :: comm_db where
  "ex_drafted = empty_comm\<lparr>com_messages := [ex_msg AWAITING_APPROVAL]\<rparr>"

definition ex_approved :: comm_db where
  "ex_approved = snd (prun (ex_h ex_c1) (\<lambda>_. ex_in ''a'') ex_drafted)"

definition ex_delivered :: comm_db where
  "ex_delivered = snd (prun (ex_h ex_c2) (\<lambda>_. ex_in ''e'') ex_approved)"

lemmas ex_comm_defs = ex_inp_def ex_in_def ex_msg_def ex_comm_env_def empty_comm_def prun_forget

lemma ex_draft: "prun (ex_h ex_c0) (\<lambda>_. ex_in ''m'') empty_comm = (Inr (), ex_drafted)"
  by (simp add: ex_comm_defs ex_drafted_def draft_message_def find_template_def present_def classifyCommunication_def
      insert_message_def new_message_def run_txn_def computeDigest_def digest_input_def)

lemma ex_approve: "prun (ex_h ex_c1) (\<lambda>_. ex_in ''a'') ex_drafted = (Inr (), ex_approved)"
  by (simp add: ex_approved_def ex_drafted_def ex_comm_defs approve_message_def message_or_fail_def find_message_def or_throw_def
      run_txn_def approve_txn_def set_message_def audit_message_def Let_def)

lemma ex_deliver: "prun (ex_h ex_c2) (\<lambda>_. ex_in ''e'') ex_approved = (Inr (), ex_delivered)"
  and ex_delivered_rows: "com_messages ex_delivered = [ex_msg SENT]" "map cap_id (com_approvals ex_delivered) = [''a'']"
    "map obx_id (com_outbox ex_delivered) = [''e'']" "map chn_contentHash (com_sent ex_delivered) = [''Please call.'']"
    "deliveries ex_delivered ''m'' = 1" "approvals_of ex_delivered ''m'' = 1"
  by (simp_all add: ex_delivered_def ex_approved_def ex_drafted_def ex_comm_defs approve_message_def message_or_fail_def
      find_message_def or_throw_def run_txn_def approve_txn_def set_message_def audit_message_def Let_def deliver_def
      ready_to_send_def channel_send_def record_delivery_def delivery_reference_def update_where_def outbox_event_def
      deliveries_def approvals_of_def delivered_of_def delivered_event_def member_of_def)


lemma ex_pool:
  "pstep\<^sup>*\<^sup>* (map ex_h [ex_c0, ex_c1, ex_c2], empty_comm) ([Ret (Inr ()), Ret (Inr ()), Ret (Inr ())], ex_delivered)"
proof -
  have a: "pstep\<^sup>*\<^sup>* ([ex_h ex_c0, ex_h ex_c1, ex_h ex_c2], empty_comm) ([Ret (Inr ()), ex_h ex_c1, ex_h ex_c2], ex_drafted)"
    using prun_steps [OF ex_draft, of "[]" "[ex_h ex_c1, ex_h ex_c2]"] by (simp only: append_Nil)
  have b: "pstep\<^sup>*\<^sup>* ([Ret (Inr ()), ex_h ex_c1, ex_h ex_c2], ex_drafted) ([Ret (Inr ()), Ret (Inr ()), ex_h ex_c2], ex_approved)"
    using prun_steps [OF ex_approve, of "[Ret (Inr ())]" "[ex_h ex_c2]"] by (simp only: append_Nil append_Cons)
  have c: "pstep\<^sup>*\<^sup>* ([Ret (Inr ()), Ret (Inr ()), ex_h ex_c2], ex_approved) ([Ret (Inr ()), Ret (Inr ()), Ret (Inr ())], ex_delivered)"
    using prun_steps [OF ex_deliver, of "[Ret (Inr ()), Ret (Inr ())]" "[]"] by (simp only: append_Nil append_Cons)
  show ?thesis unfolding list.map by (rule rtranclp_trans [OF a rtranclp_trans [OF b c]])
qed

lemma ex_history: "history ex_h empty_comm [(ex_c0, Inr ()), (ex_c1, Inr ()), (ex_c2, Inr ())] ex_delivered"
proof -
  have "history ex_h empty_comm [(ex_c0, Inr ())] ex_drafted"
    using history_call [where handler = ex_h and h = "[]", OF history_now ex_draft] by simp
  then have "history ex_h empty_comm [(ex_c0, Inr ()), (ex_c1, Inr ())] ex_approved"
    using history_call [where handler = ex_h and c = ex_c1, OF _ ex_approve] by fastforce
  then show ?thesis using history_call [where handler = ex_h and c = ex_c2, OF _ ex_deliver] by fastforce
qed

theorem nothing_sent_unreviewed_witness:
  "\<exists>a \<in> set (com_approvals ex_delivered). cap_communicationMessageId a = ''m''
     \<and> cap_approvedRenderedContentHash a = ''Please call.''"
proof -
  obtain c where c: "c \<in> set (com_sent ex_delivered)" "chn_contentHash c = ''Please call.''"
    using ex_delivered_rows(4) by auto
  obtain m where m: "m \<in> set (com_messages ex_delivered)" "msg_classification m = PROTECTED \<longrightarrow>
      (\<exists>a \<in> set (com_approvals ex_delivered). cap_communicationMessageId a = msg_id m
         \<and> cap_approvedRenderedContentHash a = chn_contentHash c)"
    using nothing_sent_unreviewed [OF ex_pool c(1)] by blast
  then have "m = ex_msg SENT" using ex_delivered_rows(1) by simp
  then show ?thesis using m(2) c(2) by (simp add: ex_msg_def)
qed

theorem sends_bounded_by_approvals_witness:
  "sends ex_delivered ''m'' = 1 \<and> deliveries ex_delivered ''m'' \<le> approvals_of ex_delivered ''m''"
  using sends_bounded_by_approvals [OF ex_history, of "ex_msg SENT"] ex_delivered_rows
  by (simp add: ex_msg_def unrecorded_def)

theorem approval_after_sending_sends_again_witness:
  "\<exists>db1 db2. snd (prun (approve_message ''t'' ''m'' ''rev'' None None) (\<lambda>_. ex_in ''b'') ex_delivered) = db1
     \<and> snd (prun (deliver ex_comm_env ''t'' ''m'') (\<lambda>_. ex_in ''f'') db1) = db2
     \<and> map chn_contentHash (com_sent db2) = [''Please call.'', ''Please call.''] \<and> deliveries db2 ''m'' = 2"
proof -
  have f: "find_message ex_delivered ''t'' ''m'' = Some (ex_msg SENT)"
    by (simp add: find_message_def ex_delivered_rows ex_msg_def)
  have p: "msg_classification (ex_msg SENT) = PROTECTED" "msg_status (ex_msg SENT) = SENT" by (simp_all add: ex_msg_def)
  have "cap_id ` set (com_approvals ex_delivered) = {''a''}" "obx_id ` set (com_outbox ex_delivered) = {''e''}"
    using ex_delivered_rows(2,3) by (metis list.set(1,2) set_map)+
  then have n: "cin_id (ex_in ''b'') \<notin> cap_id ` set (com_approvals ex_delivered)"
    "cin_eventId (ex_in ''f'') \<notin> obx_id ` set (com_outbox ex_delivered)" by (simp_all add: ex_in_def)
  show ?thesis
    using approval_after_sending_sends_again [OF f p n, of "''rev''" None None ex_comm_env] ex_delivered_rows(4,5)
    by (auto simp: ex_msg_def)
qed

end
