(* ===== verification/Keeping.thy ===== *)
theory Keeping
  imports Running_Alone
begin

text \<open>
  \<open>keeps I R p\<close>: from every state, whatever the others do within \<open>R\<close>, each step of the
  handler \<open>p\<close> keeps \<open>I\<close> and stays within \<open>R\<close>. One rule per construct, so that a
  handler is checked step by step. \<open>steps_in G p\<close> says that every step of \<open>p\<close>, from
  whatever state, changes it within \<open>G\<close>: what a larger state needs to know of the program
  of a component.
\<close>

definition keeps :: "('s \<Rightarrow> bool) \<Rightarrow> ('s \<Rightarrow> 's \<Rightarrow> bool) \<Rightarrow> ('i, 's, 'e, 'a) prog \<Rightarrow> bool" where
  "keeps I R p \<longleftrightarrow> (\<forall>s. rg I R (\<lambda>_ _. True) s p)"

lemma keeps_preturn: "keeps I R (preturn a)"
  by (simp add: keeps_def)

lemma keeps_pthrow: "keeps I R (pthrow e)"
  by (simp add: keeps_def)

lemma keeps_pbind: "keeps I R p \<Longrightarrow> (\<And>a. keeps I R (f a)) \<Longrightarrow> keeps I R (pbind p f)"
  unfolding keeps_def by (blast intro: rg_pbind)

lemma keeps_pcatch: "keeps I R p \<Longrightarrow> (\<And>e. keeps I R (h e)) \<Longrightarrow> keeps I R (pcatch p h)"
  unfolding keeps_def by (blast intro: rg_pcatch)

lemma keeps_forget: "keeps I R p \<Longrightarrow> keeps I R (forget p)"
  unfolding forget_def by (rule keeps_pbind) (simp_all add: keeps_preturn)

lemma keeps_act:
  assumes "\<And>i s r t. I s \<Longrightarrow> p i s = (r, t) \<Longrightarrow> I t \<and> R s t"
  shows "keeps I R (act p)"
  unfolding keeps_def by (intro allI rg_act) (use assms in blast)

lemma keeps_pmap_list: "(\<And>x. keeps I R (f x)) \<Longrightarrow> keeps I R (pmap_list f xs)"
  by (induction xs) (auto intro!: keeps_preturn keeps_pbind)

context rely_guarantee
begin

lemma keeps_query: "keeps I R (query f)"
  unfolding query_def by (rule keeps_act) (auto simp: R_refl)

lemma keeps_read: "keeps I R (act (\<lambda>i s. (f i s, s)))"
  by (rule keeps_act) (auto simp: R_refl)

lemma keeps_txn:
  assumes "\<And>i s a t. I s \<Longrightarrow> p i s = Inr (a, t) \<Longrightarrow> I t \<and> R s t"
  shows "keeps I R (act (\<lambda>i. run_txn (p i)))"
proof (rule keeps_act)
  fix i s r t assume "I s" "run_txn (p i) s = (r, t)"
  with assms show "I t \<and> R s t" by (cases r) (auto simp: result_simps R_refl)
qed

text \<open>
  In every interleaving each handler ends as its own postcondition says, provided the others
  cannot undo it.
\<close>

lemma pool_results:
  assumes "pstep\<^sup>*\<^sup>* c c'" "I (snd c)"
    and "\<And>n. n < length (fst c) \<Longrightarrow> rg I R (Q n) (snd c) (fst c ! n)"
    and "\<And>n s t r. Q n s r \<Longrightarrow> R s t \<Longrightarrow> Q n t r"
  shows "I (snd c') \<and> length (fst c') = length (fst c) \<and> (\<forall>n < length (fst c). rg I R (Q n) (snd c') (fst c' ! n))"
  using assms(1)
proof induction
  case base
  show ?case using assms(2,3) by simp
next
  case (step d d')
  from step(2) show ?case
  proof cases
    case (pstep m ps k i s p t)
    with step.IH have m: "m < length (fst c)" "rg I R (Q m) s (Act k)" and I: "I s"
      by auto
    from m(2) have "I (snd (k i s)) \<and> R s (snd (k i s)) \<and> rg I R (Q m) (snd (k i s)) (fst (k i s))"
      using I R_refl by (blast elim: rg_ActE)
    then have moved: "I t" "R s t" "rg I R (Q m) t p" using pstep by simp_all
    moreover have "rg I R (Q n) t (ps ! n)" if "n < length (fst c)" for n
      using step.IH pstep that moved(2) assms(4) by (auto intro: rg_later)
    ultimately show ?thesis using step.IH pstep by (auto simp: nth_list_update)
  qed
qed

lemma keeps_pool: "I s \<Longrightarrow> (\<And>p. p \<in> set ps \<Longrightarrow> keeps I R p) \<Longrightarrow> pool_ok (ps, s)"
  by (auto simp: pool_ok_def keeps_def)

end

section \<open>Programs of a component\<close>

inductive steps_in :: "('s \<Rightarrow> 's \<Rightarrow> bool) \<Rightarrow> ('i, 's, 'e, 'a) prog \<Rightarrow> bool" for G where
  steps_Ret: "steps_in G (Ret r)"
| steps_Act: "(\<And>i s. G s (snd (k i s)) \<and> steps_in G (fst (k i s))) \<Longrightarrow> steps_in G (Act k)"

inductive_cases steps_ActE: "steps_in G (Act k)"

lemma steps_preturn: "steps_in G (preturn a)"
  by (simp add: preturn_def steps_Ret)

lemma steps_pthrow: "steps_in G (pthrow e)"
  by (simp add: pthrow_def steps_Ret)

lemma steps_act: "(\<And>i s. G s (snd (p i s))) \<Longrightarrow> steps_in G (act p)"
  unfolding act_def by (rule steps_Act) (simp add: steps_Ret)

lemma steps_query: "(\<And>s. G s s) \<Longrightarrow> steps_in G (query f)"
  unfolding query_def by (rule steps_act) simp

lemma steps_pbind: "steps_in G p \<Longrightarrow> (\<And>a. steps_in G (f a)) \<Longrightarrow> steps_in G (pbind p f)"
proof (induction rule: steps_in.induct)
  case (steps_Ret r)
  then show ?case by (cases r) (auto intro: steps_in.steps_Ret)
qed (auto intro: steps_Act)

lemma steps_any: "steps_in (\<lambda>_ _. True) p"
proof (induction p)
  case (Act k)
  have "steps_in (\<lambda>_ _. True) (fst (k i s))" for i s
    by (rule Act.IH [of "k i" "k i s"]) (auto simp: fsts.simps prod_eq_iff)
  then show ?case by (intro steps_Act) simp
qed (rule steps_Ret)

end
