(* ===== verification/Case_Records.thy ===== *)
theory Case_Records
  imports Communications Policy_Service Budget_Ledger Consent_Disposition Provider_Dispatch Running_Alone
begin

text \<open>
  The state of the case system: one record per entity of \<open>src/src/database/entities\<close> that
  the case workflow and the agent write, and the states of the components they call (budget
  authority, policy catalog, provider platform, communications).

  A step of a handler reads the clocks, generated ids, whether a concurrent transaction got
  in between the statements of its own, the replies of the planner model and of the workflow
  service, and what a provider dispatch meets. \<open>zoom\<close> runs a program of a component inside the whole; the outbox is
  one table for all, and the catalog sees the cases through the columns it uses.

  Every UPDATE of a case or a condition that goes through the repository raises the row's
  version column by one, as the mapper does for version columns.
\<close>

section \<open>Rows\<close>

datatype CaseStatus =
    CASE_DRAFT | COLLECTING_EVIDENCE | CONDITIONS_OPEN | WAITING_FOR_INFORMATION | WAITING_FOR_REVIEW
  | READY_FOR_UNDERWRITING | MANUAL_REVIEW | CASE_CLOSED

datatype ConditionStatus =
    COND_OPEN | COND_IN_PROGRESS | COND_WAITING_FOR_EVIDENCE | COND_SATISFIED | COND_WAIVED | COND_ESCALATED

text \<open>The catalog's view of a case with the remaining columns.\<close>

record CaseRow = LoanCase +
  lc_idempotencyKey :: string
  lc_borrowerId :: string
  lc_requestedAmount :: js_number
  lc_statedMonthlyIncome :: js_number
  lc_status :: CaseStatus
  lc_version :: int
  lc_updatedAt :: timestamp

record LoanCondition =
  cnd_id :: uuid
  cnd_tenantId :: uuid
  cnd_caseId :: uuid
  cnd_code :: string
  cnd_description :: string
  cnd_status :: ConditionStatus
  cnd_policySnapshotId :: "uuid option"
  cnd_evaluationManifestId :: "uuid option"
  cnd_version :: int
  cnd_createdAt :: timestamp

record ConditionTransition =
  ctr_id :: uuid
  ctr_conditionId :: uuid
  ctr_fromStatus :: ConditionStatus
  ctr_toStatus :: ConditionStatus
  ctr_actorId :: "string option"
  ctr_reason :: "string option"
  ctr_occurredAt :: timestamp

record EvaluationManifestEvidenceRef =
  mer_evidenceId :: uuid
  mer_version :: int
  mer_contentHash :: string
  mer_validThrough :: "string option"

record EvaluationInputManifest =
  eim_id :: uuid
  eim_tenantId :: uuid
  eim_caseId :: uuid
  eim_caseVersion :: int
  eim_evidenceRefs :: "EvaluationManifestEvidenceRef list"
  eim_policyBindingId :: uuid
  eim_observedPolicyDependencyDigest :: string
  eim_evaluatorVersion :: string
  eim_modelAndPromptManifestId :: "string option"
  eim_manifestHash :: string

datatype AgentPlannerAction = EVALUATE_POLICY | REQUEST_HUMAN_REVIEW

datatype AgentPlannerReason = POLICY_EVALUATION_REQUIRED | HUMAN_REVIEW_REQUIRED

record AgentModelInvocation =
  ami_id :: uuid
  ami_tenantId :: uuid
  ami_caseId :: uuid
  ami_caseVersion :: int
  ami_workflowRunId :: string
  ami_modelVersion :: string
  ami_promptVersion :: string
  ami_nextAction :: AgentPlannerAction
  ami_reasonCode :: AgentPlannerReason
  ami_confidenceBasisPoints :: int
  ami_accountedTokenUnits :: int
  ami_requestDigest :: string
  ami_responseDigest :: string

datatype AgentRunRoute =
    PROPOSED_ACTION | AWAITING_INFORMATION | INTERRUPTED_FOR_REVIEW | ROUTED_TO_MANUAL_REVIEW

datatype MandatoryReviewCategory =
    CONSENT_INVALID | BUDGET_OR_DEADLINE_EXHAUSTED | POLICY_AMBIGUITY | TOOL_EXECUTION_FAILURE
  | MODEL_OUTPUT_INVALID | MODEL_UNCERTAINTY

datatype ToolAttemptOutcome = ATTEMPT_SUCCESS | ATTEMPT_FAILURE

record AgentRun =
  run_id :: uuid
  run_tenantId :: uuid
  run_caseId :: uuid
  run_workflowRunId :: string
  run_route :: AgentRunRoute
  run_proposedActionTool :: "string option"
  run_proposedActionArguments :: "json option"
  run_reviewRequested :: bool
  run_reviewReason :: "string option"
  run_reviewCategory :: "MandatoryReviewCategory option"
  run_modelInvocationId :: "uuid option"
  run_modelVersion :: "string option"
  run_promptVersion :: "string option"
  run_startedAt :: timestamp

record ToolAttempt =
  tat_agentRunId :: uuid
  tat_toolName :: string
  tat_outcome :: ToolAttemptOutcome
  tat_detail :: "string option"
  tat_attemptedAt :: timestamp

text \<open>The columns of a tenant that bound its agent runs.\<close>

record TenantRunBudget =
  trb_tenantId :: uuid
  trb_agentRunStepBudgetOverride :: "int option"
  trb_agentRunDurationBudgetMsOverride :: "int option"

text \<open>
  What the workflow service is asked for. The service is outside: a request is noted in
  \<open>cas_temporal\<close>, and its reply is an input of the step.
\<close>

record CaseConditionsWorkflowInput =
  wfi_tenantId :: uuid
  wfi_caseId :: uuid
  wfi_borrowerId :: string
  wfi_recoveryOfRunId :: "string option"

datatype ConditionResolutionKind = SATISFIED | WAIVED

record ResolveConditionSignalPayload =
  rcp_actorId :: string
  rcp_resolution :: ConditionResolutionKind
  rcp_reason :: "string option"

record ResumeInterruptedEvaluationSignalPayload =
  rip_actorId :: string
  rip_note :: "string option"

datatype temporal_request =
    StartRequest CaseConditionsWorkflowInput
  | RecoverRequest CaseConditionsWorkflowInput
  | ResolveSignal uuid ResolveConditionSignalPayload
  | ResumeSignal uuid ResumeInterruptedEvaluationSignalPayload
  | CancelRequest uuid string

datatype temporal_reply =
    Accepted string \<comment> \<open>run id\<close>
  | AlreadyStarted
  | Described string string \<comment> \<open>run id, status\<close>
  | NoSuchWorkflow
  | ServiceError string

record case_db =
  cas_tenants :: "TenantRunBudget table"
  cas_cases :: "CaseRow table"
  cas_conditions :: "LoanCondition table"
  cas_transitions :: "ConditionTransition table"
  cas_outbox :: "OutboxEvent table"
  cas_manifests :: "EvaluationInputManifest table"
  cas_invocations :: "AgentModelInvocation table"
  cas_runs :: "AgentRun table"
  cas_attempts :: "ToolAttempt table"
  cas_budget :: budget_db
  cas_policy :: policy_db
  cas_platform :: platform_db
  cas_comms :: comm_db
  cas_submissions :: "submission list"
  cas_temporal :: "temporal_request list"

section \<open>Steps\<close>

text \<open>What the planner's HTTP call comes back with.\<close>

datatype planner_reply =
    FetchAborted | FetchFailed | HttpError nat | BodyNotJson | Body json

record case_input =
  kin_now :: timestamp
  kin_db_now :: timestamp
  kin_ids :: "nat \<Rightarrow> uuid"
  kin_stored :: bool
  kin_raced :: bool
  kin_reply :: planner_reply
  kin_dispatch :: dispatch_env
  kin_temporal :: temporal_reply

datatype AgentPlannerErrorCode = UNAVAILABLE | PLANNER_TIMEOUT | PROVIDER_ERROR | MALFORMED_OUTPUT

datatype case_error =
    BudgetFailure budget_error
  | PolicyFailure policy_error
  | PlatformFailure platform_error
  | CommFailure comm_error
  | AgentPlannerError AgentPlannerErrorCode string
  | StaleCaseVersionError uuid int
  | RowNotFound string
  | NotFoundException string
  | ConflictException string
  | CaseUniqueViolation
  | CheckConstraintViolation
  | DecimalOutOfRange
  | InvalidToolSet string
  | ApplicationFailure bool string string string \<comment> \<open>retryable, message, type, provider\<close>
  | WorkflowNotFoundError
  | PlainError string

type_synonym 'a case_prog = "(case_input, case_db, case_error, 'a) prog"

text \<open>The planner of a worker that has one.\<close>

record planner_config =
  plc_modelVersion :: string
  plc_promptVersion :: string
  plc_tokenBudgetUnits :: int
  plc_minimumConfidenceBasisPoints :: int

text \<open>
  Deployment and libraries: the communication services with the outbox secret, dates, SHA-256
  of JSON text, the planner and its lexer, the text of errors and of rule reasons, how the
  database stores a decimal, the provider platform's cryptography and adapters, and which of
  their failures are timeouts.
\<close>

record case_env =
  kev_comm :: comm_env
  kev_date_parse :: "string \<Rightarrow> timestamp option"
  kev_sha256 :: "tok list \<Rightarrow> string"
  kev_planner :: "planner_config option"
  kev_lex :: "string \<Rightarrow> tok list option"
  kev_message :: "case_error \<Rightarrow> string"
  kev_reason :: "eval_reason \<Rightarrow> string"
  kev_decimal :: "js_number \<Rightarrow> js_number option"
  kev_crypto :: crypto
  kev_registry :: registry
  kev_timeout :: "string \<Rightarrow> bool"

primrec zoom ::
  "('i \<Rightarrow> 'j) \<Rightarrow> ('s \<Rightarrow> 't) \<Rightarrow> ('t \<Rightarrow> 's \<Rightarrow> 's) \<Rightarrow> ('e \<Rightarrow> 'f) \<Rightarrow> ('j, 't, 'e, 'a) prog \<Rightarrow> ('i, 's, 'f, 'a) prog" where
  "zoom inp view back err (Ret r) = Ret (map_sum err id r)"
| "zoom inp view back err (Act k) =
     Act (\<lambda>i s. map_prod (zoom inp view back err) (\<lambda>t. back t s) (k (inp i) (view s)))"

definition policy_view :: "case_db \<Rightarrow> policy_db" where
  "policy_view db = (cas_policy db)\<lparr>pol_cases := map LoanCase.truncate (cas_cases db)\<rparr>"

definition on_policy :: "'a policy_prog \<Rightarrow> 'a case_prog" where
  "on_policy = zoom (\<lambda>i. \<lparr>inp_now = kin_now i, inp_id = kin_ids i 0\<rparr>) policy_view (\<lambda>p db. db\<lparr>cas_policy := p\<rparr>) PolicyFailure"

definition comm_view :: "case_db \<Rightarrow> comm_db" where
  "comm_view db = (cas_comms db)\<lparr>com_outbox := cas_outbox db\<rparr>"

definition comm_back :: "comm_db \<Rightarrow> case_db \<Rightarrow> case_db" where
  "comm_back c db = db\<lparr>cas_comms := c\<lparr>com_outbox := []\<rparr>, cas_outbox := com_outbox c\<rparr>"

definition on_comms :: "'a comm_prog \<Rightarrow> 'a case_prog" where
  "on_comms =
     zoom (\<lambda>i. \<lparr>cin_now = kin_now i, cin_id = kin_ids i 0, cin_eventId = kin_ids i 1, cin_stored = kin_stored i\<rparr>)
       comm_view comm_back CommFailure"

definition clock_of :: "case_input \<Rightarrow> clock" where
  "clock_of i = \<lparr>db_now = kin_db_now i, js_now = kin_now i\<rparr>"

definition on_budget :: "(case_input \<Rightarrow> (budget_db, budget_error, 'a) proc) \<Rightarrow> 'a case_prog" where
  "on_budget p =
     act (\<lambda>i db. case p i (cas_budget db) of (r, b) \<Rightarrow> (map_sum BudgetFailure id r, db\<lparr>cas_budget := b\<rparr>))"

definition on_platform :: "(case_input \<Rightarrow> (platform_db, platform_error, 'a) proc) \<Rightarrow> 'a case_prog" where
  "on_platform p =
     act (\<lambda>i db. case p i (cas_platform db) of (r, b) \<Rightarrow> (map_sum PlatformFailure id r, db\<lparr>cas_platform := b\<rparr>))"

section \<open>Outbox events\<close>

datatype OutboxEventType =
    LoanCaseCreated | WorkflowRunStarted | WorkflowRunWaitingForReview | WorkflowRunCompleted | WorkflowRunFailed
  | WorkflowRunCancelled | WorkflowRunRecoveryStarted | EvidenceUpdated | ConditionOpened | ConditionSatisfied
  | ConditionWaived | EvaluationInterrupted | CaseEscalated | CommunicationDelivered

fun event_text :: "OutboxEventType \<Rightarrow> string" where
  "event_text LoanCaseCreated = ''loan_case.created''"
| "event_text WorkflowRunStarted = ''workflow_run.started''"
| "event_text WorkflowRunWaitingForReview = ''workflow_run.waiting_for_review''"
| "event_text WorkflowRunCompleted = ''workflow_run.completed''"
| "event_text WorkflowRunFailed = ''workflow_run.failed''"
| "event_text WorkflowRunCancelled = ''workflow_run.cancelled''"
| "event_text WorkflowRunRecoveryStarted = ''workflow_run.recovery_started''"
| "event_text EvidenceUpdated = ''evidence.updated''"
| "event_text ConditionOpened = ''condition.opened''"
| "event_text ConditionSatisfied = ''condition.satisfied''"
| "event_text ConditionWaived = ''condition.waived''"
| "event_text EvaluationInterrupted = ''evaluation.interrupted''"
| "event_text CaseEscalated = ''case.escalated''"
| "event_text CommunicationDelivered = ''communication.delivered''"

definition case_event :: "uuid \<Rightarrow> uuid \<Rightarrow> OutboxEventType \<Rightarrow> (string \<times> json) list \<Rightarrow> OutboxEventInput" where
  "case_event tenantId caseId kind payload =
     \<lparr>obi_tenantId = tenantId, obi_caseId = caseId, obi_eventType = event_text kind, obi_payload = JObj payload\<rparr>"

text \<open>\<open>writeOutboxEvent\<close> with the \<open>k\<close>-th generated id of the step.\<close>

definition put_event ::
  "case_env \<Rightarrow> case_input \<Rightarrow> nat \<Rightarrow> OutboxEventInput \<Rightarrow> (case_db, case_error, unit) txn" where
  "put_event env i k inp db =
     (if kin_ids i k \<in> obx_id ` set (cas_outbox db) then Inl CaseUniqueViolation
      else Inr ((), db\<lparr>cas_outbox := cas_outbox db @
        [outbox_event (cme_web (kev_comm env)) (cme_outboxSecret (kev_comm env)) inp (kin_ids i k) (kin_now i)]\<rparr>))"

section \<open>Cases\<close>

definition case_status_text :: "CaseStatus \<Rightarrow> string" where
  "case_status_text st =
     (case st of
        CASE_DRAFT \<Rightarrow> ''DRAFT'' | COLLECTING_EVIDENCE \<Rightarrow> ''COLLECTING_EVIDENCE'' | CONDITIONS_OPEN \<Rightarrow> ''CONDITIONS_OPEN''
      | WAITING_FOR_INFORMATION \<Rightarrow> ''WAITING_FOR_INFORMATION'' | WAITING_FOR_REVIEW \<Rightarrow> ''WAITING_FOR_REVIEW''
      | READY_FOR_UNDERWRITING \<Rightarrow> ''READY_FOR_UNDERWRITING'' | MANUAL_REVIEW \<Rightarrow> ''MANUAL_REVIEW'' | CASE_CLOSED \<Rightarrow> ''CLOSED'')"

definition find_case :: "case_db \<Rightarrow> uuid \<Rightarrow> uuid \<Rightarrow> CaseRow option" where
  "find_case db tenantId caseId = List.find (\<lambda>c. lc_id c = caseId \<and> lc_tenantId c = tenantId) (cas_cases db)"

definition case_or_fail :: "uuid \<Rightarrow> uuid \<Rightarrow> CaseRow case_prog" where
  "case_or_fail tenantId caseId = act (\<lambda>_ db. (or_throw (find_case db tenantId caseId) (RowNotFound ''LoanCase''), db))"

definition is_case :: "uuid \<Rightarrow> uuid \<Rightarrow> CaseRow \<Rightarrow> bool" where
  "is_case tenantId caseId c \<longleftrightarrow> lc_id c = caseId \<and> lc_tenantId c = tenantId"

definition with_status :: "case_input \<Rightarrow> CaseStatus \<Rightarrow> CaseRow \<Rightarrow> CaseRow" where
  "with_status i st c = c\<lparr>lc_status := st, lc_version := lc_version c + 1, lc_updatedAt := kin_db_now i\<rparr>"

definition set_cases :: "(CaseRow \<Rightarrow> bool) \<Rightarrow> case_input \<Rightarrow> CaseStatus \<Rightarrow> case_db \<Rightarrow> case_db" where
  "set_cases P i st db = db\<lparr>cas_cases := update_where P (with_status i st) (cas_cases db)\<rparr>"

end
