(* ===== verification/Agent_Tools.thy ===== *)
theory Agent_Tools
  imports Case_Records
begin

text \<open>
  The agent's tools, \<open>src/src/agent-runtime/agent-tool.types.ts\<close> and \<open>tools/\<close>, the
  planner model of \<open>agent-planner.ts\<close>, the review triggers of
  \<open>mandatory-review-triggers.ts\<close> and the manifests of
  \<open>src/src/policy/evaluation-manifest.service.ts\<close>.

  The arguments and results of tools are sums over the tools; a tool that gets arguments of
  another one throws.
\<close>

section \<open>Review triggers\<close>

datatype MandatoryReviewRoute = INTERRUPT_FOR_REVIEW | ROUTE_TO_MANUAL_REVIEW

record MandatoryReviewTrigger =
  trg_category :: MandatoryReviewCategory
  trg_route :: MandatoryReviewRoute
  trg_reason :: string

fun CATEGORY_ROUTES :: "MandatoryReviewCategory \<Rightarrow> MandatoryReviewRoute" where
  "CATEGORY_ROUTES POLICY_AMBIGUITY = INTERRUPT_FOR_REVIEW"
| "CATEGORY_ROUTES CONSENT_INVALID = ROUTE_TO_MANUAL_REVIEW"
| "CATEGORY_ROUTES BUDGET_OR_DEADLINE_EXHAUSTED = ROUTE_TO_MANUAL_REVIEW"
| "CATEGORY_ROUTES TOOL_EXECUTION_FAILURE = ROUTE_TO_MANUAL_REVIEW"
| "CATEGORY_ROUTES MODEL_OUTPUT_INVALID = ROUTE_TO_MANUAL_REVIEW"
| "CATEGORY_ROUTES MODEL_UNCERTAINTY = INTERRUPT_FOR_REVIEW"

fun category_text :: "MandatoryReviewCategory \<Rightarrow> string" where
  "category_text CONSENT_INVALID = ''CONSENT_INVALID''"
| "category_text BUDGET_OR_DEADLINE_EXHAUSTED = ''BUDGET_OR_DEADLINE_EXHAUSTED''"
| "category_text POLICY_AMBIGUITY = ''POLICY_AMBIGUITY''"
| "category_text TOOL_EXECUTION_FAILURE = ''TOOL_EXECUTION_FAILURE''"
| "category_text MODEL_OUTPUT_INVALID = ''MODEL_OUTPUT_INVALID''"
| "category_text MODEL_UNCERTAINTY = ''MODEL_UNCERTAINTY''"

definition classifyMandatoryReviewTrigger :: "MandatoryReviewCategory \<Rightarrow> string \<Rightarrow> MandatoryReviewTrigger" where
  "classifyMandatoryReviewTrigger category detail =
     \<lparr>trg_category = category, trg_route = CATEGORY_ROUTES category,
      trg_reason = ''['' @ category_text category @ ''] '' @ detail\<rparr>"

section \<open>Arguments and results\<close>

record EvaluatePolicyArgs =
  epa_jurisdictionCode :: string
  epa_productCode :: string
  epa_lifecycleEvent :: string
  epa_applicationReceivedAt :: timestamp

record matched_version =
  mtv_policyVersionId :: uuid
  mtv_ruleId :: string
  mtv_version :: string
  mtv_rule :: PolicyRuleDocument

record EvaluatePolicyResult =
  epr_outcome :: PolicyEvaluationOutcome
  epr_status :: PolicyResolutionStatus
  epr_policySnapshotId :: uuid
  epr_policyBindingId :: "uuid option"
  epr_observedPolicyDependencyDigest :: "string option"
  epr_matchedVersions :: "matched_version list"
  epr_unresolvedReasons :: "string list"

record CreateConditionArgs =
  cca_code :: string
  cca_description :: string
  cca_policyVersionId :: uuid
  cca_ruleId :: string
  cca_policySnapshotId :: uuid
  cca_expectedCaseVersion :: int
  cca_evaluationManifestId :: "uuid option"

datatype tool_args =
    NoArgs
  | ForEvaluatePolicy EvaluatePolicyArgs
  | ForCreateCondition CreateConditionArgs
  | ForDraft DraftCommunicationInput
  | ForSend uuid
  | ForEscalate string int \<comment> \<open>reason, expected case version\<close>
  | ForImpact uuid

datatype tool_result =
    Completeness bool "ProviderCapability list"
  | PolicyEvaluated EvaluatePolicyResult
  | ConditionCreated uuid
  | ConditionStale
  | MessageDrafted uuid CommunicationClassification "string list"
  | MessageSent DeliverCommunicationResult
  | CaseEscalatedResult
  | EscalationStale
  | EscalationInvalidStatus CaseStatus
  | ImpactAssessed "PolicyChangeImpactAssessment option"

record AgentToolContext =
  atc_tenantId :: uuid
  atc_caseId :: uuid
  atc_budgetReservationId :: "uuid option"

datatype ToolSideEffect =
    SE_NONE | SE_DOCUMENT_PROCESSING | SE_PROVIDER_SUBMISSION | SE_VERSIONED_CALCULATION | SE_CASE_MUTATION
  | SE_CREATES_ASSESSMENT | SE_WORKFLOW_TRANSITION | SE_EXTERNAL_COMMUNICATION

record AgentToolBudget =
  atb_tokenUnits :: js_number
  atb_providerCallUnits :: js_number
  atb_costMinorUnits :: js_number

record AgentTool =
  tool_name :: string
  tool_sideEffect :: ToolSideEffect
  tool_budget :: AgentToolBudget
  tool_excludedCommandClass :: "string option"
  tool_execute :: "AgentToolContext \<Rightarrow> tool_args \<Rightarrow> tool_result case_prog"

definition no_cost :: AgentToolBudget where
  "no_cost = \<lparr>atb_tokenUnits = js_int 0, atb_providerCallUnits = js_int 0, atb_costMinorUnits = js_int 0\<rparr>"

definition wrong_args :: "tool_result case_prog" where
  "wrong_args = pthrow (PlainError ''TypeError'')"

section \<open>The registry\<close>

type_synonym tool_registry = "(string \<times> AgentTool) list"

text \<open>One round of the loop of \<open>buildToolRegistry\<close>.\<close>

definition invalid_units :: "js_number \<Rightarrow> bool" where
  "invalid_units n = (case safe_integer n of None \<Rightarrow> True | Some k \<Rightarrow> k < 0)"

definition add_tool :: "AgentTool \<Rightarrow> tool_registry \<Rightarrow> case_error + tool_registry" where
  "add_tool t reg =
     (if map_of reg (tool_name t) \<noteq> None then Inl (InvalidToolSet (''duplicate tool registration: '' @ quoted (tool_name t)))
      else case assertNotStructurallyExcluded ''agent_tool'' (tool_name t) (tool_excludedCommandClass t) of
             Inl e \<Rightarrow> Inl (PlatformFailure e)
           | Inr _ \<Rightarrow>
               (case List.find (\<lambda>(d, v). invalid_units v)
                       [(''tokenUnits'', atb_tokenUnits (tool_budget t)),
                        (''providerCallUnits'', atb_providerCallUnits (tool_budget t)),
                        (''costMinorUnits'', atb_costMinorUnits (tool_budget t))] of
                  Some (d, _) \<Rightarrow> Inl (InvalidToolSet (''tool '' @ quoted (tool_name t) @ '' has an invalid '' @ d @ '' budget''))
                | None \<Rightarrow> Inr (reg @ [(tool_name t, t)])))"

fun build_from :: "AgentTool list \<Rightarrow> tool_registry \<Rightarrow> case_error + tool_registry" where
  "build_from [] reg = Inr reg"
| "build_from (t # ts) reg = and_then (add_tool t reg) (build_from ts)"

definition buildToolRegistry :: "AgentTool list \<Rightarrow> case_error + tool_registry" where
  "buildToolRegistry ts = build_from ts []"

datatype ToolInvocationResult = ToolSuccess tool_result | ToolFailure string

definition invokeTool ::
  "case_env \<Rightarrow> tool_registry \<Rightarrow> string \<Rightarrow> AgentToolContext \<Rightarrow> tool_args \<Rightarrow> ToolInvocationResult case_prog" where
  "invokeTool env tools toolName ctx args =
     (case map_of tools toolName of
        None \<Rightarrow> preturn (ToolFailure (''unregistered tool '' @ quoted toolName))
      | Some t \<Rightarrow>
          pcatch (pbind (tool_execute t ctx args) (\<lambda>r. preturn (ToolSuccess r)))
            (\<lambda>e. preturn (ToolFailure (kev_message env e))))"

section \<open>Completeness\<close>

definition REQUIRED_FACT_TYPES :: "ProviderCapability list" where
  "REQUIRED_FACT_TYPES = [INCOME, CREDIT, DOCUMENT]"

definition case_facts :: "case_db \<Rightarrow> uuid \<Rightarrow> uuid \<Rightarrow> EvidenceFact list" where
  "case_facts db tenantId caseId =
     filter (\<lambda>f. ev_tenantId f = tenantId \<and> ev_caseId f = caseId) (evidence (cas_platform db))"

definition missing_facts :: "case_db \<Rightarrow> uuid \<Rightarrow> uuid \<Rightarrow> ProviderCapability list" where
  "missing_facts db tenantId caseId =
     filter (\<lambda>t. t \<notin> ev_factType ` set (case_facts db tenantId caseId)) REQUIRED_FACT_TYPES"

definition checkCaseCompletenessTool :: AgentTool where
  "checkCaseCompletenessTool =
     \<lparr>tool_name = ''check_case_completeness'', tool_sideEffect = SE_NONE, tool_budget = no_cost,
      tool_excludedCommandClass = None,
      tool_execute = (\<lambda>ctx _. query (\<lambda>_ db.
        let m = missing_facts db (atc_tenantId ctx) (atc_caseId ctx) in Completeness (m = []) m))\<rparr>"

section \<open>Policy evaluation\<close>

text \<open>
  The versions of the evaluation. A snapshot whose dates no longer parse gives the same
  versions with invalid dates, which nothing here reads.
\<close>

definition evaluation_versions :: "PolicyEvaluationResult \<Rightarrow> matched_version list" where
  "evaluation_versions ev =
     (case per_resolution ev of
        Some r \<Rightarrow> map (\<lambda>v. \<lparr>mtv_policyVersionId = rv_policyVersionId v, mtv_ruleId = rv_ruleId v,
                             mtv_version = rv_version v, mtv_rule = rv_rule v\<rparr>) (res_versions r)
      | None \<Rightarrow> map (\<lambda>v. \<lparr>mtv_policyVersionId = sv_policyVersionId v, mtv_ruleId = sv_ruleId v,
                          mtv_version = sv_version v, mtv_rule = sv_rule v\<rparr>) (snp_versions (per_snapshot ev)))"

definition evaluatePolicyTool :: "case_env \<Rightarrow> AgentTool" where
  "evaluatePolicyTool env =
     \<lparr>tool_name = ''evaluate_policy'', tool_sideEffect = SE_CREATES_ASSESSMENT, tool_budget = no_cost,
      tool_excludedCommandClass = None,
      tool_execute = (\<lambda>ctx args. case args of
        ForEvaluatePolicy a \<Rightarrow>
          pbind (query (\<lambda>i _. kin_now i)) (\<lambda>asOf.
          pbind (on_policy (evaluateInternal (kev_date_parse env) (kev_sha256 env) (atc_tenantId ctx) (atc_caseId ctx)
                  \<lparr>ctx_jurisdictionCode = epa_jurisdictionCode a, ctx_productCode = epa_productCode a,
                   ctx_lifecycleEvent = epa_lifecycleEvent a, ctx_asOf = asOf,
                   ctx_applicationReceivedAt = Some (epa_applicationReceivedAt a)\<rparr>)) (\<lambda>ev.
            preturn (PolicyEvaluated
              \<lparr>epr_outcome = per_outcome ev,
               epr_status = (case per_resolution ev of Some r \<Rightarrow> PolicyResolutionResult.res_status r
                             | None \<Rightarrow> snp_resolutionStatus (per_snapshot ev)),
               epr_policySnapshotId = snp_id (per_snapshot ev),
               epr_policyBindingId = map_option bnd_id (per_binding ev),
               epr_observedPolicyDependencyDigest = map_option bnd_dependencyDigest (per_binding ev),
               epr_matchedVersions = evaluation_versions ev,
               epr_unresolvedReasons = (case per_resolution ev of Some r \<Rightarrow> res_unresolvedReasons r
                                        | None \<Rightarrow> snp_unresolvedReasons (per_snapshot ev))\<rparr>)))
      | _ \<Rightarrow> wrong_args)\<rparr>"

section \<open>Conditions\<close>

definition new_condition :: "case_input \<Rightarrow> uuid \<Rightarrow> uuid \<Rightarrow> CreateConditionArgs \<Rightarrow> LoanCondition" where
  "new_condition i tenantId caseId a =
     \<lparr>cnd_id = kin_ids i 0, cnd_tenantId = tenantId, cnd_caseId = caseId, cnd_code = cca_code a,
      cnd_description = cca_description a, cnd_status = COND_OPEN,
      cnd_policySnapshotId = Some (cca_policySnapshotId a), cnd_evaluationManifestId = cca_evaluationManifestId a,
      cnd_version = 1, cnd_createdAt = kin_db_now i\<rparr>"

definition insert_condition :: "LoanCondition \<Rightarrow> (case_db, case_error, unit) txn" where
  "insert_condition c db =
     (if cnd_id c \<in> cnd_id ` set (cas_conditions db) then Inl CaseUniqueViolation
      else Inr ((), db\<lparr>cas_conditions := cas_conditions db @ [c]\<rparr>))"

text \<open>
  One transaction. With \<open>kin_raced\<close> another one changed the case between the read of its
  version and the guarded UPDATE, which then matches no row.
\<close>

definition create_condition_txn ::
  "case_env \<Rightarrow> case_input \<Rightarrow> uuid \<Rightarrow> uuid \<Rightarrow> CreateConditionArgs \<Rightarrow> (case_db, case_error, tool_result) txn" where
  "create_condition_txn env i tenantId caseId a db =
     and_then (or_throw (find_case db tenantId caseId) (RowNotFound ''LoanCase'')) (\<lambda>c.
       if lc_version c \<noteq> cca_expectedCaseVersion a then Inr (ConditionStale, db)
       else if kin_raced i then Inl (StaleCaseVersionError caseId (cca_expectedCaseVersion a))
       else
         and_then (insert_condition (new_condition i tenantId caseId a) db) (\<lambda>(_, db1).
         let db2 = set_cases (\<lambda>x. is_case tenantId caseId x \<and> lc_version x = cca_expectedCaseVersion a) i CONDITIONS_OPEN db1
         in and_then (put_event env i 1 (case_event tenantId caseId ConditionOpened
              [(''caseId'', JStr caseId), (''conditionId'', JStr (kin_ids i 0)), (''code'', JStr (cca_code a)),
               (''policyVersionId'', JStr (cca_policyVersionId a)), (''ruleId'', JStr (cca_ruleId a)),
               (''policySnapshotId'', JStr (cca_policySnapshotId a))]) db2) (\<lambda>(_, db3).
            and_then (put_event env i 2 (case_event tenantId caseId WorkflowRunWaitingForReview
              [(''caseId'', JStr caseId), (''conditionId'', JStr (kin_ids i 0))]) db3) (\<lambda>(_, db4).
              Inr (ConditionCreated (kin_ids i 0), db4)))))"

definition createConditionTool :: "case_env \<Rightarrow> AgentTool" where
  "createConditionTool env =
     \<lparr>tool_name = ''create_condition'', tool_sideEffect = SE_CASE_MUTATION, tool_budget = no_cost,
      tool_excludedCommandClass = None,
      tool_execute = (\<lambda>ctx args. case args of
        ForCreateCondition a \<Rightarrow>
          act (\<lambda>i. run_txn (create_condition_txn env i (atc_tenantId ctx) (atc_caseId ctx) a))
      | _ \<Rightarrow> wrong_args)\<rparr>"

section \<open>Messages\<close>

definition draftInformationRequestTool :: "case_env \<Rightarrow> AgentTool" where
  "draftInformationRequestTool env =
     \<lparr>tool_name = ''draft_information_request'', tool_sideEffect = SE_CASE_MUTATION, tool_budget = no_cost,
      tool_excludedCommandClass = None,
      tool_execute = (\<lambda>ctx args. case args of
        ForDraft inp \<Rightarrow>
          pbind (on_comms (draft_message (kev_comm env) (atc_tenantId ctx) (atc_caseId ctx) inp)) (\<lambda>m.
            preturn (MessageDrafted (msg_id m) (msg_classification m) (msg_classificationReasons m)))
      | _ \<Rightarrow> wrong_args)\<rparr>"

definition sendInformationRequestTool :: "case_env \<Rightarrow> AgentTool" where
  "sendInformationRequestTool env =
     \<lparr>tool_name = ''send_information_request'', tool_sideEffect = SE_EXTERNAL_COMMUNICATION, tool_budget = no_cost,
      tool_excludedCommandClass = None,
      tool_execute = (\<lambda>ctx args. case args of
        ForSend mid \<Rightarrow>
          pbind (on_comms (deliver (kev_comm env) (atc_tenantId ctx) mid)) (\<lambda>r. preturn (MessageSent r))
      | _ \<Rightarrow> wrong_args)\<rparr>"

section \<open>Escalation and change impact\<close>

definition ESCALATABLE_STATUSES :: "CaseStatus list" where
  "ESCALATABLE_STATUSES = [CASE_DRAFT, COLLECTING_EVIDENCE, CONDITIONS_OPEN, WAITING_FOR_INFORMATION]"

definition escalate_txn ::
  "case_env \<Rightarrow> case_input \<Rightarrow> uuid \<Rightarrow> uuid \<Rightarrow> string \<Rightarrow> int \<Rightarrow> (case_db, case_error, tool_result) txn" where
  "escalate_txn env i tenantId caseId reason expected db =
     (let P = (\<lambda>c. is_case tenantId caseId c \<and> lc_version c = expected \<and> lc_status c \<in> set ESCALATABLE_STATUSES)
      in if affected P (cas_cases db) = 0
         then (case find_case db tenantId caseId of
                 None \<Rightarrow> Inl (PlainError (''case '' @ caseId @ '' not found''))
               | Some c \<Rightarrow> if lc_version c \<noteq> expected then Inr (EscalationStale, db)
                           else Inr (EscalationInvalidStatus (lc_status c), db))
         else and_then (put_event env i 0 (case_event tenantId caseId CaseEscalated
                [(''caseId'', JStr caseId), (''reason'', JStr reason)]) (set_cases P i WAITING_FOR_REVIEW db))
              (\<lambda>(_, db'). Inr (CaseEscalatedResult, db')))"

definition escalateToReviewerTool :: "case_env \<Rightarrow> AgentTool" where
  "escalateToReviewerTool env =
     \<lparr>tool_name = ''escalate_to_reviewer'', tool_sideEffect = SE_WORKFLOW_TRANSITION, tool_budget = no_cost,
      tool_excludedCommandClass = None,
      tool_execute = (\<lambda>ctx args. case args of
        ForEscalate reason expected \<Rightarrow>
          act (\<lambda>i. run_txn (escalate_txn env i (atc_tenantId ctx) (atc_caseId ctx) reason expected))
      | _ \<Rightarrow> wrong_args)\<rparr>"

definition checkPolicyChangeImpactTool :: "case_env \<Rightarrow> AgentTool" where
  "checkPolicyChangeImpactTool env =
     \<lparr>tool_name = ''check_policy_change_impact'', tool_sideEffect = SE_CREATES_ASSESSMENT, tool_budget = no_cost,
      tool_excludedCommandClass = None,
      tool_execute = (\<lambda>ctx args. case args of
        ForImpact vid \<Rightarrow>
          pbind (on_policy (assessImpactForCase (kev_date_parse env) (atc_tenantId ctx) (atc_caseId ctx) vid)) (\<lambda>r.
            preturn (ImpactAssessed r))
      | _ \<Rightarrow> wrong_args)\<rparr>"

section \<open>Manifests\<close>

record AssembleManifestInput =
  asm_tenantId :: uuid
  asm_caseId :: uuid
  asm_caseVersion :: int
  asm_policyBindingId :: uuid
  asm_observedPolicyDependencyDigest :: string
  asm_evaluatorVersion :: string
  asm_evidence :: "EvidenceFact list"
  asm_modelAndPromptManifestId :: "string option"

definition evidence_ref :: "case_env \<Rightarrow> EvidenceFact \<Rightarrow> EvaluationManifestEvidenceRef" where
  "evidence_ref env f =
     \<lparr>mer_evidenceId = ev_id f, mer_version = ev_version f,
      mer_contentHash = computeDigest (kev_sha256 env) (ev_value f),
      mer_validThrough = map_option toISOString (ev_validThrough f)\<rparr>"

definition or_null :: "string option \<Rightarrow> json" where
  "or_null x = (case x of None \<Rightarrow> JNull | Some s \<Rightarrow> JStr s)"

definition ref_json :: "EvaluationManifestEvidenceRef \<Rightarrow> json" where
  "ref_json r =
     JObj [(''evidenceId'', JStr (mer_evidenceId r)), (''version'', JNum (js_int (mer_version r))),
           (''contentHash'', JStr (mer_contentHash r)), (''validThrough'', or_null (mer_validThrough r))]"

definition manifest_json :: "AssembleManifestInput \<Rightarrow> EvaluationManifestEvidenceRef list \<Rightarrow> json" where
  "manifest_json a refs =
     JObj [(''tenantId'', JStr (asm_tenantId a)), (''caseId'', JStr (asm_caseId a)),
           (''caseVersion'', JNum (js_int (asm_caseVersion a))), (''authorizationDecisionId'', JNull),
           (''consentVersionRefs'', JArr []), (''evidenceRefs'', JArr (map ref_json refs)),
           (''calculationRefs'', JArr []), (''policyBindingId'', JStr (asm_policyBindingId a)),
           (''observedPolicyDependencyDigest'', JStr (asm_observedPolicyDependencyDigest a)),
           (''evaluatorVersion'', JStr (asm_evaluatorVersion a)),
           (''modelAndPromptManifestId'', or_null (asm_modelAndPromptManifestId a))]"

definition new_manifest :: "case_env \<Rightarrow> uuid \<Rightarrow> AssembleManifestInput \<Rightarrow> EvaluationInputManifest" where
  "new_manifest env newId a =
     (let refs = map (evidence_ref env) (asm_evidence a)
      in \<lparr>eim_id = newId, eim_tenantId = asm_tenantId a, eim_caseId = asm_caseId a,
          eim_caseVersion = asm_caseVersion a, eim_evidenceRefs = refs, eim_policyBindingId = asm_policyBindingId a,
          eim_observedPolicyDependencyDigest = asm_observedPolicyDependencyDigest a,
          eim_evaluatorVersion = asm_evaluatorVersion a,
          eim_modelAndPromptManifestId = asm_modelAndPromptManifestId a,
          eim_manifestHash = computeDigest (kev_sha256 env) (manifest_json a refs)\<rparr>)"

definition assemble :: "case_env \<Rightarrow> AssembleManifestInput \<Rightarrow> EvaluationInputManifest case_prog" where
  "assemble env a =
     act (\<lambda>i. run_txn (\<lambda>db.
       let m = new_manifest env (kin_ids i 0) a
       in if eim_id m \<in> eim_id ` set (cas_manifests db) then Inl CaseUniqueViolation
          else Inr (m, db\<lparr>cas_manifests := cas_manifests db @ [m]\<rparr>)))"

section \<open>The planner\<close>

record AgentPlannerResult =
  apr_nextAction :: AgentPlannerAction
  apr_reasonCode :: AgentPlannerReason
  apr_confidence :: js_number
  apr_modelVersion :: string
  apr_promptVersion :: string
  apr_requestDigest :: string
  apr_responseDigest :: string
  apr_accountedTokenUnits :: int

definition action_text :: "AgentPlannerAction \<Rightarrow> string" where
  "action_text a = (case a of EVALUATE_POLICY \<Rightarrow> ''EVALUATE_POLICY'' | REQUEST_HUMAN_REVIEW \<Rightarrow> ''REQUEST_HUMAN_REVIEW'')"

definition reason_text :: "AgentPlannerReason \<Rightarrow> string" where
  "reason_text r =
     (case r of POLICY_EVALUATION_REQUIRED \<Rightarrow> ''POLICY_EVALUATION_REQUIRED'' | HUMAN_REVIEW_REQUIRED \<Rightarrow> ''HUMAN_REVIEW_REQUIRED'')"

definition expected_reason :: "AgentPlannerAction \<Rightarrow> AgentPlannerReason" where
  "expected_reason a = (case a of EVALUATE_POLICY \<Rightarrow> POLICY_EVALUATION_REQUIRED | REQUEST_HUMAN_REVIEW \<Rightarrow> HUMAN_REVIEW_REQUIRED)"

definition action_of :: "json option \<Rightarrow> AgentPlannerAction option" where
  "action_of v =
     (case v of
        Some (JStr s) \<Rightarrow> if s = ''EVALUATE_POLICY'' then Some EVALUATE_POLICY
                        else if s = ''REQUEST_HUMAN_REVIEW'' then Some REQUEST_HUMAN_REVIEW else None
      | _ \<Rightarrow> None)"

definition reason_of :: "json option \<Rightarrow> AgentPlannerReason option" where
  "reason_of v =
     (case v of
        Some (JStr s) \<Rightarrow> if s = ''POLICY_EVALUATION_REQUIRED'' then Some POLICY_EVALUATION_REQUIRED
                        else if s = ''HUMAN_REVIEW_REQUIRED'' then Some HUMAN_REVIEW_REQUIRED else None
      | _ \<Rightarrow> None)"

text \<open>The strict schema: exactly the three members, in range, and the reason of the action.\<close>

definition plannerResponseSchema :: "json \<Rightarrow> (AgentPlannerAction \<times> AgentPlannerReason \<times> rat) option" where
  "plannerResponseSchema v =
     (case v of
        JObj ms \<Rightarrow>
          if \<not> fst ` set ms \<subseteq> {''nextAction'', ''reasonCode'', ''confidence''} then None
          else (case (action_of (map_of ms ''nextAction''), reason_of (map_of ms ''reasonCode''), map_of ms ''confidence'') of
                  (Some a, Some r, Some (JNum (Num q))) \<Rightarrow>
                    if 0 \<le> q \<and> q \<le> 1 \<and> r = expected_reason a then Some (a, r, q) else None
                | _ \<Rightarrow> None)
      | _ \<Rightarrow> None)"

definition AGENT_PLANNER_PROMPT_VERSION :: string where
  "AGENT_PLANNER_PROMPT_VERSION = ''lending-operations-planner-v1''"

definition planner_request :: "AgentPlannerAction list \<Rightarrow> json" where
  "planner_request available =
     JObj [(''promptVersion'', JStr AGENT_PLANNER_PROMPT_VERSION),
           (''controlState'', JObj [(''consentValid'', JBool True), (''evidenceComplete'', JBool True),
              (''availableActions'', JArr (map (\<lambda>a. JStr (action_text a)) available))])]"

definition message_content :: "json \<Rightarrow> json option" where
  "message_content payload = (case member_of payload ''message'' of None \<Rightarrow> None | Some m \<Rightarrow> member_of m ''content'')"

definition malformed :: "string \<Rightarrow> case_error + 'a" where
  "malformed detail = Inl (AgentPlannerError MALFORMED_OUTPUT (''local Agent planner '' @ detail))"

definition plan :: "case_env \<Rightarrow> planner_config \<Rightarrow> AgentPlannerAction list \<Rightarrow> planner_reply \<Rightarrow> case_error + AgentPlannerResult" where
  "plan env p available reply =
     (case reply of
        FetchAborted \<Rightarrow> Inl (AgentPlannerError PLANNER_TIMEOUT ''local Agent planner timed out'')
      | FetchFailed \<Rightarrow> Inl (AgentPlannerError UNAVAILABLE ''local Agent planner is unavailable'')
      | HttpError n \<Rightarrow> Inl (AgentPlannerError PROVIDER_ERROR (''local Agent planner returned HTTP '' @ nat_text n))
      | BodyNotJson \<Rightarrow> malformed ''response was not JSON''
      | Body payload \<Rightarrow>
          (case message_content payload of
             Some (JStr content) \<Rightarrow>
               (case Option.bind (kev_lex env content) parse of
                  None \<Rightarrow> malformed ''content was not valid JSON''
                | Some candidate \<Rightarrow>
                    (case plannerResponseSchema candidate of
                       None \<Rightarrow> malformed ''returned an invalid or unavailable action''
                     | Some (a, r, q) \<Rightarrow>
                         if a \<notin> set available then malformed ''returned an invalid or unavailable action''
                         else Inr \<lparr>apr_nextAction = a, apr_reasonCode = r, apr_confidence = Num q,
                                   apr_modelVersion = plc_modelVersion p, apr_promptVersion = AGENT_PLANNER_PROMPT_VERSION,
                                   apr_requestDigest = kev_sha256 env (stringify (planner_request available)),
                                   apr_responseDigest = kev_sha256 env (stringify (JObj
                                     [(''nextAction'', JStr (action_text a)), (''reasonCode'', JStr (reason_text r)),
                                      (''confidence'', JNum (Num q))])),
                                   apr_accountedTokenUnits = plc_tokenBudgetUnits p\<rparr>))
           | _ \<Rightarrow> malformed ''returned no message content''))"

end
