(* ===== verification/Agent_Run.thy ===== *)
theory Agent_Run
  imports Agent_Tools
begin

text \<open>
  The bounded agent run, \<open>src/src/agent-runtime/langgraph/lending-operations-agent-runtime.ts\<close>:
  the state of \<open>agent-state.types.ts\<close>, the only path to a tool (reserve, invoke, commit), the
  five nodes and the graph that connects them, and the record of the run.

  Every reading of the clock is a step of its own. Times are timestamps where the source
  passes their ISO text on. The three summaries of the state that stay empty are left out,
  and so is telemetry.
\<close>

section \<open>State\<close>

record ToolAttemptSummary =
  tas_toolName :: string
  tas_attemptedAt :: timestamp
  tas_outcome :: ToolAttemptOutcome
  tas_detail :: "string option"

record AgentAction =
  aac_tool :: string
  aac_arguments :: "(string \<times> json) list"

record HumanReviewState =
  hrs_requested :: bool
  hrs_reason :: "string option"
  hrs_category :: "MandatoryReviewCategory option"

record LendingOperationsAgentState =
  st_tenantId :: uuid
  st_caseId :: uuid
  st_caseVersion :: int
  st_workflowRunId :: string
  st_workflowStatus :: CaseStatus
  st_consentStatus :: ConsentStatus
  st_attemptedTools :: "ToolAttemptSummary list"
  st_policyBindingId :: "uuid option"
  st_modelVersion :: "string option"
  st_promptVersion :: "string option"
  st_modelAndPromptManifestId :: "uuid option"
  st_remainingStepBudget :: int
  st_remainingDurationBudgetMs :: int
  st_remainingTokenBudget :: int
  st_remainingProviderCallBudget :: int
  st_budgetCurrency :: string
  st_remainingCostBudgetMinorUnits :: int
  st_budgetLedgerId :: "uuid option"
  st_budgetLedgerVersion :: int
  st_runStartedAt :: timestamp
  st_runDeadlineAt :: timestamp
  st_proposedAction :: "AgentAction option"
  st_reviewState :: "HumanReviewState option"

record AgentRunBudget =
  arb_stepBudget :: int
  arb_durationBudgetMs :: int
  arb_tokenBudget :: int
  arb_providerCallBudget :: int
  arb_costBudgetMinorUnits :: int
  arb_currency :: string

record AgentRunInput =
  ari_initialState :: LendingOperationsAgentState
  ari_allowedTools :: "string list"
  ari_budget :: AgentRunBudget
  ari_runDeadlineAt :: timestamp

record AgentRunResult =
  arr_finalState :: LendingOperationsAgentState
  arr_route :: AgentRunRoute

record RuntimeState =
  rts_agentState :: LendingOperationsAgentState
  rts_route :: "AgentRunRoute option"
  rts_policyEvaluation :: "EvaluatePolicyResult option"

definition now_js :: "timestamp case_prog" where
  "now_js = query (\<lambda>i _. kin_now i)"

definition recordAttempt ::
  "LendingOperationsAgentState \<Rightarrow> string \<Rightarrow> ToolAttemptOutcome \<Rightarrow> string option
     \<Rightarrow> LendingOperationsAgentState case_prog" where
  "recordAttempt st toolName res detail =
     pbind now_js (\<lambda>now. preturn (st\<lparr>st_attemptedTools := st_attemptedTools st @
       [\<lparr>tas_toolName = toolName, tas_attemptedAt = now, tas_outcome = res, tas_detail = detail\<rparr>]\<rparr>))"

definition budgetExceeded :: "timestamp \<Rightarrow> LendingOperationsAgentState \<Rightarrow> MandatoryReviewTrigger option" where
  "budgetExceeded now st =
     (if st_remainingStepBudget st \<le> 0
      then Some (classifyMandatoryReviewTrigger BUDGET_OR_DEADLINE_EXHAUSTED ''remainingStepBudget exhausted'')
      else if st_remainingDurationBudgetMs st \<le> 0 \<or> st_runDeadlineAt st \<le> now
      then Some (classifyMandatoryReviewTrigger BUDGET_OR_DEADLINE_EXHAUSTED
             (''runDeadlineAt ('' @ toISOString (st_runDeadlineAt st) @ '') exceeded''))
      else None)"

definition applyBudgetSnapshot ::
  "LendingOperationsAgentState \<Rightarrow> AgentBudgetSnapshot \<Rightarrow> LendingOperationsAgentState" where
  "applyBudgetSnapshot st sn =
     st\<lparr>st_budgetLedgerId := Some (ledgerId sn), st_budgetLedgerVersion := snap_version sn,
        st_remainingStepBudget := remainingSteps sn, st_remainingDurationBudgetMs := remainingDurationMs sn,
        st_remainingTokenBudget := remainingTokens sn, st_remainingProviderCallBudget := remainingProviderCalls sn,
        st_remainingCostBudgetMinorUnits := remainingCostMinorUnits sn, st_budgetCurrency := snap_currency sn,
        st_runStartedAt := snap_startedAt sn, st_runDeadlineAt := snap_deadlineAt sn\<rparr>"

definition consent_text :: "ConsentStatus \<Rightarrow> string" where
  "consent_text c =
     (case c of MISSING \<Rightarrow> ''MISSING'' | REVOKED \<Rightarrow> ''REVOKED'' | EXPIRED \<Rightarrow> ''EXPIRED'' | VALID \<Rightarrow> ''VALID'')"

definition consentInvalid :: "LendingOperationsAgentState \<Rightarrow> MandatoryReviewTrigger option" where
  "consentInvalid st =
     (if st_consentStatus st \<noteq> VALID
      then Some (classifyMandatoryReviewTrigger CONSENT_INVALID
             (''consentStatus is '' @ quoted (consent_text (st_consentStatus st)) @ '', not VALID''))
      else None)"

section \<open>Reserving\<close>

definition int_text :: "int \<Rightarrow> string" where
  "int_text n = (if n < 0 then CHR ''-'' # nat_text (nat (- n)) else nat_text (nat n))"

definition reservation_text :: "AgentBudgetReservationStatus \<Rightarrow> string" where
  "reservation_text s =
     (case s of Reserved \<Rightarrow> ''RESERVED'' | Committed \<Rightarrow> ''COMMITTED'' | Released \<Rightarrow> ''RELEASED'' | Unknown \<Rightarrow> ''UNKNOWN'')"

definition failure_text :: "AgentBudgetFailureCode \<Rightarrow> string" where
  "failure_text c =
     (case c of
        BUDGET_EXHAUSTED \<Rightarrow> ''BUDGET_EXHAUSTED'' | DEADLINE_EXCEEDED \<Rightarrow> ''DEADLINE_EXCEEDED''
      | LEDGER_VERSION_CONFLICT \<Rightarrow> ''LEDGER_VERSION_CONFLICT'' | LEDGER_CLOSED \<Rightarrow> ''LEDGER_CLOSED''
      | RESERVATION_CONFLICT \<Rightarrow> ''RESERVATION_CONFLICT'')"

text \<open>After the first snapshot the ledger id is present.\<close>

definition ledger_of :: "LendingOperationsAgentState \<Rightarrow> uuid" where
  "ledger_of st = (case st_budgetLedgerId st of Some l \<Rightarrow> l | None \<Rightarrow> [])"

definition reserve_units ::
  "LendingOperationsAgentState \<Rightarrow> string \<Rightarrow> js_number AgentBudgetUnits \<Rightarrow> AgentBudgetReservationReceipt case_prog" where
  "reserve_units st key n =
     on_budget (\<lambda>i. run_txn (reserve (kin_raced i) (clock_of i) (kin_ids i 0)
       \<lparr>rsv_tenantId = st_tenantId st, rsv_ledgerId = ledger_of st, rsv_idempotencyKey = key,
        rsv_expectedVersion = st_budgetLedgerVersion st, rsv_units = n\<rparr>))"

definition commit_units :: "uuid \<Rightarrow> uuid \<Rightarrow> js_number option \<Rightarrow> AgentBudgetReservationReceipt case_prog" where
  "commit_units tenantId rid cost =
     on_budget (\<lambda>i. run_txn (commit (clock_of i)
       \<lparr>cmt_tenantId = tenantId, cmt_reservationId = rid, cmt_actualCostMinorUnits = cost,
        cmt_requireUnknown = False, cmt_resolvedBy = None, cmt_resolutionNote = None\<rparr>))"

definition tool_units :: "AgentToolBudget \<Rightarrow> js_number AgentBudgetUnits" where
  "tool_units b =
     \<lparr>stepUnits = js_int 1, tokenUnits = atb_tokenUnits b, providerCallUnits = atb_providerCallUnits b,
      costMinorUnits = atb_costMinorUnits b\<rparr>"

definition attempt_key :: "LendingOperationsAgentState \<Rightarrow> string \<Rightarrow> string" where
  "attempt_key st what =
     join '':'' [st_workflowRunId st, int_text (st_caseVersion st), what, nat_text (length (st_attemptedTools st))]"

definition budget_trigger :: "AgentBudgetFailureCode \<Rightarrow> string \<Rightarrow> MandatoryReviewTrigger" where
  "budget_trigger code msg =
     classifyMandatoryReviewTrigger BUDGET_OR_DEADLINE_EXHAUSTED (failure_text code @ '': '' @ msg)"

section \<open>The path to a tool\<close>

definition allTools :: "case_env \<Rightarrow> AgentTool list" where
  "allTools env =
     [checkCaseCompletenessTool, evaluatePolicyTool env, createConditionTool env, draftInformationRequestTool env]"

definition find_tool :: "case_env \<Rightarrow> string \<Rightarrow> AgentTool option" where
  "find_tool env toolName = List.find (\<lambda>t. tool_name t = toolName) (allTools env)"

datatype 'a budgeted =
    Done LendingOperationsAgentState 'a
  | Blocked LendingOperationsAgentState MandatoryReviewTrigger

definition invokeBudgetedTool ::
  "case_env \<Rightarrow> tool_registry \<Rightarrow> LendingOperationsAgentState \<Rightarrow> string \<Rightarrow> tool_args
     \<Rightarrow> ToolInvocationResult budgeted case_prog" where
  "invokeBudgetedTool env reg st toolName args =
     pbind now_js (\<lambda>now.
       case budgetExceeded now st of
         Some trigger \<Rightarrow> preturn (Blocked st trigger)
       | None \<Rightarrow>
           let usage = (case find_tool env toolName of Some t \<Rightarrow> tool_budget t | None \<Rightarrow> no_cost)
           in pcatch
             (pbind (reserve_units st (attempt_key st toolName) (tool_units usage)) (\<lambda>rc.
                let reserved = applyBudgetSnapshot st (ledger rc)
                in if replayed rc \<and> map_option tool_sideEffect (find_tool env toolName) \<noteq> Some SE_NONE
                   then pbind (if status rc = Reserved
                               then pbind (on_budget (\<lambda>i. run_txn (markUnknown (clock_of i) (st_tenantId st) (reservationId rc))))
                                      (\<lambda>u. preturn (applyBudgetSnapshot reserved (ledger u)))
                               else preturn reserved) (\<lambda>st'.
                     preturn (Blocked st' (classifyMandatoryReviewTrigger TOOL_EXECUTION_FAILURE
                       (toolName @ '' has a replayed '' @ reservation_text (status rc)
                        @ '' side-effect reservation requiring reconciliation''))))
                   else pbind (invokeTool env reg toolName
                            \<lparr>atc_tenantId = st_tenantId st, atc_caseId = st_caseId st,
                             atc_budgetReservationId = Some (reservationId rc)\<rparr> args) (\<lambda>iv.
                     pbind (commit_units (st_tenantId st) (reservationId rc) (Some (atb_costMinorUnits usage))) (\<lambda>c.
                       preturn (Done (applyBudgetSnapshot reserved (ledger c)) iv)))))
             (\<lambda>e. case e of
                BudgetFailure (budget_error.AgentBudgetError code msg) \<Rightarrow> preturn (Blocked st (budget_trigger code msg))
              | _ \<Rightarrow> pthrow e))"

definition consumeBudgetedRuntimeStep ::
  "LendingOperationsAgentState \<Rightarrow> string \<Rightarrow> unit budgeted case_prog" where
  "consumeBudgetedRuntimeStep st stepName =
     pbind now_js (\<lambda>now.
       case budgetExceeded now st of
         Some trigger \<Rightarrow> preturn (Blocked st trigger)
       | None \<Rightarrow>
           pcatch
             (pbind (reserve_units st (attempt_key st (''runtime-'' @ stepName)) (tool_units no_cost)) (\<lambda>rc.
              pbind (commit_units (st_tenantId st) (reservationId rc) None) (\<lambda>c.
                preturn (Done (applyBudgetSnapshot st (ledger c)) ()))))
             (\<lambda>e. case e of
                BudgetFailure (budget_error.AgentBudgetError code msg) \<Rightarrow> preturn (Blocked st (budget_trigger code msg))
              | _ \<Rightarrow> pthrow e))"

section \<open>Consent and completeness\<close>

definition route_of :: "MandatoryReviewTrigger \<Rightarrow> AgentRunRoute" where
  "route_of t = (if trg_route t = INTERRUPT_FOR_REVIEW then INTERRUPTED_FOR_REVIEW else ROUTED_TO_MANUAL_REVIEW)"

definition routeMandatoryReview ::
  "RuntimeState \<Rightarrow> LendingOperationsAgentState \<Rightarrow> MandatoryReviewTrigger \<Rightarrow> RuntimeState" where
  "routeMandatoryReview rs st trigger =
     rs\<lparr>rts_agentState := st\<lparr>st_reviewState := Some
          \<lparr>hrs_requested = True, hrs_reason = Some (trg_reason trigger), hrs_category = Some (trg_category trigger)\<rparr>\<rparr>,
        rts_route := Some (route_of trigger)\<rparr>"

definition verifyConsentNode :: "RuntimeState \<Rightarrow> RuntimeState case_prog" where
  "verifyConsentNode rs =
     preturn (case consentInvalid (rts_agentState rs) of
                Some trigger \<Rightarrow> routeMandatoryReview rs (rts_agentState rs) trigger
              | None \<Rightarrow> rs)"

definition outcome_of :: "ToolInvocationResult \<Rightarrow> ToolAttemptOutcome" where
  "outcome_of iv = (case iv of ToolSuccess _ \<Rightarrow> ATTEMPT_SUCCESS | ToolFailure _ \<Rightarrow> ATTEMPT_FAILURE)"

definition error_of :: "ToolInvocationResult \<Rightarrow> string option" where
  "error_of iv = (case iv of ToolSuccess _ \<Rightarrow> None | ToolFailure m \<Rightarrow> Some m)"

text \<open>
  The steps every node that invokes a tool repeats: a blocked call goes to review, the
  attempt is recorded, a failure goes to review, and a result is handed on.
\<close>

definition tool_node ::
  "case_env \<Rightarrow> tool_registry \<Rightarrow> RuntimeState \<Rightarrow> LendingOperationsAgentState \<Rightarrow> string \<Rightarrow> tool_args \<Rightarrow> string
     \<Rightarrow> (LendingOperationsAgentState \<Rightarrow> tool_result \<Rightarrow> RuntimeState case_prog) \<Rightarrow> RuntimeState case_prog" where
  "tool_node env reg rs st toolName args failed k =
     pbind (invokeBudgetedTool env reg st toolName args) (\<lambda>b.
       case b of
         Blocked st' trigger \<Rightarrow> preturn (routeMandatoryReview rs st' trigger)
       | Done st' iv \<Rightarrow>
           pbind (recordAttempt st' toolName (outcome_of iv) (error_of iv)) (\<lambda>st''.
             case iv of
               ToolFailure m \<Rightarrow>
                 preturn (routeMandatoryReview rs st'' (classifyMandatoryReviewTrigger TOOL_EXECUTION_FAILURE
                   (toolName @ failed @ m)))
             | ToolSuccess r \<Rightarrow> k st'' r))"

definition checkCompletenessNode :: "case_env \<Rightarrow> tool_registry \<Rightarrow> RuntimeState \<Rightarrow> RuntimeState case_prog" where
  "checkCompletenessNode env reg rs =
     tool_node env reg rs (rts_agentState rs) ''check_case_completeness'' NoArgs '' unavailable: '' (\<lambda>st r.
       case r of
         Completeness full _ \<Rightarrow>
           preturn (if full then rs\<lparr>rts_agentState := st\<rparr>
                    else rs\<lparr>rts_agentState := st, rts_route := Some AWAITING_INFORMATION\<rparr>)
       | _ \<Rightarrow> pthrow (PlainError ''TypeError''))"

section \<open>The planner step\<close>

definition basis_points :: "js_number \<Rightarrow> int" where
  "basis_points c = (case js_scale c 10000 of Num q \<Rightarrow> \<lfloor>q + 1 / 2\<rfloor> | _ \<Rightarrow> 0)"

definition plannerResultFromRecord :: "AgentModelInvocation \<Rightarrow> AgentPlannerResult" where
  "plannerResultFromRecord m =
     \<lparr>apr_nextAction = ami_nextAction m, apr_reasonCode = ami_reasonCode m,
      apr_confidence = js_div (js_int (ami_confidenceBasisPoints m)) 10000, apr_modelVersion = ami_modelVersion m,
      apr_promptVersion = ami_promptVersion m, apr_requestDigest = ami_requestDigest m,
      apr_responseDigest = ami_responseDigest m, apr_accountedTokenUnits = ami_accountedTokenUnits m\<rparr>"

definition hex64 :: "string \<Rightarrow> bool" where
  "hex64 s \<longleftrightarrow> length s = 64 \<and> list_all (\<lambda>c. c \<in> set ''0123456789abcdef'') s"

definition unit_interval :: "js_number \<Rightarrow> bool" where
  "unit_interval c = (case c of Num q \<Rightarrow> 0 \<le> q \<and> q \<le> 1 | _ \<Rightarrow> False)"

definition assertPlannerResultMatchesReservation :: "planner_config \<Rightarrow> AgentPlannerResult \<Rightarrow> case_error + unit" where
  "assertPlannerResultMatchesReservation p r =
     ensure (apr_modelVersion r = plc_modelVersion p \<and> apr_promptVersion r = plc_promptVersion p
             \<and> apr_accountedTokenUnits r = plc_tokenBudgetUnits p
             \<and> apr_reasonCode r = expected_reason (apr_nextAction r) \<and> unit_interval (apr_confidence r)
             \<and> hex64 (apr_requestDigest r) \<and> hex64 (apr_responseDigest r))
       (AgentPlannerError MALFORMED_OUTPUT ''local Agent planner returned inconsistent provenance or accounting'')"

definition same_invocation :: "LendingOperationsAgentState \<Rightarrow> planner_config \<Rightarrow> AgentModelInvocation \<Rightarrow> bool" where
  "same_invocation st p m \<longleftrightarrow>
     ami_tenantId m = st_tenantId st \<and> ami_workflowRunId m = st_workflowRunId st \<and> ami_caseVersion m = st_caseVersion st
     \<and> ami_modelVersion m = plc_modelVersion p \<and> ami_promptVersion m = plc_promptVersion p"

definition findPlannerInvocation ::
  "LendingOperationsAgentState \<Rightarrow> planner_config \<Rightarrow> AgentModelInvocation option case_prog" where
  "findPlannerInvocation st p = query (\<lambda>_ db. List.find (same_invocation st p) (cas_invocations db))"

definition new_invocation :: "uuid \<Rightarrow> LendingOperationsAgentState \<Rightarrow> AgentPlannerResult \<Rightarrow> AgentModelInvocation" where
  "new_invocation newId st r =
     \<lparr>ami_id = newId, ami_tenantId = st_tenantId st, ami_caseId = st_caseId st, ami_caseVersion = st_caseVersion st,
      ami_workflowRunId = st_workflowRunId st, ami_modelVersion = apr_modelVersion r, ami_promptVersion = apr_promptVersion r,
      ami_nextAction = apr_nextAction r, ami_reasonCode = apr_reasonCode r,
      ami_confidenceBasisPoints = basis_points (apr_confidence r), ami_accountedTokenUnits = apr_accountedTokenUnits r,
      ami_requestDigest = apr_requestDigest r, ami_responseDigest = apr_responseDigest r\<rparr>"

text \<open>The primary key, and one row per tenant, run, case version, model and prompt.\<close>

definition insert_invocation :: "AgentModelInvocation \<Rightarrow> (case_db, case_error, AgentModelInvocation) txn" where
  "insert_invocation m db =
     (if list_ex (\<lambda>x. ami_id x = ami_id m \<or>
           (ami_tenantId x = ami_tenantId m \<and> ami_workflowRunId x = ami_workflowRunId m
            \<and> ami_caseVersion x = ami_caseVersion m \<and> ami_modelVersion x = ami_modelVersion m
            \<and> ami_promptVersion x = ami_promptVersion m)) (cas_invocations db)
      then Inl CaseUniqueViolation
      else Inr (m, db\<lparr>cas_invocations := cas_invocations db @ [m]\<rparr>))"

definition persistPlannerInvocation ::
  "LendingOperationsAgentState \<Rightarrow> planner_config \<Rightarrow> AgentPlannerResult \<Rightarrow> AgentModelInvocation case_prog" where
  "persistPlannerInvocation st p r =
     pcatch (act (\<lambda>i. run_txn (insert_invocation (new_invocation (kin_ids i 0) st r))))
       (\<lambda>e. if e \<noteq> CaseUniqueViolation then pthrow e
            else pbind (findPlannerInvocation st p) (\<lambda>winner.
                   case winner of None \<Rightarrow> pthrow e | Some m \<Rightarrow> preturn m))"

definition planner_key :: "LendingOperationsAgentState \<Rightarrow> planner_config \<Rightarrow> string" where
  "planner_key st p =
     join '':'' [st_workflowRunId st, int_text (st_caseVersion st), ''agent-planner'', plc_modelVersion p, plc_promptVersion p]"

text \<open>The body of the \<open>try\<close> block.\<close>

definition planned ::
  "case_env \<Rightarrow> planner_config \<Rightarrow> RuntimeState \<Rightarrow> AgentBudgetReservationReceipt \<Rightarrow> AgentModelInvocation option
     \<Rightarrow> RuntimeState case_prog" where
  "planned env p rs rc found =
     (let st = rts_agentState rs
      in pbind (case found of
                  Some m \<Rightarrow> preturn m
                | None \<Rightarrow>
                    pbind (act (\<lambda>i db. (plan env p [EVALUATE_POLICY, REQUEST_HUMAN_REVIEW] (kin_reply i), db))) (\<lambda>r.
                      case assertPlannerResultMatchesReservation p r of
                        Inl e \<Rightarrow> pthrow e
                      | Inr _ \<Rightarrow> persistPlannerInvocation st p r)) (\<lambda>m.
         pbind (if status rc = Committed then preturn rc
                else commit_units (st_tenantId st) (reservationId rc) None) (\<lambda>c.
         let r = plannerResultFromRecord m
         in pbind (recordAttempt (applyBudgetSnapshot st (ledger c)) ''agent_planner'' ATTEMPT_SUCCESS
                 (Some (action_text (apr_nextAction r) @ '':'' @ reason_text (apr_reasonCode r)))) (\<lambda>st'.
            let with_manifest = st'\<lparr>st_modelVersion := Some (apr_modelVersion r), st_promptVersion := Some (apr_promptVersion r),
                                    st_modelAndPromptManifestId := Some (ami_id m)\<rparr>;
                bp = basis_points (apr_confidence r)
            in preturn
                 (if apr_nextAction r = REQUEST_HUMAN_REVIEW \<or> bp < plc_minimumConfidenceBasisPoints p
                  then routeMandatoryReview rs with_manifest (classifyMandatoryReviewTrigger MODEL_UNCERTAINTY
                    (if apr_nextAction r = REQUEST_HUMAN_REVIEW
                     then ''bounded planner requested review ('' @ reason_text (apr_reasonCode r) @ '')''
                     else ''bounded planner confidence '' @ int_text bp @ ''bp is below ''
                          @ int_text (plc_minimumConfidenceBasisPoints p) @ ''bp''))
                  else rs\<lparr>rts_agentState := with_manifest\<rparr>)))))"

definition planner_code :: "case_error \<Rightarrow> string" where
  "planner_code e =
     (case e of
        AgentPlannerError c _ \<Rightarrow>
          (case c of UNAVAILABLE \<Rightarrow> ''UNAVAILABLE'' | PLANNER_TIMEOUT \<Rightarrow> ''TIMEOUT''
           | PROVIDER_ERROR \<Rightarrow> ''PROVIDER_ERROR'' | MALFORMED_OUTPUT \<Rightarrow> ''MALFORMED_OUTPUT'')
      | _ \<Rightarrow> ''PLANNER_RUNTIME_FAILURE'')"

definition planner_failed ::
  "RuntimeState \<Rightarrow> AgentBudgetReservationReceipt \<Rightarrow> case_error \<Rightarrow> RuntimeState case_prog" where
  "planner_failed rs rc e =
     (let st = rts_agentState rs
      in pbind (if status rc = Reserved
                then pbind (on_budget (\<lambda>i. run_txn (release (clock_of i) (st_tenantId st) (reservationId rc) None)))
                       (\<lambda>_. preturn ())
                else preturn ()) (\<lambda>_.
         pbind (recordAttempt st ''agent_planner'' ATTEMPT_FAILURE (Some (planner_code e))) (\<lambda>st'.
           preturn (routeMandatoryReview rs st' (classifyMandatoryReviewTrigger
             (case e of AgentPlannerError MALFORMED_OUTPUT _ \<Rightarrow> MODEL_OUTPUT_INVALID | _ \<Rightarrow> TOOL_EXECUTION_FAILURE)
             (''bounded planner failed ('' @ planner_code e @ '')''))))))"

definition planNextActionNode :: "case_env \<Rightarrow> RuntimeState \<Rightarrow> RuntimeState case_prog" where
  "planNextActionNode env rs =
     (case kev_planner env of
        None \<Rightarrow> preturn rs
      | Some p \<Rightarrow>
          let st = rts_agentState rs
          in pbind (pcatch
               (pbind (reserve_units st (planner_key st p)
                  \<lparr>stepUnits = js_int 1, tokenUnits = js_int (plc_tokenBudgetUnits p), providerCallUnits = js_int 0,
                   costMinorUnits = js_int 0\<rparr>) (\<lambda>rc. preturn (Inr rc)))
               (\<lambda>e. case e of
                  BudgetFailure (budget_error.AgentBudgetError code msg) \<Rightarrow> preturn (Inl (budget_trigger code msg))
                | _ \<Rightarrow> pthrow e)) (\<lambda>reserved.
             case reserved of
               Inl trigger \<Rightarrow> preturn (routeMandatoryReview rs st trigger)
             | Inr rc \<Rightarrow>
                 pbind (findPlannerInvocation st p) (\<lambda>found.
                   pcatch (planned env p rs rc found) (planner_failed rs rc))))"

section \<open>Evaluation\<close>

definition evaluatePolicyNode :: "case_env \<Rightarrow> tool_registry \<Rightarrow> RuntimeState \<Rightarrow> RuntimeState case_prog" where
  "evaluatePolicyNode env reg rs =
     (let st = rts_agentState rs
      in pbind now_js (\<lambda>now.
         case budgetExceeded now st of
           Some trigger \<Rightarrow> preturn (routeMandatoryReview rs st trigger)
         | None \<Rightarrow>
             pbind (case_or_fail (st_tenantId st) (st_caseId st)) (\<lambda>c.
               tool_node env reg rs st ''evaluate_policy''
                 (ForEvaluatePolicy
                   \<lparr>epa_jurisdictionCode = lc_jurisdictionCode c, epa_productCode = loanTypeToProductCode (lc_loanType c),
                    epa_lifecycleEvent = UNDERWRITING_REVIEW_LIFECYCLE_EVENT, epa_applicationReceivedAt = lc_createdAt c\<rparr>)
                 '' unavailable: '' (\<lambda>st' r.
                 case r of
                   PolicyEvaluated ev \<Rightarrow>
                     preturn (if epr_status ev = REVIEW_REQUIRED
                       then routeMandatoryReview rs st' (classifyMandatoryReviewTrigger POLICY_AMBIGUITY
                              (let reasons = join ''; '' (epr_unresolvedReasons ev)
                               in if reasons = [] then ''policy review required'' else reasons))
                       else rs\<lparr>rts_agentState := st'\<lparr>st_policyBindingId := epr_policyBindingId ev\<rparr>,
                               rts_policyEvaluation := Some ev\<rparr>)
                 | _ \<Rightarrow> pthrow (PlainError ''TypeError'')))))"

text \<open>The manifest of an evaluation; its policy columns may not be NULL.\<close>

definition manifest_for ::
  "case_env \<Rightarrow> LendingOperationsAgentState \<Rightarrow> EvaluatePolicyResult \<Rightarrow> EvidenceFact list \<Rightarrow> EvaluationInputManifest case_prog" where
  "manifest_for env st ev facts =
     (case (st_policyBindingId st, epr_observedPolicyDependencyDigest ev) of
        (Some b, Some d) \<Rightarrow>
          assemble env \<lparr>asm_tenantId = st_tenantId st, asm_caseId = st_caseId st, asm_caseVersion = st_caseVersion st,
            asm_policyBindingId = b, asm_observedPolicyDependencyDigest = d, asm_evaluatorVersion = RESOLVER_VERSION,
            asm_evidence = facts, asm_modelAndPromptManifestId = st_modelAndPromptManifestId st\<rparr>
      | _ \<Rightarrow> pthrow CheckConstraintViolation)"

definition latest_income :: "uuid \<Rightarrow> uuid \<Rightarrow> case_db \<Rightarrow> EvidenceFact option" where
  "latest_income tenantId caseId db =
     latest_by ev_observedAt (\<lambda>f. ev_tenantId f = tenantId \<and> ev_caseId f = caseId \<and> ev_factType f = INCOME)
       (evidence (cas_platform db))"

definition fact_context :: "CaseRow \<Rightarrow> EvidenceFact option \<Rightarrow> json" where
  "fact_context c f =
     JObj [(''application'', JObj [(''monthly_income'', JNum (lc_statedMonthlyIncome c))]),
           (''evidence'', JObj (case Option.bind f (\<lambda>x. member_of (ev_value x) ''monthlyIncome'') of
              None \<Rightarrow> [] | Some v \<Rightarrow> [(''verified_monthly_income'', v)]))]"

definition first_match :: "json \<Rightarrow> matched_version list \<Rightarrow> matched_version option" where
  "first_match ctx vs = List.find (\<lambda>v. eva_matched (evaluatePolicyRule (mtv_rule v) ctx)) vs"

definition condition_args ::
  "case_env \<Rightarrow> LendingOperationsAgentState \<Rightarrow> EvaluatePolicyResult \<Rightarrow> json \<Rightarrow> matched_version \<Rightarrow> uuid \<Rightarrow> CreateConditionArgs" where
  "condition_args env st ev ctx v manifestId =
     \<lparr>cca_code = out_condition (rule_outcome (mtv_rule v)),
      cca_description = kev_reason env (eva_reason (evaluatePolicyRule (mtv_rule v) ctx)),
      cca_policyVersionId = mtv_policyVersionId v, cca_ruleId = mtv_ruleId v,
      cca_policySnapshotId = epr_policySnapshotId ev, cca_expectedCaseVersion = st_caseVersion st,
      cca_evaluationManifestId = Some manifestId\<rparr>"

definition remediation_draft :: "CreateConditionArgs \<Rightarrow> DraftCommunicationInput" where
  "remediation_draft a =
     \<lparr>dci_recipientRelationship = ''BORROWER'', dci_channel = ''EMAIL'', dci_locale = ''en-US'', dci_templateKey = None,
      dci_templateVersion = None, dci_variables = [],
      dci_freeformContent = Some (''A condition on your loan application requires attention: '' @ cca_code a @ ''. ''
        @ cca_description a),
      dci_hasAttachments = False\<rparr>"

text \<open>A matching rule: the condition is created, and a message to the borrower drafted.\<close>

definition draft_remediation ::
  "case_env \<Rightarrow> tool_registry \<Rightarrow> RuntimeState \<Rightarrow> LendingOperationsAgentState \<Rightarrow> CreateConditionArgs \<Rightarrow> uuid \<Rightarrow> RuntimeState case_prog" where
  "draft_remediation env reg rs st a cid =
     tool_node env reg rs st ''draft_information_request'' (ForDraft (remediation_draft a)) '' failed: '' (\<lambda>st' d.
       case d of
         MessageDrafted mid _ _ \<Rightarrow>
           preturn (rs\<lparr>rts_agentState := st'\<lparr>st_proposedAction := Some
             \<lparr>aac_tool = ''create_condition'',
              aac_arguments = [(''conditionId'', JStr cid), (''code'', JStr (cca_code a)),
                               (''communicationMessageId'', JStr mid)]\<rparr>\<rparr>,
             rts_route := Some PROPOSED_ACTION\<rparr>)
       | _ \<Rightarrow> pthrow (PlainError ''TypeError''))"

definition open_condition ::
  "case_env \<Rightarrow> tool_registry \<Rightarrow> RuntimeState \<Rightarrow> LendingOperationsAgentState \<Rightarrow> CreateConditionArgs \<Rightarrow> RuntimeState case_prog" where
  "open_condition env reg rs st a =
     tool_node env reg rs st ''create_condition'' (ForCreateCondition a) '' failed: '' (\<lambda>st' r.
       case r of
         ConditionStale \<Rightarrow> pthrow (StaleCaseVersionError (st_caseId st) (cca_expectedCaseVersion a))
       | ConditionCreated cid \<Rightarrow> draft_remediation env reg rs st' a cid
       | _ \<Rightarrow> pthrow (PlainError ''TypeError''))"

text \<open>The manifest is assembled whether or not a rule matches.\<close>

definition conclude ::
  "case_env \<Rightarrow> tool_registry \<Rightarrow> RuntimeState \<Rightarrow> LendingOperationsAgentState \<Rightarrow> EvaluatePolicyResult \<Rightarrow> RuntimeState case_prog" where
  "conclude env reg rs stepped ev =
     (let st = rts_agentState rs;
          proposed = rs\<lparr>rts_agentState := stepped, rts_route := Some PROPOSED_ACTION\<rparr>
      in if epr_matchedVersions ev = []
         then pbind (manifest_for env st ev []) (\<lambda>_. preturn proposed)
         else
           pbind (case_or_fail (st_tenantId st) (st_caseId st)) (\<lambda>c.
           pbind (query (\<lambda>_ db. latest_income (st_tenantId st) (st_caseId st) db)) (\<lambda>f.
           pbind (manifest_for env st ev (case f of None \<Rightarrow> [] | Some x \<Rightarrow> [x])) (\<lambda>m.
             case first_match (fact_context c f) (epr_matchedVersions ev) of
               None \<Rightarrow> preturn proposed
             | Some v \<Rightarrow>
                 open_condition env reg rs stepped (condition_args env st ev (fact_context c f) v (eim_id m))))))"

definition resolveOutcomeNode :: "case_env \<Rightarrow> tool_registry \<Rightarrow> RuntimeState \<Rightarrow> RuntimeState case_prog" where
  "resolveOutcomeNode env reg rs =
     pbind (consumeBudgetedRuntimeStep (rts_agentState rs) ''resolve-outcome'') (\<lambda>b.
       case b of
         Blocked st' trigger \<Rightarrow> preturn (routeMandatoryReview rs st' trigger)
       | Done stepped _ \<Rightarrow>
           (case rts_policyEvaluation rs of
              None \<Rightarrow> pthrow (PlainError ''TypeError'')
            | Some ev \<Rightarrow> conclude env reg rs stepped ev))"

section \<open>The run\<close>

definition next_node :: "RuntimeState case_prog \<Rightarrow> (RuntimeState \<Rightarrow> RuntimeState case_prog) \<Rightarrow> RuntimeState case_prog" where
  "next_node p node = pbind p (\<lambda>rs. if rts_route rs \<noteq> None then preturn rs else node rs)"

definition graph :: "case_env \<Rightarrow> tool_registry \<Rightarrow> RuntimeState \<Rightarrow> RuntimeState case_prog" where
  "graph env reg rs =
     next_node (next_node (next_node (next_node (verifyConsentNode rs) (checkCompletenessNode env reg))
       (planNextActionNode env)) (evaluatePolicyNode env reg)) (resolveOutcomeNode env reg)"

definition new_run :: "uuid \<Rightarrow> timestamp \<Rightarrow> AgentRunResult \<Rightarrow> AgentRun" where
  "new_run newId startedAt res =
     (let st = arr_finalState res
      in \<lparr>run_id = newId, run_tenantId = st_tenantId st, run_caseId = st_caseId st, run_workflowRunId = st_workflowRunId st,
          run_route = arr_route res, run_proposedActionTool = map_option aac_tool (st_proposedAction st),
          run_proposedActionArguments = map_option (\<lambda>a. JObj (aac_arguments a)) (st_proposedAction st),
          run_reviewRequested = (case st_reviewState st of None \<Rightarrow> False | Some h \<Rightarrow> hrs_requested h),
          run_reviewReason = Option.bind (st_reviewState st) hrs_reason,
          run_reviewCategory = Option.bind (st_reviewState st) hrs_category,
          run_modelInvocationId = st_modelAndPromptManifestId st, run_modelVersion = st_modelVersion st,
          run_promptVersion = st_promptVersion st, run_startedAt = startedAt\<rparr>)"

definition run_attempts :: "uuid \<Rightarrow> LendingOperationsAgentState \<Rightarrow> ToolAttempt list" where
  "run_attempts rid st =
     map (\<lambda>a. \<lparr>tat_agentRunId = rid, tat_toolName = tas_toolName a, tat_outcome = tas_outcome a,
               tat_detail = tas_detail a, tat_attemptedAt = tas_attemptedAt a\<rparr>) (st_attemptedTools st)"

definition persistAgentRun :: "timestamp \<Rightarrow> AgentRunResult \<Rightarrow> unit case_prog" where
  "persistAgentRun startedAt res =
     act (\<lambda>i. run_txn (\<lambda>db.
       if kin_ids i 0 \<in> run_id ` set (cas_runs db) then Inl CaseUniqueViolation
       else Inr ((), db\<lparr>cas_runs := cas_runs db @ [new_run (kin_ids i 0) startedAt res],
                       cas_attempts := cas_attempts db @ run_attempts (kin_ids i 0) (arr_finalState res)\<rparr>)))"

definition ledger_input :: "AgentRunInput \<Rightarrow> AgentBudgetLedgerInput" where
  "ledger_input inp =
     (let st = ari_initialState inp; b = ari_budget inp
      in \<lparr>in_tenantId = st_tenantId st, in_caseId = st_caseId st, in_workflowRunId = st_workflowRunId st,
          in_stepLimit = js_int (arb_stepBudget b), in_tokenLimit = js_int (arb_tokenBudget b),
          in_providerCallLimit = js_int (arb_providerCallBudget b),
          in_costLimitMinorUnits = js_int (arb_costBudgetMinorUnits b), in_currency = arb_currency b,
          in_startedAt = st_runStartedAt st, in_deadlineAt = ari_runDeadlineAt inp\<rparr>)"

definition result_of :: "RuntimeState \<Rightarrow> AgentRunResult" where
  "result_of rs =
     \<lparr>arr_finalState = rts_agentState rs,
      arr_route = (case rts_route rs of Some r \<Rightarrow> r | None \<Rightarrow> ROUTED_TO_MANUAL_REVIEW)\<rparr>"

definition run_agent :: "case_env \<Rightarrow> AgentRunInput \<Rightarrow> AgentRunResult case_prog" where
  "run_agent env inp =
     pbind now_js (\<lambda>startedAt.
     pbind (on_budget (\<lambda>i. createOrLoad (clock_of i) (kin_ids i 0) (ledger_input inp))) (\<lambda>sn.
       case buildToolRegistry (filter (\<lambda>t. tool_name t \<in> set (ari_allowedTools inp)) (allTools env)) of
         Inl e \<Rightarrow> pthrow e
       | Inr reg \<Rightarrow>
           pbind (graph env reg \<lparr>rts_agentState = applyBudgetSnapshot (ari_initialState inp) sn,
                                 rts_route = None, rts_policyEvaluation = None\<rparr>) (\<lambda>rs.
           pbind (persistAgentRun startedAt (result_of rs)) (\<lambda>_. preturn (result_of rs)))))"

end
