(* ===== verification/Case_Activities.thy ===== *)
theory Case_Activities
  imports Agent_Run
begin

text \<open>
  The activities of the case workflow, \<open>src/src/workflows/case-conditions.activities.ts\<close>.

  A transaction that only writes is one step. One that reads first and decides on what it
  read (\<open>prepareWorkflowRecovery\<close>, \<open>resolveCondition\<close>, \<open>markWorkflowCancelled\<close>) is a
  step for the reading and one for the writing, since at the isolation the code uses another
  transaction may commit in between. A provider dispatch is one step that carries its own
  interference, and recording what it returned is another.
\<close>

section \<open>Budgets of a run\<close>

definition DEFAULT_AGENT_RUN_STEP_BUDGET :: int where
  "DEFAULT_AGENT_RUN_STEP_BUDGET = 10"

definition DEFAULT_AGENT_RUN_DURATION_BUDGET_MS :: int where
  "DEFAULT_AGENT_RUN_DURATION_BUDGET_MS = 75000"

definition resolveAgentRunBudget :: "TenantRunBudget \<Rightarrow> int \<times> int" where
  "resolveAgentRunBudget t =
     (case trb_agentRunStepBudgetOverride t of Some n \<Rightarrow> n | None \<Rightarrow> DEFAULT_AGENT_RUN_STEP_BUDGET,
      case trb_agentRunDurationBudgetMsOverride t of Some n \<Rightarrow> n | None \<Rightarrow> DEFAULT_AGENT_RUN_DURATION_BUDGET_MS)"

definition AGENT_ALLOWED_TOOLS :: "string list" where
  "AGENT_ALLOWED_TOOLS =
     [''check_case_completeness'', ''evaluate_policy'', ''create_condition'', ''draft_information_request'']"

section \<open>Evidence\<close>

definition provider_failure :: "case_env \<Rightarrow> string \<Rightarrow> platform_error \<Rightarrow> case_error" where
  "provider_failure env providerName e =
     (let m = kev_message env (PlatformFailure e)
      in case e of
           SyntheticProviderRejectionError \<Rightarrow> ApplicationFailure False m ''TerminalProviderFailure'' providerName
         | ProviderFailure t \<Rightarrow>
             if kev_timeout env t then ApplicationFailure True m ''TransientProviderFailure'' providerName
             else PlatformFailure e
         | ProviderRevalidationError _ \<Rightarrow> ApplicationFailure False m ''ProviderAuthorizationRevalidationFailed'' providerName
         | ProviderConsentScopeError _ _ \<Rightarrow> ApplicationFailure False m ''ProviderAuthorizationRevalidationFailed'' providerName
         | PermissiblePurposeError _ \<Rightarrow> ApplicationFailure False m ''ProviderAuthorizationRevalidationFailed'' providerName
         | ProviderIntentConflictError _ \<Rightarrow> ApplicationFailure False m ''ProviderIntentConflictError'' providerName
         | ProviderIntentReplayBlockedError _ \<Rightarrow> ApplicationFailure False m ''ProviderIntentReplayBlockedError'' providerName
         | ProviderDisabledError _ _ _ \<Rightarrow> ApplicationFailure False m ''ProviderDisabled'' providerName
         | _ \<Rightarrow> PlatformFailure e)"

definition callProviderWithRetryClassification :: "case_env \<Rightarrow> 'a case_prog \<Rightarrow> string \<Rightarrow> 'a case_prog" where
  "callProviderWithRetryClassification env fn providerName =
     pcatch fn (\<lambda>e. pthrow (case e of PlatformFailure p \<Rightarrow> provider_failure env providerName p | _ \<Rightarrow> e))"

definition dispatch :: "case_env \<Rightarrow> DispatchProviderRequestParams \<Rightarrow> json case_prog" where
  "dispatch env p =
     act (\<lambda>i db. case dispatchProviderRequest (kev_crypto env) (kev_registry env) (kin_dispatch i) p
                        \<lparr>w_db = cas_platform db, w_sent = cas_submissions db\<rparr> of
                   (r, w) \<Rightarrow> (map_sum PlatformFailure id r,
                             db\<lparr>cas_platform := w_db w, cas_submissions := w_sent w\<rparr>))"

definition new_fact :: "case_input \<Rightarrow> uuid \<Rightarrow> uuid \<Rightarrow> ProviderCapability \<Rightarrow> string \<Rightarrow> json \<Rightarrow> EvidenceFact" where
  "new_fact i tenantId caseId factType source v =
     \<lparr>ev_id = kin_ids i 0, ev_tenantId = tenantId, ev_caseId = caseId, ev_factType = factType,
      ev_sourceIdentifier = source, ev_value = v, ev_observedAt = kin_now i, ev_validThrough = None, ev_version = 1\<rparr>"

definition recordEvidence ::
  "case_env \<Rightarrow> case_input \<Rightarrow> uuid \<Rightarrow> uuid \<Rightarrow> ProviderCapability \<Rightarrow> string \<Rightarrow> json \<Rightarrow> (case_db, case_error, unit) txn" where
  "recordEvidence env i tenantId caseId factType source v db =
     (if kin_ids i 0 \<in> ev_id ` set (evidence (cas_platform db)) then Inl CaseUniqueViolation
      else put_event env i 1 (case_event tenantId caseId EvidenceUpdated
             [(''caseId'', JStr caseId), (''evidenceType'', JStr (capability_name factType)),
              (''sourceIdentifier'', JStr source)])
           (db\<lparr>cas_platform := (cas_platform db)\<lparr>evidence := evidence (cas_platform db) @
              [new_fact i tenantId caseId factType source v]\<rparr>\<rparr>))"

text \<open>The body the five activities share; they differ in the capability and the source.\<close>

definition fetch_evidence ::
  "case_env \<Rightarrow> ProviderCapability \<Rightarrow> string \<Rightarrow> uuid \<Rightarrow> uuid \<Rightarrow> string \<Rightarrow> json case_prog" where
  "fetch_evidence env cap source tenantId caseId borrowerId =
     pbind (callProviderWithRetryClassification env
       (dispatch env \<lparr>dp_tenantId = tenantId, dp_caseId = caseId, dp_borrowerSubjectId = borrowerId,
          dp_capability = cap, dp_mode = None, dp_request = JObj [(''borrowerId'', JStr borrowerId)],
          dp_purposeCode = ''UNDERWRITING_EVIDENCE'', dp_permittedDataClasses = [capability_name cap],
          dp_logicalOperationKey = None, dp_permittedFields = None, dp_permissiblePurposeDecisionId = None\<rparr>) source) (\<lambda>v.
     pbind (act (\<lambda>i. run_txn (recordEvidence env i tenantId caseId cap source v))) (\<lambda>_. preturn v))"

definition fetchIncomeEvidence :: "case_env \<Rightarrow> uuid \<Rightarrow> uuid \<Rightarrow> string \<Rightarrow> json case_prog" where
  "fetchIncomeEvidence env = fetch_evidence env INCOME ''plaid-simulator''"

definition fetchCreditEvidence :: "case_env \<Rightarrow> uuid \<Rightarrow> uuid \<Rightarrow> string \<Rightarrow> json case_prog" where
  "fetchCreditEvidence env = fetch_evidence env CREDIT ''credit-bureau-simulator''"

definition fetchDocumentEvidence :: "case_env \<Rightarrow> uuid \<Rightarrow> uuid \<Rightarrow> string \<Rightarrow> json case_prog" where
  "fetchDocumentEvidence env = fetch_evidence env DOCUMENT ''document-verification-simulator''"

definition fetchAssetEvidence :: "case_env \<Rightarrow> uuid \<Rightarrow> uuid \<Rightarrow> string \<Rightarrow> json case_prog" where
  "fetchAssetEvidence env = fetch_evidence env ASSET ''asset-verification-simulator''"

definition fetchIdentityEvidence :: "case_env \<Rightarrow> uuid \<Rightarrow> uuid \<Rightarrow> string \<Rightarrow> json case_prog" where
  "fetchIdentityEvidence env = fetch_evidence env IDENTITY ''identity-verification-simulator''"

section \<open>Ready for underwriting\<close>

definition READY_FOR_UNDERWRITING_TEMPLATE_KEY :: string where
  "READY_FOR_UNDERWRITING_TEMPLATE_KEY = ''READY_FOR_UNDERWRITING_NOTICE''"

definition READY_FOR_UNDERWRITING_TEMPLATE_VERSION :: string where
  "READY_FOR_UNDERWRITING_TEMPLATE_VERSION = ''1''"

definition has_approved_template :: "uuid \<Rightarrow> case_db \<Rightarrow> bool" where
  "has_approved_template tenantId db \<longleftrightarrow>
     list_ex (\<lambda>t. tpl_tenantId t = tenantId \<and> tpl_templateKey t = READY_FOR_UNDERWRITING_TEMPLATE_KEY
       \<and> tpl_version t = READY_FOR_UNDERWRITING_TEMPLATE_VERSION \<and> tpl_status t = TEMPLATE_APPROVED)
       (com_templates (cas_comms db))"

definition ready_notice :: "uuid \<Rightarrow> DraftCommunicationInput" where
  "ready_notice caseId =
     \<lparr>dci_recipientRelationship = ''BORROWER'', dci_channel = ''EMAIL'', dci_locale = ''en-US'',
      dci_templateKey = Some READY_FOR_UNDERWRITING_TEMPLATE_KEY,
      dci_templateVersion = Some READY_FOR_UNDERWRITING_TEMPLATE_VERSION, dci_variables = [(''caseId'', caseId)],
      dci_freeformContent = None, dci_hasAttachments = False\<rparr>"

definition sendReadyForUnderwritingNotification :: "case_env \<Rightarrow> uuid \<Rightarrow> uuid \<Rightarrow> unit case_prog" where
  "sendReadyForUnderwritingNotification env tenantId caseId =
     (case buildToolRegistry [draftInformationRequestTool env, sendInformationRequestTool env] of
        Inl e \<Rightarrow> pthrow e
      | Inr tools \<Rightarrow>
          let ctx = \<lparr>atc_tenantId = tenantId, atc_caseId = caseId, atc_budgetReservationId = None\<rparr>
          in pcatch
            (pbind (query (\<lambda>_ db. has_approved_template tenantId db)) (\<lambda>has.
               if \<not> has then preturn ()
               else pbind (invokeTool env tools ''draft_information_request'' ctx (ForDraft (ready_notice caseId))) (\<lambda>d.
                      case d of
                        ToolSuccess (MessageDrafted mid _ _) \<Rightarrow>
                          pbind (invokeTool env tools ''send_information_request'' ctx (ForSend mid)) (\<lambda>_. preturn ())
                      | _ \<Rightarrow> preturn ())))
            (\<lambda>_. preturn ()))"

definition finalizeReadyForUnderwriting ::
  "case_env \<Rightarrow> case_input \<Rightarrow> uuid \<Rightarrow> uuid \<Rightarrow> int option \<Rightarrow> (case_db, case_error, unit) txn" where
  "finalizeReadyForUnderwriting env i tenantId caseId expected db =
     (let P = (\<lambda>c. is_case tenantId caseId c \<and> (case expected of None \<Rightarrow> True | Some v \<Rightarrow> lc_version c = v))
      in case expected of
           Some v \<Rightarrow>
             if affected P (cas_cases db) = 0 then Inl (StaleCaseVersionError caseId v)
             else put_event env i 0 (case_event tenantId caseId WorkflowRunCompleted
                    [(''caseId'', JStr caseId), (''finalStatus'', JStr (case_status_text READY_FOR_UNDERWRITING))])
                    (set_cases P i READY_FOR_UNDERWRITING db)
         | None \<Rightarrow>
             put_event env i 0 (case_event tenantId caseId WorkflowRunCompleted
               [(''caseId'', JStr caseId), (''finalStatus'', JStr (case_status_text READY_FOR_UNDERWRITING))])
               (set_cases P i READY_FOR_UNDERWRITING db))"

section \<open>Status updates\<close>

text \<open>A case is set to a status, whatever its status was, and the event is written.\<close>

definition mark_status ::
  "case_env \<Rightarrow> uuid \<Rightarrow> uuid \<Rightarrow> CaseStatus \<Rightarrow> OutboxEventType \<Rightarrow> (string \<times> json) list \<Rightarrow> unit case_prog" where
  "mark_status env tenantId caseId st kind payload =
     act (\<lambda>i. run_txn (\<lambda>db. put_event env i 0 (case_event tenantId caseId kind payload)
       (set_cases (is_case tenantId caseId) i st db)))"

definition markCollectingEvidence :: "case_env \<Rightarrow> uuid \<Rightarrow> uuid \<Rightarrow> unit case_prog" where
  "markCollectingEvidence env tenantId caseId =
     mark_status env tenantId caseId COLLECTING_EVIDENCE WorkflowRunStarted [(''caseId'', JStr caseId)]"

definition markWaitingForReview :: "case_env \<Rightarrow> uuid \<Rightarrow> uuid \<Rightarrow> string \<Rightarrow> unit case_prog" where
  "markWaitingForReview env tenantId caseId reason =
     mark_status env tenantId caseId WAITING_FOR_REVIEW EvaluationInterrupted
       [(''caseId'', JStr caseId), (''reason'', JStr reason)]"

definition markManualReview :: "case_env \<Rightarrow> uuid \<Rightarrow> uuid \<Rightarrow> string \<Rightarrow> unit case_prog" where
  "markManualReview env tenantId caseId reason =
     mark_status env tenantId caseId MANUAL_REVIEW WorkflowRunFailed
       [(''caseId'', JStr caseId), (''reason'', JStr reason)]"

definition markReadyForUnderwriting :: "case_env \<Rightarrow> uuid \<Rightarrow> uuid \<Rightarrow> unit case_prog" where
  "markReadyForUnderwriting env tenantId caseId =
     pbind (act (\<lambda>i. run_txn (finalizeReadyForUnderwriting env i tenantId caseId None))) (\<lambda>_.
       sendReadyForUnderwritingNotification env tenantId caseId)"

definition cancel_keeps :: "CaseStatus \<Rightarrow> bool" where
  "cancel_keeps st \<longleftrightarrow> st = READY_FOR_UNDERWRITING \<or> st = CASE_CLOSED"

definition cancel_txn :: "case_env \<Rightarrow> case_input \<Rightarrow> uuid \<Rightarrow> uuid \<Rightarrow> CaseStatus \<Rightarrow> (case_db, case_error, unit) txn" where
  "cancel_txn env i tenantId caseId seen db =
     put_event env i 0 (case_event tenantId caseId WorkflowRunCancelled
       [(''caseId'', JStr caseId), (''scope'', JStr ''ORCHESTRATION_ONLY''),
        (''providerCancellationAsserted'', JBool False), (''caseStatusAtCancellation'', JStr (case_status_text seen))])
       (if cancel_keeps seen then db else set_cases (is_case tenantId caseId) i MANUAL_REVIEW db)"

definition markWorkflowCancelled :: "case_env \<Rightarrow> uuid \<Rightarrow> uuid \<Rightarrow> unit case_prog" where
  "markWorkflowCancelled env tenantId caseId =
     pbind (case_or_fail tenantId caseId) (\<lambda>c.
       act (\<lambda>i. run_txn (cancel_txn env i tenantId caseId (lc_status c))))"

section \<open>Recovery\<close>

datatype PrepareWorkflowRecoveryResult =
    REUSE_OPEN_CONDITION uuid
  | RESTART_COLLECTION
  | RECOVERY_REVIEW_REQUIRED string

definition active_conditions :: "uuid \<Rightarrow> uuid \<Rightarrow> case_db \<Rightarrow> LoanCondition list" where
  "active_conditions tenantId caseId db =
     sort_key cnd_createdAt (filter (\<lambda>c. cnd_tenantId c = tenantId \<and> cnd_caseId c = caseId
       \<and> cnd_status c \<in> {COND_OPEN, COND_IN_PROGRESS, COND_WAITING_FOR_EVIDENCE}) (cas_conditions db))"

definition recovery_txn ::
  "case_env \<Rightarrow> case_input \<Rightarrow> uuid \<Rightarrow> uuid \<Rightarrow> string \<Rightarrow> LoanCondition list
     \<Rightarrow> (case_db, case_error, PrepareWorkflowRecoveryResult) txn" where
  "recovery_txn env i tenantId caseId recoveryOfRunId found db =
     and_then (put_event env i 0 (case_event tenantId caseId WorkflowRunRecoveryStarted
         [(''caseId'', JStr caseId), (''recoveryOfRunId'', JStr recoveryOfRunId),
          (''activeConditionCount'', JNum (js_int (int (length found))))]) db) (\<lambda>(_, db1).
       case found of
         [] \<Rightarrow> Inr (RESTART_COLLECTION, db1)
       | [c] \<Rightarrow> Inr (REUSE_OPEN_CONDITION (cnd_id c), set_cases (is_case tenantId caseId) i CONDITIONS_OPEN db1)
       | _ \<Rightarrow> Inr (RECOVERY_REVIEW_REQUIRED
                ''recovery found multiple active conditions; reviewer selection is required'', db1))"

definition prepareWorkflowRecovery ::
  "case_env \<Rightarrow> uuid \<Rightarrow> uuid \<Rightarrow> string \<Rightarrow> PrepareWorkflowRecoveryResult case_prog" where
  "prepareWorkflowRecovery env tenantId caseId recoveryOfRunId =
     pbind (query (\<lambda>_ db. active_conditions tenantId caseId db)) (\<lambda>found.
       act (\<lambda>i. run_txn (recovery_txn env i tenantId caseId recoveryOfRunId found)))"

section \<open>Resolving a condition\<close>

definition resolution_status :: "ConditionResolutionKind \<Rightarrow> ConditionStatus" where
  "resolution_status k = (case k of SATISFIED \<Rightarrow> COND_SATISFIED | WAIVED \<Rightarrow> COND_WAIVED)"

definition resolution_text :: "ConditionResolutionKind \<Rightarrow> string" where
  "resolution_text k = (case k of SATISFIED \<Rightarrow> ''SATISFIED'' | WAIVED \<Rightarrow> ''WAIVED'')"

definition condition_or_fail :: "uuid \<Rightarrow> LoanCondition case_prog" where
  "condition_or_fail cid =
     act (\<lambda>_ db. (or_throw (List.find (\<lambda>c. cnd_id c = cid) (cas_conditions db)) (RowNotFound ''LoanCondition''), db))"

definition resolve_condition_txn ::
  "case_env \<Rightarrow> case_input \<Rightarrow> uuid \<Rightarrow> uuid \<Rightarrow> LoanCondition \<Rightarrow> ResolveConditionSignalPayload
     \<Rightarrow> (case_db, case_error, unit) txn" where
  "resolve_condition_txn env i tenantId caseId seen p db =
     (let to = resolution_status (rcp_resolution p); cid = cnd_id seen
      in if kin_ids i 0 \<in> ctr_id ` set (cas_transitions db) then Inl CaseUniqueViolation
         else put_event env i 1 (case_event tenantId caseId
                (case rcp_resolution p of SATISFIED \<Rightarrow> ConditionSatisfied | WAIVED \<Rightarrow> ConditionWaived)
                [(''caseId'', JStr caseId), (''conditionId'', JStr cid), (''actorId'', JStr (rcp_actorId p)),
                 (''resolution'', JStr (resolution_text (rcp_resolution p))), (''reason'', or_null (rcp_reason p))])
              (db\<lparr>cas_conditions := update_where (\<lambda>c. cnd_id c = cid)
                    (\<lambda>c. c\<lparr>cnd_status := to, cnd_version := cnd_version c + 1\<rparr>) (cas_conditions db),
                  cas_transitions := cas_transitions db @
                    [\<lparr>ctr_id = kin_ids i 0, ctr_conditionId = cid, ctr_fromStatus = cnd_status seen, ctr_toStatus = to,
                      ctr_actorId = Some (rcp_actorId p), ctr_reason = rcp_reason p, ctr_occurredAt = kin_db_now i\<rparr>]\<rparr>))"

definition resolveCondition ::
  "case_env \<Rightarrow> uuid \<Rightarrow> uuid \<Rightarrow> uuid \<Rightarrow> ResolveConditionSignalPayload \<Rightarrow> unit case_prog" where
  "resolveCondition env tenantId caseId cid p =
     pbind (condition_or_fail cid) (\<lambda>c.
       act (\<lambda>i. run_txn (resolve_condition_txn env i tenantId caseId c p)))"

section \<open>Evaluating\<close>

datatype EvaluateConditionsResult =
    EvalReady
  | EvalConditionOpened uuid
  | EvalReviewRequired string
  | EvalInterrupted string

definition tenant_or_fail :: "uuid \<Rightarrow> TenantRunBudget case_prog" where
  "tenant_or_fail tenantId =
     act (\<lambda>_ db. (or_throw (List.find (\<lambda>t. trb_tenantId t = tenantId) (cas_tenants db)) (RowNotFound ''Tenant''), db))"

definition planner_tokens :: "case_env \<Rightarrow> int" where
  "planner_tokens env = (case kev_planner env of Some p \<Rightarrow> plc_tokenBudgetUnits p | None \<Rightarrow> 0)"

definition initial_state ::
  "case_env \<Rightarrow> CaseRow \<Rightarrow> string \<Rightarrow> ConsentStatus \<Rightarrow> int \<times> int \<Rightarrow> timestamp \<Rightarrow> LendingOperationsAgentState" where
  "initial_state env c workflowRunId consent budget now =
     \<lparr>st_tenantId = lc_tenantId c, st_caseId = lc_id c, st_caseVersion = lc_version c, st_workflowRunId = workflowRunId,
      st_workflowStatus = lc_status c, st_consentStatus = consent, st_attemptedTools = [], st_policyBindingId = None,
      st_modelVersion = None, st_promptVersion = None, st_modelAndPromptManifestId = None,
      st_remainingStepBudget = fst budget, st_remainingDurationBudgetMs = snd budget,
      st_remainingTokenBudget = planner_tokens env, st_remainingProviderCallBudget = 0, st_budgetCurrency = ''USD'',
      st_remainingCostBudgetMinorUnits = 0, st_budgetLedgerId = None, st_budgetLedgerVersion = 1,
      st_runStartedAt = now, st_runDeadlineAt = now + snd budget, st_proposedAction = None, st_reviewState = None\<rparr>"

definition run_input :: "case_env \<Rightarrow> LendingOperationsAgentState \<Rightarrow> int \<times> int \<Rightarrow> AgentRunInput" where
  "run_input env st budget =
     \<lparr>ari_initialState = st, ari_allowedTools = AGENT_ALLOWED_TOOLS,
      ari_budget = \<lparr>arb_stepBudget = fst budget, arb_durationBudgetMs = snd budget, arb_tokenBudget = planner_tokens env,
                    arb_providerCallBudget = 0, arb_costBudgetMinorUnits = 0, arb_currency = ''USD''\<rparr>,
      ari_runDeadlineAt = st_runDeadlineAt st\<rparr>"

definition proposed_condition :: "LendingOperationsAgentState \<Rightarrow> uuid option" where
  "proposed_condition st =
     (case Option.bind (st_proposedAction st) (\<lambda>a. map_of (aac_arguments a) ''conditionId'') of
        Some (JStr cid) \<Rightarrow> if cid = [] then None else Some cid
      | _ \<Rightarrow> None)"

definition review_reason :: "LendingOperationsAgentState \<Rightarrow> string \<Rightarrow> string" where
  "review_reason st fallback = (case Option.bind (st_reviewState st) hrs_reason of Some r \<Rightarrow> r | None \<Rightarrow> fallback)"

text \<open>The switch on the route of the run.\<close>

definition settle_run ::
  "case_env \<Rightarrow> uuid \<Rightarrow> uuid \<Rightarrow> int \<Rightarrow> AgentRunResult \<Rightarrow> EvaluateConditionsResult case_prog" where
  "settle_run env tenantId caseId version res =
     (case arr_route res of
        PROPOSED_ACTION \<Rightarrow>
          (case proposed_condition (arr_finalState res) of
             Some cid \<Rightarrow> preturn (EvalConditionOpened cid)
           | None \<Rightarrow>
               pbind (act (\<lambda>i. run_txn (finalizeReadyForUnderwriting env i tenantId caseId (Some version)))) (\<lambda>_.
               pbind (sendReadyForUnderwritingNotification env tenantId caseId) (\<lambda>_. preturn EvalReady)))
      | ROUTED_TO_MANUAL_REVIEW \<Rightarrow>
          preturn (EvalReviewRequired (review_reason (arr_finalState res) ''agent run routed to manual review''))
      | INTERRUPTED_FOR_REVIEW \<Rightarrow>
          preturn (EvalInterrupted (review_reason (arr_finalState res) ''ambiguity requires review''))
      | AWAITING_INFORMATION \<Rightarrow>
          preturn (EvalReviewRequired (''unexpected Agent run route '' @ quoted ''AWAITING_INFORMATION'')))"

definition evaluateConditions :: "case_env \<Rightarrow> uuid \<Rightarrow> uuid \<Rightarrow> string \<Rightarrow> EvaluateConditionsResult case_prog" where
  "evaluateConditions env tenantId caseId workflowRunId =
     pbind (case_or_fail tenantId caseId) (\<lambda>c.
     pbind (query (\<lambda>i db. getStatus (kin_now i) tenantId caseId (cas_platform db))) (\<lambda>consent.
     pbind (tenant_or_fail tenantId) (\<lambda>t.
     pbind now_js (\<lambda>now.
       let budget = resolveAgentRunBudget t; st = initial_state env c workflowRunId consent budget now
       in pbind (run_agent env (run_input env st budget)) (settle_run env tenantId caseId (lc_version c))))))"

end
