(* ===== verification/Case_Service.thy ===== *)
theory Case_Service
  imports Case_Activities
begin

text \<open>
  The case API, \<open>src/src/cases/cases.service.ts\<close>, with the client of the workflow service
  it calls, \<open>src/src/workflows/temporal-client.service.ts\<close>. A request to the workflow
  service is a step that notes it and reads the reply; describing an execution only reads.
  The timeline and the telemetry are left out; a dash in a message is written as a hyphen.
\<close>

section \<open>The client of the workflow service\<close>

definition ask :: "temporal_request \<Rightarrow> temporal_reply case_prog" where
  "ask req = act (\<lambda>i db. (Inr (kin_temporal i), db\<lparr>cas_temporal := cas_temporal db @ [req]\<rparr>))"

definition describe_workflow :: "temporal_reply case_prog" where
  "describe_workflow = query (\<lambda>i _. kin_temporal i)"

definition workflow_id :: "uuid \<Rightarrow> string" where
  "workflow_id caseId = ''case-conditions-'' @ caseId"

definition service_error :: "temporal_reply \<Rightarrow> case_error" where
  "service_error r =
     (case r of NoSuchWorkflow \<Rightarrow> WorkflowNotFoundError
      | ServiceError m \<Rightarrow> PlainError m
      | _ \<Rightarrow> PlainError ''unexpected reply'')"

record StartWorkflowRunResult =
  swr_workflowId :: string
  swr_runId :: string

record WorkflowRunStatus =
  wrs_workflowId :: string
  wrs_runId :: string
  wrs_status :: string

definition getWorkflowStatus :: "uuid \<Rightarrow> WorkflowRunStatus case_prog" where
  "getWorkflowStatus caseId =
     pbind describe_workflow (\<lambda>r.
       case r of
         Described runId st \<Rightarrow>
           preturn \<lparr>wrs_workflowId = workflow_id caseId, wrs_runId = runId, wrs_status = st\<rparr>
       | _ \<Rightarrow> pthrow (service_error r))"

definition startCaseConditionsWorkflow :: "CaseConditionsWorkflowInput \<Rightarrow> StartWorkflowRunResult case_prog" where
  "startCaseConditionsWorkflow inp =
     pbind (ask (StartRequest inp)) (\<lambda>r.
       case r of
         Accepted runId \<Rightarrow> preturn \<lparr>swr_workflowId = workflow_id (wfi_caseId inp), swr_runId = runId\<rparr>
       | AlreadyStarted \<Rightarrow>
           pbind (getWorkflowStatus (wfi_caseId inp)) (\<lambda>w.
             preturn \<lparr>swr_workflowId = workflow_id (wfi_caseId inp), swr_runId = wrs_runId w\<rparr>)
       | _ \<Rightarrow> pthrow (service_error r))"

definition recoverCaseConditionsWorkflow :: "CaseConditionsWorkflowInput \<Rightarrow> StartWorkflowRunResult case_prog" where
  "recoverCaseConditionsWorkflow inp =
     pbind (ask (RecoverRequest inp)) (\<lambda>r.
       case r of
         Accepted runId \<Rightarrow> preturn \<lparr>swr_workflowId = workflow_id (wfi_caseId inp), swr_runId = runId\<rparr>
       | _ \<Rightarrow> pthrow (service_error r))"

definition send_signal :: "temporal_request \<Rightarrow> unit case_prog" where
  "send_signal req =
     pbind (ask req) (\<lambda>r. case r of Accepted _ \<Rightarrow> preturn () | _ \<Rightarrow> pthrow (service_error r))"

section \<open>Creating a case\<close>

record CreateCaseDto =
  dto_borrowerId :: string
  dto_requestedAmount :: js_number
  dto_loanType :: LoanType
  dto_statedMonthlyIncome :: js_number
  dto_jurisdictionCode :: string

definition by_key :: "uuid \<Rightarrow> string \<Rightarrow> CaseRow \<Rightarrow> bool" where
  "by_key tenantId key c \<longleftrightarrow> lc_tenantId c = tenantId \<and> lc_idempotencyKey c = key"

definition new_case :: "case_input \<Rightarrow> string \<Rightarrow> uuid \<Rightarrow> CreateCaseDto \<Rightarrow> CaseRow" where
  "new_case i key tenantId dto =
     \<lparr>lc_id = kin_ids i 0, lc_tenantId = tenantId, lc_jurisdictionCode = dto_jurisdictionCode dto,
      lc_loanType = dto_loanType dto, lc_createdAt = kin_db_now i, lc_idempotencyKey = key,
      lc_borrowerId = dto_borrowerId dto, lc_requestedAmount = dto_requestedAmount dto,
      lc_statedMonthlyIncome = dto_statedMonthlyIncome dto, lc_status = CASE_DRAFT, lc_version = 1,
      lc_updatedAt = kin_db_now i\<rparr>"

text \<open>The columns of the stored row are decimals.\<close>

definition stored_case :: "case_env \<Rightarrow> CaseRow \<Rightarrow> case_error + CaseRow" where
  "stored_case env c =
     (case (kev_decimal env (lc_requestedAmount c), kev_decimal env (lc_statedMonthlyIncome c)) of
        (Some a, Some m) \<Rightarrow> Inr (c\<lparr>lc_requestedAmount := a, lc_statedMonthlyIncome := m\<rparr>)
      | _ \<Rightarrow> Inl DecimalOutOfRange)"

definition loan_type_text :: "LoanType \<Rightarrow> string" where
  "loan_type_text t =
     (case t of CONVENTIONAL \<Rightarrow> ''CONVENTIONAL'' | FHA \<Rightarrow> ''FHA'' | VA \<Rightarrow> ''VA'' | JUMBO \<Rightarrow> ''JUMBO'')"

definition create_case_txn ::
  "case_env \<Rightarrow> case_input \<Rightarrow> string \<Rightarrow> uuid \<Rightarrow> CreateCaseDto \<Rightarrow> (case_db, case_error, CaseRow) txn" where
  "create_case_txn env i key tenantId dto db =
     (let c = new_case i key tenantId dto
      in and_then (stored_case env c) (\<lambda>row.
         if list_ex (\<lambda>x. lc_id x = lc_id c \<or> by_key tenantId key x) (cas_cases db) then Inl CaseUniqueViolation
         else and_then (put_event env i 1 (case_event tenantId (lc_id c) LoanCaseCreated
                [(''caseId'', JStr (lc_id c)), (''borrowerId'', JStr (dto_borrowerId dto)),
                 (''requestedAmount'', JNum (dto_requestedAmount dto)), (''loanType'', JStr (loan_type_text (dto_loanType dto))),
                 (''statedMonthlyIncome'', JNum (dto_statedMonthlyIncome dto)),
                 (''jurisdictionCode'', JStr (dto_jurisdictionCode dto))])
                (db\<lparr>cas_cases := cas_cases db @ [row]\<rparr>)) (\<lambda>(_, db'). Inr (c, db'))))"

definition grant_consent :: "uuid \<Rightarrow> uuid \<Rightarrow> ConsentRecord case_prog" where
  "grant_consent tenantId caseId =
     on_platform (\<lambda>i. run_txn (grantForCase (kin_now i) (kin_ids i 0) tenantId caseId DEFAULT_PROVIDER_PURPOSE DEFAULT_SCOPE))"

definition unique_violation :: "case_error \<Rightarrow> bool" where
  "unique_violation e \<longleftrightarrow> e = CaseUniqueViolation \<or> e = PlatformFailure UniqueKeyViolation"

definition case_by_key :: "uuid \<Rightarrow> string \<Rightarrow> CaseRow case_prog" where
  "case_by_key tenantId key =
     act (\<lambda>_ db. (or_throw (List.find (by_key tenantId key) (cas_cases db)) (RowNotFound ''LoanCase''), db))"

definition createCase :: "case_env \<Rightarrow> string \<Rightarrow> uuid \<Rightarrow> CreateCaseDto \<Rightarrow> CaseRow case_prog" where
  "createCase env key tenantId dto =
     pbind (query (\<lambda>_ db. list_ex (\<lambda>t. trb_tenantId t = tenantId) (cas_tenants db))) (\<lambda>known.
       if \<not> known then pthrow (NotFoundException (''Tenant '' @ tenantId @ '' not found'')) else
     pbind (query (\<lambda>_ db. list_ex (\<lambda>j. jur_code j = dto_jurisdictionCode dto) (pol_jurisdictions (cas_policy db)))) (\<lambda>covered.
       if \<not> covered then pthrow (NotFoundException (''Jurisdiction '' @ dto_jurisdictionCode dto @ '' not found'')) else
     pbind (query (\<lambda>_ db. List.find (by_key tenantId key) (cas_cases db))) (\<lambda>existing.
       case existing of
         Some c \<Rightarrow> preturn c
       | None \<Rightarrow>
           pcatch
             (pbind (act (\<lambda>i. run_txn (create_case_txn env i key tenantId dto))) (\<lambda>c.
              pbind (grant_consent tenantId (lc_id c)) (\<lambda>_. preturn c)))
             (\<lambda>e. if unique_violation e then case_by_key tenantId key else pthrow e))))"

section \<open>Operations on a case\<close>

definition getCase :: "uuid \<Rightarrow> uuid \<Rightarrow> CaseRow case_prog" where
  "getCase tenantId caseId =
     act (\<lambda>_ db. (or_throw (find_case db tenantId caseId) (NotFoundException (''Case '' @ caseId @ '' not found'')), db))"

definition workflow_input :: "CaseRow \<Rightarrow> string option \<Rightarrow> CaseConditionsWorkflowInput" where
  "workflow_input c recoveryOf =
     \<lparr>wfi_tenantId = lc_tenantId c, wfi_caseId = lc_id c, wfi_borrowerId = lc_borrowerId c, wfi_recoveryOfRunId = recoveryOf\<rparr>"

definition startWorkflow :: "uuid \<Rightarrow> uuid \<Rightarrow> StartWorkflowRunResult case_prog" where
  "startWorkflow tenantId caseId =
     pbind (getCase tenantId caseId) (\<lambda>c. startCaseConditionsWorkflow (workflow_input c None))"

definition getWorkflowRun :: "uuid \<Rightarrow> uuid \<Rightarrow> string \<Rightarrow> WorkflowRunStatus case_prog" where
  "getWorkflowRun tenantId caseId runId =
     pbind (getCase tenantId caseId) (\<lambda>_.
       pcatch (getWorkflowStatus caseId) (\<lambda>e. pthrow
         (if e = WorkflowNotFoundError
          then NotFoundException (''Workflow run '' @ runId @ '' not found for case '' @ caseId) else e)))"

definition RECOVERABLE_WORKFLOW_STATUSES :: "string list" where
  "RECOVERABLE_WORKFLOW_STATUSES = [''CANCELLED'', ''FAILED'', ''TIMED_OUT'', ''TERMINATED'']"

record WorkflowOperationQueueItem = WorkflowRunStatus +
  woq_caseId :: uuid
  woq_caseStatus :: CaseStatus
  woq_caseUpdatedAt :: timestamp

definition operation_of :: "CaseRow \<Rightarrow> WorkflowOperationQueueItem option case_prog" where
  "operation_of c =
     pcatch (pbind (getWorkflowStatus (lc_id c)) (\<lambda>w. preturn
       (if wrs_status w \<noteq> ''RUNNING'' \<and> wrs_status w \<notin> set RECOVERABLE_WORKFLOW_STATUSES then None
        else Some (WorkflowRunStatus.extend w
               \<lparr>woq_caseId = lc_id c, woq_caseStatus = lc_status c, woq_caseUpdatedAt = lc_updatedAt c\<rparr>))))
       (\<lambda>e. if e = WorkflowNotFoundError then preturn None else pthrow e)"

definition listWorkflowOperations :: "uuid \<Rightarrow> WorkflowOperationQueueItem list case_prog" where
  "listWorkflowOperations tenantId =
     pbind (query (\<lambda>_ db. take 100 (rev (sort_key lc_updatedAt (filter (\<lambda>c. lc_tenantId c = tenantId) (cas_cases db)))))) (\<lambda>cs.
     pbind (pmap_list operation_of cs) (\<lambda>items. preturn (List.map_filter id items)))"

definition cancelWorkflow :: "uuid \<Rightarrow> uuid \<Rightarrow> string \<Rightarrow> WorkflowRunStatus case_prog" where
  "cancelWorkflow tenantId caseId runId =
     pbind (getCase tenantId caseId) (\<lambda>_.
     pbind (getWorkflowRun tenantId caseId runId) (\<lambda>w.
       if wrs_status w \<noteq> ''RUNNING''
       then pthrow (ConflictException (''Workflow run '' @ runId @ '' cannot be cancelled from '' @ wrs_status w))
       else pbind (send_signal (CancelRequest caseId runId)) (\<lambda>_. preturn w)))"

definition recoverWorkflow :: "uuid \<Rightarrow> uuid \<Rightarrow> string \<Rightarrow> StartWorkflowRunResult case_prog" where
  "recoverWorkflow tenantId caseId runId =
     pbind (getCase tenantId caseId) (\<lambda>c.
       if lc_status c = READY_FOR_UNDERWRITING \<or> lc_status c = CASE_CLOSED
       then pthrow (ConflictException (''Case '' @ caseId @ '' cannot be recovered''))
       else pbind (getWorkflowRun tenantId caseId runId) (\<lambda>w.
         if wrs_status w \<notin> set RECOVERABLE_WORKFLOW_STATUSES
         then pthrow (ConflictException (''Workflow run '' @ runId @ '' cannot be recovered from '' @ wrs_status w))
         else pbind (getWorkflowStatus caseId) (\<lambda>newest.
           if wrs_runId newest \<noteq> runId
           then pthrow (ConflictException (''Workflow run '' @ runId @ '' is no longer the latest execution for case '' @ caseId))
           else recoverCaseConditionsWorkflow (workflow_input c (Some runId)))))"

datatype ReviewDto =
    ConditionResolution ResolveConditionSignalPayload
  | ResumeEvaluation ResumeInterruptedEvaluationSignalPayload

definition submitReview :: "uuid \<Rightarrow> uuid \<Rightarrow> ReviewDto \<Rightarrow> unit case_prog" where
  "submitReview tenantId caseId dto =
     pbind (getCase tenantId caseId) (\<lambda>_.
       pcatch (send_signal (case dto of
                 ResumeEvaluation p \<Rightarrow> ResumeSignal caseId p | ConditionResolution p \<Rightarrow> ResolveSignal caseId p))
         (\<lambda>e. pthrow (if e = WorkflowNotFoundError
                     then NotFoundException (''No running workflow for case '' @ caseId) else e)))"

datatype ConsentActionDto = GRANT | REVOKE "string option"

definition submitConsentAction :: "uuid \<Rightarrow> uuid \<Rightarrow> ConsentActionDto \<Rightarrow> ConsentRecord case_prog" where
  "submitConsentAction tenantId caseId dto =
     pbind (getCase tenantId caseId) (\<lambda>_.
       case dto of
         REVOKE reason \<Rightarrow>
           on_platform (\<lambda>i. run_txn (revoke_consent (kin_now i) (kin_ids i 0) tenantId caseId reason))
       | GRANT \<Rightarrow> grant_consent tenantId caseId)"

definition listConsents :: "uuid \<Rightarrow> uuid \<Rightarrow> ConsentRecord list case_prog" where
  "listConsents tenantId caseId =
     pbind (getCase tenantId caseId) (\<lambda>_. query (\<lambda>_ db. listConsentsForCase tenantId caseId (cas_platform db)))"

definition no_reservation :: "uuid \<Rightarrow> uuid \<Rightarrow> AgentToolContext" where
  "no_reservation tenantId caseId = \<lparr>atc_tenantId = tenantId, atc_caseId = caseId, atc_budgetReservationId = None\<rparr>"

definition escalate :: "case_env \<Rightarrow> uuid \<Rightarrow> uuid \<Rightarrow> string \<Rightarrow> unit case_prog" where
  "escalate env tenantId caseId reason =
     pbind (getCase tenantId caseId) (\<lambda>c.
       case buildToolRegistry [escalateToReviewerTool env] of
         Inl e \<Rightarrow> pthrow e
       | Inr reg \<Rightarrow>
           pbind (invokeTool env reg ''escalate_to_reviewer'' (no_reservation tenantId caseId)
                    (ForEscalate reason (lc_version c))) (\<lambda>r.
             case r of
               ToolFailure m \<Rightarrow> pthrow (PlainError (''escalate_to_reviewer failed: '' @ m))
             | ToolSuccess EscalationStale \<Rightarrow>
                 pthrow (ConflictException (''case '' @ caseId @ '' changed since it was last read - retry''))
             | ToolSuccess (EscalationInvalidStatus st) \<Rightarrow>
                 pthrow (ConflictException (''case '' @ caseId @ '' cannot be escalated from status '' @ case_status_text st))
             | ToolSuccess _ \<Rightarrow> preturn ()))"

definition checkPolicyChangeImpact ::
  "case_env \<Rightarrow> uuid \<Rightarrow> uuid \<Rightarrow> uuid \<Rightarrow> PolicyChangeImpactAssessment option case_prog" where
  "checkPolicyChangeImpact env tenantId caseId policyVersionId =
     pbind (getCase tenantId caseId) (\<lambda>_.
       case buildToolRegistry [checkPolicyChangeImpactTool env] of
         Inl e \<Rightarrow> pthrow e
       | Inr reg \<Rightarrow>
           pbind (invokeTool env reg ''check_policy_change_impact'' (no_reservation tenantId caseId)
                    (ForImpact policyVersionId)) (\<lambda>r.
             case r of
               ToolFailure m \<Rightarrow> pthrow (PlainError (''check_policy_change_impact failed: '' @ m))
             | ToolSuccess (ImpactAssessed a) \<Rightarrow> preturn a
             | ToolSuccess _ \<Rightarrow> pthrow (PlainError ''TypeError'')))"

end
