(* ===== verification/Case_System.thy ===== *)
theory Case_System
  imports Keeping Case_Service Budget_Invariant Communication_System
begin

text \<open>
  All handlers of the case system at once: the case API, the activities with the agent runs
  they contain, and the messages. \<open>case_inv\<close> is what every interleaving of them keeps:
  the status of a case is what its events say when they are replayed in order, keys are
  unique, a run that proposes an action has a manifest, and the budget books balance.

  \<open>replay\<close> is the specification of the outbox: what a consumer of the events knows about
  the status of a case.
\<close>

section \<open>What the events say\<close>

definition cancel_kept :: "json \<Rightarrow> bool" where
  "cancel_kept payload \<longleftrightarrow>
     member_of payload ''caseStatusAtCancellation'' \<in> {Some (JStr ''READY_FOR_UNDERWRITING''), Some (JStr ''CLOSED'')}"

definition one_condition :: "json \<Rightarrow> bool" where
  "one_condition payload \<longleftrightarrow> member_of payload ''activeConditionCount'' = Some (JNum (js_int 1))"

text \<open>The status a case has after an event; before its creation it has none.\<close>

definition after_event :: "OutboxEvent \<Rightarrow> CaseStatus option \<Rightarrow> CaseStatus option" where
  "after_event e st =
     (let kind = obx_eventType e
      in if kind = event_text LoanCaseCreated then Some CASE_DRAFT
         else map_option (\<lambda>s.
           if kind = event_text WorkflowRunStarted then COLLECTING_EVIDENCE
           else if kind = event_text ConditionOpened then CONDITIONS_OPEN
           else if kind = event_text WorkflowRunRecoveryStarted \<and> one_condition (obx_payload e) then CONDITIONS_OPEN
           else if kind = event_text EvaluationInterrupted \<or> kind = event_text CaseEscalated then WAITING_FOR_REVIEW
           else if kind = event_text WorkflowRunFailed then MANUAL_REVIEW
           else if kind = event_text WorkflowRunCancelled \<and> \<not> cancel_kept (obx_payload e) then MANUAL_REVIEW
           else if kind = event_text WorkflowRunCompleted then READY_FOR_UNDERWRITING
           else s) st)"

definition replay :: "OutboxEvent list \<Rightarrow> CaseStatus option" where
  "replay es = fold after_event es None"

definition events_of :: "case_db \<Rightarrow> uuid \<Rightarrow> uuid \<Rightarrow> OutboxEvent list" where
  "events_of db tenantId caseId = filter (\<lambda>e. obx_tenantId e = tenantId \<and> obx_caseId e = caseId) (cas_outbox db)"

definition told :: "case_db \<Rightarrow> CaseRow \<Rightarrow> CaseStatus option" where
  "told db c = replay (events_of db (lc_tenantId c) (lc_id c))"

section \<open>The invariant\<close>

definition create_key :: "CaseRow \<Rightarrow> uuid \<times> string" where
  "create_key c = (lc_tenantId c, lc_idempotencyKey c)"

definition manifested :: "case_db \<Rightarrow> uuid \<Rightarrow> uuid \<Rightarrow> bool" where
  "manifested db tenantId caseId \<longleftrightarrow> (tenantId, caseId) \<in> (\<lambda>m. (eim_tenantId m, eim_caseId m)) ` set (cas_manifests db)"

definition case_inv :: "case_db \<Rightarrow> bool" where
  "case_inv db \<longleftrightarrow>
     distinct (map lc_id (cas_cases db)) \<and> distinct (map create_key (cas_cases db))
     \<and> (\<forall>c \<in> set (cas_cases db). told db c = Some (lc_status c))
     \<and> (\<forall>r \<in> set (cas_runs db). run_route r = PROPOSED_ACTION \<longrightarrow> manifested db (run_tenantId r) (run_caseId r))
     \<and> budget_inv (cas_budget db)"

text \<open>Cases stay, with their tenant and key, and so do events, condition transitions and manifests.\<close>

definition case_R :: "case_db \<Rightarrow> case_db \<Rightarrow> bool" where
  "case_R db db' \<longleftrightarrow>
     (\<lambda>c. (lc_id c, create_key c)) ` set (cas_cases db) \<subseteq> (\<lambda>c. (lc_id c, create_key c)) ` set (cas_cases db')
     \<and> set (cas_outbox db) \<subseteq> set (cas_outbox db') \<and> set (cas_transitions db) \<subseteq> set (cas_transitions db')
     \<and> set (cas_manifests db) \<subseteq> set (cas_manifests db')"

interpretation cs: rely_guarantee case_inv case_R
  by unfold_locales (simp add: case_R_def, unfold case_R_def, meson subset_trans)

named_theorems oks

abbreviation case_ok :: "'a case_prog \<Rightarrow> bool" where
  "case_ok \<equiv> keeps case_inv case_R"

lemmas ok_intros [oks] = keeps_preturn keeps_pthrow keeps_pbind keeps_pcatch keeps_pmap_list cs.keeps_query cs.keeps_read

lemma ok_act:
  assumes "\<And>i db r db'. case_inv db \<Longrightarrow> p i db = (r, db') \<Longrightarrow> case_inv db' \<and> case_R db db'"
  shows "case_ok (act p)"
  by (rule keeps_act) (use assms in blast)

lemma ok_txn:
  assumes "\<And>i db a db'. case_inv db \<Longrightarrow> t i db = Inr (a, db') \<Longrightarrow> case_inv db' \<and> case_R db db'"
  shows "case_ok (act (\<lambda>i. run_txn (t i)))"
  by (rule cs.keeps_txn) (use assms in blast)

text \<open>What does not touch cases, events and budgets, and removes nothing, is no matter.\<close>

definition unmoved :: "case_db \<Rightarrow> case_db \<Rightarrow> bool" where
  "unmoved db db' \<longleftrightarrow> cas_cases db' = cas_cases db \<and> cas_outbox db' = cas_outbox db \<and> cas_budget db' = cas_budget db
     \<and> set (cas_transitions db) \<subseteq> set (cas_transitions db') \<and> set (cas_manifests db) \<subseteq> set (cas_manifests db')
     \<and> cas_runs db' = cas_runs db"

lemma manifested_mono: "set (cas_manifests db) \<subseteq> set (cas_manifests db') \<Longrightarrow> manifested db t c \<Longrightarrow> manifested db' t c"
  by (auto simp: manifested_def)

lemma unmoved_ok: "case_inv db \<Longrightarrow> unmoved db db' \<Longrightarrow> case_inv db' \<and> case_R db db'"
  by (auto simp: case_inv_def case_R_def unmoved_def told_def events_of_def dest: manifested_mono)

section \<open>Components\<close>

lemma ok_zoom:
  assumes "steps_in G p"
    and "\<And>s t. case_inv s \<Longrightarrow> G (view s) t \<Longrightarrow> case_inv (back t s) \<and> case_R s (back t s)"
  shows "case_ok (zoom inp view back err p)"
  using assms(1)
proof induction
  case (steps_Act k)
  have k: "G (view t) (snd (k (inp i) (view t)))" "case_ok (zoom inp view back err (fst (k (inp i) (view t))))" for i t
    using steps_Act by blast+
  show ?case
    unfolding keeps_def zoom.simps
    by (intro allI rg_Act) (use k assms(2) in \<open>simp add: keeps_def\<close>)
qed (simp add: keeps_def)

lemma ok_on_policy [oks]: "case_ok (on_policy p)"
  unfolding on_policy_def
  by (rule ok_zoom [OF steps_any]) (auto intro!: unmoved_ok simp: unmoved_def)

lemma ok_on_budget:
  assumes "\<And>i b r b'. budget_inv b \<Longrightarrow> p i b = (r, b') \<Longrightarrow> budget_inv b'"
  shows "case_ok (on_budget p)"
  unfolding on_budget_def
proof (rule ok_act)
  fix i db r db'
  assume inv: "case_inv db"
    and p: "(case p i (cas_budget db) of (r, b) \<Rightarrow> (map_sum BudgetFailure id r, db\<lparr>cas_budget := b\<rparr>)) = (r, db')"
  obtain x b where b: "p i (cas_budget db) = (x, b)" by fastforce
  with p have "db' = db\<lparr>cas_budget := b\<rparr>" by simp
  moreover have "budget_inv b" using assms [OF _ b] inv by (simp add: case_inv_def)
  ultimately show "case_inv db' \<and> case_R db db'"
    using inv by (auto simp: case_inv_def case_R_def told_def events_of_def manifested_def)
qed

lemma ok_on_platform [oks]: "case_ok (on_platform p)"
  unfolding on_platform_def
  by (rule ok_act) (auto intro!: unmoved_ok simp: unmoved_def split: prod.splits)

section \<open>Events\<close>

lemma told_append:
  "told (db\<lparr>cas_cases := cs, cas_outbox := cas_outbox db @ [e]\<rparr>) c =
     (if obx_tenantId e = lc_tenantId c \<and> obx_caseId e = lc_id c then after_event e (told db c) else told db c)"
  by (simp add: told_def events_of_def replay_def)

lemma told_cong: "cas_outbox db' = cas_outbox db \<Longrightarrow> lc_tenantId c' = lc_tenantId c \<Longrightarrow> lc_id c' = lc_id c \<Longrightarrow> told db' c' = told db c"
  by (simp add: told_def events_of_def)

text \<open>
  One event for the case \<open>caseId\<close>, and rows changed by \<open>f\<close>: the row of that case as the
  event says, every other one not in its status.
\<close>

lemma event_ok:
  assumes inv: "case_inv db"
    and db': "cas_cases db' = map f (cas_cases db)" "cas_outbox db' = cas_outbox db @ [e]" "cas_budget db' = cas_budget db"
    and more: "set (cas_transitions db) \<subseteq> set (cas_transitions db')" "cas_manifests db' = cas_manifests db" "cas_runs db' = cas_runs db"
    and e: "obx_tenantId e = tenantId" "obx_caseId e = caseId"
    and same: "\<And>c. lc_id (f c) = lc_id c" "\<And>c. create_key (f c) = create_key c"
    and hit: "\<And>c. c \<in> set (cas_cases db) \<Longrightarrow> is_case tenantId caseId c \<Longrightarrow> after_event e (Some (lc_status c)) = Some (lc_status (f c))"
    and miss: "\<And>c. c \<in> set (cas_cases db) \<Longrightarrow> \<not> is_case tenantId caseId c \<Longrightarrow> lc_status (f c) = lc_status c"
  shows "case_inv db' \<and> case_R db db'"
proof
  have tenant: "lc_tenantId (f c) = lc_tenantId c" for c using same(2) [of c] by (simp add: create_key_def)
  have "told db' (f c) = Some (lc_status (f c))" if c: "c \<in> set (cas_cases db)" for c
  proof -
    have "told db' (f c) = told (db\<lparr>cas_cases := [], cas_outbox := cas_outbox db @ [e]\<rparr>) c"
      by (rule told_cong) (simp_all add: db' same tenant)
    moreover have "told db c = Some (lc_status c)" using inv c by (simp add: case_inv_def)
    ultimately show ?thesis
      using hit [OF c] miss [OF c] by (auto simp: told_append e is_case_def)
  qed
  then show "case_inv db'"
    using inv more by (simp add: case_inv_def db' comp_def same manifested_def)
  have "(\<lambda>c. (lc_id c, create_key c)) ` f ` S = (\<lambda>c. (lc_id c, create_key c)) ` S" for S
    by (simp add: image_image same)
  then show "case_R db db'" using more by (auto simp: case_R_def db')
qed

lemma put_event_Inr [result_simps]:
  "put_event env i k inp db = Inr (u, db') \<longleftrightarrow>
     kin_ids i k \<notin> obx_id ` set (cas_outbox db) \<and>
     db' = db\<lparr>cas_outbox := cas_outbox db @
       [outbox_event (cme_web (kev_comm env)) (cme_outboxSecret (kev_comm env)) inp (kin_ids i k) (kin_now i)]\<rparr>"
  by (auto simp: put_event_def)

lemma outbox_event_simps [simp]:
  "obx_tenantId (outbox_event w k inp n t) = obi_tenantId inp" "obx_caseId (outbox_event w k inp n t) = obi_caseId inp"
  "obx_eventType (outbox_event w k inp n t) = obi_eventType inp" "obx_payload (outbox_event w k inp n t) = obi_payload inp"
  by (simp_all add: outbox_event_def)

lemma case_event_simps [simp]:
  "obi_tenantId (case_event t c kind ps) = t" "obi_caseId (case_event t c kind ps) = c"
  "obi_eventType (case_event t c kind ps) = event_text kind" "obi_payload (case_event t c kind ps) = JObj ps"
  by (simp_all add: case_event_def)

lemma after_case_event [simp]:
  "after_event (outbox_event w k (case_event t c kind ps) n u) st =
     (case kind of
        LoanCaseCreated \<Rightarrow> Some CASE_DRAFT
      | WorkflowRunStarted \<Rightarrow> map_option (\<lambda>_. COLLECTING_EVIDENCE) st
      | ConditionOpened \<Rightarrow> map_option (\<lambda>_. CONDITIONS_OPEN) st
      | WorkflowRunRecoveryStarted \<Rightarrow> if one_condition (JObj ps) then map_option (\<lambda>_. CONDITIONS_OPEN) st else st
      | EvaluationInterrupted \<Rightarrow> map_option (\<lambda>_. WAITING_FOR_REVIEW) st
      | CaseEscalated \<Rightarrow> map_option (\<lambda>_. WAITING_FOR_REVIEW) st
      | WorkflowRunFailed \<Rightarrow> map_option (\<lambda>_. MANUAL_REVIEW) st
      | WorkflowRunCancelled \<Rightarrow> if cancel_kept (JObj ps) then st else map_option (\<lambda>_. MANUAL_REVIEW) st
      | WorkflowRunCompleted \<Rightarrow> map_option (\<lambda>_. READY_FOR_UNDERWRITING) st
      | _ \<Rightarrow> st)"
  by (cases kind) (simp_all add: after_event_def option.map_ident)

lemma with_status_simps [simp]:
  "lc_id (with_status i st c) = lc_id c" "lc_tenantId (with_status i st c) = lc_tenantId c"
  "create_key (with_status i st c) = create_key c" "lc_status (with_status i st c) = st"
  "lc_version (with_status i st c) = lc_version c + 1"
  by (simp_all add: with_status_def create_key_def)

lemma set_cases_simps [simp]:
  "cas_cases (set_cases P i st db) = map (\<lambda>c. if P c then with_status i st c else c) (cas_cases db)"
  "cas_outbox (set_cases P i st db) = cas_outbox db" "cas_budget (set_cases P i st db) = cas_budget db"
  "cas_conditions (set_cases P i st db) = cas_conditions db" "cas_transitions (set_cases P i st db) = cas_transitions db"
  "cas_runs (set_cases P i st db) = cas_runs db" "cas_manifests (set_cases P i st db) = cas_manifests db"
  by (simp_all add: set_cases_def update_where_def)

text \<open>A status is set and its event written.\<close>

lemma status_event_ok:
  assumes "case_inv db"
    and "cas_cases db' = map (\<lambda>c. if P c then with_status i st c else c) (cas_cases db)"
    and "cas_outbox db' = cas_outbox db @ [e]" "cas_budget db' = cas_budget db"
    and "set (cas_transitions db) \<subseteq> set (cas_transitions db')" "cas_manifests db' = cas_manifests db" "cas_runs db' = cas_runs db"
    and "obx_tenantId e = tenantId" "obx_caseId e = caseId"
    and "\<And>c. P c \<Longrightarrow> is_case tenantId caseId c"
    and "\<And>c. c \<in> set (cas_cases db) \<Longrightarrow> is_case tenantId caseId c \<Longrightarrow> P c"
    and "\<And>s. after_event e (Some s) = Some st"
  shows "case_inv db' \<and> case_R db db'"
  by (rule event_ok [OF assms(1-4), of tenantId caseId]) (use assms(5-) in auto)

text \<open>An event is written that says nothing about the status.\<close>

lemma quiet_event_ok:
  assumes "case_inv db"
    and "cas_cases db' = cas_cases db" "cas_outbox db' = cas_outbox db @ [e]" "cas_budget db' = cas_budget db"
    and "set (cas_transitions db) \<subseteq> set (cas_transitions db')" "cas_manifests db' = cas_manifests db" "cas_runs db' = cas_runs db"
    and "\<And>s. after_event e (Some s) = Some s"
  shows "case_inv db' \<and> case_R db db'"
  by (rule event_ok [of db db' "\<lambda>c. c" e "obx_tenantId e" "obx_caseId e"]) (use assms in auto)

section \<open>Transactions\<close>

lemma same_case:
  assumes "case_inv db" "c \<in> set (cas_cases db)" "d \<in> set (cas_cases db)" "is_case t k c" "is_case t k d"
  shows "c = d"
  using assms by (auto simp: case_inv_def is_case_def distinct_map inj_on_def)

lemma affected_same:
  assumes "case_inv db" "affected (\<lambda>c. is_case t k c \<and> Q c) (cas_cases db) \<noteq> 0"
    and "c \<in> set (cas_cases db)" "is_case t k c"
  shows "Q c"
proof -
  from assms(2) obtain d where "d \<in> set (cas_cases db)" "is_case t k d" "Q d"
    by (auto simp: affected_def filter_empty_conv)
  with assms same_case show ?thesis by metis
qed

lemma cok_mark_status [oks]:
  assumes "\<And>w k n u s. after_event (outbox_event w k (case_event tenantId caseId kind payload) n u) (Some s) = Some st"
  shows "case_ok (mark_status env tenantId caseId st kind payload)"
  unfolding mark_status_def
proof (rule ok_txn)
  fix i db u db'
  assume inv: "case_inv db"
    and "put_event env i 0 (case_event tenantId caseId kind payload) (set_cases (is_case tenantId caseId) i st db) = Inr (u, db')"
  then show "case_inv db' \<and> case_R db db'"
    by (intro status_event_ok [OF inv, where tenantId = tenantId and caseId = caseId and st = st
          and P = "is_case tenantId caseId" and i = i])
      (use assms in \<open>auto simp: result_simps\<close>)
qed

lemma cok_marks [oks]:
  "case_ok (markCollectingEvidence env t c)" "case_ok (markWaitingForReview env t c r)" "case_ok (markManualReview env t c r)"
  unfolding markCollectingEvidence_def markWaitingForReview_def markManualReview_def
  by (auto intro!: cok_mark_status)

lemma cok_finalize [oks]:
  "case_ok (act (\<lambda>i. run_txn (finalizeReadyForUnderwriting env i t c expected)))"
proof (rule ok_txn)
  fix i db u db' assume inv: "case_inv db" and tx: "finalizeReadyForUnderwriting env i t c expected db = Inr (u, db')"
  note ready = status_event_ok [OF inv, where tenantId = t and caseId = c and st = READY_FOR_UNDERWRITING and i = i]
  show "case_inv db' \<and> case_R db db'"
  proof (cases expected)
    case None
    with tx show ?thesis
      by (intro ready [where P = "is_case t c"]) (auto simp: finalizeReadyForUnderwriting_def result_simps Let_def)
  next
    case (Some v)
    with tx have "affected (\<lambda>x. is_case t c x \<and> lc_version x = v) (cas_cases db) \<noteq> 0"
      by (auto simp: finalizeReadyForUnderwriting_def Let_def split: if_splits)
    note v = affected_same [OF inv this]
    from tx Some show ?thesis
      by (intro ready [where P = "\<lambda>x. is_case t c x \<and> lc_version x = v"])
        (auto simp: finalizeReadyForUnderwriting_def result_simps Let_def v split: if_splits)
  qed
qed

lemma cok_cancel [oks]: "case_ok (act (\<lambda>i. run_txn (cancel_txn env i t c seen)))"
proof (rule ok_txn)
  fix i db u db' assume inv: "case_inv db" and tx: "cancel_txn env i t c seen db = Inr (u, db')"
  have kept: "cancel_kept (JObj [(''caseId'', JStr c), (''scope'', JStr ''ORCHESTRATION_ONLY''),
        (''providerCancellationAsserted'', JBool False), (''caseStatusAtCancellation'', JStr (case_status_text seen))])
      = cancel_keeps seen"
    by (cases seen) (simp_all add: cancel_kept_def member_of_def case_status_text_def cancel_keeps_def)
  show "case_inv db' \<and> case_R db db'"
  proof (cases "cancel_keeps seen")
    case True
    with tx kept show ?thesis
      by (intro quiet_event_ok [OF inv]) (auto simp: cancel_txn_def result_simps)
  next
    case False
    with tx kept show ?thesis
      by (intro status_event_ok [OF inv, where tenantId = t and caseId = c and st = MANUAL_REVIEW and P = "is_case t c" and i = i])
        (auto simp: cancel_txn_def result_simps)
  qed
qed

lemma cok_case_or_fail [oks]: "case_ok (case_or_fail t c)"
  unfolding case_or_fail_def by (rule cs.keeps_read)

lemma cok_mark_cancelled [oks]: "case_ok (markWorkflowCancelled env t c)"
  unfolding markWorkflowCancelled_def by (intro oks)

lemma cok_recovery [oks]: "case_ok (act (\<lambda>i. run_txn (recovery_txn env i t c run found)))"
proof (rule ok_txn)
  fix i db u db' assume inv: "case_inv db" and tx: "recovery_txn env i t c run found db = Inr (u, db')"
  let ?pl = "[(''caseId'', JStr c), (''recoveryOfRunId'', JStr run), (''activeConditionCount'', JNum (js_int (int (length found))))]"
  have one: "one_condition (JObj ?pl) \<longleftrightarrow> length found = 1"
    by (auto simp: one_condition_def member_of_def js_int_def)
  from tx obtain db1 where ev: "put_event env i 0 (case_event t c WorkflowRunRecoveryStarted ?pl) db = Inr ((), db1)"
    and res: "(case found of [] \<Rightarrow> Inr (RESTART_COLLECTION, db1)
        | [x] \<Rightarrow> Inr (REUSE_OPEN_CONDITION (cnd_id x), set_cases (is_case t c) i CONDITIONS_OPEN db1)
        | _ \<Rightarrow> Inr (RECOVERY_REVIEW_REQUIRED
                 ''recovery found multiple active conditions; reviewer selection is required'', db1)) = (Inr (u, db') :: case_error + _)"
    unfolding recovery_txn_def and_then_Inr_iff by auto
  from res have rest: "db' = (if length found = 1 then set_cases (is_case t c) i CONDITIONS_OPEN db1 else db1)"
    by (auto split: list.splits)
  show "case_inv db' \<and> case_R db db'"
  proof (cases "length found = 1")
    case True
    with ev rest one show ?thesis
      by (intro status_event_ok [OF inv, where tenantId = t and caseId = c and st = CONDITIONS_OPEN and P = "is_case t c" and i = i])
        (auto simp: result_simps)
  next
    case False
    with ev rest one show ?thesis
      by (intro quiet_event_ok [OF inv]) (auto simp: result_simps)
  qed
qed

lemma cok_prepare [oks]: "case_ok (prepareWorkflowRecovery env t c run)"
  unfolding prepareWorkflowRecovery_def by (intro oks)

lemma cok_resolve_txn [oks]: "case_ok (act (\<lambda>i. run_txn (resolve_condition_txn env i t c seen p)))"
  by (rule ok_txn, erule quiet_event_ok)
    (auto simp: resolve_condition_txn_def result_simps Let_def split: if_splits ConditionResolutionKind.splits)

lemma cok_resolve_condition [oks]: "case_ok (resolveCondition env t c cid p)"
  unfolding resolveCondition_def condition_or_fail_def by (intro oks)

lemma cok_record_evidence [oks]: "case_ok (act (\<lambda>i. run_txn (recordEvidence env i t c k src v)))"
  by (rule ok_txn, erule quiet_event_ok) (auto simp: recordEvidence_def result_simps split: if_splits)

lemma cok_dispatch [oks]: "case_ok (dispatch env p)"
  unfolding dispatch_def by (rule ok_act) (auto intro!: unmoved_ok simp: unmoved_def split: prod.splits)

lemma cok_fetch [oks]: "case_ok (fetch_evidence env k src t c b)"
  unfolding fetch_evidence_def callProviderWithRetryClassification_def by (intro oks)

section \<open>Messages\<close>

definition says_nothing :: "OutboxEvent \<Rightarrow> bool" where
  "says_nothing e \<longleftrightarrow> (\<forall>s. after_event e (Some s) = Some s)"

definition comm_G :: "comm_db \<Rightarrow> comm_db \<Rightarrow> bool" where
  "comm_G c c' \<longleftrightarrow> (\<exists>es. com_outbox c' = com_outbox c @ es \<and> list_all says_nothing es)"

lemma fold_quiet: "list_all says_nothing es \<Longrightarrow> fold after_event (filter P es) (Some s) = Some s"
  by (induction es) (auto simp: says_nothing_def)

lemma comm_back_ok:
  assumes "case_inv db" "comm_G (comm_view db) c"
  shows "case_inv (comm_back c db) \<and> case_R db (comm_back c db)"
proof -
  from assms(2) obtain es where es: "com_outbox c = cas_outbox db @ es" "list_all says_nothing es"
    by (auto simp: comm_G_def comm_view_def)
  have "told (comm_back c db) x = Some (lc_status x)" if "x \<in> set (cas_cases db)" for x
    using assms(1) that es fold_quiet [OF es(2)]
    by (auto simp: case_inv_def told_def events_of_def replay_def comm_back_def)
  then show ?thesis
    using assms(1) es(1) by (auto simp: case_inv_def case_R_def comm_back_def manifested_def)
qed

lemma comm_G_refl: "com_outbox c' = com_outbox c \<Longrightarrow> comm_G c c'"
  by (auto simp: comm_G_def intro: exI [of _ "[]"])

lemma cok_on_comms: "steps_in comm_G p \<Longrightarrow> case_ok (on_comms p)"
  unfolding on_comms_def by (erule ok_zoom) (rule comm_back_ok)

lemma says_nothing_delivered: "says_nothing (outbox_event w k (delivered_event m ref) n u)"
  by (simp add: says_nothing_def after_event_def delivered_event_def)

lemma com_outbox_set_message [simp]: "com_outbox (set_message mid f db) = com_outbox db"
  by (simp add: set_message_def)

lemma steps_comm_txn:
  assumes "\<And>i c a c'. t i c = Inr (a, c') \<Longrightarrow> comm_G c c'"
  shows "steps_in comm_G (act (\<lambda>i. run_txn (t i)))"
  by (rule steps_act) (auto simp: run_txn_def comm_G_refl split: sum.split dest: assms)

lemmas steps_comm = steps_preturn steps_pthrow steps_pbind steps_query [of comm_G, OF comm_G_refl [OF refl]]

lemma steps_message_or_fail: "steps_in comm_G (message_or_fail t m)"
  unfolding message_or_fail_def by (rule steps_act) (simp add: comm_G_refl)

lemma steps_audit: "steps_in comm_G (audit_message t a b m k r d)"
  unfolding audit_message_def by (rule steps_act) (simp add: comm_G_refl)

lemma steps_draft: "steps_in comm_G (draft_message env t c inp)"
  unfolding draft_message_def
  by (auto intro!: steps_comm steps_comm_txn comm_G_refl simp: insert_message_def split: sum.splits if_splits)

lemma steps_approve: "steps_in comm_G (approve_message t m a r k)"
  unfolding approve_message_def
  by (auto intro!: steps_comm steps_message_or_fail steps_audit steps_comm_txn comm_G_refl
    simp: approve_txn_def Let_def split: if_splits)

lemma steps_deliver: "steps_in comm_G (deliver env t m)"
proof -
  have "steps_in comm_G (channel_send env x)" for x
    unfolding channel_send_def by (rule steps_act) (simp add: comm_G_refl)
  moreover have "steps_in comm_G (act (\<lambda>i. run_txn (record_delivery env i x ref)))" for x ref
    by (rule steps_comm_txn) (auto simp: record_delivery_def comm_G_def says_nothing_delivered split: if_splits)
  ultimately show ?thesis
    unfolding deliver_def by (auto intro!: steps_comm steps_message_or_fail)
qed

lemma steps_send: "steps_in comm_G (send_message env t m a k)"
  unfolding send_message_def
  by (auto intro!: steps_comm steps_deliver steps_audit split: DeliverCommunicationResult.splits)

lemma steps_seed: "steps_in comm_G (seed_template args)"
  unfolding seed_template_def
  by (auto intro!: steps_comm steps_comm_txn comm_G_refl simp: insert_template_def split: if_splits)

lemma steps_comm_handler: "steps_in comm_G (comm_handler env call)"
  by (cases call) (auto simp: forget_def intro!: steps_comm steps_draft steps_approve steps_deliver steps_send steps_seed)

lemmas cok_comms [oks] = cok_on_comms [OF steps_draft] cok_on_comms [OF steps_deliver] cok_on_comms [OF steps_comm_handler]

section \<open>Tools\<close>

definition tool_ok :: "AgentTool \<Rightarrow> bool" where
  "tool_ok t \<longleftrightarrow> (\<forall>ctx args. case_ok (tool_execute t ctx args))"

lemma create_condition_txn_ok:
  assumes inv: "case_inv db" and tx: "create_condition_txn env i t c a db = Inr (r, db')"
  shows "case_inv db' \<and> case_R db db'"
proof -
  let ?P = "\<lambda>x. is_case t c x \<and> lc_version x = cca_expectedCaseVersion a"
  from tx obtain x where x: "find_case db t c = Some x" by (auto simp: create_condition_txn_def result_simps)
  then have mem: "x \<in> set (cas_cases db)" "is_case t c x" by (auto simp: find_case_def is_case_def dest: find_SomeD)
  show ?thesis
  proof (cases "lc_version x = cca_expectedCaseVersion a")
    case False
    with tx x inv show ?thesis by (auto simp: create_condition_txn_def cs.R_refl)
  next
    case True
    have all: "?P y" if "y \<in> set (cas_cases db)" "is_case t c y" for y
      using same_case [OF inv that(1) mem(1) that(2) mem(2)] True mem(2) by simp
    from tx x True obtain db0 db1 where
      db0: "insert_condition (new_condition i t c a) db = Inr ((), db0)"
      and db1: "put_event env i 1 (case_event t c ConditionOpened
              [(''caseId'', JStr c), (''conditionId'', JStr (kin_ids i 0)), (''code'', JStr (cca_code a)),
               (''policyVersionId'', JStr (cca_policyVersionId a)), (''ruleId'', JStr (cca_ruleId a)),
               (''policySnapshotId'', JStr (cca_policySnapshotId a))]) (set_cases ?P i CONDITIONS_OPEN db0) = Inr ((), db1)"
      and db': "put_event env i 2 (case_event t c WorkflowRunWaitingForReview
              [(''caseId'', JStr c), (''conditionId'', JStr (kin_ids i 0))]) db1 = Inr ((), db')"
      by (auto simp: create_condition_txn_def and_then_Inr_iff or_throw_simps split: if_splits)
    from db0 have same: "cas_cases db0 = cas_cases db" "cas_outbox db0 = cas_outbox db" "cas_budget db0 = cas_budget db"
        "cas_transitions db0 = cas_transitions db" "cas_runs db0 = cas_runs db" "cas_manifests db0 = cas_manifests db"
      by (auto simp: insert_condition_def split: if_splits)
    have one: "case_inv db1 \<and> case_R db db1"
      by (rule status_event_ok [OF inv, where tenantId = t and caseId = c and st = CONDITIONS_OPEN and P = ?P and i = i])
        (use db1 all in \<open>auto simp: result_simps same\<close>)
    then have "case_inv db' \<and> case_R db1 db'" by (intro quiet_event_ok) (use db' in \<open>auto simp: result_simps\<close>)
    with one show ?thesis using cs.R_trans by blast
  qed
qed

lemma escalate_txn_ok:
  assumes inv: "case_inv db" and tx: "escalate_txn env i t c reason v db = Inr (r, db')"
  shows "case_inv db' \<and> case_R db db'"
proof -
  let ?Q = "\<lambda>x. lc_version x = v \<and> lc_status x \<in> set ESCALATABLE_STATUSES"
  show ?thesis
  proof (cases "affected (\<lambda>x. is_case t c x \<and> ?Q x) (cas_cases db) = 0")
    case True
    with tx inv show ?thesis
      by (auto simp: escalate_txn_def Let_def cs.R_refl split: option.splits if_splits)
  next
    case False
    note q = affected_same [OF inv False]
    from False tx show ?thesis
      by (intro status_event_ok [OF inv, where tenantId = t and caseId = c and st = WAITING_FOR_REVIEW
            and P = "\<lambda>x. is_case t c x \<and> ?Q x" and i = i])
        (auto simp: escalate_txn_def result_simps Let_def q)
  qed
qed

lemma tool_ok_check: "tool_ok checkCaseCompletenessTool"
  by (simp add: tool_ok_def checkCaseCompletenessTool_def oks)

lemma tool_ok_evaluate: "tool_ok (evaluatePolicyTool env)"
  by (auto simp: tool_ok_def evaluatePolicyTool_def wrong_args_def intro!: oks split: tool_args.split)

lemma cok_create_condition [oks]: "case_ok (act (\<lambda>i. run_txn (create_condition_txn env i t c a)))"
  by (rule ok_txn) (rule create_condition_txn_ok)

lemma cok_escalate_txn [oks]: "case_ok (act (\<lambda>i. run_txn (escalate_txn env i t c r v)))"
  by (rule ok_txn) (rule escalate_txn_ok)

lemma tool_ok_create: "tool_ok (createConditionTool env)"
  by (auto simp: tool_ok_def createConditionTool_def wrong_args_def intro!: oks split: tool_args.split)

lemma tool_ok_escalate: "tool_ok (escalateToReviewerTool env)"
  by (auto simp: tool_ok_def escalateToReviewerTool_def wrong_args_def intro!: oks split: tool_args.split)

lemma tool_ok_messages: "tool_ok (draftInformationRequestTool env)" "tool_ok (sendInformationRequestTool env)"
  by (auto simp: tool_ok_def draftInformationRequestTool_def sendInformationRequestTool_def wrong_args_def
      intro!: oks split: tool_args.split)

lemma tool_ok_impact: "tool_ok (checkPolicyChangeImpactTool env)"
  by (auto simp: tool_ok_def checkPolicyChangeImpactTool_def wrong_args_def intro!: oks split: tool_args.split)

lemmas tools_ok = tool_ok_check tool_ok_evaluate tool_ok_create tool_ok_escalate tool_ok_messages tool_ok_impact

definition registry_ok :: "tool_registry \<Rightarrow> bool" where
  "registry_ok reg \<longleftrightarrow> (\<forall>t \<in> snd ` set reg. tool_ok t)"

lemma build_from_ok:
  "build_from ts reg = Inr reg' \<Longrightarrow> registry_ok reg \<Longrightarrow> list_all tool_ok ts \<Longrightarrow> registry_ok reg'"
proof (induction ts arbitrary: reg)
  case (Cons t ts)
  from Cons.prems(1) obtain reg1 where r: "add_tool t reg = Inr reg1" "build_from ts reg1 = Inr reg'"
    by (auto simp: result_simps)
  then have "reg1 = reg @ [(tool_name t, t)]" by (auto simp: add_tool_def split: if_splits sum.splits option.splits)
  then have "registry_ok reg1" using Cons.prems(2,3) by (auto simp: registry_ok_def)
  with Cons.IH [OF r(2)] Cons.prems(3) show ?case by simp
qed simp

lemma buildToolRegistry_ok: "buildToolRegistry ts = Inr reg \<Longrightarrow> list_all tool_ok ts \<Longrightarrow> registry_ok reg"
  unfolding buildToolRegistry_def by (erule build_from_ok) (simp_all add: registry_ok_def)

lemma cok_invoke [oks]: "registry_ok reg \<Longrightarrow> case_ok (invokeTool env reg name ctx args)"
proof (cases "map_of reg name")
  case (Some t)
  assume "registry_ok reg"
  moreover from map_of_SomeD [OF Some] have "t \<in> snd ` set reg" by (rule image_eqI [rotated]) simp
  ultimately have "case_ok (tool_execute t ctx args)" unfolding registry_ok_def tool_ok_def by blast
  with Some show ?thesis unfolding invokeTool_def by (auto intro!: oks)
qed (simp add: invokeTool_def keeps_preturn)

section \<open>The agent run\<close>

lemma cok_budget_txn:
  assumes "\<And>i b a b'. budget_inv b \<Longrightarrow> t i b = Inr (a, b') \<Longrightarrow> budget_inv b'"
  shows "case_ok (on_budget (\<lambda>i. run_txn (t i)))"
proof (rule ok_on_budget)
  fix i b r b' assume "budget_inv b" "run_txn (t i) b = (r, b')"
  with assms show "budget_inv b'" by (cases r) (auto simp: result_simps)
qed

lemma cok_reserve [oks]: "case_ok (reserve_units st key n)"
  unfolding reserve_units_def by (rule cok_budget_txn) (rule reserve_inv)

lemma cok_commit [oks]: "case_ok (commit_units t rid cost)"
  unfolding commit_units_def by (rule cok_budget_txn) (rule commit_inv)

lemma cok_unknown [oks]: "case_ok (on_budget (\<lambda>i. run_txn (markUnknown (clock_of i) t rid)))"
  by (rule cok_budget_txn) (rule markUnknown_inv)

lemma cok_release [oks]: "case_ok (on_budget (\<lambda>i. run_txn (release (clock_of i) t rid m)))"
  by (rule cok_budget_txn) (rule release_inv)

lemma cok_create_ledger [oks]: "case_ok (on_budget (\<lambda>i. createOrLoad (clock_of i) (kin_ids i 0) inp))"
  by (rule ok_on_budget) (metis createOrLoad_inv snd_conv)

lemma cok_now [oks]: "case_ok now_js"
  unfolding now_js_def by (intro oks)

lemma cok_record_attempt [oks]: "case_ok (recordAttempt st n r d)"
  unfolding recordAttempt_def by (intro oks)

lemma cok_insert: "(\<And>i db a db'. t i db = Inr (a, db') \<Longrightarrow> unmoved db db') \<Longrightarrow> case_ok (act (\<lambda>i. run_txn (t i)))"
  by (rule ok_txn) (rule unmoved_ok)

lemma cok_assemble [oks]: "case_ok (assemble env a)"
  unfolding assemble_def by (rule cok_insert) (auto simp: unmoved_def Let_def split: if_splits)

lemma cok_manifest [oks]: "case_ok (manifest_for env st ev fs)"
  unfolding manifest_for_def by (auto intro!: oks split: option.splits)

lemma cok_invocation [oks]: "case_ok (persistPlannerInvocation st p r)"
proof -
  have "case_ok (act (\<lambda>i. run_txn (insert_invocation (new_invocation (kin_ids i 0) st r))))"
    by (rule cok_insert) (auto simp: insert_invocation_def unmoved_def split: if_splits)
  then show ?thesis
    unfolding persistPlannerInvocation_def findPlannerInvocation_def by (auto intro!: oks split: option.splits)
qed

lemma ok_rg: "case_ok p \<Longrightarrow> rg case_inv case_R (\<lambda>_ _. True) s p"
  by (simp add: keeps_def)

text \<open>The state of a run belongs to one case.\<close>

definition of_case :: "uuid \<Rightarrow> uuid \<Rightarrow> LendingOperationsAgentState \<Rightarrow> bool" where
  "of_case t c st \<longleftrightarrow> st_tenantId st = t \<and> st_caseId st = c"

lemma of_case_simps [simp]:
  "of_case t c (applyBudgetSnapshot st sn) = of_case t c st" "of_case t c (st\<lparr>st_attemptedTools := a\<rparr>) = of_case t c st"
  "of_case t c (st\<lparr>st_modelVersion := v\<rparr>) = of_case t c st" "of_case t c (st\<lparr>st_promptVersion := v\<rparr>) = of_case t c st"
  "of_case t c (st\<lparr>st_modelAndPromptManifestId := m\<rparr>) = of_case t c st"
  "of_case t c (st\<lparr>st_policyBindingId := b\<rparr>) = of_case t c st" "of_case t c (st\<lparr>st_proposedAction := p\<rparr>) = of_case t c st"
  "of_case t c (st\<lparr>st_reviewState := r\<rparr>) = of_case t c st"
  by (simp_all add: of_case_def applyBudgetSnapshot_def)

definition budgeted_post :: "uuid \<Rightarrow> uuid \<Rightarrow> case_db \<Rightarrow> case_error + 'a budgeted \<Rightarrow> bool" where
  "budgeted_post t c db r \<longleftrightarrow>
     (\<forall>st a. r = Inr (Done st a) \<longrightarrow> of_case t c st) \<and> (\<forall>st tr. r = Inr (Blocked st tr) \<longrightarrow> of_case t c st)"

text \<open>A route is set to a proposal only when the case has a manifest.\<close>

definition node_post :: "uuid \<Rightarrow> uuid \<Rightarrow> case_db \<Rightarrow> case_error + RuntimeState \<Rightarrow> bool" where
  "node_post t c db r \<longleftrightarrow>
     (\<forall>rs. r = Inr rs \<longrightarrow> of_case t c (rts_agentState rs) \<and> (rts_route rs = Some PROPOSED_ACTION \<longrightarrow> manifested db t c))"

abbreviation "run_rg Q s p \<equiv> rg case_inv case_R Q s p"

lemma node_post_review [simp]: "of_case t c st \<Longrightarrow> node_post t c db (Inr (routeMandatoryReview rs st tr))"
  by (simp add: node_post_def routeMandatoryReview_def route_of_def)

lemma node_post_error [simp]: "node_post t c db (Inl e)"
  by (simp add: node_post_def)

lemma manifested_later: "manifested db t c \<Longrightarrow> case_R db db' \<Longrightarrow> manifested db' t c"
  by (auto simp: manifested_def case_R_def)

lemma run_pbind:
  assumes "run_rg (\<lambda>_ _. True) s p" "\<And>u a. case_R s u \<Longrightarrow> run_rg Q u (f a)" "\<And>u e. Q u (Inl e)"
  shows "run_rg Q s (pbind p f)"
  by (rule rg_pbind [OF cs.rg_guarantee [OF assms(1)]]) (use assms in auto)

lemma run_budget_catch:
  assumes "\<And>u c m. Q u (Inr (Blocked st (budget_trigger c m)))" "\<And>u e. Q u (Inl e)"
  shows "run_rg Q u (case e of BudgetFailure (budget_error.AgentBudgetError c m) \<Rightarrow> preturn (Blocked st (budget_trigger c m)) | _ \<Rightarrow> pthrow e)"
  using assms by (auto split: case_error.splits budget_error.splits)

lemma rg_budgeted:
  assumes "registry_ok reg" "of_case t c st"
  shows "run_rg (budgeted_post t c) s (invokeBudgetedTool env reg st name args)"
  unfolding invokeBudgetedTool_def Let_def now_js_def
  by (auto intro!: run_pbind [OF ok_rg] rg_pcatch [where Q = "budgeted_post t c"] run_budget_catch oks
    simp: budgeted_post_def assms pbind_assoc split: option.splits)

lemma rg_step:
  assumes "of_case t c st"
  shows "run_rg (budgeted_post t c) s (consumeBudgetedRuntimeStep st name)"
  unfolding consumeBudgetedRuntimeStep_def now_js_def
  by (auto intro!: run_pbind [OF ok_rg] rg_pcatch [where Q = "budgeted_post t c"] run_budget_catch oks
    simp: budgeted_post_def assms split: option.splits)

lemma rg_record_attempt:
  "of_case t c st \<Longrightarrow> run_rg (\<lambda>u r. case_R s u \<and> (\<forall>st'. r = Inr st' \<longrightarrow> of_case t c st')) s (recordAttempt st n res d)"
  by (rule rg_weaken [OF cs.rg_guarantee])
    (auto simp: recordAttempt_def now_js_def intro!: run_pbind [OF ok_rg] oks)

lemma rg_tool_node:
  assumes "registry_ok reg" "of_case t c st"
    and "\<And>u st' r. case_R s u \<Longrightarrow> of_case t c st' \<Longrightarrow> run_rg (node_post t c) u (k st' r)"
  shows "run_rg (node_post t c) s (tool_node env reg rs st name args failed k)"
  unfolding tool_node_def
proof (rule rg_pbind [OF cs.rg_guarantee [OF rg_budgeted [OF assms(1,2)]]])
  fix u and b :: "ToolInvocationResult budgeted"
  assume b: "case_R s u \<and> budgeted_post t c u (Inr b)"
  show "run_rg (node_post t c) u (case b of
      Blocked st' trigger \<Rightarrow> preturn (routeMandatoryReview rs st' trigger)
    | Done st' iv \<Rightarrow> pbind (recordAttempt st' name (outcome_of iv) (error_of iv)) (\<lambda>st''.
        case iv of ToolFailure m \<Rightarrow> preturn (routeMandatoryReview rs st'' (classifyMandatoryReviewTrigger TOOL_EXECUTION_FAILURE
                   (name @ failed @ m)))
        | ToolSuccess r \<Rightarrow> k st'' r))"
    using b
    by (auto simp: budgeted_post_def intro!: rg_pbind [OF rg_record_attempt] assms(3)
        split: budgeted.split ToolInvocationResult.split intro: cs.R_trans)
qed simp

lemma rg_consent_node:
  "of_case t c (rts_agentState rs) \<Longrightarrow> rts_route rs = None \<Longrightarrow> run_rg (node_post t c) s (verifyConsentNode rs)"
  by (auto simp: verifyConsentNode_def node_post_def routeMandatoryReview_def route_of_def split: option.splits)

lemma rg_completeness_node:
  assumes "registry_ok reg" "of_case t c (rts_agentState rs)" "rts_route rs = None"
  shows "run_rg (node_post t c) s (checkCompletenessNode env reg rs)"
  unfolding checkCompletenessNode_def
  by (rule rg_tool_node [OF assms(1,2)]) (use assms(3) in \<open>auto simp: node_post_def split: tool_result.splits\<close>)

lemma rg_planned:
  assumes "of_case t c (rts_agentState rs)" "rts_route rs = None"
  shows "run_rg (node_post t c) s (planned env p rs rc found)"
proof -
  have rec: "run_rg (node_post t c) u (pbind (recordAttempt (applyBudgetSnapshot (rts_agentState rs) sn) n res d) f)"
    if "\<And>v st. of_case t c st \<Longrightarrow> run_rg (node_post t c) v (f st)" for u sn n res d f
    by (rule rg_pbind [OF rg_record_attempt [of t c]]) (use assms that in auto)
  show ?thesis
    unfolding planned_def Let_def
    by (auto intro!: run_pbind [OF ok_rg] rec oks simp: node_post_def assms(2) routeMandatoryReview_def route_of_def
        split: option.splits sum.splits)
qed

lemma rg_planner_failed:
  assumes "of_case t c (rts_agentState rs)"
  shows "run_rg (node_post t c) s (planner_failed rs rc e)"
  unfolding planner_failed_def Let_def
  by (auto intro!: run_pbind [OF ok_rg] rg_pbind [OF rg_record_attempt [OF assms]] oks)

lemma rg_plan_node:
  assumes "of_case t c (rts_agentState rs)" "rts_route rs = None"
  shows "run_rg (node_post t c) s (planNextActionNode env rs)"
  unfolding planNextActionNode_def Let_def findPlannerInvocation_def
  by (auto intro!: run_pbind [OF ok_rg] rg_pcatch [OF rg_planned [OF assms]] rg_planner_failed oks
      simp: assms node_post_def routeMandatoryReview_def route_of_def split: option.splits sum.splits case_error.splits budget_error.splits)

lemma rg_policy_node:
  assumes "registry_ok reg" "of_case t c (rts_agentState rs)" "rts_route rs = None"
  shows "run_rg (node_post t c) s (evaluatePolicyNode env reg rs)"
  unfolding evaluatePolicyNode_def Let_def now_js_def
  by (auto intro!: run_pbind [OF ok_rg] rg_tool_node [OF assms(1,2)] oks
      simp: assms node_post_def routeMandatoryReview_def route_of_def split: option.splits tool_result.splits)

lemma rg_draft_remediation:
  assumes "registry_ok reg" "of_case t c st" "manifested s t c"
  shows "run_rg (node_post t c) s (draft_remediation env reg rs st a cid)"
  unfolding draft_remediation_def
  by (rule rg_tool_node [OF assms(1,2)])
    (use assms(3) in \<open>auto simp: node_post_def intro: manifested_later split: tool_result.split\<close>)

lemma rg_open_condition:
  assumes "registry_ok reg" "of_case t c st" "manifested s t c"
  shows "run_rg (node_post t c) s (open_condition env reg rs st a)"
  unfolding open_condition_def
  by (rule rg_tool_node [OF assms(1,2)])
    (use assms in \<open>auto intro!: rg_draft_remediation intro: manifested_later split: tool_result.split\<close>)

lemma rg_assemble:
  "run_rg (\<lambda>u r. \<forall>m. r = Inr m \<longrightarrow> manifested u (asm_tenantId a) (asm_caseId a)) s (assemble env a)"
  unfolding assemble_def
proof (rule rg_act)
  fix i u r v
  assume u: "case_inv u" and step: "run_txn (\<lambda>db. let m = new_manifest env (kin_ids i 0) a
      in if eim_id m \<in> eim_id ` set (cas_manifests db) then Inl CaseUniqueViolation
         else Inr (m, db\<lparr>cas_manifests := cas_manifests db @ [m]\<rparr>)) u = (r, v)"
  show "case_inv v \<and> case_R u v \<and> (\<forall>m. r = Inr m \<longrightarrow> manifested v (asm_tenantId a) (asm_caseId a))"
  proof (cases r)
    case (Inl e)
    with step u show ?thesis by (auto simp: result_simps cs.R_refl)
  next
    case (Inr m)
    with step have v: "v = u\<lparr>cas_manifests := cas_manifests u @ [new_manifest env (kin_ids i 0) a]\<rparr>"
      by (auto simp: result_simps Let_def split: if_splits)
    then have "unmoved u v" by (auto simp: unmoved_def)
    moreover have "manifested v (asm_tenantId a) (asm_caseId a)"
      using v by (auto simp: manifested_def new_manifest_def Let_def)
    ultimately show ?thesis using unmoved_ok [OF u] by simp
  qed
qed

lemma rg_manifest:
  assumes "of_case t c st"
  shows "run_rg (\<lambda>u r. \<forall>m. r = Inr m \<longrightarrow> manifested u t c) s (manifest_for env st ev fs)"
  using assms
  by (auto simp: manifest_for_def of_case_def intro!: rg_weaken [OF rg_assemble] split: option.splits)

lemma rg_conclude:
  assumes "registry_ok reg" "of_case t c (rts_agentState rs)" "of_case t c stepped"
  shows "run_rg (node_post t c) s (conclude env reg rs stepped ev)"
  unfolding conclude_def Let_def
  using assms
  by (auto intro!: run_pbind [OF ok_rg] rg_pbind [OF rg_manifest [OF assms(2)]] rg_open_condition oks
      simp: node_post_def split: option.split)

lemma rg_outcome_node:
  assumes "registry_ok reg" "of_case t c (rts_agentState rs)"
  shows "run_rg (node_post t c) s (resolveOutcomeNode env reg rs)"
  unfolding resolveOutcomeNode_def
  by (rule rg_pbind [OF rg_step [OF assms(2)]])
    (use assms in \<open>auto simp: budgeted_post_def intro!: rg_conclude split: budgeted.split option.split\<close>)

lemma rg_next_node:
  assumes "run_rg (node_post t c) s p"
    and "\<And>u rs. of_case t c (rts_agentState rs) \<Longrightarrow> rts_route rs = None \<Longrightarrow> run_rg (node_post t c) u (node rs)"
  shows "run_rg (node_post t c) s (next_node p node)"
  unfolding next_node_def
  by (rule rg_pbind [OF assms(1)]) (use assms(2) in \<open>auto simp: node_post_def\<close>)

lemma rg_graph:
  assumes "registry_ok reg" "of_case t c (rts_agentState rs)" "rts_route rs = None"
  shows "run_rg (node_post t c) s (graph env reg rs)"
  unfolding graph_def
  by (intro rg_next_node rg_consent_node rg_completeness_node rg_plan_node rg_policy_node rg_outcome_node assms)

lemma rg_persist:
  assumes "of_case t c (arr_finalState res)" "arr_route res = PROPOSED_ACTION \<longrightarrow> manifested s t c"
  shows "run_rg (\<lambda>_ _. True) s (persistAgentRun startedAt res)"
  unfolding persistAgentRun_def
proof (rule rg_act)
  fix i u r v
  assume u: "case_inv u" "case_R s u"
    and step: "run_txn (\<lambda>db. if kin_ids i 0 \<in> run_id ` set (cas_runs db) then Inl CaseUniqueViolation
      else Inr ((), db\<lparr>cas_runs := cas_runs db @ [new_run (kin_ids i 0) startedAt res],
                      cas_attempts := cas_attempts db @ run_attempts (kin_ids i 0) (arr_finalState res)\<rparr>)) u = (r, v)"
  show "case_inv v \<and> case_R u v \<and> True"
  proof (cases r)
    case (Inl e)
    with step u show ?thesis by (auto simp: result_simps cs.R_refl)
  next
    case (Inr x)
    with step have "v = u\<lparr>cas_runs := cas_runs u @ [new_run (kin_ids i 0) startedAt res],
        cas_attempts := cas_attempts u @ run_attempts (kin_ids i 0) (arr_finalState res)\<rparr>"
      by (auto simp: result_simps split: if_splits)
    moreover have "arr_route res = PROPOSED_ACTION \<longrightarrow> manifested u t c" using assms(2) u(2) manifested_later by blast
    ultimately show ?thesis
      using u(1) assms(1)
      by (auto simp: case_inv_def case_R_def told_def events_of_def manifested_def new_run_def of_case_def Let_def)
  qed
qed

lemma cok_run_agent [oks]: "case_ok (run_agent env inp)"
proof -
  let ?t = "st_tenantId (ari_initialState inp)" and ?c = "st_caseId (ari_initialState inp)"
  have "list_all tool_ok (filter P (allTools env))" for P
    by (simp add: allTools_def tools_ok list_all_iff)
  then have reg: "registry_ok reg" if "buildToolRegistry (filter P (allTools env)) = Inr reg" for P reg
    using that buildToolRegistry_ok by blast
  have body: "run_rg (\<lambda>_ _. True) s (pbind (graph env reg \<lparr>rts_agentState = applyBudgetSnapshot (ari_initialState inp) sn,
        rts_route = None, rts_policyEvaluation = None\<rparr>)
      (\<lambda>rs. pbind (persistAgentRun startedAt (result_of rs)) (\<lambda>_. preturn (result_of rs))))"
    if "registry_ok reg" for s reg sn startedAt
    by (rule rg_pbind [OF rg_graph [of reg ?t ?c]])
      (use that in \<open>auto simp: of_case_def [of ?t ?c "ari_initialState inp"] node_post_def result_of_def
        intro!: rg_pbind [OF rg_persist [of ?t ?c]] split: option.splits\<close>)
  have main: "run_rg (\<lambda>_ _. True) s (case buildToolRegistry (filter P (allTools env)) of
      Inl e \<Rightarrow> pthrow e
    | Inr reg \<Rightarrow> pbind (graph env reg \<lparr>rts_agentState = applyBudgetSnapshot (ari_initialState inp) sn,
        rts_route = None, rts_policyEvaluation = None\<rparr>)
      (\<lambda>rs. pbind (persistAgentRun startedAt (result_of rs)) (\<lambda>_. preturn (result_of rs))))" for s P sn startedAt
    using reg [of P] body by (cases "buildToolRegistry (filter P (allTools env))") simp_all
  show ?thesis
    unfolding run_agent_def keeps_def
    by (intro allI run_pbind [OF ok_rg] oks main TrueI)
qed

section \<open>Activities and the case API\<close>

lemma cok_notification [oks]: "case_ok (sendReadyForUnderwritingNotification env t c)"
proof -
  have "registry_ok reg" if "buildToolRegistry [draftInformationRequestTool env, sendInformationRequestTool env] = Inr reg" for reg
    using that by (rule buildToolRegistry_ok) (simp add: tools_ok)
  then show ?thesis
    unfolding sendReadyForUnderwritingNotification_def Let_def
    by (auto intro!: oks split: sum.splits ToolInvocationResult.splits tool_result.splits)
qed

lemma cok_mark_ready [oks]: "case_ok (markReadyForUnderwriting env t c)"
  unfolding markReadyForUnderwriting_def by (intro oks)

lemma cok_settle_run [oks]: "case_ok (settle_run env t c v res)"
  unfolding settle_run_def by (auto intro!: oks split: AgentRunRoute.splits option.splits)

lemma cok_evaluate [oks]: "case_ok (evaluateConditions env t c run)"
  unfolding evaluateConditions_def tenant_or_fail_def Let_def by (intro oks)

lemma cok_ask [oks]: "case_ok (ask req)"
  unfolding ask_def by (rule ok_act) (auto intro!: unmoved_ok simp: unmoved_def)

lemma cok_describe [oks]: "case_ok (getWorkflowStatus c)"
  unfolding getWorkflowStatus_def describe_workflow_def by (auto intro!: oks split: temporal_reply.splits)

lemma cok_client [oks]:
  "case_ok (startCaseConditionsWorkflow inp)" "case_ok (recoverCaseConditionsWorkflow inp)" "case_ok (send_signal req)"
  unfolding startCaseConditionsWorkflow_def recoverCaseConditionsWorkflow_def send_signal_def
  by (auto intro!: oks split: temporal_reply.splits)

lemma cok_get_case [oks]: "case_ok (getCase t c)"
  unfolding getCase_def by (rule cs.keeps_read)

lemma cok_get_run [oks]: "case_ok (getWorkflowRun t c run)"
  unfolding getWorkflowRun_def by (intro oks)

lemma cok_workflows [oks]:
  "case_ok (startWorkflow t c)" "case_ok (cancelWorkflow t c run)" "case_ok (recoverWorkflow t c run)"
  "case_ok (submitReview t c dto)"
  unfolding startWorkflow_def cancelWorkflow_def recoverWorkflow_def submitReview_def by (auto intro!: oks)

lemma cok_operations [oks]: "case_ok (listWorkflowOperations t)"
  unfolding listWorkflowOperations_def operation_of_def by (auto intro!: oks)

lemma cok_consents [oks]: "case_ok (submitConsentAction t c a)" "case_ok (listConsents t c)" "case_ok (grant_consent t c)"
  unfolding submitConsentAction_def grant_consent_def listConsents_def by (auto intro!: oks split: ConsentActionDto.splits)

lemma cok_escalate [oks]: "case_ok (escalate env t c reason)"
proof -
  have "registry_ok reg" if "buildToolRegistry [escalateToReviewerTool env] = Inr reg" for reg
    using that by (rule buildToolRegistry_ok) (simp add: tools_ok)
  then show ?thesis
    unfolding escalate_def by (auto intro!: oks split: sum.splits ToolInvocationResult.splits tool_result.splits)
qed

lemma cok_impact [oks]: "case_ok (checkPolicyChangeImpact env t c v)"
proof -
  have "registry_ok reg" if "buildToolRegistry [checkPolicyChangeImpactTool env] = Inr reg" for reg
    using that by (rule buildToolRegistry_ok) (simp add: tools_ok)
  then show ?thesis
    unfolding checkPolicyChangeImpact_def by (auto intro!: oks split: sum.splits ToolInvocationResult.splits tool_result.splits)
qed

section \<open>Creating a case\<close>

lemma create_case_txn_ok:
  assumes inv: "case_inv db" and tx: "create_case_txn env i key t dto db = Inr (c, db')"
  shows "case_inv db' \<and> case_R db db' \<and> (\<exists>x \<in> set (cas_cases db'). by_key t key x \<and> lc_id x = lc_id c)"
proof -
  from tx obtain row e where row: "stored_case env c = Inr row" and c: "c = new_case i key t dto"
    and new: "\<not> list_ex (\<lambda>x. lc_id x = lc_id c \<or> by_key t key x) (cas_cases db)"
    and db': "cas_cases db' = cas_cases db @ [row]" "cas_outbox db' = cas_outbox db @ [e]" "cas_budget db' = cas_budget db"
        "cas_transitions db' = cas_transitions db" "cas_runs db' = cas_runs db" "cas_manifests db' = cas_manifests db"
    and e: "obx_tenantId e = t" "obx_caseId e = lc_id c" "\<And>s. after_event e s = Some CASE_DRAFT"
    by (auto simp: create_case_txn_def and_then_Inr_iff put_event_Inr Let_def split: if_splits)
  have r: "lc_id row = lc_id c" "lc_tenantId row = t" "create_key row = (t, key)" "lc_status row = CASE_DRAFT" "by_key t key row"
    using row c by (auto simp: stored_case_def new_case_def create_key_def by_key_def split: option.splits)
  have tail: "told db' x = (if obx_tenantId e = lc_tenantId x \<and> obx_caseId e = lc_id x then after_event e (told db x) else told db x)" for x
    by (simp add: told_def events_of_def replay_def db')
  have old: "told db' x = Some (lc_status x)" if "x \<in> set (cas_cases db)" for x
    using that new inv e by (auto simp: tail case_inv_def list_ex_iff)
  have "told db' row = Some CASE_DRAFT" by (simp add: tail e r)
  moreover have "lc_id row \<notin> lc_id ` set (cas_cases db)" "create_key row \<notin> create_key ` set (cas_cases db)"
    using new r by (auto simp: list_ex_iff by_key_def create_key_def)
  ultimately show ?thesis
    using inv old r by (auto simp: case_inv_def case_R_def db' manifested_def)
qed

definition created :: "uuid \<Rightarrow> string \<Rightarrow> uuid \<Rightarrow> case_db \<Rightarrow> bool" where
  "created t key cid db \<longleftrightarrow> (cid, t, key) \<in> (\<lambda>c. (lc_id c, create_key c)) ` set (cas_cases db)"

lemma created_later: "created t key cid db \<Longrightarrow> case_R db db' \<Longrightarrow> created t key cid db'"
  by (auto simp: created_def case_R_def)

lemma by_key_created: "x \<in> set (cas_cases db) \<Longrightarrow> by_key t key x \<Longrightarrow> created t key (lc_id x) db"
  by (auto simp: created_def by_key_def create_key_def intro!: image_eqI)

lemma create_case_created:
  "case_inv db \<Longrightarrow> create_case_txn env i key t dto db = Inr (c, db') \<Longrightarrow> created t key (lc_id c) db'"
  using create_case_txn_ok by_key_created by metis

text \<open>Whatever \<open>createCase\<close> returns is a case of that tenant under that key.\<close>

definition makes :: "uuid \<Rightarrow> string \<Rightarrow> case_db \<Rightarrow> case_error + CaseRow \<Rightarrow> bool" where
  "makes t key db r \<longleftrightarrow> (\<forall>c. r = Inr c \<longrightarrow> created t key (lc_id c) db)"

lemma rg_create_case: "rg case_inv case_R (makes t key) s (createCase env key t dto)"
proof -
  have grant: "rg case_inv case_R (makes t key) u (pbind (grant_consent t (lc_id c)) (\<lambda>_. preturn c))"
    if "created t key (lc_id c) u" for u c
    by (rule rg_pbind [OF cs.rg_guarantee [OF ok_rg]])
      (use that in \<open>auto simp: makes_def intro!: oks dest: created_later\<close>)
  have txn: "rg case_inv case_R (makes t key) u (act (\<lambda>i. run_txn (create_case_txn env i key t dto)))" for u
    by (rule rg_act) (auto simp: run_txn_def makes_def cs.R_refl split: sum.splits dest: create_case_txn_ok create_case_created)
  have found: "rg case_inv case_R (makes t key) u (case_by_key t key)" for u
    unfolding case_by_key_def
    by (rule rg_act) (auto simp: makes_def cs.R_refl or_throw_def by_key_created split: option.splits dest: find_SomeD)
  have attempt: "rg case_inv case_R (makes t key) u (pcatch
      (pbind (act (\<lambda>i. run_txn (create_case_txn env i key t dto))) (\<lambda>c. pbind (grant_consent t (lc_id c)) (\<lambda>_. preturn c)))
      (\<lambda>e. if unique_violation e then case_by_key t key else pthrow e))" for u
    by (rule rg_pcatch [OF rg_pbind [OF txn, where Q' = "makes t key"]]) (use grant found in \<open>auto simp: makes_def\<close>)
  have existing: "rg case_inv case_R (\<lambda>db r. \<forall>c. r = Inr (Some c) \<longrightarrow> created t key (lc_id c) db) u
      (query (\<lambda>_ db. List.find (by_key t key) (cas_cases db)))" for u
    by (rule cs.rg_query) (auto dest: find_SomeD intro: by_key_created)
  have rest: "rg case_inv case_R (makes t key) u (pbind (query (\<lambda>_ db. List.find (by_key t key) (cas_cases db))) (\<lambda>existing.
      case existing of Some c \<Rightarrow> preturn c
      | None \<Rightarrow> pcatch
          (pbind (act (\<lambda>i. run_txn (create_case_txn env i key t dto))) (\<lambda>c. pbind (grant_consent t (lc_id c)) (\<lambda>_. preturn c)))
          (\<lambda>e. if unique_violation e then case_by_key t key else pthrow e)))" for u
    by (rule rg_pbind [OF existing]) (use attempt in \<open>auto simp: makes_def split: option.splits\<close>)
  show ?thesis
    unfolding createCase_def
    by (rule rg_pbind [OF ok_rg [OF cs.keeps_query]])
      (auto simp: makes_def intro!: rg_pbind [OF ok_rg [OF cs.keeps_query]] rest)
qed

section \<open>All handlers\<close>

definition fetch_of :: "case_env \<Rightarrow> ProviderCapability \<Rightarrow> uuid \<Rightarrow> uuid \<Rightarrow> string \<Rightarrow> json case_prog" where
  "fetch_of env cap =
     (case cap of
        INCOME \<Rightarrow> fetchIncomeEvidence env | CREDIT \<Rightarrow> fetchCreditEvidence env | DOCUMENT \<Rightarrow> fetchDocumentEvidence env
      | ASSET \<Rightarrow> fetchAssetEvidence env | IDENTITY \<Rightarrow> fetchIdentityEvidence env)"

datatype case_call =
    CreateCase string uuid CreateCaseDto
  | StartWorkflow uuid uuid
  | CancelWorkflow uuid uuid string
  | RecoverWorkflow uuid uuid string
  | ListOperations uuid
  | SubmitReview uuid uuid ReviewDto
  | ConsentAction uuid uuid ConsentActionDto
  | ListConsents uuid uuid
  | Escalate uuid uuid string
  | CheckImpact uuid uuid uuid
  | MarkCollecting uuid uuid
  | PrepareRecovery uuid uuid string
  | FetchEvidence ProviderCapability uuid uuid string
  | Evaluate uuid uuid string
  | ResolveCondition uuid uuid uuid ResolveConditionSignalPayload
  | MarkReady uuid uuid
  | MarkWaiting uuid uuid string
  | MarkManual uuid uuid string
  | MarkCancelled uuid uuid
  | Message comm_call

datatype case_reply = CaseId uuid | Finished

definition finish :: "'a case_prog \<Rightarrow> case_reply case_prog" where
  "finish p = pbind p (\<lambda>_. preturn Finished)"

fun case_handler :: "case_env \<Rightarrow> case_call \<Rightarrow> case_reply case_prog" where
  "case_handler env (CreateCase key t dto) = pbind (createCase env key t dto) (\<lambda>c. preturn (CaseId (lc_id c)))"
| "case_handler env (StartWorkflow t c) = finish (startWorkflow t c)"
| "case_handler env (CancelWorkflow t c r) = finish (cancelWorkflow t c r)"
| "case_handler env (RecoverWorkflow t c r) = finish (recoverWorkflow t c r)"
| "case_handler env (ListOperations t) = finish (listWorkflowOperations t)"
| "case_handler env (SubmitReview t c dto) = finish (submitReview t c dto)"
| "case_handler env (ConsentAction t c dto) = finish (submitConsentAction t c dto)"
| "case_handler env (ListConsents t c) = finish (listConsents t c)"
| "case_handler env (Escalate t c reason) = finish (escalate env t c reason)"
| "case_handler env (CheckImpact t c v) = finish (checkPolicyChangeImpact env t c v)"
| "case_handler env (MarkCollecting t c) = finish (markCollectingEvidence env t c)"
| "case_handler env (PrepareRecovery t c r) = finish (prepareWorkflowRecovery env t c r)"
| "case_handler env (FetchEvidence cap t c b) = finish (fetch_of env cap t c b)"
| "case_handler env (Evaluate t c r) = finish (evaluateConditions env t c r)"
| "case_handler env (ResolveCondition t c cid p) = finish (resolveCondition env t c cid p)"
| "case_handler env (MarkReady t c) = finish (markReadyForUnderwriting env t c)"
| "case_handler env (MarkWaiting t c reason) = finish (markWaitingForReview env t c reason)"
| "case_handler env (MarkManual t c reason) = finish (markManualReview env t c reason)"
| "case_handler env (MarkCancelled t c) = finish (markWorkflowCancelled env t c)"
| "case_handler env (Message call) = finish (on_comms (comm_handler (kev_comm env) call))"

definition reply_ok :: "case_call \<Rightarrow> case_db \<Rightarrow> case_error + case_reply \<Rightarrow> bool" where
  "reply_ok call db r \<longleftrightarrow> (\<forall>key t dto cid. call = CreateCase key t dto \<longrightarrow> r = Inr (CaseId cid) \<longrightarrow> created t key cid db)"

lemma reply_later: "reply_ok call db r \<Longrightarrow> case_R db db' \<Longrightarrow> reply_ok call db' r"
  by (auto simp: reply_ok_def dest: created_later)

lemma cok_finish: "case_ok p \<Longrightarrow> case_ok (finish p)"
  unfolding finish_def by (intro oks)

lemma cok_fetch_of [oks]: "case_ok (fetch_of env cap t c b)"
  by (cases cap) (simp_all add: fetch_of_def fetchIncomeEvidence_def fetchCreditEvidence_def fetchDocumentEvidence_def
      fetchAssetEvidence_def fetchIdentityEvidence_def cok_fetch)

lemma rg_case_handler: "rg case_inv case_R (reply_ok call) s (case_handler env call)"
proof (cases "\<exists>key t dto. call = CreateCase key t dto")
  case True
  then obtain key t dto where call: "call = CreateCase key t dto" by blast
  then show ?thesis
    by (auto intro!: rg_pbind [OF rg_create_case] simp: makes_def reply_ok_def)
next
  case False
  then have "case_ok (case_handler env call)"
    by (cases call) (auto intro!: cok_finish oks)
  then show ?thesis
    by (rule rg_weaken [OF ok_rg]) (use False in \<open>auto simp: reply_ok_def\<close>)
qed

text \<open>The invariant and the replies in every interleaving.\<close>

lemma case_pool:
  assumes "pstep\<^sup>*\<^sup>* (map (case_handler env) calls, db0) (ps, db)" "case_inv db0"
  shows "case_inv db \<and> (\<forall>n r. n < length calls \<longrightarrow> ps ! n = Ret r \<longrightarrow> reply_ok (calls ! n) db r)"
proof -
  have "case_inv (snd (ps, db)) \<and> length (fst (ps, db)) = length (fst (map (case_handler env) calls, db0))
      \<and> (\<forall>n < length (fst (map (case_handler env) calls, db0)). rg case_inv case_R (reply_ok (calls ! n)) (snd (ps, db)) (fst (ps, db) ! n))"
    by (rule cs.pool_results [OF assms(1)]) (use assms(2) in \<open>auto simp: rg_case_handler intro: reply_later\<close>)
  then show ?thesis by auto
qed

end
