(* ===== verification/Case_Workflow.thy ===== *)
theory Case_Workflow
  imports Case_System
begin

text \<open>
  The durable workflow of a case, \<open>src/src/workflows/case-conditions.workflow.ts\<close>, as a
  state machine. \<open>wf_point\<close> says which await the workflow function stands at, and
  \<open>awaited\<close> which activities it waits for there. The workflow service runs each activity as
  attempts, at most three; an attempt may be given up although its program still runs, and
  signals, cancellation and other requests come at any time, so the rules leave all that
  open. Every program that was ever started stays in the list of tasks and may go on.
\<close>

section \<open>The workflow function\<close>

datatype activity =
    PrepareRecoveryAct string
  | MarkCollectingAct
  | FetchAct ProviderCapability
  | EvaluateAct
  | MarkWaitingAct string
  | MarkManualAct string
  | ResolveAct uuid ResolveConditionSignalPayload
  | MarkReadyAct
  | MarkCancelledAct

datatype activity_result =
    NoResult
  | Recovery PrepareWorkflowRecoveryResult
  | Evaluation EvaluateConditionsResult

record CaseConditionsWorkflowResult =
  wfr_finalStatus :: CaseStatus
  wfr_conditionId :: "uuid option"

datatype wf_point =
    Preparing string
  | Collecting
  | Fetching "ProviderCapability list" \<comment> \<open>those not fetched yet\<close>
  | Evaluating
  | Interrupting string
  | AwaitingResume
  | AwaitingResolution uuid
  | Resolving uuid ResolveConditionSignalPayload
  | Finishing uuid
  | GivingUp string
  | Cancelling
  | Returned CaseConditionsWorkflowResult
  | WorkflowCancelled
  | WorkflowFailed

text \<open>An execution; \<open>wx_history\<close> lists the resolutions its history has received.\<close>

record execution =
  wx_input :: CaseConditionsWorkflowInput
  wx_runId :: string
  wx_resolution :: "ResolveConditionSignalPayload option"
  wx_interruptResolution :: "ResumeInterruptedEvaluationSignalPayload option"
  wx_history :: "ResolveConditionSignalPayload list"
  wx_point :: wf_point

definition start_point :: "CaseConditionsWorkflowInput \<Rightarrow> wf_point" where
  "start_point inp = (case truthy (wfi_recoveryOfRunId inp) of Some run \<Rightarrow> Preparing run | None \<Rightarrow> Collecting)"

definition started :: "CaseConditionsWorkflowInput \<Rightarrow> string \<Rightarrow> execution" where
  "started inp run =
     \<lparr>wx_input = inp, wx_runId = run, wx_resolution = None, wx_interruptResolution = None, wx_history = [],
      wx_point = start_point inp\<rparr>"

fun awaited :: "wf_point \<Rightarrow> activity list" where
  "awaited (Preparing run) = [PrepareRecoveryAct run]"
| "awaited Collecting = [MarkCollectingAct]"
| "awaited (Fetching caps) = map FetchAct caps"
| "awaited Evaluating = [EvaluateAct]"
| "awaited (Interrupting why) = [MarkWaitingAct why]"
| "awaited (Resolving cid p) = [ResolveAct cid p]"
| "awaited (Finishing cid) = [MarkReadyAct]"
| "awaited (GivingUp why) = [MarkManualAct why]"
| "awaited Cancelling = [MarkCancelledAct]"
| "awaited _ = []"

definition no_result :: "'a case_prog \<Rightarrow> activity_result case_prog" where
  "no_result p = pbind p (\<lambda>_. preturn NoResult)"

fun activity_prog :: "case_env \<Rightarrow> execution \<Rightarrow> activity \<Rightarrow> activity_result case_prog" where
  "activity_prog env x (PrepareRecoveryAct run) =
     pbind (prepareWorkflowRecovery env (wfi_tenantId (wx_input x)) (wfi_caseId (wx_input x)) run) (\<lambda>r. preturn (Recovery r))"
| "activity_prog env x MarkCollectingAct =
     no_result (markCollectingEvidence env (wfi_tenantId (wx_input x)) (wfi_caseId (wx_input x)))"
| "activity_prog env x (FetchAct cap) =
     no_result (fetch_of env cap (wfi_tenantId (wx_input x)) (wfi_caseId (wx_input x)) (wfi_borrowerId (wx_input x)))"
| "activity_prog env x EvaluateAct =
     pbind (evaluateConditions env (wfi_tenantId (wx_input x)) (wfi_caseId (wx_input x)) (wx_runId x)) (\<lambda>r. preturn (Evaluation r))"
| "activity_prog env x (MarkWaitingAct why) =
     no_result (markWaitingForReview env (wfi_tenantId (wx_input x)) (wfi_caseId (wx_input x)) why)"
| "activity_prog env x (MarkManualAct why) =
     no_result (markManualReview env (wfi_tenantId (wx_input x)) (wfi_caseId (wx_input x)) why)"
| "activity_prog env x (ResolveAct cid p) =
     no_result (resolveCondition env (wfi_tenantId (wx_input x)) (wfi_caseId (wx_input x)) cid p)"
| "activity_prog env x MarkReadyAct =
     no_result (markReadyForUnderwriting env (wfi_tenantId (wx_input x)) (wfi_caseId (wx_input x)))"
| "activity_prog env x MarkCancelledAct =
     no_result (markWorkflowCancelled env (wfi_tenantId (wx_input x)) (wfi_caseId (wx_input x)))"

definition evidence_capabilities :: "ProviderCapability list" where
  "evidence_capabilities = [INCOME, CREDIT, DOCUMENT, ASSET, IDENTITY]"

definition fetched :: "ProviderCapability list \<Rightarrow> activity \<Rightarrow> wf_point" where
  "fetched caps a =
     (let rest = filter (\<lambda>k. FetchAct k \<noteq> a) caps in if rest = [] then Evaluating else Fetching rest)"

text \<open>What the function does when an awaited activity has returned.\<close>

definition after_recovery :: "PrepareWorkflowRecoveryResult \<Rightarrow> wf_point" where
  "after_recovery r =
     (case r of
        REUSE_OPEN_CONDITION cid \<Rightarrow> AwaitingResolution cid
      | RESTART_COLLECTION \<Rightarrow> Collecting
      | RECOVERY_REVIEW_REQUIRED why \<Rightarrow> GivingUp why)"

definition after_evaluation :: "EvaluateConditionsResult \<Rightarrow> wf_point" where
  "after_evaluation r =
     (case r of
        EvalReady \<Rightarrow> Returned \<lparr>wfr_finalStatus = READY_FOR_UNDERWRITING, wfr_conditionId = None\<rparr>
      | EvalConditionOpened cid \<Rightarrow> AwaitingResolution cid
      | EvalReviewRequired why \<Rightarrow> GivingUp why
      | EvalInterrupted why \<Rightarrow> Interrupting why)"

definition next_point :: "wf_point \<Rightarrow> activity \<Rightarrow> activity_result \<Rightarrow> wf_point" where
  "next_point pt a r =
     (case pt of
        Preparing _ \<Rightarrow> (case r of Recovery q \<Rightarrow> after_recovery q | _ \<Rightarrow> pt)
      | Collecting \<Rightarrow> Fetching evidence_capabilities
      | Fetching caps \<Rightarrow> fetched caps a
      | Evaluating \<Rightarrow> (case r of Evaluation q \<Rightarrow> after_evaluation q | _ \<Rightarrow> pt)
      | Interrupting _ \<Rightarrow> AwaitingResume
      | Resolving cid _ \<Rightarrow> Finishing cid
      | Finishing cid \<Rightarrow> Returned \<lparr>wfr_finalStatus = READY_FOR_UNDERWRITING, wfr_conditionId = Some cid\<rparr>
      | GivingUp _ \<Rightarrow> Returned \<lparr>wfr_finalStatus = MANUAL_REVIEW, wfr_conditionId = None\<rparr>
      | Cancelling \<Rightarrow> WorkflowCancelled
      | _ \<Rightarrow> pt)"

text \<open>An interrupt clears the resumption of an earlier one.\<close>

definition after_result :: "execution \<Rightarrow> activity \<Rightarrow> activity_result \<Rightarrow> execution" where
  "after_result x a r =
     (let pt = next_point (wx_point x) a r
      in x\<lparr>wx_point := pt,
           wx_interruptResolution := (case pt of Interrupting _ \<Rightarrow> None | _ \<Rightarrow> wx_interruptResolution x)\<rparr>)"

definition after_failure :: "execution \<Rightarrow> string \<Rightarrow> execution" where
  "after_failure x why =
     x\<lparr>wx_point := (case wx_point x of Fetching _ \<Rightarrow> GivingUp why | Evaluating \<Rightarrow> GivingUp why | _ \<Rightarrow> WorkflowFailed)\<rparr>"

text \<open>A durable wait is over once its signal has been received.\<close>

definition woken :: "execution \<Rightarrow> execution option" where
  "woken x =
     (case wx_point x of
        AwaitingResolution cid \<Rightarrow> map_option (\<lambda>p. x\<lparr>wx_point := Resolving cid p\<rparr>) (wx_resolution x)
      | AwaitingResume \<Rightarrow>
          map_option (\<lambda>_. x\<lparr>wx_point := Evaluating, wx_interruptResolution := None\<rparr>) (wx_interruptResolution x)
      | _ \<Rightarrow> None)"

section \<open>Executions among other requests\<close>

definition ended :: "wf_point \<Rightarrow> bool" where
  "ended pt = (case pt of Returned _ \<Rightarrow> True | WorkflowCancelled \<Rightarrow> True | WorkflowFailed \<Rightarrow> True | _ \<Rightarrow> False)"

definition retryable :: "case_error \<Rightarrow> bool" where
  "retryable e = (case e of ApplicationFailure again _ _ _ \<Rightarrow> again | _ \<Rightarrow> True)"

definition maximumAttempts :: nat where
  "maximumAttempts = 3"

text \<open>
  The execution, its activities in flight (with the number of attempts and the task of the
  last one), all tasks, and the database.
\<close>

type_synonym wf_state = "execution \<times> (activity \<times> nat \<times> nat) list \<times> activity_result case_prog list \<times> case_db"

inductive wf_step :: "case_env \<Rightarrow> wf_state \<Rightarrow> wf_state \<Rightarrow> bool" for env where
  schedule: "a \<in> set (awaited (wx_point x)) \<Longrightarrow> a \<notin> fst ` set run \<Longrightarrow>
    wf_step env (x, run, ts, db) (x, (a, 1, length ts) # run, ts @ [activity_prog env x a], db)"
| task: "n < length ts \<Longrightarrow> ts ! n = Act k \<Longrightarrow> k i db = (p, db') \<Longrightarrow>
    wf_step env (x, run, ts, db) (x, run, ts[n := p], db')"
| complete: "(a, m, n) \<in> set run \<Longrightarrow> ts ! n = Ret (Inr r) \<Longrightarrow>
    wf_step env (x, run, ts, db) (after_result x a r, filter (\<lambda>(b, _). b \<noteq> a) run, ts, db)"
| retry: "(a, m, n) \<in> set run \<Longrightarrow> m < maximumAttempts \<Longrightarrow> (\<And>e. ts ! n = Ret (Inl e) \<Longrightarrow> retryable e) \<Longrightarrow>
    wf_step env (x, run, ts, db)
      (x, (a, Suc m, length ts) # filter (\<lambda>(b, _). b \<noteq> a) run, ts @ [activity_prog env x a], db)"
| give_up: "(a, m, n) \<in> set run \<Longrightarrow> m = maximumAttempts \<or> (\<exists>e. ts ! n = Ret (Inl e) \<and> \<not> retryable e) \<Longrightarrow>
    wf_step env (x, run, ts, db) (after_failure x why, [], ts, db)"
| resolve_signal: "\<not> ended (wx_point x) \<Longrightarrow>
    wf_step env (x, run, ts, db) (x\<lparr>wx_resolution := Some p, wx_history := wx_history x @ [p]\<rparr>, run, ts, db)"
| resume_signal: "\<not> ended (wx_point x) \<Longrightarrow>
    wf_step env (x, run, ts, db) (x\<lparr>wx_interruptResolution := Some q\<rparr>, run, ts, db)"
| wake: "woken x = Some x' \<Longrightarrow> wf_step env (x, run, ts, db) (x', run, ts, db)"
| cancel: "\<not> ended (wx_point x) \<Longrightarrow> wx_point x \<noteq> Cancelling \<Longrightarrow>
    wf_step env (x, run, ts, db) (x\<lparr>wx_point := Cancelling\<rparr>, [], ts, db)"
| other: "wf_step env (x, run, ts, db) (x, run, ts @ [no_result (case_handler env call)], db)"

inductive_cases wf_stepE: "wf_step env (x, run, ts, db) c"

section \<open>What an execution knows\<close>

definition settled_by :: "uuid \<Rightarrow> ResolveConditionSignalPayload \<Rightarrow> case_db \<Rightarrow> bool" where
  "settled_by cid p db \<longleftrightarrow> (\<exists>tr \<in> set (cas_transitions db). ctr_conditionId tr = cid
     \<and> ctr_toStatus tr = resolution_status (rcp_resolution p) \<and> ctr_actorId tr = Some (rcp_actorId p))"

definition completed :: "uuid \<Rightarrow> uuid \<Rightarrow> case_db \<Rightarrow> bool" where
  "completed tenantId caseId db \<longleftrightarrow> (\<exists>e \<in> set (cas_outbox db). obx_tenantId e = tenantId
     \<and> obx_caseId e = caseId \<and> obx_eventType e = event_text WorkflowRunCompleted)"

abbreviation case_completed :: "CaseConditionsWorkflowInput \<Rightarrow> case_db \<Rightarrow> bool" where
  "case_completed inp \<equiv> completed (wfi_tenantId inp) (wfi_caseId inp)"

definition act_post ::
  "CaseConditionsWorkflowInput \<Rightarrow> activity \<Rightarrow> case_db \<Rightarrow> case_error + activity_result \<Rightarrow> bool" where
  "act_post inp a db r \<longleftrightarrow>
     (\<forall>v. r = Inr v \<longrightarrow>
        (\<forall>cid p. a = ResolveAct cid p \<longrightarrow> settled_by cid p db)
        \<and> (a = MarkReadyAct \<longrightarrow> case_completed inp db) \<and> (v = Evaluation EvalReady \<longrightarrow> case_completed inp db))"

definition settled_in :: "execution \<Rightarrow> uuid \<Rightarrow> case_db \<Rightarrow> bool" where
  "settled_in x cid db \<longleftrightarrow> (\<exists>p \<in> set (wx_history x). settled_by cid p db)"

definition point_ok :: "execution \<Rightarrow> case_db \<Rightarrow> bool" where
  "point_ok x db \<longleftrightarrow>
     (\<forall>p. wx_resolution x = Some p \<longrightarrow> p \<in> set (wx_history x))
     \<and> (case wx_point x of
          Resolving cid p \<Rightarrow> p \<in> set (wx_history x)
        | Finishing cid \<Rightarrow> settled_in x cid db
        | Returned r \<Rightarrow> wfr_finalStatus r = READY_FOR_UNDERWRITING \<longrightarrow> case_completed (wx_input x) db
            \<and> (\<forall>cid. wfr_conditionId r = Some cid \<longrightarrow> settled_in x cid db)
        | _ \<Rightarrow> True)"

fun wf_inv :: "wf_state \<Rightarrow> bool" where
  "wf_inv (x, run, ts, db) \<longleftrightarrow>
     case_inv db \<and> point_ok x db \<and> (\<forall>p \<in> set ts. run_rg (\<lambda>_ _. True) db p)
     \<and> (\<forall>(a, m, n) \<in> set run. n < length ts \<and> a \<in> set (awaited (wx_point x)) \<and> run_rg (act_post (wx_input x) a) db (ts ! n))"

lemma settled_later: "settled_by cid p db \<Longrightarrow> case_R db db' \<Longrightarrow> settled_by cid p db'"
  by (auto simp: settled_by_def case_R_def)

lemma settled_in_later: "settled_in x cid db \<Longrightarrow> case_R db db' \<Longrightarrow> settled_in x cid db'"
  by (auto simp: settled_in_def intro: settled_later)

lemma completed_later: "completed t c db \<Longrightarrow> case_R db db' \<Longrightarrow> completed t c db'"
  by (auto simp: completed_def case_R_def)

lemma act_post_later: "act_post inp a db r \<Longrightarrow> case_R db db' \<Longrightarrow> act_post inp a db' r"
  by (auto simp: act_post_def intro: settled_later completed_later)

lemma point_ok_later: "point_ok x db \<Longrightarrow> case_R db db' \<Longrightarrow> point_ok x db'"
  by (auto simp: point_ok_def split: wf_point.splits intro: settled_in_later completed_later)

section \<open>An attempt that succeeded did what its activity is for\<close>

lemma rg_resolve_txn:
  assumes "cnd_id seen = cid"
  shows "run_rg (\<lambda>u r. r = Inr () \<longrightarrow> settled_by cid p u) s (act (\<lambda>i. run_txn (resolve_condition_txn env i t c seen p)))"
proof (rule rg_act)
  fix i u r v assume u: "case_inv u" and step: "run_txn (resolve_condition_txn env i t c seen p) u = (r, v)"
  have keep: "case_ok (act (\<lambda>i. run_txn (resolve_condition_txn env i t c seen p)))" by (rule cok_resolve_txn)
  have "settled_by cid p v" if "r = Inr ()"
    using step that assms
    by (auto simp: result_simps resolve_condition_txn_def settled_by_def Let_def split: if_splits)
  then show "case_inv v \<and> case_R u v \<and> (r = Inr () \<longrightarrow> settled_by cid p v)"
    using cs.rg_prun [OF ok_rg [OF keep] u, of "\<lambda>_. i"] step by simp
qed

lemma rg_resolve:
  "run_rg (\<lambda>u r. r = Inr () \<longrightarrow> settled_by cid p u) s (resolveCondition env t c cid p)"
proof -
  have find: "run_rg (\<lambda>u r. \<forall>x. r = Inr x \<longrightarrow> cnd_id x = cid) s (condition_or_fail cid)"
    unfolding condition_or_fail_def
    by (rule rg_act) (auto simp: cs.R_refl or_throw_def split: option.splits dest: find_SomeD)
  show ?thesis
    unfolding resolveCondition_def by (rule rg_pbind [OF find]) (simp_all add: rg_resolve_txn)
qed

lemma rg_finalize:
  "run_rg (\<lambda>u r. r = Inr () \<longrightarrow> completed t c u) s (act (\<lambda>i. run_txn (finalizeReadyForUnderwriting env i t c expected)))"
proof (rule rg_act)
  fix i u r v assume u: "case_inv u" and step: "run_txn (finalizeReadyForUnderwriting env i t c expected) u = (r, v)"
  have keep: "case_ok (act (\<lambda>i. run_txn (finalizeReadyForUnderwriting env i t c expected)))" by (rule cok_finalize)
  have "completed t c v" if "r = Inr ()"
    using step that
    by (auto simp: result_simps finalizeReadyForUnderwriting_def completed_def Let_def split: if_splits option.splits)
  then show "case_inv v \<and> case_R u v \<and> (r = Inr () \<longrightarrow> completed t c v)"
    using cs.rg_prun [OF ok_rg [OF keep] u, of "\<lambda>_. i"] step by simp
qed

lemma rg_notified:
  assumes "completed t c s" "case_ok p"
  shows "run_rg (\<lambda>u _. completed t c u) s p"
  by (rule rg_weaken [OF cs.rg_guarantee [OF ok_rg [OF assms(2)]]]) (use assms(1) completed_later in blast)

lemma rg_mark_ready: "run_rg (\<lambda>u r. r = Inr () \<longrightarrow> completed t c u) s (markReadyForUnderwriting env t c)"
  unfolding markReadyForUnderwriting_def
  by (rule rg_pbind [OF rg_finalize]) (auto intro!: rg_weaken [OF rg_notified] oks)

lemma rg_settle_run: "run_rg (\<lambda>u r. r = Inr EvalReady \<longrightarrow> completed t c u) s (settle_run env t c v res)"
proof -
  have ready: "run_rg (\<lambda>u r. r = Inr EvalReady \<longrightarrow> completed t c u) s
      (pbind (act (\<lambda>i. run_txn (finalizeReadyForUnderwriting env i t c (Some v)))) (\<lambda>_.
       pbind (sendReadyForUnderwritingNotification env t c) (\<lambda>_. preturn EvalReady)))"
    by (rule rg_pbind [OF rg_finalize]) (auto intro!: rg_pbind [OF rg_notified] oks)
  show ?thesis
    unfolding settle_run_def using ready by (auto split: AgentRunRoute.split option.split)
qed

lemma rg_evaluate: "run_rg (\<lambda>u r. r = Inr EvalReady \<longrightarrow> completed t c u) s (evaluateConditions env t c run)"
  unfolding evaluateConditions_def tenant_or_fail_def Let_def
  by (intro run_pbind [OF ok_rg] oks rg_settle_run) simp_all

lemma rg_no_result:
  assumes "run_rg (\<lambda>u r. r = Inr () \<longrightarrow> P u) s p"
  shows "run_rg (\<lambda>u r. \<forall>v. r = Inr v \<longrightarrow> v = NoResult \<and> P u) s (no_result p)"
  unfolding no_result_def by (rule rg_pbind [OF assms]) auto

lemma rg_activity_ok: "run_rg (\<lambda>_ _. True) s (activity_prog env x a)"
  by (cases a) (auto simp: no_result_def intro!: run_pbind [OF ok_rg] oks)

lemma rg_quiet:
  assumes "case_ok p" "\<And>cid q. a \<noteq> ResolveAct cid q" "a \<noteq> MarkReadyAct"
  shows "run_rg (act_post inp a) s (no_result p)"
  unfolding no_result_def by (rule run_pbind [OF ok_rg [OF assms(1)]]) (use assms in \<open>simp_all add: act_post_def\<close>)

lemma rg_activity: "run_rg (act_post (wx_input x) a) s (activity_prog env x a)"
proof (cases a)
  case (PrepareRecoveryAct r)
  then show ?thesis by (auto simp: act_post_def intro!: run_pbind [OF ok_rg] oks)
next
  case EvaluateAct
  then show ?thesis by (auto simp: act_post_def intro!: rg_pbind [OF rg_evaluate])
next
  case (ResolveAct cid q)
  then show ?thesis by (auto simp: act_post_def intro!: rg_weaken [OF rg_no_result [OF rg_resolve]])
next
  case MarkReadyAct
  then show ?thesis by (auto simp: act_post_def intro!: rg_weaken [OF rg_no_result [OF rg_mark_ready]])
qed (auto intro!: rg_quiet oks)

section \<open>Every step keeps the invariant\<close>

lemma rg_step_one:
  assumes "run_rg Q s (Act k)" "case_inv s" "k i s = (p, t)"
  shows "case_inv t \<and> case_R s t \<and> run_rg Q t p"
  using assms(1,2) cs.R_refl [of s] assms(3) by (metis fst_conv snd_conv rg_ActE)

lemma point_ok_result:
  assumes "point_ok x db" "a \<in> set (awaited (wx_point x))" "act_post (wx_input x) a db (Inr r)"
  shows "point_ok (after_result x a r) db"
  using assms
  by (auto simp: point_ok_def after_result_def next_point_def fetched_def after_recovery_def after_evaluation_def act_post_def
      settled_in_def Let_def split: wf_point.splits activity_result.splits PrepareWorkflowRecoveryResult.splits
      EvaluateConditionsResult.splits if_splits)

lemma still_awaited:
  assumes "a \<in> set (awaited (wx_point x))" "b \<in> set (awaited (wx_point x))" "b \<noteq> a"
  shows "b \<in> set (awaited (wx_point (after_result x a r)))"
  using assms by (cases "wx_point x") (auto simp: after_result_def next_point_def fetched_def Let_def filter_empty_conv)

lemma after_result_simps [simp]: "wx_input (after_result x a r) = wx_input x"
  by (simp add: after_result_def Let_def)

lemma rg_other: "run_rg (\<lambda>_ _. True) s (no_result (case_handler env call))"
  unfolding no_result_def by (rule run_pbind [OF rg_weaken [OF rg_case_handler]]) simp_all

lemma rg_later_post: "run_rg (act_post inp a) s p \<Longrightarrow> case_R s t \<Longrightarrow> run_rg (act_post inp a) t p"
  by (erule cs.rg_later) (auto intro: act_post_later)

lemma rg_later_ok: "run_rg (\<lambda>_ _. True) s p \<Longrightarrow> case_R s t \<Longrightarrow> run_rg (\<lambda>_ _. True) t p"
  by (erule cs.rg_later) auto

lemma wf_inv_task:
  assumes "wf_inv (x, run, ts, db)" "n < length ts" "ts ! n = Act k" "k i db = (p, db')"
  shows "wf_inv (x, run, ts[n := p], db')"
proof -
  have db: "case_inv db" and all: "\<forall>q \<in> set ts. run_rg (\<lambda>_ _. True) db q"
    and run: "(a, m, l) \<in> set run \<Longrightarrow> l < length ts \<and> a \<in> set (awaited (wx_point x)) \<and> run_rg (act_post (wx_input x) a) db (ts ! l)" for a m l
    using assms(1) by auto
  have "run_rg (\<lambda>_ _. True) db (Act k)" using all assms(2,3) by (metis nth_mem)
  note moved = rg_step_one [OF this db assms(4)]
  have one: "run_rg Q db (Act k) \<Longrightarrow> run_rg Q db' p" for Q using rg_step_one [where k = k and i = i, OF _ db assms(4)] by blast
  have "run_rg (act_post (wx_input x) a) db' (ts[n := p] ! l)" if "(a, m, l) \<in> set run" for a m l
    using run [OF that] assms(2,3) moved one [of "act_post (wx_input x) a"]
    by (auto simp: nth_list_update intro: rg_later_post)
  moreover have "\<forall>q \<in> set (ts[n := p]). run_rg (\<lambda>_ _. True) db' q"
    using all moved by (auto dest!: subsetD [OF set_update_subset_insert] intro: rg_later_ok)
  ultimately show ?thesis
    using assms(1) moved run by (auto intro: point_ok_later)
qed

lemma wf_inv_complete:
  assumes "wf_inv (x, run, ts, db)" "(a, m, n) \<in> set run" "ts ! n = Ret (Inr r)"
  shows "wf_inv (after_result x a r, filter (\<lambda>(b, _). b \<noteq> a) run, ts, db)"
proof -
  from assms have a: "a \<in> set (awaited (wx_point x))" "act_post (wx_input x) a db (Inr r)" by fastforce+
  with assms(1) show ?thesis by (auto intro: point_ok_result still_awaited)
qed

lemma wf_inv_start:
  assumes "wf_inv (x, run, ts, db)" "a \<in> set (awaited (wx_point x))" "set run' \<subseteq> insert (a, m, length ts) (set run)"
  shows "wf_inv (x, run', ts @ [activity_prog env x a], db)"
  using assms rg_activity [of x a db env] rg_activity_ok [of db env x a]
  by (auto simp: nth_append dest!: subsetD [OF assms(3)])

lemma woken_facts:
  assumes "woken x = Some x'" "point_ok x db"
  shows "point_ok x' db \<and> wx_input x' = wx_input x \<and> awaited (wx_point x) = []"
  using assms by (auto simp: woken_def point_ok_def split: wf_point.splits)

lemma wf_step_inv:
  assumes "wf_step env s s'" "wf_inv s"
  shows "wf_inv s'"
  using assms
proof induction
  case (schedule a x run ts db)
  then show ?case by (intro wf_inv_start) auto
next
  case (task n ts k i db p db' x run)
  then show ?case by (intro wf_inv_task)
next
  case (complete a m n run ts r x db)
  then show ?case by (intro wf_inv_complete)
next
  case (retry a m n run ts x db)
  then show ?case by (intro wf_inv_start [where m = "Suc m"]) auto
next
  case (give_up a m n run ts x db why)
  then show ?case by (auto simp: after_failure_def point_ok_def split: wf_point.splits)
next
  case (resolve_signal x run ts db p)
  then show ?case by (auto simp: point_ok_def settled_in_def split: wf_point.splits)
next
  case (resume_signal x run ts db q)
  then show ?case by (auto simp: point_ok_def settled_in_def split: wf_point.splits)
next
  case (wake x x' run ts db)
  then show ?case using woken_facts [OF wake(1), of db] by auto
next
  case (cancel x run ts db)
  then show ?case by (auto simp: point_ok_def)
next
  case (other x run ts db call)
  then show ?case by (auto simp: rg_other nth_append)
qed

lemma wf_reach_inv:
  assumes "(wf_step env)\<^sup>*\<^sup>* s s'" "wf_inv s"
  shows "wf_inv s'"
  using assms by induction (auto intro: wf_step_inv)

lemma started_inv: "case_inv db \<Longrightarrow> wf_inv (started inp run, [], [], db)"
  by (auto simp: started_def start_point_def point_ok_def split: option.splits)

section \<open>Executions step by step\<close>

text \<open>One choice of the environment, as a function: a choice that is not possible changes nothing.\<close>

datatype wf_choice =
    Schedule activity
  | RunTask nat case_input
  | Complete activity
  | SignalResolution ResolveConditionSignalPayload
  | Wake

fun wf_move :: "case_env \<Rightarrow> wf_choice \<Rightarrow> wf_state \<Rightarrow> wf_state" where
  "wf_move env (Schedule a) (x, run, ts, db) =
     (if a \<in> set (awaited (wx_point x)) \<and> a \<notin> fst ` set run
      then (x, (a, 1, length ts) # run, ts @ [activity_prog env x a], db) else (x, run, ts, db))"
| "wf_move env (RunTask n i) (x, run, ts, db) =
     (if n < length ts
      then case ts ! n of Act k \<Rightarrow> (case k i db of (p, db') \<Rightarrow> (x, run, ts[n := p], db')) | Ret _ \<Rightarrow> (x, run, ts, db)
      else (x, run, ts, db))"
| "wf_move env (Complete a) (x, run, ts, db) =
     (case map_of run a of
        None \<Rightarrow> (x, run, ts, db)
      | Some (m, n) \<Rightarrow>
          (case ts ! n of
             Ret (Inr r) \<Rightarrow> (after_result x a r, filter (\<lambda>(b, _). b \<noteq> a) run, ts, db)
           | _ \<Rightarrow> (x, run, ts, db)))"
| "wf_move env (SignalResolution p) (x, run, ts, db) =
     (if ended (wx_point x) then (x, run, ts, db)
      else (x\<lparr>wx_resolution := Some p, wx_history := wx_history x @ [p]\<rparr>, run, ts, db))"
| "wf_move env Wake (x, run, ts, db) = (case woken x of Some x' \<Rightarrow> (x', run, ts, db) | None \<Rightarrow> (x, run, ts, db))"

lemma wf_move_step: "(wf_step env)\<^sup>*\<^sup>* s (wf_move env c s)"
proof (cases s)
  case (fields x run ts db)
  show ?thesis
  proof (cases c)
    case (Complete a)
    show ?thesis
    proof (cases "map_of run a")
      case (Some mn)
      then have "(a, fst mn, snd mn) \<in> set run" by (simp add: map_of_SomeD)
      with Some fields Complete show ?thesis
        by (auto split: prod.split prog.split sum.split intro!: r_into_rtranclp intro: wf_step.complete)
    qed (use fields Complete in simp)
  qed (auto simp: fields intro!: r_into_rtranclp intro: wf_step.intros wf_step.schedule [unfolded One_nat_def]
      split: prog.split option.split prod.split)
qed

definition wf_moves :: "case_env \<Rightarrow> wf_choice list \<Rightarrow> wf_state \<Rightarrow> wf_state" where
  "wf_moves env = fold (wf_move env)"

lemma wf_moves_steps: "(wf_step env)\<^sup>*\<^sup>* s (wf_moves env cs s)"
proof (induction cs arbitrary: s)
  case (Cons c cs)
  show ?case
    using wf_move_step [of env s c] Cons [of "wf_move env c s"] by (simp add: wf_moves_def)
qed (simp add: wf_moves_def)

text \<open>A task that is let run to its end.\<close>

lemma task_runs:
  assumes "prun p is db = (r, db')" "n < length ts" "ts ! n = p"
  shows "(wf_step env)\<^sup>*\<^sup>* (x, run, ts, db) (x, run, ts[n := Ret r], db')"
  using assms
proof (induction p arbitrary: "is" db ts)
  case (Ret q)
  then have "ts[n := Ret r] = ts" by (metis Pair_inject list_update_id prun.simps(1))
  with Ret show ?case by simp
next
  case (Act k)
  obtain p u where k: "k (is 0) db = (p, u)" by fastforce
  have "wf_step env (x, run, ts, db) (x, run, ts[n := p], u)" by (rule wf_step.task [where k = k and i = "is 0"]) (use Act.prems k in auto)
  moreover have "(wf_step env)\<^sup>*\<^sup>* (x, run, ts[n := p], u) (x, run, (ts[n := p])[n := Ret r], db')"
  proof (rule Act.IH [of "k (is 0)" "(p, u)" p "\<lambda>n. is (Suc n)" u])
    show "(p, u) \<in> range (k (is 0))" using k by (metis rangeI)
    show "prun p (\<lambda>n. is (Suc n)) u = (r, db')" using Act.prems k by simp
  qed (use Act.prems in \<open>simp_all add: fsts.intros\<close>)
  ultimately show ?case by (simp add: converse_rtranclp_into_rtranclp)
qed

text \<open>An awaited activity is scheduled, runs alone to its end, and its result arrives.\<close>

lemma activity_runs:
  assumes "prun (activity_prog env x a) is db = (Inr r, db')" "a \<in> set (awaited (wx_point x))"
  shows "(wf_step env)\<^sup>*\<^sup>* (x, [], ts, db) (after_result x a r, [], ts @ [Ret (Inr r)], db')"
proof -
  have "wf_step env (x, [], ts, db) (x, [(a, 1, length ts)], ts @ [activity_prog env x a], db)"
    using schedule [of a x "[]" env ts db] assms(2) by simp
  moreover have "(wf_step env)\<^sup>*\<^sup>* (x, [(a, 1, length ts)], ts @ [activity_prog env x a], db)
      (x, [(a, 1, length ts)], ts @ [Ret (Inr r)], db')"
    using task_runs [OF assms(1), of "length ts" "ts @ [activity_prog env x a]" env x "[(a, 1, length ts)]"] by simp
  moreover have "wf_step env (x, [(a, 1, length ts)], ts @ [Ret (Inr r)], db') (after_result x a r, [], ts @ [Ret (Inr r)], db')"
    using complete [of a 1 "length ts" "[(a, 1, length ts)]" "ts @ [Ret (Inr r)]" r env x db'] by simp
  ultimately show ?thesis by (meson converse_rtranclp_into_rtranclp rtranclp.rtrancl_into_rtrancl)
qed

end
