(* ===== verification/Case_Scenario.thy ===== *)
theory Case_Scenario
  imports Case_Workflow Policy_Scenario Provider_Scenario
begin

text \<open>
  A concrete case for the witnesses of \<open>Case_Properties\<close>: a tenant, the catalog of
  \<open>Policy_Scenario\<close>, and a platform on which the three required facts have been observed.
  \<open>kx_in n\<close> is the input of the \<open>n\<close>-th step, with ids no other step generates.
\<close>

definition kx_comm :: comm_env where
  "kx_comm =
     \<lparr>cme_web = \<lparr>env_nodeEnv = None, env_url_parse = \<lambda>_. None, env_hmac = \<lambda>k s. [], env_spell = \<lambda>_. []\<rparr>,
      cme_outboxSecret = [], cme_sha256 = (\<lambda>_. ''digest''), cme_sha256_text = id\<rparr>"

definition kx_env :: case_env where
  "kx_env =
     \<lparr>kev_comm = kx_comm, kev_date_parse = ex_parse, kev_sha256 = (\<lambda>_. ''digest''), kev_planner = None,
      kev_lex = (\<lambda>_. None), kev_message = (\<lambda>_. ''error''), kev_reason = (\<lambda>_. ''income discrepancy''),
      kev_decimal = Some, 
      kev_crypto = \<lparr>cx_aead = \<lparr>seal = (\<lambda>k iv aad p. ([], [])), unseal = (\<lambda>k iv aad t c. None)\<rparr>, cx_ring = example_ring,
        cx_sha256 = (\<lambda>_. ''digest'')\<rparr>, kev_registry = ex_reg, kev_timeout = (\<lambda>_. False)\<rparr>"

definition kx_now :: timestamp where
  "kx_now = new_year + day"

definition kx_in :: "nat \<Rightarrow> case_input" where
  "kx_in n =
     \<lparr>kin_now = kx_now, kin_db_now = kx_now, kin_ids = (\<lambda>k. CHR ''x'' # nat_text (10 * n + k)), kin_stored = True,
      kin_raced = False, kin_reply = FetchFailed, kin_dispatch = ex_env, kin_temporal = Accepted ''run''\<rparr>"

definition kx_dto :: CreateCaseDto where
  "kx_dto =
     \<lparr>dto_borrowerId = ''b'', dto_requestedAmount = js_int 250000, dto_loanType = CONVENTIONAL,
      dto_statedMonthlyIncome = js_int 10000, dto_jurisdictionCode = ''US-CA''\<rparr>"

definition kx_fact :: "ProviderCapability \<Rightarrow> json \<Rightarrow> EvidenceFact" where
  "kx_fact cap v =
     \<lparr>ev_id = capability_name cap, ev_tenantId = ''t'', ev_caseId = ''x30'', ev_factType = cap,
      ev_sourceIdentifier = ''simulator'', ev_value = v, ev_observedAt = kx_now, ev_validThrough = None, ev_version = 1\<rparr>"

definition kx_db :: "json \<Rightarrow> case_db" where
  "kx_db income =
     \<lparr>cas_tenants = [\<lparr>trb_tenantId = ''t'', trb_agentRunStepBudgetOverride = None, trb_agentRunDurationBudgetMsOverride = None\<rparr>],
      cas_cases = [], cas_conditions = [], cas_transitions = [], cas_outbox = [], cas_manifests = [], cas_invocations = [],
      cas_runs = [], cas_attempts = [],
      cas_budget = empty_budget [\<lparr>ten_id = ''t'', agentMonthlyProviderCallLimit = None, agentMonthlyCostLimitMinorUnits = None,
        agentBudgetCurrency = None\<rparr>],
      cas_policy = ex_db0\<lparr>pol_cases := []\<rparr>,
      cas_platform = empty_platform\<lparr>evidence := [kx_fact INCOME income, kx_fact CREDIT JNull, kx_fact DOCUMENT JNull]\<rparr>,
      cas_comms = \<lparr>com_templates = [], com_messages = [], com_approvals = [], com_outbox = [], com_audit = [], com_sent = []\<rparr>,
      cas_submissions = [], cas_temporal = []\<rparr>"

text \<open>
  Two requests create the same case at the same time; collection starts, and the workflow is
  cancelled.
\<close>

definition kx_calls :: "case_call list" where
  "kx_calls = [CreateCase ''key'' ''t'' kx_dto, CreateCase ''key'' ''t'' kx_dto, MarkCollecting ''t'' ''x30'', MarkCancelled ''t'' ''x30'']"

definition kx_sched :: "(nat \<times> case_input) list" where
  "kx_sched = map (\<lambda>(h, n). (h, kx_in n))
     [(0, 0), (0, 1), (0, 2), (1, 6), (1, 7), (1, 8), (0, 3), (0, 4), (1, 9), (1, 10), (2, 12), (3, 13), (3, 14)]"

definition kx_end :: "case_reply case_prog list \<times> case_db" where
  "kx_end = run_schedule kx_sched (map (case_handler kx_env) kx_calls, kx_db JNull)"

fun reply_of :: "case_reply case_prog \<Rightarrow> (case_error + case_reply) option" where
  "reply_of (Ret r) = Some r" | "reply_of _ = None"

text \<open>The handlers' definitions, to run them by rewriting.\<close>

lemmas kx_prog = createCase_def query_def act_def finish_def markCollectingEvidence_def mark_status_def
  markWorkflowCancelled_def case_or_fail_def case_by_key_def grant_consent_def on_platform_def preturn_def pthrow_def run_txn_def
  create_case_txn_def new_case_def stored_case_def put_event_def outbox_event_def case_event_def Let_def by_key_def set_cases_def
  update_where_def is_case_def with_status_def find_case_def or_throw_def cancel_txn_def cancel_keeps_def grantForCase_def
  unique_violation_def

lemmas kx_data = kx_dto_def kx_db_def kx_in_def kx_env_def kx_comm_def kx_now_def ex_db0_def ex_catalog_def empty_platform_def

lemma kx_ids:
  "nat_text 30 = ''30''" "nat_text 31 = ''31''" "nat_text 40 = ''40''" "nat_text 90 = ''90''" "nat_text 91 = ''91''"
  "nat_text 120 = ''120''" "nat_text 140 = ''140''"
  by code_simp+

lemma kx_replies:
  "map reply_of (fst kx_end) = [Some (Inr (CaseId ''x30'')), Some (Inr (CaseId ''x30'')), Some (Inr Finished), Some (Inr Finished)]"
  by (simp add: kx_end_def kx_sched_def kx_calls_def kx_prog kx_data kx_ids)

lemma kx_cases:
  "map (\<lambda>c. (lc_tenantId c, lc_id c, lc_status c)) (cas_cases (snd kx_end)) = [(''t'', ''x30'', MANUAL_REVIEW)]"
  by (simp add: kx_end_def kx_sched_def kx_calls_def kx_prog kx_data kx_ids)

lemma kx_events:
  "map obx_eventType (cas_outbox (snd kx_end)) = [''loan_case.created'', ''workflow_run.started'', ''workflow_run.cancelled'']"
  by (simp add: kx_end_def kx_sched_def kx_calls_def kx_prog kx_data kx_ids)

lemma reply_of_Some [simp]: "reply_of p = Some r \<longleftrightarrow> p = Ret r"
  by (cases p) auto

end
