(* ===== verification/Agent_Scenario.thy ===== *)
theory Agent_Scenario
  imports Case_Scenario
begin

text \<open>
  One evaluation of the case of \<open>Case_Scenario\<close> from beginning to end, step by step: the
  case is created, collection starts, and the agent run checks completeness, evaluates the
  policy, finds no matching rule, assembles the manifest and proposes. The run is evaluated by
  rewriting; \<open>lazy\<close> keeps the part of a program that is not reached yet as it is.
\<close>

lemma lazy:
  "Act k = Act k" "p = q \<Longrightarrow> pbind p f = pbind q f" "p = q \<Longrightarrow> pcatch p h = pcatch q h"
  "p = q \<Longrightarrow> zoom a b c d p = zoom a b c d q"
  by simp_all

section \<open>The case before the evaluation\<close>

definition kx_run_calls :: "case_call list" where
  "kx_run_calls = [CreateCase ''key'' ''t'' kx_dto, MarkCollecting ''t'' ''x30'', Evaluate ''t'' ''x30'' ''run'']"

definition kx_before :: "case_reply case_prog list \<times> case_db" where
  "kx_before = run_schedule (map (\<lambda>(h, n). (h, kx_in n)) [(0, 0), (0, 1), (0, 2), (0, 3), (0, 4), (1, 12)])
     (map (case_handler kx_env) kx_run_calls, kx_db JNull)"

definition kx_started :: case_db where
  "kx_started = snd kx_before"

definition kx_row :: CaseRow where
  "kx_row = with_status (kx_in 12) COLLECTING_EVIDENCE (new_case (kx_in 3) ''key'' ''t'' kx_dto)"

lemma kx_waiting: "\<exists>p q. fst kx_before = [p, q, case_handler kx_env (Evaluate ''t'' ''x30'' ''run'')]"
  by (simp add: kx_before_def kx_run_calls_def kx_prog kx_data kx_ids)

lemma kx_started_rows:
  "cas_tenants kx_started = cas_tenants (kx_db JNull)" "cas_budget kx_started = cas_budget (kx_db JNull)"
  "cas_policy kx_started = cas_policy (kx_db JNull)" "cas_comms kx_started = cas_comms (kx_db JNull)"
  "cas_runs kx_started = []" "cas_manifests kx_started = []" "cas_attempts kx_started = []"
  "map obx_id (cas_outbox kx_started) = [CHR ''x'' # nat_text 31, CHR ''x'' # nat_text 120]"
  "evidence (cas_platform kx_started) = evidence (cas_platform (kx_db JNull))"
  "cas_cases kx_started = [kx_row]"
  by (simp_all add: kx_started_def kx_before_def kx_run_calls_def kx_row_def kx_prog kx_data kx_ids)

lemma kx_consent: "getStatus kx_now ''t'' ''x30'' (cas_platform kx_started) = VALID"
  by (simp add: kx_started_def kx_before_def kx_run_calls_def kx_prog kx_data kx_ids getStatus_def mostRecentRecord_def expired_def)

lemma kx_used_ids: "obx_id ` set (cas_outbox kx_started) = {CHR ''x'' # nat_text 31, CHR ''x'' # nat_text 120}"
  using arg_cong [OF kx_started_rows(8), of set] by simp

lemma nat_text_inj: "nat_text m = nat_text n \<longleftrightarrow> m = n"
  by (metis decimal_nat_text)

lemma small_texts:
  "nat_text 0 = ''0''" "nat_text (Suc 0) = ''1''" "nat_text 2 = ''2''" "nat_text (Suc (Suc 0)) = ''2''"
  by code_simp+

lemma kx_in_simps [simp]:
  "kin_now (kx_in n) = kx_now" "kin_db_now (kx_in n) = kx_now" "kin_ids (kx_in n) k = CHR ''x'' # nat_text (10 * n + k)"
  "kin_raced (kx_in n) = False"
  by (simp_all add: kx_in_def)

lemma kx_env_simps [simp]: "kev_planner kx_env = None" "kev_date_parse kx_env = ex_parse" "kev_sha256 kx_env = (\<lambda>_. ''digest'')"
  by (simp_all add: kx_env_def)

section \<open>Tools and books\<close>

lemma small_units:
  "assertNonnegativeInt (js_int 0) s = Inr 0" "assertNonnegativeInt (js_int 1) s = Inr 1" "assertNonnegativeInt (js_int 10) s = Inr 10"
  by (simp_all add: assertNonnegativeInt_def) code_simp+

lemma usd: "valid_currency ''USD''" "trim ''USD'' = ''USD''"
  by code_simp+

lemma free_unit: "\<not> invalid_units (js_int 0)"
  by code_simp

lemma tool_fields [simp]:
  "tool_name checkCaseCompletenessTool = ''check_case_completeness''" "tool_name (evaluatePolicyTool env) = ''evaluate_policy''"
  "tool_name (createConditionTool env) = ''create_condition''" "tool_name (draftInformationRequestTool env) = ''draft_information_request''"
  "tool_name (sendInformationRequestTool env) = ''send_information_request''"
  "tool_excludedCommandClass checkCaseCompletenessTool = None" "tool_excludedCommandClass (evaluatePolicyTool env) = None"
  "tool_excludedCommandClass (createConditionTool env) = None" "tool_excludedCommandClass (draftInformationRequestTool env) = None"
  "tool_excludedCommandClass (sendInformationRequestTool env) = None"
  "tool_budget checkCaseCompletenessTool = no_cost" "tool_budget (evaluatePolicyTool env) = no_cost"
  "tool_budget (createConditionTool env) = no_cost" "tool_budget (draftInformationRequestTool env) = no_cost"
  "tool_budget (sendInformationRequestTool env) = no_cost"
  "tool_sideEffect checkCaseCompletenessTool = SE_NONE" "tool_sideEffect (evaluatePolicyTool env) = SE_CREATES_ASSESSMENT"
  by (simp_all add: checkCaseCompletenessTool_def evaluatePolicyTool_def createConditionTool_def draftInformationRequestTool_def
      sendInformationRequestTool_def)

lemmas registry_defs = buildToolRegistry_def add_tool_def no_cost_def free_unit assertNotStructurallyExcluded_def

lemma notification_registry: "\<exists>reg. buildToolRegistry [draftInformationRequestTool env, sendInformationRequestTool env] = Inr reg"
  by (simp add: registry_defs)

lemma notification_steps:
  obtains more where "sendReadyForUnderwritingNotification env t c = Act (\<lambda>i db. (if has_approved_template t db then more else Ret (Inr ()), db))"
proof -
  obtain reg where "buildToolRegistry [draftInformationRequestTool env, sendInformationRequestTool env] = Inr reg"
    using notification_registry by blast
  then show thesis
    by (intro that) (auto simp: sendReadyForUnderwritingNotification_def query_def act_def preturn_def fun_eq_iff Let_def)
qed

lemma run_completeness:
  "tool_execute checkCaseCompletenessTool ctx args = query (\<lambda>_ db.
     let m = missing_facts db (atc_tenantId ctx) (atc_caseId ctx) in Completeness (m = []) m)"
  by (simp add: checkCaseCompletenessTool_def)

lemma run_policy_tool:
  "tool_execute (evaluatePolicyTool env) ctx (ForEvaluatePolicy a) =
     pbind (query (\<lambda>i _. kin_now i)) (\<lambda>asOf.
     pbind (on_policy (evaluateInternal (kev_date_parse env) (kev_sha256 env) (atc_tenantId ctx) (atc_caseId ctx)
       \<lparr>ctx_jurisdictionCode = epa_jurisdictionCode a, ctx_productCode = epa_productCode a,
        ctx_lifecycleEvent = epa_lifecycleEvent a, ctx_asOf = asOf,
        ctx_applicationReceivedAt = Some (epa_applicationReceivedAt a)\<rparr>)) (\<lambda>ev.
     preturn (PolicyEvaluated
       \<lparr>epr_outcome = per_outcome ev,
        epr_status = (case per_resolution ev of Some r \<Rightarrow> PolicyResolutionResult.res_status r
                      | None \<Rightarrow> snp_resolutionStatus (per_snapshot ev)),
        epr_policySnapshotId = snp_id (per_snapshot ev), epr_policyBindingId = map_option bnd_id (per_binding ev),
        epr_observedPolicyDependencyDigest = map_option bnd_dependencyDigest (per_binding ev),
        epr_matchedVersions = evaluation_versions ev,
        epr_unresolvedReasons = (case per_resolution ev of Some r \<Rightarrow> res_unresolvedReasons r
                                 | None \<Rightarrow> snp_unresolvedReasons (per_snapshot ev))\<rparr>)))"
  by (simp add: evaluatePolicyTool_def)

section \<open>The policy of the case\<close>

definition kx_pol :: policy_db where
  "kx_pol = ex_db0\<lparr>pol_cases := [LoanCase.truncate kx_row]\<rparr>"

definition kx_ctx :: PolicyResolutionContext where
  "kx_ctx =
     \<lparr>ctx_jurisdictionCode = ''US-CA'', ctx_productCode = ''CONVENTIONAL_MORTGAGE'', ctx_lifecycleEvent = ''UNDERWRITING_REVIEW'',
      ctx_asOf = kx_now, ctx_applicationReceivedAt = Some kx_now\<rparr>"

definition kx_res :: PolicyResolutionResult where
  "kx_res = projr (resolution_at ex_parse kx_pol kx_now kx_ctx)"

definition kx_versions :: "matched_version list" where
  "kx_versions = map (\<lambda>v. \<lparr>mtv_policyVersionId = rv_policyVersionId v, mtv_ruleId = rv_ruleId v,
     mtv_version = rv_version v, mtv_rule = rv_rule v\<rparr>) (res_versions kx_res)"

lemma kx_sources: "resolve_sources kx_now kx_pol kx_ctx = Inr ([''US-CA'', ''US''], Some (new_year + 30 * day))"
  by code_simp

lemma kx_resolved:
  "resolve_versions ex_parse kx_pol kx_ctx [''US-CA'', ''US''] (Some (new_year + 30 * day)) = Inr kx_res"
  "PolicyResolutionResult.res_status kx_res = RESOLVED" "res_unresolvedReasons kx_res = []"
  "nextRevalidationDeadline kx_now kx_res = kx_now + 3600000"
  unfolding kx_res_def by code_simp+

lemma kx_catalog:
  "find_active_binding kx_pol ''t'' ''x30'' = None" "pol_generation kx_pol = 0" "pol_snapshots kx_pol = []" "pol_bindings kx_pol = []"
  "\<not> 300 < length (contextKey kx_ctx)"
  by code_simp+

lemma kx_view:
  "cas_policy db = cas_policy kx_started \<Longrightarrow> cas_cases db = cas_cases kx_started \<Longrightarrow> policy_view db = kx_pol"
  "cas_cases db = cas_cases kx_started \<Longrightarrow> pol_cases (cas_policy db) = pol_cases kx_pol \<Longrightarrow> policy_view db = cas_policy db"
  by (simp_all add: policy_view_def kx_started_rows kx_db_def kx_pol_def)

lemma kx_context:
  "\<lparr>ctx_jurisdictionCode = ''US-CA'', ctx_productCode = ''CONVENTIONAL_MORTGAGE'', ctx_lifecycleEvent = ''UNDERWRITING_REVIEW'',
    ctx_asOf = kx_now, ctx_applicationReceivedAt = Some kx_now\<rparr> = kx_ctx" "ctx_asOf kx_ctx = kx_now"
  by (simp_all add: kx_ctx_def)

lemma kx_evaluated: "per_resolution ev = Some kx_res \<Longrightarrow> evaluation_versions ev = kx_versions" "kx_versions \<noteq> []"
  by (simp_all add: evaluation_versions_def kx_versions_def) code_simp

lemma kx_facts:
  "cas_platform db = cas_platform kx_started \<Longrightarrow> missing_facts db ''t'' ''x30'' = []"
  "cas_platform db = cas_platform kx_started \<Longrightarrow> latest_income ''t'' ''x30'' db = Some (kx_fact INCOME JNull)"
  by (auto simp: missing_facts_def case_facts_def REQUIRED_FACT_TYPES_def latest_income_def kx_started_rows kx_db_def kx_fact_def image_def)

lemma kx_no_match: "lc_statedMonthlyIncome c = js_int 10000 \<Longrightarrow> first_match (fact_context c (Some (kx_fact INCOME JNull))) kx_versions = None"
proof -
  have "first_match (fact_context kx_row (Some (kx_fact INCOME JNull))) kx_versions = None" by code_simp
  then show "lc_statedMonthlyIncome c = js_int 10000 \<Longrightarrow> ?thesis"
    by (simp add: fact_context_def kx_row_def with_status_def new_case_def kx_dto_def)
qed

section \<open>The run\<close>

lemmas run_prog = finish_def evaluateConditions_def case_or_fail_def tenant_or_fail_def act_def query_def preturn_def now_js_def
  run_agent_def on_budget_def run_txn_def Let_def or_throw_def ensure_def find_case_def update_where_def

lemmas run_books = ledger_input_def run_input_def initial_state_def resolveAgentRunBudget_def planner_tokens_def
  DEFAULT_AGENT_RUN_STEP_BUDGET_def DEFAULT_AGENT_RUN_DURATION_BUDGET_MS_def clock_of_def createOrLoad_def validateLedgerInput_def
  insert_or_load_ledger_def new_ledger_def assertSameLedgerConfiguration_def snapshot_def empty_budget_def small_units usd
  reserve_units_def commit_units_def tool_units_def attempt_key_def ledger_of_def reserve_def validateUnits_def find_claim_def
  claim_txn_def find_ledger_def reserve_where_def sql_and_def int4_le_def fits_int4_def put_ledger_def ledger_row_ok_def
  claim_ledger_def reserveTenantAggregate_def insert_reservation_def new_reservation_def receipt_def commit_def
  resolveReservation_def commit_action_def commit_ledger_def commitTenantAggregate_def save_reservation_def max_int4_def int_text_def

lemmas run_nodes = allTools_def AGENT_ALLOWED_TOOLS_def applyBudgetSnapshot_def graph_def next_node_def verifyConsentNode_def
  consentInvalid_def checkCompletenessNode_def tool_node_def invokeBudgetedTool_def budgetExceeded_def find_tool_def invokeTool_def
  recordAttempt_def outcome_of_def error_of_def planNextActionNode_def evaluatePolicyNode_def loanTypeToProductCode_def
  UNDERWRITING_REVIEW_LIFECYCLE_EVENT_def resolveOutcomeNode_def consumeBudgetedRuntimeStep_def conclude_def manifest_for_def
  assemble_def new_manifest_def persistAgentRun_def result_of_def new_run_def settle_run_def proposed_condition_def
  finalizeReadyForUnderwriting_def is_case_def affected_def put_event_def set_cases_def

lemmas run_policy = run_completeness run_policy_tool evaluateInternal_def fast_path_def reusable_def resolve_def
  apply_resolution_def persistSnapshot_def insert_snapshot_def bind_case_def insert_binding_def on_policy_def

lemmas run_case = kx_started_rows kx_consent kx_used_ids kx_row_def with_status_def new_case_def kx_ids kx_dto_def kx_db_def nat_text_inj
  small_texts kx_sources kx_resolved kx_catalog kx_view kx_context kx_evaluated kx_facts kx_no_match

definition kx_proposed :: case_db where
  "kx_proposed = snd (prun (case_handler kx_env (Evaluate ''t'' ''x30'' ''run'')) (\<lambda>n. kx_in (n + 20)) kx_started)"

lemma kx_proposed_run:
  "map (\<lambda>r. (run_tenantId r, run_caseId r, run_route r)) (cas_runs kx_proposed) = [(''t'', ''x30'', PROPOSED_ACTION)]"
proof -
  obtain more where "sendReadyForUnderwritingNotification kx_env ''t'' ''x30''
      = Act (\<lambda>i db. (if has_approved_template ''t'' db then more else Ret (Inr ()), db))"
    by (rule notification_steps)
  then show ?thesis
    by (simp add: kx_proposed_def run_prog run_books registry_defs run_nodes run_policy run_case has_approved_template_def cong: lazy)
qed

lemma kx_proposed_steps:
  "\<exists>ps. pstep\<^sup>*\<^sup>* (map (case_handler kx_env) kx_run_calls, kx_db JNull) (ps, kx_proposed)"
proof -
  obtain p q where ps: "fst kx_before = [p, q] @ case_handler kx_env (Evaluate ''t'' ''x30'' ''run'') # []"
    using kx_waiting by auto
  have "pstep\<^sup>*\<^sup>* (map (case_handler kx_env) kx_run_calls, kx_db JNull) (fst kx_before, kx_started)"
    unfolding kx_started_def prod.collapse kx_before_def by (rule run_schedule_steps)
  moreover have "pstep\<^sup>*\<^sup>* (fst kx_before, kx_started) ([p, q] @ Ret (fst (prun (case_handler kx_env (Evaluate ''t'' ''x30'' ''run''))
      (\<lambda>n. kx_in (n + 20)) kx_started)) # [], kx_proposed)"
    unfolding ps kx_proposed_def by (rule prun_steps) simp
  ultimately show ?thesis by (meson rtranclp_trans)
qed

end
