(* ===== verification/Case_Properties.thy ===== *)
theory Case_Properties
  imports Agent_Scenario
begin

text \<open>
  Properties of the case system: the status of a case and its events, the creation of cases,
  the manifests behind proposals, what a finished workflow has earned, and the ways in which
  waiting, cancellation and signals go wrong.
\<close>

section \<open>Any interleaving\<close>

lemma case_start: "cas_cases db = [] \<Longrightarrow> cas_runs db = [] \<Longrightarrow> cas_budget db = empty_budget ts \<Longrightarrow> case_inv db"
  by (simp add: case_inv_def empty_budget_inv)

text \<open>
  C6. The outbox tells the status of every case. However the handlers of the case API, the
  activities with their agent runs and the messages interleave, a consumer that replays the
  events of a case in the order of the outbox arrives at exactly the status the case has in
  the database.
\<close>

theorem status_replays_from_outbox:
  assumes "cas_cases db0 = []" "cas_runs db0 = []" "cas_budget db0 = empty_budget ts"
    and "pstep\<^sup>*\<^sup>* (map (case_handler env) calls, db0) (ps, db)" "c \<in> set (cas_cases db)"
  shows "replay (events_of db (lc_tenantId c) (lc_id c)) = Some (lc_status c)"
  using case_pool [OF assms(4) case_start [OF assms(1-3)]] assms(5) by (simp add: case_inv_def told_def)

lemma filter_key: "distinct (map f xs) \<Longrightarrow> x \<in> set xs \<Longrightarrow> filter (\<lambda>y. f y = f x) xs = [x]"
  by (induction xs) (auto simp: filter_empty_conv, metis image_eqI)

text \<open>
  C8. One case per idempotency key. Whatever else runs, and however often and concurrently a
  tenant asks to create a case under the same key, there is one case with that key, and every
  request that gets an answer gets the id of that case.
\<close>

theorem create_case_is_idempotent:
  assumes "cas_cases db0 = []" "cas_runs db0 = []" "cas_budget db0 = empty_budget ts"
    and "pstep\<^sup>*\<^sup>* (map (case_handler env) calls, db0) (ps, db)"
    and "n < length calls" "calls ! n = CreateCase key tenantId dto" "ps ! n = Ret (Inr (CaseId a))"
  shows "\<exists>c. filter (by_key tenantId key) (cas_cases db) = [c] \<and> lc_id c = a"
proof -
  have inv: "case_inv db" and made: "created tenantId key a db"
    using case_pool [OF assms(4) case_start [OF assms(1-3)]] assms(5-7) by (auto simp: reply_ok_def)
  from made obtain c where c: "c \<in> set (cas_cases db)" "lc_id c = a" "create_key c = (tenantId, key)"
    by (auto simp: created_def)
  have "by_key tenantId key = (\<lambda>y. create_key y = create_key c)"
    using c(3) by (auto simp: by_key_def create_key_def fun_eq_iff)
  then show ?thesis using filter_key [of create_key, OF _ c(1)] inv c(2) by (simp add: case_inv_def)
qed

text \<open>
  C9. No proposal without its inputs on record. In every interleaving, an agent run that is on
  record as proposing an action for a case has behind it an evaluation input manifest of that
  tenant and case, which pins the evidence and the policy binding the evaluation used.
\<close>

theorem no_proposal_without_manifest:
  assumes "cas_cases db0 = []" "cas_runs db0 = []" "cas_budget db0 = empty_budget ts"
    and "pstep\<^sup>*\<^sup>* (map (case_handler env) calls, db0) (ps, db)"
    and "r \<in> set (cas_runs db)" "run_route r = PROPOSED_ACTION"
  shows "\<exists>m \<in> set (cas_manifests db). eim_tenantId m = run_tenantId r \<and> eim_caseId m = run_caseId r"
proof -
  have "manifested db (run_tenantId r) (run_caseId r)"
    using case_pool [OF assms(4) case_start [OF assms(1-3)]] assms(5,6) by (auto simp: case_inv_def)
  then show ?thesis by (auto simp: manifested_def)
qed

section \<open>The workflow\<close>

text \<open>
  C7. Ready is earned. Whatever activities fail, are retried or are given up although they still
  run, and whatever signals, cancellations and other requests arrive, a workflow that returns
  that its case is ready for underwriting has put the completion of that case on the outbox;
  and when it names a condition, that condition has a transition to the status that a
  resolution received by this execution asked for, with its actor.
\<close>

theorem ready_workflow_was_earned:
  assumes "case_inv db0" "(wf_step env)\<^sup>*\<^sup>* (started inp runId, [], [], db0) (x, run, ts, db)"
    and "wx_point x = Returned res" "wfr_finalStatus res = READY_FOR_UNDERWRITING"
  shows "(\<exists>e \<in> set (cas_outbox db). obx_tenantId e = wfi_tenantId (wx_input x) \<and> obx_caseId e = wfi_caseId (wx_input x)
        \<and> obx_eventType e = ''workflow_run.completed'')
    \<and> (\<forall>cid. wfr_conditionId res = Some cid \<longrightarrow> (\<exists>p \<in> set (wx_history x). \<exists>tr \<in> set (cas_transitions db).
        ctr_conditionId tr = cid \<and> ctr_toStatus tr = resolution_status (rcp_resolution p) \<and> ctr_actorId tr = Some (rcp_actorId p)))"
proof -
  have "wf_inv (x, run, ts, db)" using wf_reach_inv [OF assms(2) started_inv [OF assms(1)]] .
  then have "point_ok x db" by simp
  then show ?thesis using assms(3,4) by (auto simp: point_ok_def completed_def settled_in_def settled_by_def)
qed

lemma prun_catch_all: "fst (prun (pcatch p (\<lambda>_. preturn ())) is s) = Inr ()"
proof (induction p arbitrary: "is" s)
  case (Ret r)
  then show ?case by (cases r) simp_all
next
  case (Act k)
  obtain p t where k: "k (is 0) s = (p, t)" by fastforce
  have "fst (prun (pcatch p (\<lambda>_. preturn ())) (\<lambda>n. is (Suc n)) t) = Inr ()"
    by (rule Act.IH [of "k (is 0)" "(p, t)"]) (use k in \<open>auto simp: fsts.simps intro: range_eqI [of _ _ s]\<close>)
  with k show ?case by simp
qed

lemma notification_returns: "fst (prun (sendReadyForUnderwritingNotification env t c) is s) = Inr ()"
proof -
  obtain reg where "buildToolRegistry [draftInformationRequestTool env, sendInformationRequestTool env] = Inr reg"
    using notification_registry by blast
  then show ?thesis unfolding sendReadyForUnderwritingNotification_def Let_def by (simp add: prun_catch_all)
qed

text \<open>The workflow's own steps once a resolution is there: the condition is settled, the case finished.\<close>

lemma fresh_id: "finite S \<Longrightarrow> \<exists>i :: string. i \<notin> S"
  using infinite_UNIV_listI by (metis ex_new_if_finite)

definition with_ids :: "uuid \<Rightarrow> uuid \<Rightarrow> case_input \<Rightarrow> case_input" where
  "with_ids a b i = i\<lparr>kin_ids := (\<lambda>k. if k = 0 then a else b)\<rparr>"

lemma resolve_succeeds:
  assumes "c \<in> set (cas_conditions db)" "cnd_id c = cid"
  shows "\<exists>is db'. prun (resolveCondition env t k cid p) is db = (Inr (), db')"
proof -
  obtain d where d: "List.find (\<lambda>c. cnd_id c = cid) (cas_conditions db) = Some d"
    using assms by (cases "List.find (\<lambda>c. cnd_id c = cid) (cas_conditions db)") (auto simp: find_None_iff)
  obtain a where a: "a \<notin> ctr_id ` set (cas_transitions db)" using fresh_id by (metis finite_imageI List.finite_set)
  obtain b where b: "b \<notin> obx_id ` set (cas_outbox db)" using fresh_id by (metis finite_imageI List.finite_set)
  have "fst (prun (resolveCondition env t k cid p) (\<lambda>_. with_ids a b i) db) = Inr ()" for i
    using a b d by (simp add: resolveCondition_def condition_or_fail_def or_throw_def run_txn_def resolve_condition_txn_def
        put_event_def with_ids_def Let_def)
  then show ?thesis by (metis prod.collapse)
qed

lemma mark_ready_succeeds: "\<exists>is db'. prun (markReadyForUnderwriting env t k) is db = (Inr (), db')"
proof -
  obtain b where b: "b \<notin> obx_id ` set (cas_outbox db)" using fresh_id by (metis finite_imageI List.finite_set)
  have "fst (prun (markReadyForUnderwriting env t k) (\<lambda>_. with_ids b b i) db) = Inr ()" for i
    using b by (simp add: markReadyForUnderwriting_def run_txn_def finalizeReadyForUnderwriting_def put_event_def with_ids_def
        Let_def notification_returns)
  then show ?thesis by (metis prod.collapse)
qed

lemma prun_no_result: "prun p is s = (Inr (), t) \<Longrightarrow> prun (no_result p) is s = (Inr NoResult, t)"
  unfolding no_result_def
proof (induction p arbitrary: "is" s)
  case (Act k)
  obtain p u where k: "k (is 0) s = (p, u)" by fastforce
  have "prun (pbind p (\<lambda>_. preturn NoResult)) (\<lambda>n. is (Suc n)) u = (Inr NoResult, t)"
    by (rule Act.IH [of "k (is 0)" "(p, u)"]) (use Act.prems k in \<open>auto simp: fsts.simps intro: range_eqI [of _ _ s]\<close>)
  with k show ?case by simp
qed simp

text \<open>
  C36. A resolution settles whatever condition opens next. The workflow remembers a resolution
  it receives before any condition is open; when its evaluation then opens a condition, the
  remembered resolution settles that condition, which its actor cannot have seen, and the
  case becomes ready for underwriting, without any further signal.
\<close>

theorem early_resolution_settles_later_condition:
  assumes "wx_point x = Evaluating" "wx_resolution x = Some p" "ts ! n = Ret (Inr (Evaluation (EvalConditionOpened cid)))"
    and "c \<in> set (cas_conditions db)" "cnd_id c = cid" "case_inv db"
  shows "\<exists>ts' db'. (wf_step env)\<^sup>*\<^sup>* (x, [(EvaluateAct, m, n)], ts, db)
        (x\<lparr>wx_point := Returned \<lparr>wfr_finalStatus = READY_FOR_UNDERWRITING, wfr_conditionId = Some cid\<rparr>\<rparr>, [], ts', db')
    \<and> settled_by cid p db' \<and> completed (wfi_tenantId (wx_input x)) (wfi_caseId (wx_input x)) db'"
proof -
  let ?t = "wfi_tenantId (wx_input x)" and ?k = "wfi_caseId (wx_input x)"
  let ?at = "\<lambda>pt. x\<lparr>wx_point := pt\<rparr>"
  obtain is1 db1 where r1: "prun (resolveCondition env ?t ?k cid p) is1 db = (Inr (), db1)"
    using resolve_succeeds [OF assms(4,5)] by blast
  then have one: "case_inv db1" "settled_by cid p db1" using cs.rg_prun [OF rg_resolve assms(6)] by auto
  obtain is2 db2 where r2: "prun (markReadyForUnderwriting env ?t ?k) is2 db1 = (Inr (), db2)"
    using mark_ready_succeeds by blast
  then have two: "case_R db1 db2" "completed ?t ?k db2" using cs.rg_prun [OF rg_mark_ready one(1)] by auto
  let ?res = "\<lparr>wfr_finalStatus = READY_FOR_UNDERWRITING, wfr_conditionId = Some cid\<rparr>"
  have "(wf_step env)\<^sup>*\<^sup>* (x, [(EvaluateAct, m, n)], ts, db) (?at (AwaitingResolution cid), [], ts, db)"
    using complete [of EvaluateAct m n "[(EvaluateAct, m, n)]" ts _ env x db, OF _ assms(3)] assms(1)
    by (auto simp: after_result_def next_point_def after_evaluation_def)
  moreover have "(wf_step env)\<^sup>*\<^sup>* (?at (AwaitingResolution cid), [], ts, db) (?at (Resolving cid p), [], ts, db)"
    by (intro r_into_rtranclp wake) (simp add: woken_def assms(2))
  moreover have "(wf_step env)\<^sup>*\<^sup>* (?at (Resolving cid p), [], ts, db) (?at (Finishing cid), [], ts @ [Ret (Inr NoResult)], db1)"
    using activity_runs [of env "?at (Resolving cid p)" "ResolveAct cid p" is1 db NoResult db1 ts] prun_no_result [OF r1]
    by (simp add: after_result_def next_point_def)
  moreover have "(wf_step env)\<^sup>*\<^sup>* (?at (Finishing cid), [], ts @ [Ret (Inr NoResult)], db1)
      (?at (Returned ?res), [], ts @ [Ret (Inr NoResult), Ret (Inr NoResult)], db2)"
    using activity_runs [of env "?at (Finishing cid)" MarkReadyAct is2 db1 NoResult db2 "ts @ [Ret (Inr NoResult)]"] prun_no_result [OF r2]
    by (simp add: after_result_def next_point_def)
  ultimately have "(wf_step env)\<^sup>*\<^sup>* (x, [(EvaluateAct, m, n)], ts, db)
      (?at (Returned ?res), [], ts @ [Ret (Inr NoResult), Ret (Inr NoResult)], db2)"
    by (meson rtranclp_trans)
  with two one(2) settled_later show ?thesis by blast
qed

section \<open>Cancellation\<close>

lemma status_set:
  assumes "find_case db t c = Some row"
  shows "map_option lc_status (find_case (set_cases (is_case t c) i st db) t c) = Some st"
  using assms by (auto simp: find_case_def set_cases_def is_case_def find_update_where with_status_def dest: find_SomeD)

lemma find_case_cong: "cas_cases db = cas_cases db' \<Longrightarrow> find_case db t c = find_case db' t c"
  by (simp add: find_case_def)

lemma event_id [simp]: "obx_id (outbox_event w k inp n u) = n"
  by (simp add: outbox_event_def)

text \<open>
  C35. A late cancellation undoes a completed case. The activity that records a cancellation
  leaves the status of a case that is ready for underwriting alone, but it decides on a
  reading made before its write: when the case is finished in between, the case is set back
  to manual review after its completion was announced.
\<close>

theorem cancellation_can_undo_ready:
  assumes "find_case db t c = Some row" "\<not> cancel_keeps (lc_status row)"
  shows "\<exists>ps db1 ps' db2. pstep\<^sup>*\<^sup>* (map (case_handler env) [MarkCancelled t c, MarkReady t c], db) (ps, db1)
    \<and> map_option lc_status (find_case db1 t c) = Some READY_FOR_UNDERWRITING \<and> completed t c db1
    \<and> pstep\<^sup>*\<^sup>* (ps, db1) (ps', db2) \<and> ps' ! 0 = Ret (Inr Finished)
    \<and> map_option lc_status (find_case db2 t c) = Some MANUAL_REVIEW"
proof -
  obtain a where a: "a \<notin> obx_id ` set (cas_outbox db)" using fresh_id by (metis finite_imageI List.finite_set)
  obtain b where b: "b \<notin> insert a (obx_id ` set (cas_outbox db))" using fresh_id by (metis finite.insertI finite_imageI List.finite_set)
  obtain i :: case_input where True by simp
  let ?start = "(map (case_handler env) [MarkCancelled t c, MarkReady t c], db)"
  obtain ps db1 where s1: "run_schedule [(0, i), (1, with_ids a a i)] ?start = (ps, db1)" by fastforce
  obtain ps' db2 where s2: "run_schedule [(0, with_ids b b i)] (ps, db1) = (ps', db2)" by fastforce
  let ?ready = "set_cases (is_case t c) (with_ids a a i) READY_FOR_UNDERWRITING db"
  have ps: "ps ! 0 = pbind (act (\<lambda>i. run_txn (cancel_txn env i t c (lc_status row)))) (\<lambda>_. preturn Finished)" "length ps = 2"
    and db1: "cas_cases db1 = cas_cases ?ready" "map obx_id (cas_outbox db1) = map obx_id (cas_outbox db) @ [a]" "completed t c db1"
    using s1 a assms(1)
    by (auto simp: finish_def markWorkflowCancelled_def case_or_fail_def or_throw_def act_def preturn_def markReadyForUnderwriting_def
        finalizeReadyForUnderwriting_def run_txn_def put_event_def with_ids_def completed_def Let_def)
  have first: "map_option lc_status (find_case db1 t c) = Some READY_FOR_UNDERWRITING"
    unfolding find_case_cong [OF db1(1)] by (rule status_set [OF assms(1)])
  then obtain row1 where row1: "find_case db1 t c = Some row1" by auto
  have "obx_id ` set (cas_outbox db1) = insert a (obx_id ` set (cas_outbox db))"
    using arg_cong [OF db1(2), of set] by auto
  then have "ps' ! 0 = Ret (Inr Finished)" "cas_cases db2 = cas_cases (set_cases (is_case t c) (with_ids b b i) MANUAL_REVIEW db1)"
    using s2 ps b assms(2)
    by (auto simp: act_def preturn_def run_txn_def cancel_txn_def put_event_def with_ids_def Let_def)
  moreover have "map_option lc_status (find_case db2 t c) = Some MANUAL_REVIEW"
    unfolding find_case_cong [OF calculation(2)] by (rule status_set [OF row1])
  ultimately show ?thesis
    using run_schedule_steps [of ?start "[(0, i), (1, with_ids a a i)]"] run_schedule_steps [of "(ps, db1)" "[(0, with_ids b b i)]"]
      first db1(3) unfolding s1 s2 by blast
qed

section \<open>Resuming an interrupted evaluation\<close>

definition manual :: "RuntimeState \<Rightarrow> bool" where
  "manual rs \<longleftrightarrow> rts_route rs = Some ROUTED_TO_MANUAL_REVIEW"

lemma manual_review:
  "manual (routeMandatoryReview rs st (classifyMandatoryReviewTrigger CONSENT_INVALID why))"
  "manual (routeMandatoryReview rs st (classifyMandatoryReviewTrigger BUDGET_OR_DEADLINE_EXHAUSTED why))"
  by (simp_all add: manual_def routeMandatoryReview_def route_of_def classifyMandatoryReviewTrigger_def)

lemma next_node_manual: "manual rs \<Longrightarrow> next_node (preturn rs) node = preturn rs"
  by (simp add: next_node_def manual_def)

lemma budget_late:
  "st_runDeadlineAt st \<le> now \<Longrightarrow> \<exists>why. budgetExceeded now st = Some (classifyMandatoryReviewTrigger BUDGET_OR_DEADLINE_EXHAUSTED why)"
  by (auto simp: budgetExceeded_def)

text \<open>Past the deadline the graph ends at its first tool, or before it when the consent is invalid.\<close>

lemma graph_late:
  assumes "st_runDeadlineAt (rts_agentState rs) \<le> kin_now (is 0)" "rts_route rs = None"
  shows "\<exists>rs' k. manual rs' \<and> prun (pbind (graph env reg rs) f) is db = prun (f rs') (\<lambda>n. is (n + k)) db"
proof (cases "consentInvalid (rts_agentState rs)")
  case None
  obtain why where "budgetExceeded (kin_now (is 0)) (rts_agentState rs) = Some (classifyMandatoryReviewTrigger BUDGET_OR_DEADLINE_EXHAUSTED why)"
    using budget_late [OF assms(1)] by blast
  then have "prun (pbind (graph env reg rs) f) is db = prun (f (routeMandatoryReview rs (rts_agentState rs)
      (classifyMandatoryReviewTrigger BUDGET_OR_DEADLINE_EXHAUSTED why))) (\<lambda>n. is (n + 1)) db"
    using None assms(2) manual_review(2) [unfolded manual_def, of rs "rts_agentState rs" why]
    by (simp add: graph_def next_node_def verifyConsentNode_def checkCompletenessNode_def tool_node_def invokeBudgetedTool_def
        now_js_def pbind_assoc)
  then show ?thesis using manual_review(2) by blast
next
  case (Some trigger)
  then obtain why where "trigger = classifyMandatoryReviewTrigger CONSENT_INVALID why"
    by (auto simp: consentInvalid_def split: if_splits)
  then have "manual (routeMandatoryReview rs (rts_agentState rs) trigger)" using manual_review(1) by simp
  moreover from this have "graph env reg rs = preturn (routeMandatoryReview rs (rts_agentState rs) trigger)"
    using Some by (simp add: graph_def verifyConsentNode_def next_node_manual)
  ultimately show ?thesis by (intro exI [of _ "routeMandatoryReview rs (rts_agentState rs) trigger"] exI [of _ 0]) simp
qed

text \<open>A snapshot of a ledger that exists carries the deadline of that ledger.\<close>

lemma load_deadline:
  assumes "List.find (\<lambda>l. led_tenantId l = in_tenantId i \<and> led_workflowRunId l = in_workflowRunId i) (ledgers b) = Some l"
    and "createOrLoad ck newId i b = (r, b')"
  shows "b' = b \<and> (\<forall>sn. r = Inr sn \<longrightarrow> snap_deadlineAt sn = led_deadlineAt l)"
  using assms by (auto simp: createOrLoad_def insert_or_load_ledger_def snapshot_def result_simps split: sum.splits)

definition same_case_rows :: "case_db \<Rightarrow> case_db \<Rightarrow> bool" where
  "same_case_rows db db' \<longleftrightarrow> cas_cases db' = cas_cases db \<and> cas_conditions db' = cas_conditions db \<and> cas_outbox db' = cas_outbox db"

lemma late_run:
  assumes "List.find (\<lambda>l. led_tenantId l = st_tenantId st \<and> led_workflowRunId l = st_workflowRunId st) (ledgers (cas_budget db)) = Some l"
    and "\<And>n. led_deadlineAt l \<le> kin_now (is n)" "st = ari_initialState inp"
    and "prun (pbind (run_agent env inp) (settle_run env t c v)) is db = (r, db')"
  shows "(\<forall>v. r = Inr v \<longrightarrow> (\<exists>why. v = EvalReviewRequired why)) \<and> same_case_rows db db'"
proof -
  let ?in = "ledger_input inp"
  have key: "in_tenantId ?in = st_tenantId st" "in_workflowRunId ?in = st_workflowRunId st"
    by (simp_all add: ledger_input_def Let_def assms(3))
  obtain q b where load: "createOrLoad (clock_of (is 1)) (kin_ids (is 1) 0) ?in (cas_budget db) = (q, b)" by fastforce
  have b: "b = cas_budget db" and dl: "q = Inr sn \<Longrightarrow> snap_deadlineAt sn = led_deadlineAt l" for sn
    using load_deadline [OF _ load, unfolded key, OF assms(1)] by auto
  show ?thesis
  proof (cases q)
    case (Inl e)
    with load assms(4) show ?thesis
      by (auto simp: run_agent_def now_js_def on_budget_def pbind_assoc same_case_rows_def b)
  next
    case (Inr sn)
    show ?thesis
    proof (cases "buildToolRegistry (filter (\<lambda>t. tool_name t \<in> set (ari_allowedTools inp)) (allTools env))")
      case (Inl e)
      with load Inr assms(4) show ?thesis
        by (auto simp: run_agent_def now_js_def on_budget_def pbind_assoc same_case_rows_def b)
    next
      case (Inr reg)
      let ?rs = "\<lparr>rts_agentState = applyBudgetSnapshot (ari_initialState inp) sn, rts_route = None, rts_policyEvaluation = None\<rparr>"
      let ?f = "\<lambda>rs. pbind (persistAgentRun (kin_now (is 0)) (result_of rs)) (\<lambda>_. settle_run env t c v (result_of rs))"
      have "st_runDeadlineAt (rts_agentState ?rs) \<le> kin_now (is (0 + 2))"
        using dl [OF \<open>q = Inr sn\<close>] assms(2) by (simp add: applyBudgetSnapshot_def)
      then obtain rs' k where rs': "manual rs'"
          "prun (pbind (graph env reg ?rs) ?f) (\<lambda>n. is (n + 2)) db = prun (?f rs') (\<lambda>n. is (n + k + 2)) db"
        using graph_late [of ?rs "\<lambda>n. is (n + 2)" env reg ?f db] by auto
      have "prun (?f rs') (\<lambda>n. is (n + k + 2)) db = (r, db')"
        using load \<open>q = Inr sn\<close> Inr assms(4) rs'(2) by (simp add: run_agent_def now_js_def on_budget_def pbind_assoc b)
      with rs'(1) show ?thesis
        by (auto simp: persistAgentRun_def run_txn_def settle_run_def result_of_def manual_def same_case_rows_def split: if_splits)
    qed
  qed
qed

text \<open>
  C34. An evaluation resumed after its deadline never proceeds. A workflow that was interrupted
  for review evaluates again under the same run id, so it gets the budget ledger of its first
  evaluation with the deadline of that one. Once that deadline has passed, every evaluation
  of the run fails or asks for manual review, and it touches neither case nor conditions nor
  outbox.
\<close>

theorem resumed_evaluation_never_proceeds:
  assumes "List.find (\<lambda>l. led_tenantId l = t \<and> led_workflowRunId l = runId) (ledgers (cas_budget db)) = Some l"
    and "\<And>n. led_deadlineAt l \<le> kin_now (is n)"
    and "prun (evaluateConditions env t c runId) is db = (r, db')"
  shows "(\<forall>v. r = Inr v \<longrightarrow> (\<exists>why. v = EvalReviewRequired why))
    \<and> cas_cases db' = cas_cases db \<and> cas_conditions db' = cas_conditions db \<and> cas_outbox db' = cas_outbox db"
proof (cases "find_case db t c")
  case None
  with assms(3) show ?thesis by (auto simp: evaluateConditions_def case_or_fail_def or_throw_def)
next
  case (Some row)
  then have row: "lc_tenantId row = t" by (auto simp: find_case_def dest: find_SomeD)
  show ?thesis
  proof (cases "List.find (\<lambda>x. trb_tenantId x = t) (cas_tenants db)")
    case None
    with Some assms(3) show ?thesis
      by (auto simp: evaluateConditions_def case_or_fail_def tenant_or_fail_def or_throw_def)
  next
    case (Some tenant)
    let ?st = "initial_state env row runId (getStatus (kin_now (is 1)) t c (cas_platform db)) (resolveAgentRunBudget tenant) (kin_now (is 3))"
    have main: "prun (pbind (run_agent env (run_input env ?st (resolveAgentRunBudget tenant))) (settle_run env t c (lc_version row)))
        (\<lambda>n. is (n + 4)) db = (r, db')"
      using assms(3) Some \<open>find_case db t c = Some row\<close>
      by (simp add: evaluateConditions_def case_or_fail_def tenant_or_fail_def or_throw_def now_js_def Let_def numeral_eq_Suc)
    have led: "List.find (\<lambda>l. led_tenantId l = st_tenantId ?st \<and> led_workflowRunId l = st_workflowRunId ?st) (ledgers (cas_budget db)) = Some l"
      using assms(1) row by (simp add: initial_state_def)
    show ?thesis
      using late_run [OF led _ _ main] assms(2) by (simp add: run_input_def same_case_rows_def)
  qed
qed

section \<open>Witnesses\<close>

lemma kx_pool: "pstep\<^sup>*\<^sup>* (map (case_handler kx_env) kx_calls, kx_db JNull) (fst kx_end, snd kx_end)"
  unfolding kx_end_def prod.collapse by (rule run_schedule_steps)

lemma kx_start: "cas_cases (kx_db i) = []" "cas_runs (kx_db i) = []" "cas_budget (kx_db i) = empty_budget (tenants (cas_budget (kx_db i)))"
  by (simp_all add: kx_db_def empty_budget_def)

lemma kx_case:
  obtains c where "c \<in> set (cas_cases (snd kx_end))" "lc_tenantId c = ''t''" "lc_id c = ''x30''" "lc_status c = MANUAL_REVIEW"
    "find_case (snd kx_end) ''t'' ''x30'' = Some c"
proof -
  obtain c where "cas_cases (snd kx_end) = [c]" "(lc_tenantId c, lc_id c, lc_status c) = (''t'', ''x30'', MANUAL_REVIEW)"
    using kx_cases by (auto simp: map_eq_Cons_conv)
  then show thesis by (intro that [of c]) (simp_all add: find_case_def)
qed

lemma kx_inv: "case_inv (snd kx_end)"
  using case_pool [OF kx_pool case_start [OF kx_start]] by blast

theorem status_replays_from_outbox_witness: "replay (events_of (snd kx_end) ''t'' ''x30'') = Some MANUAL_REVIEW"
  using kx_case status_replays_from_outbox [OF kx_start kx_pool] by metis

theorem create_case_is_idempotent_witness:
  "\<exists>c. filter (by_key ''t'' ''key'') (cas_cases (snd kx_end)) = [c] \<and> lc_id c = ''x30''"
proof -
  have n: "1 < length kx_calls" "kx_calls ! 1 = CreateCase ''key'' ''t'' kx_dto" by (simp_all add: kx_calls_def)
  have "length (fst kx_end) = 4" using arg_cong [OF kx_replies, of length] by simp
  then have "reply_of (fst kx_end ! 1) = Some (Inr (CaseId ''x30''))" using arg_cong [OF kx_replies, of "\<lambda>xs. xs ! 1"] by simp
  then have "fst kx_end ! 1 = Ret (Inr (CaseId ''x30''))" by simp
  then show ?thesis using create_case_is_idempotent [OF kx_start kx_pool n] by blast
qed

theorem no_proposal_without_manifest_witness:
  "\<exists>r \<in> set (cas_runs kx_proposed). run_route r = PROPOSED_ACTION
     \<and> (\<exists>m \<in> set (cas_manifests kx_proposed). eim_tenantId m = ''t'' \<and> eim_caseId m = ''x30'')"
proof -
  obtain r where r: "r \<in> set (cas_runs kx_proposed)" "run_tenantId r = ''t''" "run_caseId r = ''x30''" "run_route r = PROPOSED_ACTION"
    using kx_proposed_run by (auto simp: map_eq_Cons_conv)
  obtain ps where "pstep\<^sup>*\<^sup>* (map (case_handler kx_env) kx_run_calls, kx_db JNull) (ps, kx_proposed)"
    using kx_proposed_steps by blast
  from no_proposal_without_manifest [OF kx_start this r(1,4)] r show ?thesis by auto
qed

text \<open>The cancelled workflow of the case is recovered: its open condition is waived, and the case becomes ready.\<close>

definition kx_condition :: LoanCondition where
  "kx_condition =
     \<lparr>cnd_id = ''cnd'', cnd_tenantId = ''t'', cnd_caseId = ''x30'', cnd_code = ''INCOME'', cnd_description = [],
      cnd_status = COND_OPEN, cnd_policySnapshotId = None, cnd_evaluationManifestId = None, cnd_version = 1, cnd_createdAt = 0\<rparr>"

definition kx_open :: case_db where
  "kx_open = (snd kx_end)\<lparr>cas_conditions := [kx_condition]\<rparr>"

definition kx_waive :: ResolveConditionSignalPayload where
  "kx_waive = \<lparr>rcp_actorId = ''rev'', rcp_resolution = WAIVED, rcp_reason = None\<rparr>"

definition kx_workflow :: "string option \<Rightarrow> execution" where
  "kx_workflow rec = started \<lparr>wfi_tenantId = ''t'', wfi_caseId = ''x30'', wfi_borrowerId = ''b'', wfi_recoveryOfRunId = rec\<rparr> ''run''"

definition kx_recovery :: wf_state where
  "kx_recovery = wf_moves kx_env
     [Schedule (PrepareRecoveryAct ''run0''), RunTask 0 (kx_in 20), RunTask 0 (kx_in 21), Complete (PrepareRecoveryAct ''run0''),
      SignalResolution kx_waive, Wake,
      Schedule (ResolveAct ''cnd'' kx_waive), RunTask 1 (kx_in 22), RunTask 1 (kx_in 23), Complete (ResolveAct ''cnd'' kx_waive),
      Schedule MarkReadyAct, RunTask 2 (kx_in 24), RunTask 2 (kx_in 25), Complete MarkReadyAct]
     (kx_workflow (Some ''run0''), [], [], kx_open)"

lemma kx_open_inv: "case_inv kx_open"
  using unmoved_ok [OF kx_inv, of kx_open] by (simp add: unmoved_def kx_open_def)

lemma kx_open_rows:
  "cas_conditions kx_open = [kx_condition]" "cas_transitions kx_open = []" "map obx_id (cas_outbox kx_open) = [''x31'', ''x120'', ''x140'']"
  "com_templates (cas_comms kx_open) = []"
  by (simp_all add: kx_open_def kx_end_def kx_sched_def kx_calls_def kx_prog kx_data kx_ids)

lemma kx_open_ids: "obx_id ` set (cas_outbox kx_open) = {''x31'', ''x120'', ''x140''}"
  using arg_cong [OF kx_open_rows(3), of set] by simp

lemma kx_more_ids:
  "nat_text 210 = ''210''" "nat_text 230 = ''230''" "nat_text 231 = ''231''" "nat_text 240 = ''240''"
  by code_simp+

lemma kx_recovered: "wx_point (fst kx_recovery) = Returned \<lparr>wfr_finalStatus = READY_FOR_UNDERWRITING, wfr_conditionId = Some ''cnd''\<rparr>"
proof -
  obtain reg where "buildToolRegistry [draftInformationRequestTool kx_env, sendInformationRequestTool kx_env] = Inr reg"
    using notification_registry by blast
  then show ?thesis
  by (simp add: kx_recovery_def wf_moves_def kx_workflow_def started_def start_point_def truthy_def
      prepareWorkflowRecovery_def resolveCondition_def condition_or_fail_def markReadyForUnderwriting_def sendReadyForUnderwritingNotification_def
      query_def act_def preturn_def active_conditions_def recovery_txn_def resolve_condition_txn_def finalizeReadyForUnderwriting_def
      no_result_def run_txn_def put_event_def or_throw_def Let_def kx_open_rows kx_open_ids kx_condition_def kx_waive_def kx_in_def kx_more_ids
      after_result_def next_point_def after_recovery_def woken_def ended_def set_cases_def has_approved_template_def)
qed

theorem ready_workflow_was_earned_witness:
  "\<exists>x run ts db. kx_recovery = (x, run, ts, db) \<and> (\<exists>p \<in> set (wx_history x). \<exists>tr \<in> set (cas_transitions db).
     ctr_conditionId tr = ''cnd'' \<and> ctr_toStatus tr = resolution_status (rcp_resolution p) \<and> ctr_actorId tr = Some (rcp_actorId p))"
proof -
  obtain x run ts db where k: "kx_recovery = (x, run, ts, db)" by (metis prod_cases4)
  have steps: "(wf_step kx_env)\<^sup>*\<^sup>* (kx_workflow (Some ''run0''), [], [], kx_open) kx_recovery"
    unfolding kx_recovery_def by (rule wf_moves_steps)
  have "wx_point x = Returned \<lparr>wfr_finalStatus = READY_FOR_UNDERWRITING, wfr_conditionId = Some ''cnd''\<rparr>"
    using kx_recovered by (simp add: k)
  from ready_workflow_was_earned [OF kx_open_inv steps [unfolded k kx_workflow_def] this]
  show ?thesis unfolding k by simp
qed

text \<open>A workflow that received the waiver while its evaluation was running.\<close>

definition kx_early :: execution where
  "kx_early = (kx_workflow None)\<lparr>wx_point := Evaluating, wx_resolution := Some kx_waive, wx_history := [kx_waive]\<rparr>"

theorem early_resolution_settles_later_condition_witness:
  "\<exists>ts db. (wf_step kx_env)\<^sup>*\<^sup>* (kx_early, [(EvaluateAct, 1, 0)], [Ret (Inr (Evaluation (EvalConditionOpened ''cnd'')))], kx_open)
      (kx_early\<lparr>wx_point := Returned \<lparr>wfr_finalStatus = READY_FOR_UNDERWRITING, wfr_conditionId = Some ''cnd''\<rparr>\<rparr>, [], ts, db)
    \<and> settled_by ''cnd'' kx_waive db"
proof -
  have x: "wx_point kx_early = Evaluating" "wx_resolution kx_early = Some kx_waive" by (simp_all add: kx_early_def)
  have c: "kx_condition \<in> set (cas_conditions kx_open)" "cnd_id kx_condition = ''cnd''"
    by (simp_all add: kx_open_rows kx_condition_def)
  show ?thesis
    using early_resolution_settles_later_condition [OF x _ c kx_open_inv,
        where ts = "[Ret (Inr (Evaluation (EvalConditionOpened ''cnd'')))]" and n = 0 and m = 1 and env = kx_env] by auto
qed

theorem cancellation_can_undo_ready_witness:
  "\<exists>ps db1 ps' db2. pstep\<^sup>*\<^sup>* (map (case_handler kx_env) [MarkCancelled ''t'' ''x30'', MarkReady ''t'' ''x30''], snd kx_end) (ps, db1)
    \<and> map_option lc_status (find_case db1 ''t'' ''x30'') = Some READY_FOR_UNDERWRITING
    \<and> pstep\<^sup>*\<^sup>* (ps, db1) (ps', db2) \<and> map_option lc_status (find_case db2 ''t'' ''x30'') = Some MANUAL_REVIEW"
proof -
  obtain c where "find_case (snd kx_end) ''t'' ''x30'' = Some c" "\<not> cancel_keeps (lc_status c)"
    using kx_case by (metis CaseStatus.distinct cancel_keeps_def)
  from cancellation_can_undo_ready [OF this, of kx_env] show ?thesis by blast
qed

text \<open>The case is evaluated again under a ledger whose deadline is an hour ago.\<close>

definition kx_ledger :: AgentBudgetLedger where
  "kx_ledger = new_ledger ''led''
     \<lparr>in_tenantId = ''t'', in_caseId = ''x30'', in_workflowRunId = ''run'', in_stepLimit = js_int 10, in_tokenLimit = js_int 0,
      in_providerCallLimit = js_int 0, in_costLimitMinorUnits = js_int 0, in_currency = ''USD'',
      in_startedAt = kx_now - 3675000, in_deadlineAt = kx_now - 3600000\<rparr>
     \<lparr>stepUnits = 10, tokenUnits = 0, providerCallUnits = 0, costMinorUnits = 0\<rparr>"

definition kx_late :: case_db where
  "kx_late = (snd kx_end)\<lparr>cas_budget := (cas_budget (snd kx_end))\<lparr>ledgers := [kx_ledger]\<rparr>\<rparr>"

theorem resumed_evaluation_never_proceeds_witness:
  "fst (prun (evaluateConditions kx_env ''t'' ''x30'' ''run'') kx_in kx_late) \<noteq> Inr EvalReady
   \<and> cas_cases (snd (prun (evaluateConditions kx_env ''t'' ''x30'' ''run'') kx_in kx_late)) = cas_cases kx_late"
proof -
  have l: "List.find (\<lambda>l. led_tenantId l = ''t'' \<and> led_workflowRunId l = ''run'') (ledgers (cas_budget kx_late)) = Some kx_ledger"
    by (simp add: kx_late_def kx_ledger_def new_ledger_def)
  have d: "led_deadlineAt kx_ledger \<le> kin_now (kx_in n)" for n
    by (simp add: kx_ledger_def new_ledger_def kx_in_def)
  show ?thesis
    using resumed_evaluation_never_proceeds [of "''t''" "''run''" kx_late kx_ledger kx_in kx_env "''x30''", OF l d prod.collapse [symmetric]]
    by auto
qed

end
