(* ===== verification/Spec2Isabelle.thy ===== *)
theory Spec2Isabelle
  imports Budget_Properties Provider_Properties Consent_Properties Governance_Properties
    Policy_Rule_Properties Policy_Properties Webhook_Properties
    Communication_Properties Case_Properties
begin

text \<open>
  A verification development for the mortgage integration agent, a NestJS service with
  PostgreSQL and Temporal under \<open>src/src\<close>.

  \<^bold>\<open>The program.\<close> A tenant creates a loan case through the case API; the case gets an
  implicit consent, and a durable workflow takes it on. The workflow collects evidence from
  providers, lets a bounded agent run evaluate the case against the policy in force, and
  either finishes the case, opens a condition and waits for a reviewer, or hands the case to
  manual review. Every provider call goes through the provider platform (operation intents,
  grants, permissible purposes, kill switches, promotion of adapters); every tool of the agent
  through the budget ledger; every message to a borrower through classification and approval;
  every change of a case leaves an event in the outbox, from which signed webhooks are
  delivered. Policy rules are written in a small language and released under four eyes; a
  case is bound to the versions that were evaluated. Consent can be revoked, which opens a
  review of the data, under legal holds.

  \<^bold>\<open>Shared theories.\<close>

  \<^item> \<open>Prelude\<close>: results as sums, transactions (\<open>run_txn\<close>: a throw rolls back), tables
    as lists, JavaScript numbers, and the collections of rewrite rules. \<open>Text_Format\<close>,
    \<open>Js_Number\<close>, \<open>Iso_Date\<close>: numerals, binary64 rounding, \<open>toISOString\<close>.
  \<^item> \<open>Json\<close>: canonical JSON texts (\<open>canonicalJson\<close> of \<open>provider-operation-intent.service.ts\<close>, and
    \<open>policy-digest.ts\<close> with the member order of a rebuilt object); each text identifies exactly
    reorderings of members. \<open>Sensitive_Cipher\<close>: field encryption.
  \<^item> \<open>Interleaving\<close>: a handler is the tree of its awaited calls, \<open>pstep\<close> runs a pool of
    handlers in any order, and the locale \<open>rely_guarantee\<close> turns per-handler obligations into
    invariants of all interleavings. \<open>Running_Alone\<close> (\<open>runs\<close>, \<open>serial\<close>, \<open>history\<close>) and
    \<open>Keeping\<close> (\<open>keeps\<close>, \<open>steps_in\<close>) are its logics for one handler. \<open>Exclusive_Claims\<close>
    adds the claim a handler holds: its locale \<open>claim_discipline\<close> shows that no effect that is
    claimed before it is performed is performed twice.
  \<^item> \<open>Account_Book\<close>: the locale \<open>account_book\<close> for counters kept beside their entries,
    and \<open>invariant_system\<close> for invariants of operation sequences. Every locale is
    interpreted on the definitions of a component.

  \<^bold>\<open>Components.\<close> State is a record of tables, operations are functions on it, errors are
  constructors of one datatype per component; what a step reads from outside (clocks, ids,
  whether another transaction committed in between) is an input of the step.

  \<^item> Budget: \<open>Budget_Ledger\<close> is \<open>agent-budget-ledger.service.ts\<close>, every operation.
    \<open>Budget_Invariant\<close> shows that counters and reservations balance within the limits,
    \<open>Budget_Properties\<close> that claims are idempotent, final once settled, and settleable.
  \<^item> Provider platform: \<open>Platform\<close> (entities), \<open>Provider_Intents\<close>,
    \<open>Provider_Governance\<close>, \<open>Provider_Authorization\<close>, \<open>Provider_Dispatch\<close> are the
    services of \<open>src/src/provider-platform\<close>; \<open>Provider_System\<close> lists all operations and what they
    keep, \<open>Dispatch_Safety\<close> follows one dispatch among them, \<open>Dispatch_Pool\<close> runs several in
    one pool, as programs that alone are the same dispatch. \<open>Provider_Properties\<close>,
    \<open>Governance_Properties\<close>: submissions need authority, happen once, are classified;
    activation needs four eyes; the kill switch stops; findings are canonical.
  \<^item> Consent: \<open>Consent_Disposition\<close> is \<open>consent.service.ts\<close>,
    \<open>data-disposition.service.ts\<close> and \<open>legal-hold.service.ts\<close>, with
    \<open>Consent_Properties\<close>.
  \<^item> Policy: \<open>Policy_Dsl\<close> (\<open>src/src/policy/dsl\<close>), \<open>Policy_Catalog\<close> and
    \<open>Policy_Resolver\<close> (applicability), \<open>Policy_Lifecycle\<close> and \<open>Policy_Service\<close>
    (release, impact, source monitoring), \<open>Policy_Evaluation\<close> (bindings),
    \<open>Policy_System\<close> (all of them interleaved). The refinement states that an
    evaluation equals what the resolver would find now.
  \<^item> Webhooks: \<open>Webhook_Guard\<close> and \<open>Webhook_Address\<close> (target guard against
    the address ranges), \<open>Webhook_Dispatch\<close> and \<open>Webhook_System\<close> (outbox, fan-out,
    attempts, signatures).
  \<^item> Communications: \<open>Communications\<close> (render, classify, draft, approve, deliver),
    \<open>Communication_System\<close>, \<open>Communication_Properties\<close>.
  \<^item> Cases: \<open>Case_Records\<close> has the rows and the state of the whole case system, with the
    states of the components inside (\<open>zoom\<close> runs a component's program there). \<open>Agent_Tools\<close>
    and \<open>Agent_Run\<close> are \<open>src/src/agent-runtime\<close>; \<open>Case_Activities\<close> is
    \<open>case-conditions.activities.ts\<close>; \<open>Case_Service\<close> is \<open>cases.service.ts\<close> with
    \<open>temporal-client.service.ts\<close>; \<open>Case_Workflow\<close> is \<open>case-conditions.workflow.ts\<close> as
    an inductive step relation with retried, abandoned and lost activities, signals and
    cancellation. \<open>Case_System\<close> holds the invariant of all handlers: the status of a case
    is what its events say. \<open>Case_Scenario\<close> and \<open>Agent_Scenario\<close> run concrete cases;
    \<open>Case_Properties\<close> has the theorems and the ways in which waiting, cancellation and
    signals go wrong.

  \<^bold>\<open>Kinds of statement.\<close> Properties under \<open>pstep\<close> or \<open>wf_step\<close> hold for every
  interleaving. Those under \<open>serial\<close> or \<open>history\<close> hold when handlers do not overlap, and a companion
  theorem shows how they fail otherwise (\<open>overlapping_ticks_undo_success\<close>, \<open>late_attempt_reopens_window\<close>,
  \<open>approval_after_sending_sends_again\<close>). Properties of kind error state what the code does
  although its comments promise otherwise.

  \<^bold>\<open>Bounds and termination.\<close> All functions are total. The JSON reader has fuel, the number
  of its tokens, which is shown to be enough; the walk over the jurisdictions ends by the
  measure of codes not yet visited; splitting of texts by their length. An activity has at
  most three attempts, a webhook delivery at most five. Budget counters are PostgreSQL
  \<open>int4\<close>, with the range errors written out. A handler is a finite tree, so it ends; the
  workflow may wait forever.

  \<^bold>\<open>Parameters.\<close> Code outside the repository is an argument: SHA-256, HMAC and
  authenticated encryption, URL parsing and name resolution, date parsing, the JSON lexer,
  the text of errors, the storage of decimals, provider adapters, and the replies of the
  planner model and of the workflow service. Hypotheses on them (an encryption that opens what it
  sealed, an injective digest) stand in the theorems that need them.

  \<^bold>\<open>Not modelled.\<close> The console and the client library (user interface); controllers and
  resolvers (delegation); authentication and sessions (third-party libraries; tenant and
  actor are arguments here); case queries and the timeline (SQL for display); policy research;
  provider simulators (they are the parameter \<open>registry\<close>); the legacy loan path; document
  storage, audit listings, telemetry, health, start-up checks, migrations and scripts. Statements
  of one transaction are one step, except where the code reads and writes in statements
  between which another transaction can commit; those are separate steps. Time-outs of the
  workflow service are choices of the environment, not clocks.
\<close>

end
